(* ===== verification/Prelude.thy ===== *)
theory Prelude
  imports Main "HOL-Library.Word"
begin

text \<open>
  The library the components share: the fixed width integers of the C code, the heap and memory
  copies it uses, masks and byte splitting, and decimal printing.

  \<^item> \<open>u8\<close> to \<open>u64\<close> are the types \<open>uint8_t\<close> to \<open>uint64_t\<close>; arithmetic on them wraps as it
    does in C. A \<open>size_t\<close> is a \<open>nat\<close> where nothing depends on its width.
  \<^item> A \<open>heap\<close> answers the calls to \<open>malloc\<close> of one operation: no memory, or a block
    whose bytes are not determined. \<open>heap_ok\<close> states the documented behaviour of \<open>malloc\<close>.
  \<^item> \<open>blit\<close> is \<open>memcpy\<close> into the middle of a block.
\<close>

unbundle bit_operations_syntax

section \<open>Machine integers\<close>

type_synonym u8 = "8 word"
type_synonym u16 = "16 word"
type_synonym u32 = "32 word"
type_synonym u64 = "64 word"

named_theorems masks "numeral masks written as \<open>mask n\<close>"

lemma masks_u8 [masks]:
  "(0x03 :: u8) = mask 2" "(0x0F :: u8) = mask 4" "(0x1F :: u8) = mask 5" "(0xFF :: u8) = mask 8"
  by (simp_all add: mask_eq_exp_minus_1)

lemma masks_u16 [masks]:
  "(0x0F :: u16) = mask 4" "(0xFF :: u16) = mask 8" "(0x0FFF :: u16) = mask 12"
  "(0xFFFF :: u16) = mask 16"
  by (simp_all add: mask_eq_exp_minus_1)

lemma masks_u32 [masks]:
  "(0x03 :: u32) = mask 2" "(0x0F :: u32) = mask 4"
  "(0x1F :: u32) = mask 5" "(0xFF :: u32) = mask 8" "(0x0FFF :: u32) = mask 12"
  "(0xFFFF :: u32) = mask 16" "(0x1FFFFFFF :: u32) = mask 29"
  by (simp_all add: mask_eq_exp_minus_1)

lemma unat_lt_2p: "unat (w :: 'a::len word) < 2 ^ LENGTH('a)"
  by simp

lemma unat_ucast_le:
  "LENGTH('a::len) \<le> LENGTH('b::len) \<Longrightarrow> unat (ucast (w :: 'a word) :: 'b word) = unat w"
  by (simp add: unsigned_ucast_eq take_bit_nat_eq_self
      less_le_trans [OF unat_lt_2p power_increasing])

lemma unat_ucast_u8_u16 [simp]: "unat (ucast (w :: u8) :: u16) = unat w"
  by (simp add: unat_ucast_le)

lemma unat_ucast_u8_u32 [simp]: "unat (ucast (w :: u8) :: u32) = unat w"
  by (simp add: unat_ucast_le)

lemma unat_ucast_u16_u32 [simp]: "unat (ucast (w :: u16) :: u32) = unat w"
  by (simp add: unat_ucast_le)

lemma ucast_u8_u32_inj [simp]: "(ucast (a :: u8) :: u32) = ucast b \<longleftrightarrow> a = b"
  by (metis unat_ucast_u8_u32 unsigned_word_eqI)

lemma unat_of_nat_u16: "n < 65536 \<Longrightarrow> unat (of_nat n :: u16) = n"
  and unat_of_nat_u32: "n < 4294967296 \<Longrightarrow> unat (of_nat n :: u32) = n"
  by (simp_all add: unat_of_nat take_bit_nat_eq_self)

lemma unat_add_le: "unat (a + b :: 'a::len word) \<le> unat a + unat b"
  by (simp add: unat_word_ariths)

lemma unat_u16_less: "unat (w :: u16) < 65536"
  using unat_lt_2p [of w] by simp

lemma unat_u8_less: "unat (w :: u8) < 256"
  using unat_lt_2p [of w] by simp

lemma and_numeral_mask_self:
  "unat (w :: 'a::len word) < 2 ^ n \<Longrightarrow> w AND mask n = w"
  by (metis take_bit_eq_mask unsigned_take_bit_eq take_bit_nat_eq_self unsigned_word_eqI)


text \<open>The bits of a field that was put into a wider word, and of a field taken out of one.\<close>

named_theorems fields "bits of packed fields"

lemma bit_field_put [fields]:
  "bit (push_bit k (ucast (w :: 'a::len word) AND mask m) :: 'b::len word) n \<longleftrightarrow>
    k \<le> n \<and> n < k + m \<and> n < LENGTH('b) \<and> bit w (n - k)"
  by (auto simp: bit_simps)

lemma bit_field_put_same:
  "bit (push_bit k ((w :: 'a::len word) AND mask m)) n \<longleftrightarrow> k \<le> n \<and> n < k + m \<and> n < LENGTH('a) \<and> bit w (n - k)"
  by (auto simp: bit_simps)

lemma bit_field_put_0 [fields]:
  "bit (ucast (w :: 'a::len word) AND mask m :: 'b::len word) n \<longleftrightarrow> n < m \<and> n < LENGTH('b) \<and> bit w n"
  by (auto simp: bit_simps)

lemma bit_flag_put [fields]: "bit (push_bit k 1 :: 'b::len word) n \<longleftrightarrow> n = k \<and> k < LENGTH('b)"
  by (auto simp only: bit_push_bit_iff bit_1_iff possible_bit_word)

lemma bit_field_get [fields]:
  "bit (ucast (drop_bit k (w :: 'a::len word) AND mask m) :: 'b::len word) n \<longleftrightarrow>
    n < m \<and> n < LENGTH('b) \<and> bit w (k + n)"
  by (auto simp: bit_simps dest: bit_imp_le_length)

lemma bit_field_get_0 [fields]:
  "bit (ucast ((w :: 'a::len word) AND mask m) :: 'b::len word) n \<longleftrightarrow> n < m \<and> n < LENGTH('b) \<and> bit w n"
  by (auto simp: bit_simps dest: bit_imp_le_length)

lemma bit_and_mask_iff [fields]: "bit ((w :: 'a::len word) AND mask m) n \<longleftrightarrow> n < m \<and> bit w n"
  by (auto simp: bit_simps dest: bit_imp_le_length)


section \<open>Bytes of an integer, least significant first\<close>

definition lo8 :: "u16 \<Rightarrow> u8" where
  "lo8 w = ucast (w AND 0x00FF)"

definition hi8 :: "u16 \<Rightarrow> u8" where
  "hi8 w = ucast (drop_bit 8 w)"

definition le16 :: "u8 \<Rightarrow> u8 \<Rightarrow> u16" where
  "le16 lo hi = ucast lo OR push_bit 8 (ucast hi)"

lemma le16_lo8_hi8 [simp]: "le16 (lo8 w) (hi8 w) = w"
  unfolding le16_def lo8_def hi8_def
  by (rule bit_word_eqI) (auto simp: bit_simps masks dest: bit_imp_le_length)

lemma lo8_le16 [simp]: "lo8 (le16 l h) = l"
  unfolding le16_def lo8_def
  by (rule bit_word_eqI) (auto simp: bit_simps masks dest: bit_imp_le_length)

lemma hi8_le16 [simp]: "hi8 (le16 l h) = h"
  unfolding le16_def hi8_def
  by (rule bit_word_eqI) (auto simp: bit_simps dest: bit_imp_le_length)


section \<open>Memory\<close>

type_synonym heap = "nat \<Rightarrow> u8 list option"

definition heap_ok :: "heap \<Rightarrow> bool" where
  "heap_ok h \<longleftrightarrow> (\<forall>n bs. h n = Some bs \<longrightarrow> length bs = n)"

definition heap_total :: "heap \<Rightarrow> bool" where
  "heap_total h \<longleftrightarrow> heap_ok h \<and> (\<forall>n. h n \<noteq> None)"

lemma heap_okD: "heap_ok h \<Longrightarrow> h n = Some bs \<Longrightarrow> length bs = n"
  by (simp add: heap_ok_def)

lemma heap_totalD: "heap_total h \<Longrightarrow> heap_ok h"
  by (simp add: heap_total_def)

lemma heap_totalE:
  assumes "heap_total h"
  obtains bs where "h n = Some bs" and "length bs = n"
  using assms unfolding heap_total_def heap_ok_def by blast

text \<open>A heap that never runs out, and one that is exhausted.\<close>

definition heap_zeros :: heap where
  "heap_zeros n = Some (replicate n 0)"

definition heap_none :: heap where
  "heap_none n = None"

lemma heap_total_zeros [simp]: "heap_total heap_zeros"
  by (auto simp: heap_total_def heap_ok_def heap_zeros_def)

lemma heap_ok_none [simp]: "heap_ok heap_none"
  by (simp add: heap_ok_def heap_none_def)

definition blit :: "'a list \<Rightarrow> nat \<Rightarrow> 'a list \<Rightarrow> 'a list" where
  "blit dst off src = take off dst @ src @ drop (off + length src) dst"

lemma length_blit [simp]: "off + length src \<le> length dst \<Longrightarrow> length (blit dst off src) = length dst"
  by (simp add: blit_def)

lemma blit_Nil [simp]: "off \<le> length dst \<Longrightarrow> blit dst off [] = dst"
  by (simp add: blit_def)

lemma blit_whole: "length src = length dst \<Longrightarrow> blit dst 0 src = src"
  by (simp add: blit_def)

lemma take_blit_prefix:
  "off \<le> length dst \<Longrightarrow> take (off + length src) (blit dst off src) = take off dst @ src"
  by (simp add: blit_def min_def)

lemma take_blit_before: "n \<le> off \<Longrightarrow> off \<le> length dst \<Longrightarrow> take n (blit dst off src) = take n dst"
  by (simp add: blit_def min_def)

lemma drop_blit_after:
  "off + length src \<le> n \<Longrightarrow> off + length src \<le> length dst \<Longrightarrow> drop n (blit dst off src) = drop n dst"
  by (simp add: blit_def min_def)

lemma nth_blit:
  "off + length src \<le> length dst \<Longrightarrow> i < length dst \<Longrightarrow>
    blit dst off src ! i = (if off \<le> i \<and> i < off + length src then src ! (i - off) else dst ! i)"
  by (auto simp: blit_def nth_append min_def)

lemma slice_blit_self:
  "off + length src \<le> length dst \<Longrightarrow> take (length src) (drop off (blit dst off src)) = src"
  by (simp add: blit_def)

lemma slice_blit_other:
  assumes "off + length src \<le> length dst" and "a + n \<le> off \<or> off + length src \<le> a"
  shows "take n (drop a (blit dst off src)) = take n (drop a dst)"
  using assms by (intro nth_equalityI) (auto simp: nth_blit)


lemma slice_blit_within:
  assumes "off + length src \<le> n" and "a + n \<le> length dst"
  shows "take n (drop a (blit dst (a + off) src)) = blit (take n (drop a dst)) off src"
proof (rule nth_equalityI)
  have len: "length (blit dst (a + off) src) = length dst"
    using assms by simp
  show "length (take n (drop a (blit dst (a + off) src))) = length (blit (take n (drop a dst)) off src)"
    using assms len by simp
  fix i
  assume "i < length (take n (drop a (blit dst (a + off) src)))"
  then have "i < n"
    by simp
  then show "take n (drop a (blit dst (a + off) src)) ! i = blit (take n (drop a dst)) off src ! i"
    using assms len by (auto simp: nth_blit)
qed


section \<open>Lists and options\<close>

lemma list_update_eq_map_if:
  "xs[i := y] = map (\<lambda>j. if j = i then y else xs ! j) [0..<length xs]"
  by (rule nth_equalityI) (auto simp: nth_list_update)

lemma set_list_update_subset: "set (xs[i := y]) \<subseteq> insert y (set xs)"
  by (rule set_update_subset_insert)

lemma take_drop_append_nth:
  "i < length xs \<Longrightarrow> take n (drop i xs) = (if n = 0 then [] else xs ! i # take (n - 1) (drop (Suc i) xs))"
  by (cases n) (auto simp: Cons_nth_drop_Suc [symmetric])

lemma concat_pieces: "concat (map (\<lambda>i. take m (drop (i * m) xs)) [0..<n]) = take (n * m) xs"
proof (induction n)
  case (Suc n)
  have "take (n * m) xs @ take m (drop (n * m) xs) = take (n * m + m) xs"
    by (simp add: take_add)
  with Suc show ?case
    by (simp add: add.commute)
qed simp

lemma ceil_div_covers:
  assumes "0 < (m :: nat)"
  shows "k \<le> (k + (m - 1)) div m * m"
proof -
  define a where "a = k + (m - 1)"
  have "a = a div m * m + a mod m"
    by (rule div_mult_mod_eq [symmetric])
  moreover have "a mod m < m"
    using assms by (rule mod_less_divisor)
  ultimately have "k \<le> a div m * m"
    using assms unfolding a_def by arith
  then show ?thesis
    by (simp only: a_def)
qed

lemma below_ceil_div:
  assumes "0 < (m :: nat)" and "i < (k + (m - 1)) div m"
  shows "i * m < k"
proof -
  have "Suc i * m \<le> k + (m - 1)"
    using assms by (metis Suc_leI div_times_less_eq_dividend le_trans mult_le_mono1)
  then show ?thesis
    using assms(1) by simp
qed

lemma list_all_list_update:
  "list_all P xs \<Longrightarrow> P y \<Longrightarrow> list_all P (xs[i := y])"
  using set_update_subset_insert [of xs i y] by (auto simp: list_all_iff)


text \<open>The index of the first element with a property, as a search loop finds it.\<close>

fun first_index :: "('a \<Rightarrow> bool) \<Rightarrow> 'a list \<Rightarrow> nat option" where
  "first_index P [] = None"
| "first_index P (x # xs) = (if P x then Some 0 else map_option Suc (first_index P xs))"

lemma first_index_None [simp]: "first_index P xs = None \<longleftrightarrow> (\<forall>x\<in>set xs. \<not> P x)"
  by (induction xs) auto

lemma first_index_Some: "first_index P xs = Some i \<Longrightarrow> i < length xs \<and> P (xs ! i) \<and> (\<forall>j<i. \<not> P (xs ! j))"
  by (induction xs arbitrary: i) (auto split: if_splits simp: nth_Cons less_Suc_eq_0_disj split: nat.splits)

lemma first_index_lt: "first_index P xs = Some i \<Longrightarrow> i < length xs"
  and first_index_holds: "first_index P xs = Some i \<Longrightarrow> P (xs ! i)"
  by (auto dest: first_index_Some)

lemma first_index_unique:
  assumes "i < length xs" "P (xs ! i)" "\<And>j. j < length xs \<Longrightarrow> P (xs ! j) \<Longrightarrow> j = i"
  shows "first_index P xs = Some i"
proof (cases "first_index P xs")
  case None
  with assms(1,2) show ?thesis by (auto simp del: not_None_eq)
next
  case (Some k)
  with first_index_Some [OF Some] assms(3) [of k] show ?thesis by simp
qed


section \<open>Decimal printing\<close>

definition digit_char :: "nat \<Rightarrow> char" where
  "digit_char d = char_of (48 + d)"

fun show_nat :: "nat \<Rightarrow> string" where
  "show_nat n = (if n < 10 then [digit_char n] else show_nat (n div 10) @ [digit_char (n mod 10)])"

declare show_nat.simps [simp del]

fun nat_of_digits :: "nat \<Rightarrow> string \<Rightarrow> nat" where
  "nat_of_digits acc [] = acc"
| "nat_of_digits acc (c # cs) = nat_of_digits (10 * acc + (of_char c - 48)) cs"

lemma nat_of_digits_append:
  "nat_of_digits acc (xs @ ys) = nat_of_digits (nat_of_digits acc xs) ys"
  by (induction xs arbitrary: acc) auto

lemma of_char_digit_char: "d < 10 \<Longrightarrow> (of_char (digit_char d) :: nat) = 48 + d"
  by (simp add: digit_char_def)

lemma nat_of_digits_show_nat: "nat_of_digits 0 (show_nat n) = n"
proof (induction n rule: show_nat.induct)
  case (1 n)
  then show ?case
    by (cases "n < 10")
      (simp_all add: show_nat.simps [of n] of_char_digit_char nat_of_digits_append)
qed

lemma show_nat_inject: "show_nat m = show_nat n \<longleftrightarrow> m = n"
  by (metis nat_of_digits_show_nat)

end
