(* ===== verification/CanMessage.thy ===== *)
theory CanMessage
  imports Prelude
begin

text \<open>
  The CAN message of \<open>include/uni_can_message.h\<close> and its functions in \<open>src/uni_can_message.c\<close>.

  The union \<open>uni_can_message_data_t\<close> is read as eight bytes or as a pointer, and the flag
  \<open>UNI_CAN_MSG_FLAG_TP\<close> says which: \<open>Inline\<close> holds the bytes, \<open>Ptr\<close> the block the pointer
  leads to (\<open>None\<close> for a null pointer). A block on the heap is its content, so copying a message
  by assignment shares no state that can be changed later, while \<open>uni_can_message_clone\<close> takes
  a new block. The calls to \<open>calloc\<close> and \<open>malloc\<close> are arguments: whether the object could be
  allocated, and the heap that answers for the data.
\<close>

section \<open>Data\<close>

definition UNI_CAN_MESSAGE_MAXLEN :: nat where
  "UNI_CAN_MESSAGE_MAXLEN = 8"

definition UNI_CAN_MSG_FLAG_STD_ID :: u32 where
  "UNI_CAN_MSG_FLAG_STD_ID = 1"

definition UNI_CAN_MSG_FLAG_EXT_ID :: u32 where
  "UNI_CAN_MSG_FLAG_EXT_ID = 2"

definition UNI_CAN_MSG_FLAG_TP :: u32 where
  "UNI_CAN_MSG_FLAG_TP = 4"

lemmas can_flag_defs =
  UNI_CAN_MSG_FLAG_STD_ID_def UNI_CAN_MSG_FLAG_EXT_ID_def UNI_CAN_MSG_FLAG_TP_def

datatype uni_can_message_data = Inline "u8 list" | Ptr "u8 list option"

record uni_can_message =
  cm_time_us :: u64
  cm_id :: u32
  cm_flags :: u32
  cm_data :: uni_can_message_data
  cm_len :: u16

text \<open>Reading the union: the bytes, or the block the pointer leads to.\<close>

fun data_u8 :: "uni_can_message_data \<Rightarrow> u8 list" where
  "data_u8 (Inline bs) = bs"
| "data_u8 (Ptr _) = []"

fun data_ptr :: "uni_can_message_data \<Rightarrow> u8 list option" where
  "data_ptr (Inline _) = None"
| "data_ptr (Ptr p) = p"

definition can_is_tp :: "uni_can_message \<Rightarrow> bool" where
  "can_is_tp m \<longleftrightarrow> cm_flags m AND UNI_CAN_MSG_FLAG_TP \<noteq> 0"

text \<open>The data bytes of a frame that is not a transport message: as many as its length says.\<close>

definition can_bytes :: "uni_can_message \<Rightarrow> u8 list" where
  "can_bytes m = take (unat (cm_len m)) (data_u8 (cm_data m))"

text \<open>The zeroed object \<open>(uni_can_message_t){0}\<close>.\<close>

definition can_message_zero :: uni_can_message where
  "can_message_zero = \<lparr>cm_time_us = 0, cm_id = 0, cm_flags = 0,
     cm_data = Inline (replicate UNI_CAN_MESSAGE_MAXLEN 0), cm_len = 0\<rparr>"

text \<open>
  The memory of a message the library hands around: a transport message owns a block of \<open>len\<close> bytes,
  any other message has its eight bytes in the object. That the length of the latter is at most eight
  is not part of it: the IXXAT backend makes messages that say more, and statements that need the bound
  have it as a condition of their own.
\<close>

definition can_message_wf :: "uni_can_message \<Rightarrow> bool" where
  "can_message_wf m \<longleftrightarrow>
     (if can_is_tp m then (case cm_data m of Ptr (Some bs) \<Rightarrow> length bs = unat (cm_len m) | _ \<Rightarrow> False)
      else (case cm_data m of Inline bs \<Rightarrow> length bs = UNI_CAN_MESSAGE_MAXLEN | _ \<Rightarrow> False))"


section \<open>Operations\<close>

definition uni_can_message_create :: "bool \<Rightarrow> uni_can_message option" where
  "uni_can_message_create calloc_ok = (if calloc_ok then Some can_message_zero else None)"

definition uni_can_message_clone :: "bool \<Rightarrow> heap \<Rightarrow> uni_can_message \<Rightarrow> uni_can_message option" where
  "uni_can_message_clone calloc_ok malloc msg =
     (case uni_can_message_create calloc_ok of
        None \<Rightarrow> None
      | Some _ \<Rightarrow>
          let result = msg in
          if cm_flags result AND UNI_CAN_MSG_FLAG_TP \<noteq> 0 then
            (case malloc (unat (cm_len result)) of
               None \<Rightarrow> Some (result\<lparr>cm_data := Ptr None\<rparr>)
             | Some block \<Rightarrow>
                 (let src = (case data_ptr (cm_data msg) of None \<Rightarrow> [] | Some bs \<Rightarrow> bs)
                  in Some (result\<lparr>cm_data := Ptr (Some (blit block 0 (take (unat (cm_len result)) src)))\<rparr>)))
          else Some result)"

text \<open>What a call of \<open>uni_can_message_free\<close> gives back to the heap, in order.\<close>

datatype released = ReleasedData "u8 list option" | ReleasedMessage

definition uni_can_message_free :: "uni_can_message option \<Rightarrow> released list" where
  "uni_can_message_free msg =
     (case msg of
        None \<Rightarrow> []
      | Some m \<Rightarrow>
          (if cm_flags m AND UNI_CAN_MSG_FLAG_TP \<noteq> 0 then [ReleasedData (data_ptr (cm_data m))] else [])
          @ [ReleasedMessage])"

text \<open>
  \<open>snprintf\<close>: what it leaves in the buffer (nothing when the buffer has no room even for the
  terminator, otherwise the text up to the terminator) and the length it returns.
\<close>

definition c_snprintf :: "nat \<Rightarrow> string \<Rightarrow> string option \<times> nat" where
  "c_snprintf buf_size s = (if buf_size = 0 then None else Some (take (buf_size - 1) s), length s)"

definition uni_can_message_to_string :: "uni_can_message \<Rightarrow> nat \<Rightarrow> string option \<times> nat" where
  "uni_can_message_to_string msg buf_size =
     c_snprintf buf_size
       (''id: '' @ show_nat (unat (cm_id msg)) @ '', dlc: '' @ show_nat (unat (cm_len msg)) @ '', data: TODO'')"


section \<open>Lemmas\<close>

lemma can_message_zero_simps [simp]:
  "cm_time_us can_message_zero = 0" "cm_id can_message_zero = 0" "cm_flags can_message_zero = 0"
  "cm_data can_message_zero = Inline (replicate 8 0)" "cm_len can_message_zero = 0"
  by (simp_all add: can_message_zero_def UNI_CAN_MESSAGE_MAXLEN_def)

lemma can_message_zero_wf [simp]: "can_message_wf can_message_zero"
  by (simp add: can_message_wf_def can_is_tp_def UNI_CAN_MESSAGE_MAXLEN_def)

lemma uni_can_message_create_Some [simp]:
  "uni_can_message_create ok = Some m \<longleftrightarrow> ok \<and> m = can_message_zero"
  by (auto simp: uni_can_message_create_def)

lemma clone_no_object [simp]: "uni_can_message_clone False malloc m = None"
  by (simp add: uni_can_message_clone_def uni_can_message_create_def)

lemma clone_inline: "\<not> can_is_tp m \<Longrightarrow> uni_can_message_clone True malloc m = Some m"
  by (simp add: uni_can_message_clone_def uni_can_message_create_def can_is_tp_def)

lemma clone_tp:
  assumes "can_is_tp m" "can_message_wf m" "malloc (unat (cm_len m)) = Some g" "heap_ok malloc"
  shows "uni_can_message_clone True malloc m = Some m"
proof -
  from assms(1,2) obtain bs where bs: "cm_data m = Ptr (Some bs)" "length bs = unat (cm_len m)"
    by (auto simp: can_message_wf_def split: uni_can_message_data.splits option.splits)
  moreover have "length g = unat (cm_len m)" using assms(3,4) by (rule heap_okD [rotated])
  ultimately show ?thesis
    using assms(1,3)
    by (simp add: uni_can_message_clone_def uni_can_message_create_def can_is_tp_def blit_whole)
qed

lemma clone_equal:
  assumes "can_message_wf m" "heap_total malloc"
  shows "uni_can_message_clone True malloc m = Some m"
proof (cases "can_is_tp m")
  case True
  obtain g where "malloc (unat (cm_len m)) = Some g" using assms(2) by (rule heap_totalE)
  with True assms show ?thesis by (blast intro: clone_tp heap_totalD)
qed (simp add: clone_inline)

end
