(* ===== verification/CanId.thy ===== *)
theory CanId
  imports Prelude
begin

text \<open>
  What the protocols ask of a CAN identifier. ProtoPlexer, IMP and J1939 each pack their own fields
  into the 29 bits of an extended identifier; the receiver takes them out again. The locale states
  this contract once, each protocol interprets it on its own packing functions.
\<close>

locale canid_codec =
  fixes encode :: "'f \<Rightarrow> u32"
    and decode :: "u32 \<Rightarrow> 'f"
    and fits :: "'f \<Rightarrow> bool"
  assumes decode_encode: "fits f \<Longrightarrow> decode (encode f) = f"
    and encode_29: "unat (encode f) < 2 ^ 29"
begin

lemma encode_inject: "fits f \<Longrightarrow> fits g \<Longrightarrow> encode f = encode g \<longleftrightarrow> f = g"
  by (metis decode_encode)

lemma encode_mask: "encode f AND 0x1FFFFFFF = encode f"
  using encode_29 [of f] by (simp only: masks and_numeral_mask_self)

end

text \<open>A field that fits its mask is not changed by masking.\<close>

lemma u16_and_12_bits: "(w :: u16) \<le> 0x0FFF \<Longrightarrow> w AND 0x0FFF = w"
  unfolding masks by (rule and_numeral_mask_self) (simp add: word_le_nat_alt mask_eq_exp_minus_1)

lemma u8_and_4_bits: "(w :: u8) \<le> 0x0F \<Longrightarrow> w AND 0x0F = w"
  unfolding masks by (rule and_numeral_mask_self) (simp add: word_le_nat_alt mask_eq_exp_minus_1)

end
