(* ===== verification/Crc16.thy ===== *)
theory Crc16
  imports Prelude
begin

text \<open>
  The checksum of ProtoPlexer messages: the table and the routine of
  \<open>src/uni_can_protoplexer.c\<close>, a reference definition that shifts one bit at a time with the
  polynomial 0x1021, the proof that the two agree, and what the checksum detects.
\<close>

section \<open>The routine\<close>

definition uni_can_protoplexer_crc16tab :: "u16 list" where
  "uni_can_protoplexer_crc16tab = [
     0x0000, 0x1021, 0x2042, 0x3063, 0x4084, 0x50a5, 0x60c6, 0x70e7,
     0x8108, 0x9129, 0xa14a, 0xb16b, 0xc18c, 0xd1ad, 0xe1ce, 0xf1ef,
     0x1231, 0x0210, 0x3273, 0x2252, 0x52b5, 0x4294, 0x72f7, 0x62d6,
     0x9339, 0x8318, 0xb37b, 0xa35a, 0xd3bd, 0xc39c, 0xf3ff, 0xe3de,
     0x2462, 0x3443, 0x0420, 0x1401, 0x64e6, 0x74c7, 0x44a4, 0x5485,
     0xa56a, 0xb54b, 0x8528, 0x9509, 0xe5ee, 0xf5cf, 0xc5ac, 0xd58d,
     0x3653, 0x2672, 0x1611, 0x0630, 0x76d7, 0x66f6, 0x5695, 0x46b4,
     0xb75b, 0xa77a, 0x9719, 0x8738, 0xf7df, 0xe7fe, 0xd79d, 0xc7bc,
     0x48c4, 0x58e5, 0x6886, 0x78a7, 0x0840, 0x1861, 0x2802, 0x3823,
     0xc9cc, 0xd9ed, 0xe98e, 0xf9af, 0x8948, 0x9969, 0xa90a, 0xb92b,
     0x5af5, 0x4ad4, 0x7ab7, 0x6a96, 0x1a71, 0x0a50, 0x3a33, 0x2a12,
     0xdbfd, 0xcbdc, 0xfbbf, 0xeb9e, 0x9b79, 0x8b58, 0xbb3b, 0xab1a,
     0x6ca6, 0x7c87, 0x4ce4, 0x5cc5, 0x2c22, 0x3c03, 0x0c60, 0x1c41,
     0xedae, 0xfd8f, 0xcdec, 0xddcd, 0xad2a, 0xbd0b, 0x8d68, 0x9d49,
     0x7e97, 0x6eb6, 0x5ed5, 0x4ef4, 0x3e13, 0x2e32, 0x1e51, 0x0e70,
     0xff9f, 0xefbe, 0xdfdd, 0xcffc, 0xbf1b, 0xaf3a, 0x9f59, 0x8f78,
     0x9188, 0x81a9, 0xb1ca, 0xa1eb, 0xd10c, 0xc12d, 0xf14e, 0xe16f,
     0x1080, 0x00a1, 0x30c2, 0x20e3, 0x5004, 0x4025, 0x7046, 0x6067,
     0x83b9, 0x9398, 0xa3fb, 0xb3da, 0xc33d, 0xd31c, 0xe37f, 0xf35e,
     0x02b1, 0x1290, 0x22f3, 0x32d2, 0x4235, 0x5214, 0x6277, 0x7256,
     0xb5ea, 0xa5cb, 0x95a8, 0x8589, 0xf56e, 0xe54f, 0xd52c, 0xc50d,
     0x34e2, 0x24c3, 0x14a0, 0x0481, 0x7466, 0x6447, 0x5424, 0x4405,
     0xa7db, 0xb7fa, 0x8799, 0x97b8, 0xe75f, 0xf77e, 0xc71d, 0xd73c,
     0x26d3, 0x36f2, 0x0691, 0x16b0, 0x6657, 0x7676, 0x4615, 0x5634,
     0xd94c, 0xc96d, 0xf90e, 0xe92f, 0x99c8, 0x89e9, 0xb98a, 0xa9ab,
     0x5844, 0x4865, 0x7806, 0x6827, 0x18c0, 0x08e1, 0x3882, 0x28a3,
     0xcb7d, 0xdb5c, 0xeb3f, 0xfb1e, 0x8bf9, 0x9bd8, 0xabbb, 0xbb9a,
     0x4a75, 0x5a54, 0x6a37, 0x7a16, 0x0af1, 0x1ad0, 0x2ab3, 0x3a92,
     0xfd2e, 0xed0f, 0xdd6c, 0xcd4d, 0xbdaa, 0xad8b, 0x9de8, 0x8dc9,
     0x7c26, 0x6c07, 0x5c64, 0x4c45, 0x3ca2, 0x2c83, 0x1ce0, 0x0cc1,
     0xef1f, 0xff3e, 0xcf5d, 0xdf7c, 0xaf9b, 0xbfba, 0x8fd9, 0x9ff8,
     0x6e17, 0x7e36, 0x4e55, 0x5e74, 0x2e93, 0x3eb2, 0x0ed1, 0x1ef0]"

definition crc16_update :: "u16 \<Rightarrow> u8 \<Rightarrow> u16" where
  "crc16_update retval b =
     (push_bit 8 retval AND 0xFFFF) XOR
       uni_can_protoplexer_crc16tab ! unat ((drop_bit 8 retval XOR ucast b) AND 0x00FF)"

definition uni_can_protoplexer_crc16 :: "u8 list \<Rightarrow> nat \<Rightarrow> u16" where
  "uni_can_protoplexer_crc16 buf len = foldl crc16_update 0 (take len buf)"


section \<open>The reference\<close>

text \<open>One bit: shift left, and subtract the polynomial when a bit is shifted out.\<close>

definition crc_bit :: "u16 \<Rightarrow> u16" where
  "crc_bit r = (if bit r 15 then push_bit 1 r XOR 0x1021 else push_bit 1 r)"

definition crc_bits8 :: "u16 \<Rightarrow> u16" where
  "crc_bits8 r = crc_bit (crc_bit (crc_bit (crc_bit (crc_bit (crc_bit (crc_bit (crc_bit r)))))))"

definition crc_byte :: "u16 \<Rightarrow> u8 \<Rightarrow> u16" where
  "crc_byte r b = crc_bits8 (r XOR push_bit 8 (ucast b))"

definition crc_ref :: "u8 list \<Rightarrow> u16" where
  "crc_ref bs = foldl crc_byte 0 bs"


section \<open>The table is the reference\<close>

lemma crc16tab_length [simp]: "length uni_can_protoplexer_crc16tab = 256"
  by (simp add: uni_can_protoplexer_crc16tab_def)

text \<open>Shifting is linear over exclusive or, and so are eight shifts.\<close>

lemma crc_bit_xor: "crc_bit (x XOR y) = crc_bit x XOR crc_bit y"
  unfolding crc_bit_def by (rule bit_word_eqI) (auto simp: bit_simps)

lemma crc_bits8_xor: "crc_bits8 (x XOR y) = crc_bits8 x XOR crc_bits8 y"
  by (simp only: crc_bits8_def crc_bit_xor)

lemma crc_bits8_0: "crc_bits8 0 = 0"
  by (simp add: crc_bits8_def crc_bit_def)

lemma crc_bit_low: "\<not> bit r 15 \<Longrightarrow> crc_bit r = push_bit 1 r"
  by (simp add: crc_bit_def)

lemma crc_bits8_funpow: "crc_bits8 r = (crc_bit ^^ 8) r"
  by (simp add: crc_bits8_def numeral_eq_Suc)

lemma crc_bits8_low:
  assumes "\<And>n. 8 \<le> n \<Longrightarrow> \<not> bit r n"
  shows "crc_bits8 r = push_bit 8 r"
proof -
  have "(crc_bit ^^ k) r = push_bit k r" if "k \<le> 8" for k
    using that
  proof (induction k)
    case (Suc k)
    then have "\<not> bit (push_bit k r) 15"
      using assms [of "15 - k"] by (simp add: bit_push_bit_iff)
    with Suc show ?case by (simp add: crc_bit_low)
  qed simp
  then show ?thesis by (simp add: crc_bits8_funpow)
qed

text \<open>A list of all combinations of basis values; the table is one.\<close>

fun xor_span :: "u16 list \<Rightarrow> u16 list" where
  "xor_span [] = [0]"
| "xor_span (b # bs) = (let l = xor_span bs in l @ map (\<lambda>x. b XOR x) l)"

lemma length_xor_span [simp]: "length (xor_span bs) = 2 ^ length bs"
  by (induction bs) (simp_all add: Let_def)

lemma of_nat_add_pow:
  assumes "j < 2 ^ n"
  shows "(of_nat (2 ^ n + j) :: u16) = push_bit n 1 XOR of_nat j"
proof -
  have "\<not> bit j n" using assms by (simp add: bit_iff_odd)
  then have "push_bit n 1 AND (of_nat j :: u16) = 0"
    by (intro bit_word_eqI) (auto simp: bit_simps)
  from disjunctive_add_eq_xor [OF this] show ?thesis
    by (simp add: push_bit_eq_mult)
qed

lemma xor_span_nth:
  assumes lin: "\<And>x y. f (x XOR y) = f x XOR f y" and zero: "f (0 :: u16) = (0 :: u16)"
  shows "i < 2 ^ n \<Longrightarrow> xor_span (map (\<lambda>k. f (push_bit k 1)) (rev [0..<n])) ! i = f (of_nat i)"
proof (induction n arbitrary: i)
  case 0
  then show ?case by (simp add: zero)
next
  case (Suc n)
  show ?case
  proof (cases "i < 2 ^ n")
    case True
    with Suc.IH [OF True] show ?thesis by (simp add: Let_def nth_append)
  next
    case False
    then obtain j where i: "i = 2 ^ n + j" and j: "j < 2 ^ n"
      using Suc.prems by (metis add_diff_inverse_nat mult_2 nat_add_left_cancel_less power_Suc)
    have "xor_span (map (\<lambda>k. f (push_bit k 1)) (rev [0..<Suc n])) ! i = f (push_bit n 1) XOR f (of_nat j)"
      using Suc.IH [OF j] i j by (simp add: Let_def nth_append)
    also have "\<dots> = f (of_nat i)" unfolding i by (simp only: of_nat_add_pow [OF j] lin)
    finally show ?thesis .
  qed
qed

lemma crc16tab_basis:
  "map (\<lambda>k. crc_bits8 (push_bit 8 (push_bit k 1))) (rev [0..<8]) =
    [0x9188, 0x48c4, 0x2462, 0x1231, 0x8108, 0x4084, 0x2042, 0x1021]"
  by (simp add: crc_bits8_def crc_bit_def upt_rec)

lemma crc16tab_span:
  "uni_can_protoplexer_crc16tab =
    xor_span [0x9188, 0x48c4, 0x2462, 0x1231, 0x8108, 0x4084, 0x2042, 0x1021]"
  by (simp add: uni_can_protoplexer_crc16tab_def Let_def)

lemma crc16tab_entry:
  assumes "i < 256"
  shows "uni_can_protoplexer_crc16tab ! i = crc_bits8 (push_bit 8 (of_nat i))"
  using xor_span_nth [of "\<lambda>x. crc_bits8 (push_bit 8 x)" i 8] assms
  unfolding crc16tab_basis crc16tab_span
  by (simp add: crc_bits8_xor push_bit_xor crc_bits8_0)

lemma crc16_update_eq_crc_byte: "crc16_update r b = crc_byte r b"
proof -
  let ?x = "r XOR push_bit 8 (ucast b)"
  let ?i = "(drop_bit 8 r XOR ucast b) AND 0x00FF"
  have i: "?i = drop_bit 8 ?x"
    by (rule bit_word_eqI) (auto simp: bit_simps masks dest: bit_imp_le_length)
  have "unat ?i < 256"
    using take_bit_nat_less_exp [of 8 "unat (drop_bit 8 r XOR ucast b :: u16)"]
    by (simp only: masks take_bit_eq_mask [symmetric] unsigned_take_bit_eq) simp
  then have tab: "uni_can_protoplexer_crc16tab ! unat ?i = crc_bits8 (push_bit 8 ?i)"
    by (simp add: crc16tab_entry)
  have low: "push_bit 8 r AND 0xFFFF = crc_bits8 (?x AND mask 8)"
    by (subst crc_bits8_low, auto simp: bit_simps, rule bit_word_eqI)
      (auto simp: bit_simps masks)
  have x: "?x = (?x AND mask 8) XOR push_bit 8 ?i"
    unfolding i by (rule bit_word_eqI) (auto simp: bit_simps)
  have "crc16_update r b = crc_bits8 (?x AND mask 8) XOR crc_bits8 (push_bit 8 ?i)"
    unfolding crc16_update_def tab low ..
  also have "\<dots> = crc_bits8 ((?x AND mask 8) XOR push_bit 8 ?i)"
    by (rule crc_bits8_xor [symmetric])
  also have "\<dots> = crc_byte r b" unfolding crc_byte_def x [symmetric] ..
  finally show ?thesis .
qed

lemma crc16_update_crc_byte: "crc16_update = crc_byte"
  by (intro ext) (rule crc16_update_eq_crc_byte)

text \<open>
  C20. The table driven checksum of ProtoPlexer is the polynomial division it stands for: for every
  buffer it gives what shifting the bytes in one bit at a time and subtracting 0x1021 on every
  carry gives, from the start value 0.
\<close>

theorem crc16_is_polynomial_division:
  "uni_can_protoplexer_crc16 buf len = crc_ref (take len buf)"
  by (simp add: uni_can_protoplexer_crc16_def crc_ref_def crc16_update_crc_byte)

lemma crc16_Nil [simp]: "uni_can_protoplexer_crc16 [] len = 0"
  by (simp add: uni_can_protoplexer_crc16_def)

lemma crc16_0 [simp]: "uni_can_protoplexer_crc16 buf 0 = 0"
  by (simp add: uni_can_protoplexer_crc16_def)


section \<open>What the checksum detects\<close>

lemma xor_right_cancel: "x XOR z = y XOR z \<longleftrightarrow> x = (y :: u16)"
  by (auto dest: arg_cong [of _ _ "\<lambda>w. w XOR z"] simp: xor.assoc)

lemma xor_left_cancel: "z XOR x = z XOR y \<longleftrightarrow> x = (y :: u16)"
  using xor_right_cancel [of x z y] by (simp only: xor.commute)

lemma crc_bit_inj: "crc_bit x = crc_bit y \<Longrightarrow> x = y"
proof -
  assume eq: "crc_bit x = crc_bit y"
  have b0: "bit (crc_bit z) 0 = bit z 15" for z
  proof -
    have "\<not> bit (push_bit 1 z) 0" and "bit (0x1021 :: u16) 0" by (simp_all add: bit_0)
    then show ?thesis by (auto simp only: crc_bit_def bit_xor_iff split: if_split)
  qed
  with eq have top: "bit x 15 = bit y 15" by metis
  with eq have sh: "push_bit 1 x = push_bit 1 y"
    by (simp add: crc_bit_def xor_right_cancel split: if_splits)
  show "x = y"
  proof (rule bit_word_eqI)
    fix n assume "n < LENGTH(16)"
    then consider "n = 15" | "n < 15" by force
    then show "bit x n = bit y n"
    proof cases
      case 2
      from arg_cong [OF sh, of "\<lambda>w. bit w (Suc n)"] 2 show ?thesis
        by (simp only: bit_push_bit_iff) simp
    qed (use top in simp)
  qed
qed

lemma crc_bits8_inj: "crc_bits8 x = crc_bits8 y \<Longrightarrow> x = y"
  by (auto simp: crc_bits8_def dest!: crc_bit_inj)

lemma push_bit_8_ucast_inj: "push_bit 8 (ucast (a :: u8) :: u16) = push_bit 8 (ucast b) \<longleftrightarrow> a = b"
proof
  assume "push_bit 8 (ucast a :: u16) = push_bit 8 (ucast b)"
  then have "hi8 (le16 0 a) = hi8 (le16 0 b)" by (simp only: le16_def)
  then show "a = b" by (simp only: hi8_le16)
qed simp

lemma crc_byte_inj_state: "crc_byte r b = crc_byte r' b \<longleftrightarrow> r = r'"
  by (auto simp: crc_byte_def xor_right_cancel dest: crc_bits8_inj)

lemma crc_byte_inj_byte: "crc_byte r b = crc_byte r b' \<longleftrightarrow> b = b'"
  by (auto simp: crc_byte_def xor_left_cancel push_bit_8_ucast_inj dest: crc_bits8_inj)

lemma foldl_crc_byte_inj: "foldl crc_byte r bs = foldl crc_byte r' bs \<longleftrightarrow> r = r'"
  by (induction bs arbitrary: r r') (auto simp: crc_byte_inj_state)

lemma crc_ref_change_one_byte:
  assumes "i < length bs"
  shows "crc_ref (bs[i := b]) = crc_ref bs \<longleftrightarrow> b = bs ! i"
proof -
  have "crc_ref (bs[i := b]) = foldl crc_byte (crc_byte (foldl crc_byte 0 (take i bs)) b) (drop (Suc i) bs)"
    using assms by (simp add: crc_ref_def upd_conv_take_nth_drop)
  moreover have "crc_ref bs =
      foldl crc_byte (crc_byte (foldl crc_byte 0 (take i bs)) (bs ! i)) (drop (Suc i) bs)"
    using assms by (subst (1) id_take_nth_drop [of i bs]) (simp_all add: crc_ref_def)
  ultimately show ?thesis by (simp add: foldl_crc_byte_inj crc_byte_inj_byte)
qed

text \<open>
  C40. A changed byte is always noticed: whatever value any one byte of the message is changed to,
  the checksum changes.
\<close>

theorem crc16_detects_changed_byte:
  assumes "i < len" "len \<le> length buf" "b \<noteq> buf ! i"
  shows "uni_can_protoplexer_crc16 (buf[i := b]) len \<noteq> uni_can_protoplexer_crc16 buf len"
proof -
  have "take len (buf[i := b]) = (take len buf)[i := b]"
    using assms(1) by (simp add: take_update_swap)
  then show ?thesis
    using crc_ref_change_one_byte [of i "take len buf" b] assms
    by (simp add: uni_can_protoplexer_crc16_def crc16_update_crc_byte flip: crc_ref_def)
qed

theorem crc16_detects_changed_byte_witness:
  "uni_can_protoplexer_crc16 [1, 7, 3] 3 \<noteq> uni_can_protoplexer_crc16 [1, 2, 3] 3"
  using crc16_detects_changed_byte [of 1 3 "[1, 2, 3]" 7] by simp

end
