(* ===== verification/PpFrame.thy ===== *)
theory PpFrame
  imports CanMessage CanId Crc16
begin

text \<open>
  ProtoPlexer on the wire: result codes, the CAN identifier, messages, and how a message is cut
  into chunks (\<open>include/uni_can_protoplexer.h\<close>, \<open>src/uni_can_protoplexer.c\<close>).

  A message is sent as one stream of bytes, a header of six bytes (identifier, length, checksum,
  each least significant byte first) and then the data, cut into chunks of \<open>max_chunk_length\<close>
  bytes; the first chunk is marked in its CAN identifier. Pointers are options, and the memory a
  data pointer leads to is a list of bytes. Products and sums of lengths stay below \<open>2 ^ 17\<close>, so
  they are natural numbers.
\<close>

section \<open>Constants and types\<close>

definition UNI_CAN_PROTOPLEXER_PRIORITY_MINIMAL :: u8 where
  "UNI_CAN_PROTOPLEXER_PRIORITY_MINIMAL = 0x0F"

definition UNI_CAN_PROTOPLEXER_ADDRESS_MAX :: u16 where
  "UNI_CAN_PROTOPLEXER_ADDRESS_MAX = 0x0FFF"

definition UNI_CAN_PROTOPLEXER_ADDRESS_MIN :: u16 where
  "UNI_CAN_PROTOPLEXER_ADDRESS_MIN = 0x0001"

definition UNI_CAN_PROTOPLEXER_HEADER_SIZE :: nat where
  "UNI_CAN_PROTOPLEXER_HEADER_SIZE = 6"

definition UNI_CAN_PROTOPLEXER_CHUNK_STARTING_LENGTH_MIN :: nat where
  "UNI_CAN_PROTOPLEXER_CHUNK_STARTING_LENGTH_MIN = 6"

definition UNI_CAN_PROTOPLEXER_ERROR_ID :: u16 where
  "UNI_CAN_PROTOPLEXER_ERROR_ID = 0x0000"

lemmas pp_const_defs =
  UNI_CAN_PROTOPLEXER_PRIORITY_MINIMAL_def UNI_CAN_PROTOPLEXER_ADDRESS_MAX_def
  UNI_CAN_PROTOPLEXER_ADDRESS_MIN_def UNI_CAN_PROTOPLEXER_HEADER_SIZE_def
  UNI_CAN_PROTOPLEXER_CHUNK_STARTING_LENGTH_MIN_def UNI_CAN_PROTOPLEXER_ERROR_ID_def
  UNI_CAN_MESSAGE_MAXLEN_def

datatype uni_can_protoplexer_result =
    PP_OK
  | PP_FAILURE
  | PP_WRONG_ADDRESS
  | PP_WRONG_PRIORITY
  | PP_ADDING_CHUNK_CANT_ALLOCATE_NEW_MSG
  | PP_ADDING_CHUNK_FIRST_AND_TOO_SHORT
  | PP_ADDING_CHUNK_UNRELATED_ADDRESS_TO
  | PP_ADDING_CHUNK_HEADER_DATA_OVERFLOW
  | PP_ADDING_CHUNK_CANT_ALLOCATE_DATA
  | PP_ADDING_CHUNK_RECEIVED_ERROR_ID
  | PP_ADDING_CHUNK_DATA_WITHOUT_HEADER
  | PP_ADDING_CHUNK_DATA_OVERFLOW
  | PP_ADDING_CHUNK_CANT_SAVE_DATA
  | PP_ADDING_CHUNK_CANT_SAVE_MESSAGE
  | PP_ADDING_CHUNK_INVALID_CHUNK
  | PP_ADDING_CHUNK_WRONG_CRC
  | PP_SEND_MSG_HW_CANT_SEND_HEADER
  | PP_SEND_MSG_CANT_ADD_MESSAGE_CHUNKS
  | PP_SEND_MSG_CANT_WRITE_HEADER
  | PP_SEND_MSG_INVALID_SIZE
  | PP_POLLING_TX_BUFFER_EMPTY
  | PP_POLLING_NEW_NO_NEW_MESSAGES
  | PP_POLLING_RX_HW_RX_EMPTY
  | PP_HW_SEND_TOO_MANY_ATTEMPTS
  | PP_HW_SEND_NON_RECOVERABLE

fun uni_can_protoplexer_result_to_string :: "uni_can_protoplexer_result \<Rightarrow> string" where
  "uni_can_protoplexer_result_to_string PP_OK = ''ok''"
| "uni_can_protoplexer_result_to_string PP_FAILURE = ''failure''"
| "uni_can_protoplexer_result_to_string PP_WRONG_ADDRESS = ''wrong_address''"
| "uni_can_protoplexer_result_to_string PP_WRONG_PRIORITY = ''wrong_priority''"
| "uni_can_protoplexer_result_to_string PP_ADDING_CHUNK_CANT_ALLOCATE_NEW_MSG = ''adding_chunk_cant_allocate_new_msg''"
| "uni_can_protoplexer_result_to_string PP_ADDING_CHUNK_FIRST_AND_TOO_SHORT = ''adding_chunk_first_and_too_short''"
| "uni_can_protoplexer_result_to_string PP_ADDING_CHUNK_UNRELATED_ADDRESS_TO = ''adding_chunk_unrelated_adress_to''"
| "uni_can_protoplexer_result_to_string PP_ADDING_CHUNK_HEADER_DATA_OVERFLOW = ''adding_chunk_header_data_overflow''"
| "uni_can_protoplexer_result_to_string PP_ADDING_CHUNK_CANT_ALLOCATE_DATA = ''adding_chunk_cant_allocate_data''"
| "uni_can_protoplexer_result_to_string PP_ADDING_CHUNK_RECEIVED_ERROR_ID = ''adding_chunk_received_error_ID''"
| "uni_can_protoplexer_result_to_string PP_ADDING_CHUNK_DATA_WITHOUT_HEADER = ''adding_chunk_data_without_header''"
| "uni_can_protoplexer_result_to_string PP_ADDING_CHUNK_DATA_OVERFLOW = ''adding_chunk_data_overflow''"
| "uni_can_protoplexer_result_to_string PP_ADDING_CHUNK_CANT_SAVE_DATA = ''adding_chunk_cant_save_data''"
| "uni_can_protoplexer_result_to_string PP_ADDING_CHUNK_CANT_SAVE_MESSAGE = ''adding_chunk_cant_save_message''"
| "uni_can_protoplexer_result_to_string PP_ADDING_CHUNK_INVALID_CHUNK = ''adding_chunk_invalid_chunk''"
| "uni_can_protoplexer_result_to_string PP_ADDING_CHUNK_WRONG_CRC = ''adding_chunk_wrong_crc''"
| "uni_can_protoplexer_result_to_string PP_SEND_MSG_HW_CANT_SEND_HEADER = ''send_msg_hw_cant_send_header''"
| "uni_can_protoplexer_result_to_string PP_SEND_MSG_CANT_ADD_MESSAGE_CHUNKS = ''send_msg_cant_add_message_chunks''"
| "uni_can_protoplexer_result_to_string PP_SEND_MSG_CANT_WRITE_HEADER = ''send_msg_cant_write_header''"
| "uni_can_protoplexer_result_to_string PP_SEND_MSG_INVALID_SIZE = ''send_msg_invalid_size''"
| "uni_can_protoplexer_result_to_string PP_POLLING_TX_BUFFER_EMPTY = ''polling_tx_buffer_empty''"
| "uni_can_protoplexer_result_to_string PP_POLLING_NEW_NO_NEW_MESSAGES = ''polling_new_no_new_messages''"
| "uni_can_protoplexer_result_to_string PP_POLLING_RX_HW_RX_EMPTY = ''polling_rx_hw_rx_empty''"
| "uni_can_protoplexer_result_to_string PP_HW_SEND_TOO_MANY_ATTEMPTS = ''hw_send_too_many_attempts''"
| "uni_can_protoplexer_result_to_string PP_HW_SEND_NON_RECOVERABLE = ''hw_send_non_recoverable''"

record uni_can_protoplexer_msg =
  ppm_message_id :: u16
  ppm_address_from :: u16
  ppm_address_to :: u16
  ppm_priority_inverted :: u8
  ppm_length :: u16
  ppm_data :: "u8 list option"

definition pp_msg_zero :: uni_can_protoplexer_msg where
  "pp_msg_zero = \<lparr>ppm_message_id = 0, ppm_address_from = 0, ppm_address_to = 0,
     ppm_priority_inverted = 0, ppm_length = 0, ppm_data = None\<rparr>"


section \<open>The CAN identifier\<close>

definition uni_can_protoplexer_canid_create :: "u16 \<Rightarrow> u16 \<Rightarrow> u8 \<Rightarrow> bool \<Rightarrow> u32" where
  "uni_can_protoplexer_canid_create address_from address_to priority_inverted is_first =
     (let can_id = push_bit 25 (ucast priority_inverted AND 0x0F);
          can_id = (if is_first then can_id OR push_bit 24 1 else can_id);
          can_id = can_id OR push_bit 12 (ucast address_from AND 0x0FFF);
          can_id = can_id OR (ucast address_to AND 0x0FFF)
      in can_id)"

definition uni_can_protoplexer_canid_get_from :: "u32 \<Rightarrow> u16" where
  "uni_can_protoplexer_canid_get_from can_id = ucast (drop_bit 12 can_id AND 0x0FFF)"

definition uni_can_protoplexer_canid_get_to :: "u32 \<Rightarrow> u16" where
  "uni_can_protoplexer_canid_get_to can_id = ucast (can_id AND 0x0FFF)"

definition uni_can_protoplexer_canid_get_priority_inverted :: "u32 \<Rightarrow> u8" where
  "uni_can_protoplexer_canid_get_priority_inverted can_id = ucast (drop_bit 25 can_id AND 0x0F)"

definition uni_can_protoplexer_canid_get_is_first :: "u32 \<Rightarrow> bool" where
  "uni_can_protoplexer_canid_get_is_first can_id \<longleftrightarrow> (drop_bit 24 can_id AND 0x01) = 0x01"

lemmas pp_canid_defs =
  uni_can_protoplexer_canid_create_def uni_can_protoplexer_canid_get_from_def
  uni_can_protoplexer_canid_get_to_def uni_can_protoplexer_canid_get_priority_inverted_def
  uni_can_protoplexer_canid_get_is_first_def

definition uni_can_protoplexer_address_valid :: "u16 \<Rightarrow> bool" where
  "uni_can_protoplexer_address_valid address \<longleftrightarrow>
     address \<ge> UNI_CAN_PROTOPLEXER_ADDRESS_MIN \<and> address \<le> UNI_CAN_PROTOPLEXER_ADDRESS_MAX"


section \<open>Messages\<close>

definition uni_can_protoplexer_msg_create ::
  "bool \<Rightarrow> heap \<Rightarrow> u16 \<Rightarrow> u16 \<Rightarrow> u16 \<Rightarrow> u8 \<Rightarrow> u8 list option \<Rightarrow> u16 \<Rightarrow> uni_can_protoplexer_msg option" where
  "uni_can_protoplexer_msg_create calloc_ok malloc message_id address_from address_to priority_inverted data len =
     (if \<not> calloc_ok then None
      else
        let m = pp_msg_zero\<lparr>ppm_message_id := message_id, ppm_address_from := address_from,
                  ppm_address_to := address_to, ppm_priority_inverted := priority_inverted,
                  ppm_length := len\<rparr>
        in if len > 0 then
             (case malloc (unat len) of
                None \<Rightarrow> None
              | Some block \<Rightarrow>
                  (let src = (case data of None \<Rightarrow> [] | Some bs \<Rightarrow> bs)
                   in Some (m\<lparr>ppm_data := Some (blit block 0 (take (unat len) src))\<rparr>)))
           else Some m)"

text \<open>The blocks a call of \<open>uni_can_protoplexer_msg_free\<close> frees: the data and the object.\<close>

definition uni_can_protoplexer_msg_free :: "uni_can_protoplexer_msg option \<Rightarrow> released list" where
  "uni_can_protoplexer_msg_free msg =
     (case msg of None \<Rightarrow> [] | Some m \<Rightarrow> [ReleasedData (ppm_data m), ReleasedMessage])"


section \<open>Chunks\<close>

definition uni_can_protoplexer_chunks_count :: "u16 \<Rightarrow> u16 \<Rightarrow> nat" where
  "uni_can_protoplexer_chunks_count len max_chunk_length =
     (let m = unat max_chunk_length in
      if m < UNI_CAN_PROTOPLEXER_HEADER_SIZE \<or> m > UNI_CAN_MESSAGE_MAXLEN then 0
      else
        let total = UNI_CAN_PROTOPLEXER_HEADER_SIZE + unat len
        in (total + (m - 1)) div m)"

text \<open>The header: identifier, length and checksum, at the offsets 0, 2 and 4.\<close>

definition pp_header :: "uni_can_protoplexer_msg \<Rightarrow> u8 list" where
  "pp_header msg =
     (let crc = uni_can_protoplexer_crc16 (case ppm_data msg of None \<Rightarrow> [] | Some d \<Rightarrow> d) (unat (ppm_length msg))
      in [lo8 (ppm_message_id msg), hi8 (ppm_message_id msg), lo8 (ppm_length msg), hi8 (ppm_length msg),
          lo8 crc, hi8 crc])"

definition uni_can_protoplexer_build_chunk ::
  "uni_can_protoplexer_msg option \<Rightarrow> u16 \<Rightarrow> nat \<Rightarrow> uni_can_message option
    \<Rightarrow> uni_can_protoplexer_result \<times> uni_can_message option" where
  "uni_can_protoplexer_build_chunk msg max_chunk_length chunk_index out_chunk =
     (case (msg, out_chunk) of
        (Some msg, Some _) \<Rightarrow>
          (let chunks_count = uni_can_protoplexer_chunks_count (ppm_length msg) max_chunk_length in
           if chunks_count = 0 then (PP_SEND_MSG_HW_CANT_SEND_HEADER, out_chunk)
           else if chunk_index \<ge> chunks_count then (PP_FAILURE, out_chunk)
           else if ppm_length msg > 0 \<and> ppm_data msg = None then (PP_SEND_MSG_INVALID_SIZE, out_chunk)
           else
             let total = UNI_CAN_PROTOPLEXER_HEADER_SIZE + unat (ppm_length msg);
                 cursor = chunk_index * unat max_chunk_length;
                 left = total - cursor;
                 chunk_size = (if left < unat max_chunk_length then left else unat max_chunk_length);
                 is_first = (chunk_index = 0);
                 header = (if is_first then pp_header msg
                           else replicate UNI_CAN_PROTOPLEXER_HEADER_SIZE 0);
                 data = (case ppm_data msg of None \<Rightarrow> [] | Some d \<Rightarrow> d);
                 bytes = map (\<lambda>i. let pos = cursor + i in
                                   if pos < UNI_CAN_PROTOPLEXER_HEADER_SIZE then header ! pos
                                   else data ! (pos - UNI_CAN_PROTOPLEXER_HEADER_SIZE))
                           [0..<chunk_size]
             in (PP_OK,
                 Some (can_message_zero\<lparr>
                   cm_flags := UNI_CAN_MSG_FLAG_EXT_ID,
                   cm_len := of_nat chunk_size,
                   cm_id := uni_can_protoplexer_canid_create (ppm_address_from msg) (ppm_address_to msg)
                              (ppm_priority_inverted msg) is_first,
                   cm_data := Inline (blit (replicate UNI_CAN_MESSAGE_MAXLEN 0) 0 bytes)\<rparr>)))
      | _ \<Rightarrow> (PP_FAILURE, out_chunk))"

text \<open>The loop of \<open>uni_can_protoplexer_build_chunks\<close> over an array of zeroed chunks.\<close>

fun pp_build_chunks_loop ::
  "uni_can_protoplexer_msg \<Rightarrow> u16 \<Rightarrow> nat list \<Rightarrow> uni_can_protoplexer_result \<times> uni_can_message list" where
  "pp_build_chunks_loop msg max_chunk_length [] = (PP_OK, [])"
| "pp_build_chunks_loop msg max_chunk_length (idx # rest) =
     (case uni_can_protoplexer_build_chunk (Some msg) max_chunk_length idx (Some can_message_zero) of
        (PP_OK, Some chunk) \<Rightarrow>
          (case pp_build_chunks_loop msg max_chunk_length rest of
             (PP_OK, chunks) \<Rightarrow> (PP_OK, chunk # chunks)
           | (res, _) \<Rightarrow> (res, []))
      | (res, _) \<Rightarrow> (res, []))"

text \<open>
  \<open>outs_given\<close> says that the two pointers for the results are not null; the array and its length
  are the second and third result (\<open>None\<close> and 0 are what the call leaves on failure).
\<close>

definition uni_can_protoplexer_build_chunks ::
  "bool \<Rightarrow> uni_can_protoplexer_msg option \<Rightarrow> u16 \<Rightarrow> bool
    \<Rightarrow> uni_can_protoplexer_result \<times> uni_can_message list option \<times> nat" where
  "uni_can_protoplexer_build_chunks calloc_ok msg max_chunk_length outs_given =
     (case msg of
        None \<Rightarrow> (PP_FAILURE, None, 0)
      | Some msg \<Rightarrow>
          if \<not> outs_given then (PP_FAILURE, None, 0)
          else
            let chunks_count = uni_can_protoplexer_chunks_count (ppm_length msg) max_chunk_length in
            if chunks_count = 0 then (PP_SEND_MSG_HW_CANT_SEND_HEADER, None, 0)
            else if \<not> calloc_ok then (PP_SEND_MSG_CANT_ADD_MESSAGE_CHUNKS, None, 0)
            else
              (case pp_build_chunks_loop msg max_chunk_length [0..<chunks_count] of
                 (PP_OK, chunks) \<Rightarrow> (PP_OK, Some chunks, chunks_count)
               | (res, _) \<Rightarrow> (res, None, 0)))"


section \<open>Lemmas on identifiers\<close>

lemma bit_pp_canid_create:
  "bit (uni_can_protoplexer_canid_create f t p b) n \<longleftrightarrow>
    (25 \<le> n \<and> n < 29 \<and> bit p (n - 25)) \<or> (b \<and> n = 24) \<or>
    (12 \<le> n \<and> n < 24 \<and> bit f (n - 12)) \<or> (n < 12 \<and> bit t n)"
  unfolding uni_can_protoplexer_canid_create_def Let_def masks
  by (cases b; simp only: bit_or_iff fields if_True if_False len_bit0 len_num1; auto simp: bit_unsigned_iff)

lemma pp_canid_get_from_create [simp]:
  "uni_can_protoplexer_canid_get_from (uni_can_protoplexer_canid_create f t p b) = f AND 0x0FFF"
  unfolding uni_can_protoplexer_canid_get_from_def masks
  by (rule bit_word_eqI) (auto simp: fields bit_drop_bit_eq bit_pp_canid_create)

lemma pp_canid_get_to_create [simp]:
  "uni_can_protoplexer_canid_get_to (uni_can_protoplexer_canid_create f t p b) = t AND 0x0FFF"
  unfolding uni_can_protoplexer_canid_get_to_def masks
  by (rule bit_word_eqI) (auto simp: fields bit_drop_bit_eq bit_pp_canid_create)

lemma pp_canid_get_priority_create [simp]:
  "uni_can_protoplexer_canid_get_priority_inverted (uni_can_protoplexer_canid_create f t p b) = p AND 0x0F"
  unfolding uni_can_protoplexer_canid_get_priority_inverted_def masks
  by (rule bit_word_eqI) (auto simp: fields bit_drop_bit_eq bit_pp_canid_create)

lemma and_1_eq_1: "(w AND 0x01) = (0x01 :: u32) \<longleftrightarrow> bit w 0"
  by (simp add: and_one_eq bit_0 odd_iff_mod_2_eq_one)

lemma pp_canid_get_is_first_create [simp]:
  "uni_can_protoplexer_canid_get_is_first (uni_can_protoplexer_canid_create f t p b) \<longleftrightarrow> b"
  unfolding uni_can_protoplexer_canid_get_is_first_def and_1_eq_1
  by (simp add: bit_drop_bit_eq bit_pp_canid_create)


lemma pp_canid_29_bits: "unat (uni_can_protoplexer_canid_create f t p b) < 2 ^ 29"
proof -
  have "take_bit 29 (uni_can_protoplexer_canid_create f t p b) = uni_can_protoplexer_canid_create f t p b"
    by (rule bit_word_eqI) (auto simp: bit_take_bit_iff bit_pp_canid_create)
  then show ?thesis
    by (metis take_bit_nat_less_exp unsigned_take_bit_eq)
qed


section \<open>What the chunks of a message carry\<close>

text \<open>The stream that is sent, and the frame of one piece of it.\<close>

definition pp_payload :: "uni_can_protoplexer_msg \<Rightarrow> u8 list" where
  "pp_payload msg = (case ppm_data msg of None \<Rightarrow> [] | Some d \<Rightarrow> d)"

definition pp_msg_wf :: "uni_can_protoplexer_msg \<Rightarrow> bool" where
  "pp_msg_wf msg \<longleftrightarrow> length (pp_payload msg) = unat (ppm_length msg)"

definition pp_stream :: "uni_can_protoplexer_msg \<Rightarrow> u8 list" where
  "pp_stream msg = pp_header msg @ pp_payload msg"

definition pp_piece :: "uni_can_protoplexer_msg \<Rightarrow> nat \<Rightarrow> nat \<Rightarrow> u8 list" where
  "pp_piece msg m i = take m (drop (i * m) (pp_stream msg))"

definition pp_chunk :: "uni_can_protoplexer_msg \<Rightarrow> nat \<Rightarrow> nat \<Rightarrow> uni_can_message" where
  "pp_chunk msg m i = can_message_zero\<lparr>
     cm_flags := UNI_CAN_MSG_FLAG_EXT_ID,
     cm_len := of_nat (length (pp_piece msg m i)),
     cm_id := uni_can_protoplexer_canid_create (ppm_address_from msg) (ppm_address_to msg)
                (ppm_priority_inverted msg) (i = 0),
     cm_data := Inline (blit (replicate UNI_CAN_MESSAGE_MAXLEN 0) 0 (pp_piece msg m i))\<rparr>"

lemma length_pp_header [simp]: "length (pp_header msg) = 6"
  by (simp add: pp_header_def Let_def)

lemma length_pp_stream: "pp_msg_wf msg \<Longrightarrow> length (pp_stream msg) = 6 + unat (ppm_length msg)"
  by (simp add: pp_stream_def pp_msg_wf_def)

lemma chunks_count_eq:
  "6 \<le> unat m \<Longrightarrow> unat m \<le> 8 \<Longrightarrow>
    uni_can_protoplexer_chunks_count len m = (6 + unat len + (unat m - 1)) div unat m"
  by (simp add: uni_can_protoplexer_chunks_count_def pp_const_defs Let_def)

lemma chunks_count_pos: "6 \<le> unat m \<Longrightarrow> unat m \<le> 8 \<Longrightarrow> 0 < uni_can_protoplexer_chunks_count len m"
  by (simp add: chunks_count_eq div_greater_zero_iff)

lemma length_pp_piece:
  "pp_msg_wf msg \<Longrightarrow> length (pp_piece msg m i) = min m (6 + unat (ppm_length msg) - i * m)"
  by (simp add: pp_piece_def length_pp_stream min.commute)

lemma can_bytes_pp_chunk:
  assumes "m \<le> 8"
  shows "can_bytes (pp_chunk msg m i) = pp_piece msg m i"
proof -
  have "length (pp_piece msg m i) \<le> 8"
    using assms by (simp add: pp_piece_def)
  then show ?thesis
    by (simp add: can_bytes_def pp_chunk_def unat_of_nat_u16 take_blit_prefix [where off = 0, simplified])
qed

lemma build_chunk_eq:
  assumes "pp_msg_wf msg" and "6 \<le> unat m" and "unat m \<le> 8"
    and "i < uni_can_protoplexer_chunks_count (ppm_length msg) m"
  shows "uni_can_protoplexer_build_chunk (Some msg) m i (Some out) = (PP_OK, Some (pp_chunk msg (unat m) i))"
proof -
  let ?total = "6 + unat (ppm_length msg)" and ?cur = "i * unat m"
  let ?size = "if ?total - ?cur < unat m then ?total - ?cur else unat m"
  let ?header = "if i = 0 then pp_header msg else replicate UNI_CAN_PROTOPLEXER_HEADER_SIZE 0"
  have in_range: "?cur < ?total"
    using assms by (intro below_ceil_div) (auto simp: chunks_count_eq)
  have size: "?size = length (pp_piece msg (unat m) i)"
    using assms by (simp add: length_pp_piece)
  have later: "6 \<le> ?cur" if "i \<noteq> 0"
    using that assms(2) by (cases i) auto
  have bytes: "map (\<lambda>j. let pos = ?cur + j in if pos < UNI_CAN_PROTOPLEXER_HEADER_SIZE then ?header ! pos
      else pp_payload msg ! (pos - UNI_CAN_PROTOPLEXER_HEADER_SIZE)) [0..<?size] = pp_piece msg (unat m) i"
  proof (rule nth_equalityI)
    fix j
    assume "j < length (map (\<lambda>j. let pos = ?cur + j in if pos < UNI_CAN_PROTOPLEXER_HEADER_SIZE then ?header ! pos
      else pp_payload msg ! (pos - UNI_CAN_PROTOPLEXER_HEADER_SIZE)) [0..<?size])"
    then have "j < ?size"
      by simp
    then have "j < unat m" "?cur + j < ?total"
      by (auto split: if_splits)
    with \<open>j < ?size\<close> later show "map (\<lambda>j. let pos = ?cur + j in if pos < UNI_CAN_PROTOPLEXER_HEADER_SIZE
        then ?header ! pos else pp_payload msg ! (pos - UNI_CAN_PROTOPLEXER_HEADER_SIZE)) [0..<?size] ! j
        = pp_piece msg (unat m) i ! j"
      by (auto simp: pp_piece_def pp_stream_def nth_append pp_const_defs Let_def length_pp_stream
          [unfolded pp_stream_def] assms(1) assms(1) [unfolded pp_msg_wf_def])
  qed (simp add: size)
  have data: "\<not> (ppm_length msg > 0 \<and> ppm_data msg = None)"
    using assms(1) by (cases "ppm_data msg") (auto simp: pp_msg_wf_def pp_payload_def word_less_nat_alt)
  show ?thesis
    using assms(4) data size bytes
    by (simp add: uni_can_protoplexer_build_chunk_def pp_chunk_def Let_def
        UNI_CAN_PROTOPLEXER_HEADER_SIZE_def pp_payload_def [symmetric])
qed

lemma build_chunks_loop_eq:
  assumes "pp_msg_wf msg" and "6 \<le> unat m" and "unat m \<le> 8"
    and "\<forall>i\<in>set is. i < uni_can_protoplexer_chunks_count (ppm_length msg) m"
  shows "pp_build_chunks_loop msg m is = (PP_OK, map (pp_chunk msg (unat m)) is)"
  using assms(4) by (induction "is") (simp_all add: build_chunk_eq assms(1-3))

lemma build_chunks_eq:
  assumes "pp_msg_wf msg" and "6 \<le> unat m" and "unat m \<le> 8"
  shows "uni_can_protoplexer_build_chunks True (Some msg) m True =
    (PP_OK, Some (map (pp_chunk msg (unat m)) [0..<uni_can_protoplexer_chunks_count (ppm_length msg) m]),
     uni_can_protoplexer_chunks_count (ppm_length msg) m)"
  using chunks_count_pos [OF assms(2,3), of "ppm_length msg"]
  by (simp add: uni_can_protoplexer_build_chunks_def build_chunks_loop_eq [OF assms] Let_def)

lemma concat_pp_pieces:
  assumes "pp_msg_wf msg" and "6 \<le> unat m" and "unat m \<le> 8"
  shows "concat (map (pp_piece msg (unat m)) [0..<uni_can_protoplexer_chunks_count (ppm_length msg) m]) =
    pp_stream msg"
proof -
  have "length (pp_stream msg) \<le> uni_can_protoplexer_chunks_count (ppm_length msg) m * unat m"
    using assms ceil_div_covers [of "unat m" "6 + unat (ppm_length msg)"]
    by (simp add: length_pp_stream chunks_count_eq)
  then show ?thesis
    by (simp add: pp_piece_def [abs_def] concat_pieces)
qed



section \<open>Interface\<close>

definition pp_id_encode :: "u16 \<times> u16 \<times> u8 \<times> bool \<Rightarrow> u32" where
  "pp_id_encode = (\<lambda>(f, t, p, b). uni_can_protoplexer_canid_create f t p b)"

definition pp_id_decode :: "u32 \<Rightarrow> u16 \<times> u16 \<times> u8 \<times> bool" where
  "pp_id_decode can_id =
     (uni_can_protoplexer_canid_get_from can_id, uni_can_protoplexer_canid_get_to can_id,
      uni_can_protoplexer_canid_get_priority_inverted can_id, uni_can_protoplexer_canid_get_is_first can_id)"

definition pp_id_fits :: "u16 \<times> u16 \<times> u8 \<times> bool \<Rightarrow> bool" where
  "pp_id_fits = (\<lambda>(f, t, p, b). f \<le> 0x0FFF \<and> t \<le> 0x0FFF \<and> p \<le> 0x0F)"

interpretation pp_id: canid_codec pp_id_encode pp_id_decode pp_id_fits
  by unfold_locales
    (auto simp: pp_id_encode_def pp_id_decode_def pp_id_fits_def u16_and_12_bits u8_and_4_bits
      intro: pp_canid_29_bits [simplified])


section \<open>Properties\<close>

text \<open>
  The CAN identifier of a chunk stays below 2^29 and gives back exactly the sender, the
  receiver, the priority and the first-chunk mark that were packed into it, for every value that
  fits its field; two different combinations never share an identifier.
\<close>

theorem pp_canid_roundtrip:
  assumes "f \<le> 0x0FFF" "t \<le> 0x0FFF" "p \<le> 0x0F" and "f' \<le> 0x0FFF" "t' \<le> 0x0FFF" "p' \<le> 0x0F"
  shows "uni_can_protoplexer_canid_get_from (uni_can_protoplexer_canid_create f t p b) = f \<and>
    uni_can_protoplexer_canid_get_to (uni_can_protoplexer_canid_create f t p b) = t \<and>
    uni_can_protoplexer_canid_get_priority_inverted (uni_can_protoplexer_canid_create f t p b) = p \<and>
    uni_can_protoplexer_canid_get_is_first (uni_can_protoplexer_canid_create f t p b) = b \<and>
    uni_can_protoplexer_canid_create f t p b AND 0x1FFFFFFF = uni_can_protoplexer_canid_create f t p b \<and>
    (uni_can_protoplexer_canid_create f t p b = uni_can_protoplexer_canid_create f' t' p' b' \<longleftrightarrow>
      f = f' \<and> t = t' \<and> p = p' \<and> b = b')"
proof -
  have fits: "pp_id_fits (f, t, p, b)" "pp_id_fits (f', t', p', b')"
    using assms by (simp_all add: pp_id_fits_def)
  show ?thesis
    using pp_id.encode_inject [OF fits] pp_id.decode_encode [OF fits(1)] pp_id.encode_mask [of "(f, t, p, b)"]
    by (simp add: pp_id_encode_def pp_id_decode_def)
qed

theorem pp_canid_roundtrip_witness:
  "uni_can_protoplexer_canid_get_from (uni_can_protoplexer_canid_create 0x123 0x456 7 True) = 0x123"
  using pp_canid_roundtrip [of "0x123" "0x456" 7 1 2 3 True False] by simp

text \<open>
  C17. Cutting a message whose data have the length it says into chunks of 6 to 8 bytes succeeds when there
  is memory for them. The number of chunks is
  the length of header and data divided by the chunk length, rounded up; the bytes of the chunks in
  their order are the header (identifier, length, checksum) followed by the data; every chunk is an
  extended frame from the sender to the receiver, only the first is marked as first, and every
  chunk but the last is full.
\<close>

theorem chunks_carry_message:
  assumes "pp_msg_wf msg" and "6 \<le> unat m" and "unat m \<le> 8"
  shows "\<exists>chunks. uni_can_protoplexer_build_chunks True (Some msg) m True = (PP_OK, Some chunks, length chunks) \<and>
    length chunks = (6 + unat (ppm_length msg) + (unat m - 1)) div unat m \<and>
    concat (map can_bytes chunks) = pp_header msg @ pp_payload msg \<and>
    (\<forall>i<length chunks. cm_flags (chunks ! i) = UNI_CAN_MSG_FLAG_EXT_ID \<and>
      cm_id (chunks ! i) = uni_can_protoplexer_canid_create (ppm_address_from msg) (ppm_address_to msg)
        (ppm_priority_inverted msg) (i = 0) \<and>
      (if Suc i < length chunks then cm_len (chunks ! i) = m
       else 0 < cm_len (chunks ! i) \<and> cm_len (chunks ! i) \<le> m))"
proof -
  let ?n = "uni_can_protoplexer_chunks_count (ppm_length msg) m"
  let ?chunks = "map (pp_chunk msg (unat m)) [0..<?n]"
  have n: "?n = (6 + unat (ppm_length msg) + (unat m - 1)) div unat m"
    by (rule chunks_count_eq [OF assms(2,3)])
  have bytes: "concat (map can_bytes ?chunks) = pp_stream msg"
    using concat_pp_pieces [OF assms] by (simp add: comp_def can_bytes_pp_chunk assms(3))
  have len: "unat (cm_len (?chunks ! i)) = min (unat m) (6 + unat (ppm_length msg) - i * unat m)" if "i < ?n" for i
    using that assms(3) by (simp add: pp_chunk_def length_pp_piece [OF assms(1)] unat_of_nat_u16)
  have full: "if Suc i < ?n then cm_len (?chunks ! i) = m
      else 0 < cm_len (?chunks ! i) \<and> cm_len (?chunks ! i) \<le> m" if "i < ?n" for i
  proof (cases "Suc i < ?n")
    case True
    then have "Suc i * unat m < 6 + unat (ppm_length msg)"
      using assms(2) n by (intro below_ceil_div) auto
    then have "unat m \<le> 6 + unat (ppm_length msg) - i * unat m"
      by simp
    with len [OF that] have "unat (cm_len (?chunks ! i)) = unat m"
      by simp
    with True show ?thesis
      by (simp add: word_unat_eq_iff)
  next
    case False
    have "i * unat m < 6 + unat (ppm_length msg)"
      using that assms(2) n by (intro below_ceil_div) auto
    with False len [OF that] assms(2) show ?thesis
      by (simp add: word_less_nat_alt word_le_nat_alt)
  qed
  show ?thesis
  proof (intro exI [of _ ?chunks] conjI allI impI)
    fix i
    assume i: "i < length ?chunks"
    then show "cm_flags (?chunks ! i) = UNI_CAN_MSG_FLAG_EXT_ID"
      and "cm_id (?chunks ! i) = uni_can_protoplexer_canid_create (ppm_address_from msg) (ppm_address_to msg)
        (ppm_priority_inverted msg) (i = 0)"
      by (simp_all add: pp_chunk_def)
    show "if Suc i < length ?chunks then cm_len (?chunks ! i) = m
      else 0 < cm_len (?chunks ! i) \<and> cm_len (?chunks ! i) \<le> m"
      using full [of i] i by simp
  qed (use build_chunks_eq [OF assms] n bytes in \<open>simp_all add: pp_stream_def\<close>)
qed

definition pp_example :: uni_can_protoplexer_msg where
  "pp_example = \<lparr>ppm_message_id = 0x1234, ppm_address_from = 0x10, ppm_address_to = 0x20,
     ppm_priority_inverted = 7, ppm_length = 5, ppm_data = Some [1, 2, 3, 4, 5]\<rparr>"

lemma pp_example_wf [simp]: "pp_msg_wf pp_example"
  by (simp add: pp_msg_wf_def pp_payload_def pp_example_def)

theorem chunks_carry_message_witness:
  "\<exists>a b. uni_can_protoplexer_build_chunks True (Some pp_example) 8 True = (PP_OK, Some [a, b], 2)"
proof -
  have two: "length xs = 2 \<longleftrightarrow> (\<exists>a b. xs = [a, b])" for xs :: "uni_can_message list"
    by (auto simp: length_Suc_conv numeral_2_eq_2)
  show ?thesis
    using chunks_carry_message [of pp_example 8]
    by (auto simp: pp_example_def two pp_msg_wf_def pp_payload_def)
qed

end
