(* ===== verification/PpReassembly.thy ===== *)
theory PpReassembly
  imports PpFrame
begin

text \<open>
  The receiving side of ProtoPlexer (\<open>src/uni_can_protoplexer.c\<close>): a context keeps one reassembly
  buffer per sender and receiver with a message in progress.

  A buffer is named by its index in \<open>rx\<close>. Its \<open>payload\<close> is a null pointer, a block of the heap
  (the buffer is its only owner, so the block is kept in it), or a place in the memory the
  application gave, \<open>rx_payload\<close>. The field \<open>ppc_live\<close> is not in the code: it counts the blocks
  the context has taken from the heap for payloads and not given back. The results of the calls to
  \<open>rx_alloc\<close>, \<open>calloc\<close> and \<open>malloc\<close> are arguments.

  The second half states what a receiver promises as one small automaton per sender, with no
  buffers and no memory, and shows that the code refines it.
\<close>

section \<open>State\<close>

datatype pp_payload_ref = HeapBlock "u8 list" | StaticAt nat

record uni_can_protoplexer_rx_buffer =
  rxb_in_use :: bool
  rxb_channel_signature :: u32
  rxb_expected_length :: u16
  rxb_expected_crc :: u16
  rxb_message_id :: u16
  rxb_address_from :: u16
  rxb_address_to :: u16
  rxb_priority_inverted :: u8
  rxb_payload :: "pp_payload_ref option"
  rxb_payload_size :: u16

definition pp_rx_buffer_zero :: uni_can_protoplexer_rx_buffer where
  "pp_rx_buffer_zero = \<lparr>rxb_in_use = False, rxb_channel_signature = 0, rxb_expected_length = 0,
     rxb_expected_crc = 0, rxb_message_id = 0, rxb_address_from = 0, rxb_address_to = 0,
     rxb_priority_inverted = 0, rxb_payload = None, rxb_payload_size = 0\<rparr>"

record uni_can_protoplexer_ctx =
  ppc_own_address :: u16
  ppc_max_chunk_length :: u16
  ppc_monitoring :: bool
  ppc_max_channels :: u16
  ppc_rx :: "uni_can_protoplexer_rx_buffer list option"
  ppc_max_payload :: u16
  ppc_rx_payload :: "u8 list option"
  ppc_rx_static :: bool
  ppc_rx_view :: "nat option"
  ppc_live :: nat

definition pp_ctx_zero :: uni_can_protoplexer_ctx where
  "pp_ctx_zero = \<lparr>ppc_own_address = 0, ppc_max_chunk_length = 0, ppc_monitoring = False,
     ppc_max_channels = 0, ppc_rx = None, ppc_max_payload = 0, ppc_rx_payload = None,
     ppc_rx_static = False, ppc_rx_view = None, ppc_live = 0\<rparr>"

record uni_can_protoplexer_config =
  ppf_own_address :: u16
  ppf_max_chunk_length :: u16
  ppf_max_channels :: u16
  ppf_monitoring :: bool
  ppf_max_payload :: u16
  ppf_rx_buffers :: "uni_can_protoplexer_rx_buffer list option"
  ppf_rx_payload :: "u8 list option"

text \<open>Reading and changing the buffer with index \<open>i\<close>.\<close>

definition pp_bufs :: "uni_can_protoplexer_ctx \<Rightarrow> uni_can_protoplexer_rx_buffer list" where
  "pp_bufs ctx = (case ppc_rx ctx of None \<Rightarrow> [] | Some rx \<Rightarrow> rx)"

definition pp_buf :: "uni_can_protoplexer_ctx \<Rightarrow> nat \<Rightarrow> uni_can_protoplexer_rx_buffer" where
  "pp_buf ctx i = pp_bufs ctx ! i"

definition pp_set ::
  "uni_can_protoplexer_ctx \<Rightarrow> nat \<Rightarrow> (uni_can_protoplexer_rx_buffer \<Rightarrow> uni_can_protoplexer_rx_buffer)
    \<Rightarrow> uni_can_protoplexer_ctx" where
  "pp_set ctx i f = ctx\<lparr>ppc_rx := map_option (\<lambda>rx. rx[i := f (rx ! i)]) (ppc_rx ctx)\<rparr>"

text \<open>The \<open>n\<close> bytes at the payload pointer, and a \<open>memcpy\<close> to the offset \<open>off\<close> from it.\<close>

definition pp_payload_read :: "uni_can_protoplexer_ctx \<Rightarrow> nat \<Rightarrow> nat \<Rightarrow> u8 list" where
  "pp_payload_read ctx i n =
     (case rxb_payload (pp_buf ctx i) of
        None \<Rightarrow> []
      | Some (HeapBlock block) \<Rightarrow> take n block
      | Some (StaticAt place) \<Rightarrow> (case ppc_rx_payload ctx of None \<Rightarrow> [] | Some m \<Rightarrow> take n (drop place m)))"

definition pp_payload_write ::
  "uni_can_protoplexer_ctx \<Rightarrow> nat \<Rightarrow> nat \<Rightarrow> u8 list \<Rightarrow> uni_can_protoplexer_ctx" where
  "pp_payload_write ctx i off bytes =
     (case rxb_payload (pp_buf ctx i) of
        None \<Rightarrow> ctx
      | Some (HeapBlock block) \<Rightarrow>
          pp_set ctx i (\<lambda>b. b\<lparr>rxb_payload := Some (HeapBlock (blit block off bytes))\<rparr>)
      | Some (StaticAt place) \<Rightarrow>
          ctx\<lparr>ppc_rx_payload := map_option (\<lambda>m. blit m (place + off) bytes) (ppc_rx_payload ctx)\<rparr>)"


section \<open>Buffers\<close>

definition uni_can_protoplexer_rx_find :: "uni_can_protoplexer_ctx \<Rightarrow> u32 \<Rightarrow> nat option" where
  "uni_can_protoplexer_rx_find ctx sig =
     first_index (\<lambda>b. rxb_in_use b \<and> rxb_channel_signature b = sig)
       (take (unat (ppc_max_channels ctx)) (pp_bufs ctx))"

definition uni_can_protoplexer_rx_get_or_alloc ::
  "uni_can_protoplexer_ctx \<Rightarrow> u32 \<Rightarrow> uni_can_protoplexer_ctx \<times> nat option" where
  "uni_can_protoplexer_rx_get_or_alloc ctx sig =
     (case uni_can_protoplexer_rx_find ctx sig of
        Some i \<Rightarrow> (ctx, Some i)
      | None \<Rightarrow>
          (case first_index (\<lambda>b. \<not> rxb_in_use b) (take (unat (ppc_max_channels ctx)) (pp_bufs ctx)) of
             Some i \<Rightarrow>
               (pp_set ctx i (\<lambda>_. pp_rx_buffer_zero\<lparr>rxb_in_use := True, rxb_channel_signature := sig,
                                    rxb_message_id := UNI_CAN_PROTOPLEXER_ERROR_ID\<rparr>), Some i)
           | None \<Rightarrow> (ctx, None)))"

definition uni_can_protoplexer_rx_payload_alloc ::
  "heap \<Rightarrow> uni_can_protoplexer_ctx \<Rightarrow> nat \<Rightarrow> u16 \<Rightarrow> uni_can_protoplexer_ctx \<times> bool" where
  "uni_can_protoplexer_rx_payload_alloc rx_alloc ctx i len =
     (if (ppc_max_payload ctx \<noteq> 0 \<or> ppc_rx_static ctx) \<and> len > ppc_max_payload ctx then (ctx, False)
      else if len = 0 then (ctx, True)
      else if ppc_rx_static ctx then
        (case ppc_rx_payload ctx of
           None \<Rightarrow> (pp_set ctx i (\<lambda>b. b\<lparr>rxb_payload := None\<rparr>), False)
         | Some _ \<Rightarrow>
             (pp_set ctx i (\<lambda>b. b\<lparr>rxb_payload := Some (StaticAt (i * unat (ppc_max_payload ctx)))\<rparr>), True))
      else
        (case rx_alloc (unat len) of
           None \<Rightarrow> (pp_set ctx i (\<lambda>b. b\<lparr>rxb_payload := None\<rparr>), False)
         | Some block \<Rightarrow>
             ((pp_set ctx i (\<lambda>b. b\<lparr>rxb_payload := Some (HeapBlock block)\<rparr>))\<lparr>ppc_live := Suc (ppc_live ctx)\<rparr>,
              True)))"

definition uni_can_protoplexer_rx_payload_free ::
  "uni_can_protoplexer_ctx \<Rightarrow> nat \<Rightarrow> uni_can_protoplexer_ctx" where
  "uni_can_protoplexer_rx_payload_free ctx i =
     (let freed = (if \<not> ppc_rx_static ctx \<and> rxb_payload (pp_buf ctx i) \<noteq> None then 1 else 0)
      in (pp_set ctx i (\<lambda>b. b\<lparr>rxb_payload := None, rxb_payload_size := 0\<rparr>))
           \<lparr>ppc_live := ppc_live ctx - freed\<rparr>)"

definition uni_can_protoplexer_rx_reset :: "uni_can_protoplexer_ctx \<Rightarrow> nat \<Rightarrow> uni_can_protoplexer_ctx" where
  "uni_can_protoplexer_rx_reset ctx i =
     pp_set (uni_can_protoplexer_rx_payload_free ctx i) i
       (\<lambda>b. b\<lparr>rxb_expected_length := 0, rxb_expected_crc := 0,
              rxb_message_id := UNI_CAN_PROTOPLEXER_ERROR_ID, rxb_address_from := 0,
              rxb_address_to := 0, rxb_priority_inverted := UNI_CAN_PROTOPLEXER_PRIORITY_MINIMAL\<rparr>)"

definition uni_can_protoplexer_rx_release :: "uni_can_protoplexer_ctx \<Rightarrow> nat \<Rightarrow> uni_can_protoplexer_ctx" where
  "uni_can_protoplexer_rx_release ctx i =
     pp_set (uni_can_protoplexer_rx_reset ctx i) i
       (\<lambda>b. b\<lparr>rxb_in_use := False, rxb_channel_signature := 0\<rparr>)"


section \<open>Starting and ending\<close>

text \<open>
  The initialisers return the new context (\<open>None\<close> when the pointer to it is null) and whether they
  succeeded.
\<close>

definition uni_can_protoplexer_init_common ::
  "uni_can_protoplexer_ctx option \<Rightarrow> uni_can_protoplexer_config option
    \<Rightarrow> uni_can_protoplexer_ctx option \<times> bool" where
  "uni_can_protoplexer_init_common ctx cfg =
     (case (ctx, cfg) of
        (Some _, Some cfg) \<Rightarrow>
          (let ctx = pp_ctx_zero\<lparr>ppc_own_address := ppf_own_address cfg AND 0x0FFF,
                       ppc_max_chunk_length := ppf_max_chunk_length cfg,
                       ppc_monitoring := ppf_monitoring cfg,
                       ppc_max_channels := ppf_max_channels cfg,
                       ppc_max_payload := ppf_max_payload cfg\<rparr>
           in if unat (ppc_max_chunk_length ctx) < UNI_CAN_PROTOPLEXER_HEADER_SIZE
                \<or> unat (ppc_max_chunk_length ctx) > UNI_CAN_MESSAGE_MAXLEN
              then (Some pp_ctx_zero, False) else (Some ctx, True))
      | _ \<Rightarrow> (ctx, False))"

definition uni_can_protoplexer_init_static ::
  "uni_can_protoplexer_ctx option \<Rightarrow> uni_can_protoplexer_config option
    \<Rightarrow> uni_can_protoplexer_ctx option \<times> bool" where
  "uni_can_protoplexer_init_static ctx cfg =
     (case (uni_can_protoplexer_init_common ctx cfg, cfg) of
        ((Some ctx, True), Some cfg) \<Rightarrow>
          if ppf_rx_buffers cfg = None \<or> ppc_max_channels ctx = 0
             \<or> (ppc_max_payload ctx \<noteq> 0 \<and> ppf_rx_payload cfg = None)
          then (Some pp_ctx_zero, False)
          else (Some (ctx\<lparr>ppc_rx := Some (replicate (unat (ppc_max_channels ctx)) pp_rx_buffer_zero),
                          ppc_rx_payload := ppf_rx_payload cfg, ppc_rx_static := True\<rparr>), True)
      | ((ctx, _), _) \<Rightarrow> (ctx, False))"

definition uni_can_protoplexer_init ::
  "bool \<Rightarrow> uni_can_protoplexer_ctx option \<Rightarrow> uni_can_protoplexer_config option
    \<Rightarrow> uni_can_protoplexer_ctx option \<times> bool" where
  "uni_can_protoplexer_init calloc_ok ctx cfg =
     (if (case cfg of None \<Rightarrow> False | Some c \<Rightarrow> ppf_rx_buffers c \<noteq> None)
      then uni_can_protoplexer_init_static ctx cfg
      else
        (case uni_can_protoplexer_init_common ctx cfg of
           (Some ctx, True) \<Rightarrow>
             (let ctx = (if ppc_max_channels ctx = 0 then ctx\<lparr>ppc_max_channels := 16\<rparr> else ctx)
              in if calloc_ok
                 then (Some (ctx\<lparr>ppc_rx := Some (replicate (unat (ppc_max_channels ctx)) pp_rx_buffer_zero)\<rparr>), True)
                 else (Some pp_ctx_zero, False))
         | (ctx, _) \<Rightarrow> (ctx, False)))"

text \<open>
  The loop of \<open>deinit\<close> releases every buffer in use; what is left is the zeroed context and the
  number of payload blocks that were not given back.
\<close>

definition pp_release_if_used :: "nat \<Rightarrow> uni_can_protoplexer_ctx \<Rightarrow> uni_can_protoplexer_ctx" where
  "pp_release_if_used i ctx =
     (if rxb_in_use (pp_buf ctx i) then uni_can_protoplexer_rx_release ctx i else ctx)"

definition uni_can_protoplexer_deinit :: "uni_can_protoplexer_ctx option \<Rightarrow> uni_can_protoplexer_ctx option \<times> nat" where
  "uni_can_protoplexer_deinit ctx =
     (case ctx of
        None \<Rightarrow> (None, 0)
      | Some ctx \<Rightarrow>
          (let ctx' = (case ppc_rx ctx of
                         None \<Rightarrow> ctx
                       | Some _ \<Rightarrow> fold pp_release_if_used [0..<unat (ppc_max_channels ctx)] ctx)
           in (Some pp_ctx_zero, ppc_live ctx')))"


section \<open>Adding a chunk\<close>

text \<open>The signature of a sender and receiver.\<close>

definition pp_signature :: "u32 \<Rightarrow> u32" where
  "pp_signature can_id =
     ucast (uni_can_protoplexer_canid_get_to can_id) OR
     push_bit 12 (ucast (uni_can_protoplexer_canid_get_from can_id))"

text \<open>The first chunk of a message; \<open>Some\<close> is the error the call returns.\<close>

definition pp_accept_first ::
  "heap \<Rightarrow> uni_can_protoplexer_ctx \<Rightarrow> nat \<Rightarrow> uni_can_message
    \<Rightarrow> uni_can_protoplexer_ctx \<times> uni_can_protoplexer_result option" where
  "pp_accept_first rx_alloc ctx i chunk =
     (let addr_to = uni_can_protoplexer_canid_get_to (cm_id chunk);
          addr_from = uni_can_protoplexer_canid_get_from (cm_id chunk);
          prio = uni_can_protoplexer_canid_get_priority_inverted (cm_id chunk);
          u8 = data_u8 (cm_data chunk);
          release = (\<lambda>ctx. uni_can_protoplexer_rx_release ctx i)
      in
      if unat (cm_len chunk) < UNI_CAN_PROTOPLEXER_CHUNK_STARTING_LENGTH_MIN then
        (release ctx, Some PP_ADDING_CHUNK_FIRST_AND_TOO_SHORT)
      else if \<not> uni_can_protoplexer_address_valid addr_to \<or> \<not> uni_can_protoplexer_address_valid addr_from then
        (release ctx, Some PP_WRONG_ADDRESS)
      else if prio > UNI_CAN_PROTOPLEXER_PRIORITY_MINIMAL then
        (release ctx, Some PP_WRONG_PRIORITY)
      else
        let ctx = pp_set ctx i (\<lambda>b. b\<lparr>rxb_address_to := addr_to, rxb_address_from := addr_from,
                                       rxb_priority_inverted := prio,
                                       rxb_expected_length := le16 (u8 ! 2) (u8 ! 3),
                                       rxb_expected_crc := le16 (u8 ! 4) (u8 ! 5)\<rparr>);
            expected = rxb_expected_length (pp_buf ctx i);
            embedded = unat (cm_len chunk) - UNI_CAN_PROTOPLEXER_HEADER_SIZE
        in
        if embedded > unat expected then (release ctx, Some PP_ADDING_CHUNK_HEADER_DATA_OVERFLOW)
        else
          (case uni_can_protoplexer_rx_payload_alloc rx_alloc
                  (uni_can_protoplexer_rx_payload_free ctx i) i expected of
             (ctx, False) \<Rightarrow> (release ctx, Some PP_ADDING_CHUNK_CANT_ALLOCATE_DATA)
           | (ctx, True) \<Rightarrow>
               let ctx = (if embedded > 0
                          then pp_set (pp_payload_write ctx i 0
                                         (take embedded (drop UNI_CAN_PROTOPLEXER_HEADER_SIZE u8))) i
                                 (\<lambda>b. b\<lparr>rxb_payload_size := of_nat embedded\<rparr>)
                          else ctx);
                   ctx = pp_set ctx i (\<lambda>b. b\<lparr>rxb_message_id := le16 (u8 ! 0) (u8 ! 1)\<rparr>)
               in if rxb_message_id (pp_buf ctx i) = UNI_CAN_PROTOPLEXER_ERROR_ID
                  then (release ctx, Some PP_ADDING_CHUNK_RECEIVED_ERROR_ID)
                  else (ctx, None)))"

definition pp_accept_data ::
  "uni_can_protoplexer_ctx \<Rightarrow> nat \<Rightarrow> uni_can_message
    \<Rightarrow> uni_can_protoplexer_ctx \<times> uni_can_protoplexer_result option" where
  "pp_accept_data ctx i chunk =
     (let b = pp_buf ctx i in
      if rxb_message_id b = UNI_CAN_PROTOPLEXER_ERROR_ID then
        (uni_can_protoplexer_rx_release ctx i, Some PP_ADDING_CHUNK_DATA_WITHOUT_HEADER)
      else if unat (rxb_payload_size b) + unat (cm_len chunk) > unat (rxb_expected_length b) then
        (uni_can_protoplexer_rx_release ctx i, Some PP_ADDING_CHUNK_DATA_OVERFLOW)
      else if cm_len chunk > 0 then
        (pp_set (pp_payload_write ctx i (unat (rxb_payload_size b))
                   (take (unat (cm_len chunk)) (data_u8 (cm_data chunk)))) i
           (\<lambda>b. b\<lparr>rxb_payload_size := rxb_payload_size b + cm_len chunk\<rparr>), None)
      else (ctx, None))"

definition pp_finish :: "uni_can_protoplexer_ctx \<Rightarrow> nat \<Rightarrow> uni_can_protoplexer_result \<times> nat option" where
  "pp_finish ctx i =
     (let b = pp_buf ctx i in
      if rxb_payload_size b = rxb_expected_length b then
        if uni_can_protoplexer_crc16 (pp_payload_read ctx i (unat (rxb_expected_length b)))
             (unat (rxb_expected_length b)) \<noteq> rxb_expected_crc b
        then (PP_ADDING_CHUNK_WRONG_CRC, None)
        else (PP_OK, Some i)
      else (PP_OK, None))"

definition pp_drop_view :: "uni_can_protoplexer_ctx \<Rightarrow> uni_can_protoplexer_ctx" where
  "pp_drop_view ctx =
     (case ppc_rx_view ctx of
        None \<Rightarrow> ctx
      | Some i \<Rightarrow> (uni_can_protoplexer_rx_release ctx i)\<lparr>ppc_rx_view := None\<rparr>)"

text \<open>The call after its checks; the last result is the completed reassembly, \<open>*out_done\<close>.\<close>

definition pp_rx_add_valid ::
  "heap \<Rightarrow> uni_can_protoplexer_ctx \<Rightarrow> uni_can_message
    \<Rightarrow> uni_can_protoplexer_ctx \<times> uni_can_protoplexer_result \<times> nat option" where
  "pp_rx_add_valid rx_alloc ctx chunk =
     (let ctx = pp_drop_view ctx;
          addr_to = uni_can_protoplexer_canid_get_to (cm_id chunk);
          is_first = uni_can_protoplexer_canid_get_is_first (cm_id chunk);
          sig = pp_signature (cm_id chunk)
      in
      if addr_to \<noteq> ppc_own_address ctx \<and> \<not> ppc_monitoring ctx then
        (ctx, PP_ADDING_CHUNK_UNRELATED_ADDRESS_TO, None)
      else
        (case uni_can_protoplexer_rx_get_or_alloc ctx sig of
           (ctx, None) \<Rightarrow> (ctx, PP_ADDING_CHUNK_CANT_ALLOCATE_NEW_MSG, None)
         | (ctx, Some i) \<Rightarrow>
             let ctx = (if is_first \<and> rxb_message_id (pp_buf ctx i) \<noteq> UNI_CAN_PROTOPLEXER_ERROR_ID
                        then uni_can_protoplexer_rx_reset ctx i else ctx)
             in (case (if is_first then pp_accept_first rx_alloc ctx i chunk else pp_accept_data ctx i chunk) of
                   (ctx, Some err) \<Rightarrow> (ctx, err, None)
                 | (ctx, None) \<Rightarrow> (ctx, pp_finish ctx i))))"

definition uni_can_protoplexer_rx_add_chunk ::
  "heap \<Rightarrow> uni_can_protoplexer_ctx option \<Rightarrow> uni_can_message option
    \<Rightarrow> uni_can_protoplexer_ctx option \<times> uni_can_protoplexer_result \<times> nat option" where
  "uni_can_protoplexer_rx_add_chunk rx_alloc ctx chunk =
     (case (ctx, chunk) of
        (Some c, Some chunk) \<Rightarrow>
          if ppc_rx c = None \<or> unat (cm_len chunk) > UNI_CAN_MESSAGE_MAXLEN
          then (ctx, PP_ADDING_CHUNK_INVALID_CHUNK, None)
          else (case pp_rx_add_valid rx_alloc c chunk of (c, res, done) \<Rightarrow> (Some c, res, done))
      | _ \<Rightarrow> (ctx, PP_ADDING_CHUNK_INVALID_CHUNK, None))"

text \<open>The message a completed reassembly holds.\<close>

definition pp_done_bytes :: "uni_can_protoplexer_ctx \<Rightarrow> nat \<Rightarrow> u8 list option" where
  "pp_done_bytes ctx i =
     (case rxb_payload (pp_buf ctx i) of
        None \<Rightarrow> None
      | Some _ \<Rightarrow> Some (pp_payload_read ctx i (unat (rxb_expected_length (pp_buf ctx i)))))"

definition uni_can_protoplexer_add_chunk ::
  "heap \<Rightarrow> bool \<Rightarrow> heap \<Rightarrow> uni_can_protoplexer_ctx option \<Rightarrow> uni_can_message option \<Rightarrow> bool
    \<Rightarrow> uni_can_protoplexer_ctx option \<times> uni_can_protoplexer_result \<times> uni_can_protoplexer_msg option" where
  "uni_can_protoplexer_add_chunk rx_alloc calloc_ok malloc ctx chunk out_given =
     (case uni_can_protoplexer_rx_add_chunk rx_alloc ctx chunk of
        (Some ctx, res, Some i) \<Rightarrow>
          if out_given then
            (let b = pp_buf ctx i in
             case uni_can_protoplexer_msg_create calloc_ok malloc (rxb_message_id b) (rxb_address_from b)
                    (rxb_address_to b) (rxb_priority_inverted b) (pp_done_bytes ctx i) (rxb_expected_length b) of
               None \<Rightarrow> (Some (uni_can_protoplexer_rx_release ctx i), PP_ADDING_CHUNK_CANT_SAVE_MESSAGE, None)
             | Some m \<Rightarrow> (Some (uni_can_protoplexer_rx_release ctx i), res, Some m))
          else (Some (uni_can_protoplexer_rx_release ctx i), res, None)
      | (ctx, res, _) \<Rightarrow> (ctx, res, None))"

text \<open>
  \<open>outs_given\<close> says that \<open>out_msg\<close> and \<open>out_complete\<close> are both given. A message is the result when
  the call completes one; its data are the bytes the view shows.
\<close>

definition uni_can_protoplexer_add_chunk_view ::
  "heap \<Rightarrow> uni_can_protoplexer_ctx option \<Rightarrow> uni_can_message option \<Rightarrow> bool
    \<Rightarrow> uni_can_protoplexer_ctx option \<times> uni_can_protoplexer_result \<times> uni_can_protoplexer_msg option" where
  "uni_can_protoplexer_add_chunk_view rx_alloc ctx chunk outs_given =
     (case uni_can_protoplexer_rx_add_chunk rx_alloc ctx chunk of
        (Some ctx, res, Some i) \<Rightarrow>
          if outs_given then
            (let b = pp_buf ctx i in
             (Some (ctx\<lparr>ppc_rx_view := Some i\<rparr>), res,
              Some \<lparr>ppm_message_id = rxb_message_id b, ppm_address_from = rxb_address_from b,
                    ppm_address_to = rxb_address_to b, ppm_priority_inverted = rxb_priority_inverted b,
                    ppm_length = rxb_expected_length b, ppm_data = pp_done_bytes ctx i\<rparr>))
          else (Some (uni_can_protoplexer_rx_release ctx i), res, None)
      | (ctx, res, _) \<Rightarrow> (ctx, res, None))"


section \<open>The buffers as cells\<close>

text \<open>
  What the payload pointer of buffer \<open>i\<close> leads to, to its end: the block, or the part of the
  memory of the application that belongs to the buffer.
\<close>

definition pp_content :: "uni_can_protoplexer_ctx \<Rightarrow> nat \<Rightarrow> u8 list option" where
  "pp_content ctx i =
     (case rxb_payload (pp_buf ctx i) of
        None \<Rightarrow> None
      | Some (HeapBlock block) \<Rightarrow> Some block
      | Some (StaticAt place) \<Rightarrow>
          Some (case ppc_rx_payload ctx of None \<Rightarrow> []
                | Some m \<Rightarrow> take (unat (ppc_max_payload ctx)) (drop place m)))"

text \<open>The memory of a context has the sizes its configuration says.\<close>

definition pp_base :: "uni_can_protoplexer_ctx \<Rightarrow> bool" where
  "pp_base ctx \<longleftrightarrow>
     ppc_rx ctx \<noteq> None \<and> length (pp_bufs ctx) = unat (ppc_max_channels ctx) \<and>
     (ppc_rx_static ctx \<longrightarrow>
       (case ppc_rx_payload ctx of
          None \<Rightarrow> ppc_max_payload ctx = 0
        | Some m \<Rightarrow> length m = unat (ppc_max_channels ctx) * unat (ppc_max_payload ctx)))"

text \<open>Where the payload pointer of buffer \<open>i\<close> may lead.\<close>

definition pp_slot_ok :: "uni_can_protoplexer_ctx \<Rightarrow> nat \<Rightarrow> bool" where
  "pp_slot_ok ctx i \<longleftrightarrow>
     i < length (pp_bufs ctx) \<and>
     (case rxb_payload (pp_buf ctx i) of
        None \<Rightarrow> True
      | Some (HeapBlock _) \<Rightarrow> \<not> ppc_rx_static ctx
      | Some (StaticAt place) \<Rightarrow>
          ppc_rx_static ctx \<and> ppc_rx_payload ctx \<noteq> None \<and> place = i * unat (ppc_max_payload ctx))"

definition pp_blocks :: "uni_can_protoplexer_rx_buffer \<Rightarrow> nat" where
  "pp_blocks b = (case rxb_payload b of Some (HeapBlock _) \<Rightarrow> 1 | _ \<Rightarrow> 0)"

definition pp_balanced :: "uni_can_protoplexer_ctx \<Rightarrow> bool" where
  "pp_balanced ctx \<longleftrightarrow> ppc_live ctx = (\<Sum>j<length (pp_bufs ctx). pp_blocks (pp_buf ctx j))"

text \<open>A step that works on buffer \<open>i\<close> only: everything else stays, and no block is lost.\<close>

definition pp_touch :: "nat \<Rightarrow> uni_can_protoplexer_ctx \<Rightarrow> uni_can_protoplexer_ctx \<Rightarrow> bool" where
  "pp_touch i ctx ctx' \<longleftrightarrow>
     ppc_own_address ctx' = ppc_own_address ctx \<and> ppc_max_chunk_length ctx' = ppc_max_chunk_length ctx \<and>
     ppc_monitoring ctx' = ppc_monitoring ctx \<and> ppc_max_channels ctx' = ppc_max_channels ctx \<and>
     ppc_max_payload ctx' = ppc_max_payload ctx \<and> ppc_rx_static ctx' = ppc_rx_static ctx \<and>
     ppc_rx_view ctx' = ppc_rx_view ctx \<and> (ppc_rx ctx' = None \<longleftrightarrow> ppc_rx ctx = None) \<and>
     length (pp_bufs ctx') = length (pp_bufs ctx) \<and>
     map_option length (ppc_rx_payload ctx') = map_option length (ppc_rx_payload ctx) \<and>
     (\<forall>j. j \<noteq> i \<longrightarrow> pp_buf ctx' j = pp_buf ctx j) \<and>
     (\<forall>j<length (pp_bufs ctx). j \<noteq> i \<longrightarrow> pp_slot_ok ctx j \<longrightarrow> pp_content ctx' j = pp_content ctx j) \<and>
     (pp_balanced ctx \<longrightarrow> pp_balanced ctx')"

lemma pp_bufs_set: "pp_bufs (pp_set ctx i f) = (pp_bufs ctx)[i := f (pp_buf ctx i)]"
  by (simp add: pp_bufs_def pp_set_def pp_buf_def split: option.splits)

lemma length_pp_bufs_set [simp]: "length (pp_bufs (pp_set ctx i f)) = length (pp_bufs ctx)"
  by (simp add: pp_bufs_set)

lemma pp_buf_set [simp]: "i < length (pp_bufs ctx) \<Longrightarrow> pp_buf (pp_set ctx i f) i = f (pp_buf ctx i)"
  by (simp add: pp_buf_def pp_bufs_set)

lemma pp_buf_set_other [simp]: "j \<noteq> i \<Longrightarrow> pp_buf (pp_set ctx i f) j = pp_buf ctx j"
  by (simp add: pp_buf_def pp_bufs_set)

lemma pp_set_fields [simp]:
  "ppc_own_address (pp_set ctx i f) = ppc_own_address ctx"
  "ppc_max_chunk_length (pp_set ctx i f) = ppc_max_chunk_length ctx"
  "ppc_monitoring (pp_set ctx i f) = ppc_monitoring ctx"
  "ppc_max_channels (pp_set ctx i f) = ppc_max_channels ctx"
  "ppc_max_payload (pp_set ctx i f) = ppc_max_payload ctx"
  "ppc_rx_payload (pp_set ctx i f) = ppc_rx_payload ctx"
  "ppc_rx_static (pp_set ctx i f) = ppc_rx_static ctx"
  "ppc_rx_view (pp_set ctx i f) = ppc_rx_view ctx"
  "ppc_live (pp_set ctx i f) = ppc_live ctx"
  "ppc_rx (pp_set ctx i f) = None \<longleftrightarrow> ppc_rx ctx = None"
  by (simp_all add: pp_set_def)

lemma pp_bufs_live [simp]: "pp_bufs (ctx\<lparr>ppc_live := n\<rparr>) = pp_bufs ctx"
  "pp_bufs (ctx\<lparr>ppc_rx_view := v\<rparr>) = pp_bufs ctx" "pp_bufs (ctx\<lparr>ppc_rx_payload := m\<rparr>) = pp_bufs ctx"
  by (simp_all add: pp_bufs_def)

lemma pp_buf_live [simp]: "pp_buf (ctx\<lparr>ppc_live := n\<rparr>) = pp_buf ctx"
  "pp_buf (ctx\<lparr>ppc_rx_view := v\<rparr>) = pp_buf ctx" "pp_buf (ctx\<lparr>ppc_rx_payload := m\<rparr>) = pp_buf ctx"
  by (simp_all add: pp_buf_def fun_eq_iff)

lemma pp_content_live [simp]: "pp_content (ctx\<lparr>ppc_live := n\<rparr>) = pp_content ctx"
  "pp_content (ctx\<lparr>ppc_rx_view := v\<rparr>) = pp_content ctx"
  by (simp_all add: pp_content_def fun_eq_iff split: option.split pp_payload_ref.split)

lemma pp_content_set [simp]:
  "i < length (pp_bufs ctx) \<Longrightarrow> rxb_payload (f (pp_buf ctx i)) = rxb_payload (pp_buf ctx i) \<Longrightarrow>
    pp_content (pp_set ctx i f) i = pp_content ctx i"
  by (simp add: pp_content_def split: option.split pp_payload_ref.split)

lemma pp_content_set_other [simp]: "j \<noteq> i \<Longrightarrow> pp_content (pp_set ctx i f) j = pp_content ctx j"
  by (simp add: pp_content_def split: option.split pp_payload_ref.split)

lemma pp_blocks_sum_set:
  assumes "i < length (pp_bufs ctx)"
  shows "(\<Sum>j<length (pp_bufs ctx). pp_blocks (pp_buf (pp_set ctx i f) j)) + pp_blocks (pp_buf ctx i) =
    (\<Sum>j<length (pp_bufs ctx). pp_blocks (pp_buf ctx j)) + pp_blocks (f (pp_buf ctx i))"
proof -
  have "(\<Sum>j<length (pp_bufs ctx). g j) = g i + (\<Sum>j\<in>{..<length (pp_bufs ctx)} - {i}. g j)" for g :: "nat \<Rightarrow> nat"
    using assms by (intro sum.remove) auto
  then show ?thesis
    using assms by simp
qed

lemma pp_touch_refl [simp]: "pp_touch i ctx ctx"
  by (simp add: pp_touch_def)

lemma pp_touch_fields:
  assumes "pp_touch i ctx ctx'"
  shows "ppc_own_address ctx' = ppc_own_address ctx" "ppc_max_chunk_length ctx' = ppc_max_chunk_length ctx"
    "ppc_monitoring ctx' = ppc_monitoring ctx" "ppc_max_channels ctx' = ppc_max_channels ctx"
    "ppc_max_payload ctx' = ppc_max_payload ctx" "ppc_rx_static ctx' = ppc_rx_static ctx"
    "ppc_rx_view ctx' = ppc_rx_view ctx" "length (pp_bufs ctx') = length (pp_bufs ctx)"
    "ppc_rx ctx' = None \<longleftrightarrow> ppc_rx ctx = None"
    "ppc_rx_payload ctx' = None \<longleftrightarrow> ppc_rx_payload ctx = None"
  using assms by (auto simp: pp_touch_def dest: arg_cong [where f = "\<lambda>x. x = None"])

lemma pp_touch_buf: "pp_touch i ctx ctx' \<Longrightarrow> j \<noteq> i \<Longrightarrow> pp_buf ctx' j = pp_buf ctx j"
  by (simp add: pp_touch_def)

lemma pp_touch_content:
  "pp_touch i ctx ctx' \<Longrightarrow> j \<noteq> i \<Longrightarrow> pp_slot_ok ctx j \<Longrightarrow> pp_content ctx' j = pp_content ctx j"
  by (simp add: pp_touch_def pp_slot_ok_def)

lemma pp_touch_balanced: "pp_touch i ctx ctx' \<Longrightarrow> pp_balanced ctx \<Longrightarrow> pp_balanced ctx'"
  by (simp add: pp_touch_def)

lemma pp_touch_slot_ok: "pp_touch i ctx ctx' \<Longrightarrow> j \<noteq> i \<Longrightarrow> pp_slot_ok ctx' j \<longleftrightarrow> pp_slot_ok ctx j"
  by (simp add: pp_slot_ok_def pp_touch_fields pp_touch_buf cong: option.case_cong pp_payload_ref.case_cong)

lemma pp_touch_base: "pp_touch i ctx ctx' \<Longrightarrow> pp_base ctx \<Longrightarrow> pp_base ctx'"
  by (auto simp: pp_base_def pp_touch_def split: option.splits)

lemma pp_touch_trans:
  assumes a: "pp_touch i ctx ctx'" and b: "pp_touch i ctx' ctx''"
  shows "pp_touch i ctx ctx''"
  unfolding pp_touch_def
proof (intro conjI allI impI)
  fix j
  assume j: "j < length (pp_bufs ctx)" "j \<noteq> i" "pp_slot_ok ctx j"
  then show "pp_content ctx'' j = pp_content ctx j"
    using pp_touch_content [OF a j(2,3)] pp_touch_content [OF b j(2)] pp_touch_slot_ok [OF a j(2)] by simp
qed (use a b in \<open>auto simp: pp_touch_def\<close>)

lemma pp_touch_set [simp]:
  assumes "i < length (pp_bufs ctx)" "rxb_payload (f (pp_buf ctx i)) = rxb_payload (pp_buf ctx i)"
  shows "pp_touch i ctx (pp_set ctx i f)"
  using assms pp_blocks_sum_set [OF assms(1), of f]
  by (simp add: pp_touch_def pp_balanced_def pp_blocks_def)

lemma pp_touch_set_live:
  assumes "i < length (pp_bufs ctx)" "L + pp_blocks (pp_buf ctx i) = ppc_live ctx + pp_blocks (f (pp_buf ctx i))"
  shows "pp_touch i ctx ((pp_set ctx i f)\<lparr>ppc_live := L\<rparr>)"
  using assms pp_blocks_sum_set [OF assms(1), of f] by (simp add: pp_touch_def pp_balanced_def)

lemma pp_touch_set_blocks:
  assumes "i < length (pp_bufs ctx)" "pp_blocks (f (pp_buf ctx i)) = pp_blocks (pp_buf ctx i)"
  shows "pp_touch i ctx (pp_set ctx i f)"
  using assms pp_blocks_sum_set [OF assms(1), of f] by (simp add: pp_touch_def pp_balanced_def)

lemma pp_slot_ok_set [simp]:
  "rxb_payload (f (pp_buf ctx i)) = rxb_payload (pp_buf ctx i) \<Longrightarrow> pp_slot_ok (pp_set ctx i f) i \<longleftrightarrow> pp_slot_ok ctx i"
  by (auto simp: pp_slot_ok_def cong: option.case_cong pp_payload_ref.case_cong)

lemma pp_slot_okD: "pp_slot_ok ctx i \<Longrightarrow> i < length (pp_bufs ctx)"
  by (simp add: pp_slot_ok_def)

lemma payload_free_cell:
  assumes "pp_slot_ok ctx i"
  shows "pp_touch i ctx (uni_can_protoplexer_rx_payload_free ctx i)"
    and "pp_buf (uni_can_protoplexer_rx_payload_free ctx i) i =
      (pp_buf ctx i)\<lparr>rxb_payload := None, rxb_payload_size := 0\<rparr>"
    and "pp_content (uni_can_protoplexer_rx_payload_free ctx i) i = None"
    and "pp_slot_ok (uni_can_protoplexer_rx_payload_free ctx i) i"
proof -
  let ?f = "\<lambda>b. b\<lparr>rxb_payload := None, rxb_payload_size := 0\<rparr>"
  have i: "i < length (pp_bufs ctx)"
    using assms by (rule pp_slot_okD)
  have "pp_balanced ctx \<longrightarrow> pp_balanced (uni_can_protoplexer_rx_payload_free ctx i)"
    using assms pp_blocks_sum_set [OF i, of ?f]
    by (auto simp: uni_can_protoplexer_rx_payload_free_def pp_balanced_def pp_blocks_def pp_slot_ok_def
        split: option.splits pp_payload_ref.splits)
  then show "pp_touch i ctx (uni_can_protoplexer_rx_payload_free ctx i)"
    by (simp add: pp_touch_def uni_can_protoplexer_rx_payload_free_def)
  show "pp_buf (uni_can_protoplexer_rx_payload_free ctx i) i = ?f (pp_buf ctx i)"
    and "pp_content (uni_can_protoplexer_rx_payload_free ctx i) i = None"
    and "pp_slot_ok (uni_can_protoplexer_rx_payload_free ctx i) i"
    using i by (simp_all add: uni_can_protoplexer_rx_payload_free_def pp_content_def pp_slot_ok_def)
qed

lemma reset_cell:
  assumes "pp_slot_ok ctx i"
  shows "pp_touch i ctx (uni_can_protoplexer_rx_reset ctx i)"
    and "pp_buf (uni_can_protoplexer_rx_reset ctx i) i =
      pp_rx_buffer_zero\<lparr>rxb_in_use := rxb_in_use (pp_buf ctx i), rxb_message_id := 0,
        rxb_channel_signature := rxb_channel_signature (pp_buf ctx i), rxb_priority_inverted := 0x0F\<rparr>"
    and "pp_slot_ok (uni_can_protoplexer_rx_reset ctx i) i"
  using payload_free_cell [OF assms] pp_slot_okD [OF payload_free_cell(4) [OF assms]]
  by (auto simp: uni_can_protoplexer_rx_reset_def pp_rx_buffer_zero_def pp_const_defs
      intro: pp_touch_trans [OF payload_free_cell(1) [OF assms]])

lemma release_cell:
  assumes "pp_slot_ok ctx i"
  shows "pp_touch i ctx (uni_can_protoplexer_rx_release ctx i)"
    and "\<not> rxb_in_use (pp_buf (uni_can_protoplexer_rx_release ctx i) i)"
    and "rxb_payload (pp_buf (uni_can_protoplexer_rx_release ctx i) i) = None"
  using reset_cell [OF assms] pp_slot_okD [OF reset_cell(3) [OF assms]]
  by (auto simp: uni_can_protoplexer_rx_release_def pp_rx_buffer_zero_def
      intro: pp_touch_trans [OF reset_cell(1) [OF assms]])

text \<open>Getting memory, and copying into it.\<close>

definition pp_admits :: "heap \<Rightarrow> uni_can_protoplexer_ctx \<Rightarrow> u16 \<Rightarrow> bool" where
  "pp_admits rx_alloc ctx len \<longleftrightarrow>
     \<not> ((ppc_max_payload ctx \<noteq> 0 \<or> ppc_rx_static ctx) \<and> len > ppc_max_payload ctx) \<and>
     (len = 0 \<or> ppc_rx_static ctx \<or> rx_alloc (unat len) \<noteq> None)"

lemma static_region:
  assumes "i < (n :: nat)"
  shows "i * m + m \<le> n * m"
  by (metis Suc_leI add.commute assms mult_Suc mult_le_mono1)

lemma pp_content_static_length:
  assumes "pp_base ctx" "ppc_rx_static ctx" "ppc_rx_payload ctx = Some m" "i < length (pp_bufs ctx)"
  shows "length (take (unat (ppc_max_payload ctx)) (drop (i * unat (ppc_max_payload ctx)) m)) =
    unat (ppc_max_payload ctx)"
  using assms static_region [of i "unat (ppc_max_channels ctx)" "unat (ppc_max_payload ctx)"]
  by (simp add: pp_base_def)

lemma alloc_cell:
  assumes ok: "pp_slot_ok ctx i" "pp_base ctx" "heap_ok rx_alloc"
    and none: "rxb_payload (pp_buf ctx i) = None"
    and run: "uni_can_protoplexer_rx_payload_alloc rx_alloc ctx i len = (ctx', got)"
  shows "pp_touch i ctx ctx'" and "pp_slot_ok ctx' i" and "got \<longleftrightarrow> pp_admits rx_alloc ctx len"
    and "\<exists>ref. pp_buf ctx' i = (pp_buf ctx i)\<lparr>rxb_payload := ref\<rparr>"
    and "got \<Longrightarrow> case pp_content ctx' i of None \<Rightarrow> len = 0 | Some c \<Rightarrow> 0 < len \<and> unat len \<le> length c"
proof -
  have i: "i < length (pp_bufs ctx)"
    using ok(1) by (rule pp_slot_okD)
  consider (refused) "(ppc_max_payload ctx \<noteq> 0 \<or> ppc_rx_static ctx) \<and> len > ppc_max_payload ctx"
    | (empty) "\<not> ((ppc_max_payload ctx \<noteq> 0 \<or> ppc_rx_static ctx) \<and> len > ppc_max_payload ctx)" "len = 0"
    | (static) "len \<le> ppc_max_payload ctx" "len \<noteq> 0" "ppc_rx_static ctx"
    | (heap) "\<not> (ppc_max_payload ctx \<noteq> 0 \<and> len > ppc_max_payload ctx)" "len \<noteq> 0" "\<not> ppc_rx_static ctx"
    by fastforce
  then have all: "pp_touch i ctx ctx' \<and> pp_slot_ok ctx' i \<and> (got \<longleftrightarrow> pp_admits rx_alloc ctx len) \<and>
      (\<exists>ref. pp_buf ctx' i = (pp_buf ctx i)\<lparr>rxb_payload := ref\<rparr>) \<and>
      (got \<longrightarrow> (case pp_content ctx' i of None \<Rightarrow> len = 0 | Some c \<Rightarrow> 0 < len \<and> unat len \<le> length c))"
  proof cases
    case refused
    then have "ctx' = ctx" "\<not> got"
      using run by (auto simp: uni_can_protoplexer_rx_payload_alloc_def)
    with refused ok(1) none show ?thesis
      by (auto simp: pp_admits_def intro: exI [of _ None])
  next
    case empty
    then have "ctx' = ctx" "got"
      using run by (auto simp: uni_can_protoplexer_rx_payload_alloc_def)
    with empty ok(1) none show ?thesis
      by (auto simp: pp_admits_def pp_content_def intro: exI [of _ None])
  next
    case static
    have "ppc_max_payload ctx \<noteq> 0"
      using static(1,2) by auto
    then obtain m where m: "ppc_rx_payload ctx = Some m"
      using ok(2) static(3) by (auto simp: pp_base_def split: option.splits)
    have "ctx' = pp_set ctx i (\<lambda>b. b\<lparr>rxb_payload := Some (StaticAt (i * unat (ppc_max_payload ctx)))\<rparr>)" "got"
      using run static m leD [OF static(1)] by (auto simp: uni_can_protoplexer_rx_payload_alloc_def)
    moreover have "unat len \<le> unat (ppc_max_payload ctx)" "0 < len"
      using static(1,2) by (simp_all add: word_le_nat_alt word_gt_0)
    ultimately show ?thesis
      using static m i none pp_content_static_length [OF ok(2) static(3) m i]
      by (auto simp: pp_admits_def pp_slot_ok_def pp_content_def pp_blocks_def not_less intro!: pp_touch_set_blocks)
  next
    case heap
    show ?thesis
    proof (cases "rx_alloc (unat len)")
      case None
      then have "ctx' = pp_set ctx i (\<lambda>b. b\<lparr>rxb_payload := None\<rparr>)" "\<not> got"
        using run heap by (auto simp: uni_can_protoplexer_rx_payload_alloc_def)
      with None heap ok(1) i none show ?thesis
        by (auto simp: pp_admits_def intro: exI [of _ None])
    next
      case (Some block)
      then have "ctx' = (pp_set ctx i (\<lambda>b. b\<lparr>rxb_payload := Some (HeapBlock block)\<rparr>))
          \<lparr>ppc_live := Suc (ppc_live ctx)\<rparr>" "got"
        using run heap by (auto simp: uni_can_protoplexer_rx_payload_alloc_def)
      moreover have "length block = unat len" "0 < len"
        using Some ok(3) heap(2) by (auto dest: heap_okD simp: word_gt_0)
      ultimately show ?thesis
        using Some heap i none
        by (auto simp: pp_admits_def pp_slot_ok_def pp_content_def pp_blocks_def intro!: pp_touch_set_live)
    qed
  qed
  show "pp_touch i ctx ctx'" "pp_slot_ok ctx' i" "got \<longleftrightarrow> pp_admits rx_alloc ctx len"
    "\<exists>ref. pp_buf ctx' i = (pp_buf ctx i)\<lparr>rxb_payload := ref\<rparr>"
    "got \<Longrightarrow> case pp_content ctx' i of None \<Rightarrow> len = 0 | Some c \<Rightarrow> 0 < len \<and> unat len \<le> length c"
    using all by blast+
qed

lemma write_cell:
  assumes ok: "pp_slot_ok ctx i" "pp_base ctx" and c: "pp_content ctx i = Some c"
    and fits: "off + length bytes \<le> length c"
  shows "pp_touch i ctx (pp_payload_write ctx i off bytes)"
    and "pp_slot_ok (pp_payload_write ctx i off bytes) i"
    and "\<exists>ref. pp_buf (pp_payload_write ctx i off bytes) i = (pp_buf ctx i)\<lparr>rxb_payload := ref\<rparr>"
    and "pp_content (pp_payload_write ctx i off bytes) i = Some (blit c off bytes)"
proof -
  let ?ctx = "pp_payload_write ctx i off bytes"
  let ?M = "unat (ppc_max_payload ctx)"
  have i: "i < length (pp_bufs ctx)"
    using ok(1) by (rule pp_slot_okD)
  have all: "pp_touch i ctx ?ctx \<and> pp_slot_ok ?ctx i \<and>
      (\<exists>ref. pp_buf ?ctx i = (pp_buf ctx i)\<lparr>rxb_payload := ref\<rparr>) \<and> pp_content ?ctx i = Some (blit c off bytes)"
  proof (cases "rxb_payload (pp_buf ctx i)")
    case None
    with c show ?thesis by (simp add: pp_content_def)
  next
    case (Some ref)
    show ?thesis
    proof (cases ref)
      case (HeapBlock block)
      with Some c ok(1) i fits show ?thesis
        by (auto simp: pp_payload_write_def pp_content_def pp_slot_ok_def pp_blocks_def
            intro!: pp_touch_set_blocks)
    next
      case (StaticAt place)
      with Some ok(1) obtain m where st: "ppc_rx_static ctx" "ppc_rx_payload ctx = Some m" "place = i * ?M"
        by (auto simp: pp_slot_ok_def)
      have cm: "c = take ?M (drop (i * ?M) m)"
        using c Some StaticAt st by (simp add: pp_content_def)
      have lenc: "length c = ?M" "length m = length (pp_bufs ctx) * ?M"
        using ok(2) st cm pp_content_static_length [OF ok(2) st(1,2) i] by (simp_all add: pp_base_def)
      have room: "i * ?M + off + length bytes \<le> length m"
        using fits lenc static_region [OF i, of ?M] by simp
      have run: "?ctx = ctx\<lparr>ppc_rx_payload := Some (blit m (i * ?M + off) bytes)\<rparr>"
        using Some StaticAt st by (simp add: pp_payload_write_def)
      have own: "take ?M (drop (i * ?M) (blit m (i * ?M + off) bytes)) = blit c off bytes"
        using fits lenc static_region [OF i, of ?M] slice_blit_within [of off bytes ?M "i * ?M" m]
        unfolding cm by simp
      have others: "take ?M (drop (j * ?M) (blit m (i * ?M + off) bytes)) = take ?M (drop (j * ?M) m)"
        if "j \<noteq> i" for j
      proof (rule slice_blit_other)
        show "i * ?M + off + length bytes \<le> length m" by (rule room)
        show "j * ?M + ?M \<le> i * ?M + off \<or> i * ?M + off + length bytes \<le> j * ?M"
          using that static_region [of j i ?M] static_region [of i j ?M] fits lenc(1) by linarith
      qed
      have "pp_content ?ctx j = pp_content ctx j" if "j \<noteq> i" "pp_slot_ok ctx j" for j
        using that others [OF that(1)] st
        by (auto simp: pp_content_def pp_slot_ok_def run split: option.splits pp_payload_ref.splits)
      then show ?thesis
        using Some StaticAt st i own room
        by (auto simp: run pp_touch_def pp_slot_ok_def pp_content_def pp_balanced_def
            intro!: exI [of _ "rxb_payload (pp_buf ctx i)"])
    qed
  qed
  show "pp_touch i ctx ?ctx" "pp_slot_ok ?ctx i"
    "\<exists>ref. pp_buf ?ctx i = (pp_buf ctx i)\<lparr>rxb_payload := ref\<rparr>"
    "pp_content ?ctx i = Some (blit c off bytes)"
    using all by blast+
qed

lemma payload_read_content:
  assumes "pp_slot_ok ctx i" and "case pp_content ctx i of None \<Rightarrow> n = 0 | Some c \<Rightarrow> n \<le> length c"
  shows "pp_payload_read ctx i n = (case pp_content ctx i of None \<Rightarrow> [] | Some c \<Rightarrow> take n c)"
  using assms
  by (auto simp: pp_payload_read_def pp_content_def pp_slot_ok_def min_absorb1 split: option.splits pp_payload_ref.splits)

end
