(* ===== verification/PpRefinement.thy ===== *)
theory PpRefinement
  imports PpReassembly
begin

text \<open>
  What a ProtoPlexer receiver promises, and that \<open>src/uni_can_protoplexer.c\<close> keeps it.

  The specification has one automaton per sender and receiver (\<open>chan_step\<close>): it holds the message
  in progress, knows nothing of buffers and memory, and no other automaton. \<open>pp_spec_add\<close> adds the
  address filter and the limit on the number of messages in progress. The invariant \<open>pp_wf\<close> of the
  context and the abstraction \<open>pp_abs\<close> connect the code to it.
\<close>

section \<open>Specification\<close>

record pp_partial =
  pa_id :: u16
  pa_from :: u16
  pa_to :: u16
  pa_prio :: u8
  pa_len :: u16
  pa_crc :: u16
  pa_bytes :: "u8 list"

type_synonym pp_messages = "u32 \<Rightarrow> pp_partial option"

definition pp_done_msg :: "pp_partial \<Rightarrow> uni_can_protoplexer_msg" where
  "pp_done_msg p = \<lparr>ppm_message_id = pa_id p, ppm_address_from = pa_from p, ppm_address_to = pa_to p,
     ppm_priority_inverted = pa_prio p, ppm_length = pa_len p,
     ppm_data = (if pa_len p = 0 then None else Some (pa_bytes p))\<rparr>"

type_synonym chan_result = "pp_partial option \<times> uni_can_protoplexer_result \<times> uni_can_protoplexer_msg option"

definition chan_finish :: "pp_partial \<Rightarrow> chan_result" where
  "chan_finish p =
     (if length (pa_bytes p) \<noteq> unat (pa_len p) then (Some p, PP_OK, None)
      else if uni_can_protoplexer_crc16 (pa_bytes p) (unat (pa_len p)) \<noteq> pa_crc p
      then (Some p, PP_ADDING_CHUNK_WRONG_CRC, None)
      else (None, PP_OK, Some (pp_done_msg p)))"

definition chan_first :: "(u16 \<Rightarrow> bool) \<Rightarrow> u32 \<Rightarrow> u8 list \<Rightarrow> chan_result" where
  "chan_first admits can_id d =
     (let from = uni_can_protoplexer_canid_get_from can_id; to = uni_can_protoplexer_canid_get_to can_id;
          len = le16 (d ! 2) (d ! 3)
      in if length d < 6 then (None, PP_ADDING_CHUNK_FIRST_AND_TOO_SHORT, None)
         else if \<not> uni_can_protoplexer_address_valid to \<or> \<not> uni_can_protoplexer_address_valid from
         then (None, PP_WRONG_ADDRESS, None)
         else if length d - 6 > unat len then (None, PP_ADDING_CHUNK_HEADER_DATA_OVERFLOW, None)
         else if \<not> admits len then (None, PP_ADDING_CHUNK_CANT_ALLOCATE_DATA, None)
         else if le16 (d ! 0) (d ! 1) = 0 then (None, PP_ADDING_CHUNK_RECEIVED_ERROR_ID, None)
         else chan_finish \<lparr>pa_id = le16 (d ! 0) (d ! 1), pa_from = from, pa_to = to,
                pa_prio = uni_can_protoplexer_canid_get_priority_inverted can_id,
                pa_len = len, pa_crc = le16 (d ! 4) (d ! 5), pa_bytes = drop 6 d\<rparr>)"

fun chan_data :: "pp_partial option \<Rightarrow> u8 list \<Rightarrow> chan_result" where
  "chan_data None d = (None, PP_ADDING_CHUNK_DATA_WITHOUT_HEADER, None)"
| "chan_data (Some p) d =
     (if length (pa_bytes p) + length d > unat (pa_len p) then (None, PP_ADDING_CHUNK_DATA_OVERFLOW, None)
      else chan_finish (p\<lparr>pa_bytes := pa_bytes p @ d\<rparr>))"

definition chan_step :: "(u16 \<Rightarrow> bool) \<Rightarrow> pp_partial option \<Rightarrow> uni_can_message \<Rightarrow> chan_result" where
  "chan_step admits st f =
     (if uni_can_protoplexer_canid_get_is_first (cm_id f) then chan_first admits (cm_id f) (can_bytes f)
      else chan_data st (can_bytes f))"

definition pp_addressed :: "u16 \<Rightarrow> bool \<Rightarrow> uni_can_message \<Rightarrow> bool" where
  "pp_addressed own monitoring f \<longleftrightarrow> uni_can_protoplexer_canid_get_to (cm_id f) = own \<or> monitoring"

definition pp_spec_add ::
  "u16 \<Rightarrow> bool \<Rightarrow> nat \<Rightarrow> (u16 \<Rightarrow> bool) \<Rightarrow> pp_messages \<Rightarrow> uni_can_message
    \<Rightarrow> pp_messages \<times> uni_can_protoplexer_result \<times> uni_can_protoplexer_msg option" where
  "pp_spec_add own monitoring channels admits st f =
     (let sig = pp_signature (cm_id f) in
      if \<not> pp_addressed own monitoring f then (st, PP_ADDING_CHUNK_UNRELATED_ADDRESS_TO, None)
      else if st sig = None \<and> channels \<le> card (dom st) then (st, PP_ADDING_CHUNK_CANT_ALLOCATE_NEW_MSG, None)
      else (case chan_step admits (st sig) f of (p, res, m) \<Rightarrow> (st(sig := p), res, m)))"


section \<open>Invariant and abstraction\<close>

text \<open>A frame the receiver is given: eight bytes of data of which \<open>len\<close> count.\<close>

definition pp_frame_ok :: "uni_can_message \<Rightarrow> bool" where
  "pp_frame_ok f \<longleftrightarrow> length (data_u8 (cm_data f)) = 8 \<and> unat (cm_len f) \<le> 8"

definition pp_buf_inv :: "uni_can_protoplexer_ctx \<Rightarrow> nat \<Rightarrow> bool" where
  "pp_buf_inv ctx i \<longleftrightarrow>
     pp_slot_ok ctx i \<and>
     (let b = pp_buf ctx i in
      if rxb_in_use b then
        rxb_message_id b \<noteq> 0 \<and> rxb_payload_size b \<le> rxb_expected_length b \<and>
        (case pp_content ctx i of
           None \<Rightarrow> rxb_expected_length b = 0
         | Some c \<Rightarrow> 0 < rxb_expected_length b \<and> unat (rxb_expected_length b) \<le> length c)
      else rxb_payload b = None)"

definition pp_distinct :: "uni_can_protoplexer_ctx \<Rightarrow> bool" where
  "pp_distinct ctx \<longleftrightarrow>
     (\<forall>i<length (pp_bufs ctx). \<forall>j<length (pp_bufs ctx).
        rxb_in_use (pp_buf ctx i) \<and> rxb_in_use (pp_buf ctx j) \<and>
        rxb_channel_signature (pp_buf ctx i) = rxb_channel_signature (pp_buf ctx j) \<longrightarrow> i = j)"

definition pp_wf :: "uni_can_protoplexer_ctx \<Rightarrow> bool" where
  "pp_wf ctx \<longleftrightarrow>
     pp_base ctx \<and> pp_balanced ctx \<and> pp_distinct ctx \<and> (\<forall>i<length (pp_bufs ctx). pp_buf_inv ctx i) \<and>
     (case ppc_rx_view ctx of None \<Rightarrow> True | Some i \<Rightarrow> i < length (pp_bufs ctx) \<and> rxb_in_use (pp_buf ctx i))"

definition pp_partial_of :: "uni_can_protoplexer_ctx \<Rightarrow> nat \<Rightarrow> pp_partial" where
  "pp_partial_of ctx i =
     (let b = pp_buf ctx i in
      \<lparr>pa_id = rxb_message_id b, pa_from = rxb_address_from b, pa_to = rxb_address_to b,
       pa_prio = rxb_priority_inverted b, pa_len = rxb_expected_length b, pa_crc = rxb_expected_crc b,
       pa_bytes = (case pp_content ctx i of None \<Rightarrow> [] | Some c \<Rightarrow> take (unat (rxb_payload_size b)) c)\<rparr>)"

text \<open>The messages in progress; one that was given out as a view is no longer.\<close>

definition pp_abs :: "uni_can_protoplexer_ctx \<Rightarrow> pp_messages" where
  "pp_abs ctx sig =
     (case uni_can_protoplexer_rx_find ctx sig of
        None \<Rightarrow> None
      | Some i \<Rightarrow> if ppc_rx_view ctx = Some i then None else Some (pp_partial_of ctx i))"

definition pp_same_config :: "uni_can_protoplexer_ctx \<Rightarrow> uni_can_protoplexer_ctx \<Rightarrow> bool" where
  "pp_same_config ctx ctx' \<longleftrightarrow>
     ppc_own_address ctx' = ppc_own_address ctx \<and> ppc_max_chunk_length ctx' = ppc_max_chunk_length ctx \<and>
     ppc_monitoring ctx' = ppc_monitoring ctx \<and> ppc_max_channels ctx' = ppc_max_channels ctx \<and>
     ppc_max_payload ctx' = ppc_max_payload ctx \<and> ppc_rx_static ctx' = ppc_rx_static ctx"

text \<open>During a call, with buffer \<open>i\<close> taken for the signature \<open>sig\<close>.\<close>

definition pp_mid :: "uni_can_protoplexer_ctx \<Rightarrow> nat \<Rightarrow> u32 \<Rightarrow> bool" where
  "pp_mid ctx i sig \<longleftrightarrow>
     pp_base ctx \<and> pp_balanced ctx \<and> pp_distinct ctx \<and> ppc_rx_view ctx = None \<and> pp_slot_ok ctx i \<and>
     rxb_in_use (pp_buf ctx i) \<and> rxb_channel_signature (pp_buf ctx i) = sig \<and>
     (\<forall>j<length (pp_bufs ctx). j \<noteq> i \<longrightarrow> pp_buf_inv ctx j)"

lemma pp_same_config_refl [simp]: "pp_same_config ctx ctx"
  by (simp add: pp_same_config_def)

lemma pp_same_config_trans: "pp_same_config a b \<Longrightarrow> pp_same_config b c \<Longrightarrow> pp_same_config a c"
  by (simp add: pp_same_config_def)

lemma pp_touch_same_config: "pp_touch i ctx ctx' \<Longrightarrow> pp_same_config ctx ctx'"
  by (simp add: pp_same_config_def pp_touch_def)

lemma pp_same_config_admits: "pp_same_config ctx ctx' \<Longrightarrow> pp_admits h ctx' = pp_admits h ctx"
  by (simp add: pp_same_config_def pp_admits_def fun_eq_iff)

lemma length_can_bytes: "pp_frame_ok f \<Longrightarrow> length (can_bytes f) = unat (cm_len f)"
  by (simp add: pp_frame_ok_def can_bytes_def)

text \<open>None of this depends on which message is out as a view.\<close>

lemma pp_view_same [simp]:
  "pp_slot_ok (ctx\<lparr>ppc_rx_view := v\<rparr>) = pp_slot_ok ctx"
  "pp_buf_inv (ctx\<lparr>ppc_rx_view := v\<rparr>) = pp_buf_inv ctx"
  "uni_can_protoplexer_rx_find (ctx\<lparr>ppc_rx_view := v\<rparr>) = uni_can_protoplexer_rx_find ctx"
  "pp_partial_of (ctx\<lparr>ppc_rx_view := v\<rparr>) = pp_partial_of ctx"
  "pp_base (ctx\<lparr>ppc_rx_view := v\<rparr>) = pp_base ctx"
  "pp_balanced (ctx\<lparr>ppc_rx_view := v\<rparr>) = pp_balanced ctx"
  "pp_distinct (ctx\<lparr>ppc_rx_view := v\<rparr>) = pp_distinct ctx"
  by (simp_all add: fun_eq_iff pp_slot_ok_def pp_buf_inv_def uni_can_protoplexer_rx_find_def pp_partial_of_def
      pp_base_def pp_balanced_def pp_distinct_def cong: option.case_cong pp_payload_ref.case_cong)

lemma rx_find_lt: "uni_can_protoplexer_rx_find ctx s = Some i \<Longrightarrow> i < length (pp_bufs ctx)"
  unfolding uni_can_protoplexer_rx_find_def by (drule first_index_lt) simp

lemma rx_find_iff:
  assumes "pp_base ctx" "pp_distinct ctx"
  shows "uni_can_protoplexer_rx_find ctx s = Some i \<longleftrightarrow>
    i < length (pp_bufs ctx) \<and> rxb_in_use (pp_buf ctx i) \<and> rxb_channel_signature (pp_buf ctx i) = s"
proof
  assume "uni_can_protoplexer_rx_find ctx s = Some i"
  then show "i < length (pp_bufs ctx) \<and> rxb_in_use (pp_buf ctx i) \<and> rxb_channel_signature (pp_buf ctx i) = s"
    unfolding uni_can_protoplexer_rx_find_def by - (drule first_index_Some, auto simp: pp_buf_def)
next
  assume i: "i < length (pp_bufs ctx) \<and> rxb_in_use (pp_buf ctx i) \<and> rxb_channel_signature (pp_buf ctx i) = s"
  with assms show "uni_can_protoplexer_rx_find ctx s = Some i"
    unfolding uni_can_protoplexer_rx_find_def
    by (intro first_index_unique) (auto simp: pp_base_def pp_distinct_def pp_buf_def)
qed

lemma rx_find_None_iff:
  assumes "pp_base ctx" "pp_distinct ctx"
  shows "uni_can_protoplexer_rx_find ctx s = None \<longleftrightarrow>
    (\<forall>i<length (pp_bufs ctx). \<not> (rxb_in_use (pp_buf ctx i) \<and> rxb_channel_signature (pp_buf ctx i) = s))"
  using rx_find_iff [OF assms, of s] by (metis not_None_eq)

lemma pp_wfD:
  assumes "pp_wf ctx"
  shows "pp_base ctx" "pp_balanced ctx" "pp_distinct ctx"
    and "i < length (pp_bufs ctx) \<Longrightarrow> pp_buf_inv ctx i"
  using assms by (simp_all add: pp_wf_def)

lemma pp_midD:
  assumes "pp_mid ctx i sig"
  shows "pp_base ctx" "pp_balanced ctx" "pp_distinct ctx" "ppc_rx_view ctx = None" "pp_slot_ok ctx i"
    "rxb_in_use (pp_buf ctx i)" "rxb_channel_signature (pp_buf ctx i) = sig" "i < length (pp_bufs ctx)"
  using assms by (simp_all add: pp_mid_def pp_slot_ok_def)

lemma pp_buf_inv_touch:
  assumes "pp_touch i ctx ctx'" "j \<noteq> i" "pp_buf_inv ctx j"
  shows "pp_buf_inv ctx' j"
proof -
  have ok: "pp_slot_ok ctx j"
    using assms(3) by (simp add: pp_buf_inv_def)
  show ?thesis
    using assms(3) unfolding pp_buf_inv_def pp_touch_slot_ok [OF assms(1,2)]
      pp_touch_buf [OF assms(1,2)] pp_touch_content [OF assms(1,2) ok] .
qed

lemma pp_distinct_touch:
  assumes "pp_touch i ctx ctx'" "pp_distinct ctx"
    and "rxb_in_use (pp_buf ctx' i) \<Longrightarrow>
      rxb_in_use (pp_buf ctx i) \<and> rxb_channel_signature (pp_buf ctx' i) = rxb_channel_signature (pp_buf ctx i)"
  shows "pp_distinct ctx'"
proof -
  have "rxb_in_use (pp_buf ctx' j) \<Longrightarrow>
      rxb_in_use (pp_buf ctx j) \<and> rxb_channel_signature (pp_buf ctx' j) = rxb_channel_signature (pp_buf ctx j)" for j
    using assms(3) pp_touch_buf [OF assms(1), of j] by (cases "j = i") auto
  with assms(2) show ?thesis
    unfolding pp_distinct_def pp_touch_fields(8) [OF assms(1)] by metis
qed

lemma pp_mid_touch:
  assumes "pp_mid ctx i sig" "pp_touch i ctx ctx'" "pp_slot_ok ctx' i"
    and "rxb_in_use (pp_buf ctx' i)" "rxb_channel_signature (pp_buf ctx' i) = sig"
  shows "pp_mid ctx' i sig"
  unfolding pp_mid_def
  using assms pp_midD [OF assms(1)]
  by (auto simp: pp_mid_def pp_touch_fields intro: pp_touch_base pp_touch_balanced pp_distinct_touch
      pp_buf_inv_touch)

text \<open>Nothing happens to the messages of other senders.\<close>

lemma pp_abs_touch:
  assumes "pp_mid ctx i sig" "pp_touch i ctx ctx'" "pp_distinct ctx'" "s \<noteq> sig"
    and "rxb_in_use (pp_buf ctx' i) \<Longrightarrow> rxb_channel_signature (pp_buf ctx' i) = sig"
  shows "pp_abs ctx' s = pp_abs ctx s"
proof -
  note mid = pp_midD [OF assms(1)]
  have "uni_can_protoplexer_rx_find ctx' s = Some j \<longleftrightarrow> uni_can_protoplexer_rx_find ctx s = Some j" for j
    using rx_find_iff [OF pp_touch_base [OF assms(2) mid(1)] assms(3)] rx_find_iff [OF mid(1,3)]
      assms(4,5) mid(6,7) pp_touch_buf [OF assms(2), of j] pp_touch_fields(8) [OF assms(2)]
    by (cases "j = i") auto
  then have "uni_can_protoplexer_rx_find ctx' s = uni_can_protoplexer_rx_find ctx s"
    by (metis not_None_eq)
  moreover have "pp_partial_of ctx' j = pp_partial_of ctx j" if "uni_can_protoplexer_rx_find ctx s = Some j" for j
  proof -
    have "j \<noteq> i"
      using that assms(4) mid(7) by (auto simp: rx_find_iff [OF mid(1,3)])
    moreover have "pp_slot_ok ctx j"
      using assms(1) rx_find_lt [OF that] \<open>j \<noteq> i\<close> by (auto simp: pp_mid_def pp_buf_inv_def)
    ultimately show ?thesis
      using assms(2) by (simp add: pp_partial_of_def pp_touch_buf pp_touch_content)
  qed
  ultimately show ?thesis
    using pp_touch_fields(7) [OF assms(2)] by (simp add: pp_abs_def split: option.splits)
qed

lemma pp_abs_mid: "pp_mid ctx i sig \<Longrightarrow> pp_abs ctx sig = Some (pp_partial_of ctx i)"
  using pp_midD [of ctx i sig] rx_find_iff [of ctx sig i] by (simp add: pp_abs_def)

lemma pp_mid_keep:
  assumes "pp_mid ctx i sig" "pp_buf_inv ctx i"
  shows "pp_wf ctx"
  unfolding pp_wf_def using assms by (auto simp: pp_mid_def)

lemma pp_mid_release:
  assumes "pp_mid ctx i sig"
  shows "pp_wf (uni_can_protoplexer_rx_release ctx i)"
    and "pp_abs (uni_can_protoplexer_rx_release ctx i) = (pp_abs ctx)(sig := None)"
    and "pp_same_config ctx (uni_can_protoplexer_rx_release ctx i)"
    and "ppc_rx_view (uni_can_protoplexer_rx_release ctx i) = None"
proof -
  let ?ctx = "uni_can_protoplexer_rx_release ctx i"
  note mid = pp_midD [OF assms] and cell = release_cell [OF pp_midD(5) [OF assms]]
  have base: "pp_base ?ctx"
    by (rule pp_touch_base [OF cell(1) mid(1)])
  have dist: "pp_distinct ?ctx"
    using cell(2) by (intro pp_distinct_touch [OF cell(1) mid(3)]) simp
  show "ppc_rx_view ?ctx = None"
    using mid(4) pp_touch_fields(7) [OF cell(1)] by simp
  moreover have "pp_buf_inv ?ctx j" if "j < length (pp_bufs ?ctx)" for j
  proof (cases "j = i")
    case True
    with cell(2,3) that show ?thesis
      by (simp add: pp_buf_inv_def pp_slot_ok_def)
  next
    case False
    with assms that show ?thesis
      by (intro pp_buf_inv_touch [OF cell(1)]) (auto simp: pp_mid_def pp_touch_fields(8) [OF cell(1)])
  qed
  ultimately show "pp_wf ?ctx"
    using base dist pp_touch_balanced [OF cell(1) mid(2)] by (simp add: pp_wf_def)
  have "uni_can_protoplexer_rx_find ?ctx sig = None"
    using cell(2) mid(3,6,7,8) pp_touch_fields(8) [OF cell(1)] pp_touch_buf [OF cell(1)]
    unfolding rx_find_None_iff [OF base dist] pp_distinct_def by metis
  moreover have "pp_abs ?ctx s = pp_abs ctx s" if "s \<noteq> sig" for s
    using cell(2) that by (intro pp_abs_touch [OF assms cell(1) dist]) simp_all
  ultimately show "pp_abs ?ctx = (pp_abs ctx)(sig := None)"
    by (auto simp: pp_abs_def fun_eq_iff)
  show "pp_same_config ctx ?ctx"
    by (rule pp_touch_same_config [OF cell(1)])
qed


section \<open>The steps of a call\<close>

text \<open>
  How a step that starts in \<open>ctx\<close> with buffer \<open>i\<close> must end: either with an error and the buffer
  released, or with the buffer holding the message so far.
\<close>

definition pp_step_ok ::
  "uni_can_protoplexer_ctx \<Rightarrow> nat \<Rightarrow> u32 \<Rightarrow> uni_can_protoplexer_ctx \<times> uni_can_protoplexer_result option
    \<Rightarrow> chan_result \<Rightarrow> bool" where
  "pp_step_ok ctx i sig out cr \<longleftrightarrow>
     pp_same_config ctx (fst out) \<and>
     (case snd out of
        Some r \<Rightarrow> pp_wf (fst out) \<and> ppc_rx_view (fst out) = None \<and> pp_abs (fst out) = (pp_abs ctx)(sig := None) \<and>
                  cr = (None, r, None)
      | None \<Rightarrow> pp_mid (fst out) i sig \<and> pp_buf_inv (fst out) i \<and>
                (\<forall>s. s \<noteq> sig \<longrightarrow> pp_abs (fst out) s = pp_abs ctx s) \<and> cr = chan_finish (pp_partial_of (fst out) i))"

lemma step_released:
  assumes "pp_mid ctx i sig" "pp_touch i ctx c" "pp_mid c i sig"
  shows "pp_step_ok ctx i sig (uni_can_protoplexer_rx_release c i, Some r) (None, r, None)"
  using pp_mid_release [OF assms(3)] pp_abs_touch [OF assms(1,2) pp_midD(3) [OF assms(3)]] pp_midD(7) [OF assms(3)]
    pp_same_config_trans [OF pp_touch_same_config [OF assms(2)]]
  by (auto simp: pp_step_ok_def fun_eq_iff)

lemma step_kept:
  assumes "pp_mid ctx i sig" "pp_touch i ctx c" "pp_mid c i sig" "pp_buf_inv c i" "cr = chan_finish (pp_partial_of c i)"
  shows "pp_step_ok ctx i sig (c, None) cr"
  using assms pp_abs_touch [OF assms(1,2) pp_midD(3) [OF assms(3)]] pp_midD(7) [OF assms(3)]
    pp_touch_same_config [OF assms(2)]
  by (simp add: pp_step_ok_def)

lemma canid_priority_le: "uni_can_protoplexer_canid_get_priority_inverted can_id \<le> UNI_CAN_PROTOPLEXER_PRIORITY_MINIMAL"
proof -
  have "uni_can_protoplexer_canid_get_priority_inverted can_id = take_bit 4 (ucast (drop_bit 25 can_id))"
    unfolding uni_can_protoplexer_canid_get_priority_inverted_def masks
    by (rule bit_word_eqI) (auto simp: bit_simps)
  also have "\<dots> \<le> mask 4"
    by (simp add: take_bit_eq_mask word_and_le1)
  finally show ?thesis
    by (simp add: UNI_CAN_PROTOPLEXER_PRIORITY_MINIMAL_def mask_eq_exp_minus_1)
qed

lemma accept_data_refines:
  assumes mid: "pp_mid ctx i sig" and f: "pp_frame_ok f"
    and st: "if rxb_message_id (pp_buf ctx i) = 0 then st = None
      else pp_buf_inv ctx i \<and> st = Some (pp_partial_of ctx i)"
  shows "pp_step_ok ctx i sig (pp_accept_data ctx i f) (chan_data st (can_bytes f))"
proof (cases "rxb_message_id (pp_buf ctx i) = 0")
  case True
  with st step_released [OF mid pp_touch_refl mid, of PP_ADDING_CHUNK_DATA_WITHOUT_HEADER] show ?thesis
    by (simp add: pp_accept_data_def pp_const_defs)
next
  case False
  let ?b = "pp_buf ctx i" and ?n = "unat (cm_len f)"
  let ?size = "unat (rxb_payload_size ?b)" and ?len = "unat (rxb_expected_length ?b)"
  have inv: "pp_buf_inv ctx i" and st: "st = Some (pp_partial_of ctx i)"
    using st False by simp_all
  note m = pp_midD [OF mid]
  have size: "?size \<le> ?len"
    using inv m(6) by (simp add: pp_buf_inv_def Let_def word_le_nat_alt)
  have content: "case pp_content ctx i of None \<Rightarrow> rxb_expected_length ?b = 0
      | Some c \<Rightarrow> 0 < rxb_expected_length ?b \<and> ?len \<le> length c"
    using inv m(6) by (simp add: pp_buf_inv_def Let_def)
  have held: "length (pa_bytes (pp_partial_of ctx i)) = ?size"
    using content size by (auto simp: pp_partial_of_def Let_def split: option.splits)
  show ?thesis
  proof (cases "?size + ?n > ?len")
    case True
    with False st held f step_released [OF mid pp_touch_refl mid, of PP_ADDING_CHUNK_DATA_OVERFLOW] show ?thesis
      by (simp add: pp_accept_data_def pp_const_defs Let_def length_can_bytes) (simp add: pp_partial_of_def Let_def)
  next
    case room: False
    show ?thesis
    proof (cases "cm_len f > 0")
      case False
      then have "can_bytes f = []"
        by (simp add: can_bytes_def word_gt_0)
      with False \<open>rxb_message_id ?b \<noteq> 0\<close> room st held step_kept [OF mid pp_touch_refl mid inv refl] show ?thesis
        by (simp add: pp_accept_data_def pp_const_defs Let_def) (simp add: pp_partial_of_def Let_def)
    next
      case True
      then have "0 < ?n"
        by (simp add: word_less_nat_alt)
      then obtain c where c: "pp_content ctx i = Some c" "0 < rxb_expected_length ?b" "?len \<le> length c"
        using content room by (auto split: option.splits)
      let ?ctx1 = "pp_payload_write ctx i ?size (can_bytes f)"
      have fits: "?size + length (can_bytes f) \<le> length c"
        using room c(3) f by (simp add: length_can_bytes)
      note w = write_cell [OF m(5,1) c(1) fits]
      obtain ref where ref: "pp_buf ?ctx1 i = ?b\<lparr>rxb_payload := ref\<rparr>"
        using w(3) by blast
      let ?ctx2 = "pp_set ?ctx1 i (\<lambda>b. b\<lparr>rxb_payload_size := rxb_payload_size b + cm_len f\<rparr>)"
      have i1: "i < length (pp_bufs ?ctx1)"
        by (rule pp_slot_okD [OF w(2)])
      have touch: "pp_touch i ctx ?ctx2"
        using i1 by (intro pp_touch_trans [OF w(1)] pp_touch_set) simp_all
      have sum: "unat (rxb_payload_size ?b + cm_len f) = ?size + ?n"
        using room unat_u16_less [of "rxb_expected_length ?b"] by (simp add: unat_add_lem [THEN iffD1])
      have mid2: "pp_mid ?ctx2 i sig"
        using m w(2) i1 ref by (intro pp_mid_touch [OF mid touch]) simp_all
      have inv2: "pp_buf_inv ?ctx2 i"
        using pp_midD(5) [OF mid2] i1 ref w(4) c sum room inv m(6) fits
        by (simp add: pp_buf_inv_def Let_def word_le_nat_alt)
      have "pp_partial_of ?ctx2 i = (pp_partial_of ctx i)\<lparr>pa_bytes := pa_bytes (pp_partial_of ctx i) @ can_bytes f\<rparr>"
        using i1 ref w(4) c(1) sum fits take_blit_prefix [of ?size c "can_bytes f"] f
        by (simp add: pp_partial_of_def Let_def length_can_bytes)
      moreover have "pp_accept_data ctx i f = (?ctx2, None)"
        using \<open>rxb_message_id ?b \<noteq> 0\<close> room True
        by (simp add: pp_accept_data_def pp_const_defs Let_def can_bytes_def)
      ultimately show ?thesis
        using st held room f step_kept [OF mid touch mid2 inv2 refl]
        by (simp add: length_can_bytes) (simp add: pp_partial_of_def Let_def)
    qed
  qed
qed


lemma can_bytes_nth: "pp_frame_ok f \<Longrightarrow> k < unat (cm_len f) \<Longrightarrow> can_bytes f ! k = data_u8 (cm_data f) ! k"
  by (simp add: can_bytes_def)

lemma accept_first_refines:
  assumes mid: "pp_mid ctx i sig" and f: "pp_frame_ok f" and h: "heap_ok h"
  shows "pp_step_ok ctx i sig (pp_accept_first h ctx i f) (chan_first (pp_admits h ctx) (cm_id f) (can_bytes f))"
proof -
  let ?to = "uni_can_protoplexer_canid_get_to (cm_id f)"
  let ?from = "uni_can_protoplexer_canid_get_from (cm_id f)"
  let ?prio = "uni_can_protoplexer_canid_get_priority_inverted (cm_id f)"
  let ?d = "data_u8 (cm_data f)"
  let ?len = "le16 (?d ! 2) (?d ! 3)" and ?crc = "le16 (?d ! 4) (?d ! 5)" and ?id = "le16 (?d ! 0) (?d ! 1)"
  let ?emb = "unat (cm_len f) - 6"
  let ?put = "\<lambda>b. b\<lparr>rxb_address_to := ?to, rxb_address_from := ?from, rxb_priority_inverted := ?prio,
    rxb_expected_length := ?len, rxb_expected_crc := ?crc\<rparr>"
  let ?ctx1 = "pp_set ctx i ?put"
  let ?ctx2 = "uni_can_protoplexer_rx_payload_free ?ctx1 i"
  note m = pp_midD [OF mid]
  have t1: "pp_touch i ctx ?ctx1"
    using m(8) by simp
  have m1: "pp_mid ?ctx1 i sig"
    using m by (intro pp_mid_touch [OF mid t1]) simp_all
  have b1: "pp_buf ?ctx1 i = ?put (pp_buf ctx i)"
    using m(8) by simp
  note fr = payload_free_cell [OF pp_midD(5) [OF m1]]
  have t2: "pp_touch i ctx ?ctx2"
    by (rule pp_touch_trans [OF t1 fr(1)])
  have m2: "pp_mid ?ctx2 i sig"
    using fr m b1 by (intro pp_mid_touch [OF mid t2]) simp_all
  have none: "rxb_payload (pp_buf ?ctx2 i) = None"
    using fr(2) by simp
  obtain ctx3 got where run: "uni_can_protoplexer_rx_payload_alloc h ?ctx2 i ?len = (ctx3, got)"
    by fastforce
  note al = alloc_cell [OF pp_midD(5,1) [OF m2] h none run]
  have t3: "pp_touch i ctx ctx3"
    by (rule pp_touch_trans [OF t2 al(1)])
  obtain ref where b3: "pp_buf ctx3 i = (pp_buf ?ctx2 i)\<lparr>rxb_payload := ref\<rparr>"
    using al(4) by blast
  have m3: "pp_mid ctx3 i sig"
    using b3 fr(2) b1 m al(2) by (intro pp_mid_touch [OF mid t3]) simp_all
  have got: "got \<longleftrightarrow> pp_admits h ctx ?len"
    using al(3) pp_same_config_admits [OF pp_touch_same_config [OF t2]] by simp
  have prio: "\<not> UNI_CAN_PROTOPLEXER_PRIORITY_MINIMAL < ?prio"
    using canid_priority_le by (simp add: not_less)
  have header: "le16 (can_bytes f ! 2) (can_bytes f ! 3) = ?len" "le16 (can_bytes f ! 4) (can_bytes f ! 5) = ?crc"
    "le16 (can_bytes f ! 0) (can_bytes f ! Suc 0) = ?id" if "\<not> unat (cm_len f) < 6"
    using that f by (simp_all add: can_bytes_nth)
  define ctx4 where "ctx4 = (if 0 < ?emb then pp_set (pp_payload_write ctx3 i 0 (take ?emb (drop 6 ?d))) i
    (\<lambda>b. b\<lparr>rxb_payload_size := of_nat ?emb\<rparr>) else ctx3)"
  let ?ctx5 = "pp_set ctx4 i (\<lambda>b. b\<lparr>rxb_message_id := ?id\<rparr>)"
  have five: "pp_touch i ctx ?ctx5 \<and> pp_mid ?ctx5 i sig \<and> pp_buf ?ctx5 i = (pp_buf ?ctx5 i)\<lparr>rxb_message_id := ?id\<rparr> \<and>
      (?id \<noteq> 0 \<longrightarrow> pp_buf_inv ?ctx5 i) \<and>
      pp_partial_of ?ctx5 i = \<lparr>pa_id = ?id, pa_from = ?from, pa_to = ?to, pa_prio = ?prio, pa_len = ?len,
        pa_crc = ?crc, pa_bytes = drop 6 (can_bytes f)\<rparr>"
    if go: "got" "?emb \<le> unat ?len"
  proof -
    note content = al(5) [OF go(1)]
    have "pp_touch i ctx3 ctx4 \<and> pp_slot_ok ctx4 i \<and> (\<exists>ref. pp_buf ctx4 i =
        (pp_buf ctx3 i)\<lparr>rxb_payload := ref, rxb_payload_size := of_nat ?emb\<rparr>) \<and>
        (case pp_content ctx4 i of None \<Rightarrow> ?len = 0 | Some c \<Rightarrow> 0 < ?len \<and> unat ?len \<le> length c) \<and>
        (case pp_content ctx4 i of None \<Rightarrow> [] | Some c \<Rightarrow> take ?emb c) = drop 6 (can_bytes f)"
    proof (cases "0 < ?emb")
      case True
      have "0 < unat ?len"
        using True go(2) by linarith
      with content obtain c where c: "pp_content ctx3 i = Some c" "unat ?len \<le> length c"
        by (auto split: option.splits)
      have src: "length (take ?emb (drop 6 ?d)) = ?emb" "take ?emb (drop 6 ?d) = drop 6 (can_bytes f)"
        using f by (auto simp: pp_frame_ok_def can_bytes_def drop_take min_def)
      have fit: "0 + length (take ?emb (drop 6 ?d)) \<le> length c"
        using src(1) c(2) go(2) by simp
      note w = write_cell [OF al(2) pp_touch_base [OF t3 m(1)] c(1) fit]
      obtain ref' where "pp_buf (pp_payload_write ctx3 i 0 (take ?emb (drop 6 ?d))) i = (pp_buf ctx3 i)\<lparr>rxb_payload := ref'\<rparr>"
        using w(3) by blast
      then show ?thesis
        using True w(1,2,4) src c go(2) take_blit_prefix [of 0 c "take ?emb (drop 6 ?d)"] \<open>0 < unat ?len\<close>
          pp_slot_okD [OF w(2)]
        by (auto simp: ctx4_def word_less_nat_alt intro!: pp_touch_trans [OF w(1)])
    next
      case False
      then have "drop 6 (can_bytes f) = []" "ctx4 = ctx3"
        using f by (simp_all add: length_can_bytes ctx4_def)
      with False content al(2) b3 fr(2) show ?thesis
        by (auto split: option.splits intro: exI [of _ ref])
    qed
    then obtain ref4 where w: "pp_touch i ctx3 ctx4" "pp_slot_ok ctx4 i"
        "pp_buf ctx4 i = (pp_buf ctx3 i)\<lparr>rxb_payload := ref4, rxb_payload_size := of_nat ?emb\<rparr>"
        "case pp_content ctx4 i of None \<Rightarrow> ?len = 0 | Some c \<Rightarrow> 0 < ?len \<and> unat ?len \<le> length c"
        "(case pp_content ctx4 i of None \<Rightarrow> [] | Some c \<Rightarrow> take ?emb c) = drop 6 (can_bytes f)"
      by blast
    have i4: "i < length (pp_bufs ctx4)"
      by (rule pp_slot_okD [OF w(2)])
    have emb: "unat (of_nat ?emb :: u16) = ?emb"
      using f by (intro unat_of_nat_u16) (auto simp: pp_frame_ok_def)
    have t5: "pp_touch i ctx ?ctx5"
      using i4 by (intro pp_touch_trans [OF pp_touch_trans [OF t3 w(1)]] pp_touch_set) simp_all
    have "pp_mid ?ctx5 i sig"
      using i4 w(2,3) b3 fr(2) b1 m by (intro pp_mid_touch [OF mid t5]) simp_all
    moreover have "pp_buf_inv ?ctx5 i" if "?id \<noteq> 0"
      using that i4 w(2,3,4) b3 fr(2) b1 m(6) emb go(2)
      by (simp add: pp_buf_inv_def Let_def word_le_nat_alt cong: option.case_cong)
    ultimately show ?thesis
      using t5 i4 w(3,5) b3 fr(2) b1 emb by (simp add: pp_partial_of_def Let_def cong: option.case_cong)
  qed
  have released: "pp_step_ok ctx i sig (uni_can_protoplexer_rx_release c i, Some r) (None, r, None)"
    if "pp_touch i ctx c" "pp_mid c i sig" for c r
    by (rule step_released [OF mid that])
  have five_buf: "rxb_message_id (pp_buf ?ctx5 i) = ?id" if "got" "?emb \<le> unat ?len"
    using five [OF that] by (metis uni_can_protoplexer_rx_buffer.select_convs(5) uni_can_protoplexer_rx_buffer.surjective
        uni_can_protoplexer_rx_buffer.update_convs(5))
  have first: "pp_accept_first h ctx i f =
      (if unat (cm_len f) < 6 then (uni_can_protoplexer_rx_release ctx i, Some PP_ADDING_CHUNK_FIRST_AND_TOO_SHORT)
       else if \<not> uni_can_protoplexer_address_valid ?to \<or> \<not> uni_can_protoplexer_address_valid ?from
       then (uni_can_protoplexer_rx_release ctx i, Some PP_WRONG_ADDRESS)
       else if unat ?len < ?emb
       then (uni_can_protoplexer_rx_release ?ctx1 i, Some PP_ADDING_CHUNK_HEADER_DATA_OVERFLOW)
       else if \<not> got then (uni_can_protoplexer_rx_release ctx3 i, Some PP_ADDING_CHUNK_CANT_ALLOCATE_DATA)
       else if ?id = 0 then (uni_can_protoplexer_rx_release ?ctx5 i, Some PP_ADDING_CHUNK_RECEIVED_ERROR_ID)
       else (?ctx5, None))"
    using run b1 five_buf leD [OF canid_priority_le [of "cm_id f"]]
    unfolding pp_accept_first_def Let_def pp_const_defs ctx4_def
    by (cases got) (simp_all add: linorder_not_less [symmetric] del: linorder_not_less)
  have len: "length (can_bytes f) = unat (cm_len f)"
    by (rule length_can_bytes [OF f])
  consider (short) "unat (cm_len f) < 6"
    | (address) "\<not> unat (cm_len f) < 6"
        "\<not> uni_can_protoplexer_address_valid ?to \<or> \<not> uni_can_protoplexer_address_valid ?from"
    | (valid) "\<not> unat (cm_len f) < 6"
        "\<not> (\<not> uni_can_protoplexer_address_valid ?to \<or> \<not> uni_can_protoplexer_address_valid ?from)"
    by blast
  then show ?thesis
  proof cases
    case short
    then show ?thesis
      using released [OF pp_touch_refl mid] by (simp add: first chan_first_def len)
  next
    case address
    then show ?thesis
      using released [OF pp_touch_refl mid] by (simp only: first chan_first_def len Let_def if_True if_False)
  next
    case valid
    note hdr = header [OF valid(1)]
    show ?thesis
    proof (cases "unat ?len < ?emb")
      case True
      with valid released [OF t1 m1] show ?thesis
        by (simp only: first chan_first_def len Let_def if_True if_False hdr One_nat_def)
    next
      case emb: False
      show ?thesis
      proof (cases got)
        case False
        with valid emb got released [OF t3 m3] show ?thesis
          by (simp only: first chan_first_def len Let_def if_True if_False hdr One_nat_def simp_thms)
      next
        case True
        note five = five [OF True leI [OF emb]]
        show ?thesis
        proof (cases "?id = 0")
          case id: True
          have "pp_step_ok ctx i sig (uni_can_protoplexer_rx_release ?ctx5 i, Some PP_ADDING_CHUNK_RECEIVED_ERROR_ID)
              (None, PP_ADDING_CHUNK_RECEIVED_ERROR_ID, None)"
            using five by (blast intro: released)
          with id valid emb True got show ?thesis
            by (simp only: first chan_first_def len Let_def if_True if_False hdr One_nat_def simp_thms)
        next
          case id: False
          have "pp_step_ok ctx i sig (?ctx5, None) (chan_finish (pp_partial_of ?ctx5 i))"
            using five id by (blast intro: step_kept [OF mid])
          with id valid emb True got five show ?thesis
            by (simp only: first chan_first_def len Let_def if_True if_False hdr One_nat_def simp_thms)
        qed
      qed
    qed
  qed
qed


section \<open>The whole call\<close>

lemma drop_view_refines:
  assumes "pp_wf ctx"
  shows "pp_wf (pp_drop_view ctx)" "ppc_rx_view (pp_drop_view ctx) = None"
    "pp_abs (pp_drop_view ctx) = pp_abs ctx" "pp_same_config ctx (pp_drop_view ctx)"
proof -
  have all: "pp_wf (pp_drop_view ctx) \<and> ppc_rx_view (pp_drop_view ctx) = None \<and>
      pp_abs (pp_drop_view ctx) = pp_abs ctx \<and> pp_same_config ctx (pp_drop_view ctx)"
  proof (cases "ppc_rx_view ctx")
    case None
    with assms show ?thesis by (simp add: pp_drop_view_def)
  next
    case (Some i)
    let ?c = "ctx\<lparr>ppc_rx_view := None\<rparr>"
    let ?sig = "rxb_channel_signature (pp_buf ctx i)"
    have view: "i < length (pp_bufs ctx)" "rxb_in_use (pp_buf ctx i)"
      using assms Some by (simp_all add: pp_wf_def)
    have mid: "pp_mid ?c i ?sig"
      using pp_wfD [OF assms] view
      by (simp add: pp_mid_def) (simp add: pp_buf_inv_def)
    have drop: "pp_drop_view ctx = uni_can_protoplexer_rx_release ?c i"
      using Some
      by (simp add: pp_drop_view_def uni_can_protoplexer_rx_release_def uni_can_protoplexer_rx_reset_def
          uni_can_protoplexer_rx_payload_free_def pp_set_def Let_def)
    have found: "uni_can_protoplexer_rx_find ctx ?sig = Some i"
      using view by (simp add: rx_find_iff [OF pp_wfD(1,3) [OF assms]])
    have other: "ppc_rx_view ctx \<noteq> uni_can_protoplexer_rx_find ctx s" if "s \<noteq> ?sig" for s
      using Some that rx_find_iff [OF pp_wfD(1,3) [OF assms], of s i] by auto
    have "pp_abs ctx s = ((pp_abs ?c)(?sig := None)) s" for s
      using found Some other [of s]
      by (cases "s = ?sig"; cases "uni_can_protoplexer_rx_find ctx s") (simp_all add: pp_abs_def)
    then show ?thesis
      using pp_mid_release [OF mid] unfolding drop by (auto simp: fun_eq_iff pp_same_config_def)
  qed
  show "pp_wf (pp_drop_view ctx)" "ppc_rx_view (pp_drop_view ctx) = None"
    "pp_abs (pp_drop_view ctx) = pp_abs ctx" "pp_same_config ctx (pp_drop_view ctx)"
    using all by blast+
qed

text \<open>The number of messages in progress is the number of buffers in use.\<close>

lemma card_pp_abs:
  assumes "pp_wf ctx" "ppc_rx_view ctx = None"
  shows "card (dom (pp_abs ctx)) = card {i. i < length (pp_bufs ctx) \<and> rxb_in_use (pp_buf ctx i)}"
proof -
  let ?sig = "\<lambda>i. rxb_channel_signature (pp_buf ctx i)"
  let ?used = "{i. i < length (pp_bufs ctx) \<and> rxb_in_use (pp_buf ctx i)}"
  have "s \<in> dom (pp_abs ctx) \<longleftrightarrow> uni_can_protoplexer_rx_find ctx s \<noteq> None" for s
    using assms(2) by (auto simp: pp_abs_def split: option.splits)
  then have "s \<in> dom (pp_abs ctx) \<longleftrightarrow> s \<in> ?sig ` ?used" for s
    using rx_find_None_iff [OF pp_wfD(1,3) [OF assms(1)]] by (auto simp: image_iff)
  then have "dom (pp_abs ctx) = ?sig ` ?used"
    by (rule set_eqI)
  moreover have "inj_on ?sig ?used"
    using pp_wfD(3) [OF assms(1)] by (auto simp: inj_on_def pp_distinct_def)
  ultimately show ?thesis
    by (simp add: card_image)
qed

lemma get_or_alloc_none:
  assumes "pp_wf ctx" "ppc_rx_view ctx = None"
    and "uni_can_protoplexer_rx_get_or_alloc ctx sig = (c, None)"
  shows "c = ctx" "pp_abs ctx sig = None" "card (dom (pp_abs ctx)) = unat (ppc_max_channels ctx)"
proof -
  let ?n = "unat (ppc_max_channels ctx)"
  have n: "length (pp_bufs ctx) = ?n"
    using pp_wfD(1) [OF assms(1)] by (simp add: pp_base_def)
  have out: "uni_can_protoplexer_rx_find ctx sig = None" "c = ctx"
    "first_index (\<lambda>b. \<not> rxb_in_use b) (take ?n (pp_bufs ctx)) = None"
    using assms(3) by (simp_all add: uni_can_protoplexer_rx_get_or_alloc_def split: option.splits)
  then have "\<forall>b\<in>set (pp_bufs ctx). rxb_in_use b"
    using n by simp
  then have "{i. i < length (pp_bufs ctx) \<and> rxb_in_use (pp_buf ctx i)} = {..<?n}"
    using n by (auto simp: pp_buf_def)
  then show "c = ctx" "pp_abs ctx sig = None" "card (dom (pp_abs ctx)) = ?n"
    using card_pp_abs [OF assms(1,2)] out by (simp_all add: pp_abs_def)
qed

lemma get_or_alloc_some:
  assumes wf: "pp_wf ctx" and view: "ppc_rx_view ctx = None"
    and run: "uni_can_protoplexer_rx_get_or_alloc ctx sig = (c, Some i)"
  shows "pp_mid c i sig" "pp_same_config ctx c" "s \<noteq> sig \<Longrightarrow> pp_abs c s = pp_abs ctx s"
    "\<not> (pp_abs ctx sig = None \<and> unat (ppc_max_channels ctx) \<le> card (dom (pp_abs ctx)))"
    "if rxb_message_id (pp_buf c i) = 0 then pp_abs ctx sig = None
     else pp_buf_inv c i \<and> pp_abs ctx sig = Some (pp_partial_of c i)"
proof -
  note w = pp_wfD [OF wf]
  have all: "pp_mid c i sig \<and> pp_same_config ctx c \<and> (\<forall>s. s \<noteq> sig \<longrightarrow> pp_abs c s = pp_abs ctx s) \<and>
    \<not> (pp_abs ctx sig = None \<and> unat (ppc_max_channels ctx) \<le> card (dom (pp_abs ctx))) \<and>
    (if rxb_message_id (pp_buf c i) = 0 then pp_abs ctx sig = None
     else pp_buf_inv c i \<and> pp_abs ctx sig = Some (pp_partial_of c i))"
  proof (cases "uni_can_protoplexer_rx_find ctx sig")
    case (Some k)
    then have k: "k = i" "c = ctx"
      using run by (simp_all add: uni_can_protoplexer_rx_get_or_alloc_def)
    have i: "i < length (pp_bufs ctx)" "rxb_in_use (pp_buf ctx i)" "rxb_channel_signature (pp_buf ctx i) = sig"
      using Some k rx_find_iff [OF w(1,3)] by simp_all
    have inv: "pp_buf_inv ctx i" and abs: "pp_abs ctx sig = Some (pp_partial_of ctx i)"
      using w(4) i(1) Some k view by (simp_all add: pp_abs_def)
    then show ?thesis
      using w i view k by (auto simp: pp_mid_def pp_buf_inv_def Let_def)
  next
    case None
    let ?new = "pp_rx_buffer_zero\<lparr>rxb_in_use := True, rxb_channel_signature := sig,
      rxb_message_id := UNI_CAN_PROTOPLEXER_ERROR_ID\<rparr>"
    have run': "first_index (\<lambda>b. \<not> rxb_in_use b) (take (unat (ppc_max_channels ctx)) (pp_bufs ctx)) = Some i"
      "c = pp_set ctx i (\<lambda>_. ?new)"
      using run None by (simp_all add: uni_can_protoplexer_rx_get_or_alloc_def split: option.splits)
    have i: "i < length (pp_bufs ctx)" "\<not> rxb_in_use (pp_buf ctx i)"
      using first_index_lt [OF run'(1)] first_index_holds [OF run'(1)] by (simp_all add: pp_buf_def)
    have free: "rxb_payload (pp_buf ctx i) = None"
      using w(4) [OF i(1)] i(2) by (simp add: pp_buf_inv_def Let_def)
    have new: "pp_buf c i = ?new" "rxb_payload ?new = None"
      using i(1) by (simp_all add: run' pp_rx_buffer_zero_def)
    have touch: "pp_touch i ctx c"
      unfolding run'(2) using i(1) free new(2) by (intro pp_touch_set) simp_all
    have absent: "\<forall>j<length (pp_bufs ctx). \<not> (rxb_in_use (pp_buf ctx j) \<and> rxb_channel_signature (pp_buf ctx j) = sig)"
      using None rx_find_None_iff [OF w(1,3)] by simp
    have dist: "pp_distinct c"
      unfolding pp_distinct_def pp_touch_fields(8) [OF touch]
    proof (intro allI impI)
      fix a b
      assume ab: "a < length (pp_bufs ctx)" "b < length (pp_bufs ctx)"
        and eq: "rxb_in_use (pp_buf c a) \<and> rxb_in_use (pp_buf c b) \<and>
          rxb_channel_signature (pp_buf c a) = rxb_channel_signature (pp_buf c b)"
      have "rxb_channel_signature (pp_buf c i) = sig"
        using new by simp
      with ab eq absent w(3) pp_touch_buf [OF touch, of a] pp_touch_buf [OF touch, of b] show "a = b"
        unfolding pp_distinct_def by (cases "a = i"; cases "b = i") auto
    qed
    have mid: "pp_mid c i sig"
      using touch dist view new w i(1) pp_touch_base [OF touch w(1)] pp_touch_balanced [OF touch w(2)]
      by (auto simp: pp_mid_def pp_slot_ok_def pp_touch_fields [OF touch] intro: pp_buf_inv_touch)
    have others: "pp_abs c s = pp_abs ctx s" if "s \<noteq> sig" for s
    proof -
      have same: "uni_can_protoplexer_rx_find c s = Some j \<longleftrightarrow> uni_can_protoplexer_rx_find ctx s = Some j" for j
        using that i new pp_touch_buf [OF touch, of j] pp_touch_fields(8) [OF touch]
        by (cases "j = i") (auto simp: rx_find_iff [OF w(1,3)] rx_find_iff [OF pp_midD(1,3) [OF mid]])
      then have find: "uni_can_protoplexer_rx_find c s = uni_can_protoplexer_rx_find ctx s"
        by (metis not_None_eq)
      have "pp_partial_of c j = pp_partial_of ctx j" if "uni_can_protoplexer_rx_find ctx s = Some j" for j
      proof -
        have "j \<noteq> i" "pp_slot_ok ctx j"
          using that i(2) w(4) by (auto simp: rx_find_iff [OF w(1,3)] pp_buf_inv_def)
        then show ?thesis
          using touch by (simp add: pp_partial_of_def pp_touch_buf pp_touch_content)
      qed
      with find show ?thesis
        using view pp_touch_fields(7) [OF touch] by (simp add: pp_abs_def split: option.splits)
    qed
    have "{j. j < length (pp_bufs ctx) \<and> rxb_in_use (pp_buf ctx j)} \<subset> {..<length (pp_bufs ctx)}"
      using i by auto
    then have "card (dom (pp_abs ctx)) < length (pp_bufs ctx)"
      unfolding card_pp_abs [OF wf view] by (metis card_lessThan finite_lessThan psubset_card_mono)
    then show ?thesis
      using mid others pp_touch_same_config [OF touch] None new w(1)
      by (simp add: pp_base_def pp_abs_def pp_const_defs)
  qed
  show "pp_mid c i sig" "pp_same_config ctx c" "s \<noteq> sig \<Longrightarrow> pp_abs c s = pp_abs ctx s"
    "\<not> (pp_abs ctx sig = None \<and> unat (ppc_max_channels ctx) \<le> card (dom (pp_abs ctx)))"
    "if rxb_message_id (pp_buf c i) = 0 then pp_abs ctx sig = None
     else pp_buf_inv c i \<and> pp_abs ctx sig = Some (pp_partial_of c i)"
    using all by blast+
qed

lemma finish_refines:
  assumes "pp_mid ctx i sig" "pp_buf_inv ctx i"
  shows "chan_finish (pp_partial_of ctx i) =
    (case pp_finish ctx i of
       (r, None) \<Rightarrow> (Some (pp_partial_of ctx i), r, None)
     | (r, Some k) \<Rightarrow> (None, r, Some (pp_done_msg (pp_partial_of ctx i))))"
    and "pp_finish ctx i = (r, Some k) \<Longrightarrow> k = i \<and> r = PP_OK"
proof -
  let ?b = "pp_buf ctx i"
  note m = pp_midD [OF assms(1)]
  have size: "unat (rxb_payload_size ?b) \<le> unat (rxb_expected_length ?b)"
    and content: "case pp_content ctx i of None \<Rightarrow> rxb_expected_length ?b = 0
      | Some c \<Rightarrow> 0 < rxb_expected_length ?b \<and> unat (rxb_expected_length ?b) \<le> length c"
    using assms(2) m(6) by (simp_all add: pp_buf_inv_def Let_def word_le_nat_alt)
  have len: "length (pa_bytes (pp_partial_of ctx i)) = unat (rxb_payload_size ?b)"
    using content size by (auto simp: pp_partial_of_def Let_def split: option.splits)
  have whole: "pp_payload_read ctx i (unat (rxb_expected_length ?b)) = pa_bytes (pp_partial_of ctx i)"
    if "rxb_payload_size ?b = rxb_expected_length ?b"
    using that content payload_read_content [OF m(5), of "unat (rxb_expected_length ?b)"]
    by (auto simp: pp_partial_of_def Let_def split: option.splits)
  show "chan_finish (pp_partial_of ctx i) =
    (case pp_finish ctx i of
       (r, None) \<Rightarrow> (Some (pp_partial_of ctx i), r, None)
     | (r, Some k) \<Rightarrow> (None, r, Some (pp_done_msg (pp_partial_of ctx i))))"
    using len whole
    by (auto simp: chan_finish_def pp_finish_def Let_def word_unat_eq_iff pp_partial_of_def)
  show "pp_finish ctx i = (r, Some k) \<Longrightarrow> k = i \<and> r = PP_OK"
    by (auto simp: pp_finish_def Let_def split: if_splits)
qed

text \<open>The message that is handed out is the one the specification delivers.\<close>

lemma pp_done_bytes_eq:
  assumes "pp_mid ctx i sig" "pp_buf_inv ctx i" "pp_finish ctx i = (r, Some i)"
  shows "pp_done_bytes ctx i = ppm_data (pp_done_msg (pp_partial_of ctx i))"
proof -
  let ?b = "pp_buf ctx i"
  note m = pp_midD [OF assms(1)]
  have "rxb_payload_size ?b = rxb_expected_length ?b"
    using assms(3) by (auto simp: pp_finish_def Let_def split: if_splits)
  moreover have content: "case pp_content ctx i of None \<Rightarrow> rxb_expected_length ?b = 0
      | Some c \<Rightarrow> 0 < rxb_expected_length ?b \<and> unat (rxb_expected_length ?b) \<le> length c"
    using assms(2) m(6) by (simp add: pp_buf_inv_def Let_def)
  ultimately show ?thesis
    using payload_read_content [OF m(5), of "unat (rxb_expected_length ?b)"]
    by (auto simp: pp_done_bytes_def pp_done_msg_def pp_partial_of_def Let_def pp_content_def
        split: option.splits pp_payload_ref.splits)
qed

text \<open>
  The specification's step from the messages in progress of a context, and how a call that ends in
  \<open>c\<close> with result \<open>r\<close> and the completed buffer \<open>done\<close> answers to it.
\<close>

definition pp_spec_of ::
  "heap \<Rightarrow> uni_can_protoplexer_ctx \<Rightarrow> uni_can_message
    \<Rightarrow> pp_messages \<times> uni_can_protoplexer_result \<times> uni_can_protoplexer_msg option" where
  "pp_spec_of h ctx f =
     pp_spec_add (ppc_own_address ctx) (ppc_monitoring ctx) (unat (ppc_max_channels ctx)) (pp_admits h ctx)
       (pp_abs ctx) f"

definition pp_done_ok ::
  "uni_can_protoplexer_ctx \<Rightarrow> u32 \<Rightarrow> nat option \<Rightarrow> pp_messages \<Rightarrow> uni_can_protoplexer_msg option \<Rightarrow> bool" where
  "pp_done_ok c sig done st m \<longleftrightarrow>
     (case done of
        None \<Rightarrow> pp_wf c \<and> ppc_rx_view c = None \<and> pp_abs c = st \<and> m = None
      | Some i \<Rightarrow> pp_mid c i sig \<and> pp_buf_inv c i \<and> st = (pp_abs c)(sig := None) \<and>
                  m = Some (pp_done_msg (pp_partial_of c i)) \<and>
                  pp_done_bytes c i = ppm_data (pp_done_msg (pp_partial_of c i)))"

lemma step_done:
  assumes step: "pp_step_ok ctx i sig out cr"
    and run: "(case out of (ctx, Some err) \<Rightarrow> (ctx, err, None) | (ctx, None) \<Rightarrow> (ctx, pp_finish ctx i)) = (c, r, done)"
    and cr: "cr = (p, res, msg)"
  shows "pp_same_config ctx c \<and> r = res \<and> pp_done_ok c sig done ((pp_abs ctx)(sig := p)) msg"
proof (cases "snd out")
  case (Some err)
  then have "out = (fst out, Some err)"
    by (metis prod.collapse)
  with run step cr show ?thesis
    by (cases out) (auto simp: pp_step_ok_def pp_done_ok_def)
next
  case None
  then obtain x where x: "out = (x, None)"
    by (metis prod.collapse)
  have fin: "c = x" "pp_finish x i = (r, done)"
    using run x by auto
  have st: "pp_same_config ctx x" "pp_mid x i sig" "pp_buf_inv x i" "\<forall>s. s \<noteq> sig \<longrightarrow> pp_abs x s = pp_abs ctx s"
    "chan_finish (pp_partial_of x i) = (p, res, msg)"
    using step x cr by (simp_all add: pp_step_ok_def)
  show ?thesis
  proof (cases "done")
    case None
    then have "p = Some (pp_partial_of x i)" "r = res" "msg = None"
      using finish_refines(1) [OF st(2,3)] fin(2) st(5) by simp_all
    with None fin(1) st pp_abs_mid [OF st(2)] pp_mid_keep [OF st(2,3)] pp_midD(4) [OF st(2)] show ?thesis
      by (auto simp: pp_done_ok_def fun_eq_iff)
  next
    case (Some k)
    then have "k = i" "p = None" "r = res" "msg = Some (pp_done_msg (pp_partial_of x i))"
      using finish_refines [OF st(2,3)] fin(2) st(5) by simp_all
    with Some fin st pp_done_bytes_eq [OF st(2,3), of r] show ?thesis
      by (auto simp: pp_done_ok_def fun_eq_iff)
  qed
qed

lemma rx_add_refines:
  assumes wf: "pp_wf ctx" and f: "pp_frame_ok f" and h: "heap_ok h"
    and run: "pp_rx_add_valid h ctx f = (c, r, done)"
    and spec: "pp_spec_of h ctx f = (st, res, msg)"
  shows "pp_same_config ctx c \<and> r = res \<and> pp_done_ok c (pp_signature (cm_id f)) done st msg"
proof -
  let ?sig = "pp_signature (cm_id f)" and ?first = "uni_can_protoplexer_canid_get_is_first (cm_id f)"
  let ?x = "pp_drop_view ctx"
  note v = drop_view_refines [OF wf]
  have cfg: "ppc_own_address ?x = ppc_own_address ctx" "ppc_monitoring ?x = ppc_monitoring ctx"
    "ppc_max_channels ?x = ppc_max_channels ctx"
    using v(4) by (simp_all add: pp_same_config_def)
  show ?thesis
  proof (cases "pp_addressed (ppc_own_address ctx) (ppc_monitoring ctx) f")
    case False
    with run spec v cfg show ?thesis
      by (auto simp: pp_rx_add_valid_def pp_spec_of_def pp_spec_add_def pp_addressed_def pp_done_ok_def Let_def)
  next
    case True
    obtain y k where y: "uni_can_protoplexer_rx_get_or_alloc ?x ?sig = (y, k)"
      by fastforce
    show ?thesis
    proof (cases k)
      case None
      note g = get_or_alloc_none [OF v(1,2) y [unfolded None]]
      from None y run spec v g True cfg show ?thesis
        by (auto simp: pp_rx_add_valid_def pp_spec_of_def pp_spec_add_def pp_addressed_def pp_done_ok_def Let_def)
    next
      case (Some i)
      note g = get_or_alloc_some [OF v(1,2) y [unfolded Some]]
      define z where "z = (if ?first \<and> rxb_message_id (pp_buf y i) \<noteq> UNI_CAN_PROTOPLEXER_ERROR_ID
        then uni_can_protoplexer_rx_reset y i else y)"
      note reset = reset_cell [OF pp_midD(5) [OF g(1)]]
      have touch: "pp_touch i y z"
        using reset(1) by (simp add: z_def)
      have mid: "pp_mid z i ?sig"
        using pp_midD [OF g(1)] reset(2,3) by (intro pp_mid_touch [OF g(1) touch]) (auto simp: z_def)
      have others: "pp_abs z s = pp_abs ctx s" if "s \<noteq> ?sig" for s
        using that g(3) [OF that] v(3) pp_midD(7) [OF mid] pp_abs_touch [OF g(1) touch pp_midD(3) [OF mid] that]
        by simp
      have admits: "pp_admits h z = pp_admits h ctx"
        using v(4) g(2) pp_touch_same_config [OF touch]
        by (intro pp_same_config_admits) (blast intro: pp_same_config_trans)
      have step: "pp_step_ok z i ?sig (if ?first then pp_accept_first h z i f else pp_accept_data z i f)
          (chan_step (pp_admits h ctx) (pp_abs ctx ?sig) f)"
      proof (cases ?first)
        case True
        with accept_first_refines [OF mid f h] admits show ?thesis
          by (simp add: chan_step_def)
      next
        case False
        then have "z = y"
          by (simp add: z_def)
        then have "pp_step_ok z i ?sig (pp_accept_data z i f) (chan_data (pp_abs ctx ?sig) (can_bytes f))"
          using g(5) unfolding v(3) by (intro accept_data_refines [OF mid f]) simp
        with False show ?thesis
          by (simp add: chan_step_def)
      qed
      obtain p res' msg' where cs: "chan_step (pp_admits h ctx) (pp_abs ctx ?sig) f = (p, res', msg')"
        by (metis prod_cases3)
      have "(case (if ?first then pp_accept_first h z i f else pp_accept_data z i f) of
          (ctx, Some err) \<Rightarrow> (ctx, err, None) | (ctx, None) \<Rightarrow> (ctx, pp_finish ctx i)) = (c, r, done)"
        using run y Some True cfg
        by (simp add: pp_rx_add_valid_def pp_addressed_def Let_def z_def split: if_split_asm)
      note out = step_done [OF step this cs]
      have "st = (pp_abs ctx)(?sig := p)" "res = res'" "msg = msg'"
        using spec True g(4) v(3) cfg cs by (auto simp: pp_spec_of_def pp_spec_add_def Let_def split: if_splits)
      moreover have "(pp_abs z)(?sig := p) = (pp_abs ctx)(?sig := p)"
        using others by (auto simp: fun_eq_iff)
      moreover have "pp_same_config ctx c"
        using out v(4) g(2) pp_touch_same_config [OF touch] by (blast intro: pp_same_config_trans)
      ultimately show ?thesis
        using out by simp
    qed
  qed
qed


end
