(* ===== verification/PpDelivery.thy ===== *)
theory PpDelivery
  imports PpRefinement
begin

text \<open>
  What users of a ProtoPlexer context get: every call of \<open>uni_can_protoplexer_add_chunk\<close> and of
  \<open>uni_can_protoplexer_add_chunk_view\<close> is a step of the specification, starting and ending a
  context is sound, and a message that one side cuts into chunks arrives on the other side even
  when chunks of other senders come in between.
\<close>

section \<open>Calls\<close>

lemma wf_has_rx: "pp_wf ctx \<Longrightarrow> ppc_rx ctx \<noteq> None"
  by (simp add: pp_wf_def pp_base_def)

lemma rx_add_chunk_valid:
  assumes "pp_wf ctx" "pp_frame_ok f" "pp_rx_add_valid h ctx f = (c, r, done)"
  shows "uni_can_protoplexer_rx_add_chunk h (Some ctx) (Some f) = (Some c, r, done)"
  using wf_has_rx [OF assms(1)] assms(2,3)
  by (auto simp: uni_can_protoplexer_rx_add_chunk_def pp_frame_ok_def UNI_CAN_MESSAGE_MAXLEN_def)

text \<open>
  The application gets a completed message in memory of its own: an object, and a block for the data
  if there is any. Without them the call says that it cannot save the message.
\<close>

definition pp_handed ::
  "bool \<Rightarrow> heap \<Rightarrow> bool \<Rightarrow> uni_can_protoplexer_result \<times> uni_can_protoplexer_msg option
    \<Rightarrow> uni_can_protoplexer_result \<times> uni_can_protoplexer_msg option" where
  "pp_handed calloc_ok malloc out_given = (\<lambda>(r, msg).
     (case msg of
        None \<Rightarrow> (r, None)
      | Some m \<Rightarrow>
          if \<not> out_given then (r, None)
          else if calloc_ok \<and> (ppm_length m = 0 \<or> malloc (unat (ppm_length m)) \<noteq> None) then (r, Some m)
          else (PP_ADDING_CHUNK_CANT_SAVE_MESSAGE, None)))"

lemma pp_handed_total: "heap_total malloc \<Longrightarrow> pp_handed True malloc True (r, msg) = (r, msg)"
  by (auto simp: pp_handed_def heap_total_def split: option.split)

lemma msg_create_copies:
  assumes "heap_ok malloc" "length (case data of None \<Rightarrow> [] | Some bs \<Rightarrow> bs) = unat len" "len = 0 \<longleftrightarrow> data = None"
  shows "uni_can_protoplexer_msg_create calloc_ok malloc mid from to prio data len =
    (if calloc_ok \<and> (len = 0 \<or> malloc (unat len) \<noteq> None)
     then Some \<lparr>ppm_message_id = mid, ppm_address_from = from, ppm_address_to = to,
       ppm_priority_inverted = prio, ppm_length = len, ppm_data = data\<rparr>
     else None)"
proof (cases data)
  case None
  with assms(3) show ?thesis
    by (simp add: uni_can_protoplexer_msg_create_def pp_msg_zero_def Let_def)
next
  case (Some bs)
  have "length g = unat len" if "malloc (unat len) = Some g" for g
    using assms(1) that by (simp add: heap_ok_def)
  with Some assms(2,3) show ?thesis
    by (auto simp: uni_can_protoplexer_msg_create_def pp_msg_zero_def Let_def blit_whole word_gt_0 split: option.split)
qed

lemma done_msg_data:
  assumes "chan_finish p = (None, r, Some m)"
  shows "m = pp_done_msg p" "length (case ppm_data m of None \<Rightarrow> [] | Some bs \<Rightarrow> bs) = unat (ppm_length m)"
    "ppm_length m = 0 \<longleftrightarrow> ppm_data m = None"
  using assms by (auto simp: chan_finish_def pp_done_msg_def split: if_splits)

text \<open>Every message the specification delivers has as many bytes as it says.\<close>

lemma chan_step_delivers:
  assumes "chan_step admits st f = (p, r, Some m)"
  shows "length (case ppm_data m of None \<Rightarrow> [] | Some bs \<Rightarrow> bs) = unat (ppm_length m)"
    "ppm_length m = 0 \<longleftrightarrow> ppm_data m = None" "r = PP_OK" "p = None"
proof -
  have "\<exists>q. chan_finish q = (p, r, Some m)"
  proof (cases "uni_can_protoplexer_canid_get_is_first (cm_id f)")
    case True
    with assms show ?thesis
      by (auto simp: chan_step_def chan_first_def Let_def split: if_splits)
  next
    case False
    with assms show ?thesis
      by (cases st) (auto simp: chan_step_def split: if_splits)
  qed
  then obtain q where q: "chan_finish q = (p, r, Some m)"
    by blast
  then show "r = PP_OK" "p = None"
    by (auto simp: chan_finish_def split: if_splits)
  then show "length (case ppm_data m of None \<Rightarrow> [] | Some bs \<Rightarrow> bs) = unat (ppm_length m)"
    "ppm_length m = 0 \<longleftrightarrow> ppm_data m = None"
    using done_msg_data [of q r m] q by simp_all
qed

lemma spec_delivers:
  assumes "pp_spec_of h ctx f = (st, r, Some m)"
  shows "length (case ppm_data m of None \<Rightarrow> [] | Some bs \<Rightarrow> bs) = unat (ppm_length m)"
    "ppm_length m = 0 \<longleftrightarrow> ppm_data m = None" "r = PP_OK"
  using assms chan_step_delivers [of "pp_admits h ctx" "pp_abs ctx (pp_signature (cm_id f))" f _ r m]
  by (auto simp: pp_spec_of_def pp_spec_add_def Let_def split: if_splits prod.splits)

lemma add_chunk_handed:
  assumes wf: "pp_wf ctx" and f: "pp_frame_ok f" and h: "heap_ok h" and malloc: "heap_ok malloc"
    and spec: "pp_spec_of h ctx f = (st, r, msg)" and handed: "pp_handed calloc_ok malloc out_given (r, msg) = (r', msg')"
  shows "\<exists>c. uni_can_protoplexer_add_chunk h calloc_ok malloc (Some ctx) (Some f) out_given = (Some c, r', msg') \<and>
    pp_wf c \<and> pp_abs c = st \<and> pp_same_config ctx c"
proof -
  obtain c q "done" where run: "pp_rx_add_valid h ctx f = (c, q, done)"
    by (metis prod_cases3)
  note ref = rx_add_refines [OF wf f h run spec] and call = rx_add_chunk_valid [OF wf f run]
  show ?thesis
  proof (cases "done")
    case None
    with ref call handed show ?thesis
      by (auto simp: pp_done_ok_def uni_can_protoplexer_add_chunk_def pp_handed_def)
  next
    case (Some i)
    have d: "pp_mid c i (pp_signature (cm_id f))" "st = (pp_abs c)(pp_signature (cm_id f) := None)"
      "msg = Some (pp_done_msg (pp_partial_of c i))"
      "pp_done_bytes c i = ppm_data (pp_done_msg (pp_partial_of c i))"
      using ref Some by (simp_all add: pp_done_ok_def)
    let ?m = "pp_done_msg (pp_partial_of c i)"
    have "uni_can_protoplexer_msg_create calloc_ok malloc (rxb_message_id (pp_buf c i)) (rxb_address_from (pp_buf c i))
        (rxb_address_to (pp_buf c i)) (rxb_priority_inverted (pp_buf c i)) (pp_done_bytes c i)
        (rxb_expected_length (pp_buf c i)) =
        (if calloc_ok \<and> (ppm_length ?m = 0 \<or> malloc (unat (ppm_length ?m)) \<noteq> None) then Some ?m else None)"
      using msg_create_copies [OF malloc, of "ppm_data ?m" "ppm_length ?m"] spec_delivers [of h ctx f st r ?m] spec d(3,4)
      by (simp add: pp_done_msg_def pp_partial_of_def Let_def)
    with Some call ref d handed pp_mid_release [OF d(1)] show ?thesis
      by (auto simp: uni_can_protoplexer_add_chunk_def pp_handed_def pp_done_ok_def Let_def intro: pp_same_config_trans
          split: if_splits)
  qed
qed

lemma add_chunk_spec:
  assumes "pp_wf ctx" "pp_frame_ok f" "heap_ok h" "heap_total malloc" "pp_spec_of h ctx f = (st, r, msg)"
  shows "\<exists>c. uni_can_protoplexer_add_chunk h True malloc (Some ctx) (Some f) True = (Some c, r, msg) \<and>
    pp_wf c \<and> pp_abs c = st \<and> pp_same_config ctx c"
  by (rule add_chunk_handed [OF assms(1-3) heap_totalD [OF assms(4)] assms(5) pp_handed_total [OF assms(4)]])

lemma add_chunk_view_spec:
  assumes wf: "pp_wf ctx" and f: "pp_frame_ok f" and h: "heap_ok h"
    and spec: "pp_spec_of h ctx f = (st, r, msg)"
  shows "\<exists>c. uni_can_protoplexer_add_chunk_view h (Some ctx) (Some f) True = (Some c, r, msg) \<and>
    pp_wf c \<and> pp_abs c = st \<and> pp_same_config ctx c"
proof -
  obtain c r' "done" where run: "pp_rx_add_valid h ctx f = (c, r', done)"
    by (metis prod_cases3)
  note ref = rx_add_refines [OF wf f h run spec] and call = rx_add_chunk_valid [OF wf f run]
  show ?thesis
  proof (cases "done")
    case None
    with ref call show ?thesis
      by (simp add: pp_done_ok_def uni_can_protoplexer_add_chunk_view_def)
  next
    case (Some i)
    let ?sig = "pp_signature (cm_id f)" and ?v = "c\<lparr>ppc_rx_view := Some i\<rparr>"
    have d: "pp_mid c i ?sig" "pp_buf_inv c i" "st = (pp_abs c)(?sig := None)"
      "msg = Some (pp_done_msg (pp_partial_of c i))"
      "pp_done_bytes c i = ppm_data (pp_done_msg (pp_partial_of c i))"
      using ref Some by (simp_all add: pp_done_ok_def)
    note m = pp_midD [OF d(1)]
    have find: "uni_can_protoplexer_rx_find c s = Some i \<longleftrightarrow> s = ?sig" for s
      using m by (auto simp: rx_find_iff)
    have "pp_wf ?v"
      using pp_mid_keep [OF d(1,2)] m by (simp add: pp_wf_def)
    moreover have "pp_abs ?v s = st s" for s
      using find [of s] m(4) by (auto simp: pp_abs_def d(3) split: option.splits)
    ultimately show ?thesis
      using Some call ref d(4,5)
      by (auto simp: uni_can_protoplexer_add_chunk_view_def Let_def pp_same_config_def pp_done_msg_def
          pp_partial_of_def)
  qed
qed


section \<open>Starting and ending\<close>

lemma pp_fresh_wf:
  assumes "ppc_rx ctx = Some (replicate (unat (ppc_max_channels ctx)) pp_rx_buffer_zero)"
    and "ppc_rx_view ctx = None" "ppc_live ctx = 0"
    and "ppc_rx_static ctx \<longrightarrow> (case ppc_rx_payload ctx of None \<Rightarrow> ppc_max_payload ctx = 0
        | Some m \<Rightarrow> length m = unat (ppc_max_channels ctx) * unat (ppc_max_payload ctx))"
  shows "pp_wf ctx" "pp_abs ctx = Map.empty"
proof -
  have bufs: "pp_bufs ctx = replicate (unat (ppc_max_channels ctx)) pp_rx_buffer_zero"
    using assms(1) by (simp add: pp_bufs_def)
  then have buf: "pp_buf ctx i = pp_rx_buffer_zero" if "i < length (pp_bufs ctx)" for i
    using that by (simp add: pp_buf_def)
  show "pp_wf ctx"
    using assms bufs buf
    by (auto simp: pp_wf_def pp_base_def pp_balanced_def pp_blocks_def pp_distinct_def pp_buf_inv_def pp_slot_ok_def
        pp_rx_buffer_zero_def)
  then show "pp_abs ctx = Map.empty"
    using rx_find_None_iff [of ctx] pp_wfD(1,3) [of ctx] buf
    by (auto simp: fun_eq_iff pp_abs_def pp_rx_buffer_zero_def)
qed

lemma release_if_used_wf:
  assumes "pp_wf ctx" "ppc_rx_view ctx = None" "i < length (pp_bufs ctx)"
  shows "pp_wf (pp_release_if_used i ctx)" "ppc_rx_view (pp_release_if_used i ctx) = None"
    "length (pp_bufs (pp_release_if_used i ctx)) = length (pp_bufs ctx)"
    "\<not> rxb_in_use (pp_buf (pp_release_if_used i ctx) i)"
    "j \<noteq> i \<Longrightarrow> pp_buf (pp_release_if_used i ctx) j = pp_buf ctx j"
proof -
  have mid: "pp_mid ctx i (rxb_channel_signature (pp_buf ctx i))" if "rxb_in_use (pp_buf ctx i)"
    using that pp_wfD [OF assms(1)] assms(2,3) by (auto simp: pp_mid_def pp_buf_inv_def)
  have ok: "pp_slot_ok ctx i"
    using pp_wfD(4) [OF assms(1,3)] by (simp add: pp_buf_inv_def)
  note cell = release_cell [OF ok]
  show "pp_wf (pp_release_if_used i ctx)" "ppc_rx_view (pp_release_if_used i ctx) = None"
    "length (pp_bufs (pp_release_if_used i ctx)) = length (pp_bufs ctx)"
    "\<not> rxb_in_use (pp_buf (pp_release_if_used i ctx) i)"
    "j \<noteq> i \<Longrightarrow> pp_buf (pp_release_if_used i ctx) j = pp_buf ctx j"
    using assms(1,2) mid pp_mid_release(1,4) cell(2) pp_touch_fields(8) [OF cell(1)] pp_touch_buf [OF cell(1)]
    by (auto simp: pp_release_if_used_def)
qed

lemma deinit_loop:
  assumes "pp_wf ctx" "ppc_rx_view ctx = None" "n \<le> length (pp_bufs ctx)"
  shows "pp_wf (fold pp_release_if_used [0..<n] ctx) \<and>
    ppc_rx_view (fold pp_release_if_used [0..<n] ctx) = None \<and>
    length (pp_bufs (fold pp_release_if_used [0..<n] ctx)) = length (pp_bufs ctx) \<and>
    (\<forall>i<n. \<not> rxb_in_use (pp_buf (fold pp_release_if_used [0..<n] ctx) i))"
  using assms(3)
proof (induction n)
  case (Suc n)
  then have IH: "pp_wf (fold pp_release_if_used [0..<n] ctx)"
    "ppc_rx_view (fold pp_release_if_used [0..<n] ctx) = None"
    "n < length (pp_bufs (fold pp_release_if_used [0..<n] ctx))"
    "length (pp_bufs (fold pp_release_if_used [0..<n] ctx)) = length (pp_bufs ctx)"
    "\<forall>i<n. \<not> rxb_in_use (pp_buf (fold pp_release_if_used [0..<n] ctx) i)"
    by simp_all
  note step = release_if_used_wf [OF IH(1-3)]
  have "\<not> rxb_in_use (pp_buf (pp_release_if_used n (fold pp_release_if_used [0..<n] ctx)) i)" if "i < Suc n" for i
    using step(4) step(5) [of i] IH(5) that by (cases "i = n") auto
  with step(1-3) IH(4) show ?case
    by simp
qed (use assms in simp)

lemma deinit_loop_live:
  assumes "pp_wf ctx" "ppc_rx_view ctx = None"
  shows "ppc_live (fold pp_release_if_used [0..<length (pp_bufs ctx)] ctx) = 0"
proof -
  let ?c = "fold pp_release_if_used [0..<length (pp_bufs ctx)] ctx"
  have c: "pp_wf ?c" "length (pp_bufs ?c) = length (pp_bufs ctx)" "\<forall>i<length (pp_bufs ctx). \<not> rxb_in_use (pp_buf ?c i)"
    using deinit_loop [OF assms le_refl] by auto
  then have "\<forall>i<length (pp_bufs ?c). pp_blocks (pp_buf ?c i) = 0"
    using pp_wfD(4) [OF c(1)] by (auto simp: pp_buf_inv_def pp_blocks_def Let_def)
  with pp_wfD(2) [OF c(1)] show ?thesis
    by (simp add: pp_balanced_def)
qed

text \<open>\<open>deinit\<close> looks at the buffers only, so a message that is still out as a view is no obstacle.\<close>

lemma release_ignores_view:
  "uni_can_protoplexer_rx_release (ctx\<lparr>ppc_rx_view := v\<rparr>) i =
    (uni_can_protoplexer_rx_release ctx i)\<lparr>ppc_rx_view := v\<rparr>"
  by (simp add: uni_can_protoplexer_rx_release_def uni_can_protoplexer_rx_reset_def
      uni_can_protoplexer_rx_payload_free_def pp_set_def Let_def)

lemma deinit_loop_ignores_view:
  "fold pp_release_if_used is (ctx\<lparr>ppc_rx_view := v\<rparr>) = (fold pp_release_if_used is ctx)\<lparr>ppc_rx_view := v\<rparr>"
  by (induction "is" arbitrary: ctx) (simp_all add: pp_release_if_used_def release_ignores_view)

lemma wf_without_view: "pp_wf ctx \<Longrightarrow> pp_wf (ctx\<lparr>ppc_rx_view := None\<rparr>)"
  by (simp add: pp_wf_def)

lemma deinit_frees_all:
  assumes "pp_wf ctx"
  shows "uni_can_protoplexer_deinit (Some ctx) = (Some pp_ctx_zero, 0)"
proof -
  let ?c = "ctx\<lparr>ppc_rx_view := None\<rparr>"
  have "length (pp_bufs ctx) = unat (ppc_max_channels ctx)"
    using pp_wfD(1) [OF assms] by (simp add: pp_base_def)
  moreover have "ppc_live (fold pp_release_if_used [0..<length (pp_bufs ctx)] ctx) = 0"
    using deinit_loop_live [OF wf_without_view [OF assms]] by (simp add: deinit_loop_ignores_view)
  ultimately show ?thesis
    using wf_has_rx [OF assms] by (auto simp: uni_can_protoplexer_deinit_def Let_def)
qed


section \<open>Many frames\<close>

text \<open>A receiver that is given frames one after the other, and what it answers to each.\<close>

fun pp_feed ::
  "heap \<Rightarrow> heap \<Rightarrow> uni_can_protoplexer_ctx option \<Rightarrow> uni_can_message list
    \<Rightarrow> (uni_can_protoplexer_result \<times> uni_can_protoplexer_msg option) list" where
  "pp_feed rx_alloc malloc ctx [] = []"
| "pp_feed rx_alloc malloc ctx (f # fs) =
     (case uni_can_protoplexer_add_chunk rx_alloc True malloc ctx (Some f) True of
        (ctx, r, m) \<Rightarrow> (r, m) # pp_feed rx_alloc malloc ctx fs)"

fun chan_feed ::
  "(u16 \<Rightarrow> bool) \<Rightarrow> pp_partial option \<Rightarrow> uni_can_message list
    \<Rightarrow> (uni_can_protoplexer_result \<times> uni_can_protoplexer_msg option) list" where
  "chan_feed admits st [] = []"
| "chan_feed admits st (f # fs) = (case chan_step admits st f of (p, r, m) \<Rightarrow> (r, m) # chan_feed admits p fs)"

definition answers_to ::
  "u32 \<Rightarrow> uni_can_message list \<Rightarrow> 'a list \<Rightarrow> 'a list" where
  "answers_to sig frames answers =
     map snd (filter (\<lambda>(f, _). pp_signature (cm_id f) = sig) (zip frames answers))"

definition pp_of_sig :: "u32 \<Rightarrow> uni_can_message list \<Rightarrow> uni_can_message list" where
  "pp_of_sig sig frames = filter (\<lambda>f. pp_signature (cm_id f) = sig) frames"

lemma answers_to_simps [simp]:
  "answers_to sig [] as = []"
  "answers_to sig (f # fs) (a # as) =
    (if pp_signature (cm_id f) = sig then a # answers_to sig fs as else answers_to sig fs as)"
  by (simp_all add: answers_to_def)

text \<open>
  As long as there is a buffer for every sender, the answers to the frames of one sender are those
  its automaton gives when it runs alone.
\<close>

lemma feed_projects:
  assumes "heap_total rx_alloc" "heap_total malloc"
  shows "pp_wf ctx \<Longrightarrow>
    \<forall>f\<in>set frames. pp_frame_ok f \<and> pp_addressed (ppc_own_address ctx) (ppc_monitoring ctx) f \<and>
      pp_signature (cm_id f) \<in> S \<Longrightarrow>
    dom (pp_abs ctx) \<subseteq> S \<Longrightarrow> finite S \<Longrightarrow> card S \<le> unat (ppc_max_channels ctx) \<Longrightarrow>
    answers_to sig frames (pp_feed rx_alloc malloc (Some ctx) frames) =
      chan_feed (pp_admits rx_alloc ctx) (pp_abs ctx sig) (pp_of_sig sig frames)"
proof (induction frames arbitrary: ctx)
  case Nil
  then show ?case by (simp add: pp_of_sig_def)
next
  case (Cons f fs)
  let ?s = "pp_signature (cm_id f)"
  have f: "pp_frame_ok f" "pp_addressed (ppc_own_address ctx) (ppc_monitoring ctx) f" "?s \<in> S"
    using Cons.prems(2) by simp_all
  have room: "\<not> (pp_abs ctx ?s = None \<and> unat (ppc_max_channels ctx) \<le> card (dom (pp_abs ctx)))"
  proof
    assume a: "pp_abs ctx ?s = None \<and> unat (ppc_max_channels ctx) \<le> card (dom (pp_abs ctx))"
    then have "dom (pp_abs ctx) \<subset> S"
      using f(3) Cons.prems(3) by auto
    then have "card (dom (pp_abs ctx)) < card S"
      using Cons.prems(4) by (rule psubset_card_mono [rotated])
    with a Cons.prems(5) show False by simp
  qed
  obtain p r m where cs: "chan_step (pp_admits rx_alloc ctx) (pp_abs ctx ?s) f = (p, r, m)"
    by (metis prod_cases3)
  have spec: "pp_spec_of rx_alloc ctx f = ((pp_abs ctx)(?s := p), r, m)"
    using f(2) room cs by (auto simp: pp_spec_of_def pp_spec_add_def Let_def)
  obtain c where c: "uni_can_protoplexer_add_chunk rx_alloc True malloc (Some ctx) (Some f) True = (Some c, r, m)"
    "pp_wf c" "pp_abs c = (pp_abs ctx)(?s := p)" "pp_same_config ctx c"
    using add_chunk_spec [OF Cons.prems(1) f(1) heap_totalD [OF assms(1)] assms(2) spec] by blast
  have cfg: "ppc_own_address c = ppc_own_address ctx" "ppc_monitoring c = ppc_monitoring ctx"
    "ppc_max_channels c = ppc_max_channels ctx"
    using c(4) by (simp_all add: pp_same_config_def)
  have "dom (pp_abs c) \<subseteq> S"
    using Cons.prems(3) f(3) by (auto simp: c(3) split: if_splits)
  then have "answers_to sig fs (pp_feed rx_alloc malloc (Some c) fs) =
      chan_feed (pp_admits rx_alloc ctx) (pp_abs c sig) (pp_of_sig sig fs)"
    using Cons.IH [OF c(2)] Cons.prems(2,4,5) pp_same_config_admits [OF c(4)] by (simp add: cfg)
  then show ?case
    using c(1,3) cs by (auto simp: pp_of_sig_def)
qed


section \<open>The chunks of one message\<close>

text \<open>A message that can be sent and is accepted by the receiver.\<close>

definition pp_sendable :: "(u16 \<Rightarrow> bool) \<Rightarrow> uni_can_protoplexer_msg \<Rightarrow> bool" where
  "pp_sendable admits msg \<longleftrightarrow>
     pp_msg_wf msg \<and> ppm_message_id msg \<noteq> UNI_CAN_PROTOPLEXER_ERROR_ID \<and>
     uni_can_protoplexer_address_valid (ppm_address_from msg) \<and>
     uni_can_protoplexer_address_valid (ppm_address_to msg) \<and>
     ppm_priority_inverted msg \<le> UNI_CAN_PROTOPLEXER_PRIORITY_MINIMAL \<and> admits (ppm_length msg)"

definition pp_received :: "uni_can_protoplexer_msg \<Rightarrow> uni_can_protoplexer_msg" where
  "pp_received msg = msg\<lparr>ppm_data := if ppm_length msg = 0 then None else Some (pp_payload msg)\<rparr>"

definition pp_sofar :: "uni_can_protoplexer_msg \<Rightarrow> nat \<Rightarrow> nat \<Rightarrow> pp_partial" where
  "pp_sofar msg m k = \<lparr>pa_id = ppm_message_id msg, pa_from = ppm_address_from msg, pa_to = ppm_address_to msg,
     pa_prio = ppm_priority_inverted msg, pa_len = ppm_length msg,
     pa_crc = uni_can_protoplexer_crc16 (pp_payload msg) (unat (ppm_length msg)),
     pa_bytes = drop 6 (take (k * m) (pp_stream msg))\<rparr>"

lemma address_validD: "uni_can_protoplexer_address_valid a \<Longrightarrow> a AND 0x0FFF = a"
  by (rule u16_and_12_bits) (simp add: uni_can_protoplexer_address_valid_def pp_const_defs)

lemma pp_signature_create:
  "pp_signature (uni_can_protoplexer_canid_create f t p b) = pp_signature (uni_can_protoplexer_canid_create f t p' b')"
  by (simp add: pp_signature_def)

lemma pp_chunk_id [simp]:
  "cm_id (pp_chunk msg m k) = uni_can_protoplexer_canid_create (ppm_address_from msg) (ppm_address_to msg)
     (ppm_priority_inverted msg) (k = 0)"
  by (simp add: pp_chunk_def)

lemma pp_header_nth:
  assumes "pp_msg_wf msg"
  shows "le16 (pp_stream msg ! 0) (pp_stream msg ! 1) = ppm_message_id msg"
    "le16 (pp_stream msg ! 2) (pp_stream msg ! 3) = ppm_length msg"
    "le16 (pp_stream msg ! 4) (pp_stream msg ! 5) = uni_can_protoplexer_crc16 (pp_payload msg) (unat (ppm_length msg))"
  by (simp_all add: pp_stream_def pp_header_def pp_payload_def Let_def numeral_eq_Suc)

lemma chunk_step_first:
  assumes "pp_sendable admits msg" "6 \<le> m" "m \<le> 8"
  shows "chan_step admits st (pp_chunk msg m 0) = chan_finish (pp_sofar msg m 1)"
proof -
  have wf: "pp_msg_wf msg"
    using assms(1) by (simp add: pp_sendable_def)
  define d where "d = can_bytes (pp_chunk msg m 0)"
  have d: "d = take m (pp_stream msg)" "length d = min m (6 + unat (ppm_length msg))"
    using can_bytes_pp_chunk [OF assms(3)] length_pp_stream [OF wf] by (simp_all add: pp_piece_def d_def)
  have nth: "d ! k = pp_stream msg ! k" if "k < 6" for k
    using that assms(2) by (simp add: d(1))
  have prio: "ppm_priority_inverted msg AND 0x0F = ppm_priority_inverted msg"
    using assms(1) by (intro u8_and_4_bits) (simp add: pp_sendable_def pp_const_defs)
  have hdr: "le16 (d ! 0) (d ! 1) = ppm_message_id msg" "le16 (d ! 2) (d ! 3) = ppm_length msg"
    "le16 (d ! 4) (d ! 5) = uni_can_protoplexer_crc16 (pp_payload msg) (unat (ppm_length msg))"
    using pp_header_nth [OF wf] by (simp_all add: nth)
  have short: "\<not> length d < 6" "\<not> length d - 6 > unat (ppm_length msg)"
    using d(2) assms(2) by auto
  show ?thesis
    using assms(1) short prio
    by (simp add: chan_step_def chan_first_def Let_def hdr [unfolded One_nat_def] pp_sendable_def address_validD
        pp_sofar_def d_def [symmetric] d(1) [symmetric] pp_const_defs)
qed

lemma chunk_step_next:
  assumes "pp_msg_wf msg" "6 \<le> m" "m \<le> 8" "0 < k"
  shows "chan_step admits (Some (pp_sofar msg m k)) (pp_chunk msg m k) = chan_finish (pp_sofar msg m (Suc k))"
proof -
  have k: "6 \<le> k * m"
    using assms(2,4) by (cases k) auto
  have d: "can_bytes (pp_chunk msg m k) = take m (drop (k * m) (pp_stream msg))"
    using can_bytes_pp_chunk [OF assms(3)] by (simp add: pp_piece_def)
  have "take (m + k * m) (pp_stream msg) = take (k * m) (pp_stream msg) @ take m (drop (k * m) (pp_stream msg))"
    using take_add [of "k * m" m "pp_stream msg"] by (simp add: add.commute)
  then have join: "drop 6 (take (k * m) (pp_stream msg)) @ take m (drop (k * m) (pp_stream msg)) =
      drop 6 (take (m + k * m) (pp_stream msg))"
    using k by (cases "k * m \<le> length (pp_stream msg)") (auto simp: length_pp_stream [OF assms(1)])
  have "length (drop 6 (take (m + k * m) (pp_stream msg))) \<le> unat (ppm_length msg)"
    by (simp add: length_pp_stream [OF assms(1)])
  then have "length (drop 6 (take (k * m) (pp_stream msg))) + length (take m (drop (k * m) (pp_stream msg)))
      \<le> unat (ppm_length msg)"
    unfolding join [symmetric] length_append .
  with assms(4) d join show ?thesis
    by (simp add: chan_step_def pp_sofar_def)
qed

lemma chan_finish_sofar:
  assumes "pp_msg_wf msg" "6 \<le> m" "0 < k"
  shows "chan_finish (pp_sofar msg m k) =
    (if k * m < 6 + unat (ppm_length msg) then (Some (pp_sofar msg m k), PP_OK, None)
     else (None, PP_OK, Some (pp_received msg)))"
proof -
  have k: "6 \<le> k * m"
    using assms(2,3) by (cases k) auto
  show ?thesis
  proof (cases "k * m < 6 + unat (ppm_length msg)")
    case True
    with k have "k * m - 6 \<noteq> unat (ppm_length msg)"
      by linarith
    with True k show ?thesis
      by (simp add: chan_finish_def pp_sofar_def length_pp_stream [OF assms(1)])
  next
    case False
    then have "drop 6 (take (k * m) (pp_stream msg)) = pp_payload msg"
      by (simp add: length_pp_stream [OF assms(1)]) (simp add: pp_stream_def)
    with False assms(1) show ?thesis
      by (simp add: chan_finish_def pp_sofar_def pp_msg_wf_def pp_done_msg_def pp_received_def)
  qed
qed

lemma chan_feed_tail:
  assumes "pp_msg_wf msg" "6 \<le> m" "m \<le> 8" "0 < k" "(n - 1) * m < 6 + unat (ppm_length msg)"
    and "6 + unat (ppm_length msg) \<le> n * m" "k + j = n" "0 < j"
  shows "chan_feed admits (Some (pp_sofar msg m k)) (map (pp_chunk msg m) [k..<n]) =
    replicate (j - 1) (PP_OK, None) @ [(PP_OK, Some (pp_received msg))]"
  using assms(4,7,8)
proof (induction j arbitrary: k)
  case (Suc j)
  have split: "[k..<n] = k # [Suc k..<n]"
    using Suc.prems by (simp add: upt_conv_Cons)
  show ?case
  proof (cases "j = 0")
    case True
    with Suc.prems(2) assms(6) have "\<not> Suc k * m < 6 + unat (ppm_length msg)" "[Suc k..<n] = []"
      by auto
    with True split chunk_step_next [OF assms(1-3) Suc.prems(1)] show ?thesis
      by (simp add: chan_finish_sofar [OF assms(1,2)])
  next
    case False
    then have "Suc k \<le> n - 1"
      using Suc.prems(2) by simp
    then have "Suc k * m \<le> (n - 1) * m"
      by (rule mult_le_mono1)
    then have "Suc k * m < 6 + unat (ppm_length msg)"
      using assms(5) by (rule le_less_trans)
    with False Suc.IH [of "Suc k"] Suc.prems split chunk_step_next [OF assms(1-3) Suc.prems(1)] show ?thesis
      by (cases j) (simp_all add: chan_finish_sofar [OF assms(1,2)])
  qed
qed simp

lemma chan_step_message: "chan_step admits st f = (p, r, Some m) \<Longrightarrow> p = None"
  by (cases st) (auto simp: chan_step_def chan_first_def chan_finish_def Let_def split: if_splits)

lemma chan_feed_message:
  assumes "pp_sendable admits msg" "6 \<le> unat m" "unat m \<le> 8"
  defines "n \<equiv> uni_can_protoplexer_chunks_count (ppm_length msg) m"
  shows "chan_feed admits st (map (pp_chunk msg (unat m)) [0..<n]) =
    replicate (n - 1) (PP_OK, None) @ [(PP_OK, Some (pp_received msg))]"
proof -
  have wf: "pp_msg_wf msg"
    using assms(1) by (simp add: pp_sendable_def)
  have n: "n = (6 + unat (ppm_length msg) + (unat m - 1)) div unat m" "0 < n"
    using chunks_count_eq [OF assms(2,3)] chunks_count_pos [OF assms(2,3)] by (simp_all add: n_def)
  have low: "(n - 1) * unat m < 6 + unat (ppm_length msg)"
    using n assms(2) by (intro below_ceil_div) auto
  have high: "6 + unat (ppm_length msg) \<le> n * unat m"
    using n(1) assms(2) ceil_div_covers [of "unat m" "6 + unat (ppm_length msg)"] by simp
  have split: "[0..<n] = 0 # [1..<n]"
    using n(2) by (simp add: upt_conv_Cons)
  show ?thesis
  proof (cases "n = 1")
    case True
    with high split chunk_step_first [OF assms(1-3)] show ?thesis
      by (simp add: chan_finish_sofar [OF wf assms(2)])
  next
    case False
    then obtain j where j: "n = Suc (Suc j)"
      using n(2) by (metis One_nat_def Suc_pred neq0_conv old.nat.exhaust)
    then have "1 * unat m < 6 + unat (ppm_length msg)"
      using low by (simp add: less_le_trans)
    with j split chunk_step_first [OF assms(1-3)]
      chan_feed_tail [OF wf assms(2,3) _ low high, of 1 "Suc j" admits] show ?thesis
      by (simp add: chan_finish_sofar [OF wf assms(2)] del: upt_Suc)
  qed
qed


section \<open>Properties\<close>

definition pp_example_cfg :: uni_can_protoplexer_config where
  "pp_example_cfg = \<lparr>ppf_own_address = 0x20, ppf_max_chunk_length = 8, ppf_max_channels = 2,
     ppf_monitoring = False, ppf_max_payload = 0, ppf_rx_buffers = None, ppf_rx_payload = None\<rparr>"

definition pp_example_ctx :: uni_can_protoplexer_ctx where
  "pp_example_ctx = \<lparr>ppc_own_address = 0x20, ppc_max_chunk_length = 8, ppc_monitoring = False,
     ppc_max_channels = 2, ppc_rx = Some [pp_rx_buffer_zero, pp_rx_buffer_zero], ppc_max_payload = 0,
     ppc_rx_payload = None, ppc_rx_static = False, ppc_rx_view = None, ppc_live = 0\<rparr>"

lemma pp_example_ctx_wf: "pp_wf pp_example_ctx" "pp_abs pp_example_ctx = Map.empty"
proof -
  have "unat (2 :: u16) = Suc (Suc 0)"
    by simp
  then have two: "replicate (unat (2 :: u16)) pp_rx_buffer_zero = [pp_rx_buffer_zero, pp_rx_buffer_zero]"
    by (simp only: replicate.simps)
  show "pp_wf pp_example_ctx" "pp_abs pp_example_ctx = Map.empty"
    by (rule pp_fresh_wf; simp add: pp_example_ctx_def two [simplified])+
qed

lemma pp_chunk_frame_ok [simp]: "m \<le> 8 \<Longrightarrow> pp_frame_ok (pp_chunk msg m i)"
  by (simp add: pp_frame_ok_def pp_chunk_def UNI_CAN_MESSAGE_MAXLEN_def pp_piece_def unat_of_nat_u16)

text \<open>
  C4. Every call of \<open>uni_can_protoplexer_add_chunk\<close> with a frame of at most eight bytes, on a well
  formed context, is a step of the specification, whether there is memory or not: the messages in
  progress are afterwards those of the specification, and the context is well formed (no two buffers
  for one sender, every payload pointer at memory of the right size, no block of the heap lost). The
  result is the code and the message of the specification, with memory of the heap or of the
  application and also when no payload can be allocated, except for a message that is complete: when
  there is no memory for the object or the data it is handed out in, it is lost and the code is
  \<open>ADDING_CHUNK_CANT_SAVE_MESSAGE\<close>, and when the caller gave no place for it, it is dropped.
\<close>

theorem add_chunk_refines:
  assumes "pp_wf ctx" "pp_frame_ok f" "heap_ok rx_alloc" "heap_ok malloc"
  shows "\<exists>c. uni_can_protoplexer_add_chunk rx_alloc calloc_ok malloc (Some ctx) (Some f) out_given =
      (Some c, pp_handed calloc_ok malloc out_given (snd (pp_spec_of rx_alloc ctx f))) \<and>
    pp_wf c \<and> pp_abs c = fst (pp_spec_of rx_alloc ctx f) \<and> pp_same_config ctx c"
proof -
  obtain st r m where spec: "pp_spec_of rx_alloc ctx f = (st, r, m)"
    by (metis prod_cases3)
  obtain r' m' where "pp_handed calloc_ok malloc out_given (r, m) = (r', m')"
    by (metis surj_pair)
  with add_chunk_handed [OF assms spec this] spec show ?thesis
    by simp
qed

theorem add_chunk_refines_witness:
  "\<exists>c. uni_can_protoplexer_add_chunk heap_none True heap_zeros (Some pp_example_ctx)
        (Some (pp_chunk pp_example 8 0)) True =
      (Some c, PP_ADDING_CHUNK_CANT_ALLOCATE_DATA, None) \<and> pp_wf c"
proof -
  have "\<not> pp_admits heap_none pp_example_ctx (ppm_length pp_example)"
    by (simp add: pp_admits_def pp_example_ctx_def pp_example_def heap_none_def)
  then have "chan_step (pp_admits heap_none pp_example_ctx) None (pp_chunk pp_example 8 0) =
      (None, PP_ADDING_CHUNK_CANT_ALLOCATE_DATA, None)"
    using pp_header_nth(2) [OF pp_example_wf]
    by (simp add: chan_step_def chan_first_def can_bytes_pp_chunk pp_piece_def Let_def
        length_pp_stream [OF pp_example_wf])
      (simp add: pp_example_def uni_can_protoplexer_address_valid_def pp_const_defs)
  then have "pp_spec_of heap_none pp_example_ctx (pp_chunk pp_example 8 0) =
      (Map.empty, PP_ADDING_CHUNK_CANT_ALLOCATE_DATA, None)"
    by (simp add: pp_spec_of_def pp_spec_add_def pp_example_ctx_wf Let_def pp_addressed_def)
      (simp add: pp_example_ctx_def pp_example_def fun_eq_iff)
  with add_chunk_refines [OF pp_example_ctx_wf(1) _ heap_ok_none heap_totalD [OF heap_total_zeros],
      of "pp_chunk pp_example 8 0" True True]
  show ?thesis
    by (auto simp: pp_handed_def)
qed

text \<open>
  \<open>uni_can_protoplexer_add_chunk_view\<close> keeps the same specification without asking the heap
  for the message: same result, same message with its data in place, same messages in progress,
  and the context stays well formed although the buffer of the view is released only by the next
  call.
\<close>

theorem add_chunk_view_refines:
  assumes "pp_wf ctx" "pp_frame_ok f" "heap_ok rx_alloc"
  shows "\<exists>c. uni_can_protoplexer_add_chunk_view rx_alloc (Some ctx) (Some f) True =
      (Some c, fst (snd (pp_spec_of rx_alloc ctx f)), snd (snd (pp_spec_of rx_alloc ctx f))) \<and>
    pp_wf c \<and> pp_abs c = fst (pp_spec_of rx_alloc ctx f) \<and> pp_same_config ctx c"
  by (rule add_chunk_view_spec [OF assms]) simp

theorem add_chunk_view_refines_witness:
  "\<exists>c r m. uni_can_protoplexer_add_chunk_view heap_zeros (Some pp_example_ctx)
        (Some (pp_chunk pp_example 8 1)) True = (Some c, r, m) \<and> pp_wf c"
  using add_chunk_view_refines [OF pp_example_ctx_wf(1) _ heap_totalD [OF heap_total_zeros],
      of "pp_chunk pp_example 8 1"]
  by auto

text \<open>
  A chunk never touches the message another sender has in progress: after the call, the
  message in progress for every other pair of sender and receiver (its header fields and every
  byte received so far) is what it was before.
\<close>

theorem add_chunk_isolates_senders:
  assumes "pp_wf ctx" "pp_frame_ok f" "heap_ok rx_alloc" "heap_total malloc"
    and "s \<noteq> pp_signature (cm_id f)"
    and "uni_can_protoplexer_add_chunk rx_alloc True malloc (Some ctx) (Some f) True = (Some c, r, m)"
  shows "pp_abs c s = pp_abs ctx s"
proof -
  obtain st r' m' where spec: "pp_spec_of rx_alloc ctx f = (st, r', m')"
    by (metis prod_cases3)
  then have c: "pp_abs c = st"
    using add_chunk_spec [OF assms(1-4) spec] assms(6) by auto
  have "st s = pp_abs ctx s"
    using spec assms(5) by (auto simp: pp_spec_of_def pp_spec_add_def Let_def split: if_splits prod.splits)
  with c show ?thesis
    by simp
qed

theorem add_chunk_isolates_senders_witness:
  "\<exists>c r m. uni_can_protoplexer_add_chunk heap_zeros True heap_zeros (Some pp_example_ctx)
      (Some (pp_chunk pp_example 8 0)) True = (Some c, r, m) \<and> pp_abs c 0 = None"
proof -
  let ?f = "pp_chunk pp_example 8 0"
  obtain st r' m' where "pp_spec_of heap_zeros pp_example_ctx ?f = (st, r', m')"
    by (metis prod_cases3)
  from add_chunk_spec [OF pp_example_ctx_wf(1) _ heap_totalD [OF heap_total_zeros] heap_total_zeros this]
  obtain c r m where run: "uni_can_protoplexer_add_chunk heap_zeros True heap_zeros (Some pp_example_ctx)
      (Some ?f) True = (Some c, r, m)"
    by auto
  moreover have "0 \<noteq> pp_signature (cm_id ?f)"
    by (simp add: pp_example_def pp_signature_def)
  ultimately show ?thesis
    using add_chunk_isolates_senders [OF pp_example_ctx_wf(1) _ heap_totalD [OF heap_total_zeros] heap_total_zeros,
      of ?f 0] pp_example_ctx_wf(2)
    by auto
qed

text \<open>
  When a message is complete but there is no memory for the object that hands it out, the call
  returns \<open>ADDING_CHUNK_CANT_SAVE_MESSAGE\<close> and no message, the buffer of the message is free
  again, and the context is well formed.
\<close>

theorem add_chunk_without_memory_for_message:
  assumes "pp_wf ctx" "pp_frame_ok f" "heap_ok rx_alloc"
    and "pp_spec_of rx_alloc ctx f = (st, r, Some m)"
  shows "\<exists>c. uni_can_protoplexer_add_chunk rx_alloc False malloc (Some ctx) (Some f) True =
      (Some c, PP_ADDING_CHUNK_CANT_SAVE_MESSAGE, None) \<and>
    pp_wf c \<and> pp_abs c = st \<and> pp_abs c (pp_signature (cm_id f)) = None"
proof -
  obtain c r' "done" where run: "pp_rx_add_valid rx_alloc ctx f = (c, r', done)"
    by (metis prod_cases3)
  note ref = rx_add_refines [OF assms(1-3) run assms(4)] and call = rx_add_chunk_valid [OF assms(1,2) run]
  then obtain i where i: "done = Some i" "pp_mid c i (pp_signature (cm_id f))"
    "st = (pp_abs c)(pp_signature (cm_id f) := None)"
    by (auto simp: pp_done_ok_def split: option.splits)
  with call pp_mid_release [OF i(2)] show ?thesis
    by (simp add: uni_can_protoplexer_add_chunk_def uni_can_protoplexer_msg_create_def Let_def)
qed

definition pp_empty_msg :: uni_can_protoplexer_msg where
  "pp_empty_msg = \<lparr>ppm_message_id = 5, ppm_address_from = 0x10, ppm_address_to = 0x20,
     ppm_priority_inverted = 7, ppm_length = 0, ppm_data = None\<rparr>"

lemma pp_example_sendable: "pp_sendable (\<lambda>_. True) pp_example" "pp_sendable (\<lambda>_. True) pp_empty_msg"
  by (simp_all add: pp_sendable_def pp_example_def pp_empty_msg_def uni_can_protoplexer_address_valid_def
      pp_const_defs pp_msg_wf_def pp_payload_def)

lemma pp_example_admits: "pp_admits heap_zeros pp_example_ctx = (\<lambda>_. True)"
  by (simp add: fun_eq_iff pp_admits_def pp_example_ctx_def heap_zeros_def)

theorem add_chunk_without_memory_for_message_witness:
  "\<exists>c. uni_can_protoplexer_add_chunk heap_zeros False heap_none (Some pp_example_ctx)
      (Some (pp_chunk pp_empty_msg 8 0)) True = (Some c, PP_ADDING_CHUNK_CANT_SAVE_MESSAGE, None)"
proof -
  have "chan_step (\<lambda>_. True) None (pp_chunk pp_empty_msg 8 0) = (None, PP_OK, Some (pp_received pp_empty_msg))"
    using chunk_step_first [OF pp_example_sendable(2), of 8 None] chan_finish_sofar [of pp_empty_msg 8 1]
    by (simp add: pp_empty_msg_def pp_msg_wf_def pp_payload_def)
  then have "pp_spec_of heap_zeros pp_example_ctx (pp_chunk pp_empty_msg 8 0) =
      (Map.empty, PP_OK, Some (pp_received pp_empty_msg))"
    by (simp add: pp_spec_of_def pp_spec_add_def pp_example_ctx_wf Let_def pp_addressed_def pp_example_admits)
      (simp add: pp_example_ctx_def pp_empty_msg_def fun_eq_iff)
  from add_chunk_without_memory_for_message [OF pp_example_ctx_wf(1) _ heap_totalD [OF heap_total_zeros] this]
  show ?thesis
    by auto
qed

lemma init_fresh:
  assumes "uni_can_protoplexer_init calloc_ok (Some old) (Some cfg) = (Some ctx, True)"
    and "\<And>m. ppf_rx_payload cfg = Some m \<Longrightarrow> length m = unat (ppf_max_channels cfg) * unat (ppf_max_payload cfg)"
  shows "pp_wf ctx \<and> pp_abs ctx = Map.empty \<and> 6 \<le> unat (ppc_max_chunk_length ctx) \<and>
    unat (ppc_max_chunk_length ctx) \<le> 8 \<and> ppc_own_address ctx \<le> 0x0FFF \<and> 0 < ppc_max_channels ctx"
proof -
  have own: "w AND 0x0FFF \<le> (0x0FFF :: u16)" for w
    by (rule word_and_le1)
  let ?base = "pp_ctx_zero\<lparr>ppc_own_address := ppf_own_address cfg AND 0x0FFF,
    ppc_max_chunk_length := ppf_max_chunk_length cfg, ppc_monitoring := ppf_monitoring cfg,
    ppc_max_channels := ppf_max_channels cfg, ppc_max_payload := ppf_max_payload cfg\<rparr>"
  have common: "uni_can_protoplexer_init_common (Some old) (Some cfg) =
      (if unat (ppf_max_chunk_length cfg) < 6 \<or> 8 < unat (ppf_max_chunk_length cfg)
       then (Some pp_ctx_zero, False) else (Some ?base, True))"
    by (simp add: uni_can_protoplexer_init_common_def Let_def pp_const_defs)
  have len: "6 \<le> unat (ppf_max_chunk_length cfg)" "unat (ppf_max_chunk_length cfg) \<le> 8"
    using assms(1) by (auto simp: uni_can_protoplexer_init_def uni_can_protoplexer_init_static_def common split: if_splits)
  let ?rx = "\<lambda>c. c\<lparr>ppc_rx := Some (replicate (unat (ppc_max_channels c)) pp_rx_buffer_zero)\<rparr>"
  consider (static) "ctx = (?rx ?base)\<lparr>ppc_rx_payload := ppf_rx_payload cfg, ppc_rx_static := True\<rparr>"
      "ppf_max_channels cfg \<noteq> 0" "ppf_max_payload cfg = 0 \<or> ppf_rx_payload cfg \<noteq> None"
    | (heap) "ctx = ?rx (if ppf_max_channels cfg = 0 then ?base\<lparr>ppc_max_channels := 16\<rparr> else ?base)"
    using assms(1) len
    by (auto simp: uni_can_protoplexer_init_def uni_can_protoplexer_init_static_def common Let_def not_less
        split: if_splits)
  then show ?thesis
  proof cases
    case static
    then have "pp_wf ctx" "pp_abs ctx = Map.empty"
      using assms(2) by (auto intro!: pp_fresh_wf simp: pp_ctx_zero_def split: option.split)
    with static len own show ?thesis
      by (simp add: word_gt_0)
  next
    case heap
    then have "pp_wf ctx" "pp_abs ctx = Map.empty"
      by (auto intro!: pp_fresh_wf simp: pp_ctx_zero_def)
    with heap len own show ?thesis
      by (simp add: word_gt_0)
  qed
qed

text \<open>
  A context that \<open>uni_can_protoplexer_init\<close> sets up is well formed and has no message in
  progress; its chunk length lies between the header size and eight bytes, its address has twelve
  bits and it has at least one buffer. This holds for the heap and for memory of the application
  (of the size the configuration asks for).
\<close>

theorem init_gives_empty_context:
  assumes "uni_can_protoplexer_init calloc_ok (Some old) (Some cfg) = (Some ctx, True)"
    and "\<And>m. ppf_rx_payload cfg = Some m \<Longrightarrow> length m = unat (ppf_max_channels cfg) * unat (ppf_max_payload cfg)"
  shows "pp_wf ctx \<and> pp_abs ctx = Map.empty \<and> 6 \<le> unat (ppc_max_chunk_length ctx) \<and>
    unat (ppc_max_chunk_length ctx) \<le> 8 \<and> ppc_own_address ctx \<le> 0x0FFF \<and> 0 < ppc_max_channels ctx"
  using assms by (rule init_fresh)

theorem init_gives_empty_context_witness:
  "uni_can_protoplexer_init True (Some pp_ctx_zero) (Some pp_example_cfg) = (Some pp_example_ctx, True) \<and>
    pp_wf pp_example_ctx"
proof -
  have "replicate 2 pp_rx_buffer_zero = [pp_rx_buffer_zero, pp_rx_buffer_zero]"
    by (simp only: numeral_2_eq_2 replicate.simps)
  then have run: "uni_can_protoplexer_init True (Some pp_ctx_zero) (Some pp_example_cfg) = (Some pp_example_ctx, True)"
    by (simp add: uni_can_protoplexer_init_def uni_can_protoplexer_init_common_def pp_example_cfg_def
        pp_example_ctx_def pp_ctx_zero_def pp_const_defs Let_def)
  with init_gives_empty_context [OF run] show ?thesis
    by (simp add: pp_example_cfg_def)
qed

text \<open>
  \<open>uni_can_protoplexer_deinit\<close> gives back every block the context has taken from the heap for
  payloads, whatever messages are in progress and even while one is out as a view, and leaves a
  zeroed context.
\<close>

theorem deinit_leaves_nothing:
  assumes "pp_wf ctx"
  shows "uni_can_protoplexer_deinit (Some ctx) = (Some pp_ctx_zero, 0)"
  using assms by (rule deinit_frees_all)

theorem deinit_leaves_nothing_witness:
  "uni_can_protoplexer_deinit (Some pp_example_ctx) = (Some pp_ctx_zero, 0)"
  by (rule deinit_leaves_nothing [OF pp_example_ctx_wf(1)])

lemma delivery:
  assumes "pp_wf ctx" "heap_total rx_alloc" "heap_total malloc"
    and "\<And>f. f \<in> set frames \<Longrightarrow> pp_frame_ok f \<and> pp_addressed (ppc_own_address ctx) (ppc_monitoring ctx) f"
    and "card (dom (pp_abs ctx) \<union> (\<lambda>f. pp_signature (cm_id f)) ` set frames) \<le> unat (ppc_max_channels ctx)"
    and "pp_sendable (pp_admits rx_alloc ctx) msg" "6 \<le> unat m" "unat m \<le> 8"
    and "uni_can_protoplexer_build_chunks True (Some msg) m True = (PP_OK, Some chunks, n)"
    and "pp_of_sig (pp_signature (uni_can_protoplexer_canid_create (ppm_address_from msg) (ppm_address_to msg) 0 False))
           frames = chunks"
  shows "answers_to (pp_signature (uni_can_protoplexer_canid_create (ppm_address_from msg) (ppm_address_to msg) 0 False))
      frames (pp_feed rx_alloc malloc (Some ctx) frames) =
    replicate (n - 1) (PP_OK, None) @ [(PP_OK, Some (pp_received msg))]"
proof -
  let ?S = "dom (pp_abs ctx) \<union> (\<lambda>f. pp_signature (cm_id f)) ` set frames"
  have wf: "pp_msg_wf msg"
    using assms(6) by (simp add: pp_sendable_def)
  have "finite (dom (pp_abs ctx))"
  proof -
    have "dom (pp_abs ctx) \<subseteq> (\<lambda>i. rxb_channel_signature (pp_buf ctx i)) ` {..<length (pp_bufs ctx)}"
      using rx_find_iff [OF pp_wfD(1,3) [OF assms(1)]]
      by (auto simp: pp_abs_def image_iff split: option.splits if_splits)
    then show ?thesis
      by (rule finite_subset) simp
  qed
  then have "finite ?S"
    by simp
  then have "answers_to sig frames (pp_feed rx_alloc malloc (Some ctx) frames) =
      chan_feed (pp_admits rx_alloc ctx) (pp_abs ctx sig) (pp_of_sig sig frames)" for sig
    using assms(4,5) by (intro feed_projects [OF assms(2,3,1), where S = ?S]) auto
  moreover have "chunks = map (pp_chunk msg (unat m)) [0..<uni_can_protoplexer_chunks_count (ppm_length msg) m]"
    "n = uni_can_protoplexer_chunks_count (ppm_length msg) m"
    using assms(9) by (auto simp: build_chunks_eq [OF wf assms(7,8)])
  ultimately show ?thesis
    using chan_feed_message [OF assms(6-8)] assms(10) by simp
qed

text \<open>
  C1. A message arrives. Cut a sendable message into chunks and give them to a receiver in their
  order, with any chunks of other senders in between, and in any state the receiver was in (an
  older, unfinished message of the same sender included). As long as there are buffers for all
  senders and memory, every chunk of the message but the last is answered with OK and no message,
  and the last with OK and the message: same identifier, addresses, priority and data.
\<close>

theorem interleaved_delivery:
  assumes "pp_wf ctx" "heap_total rx_alloc" "heap_total malloc"
    and "\<And>f. f \<in> set frames \<Longrightarrow> pp_frame_ok f \<and> pp_addressed (ppc_own_address ctx) (ppc_monitoring ctx) f"
    and "card (dom (pp_abs ctx) \<union> (\<lambda>f. pp_signature (cm_id f)) ` set frames) \<le> unat (ppc_max_channels ctx)"
    and "pp_sendable (pp_admits rx_alloc ctx) msg" "6 \<le> unat m" "unat m \<le> 8"
    and "uni_can_protoplexer_build_chunks True (Some msg) m True = (PP_OK, Some chunks, n)"
    and "pp_of_sig (pp_signature (uni_can_protoplexer_canid_create (ppm_address_from msg) (ppm_address_to msg) 0 False))
           frames = chunks"
  shows "answers_to (pp_signature (uni_can_protoplexer_canid_create (ppm_address_from msg) (ppm_address_to msg) 0 False))
      frames (pp_feed rx_alloc malloc (Some ctx) frames) =
    replicate (n - 1) (PP_OK, None) @ [(PP_OK, Some (pp_received msg))]"
  using assms by (rule delivery)

definition pp_example2 :: uni_can_protoplexer_msg where
  "pp_example2 = \<lparr>ppm_message_id = 0x4321, ppm_address_from = 0x11, ppm_address_to = 0x20,
     ppm_priority_inverted = 3, ppm_length = 4, ppm_data = Some [9, 8, 7, 6]\<rparr>"

theorem interleaved_delivery_witness:
  "\<exists>a b. map fst (pp_feed heap_zeros heap_zeros (Some pp_example_ctx)
        [pp_chunk pp_example 8 0, pp_chunk pp_example2 8 0, pp_chunk pp_example 8 1, pp_chunk pp_example2 8 1]) =
      [PP_OK, a, PP_OK, b] \<and>
    snd (pp_feed heap_zeros heap_zeros (Some pp_example_ctx)
        [pp_chunk pp_example 8 0, pp_chunk pp_example2 8 0, pp_chunk pp_example 8 1, pp_chunk pp_example2 8 1] ! 2) =
      Some (pp_received pp_example)"
proof -
  let ?frames = "[pp_chunk pp_example 8 0, pp_chunk pp_example2 8 0, pp_chunk pp_example 8 1, pp_chunk pp_example2 8 1]"
  let ?sig = "pp_signature (uni_can_protoplexer_canid_create (ppm_address_from pp_example) (ppm_address_to pp_example) 0 False)"
  have count: "uni_can_protoplexer_chunks_count (ppm_length pp_example) 8 = 2"
    by (simp add: uni_can_protoplexer_chunks_count_def pp_const_defs pp_example_def Let_def)
  have chunks: "uni_can_protoplexer_build_chunks True (Some pp_example) 8 True =
      (PP_OK, Some [pp_chunk pp_example 8 0, pp_chunk pp_example 8 1], 2)"
    using build_chunks_eq [of pp_example 8] by (simp add: count upt_rec)
  have sigs: "pp_signature (cm_id (pp_chunk pp_example 8 i)) = ?sig"
    "pp_signature (cm_id (pp_chunk pp_example2 8 i)) \<noteq> ?sig"
    "pp_signature (cm_id (pp_chunk pp_example2 8 1)) = pp_signature (cm_id (pp_chunk pp_example2 8 0))" for i
    by (simp_all add: pp_signature_def pp_example_def pp_example2_def)
  have set: "(\<lambda>f. pp_signature (cm_id f)) ` set ?frames = {?sig, pp_signature (cm_id (pp_chunk pp_example2 8 0))}"
    using sigs by (simp del: pp_chunk_id add: insert_commute)
  have ctx: "ppc_own_address pp_example_ctx = 0x20" "unat (ppc_max_channels pp_example_ctx) = 2"
    by (simp_all add: pp_example_ctx_def)
  have "answers_to ?sig ?frames (pp_feed heap_zeros heap_zeros (Some pp_example_ctx) ?frames) =
      replicate (2 - 1) (PP_OK, None) @ [(PP_OK, Some (pp_received pp_example))]"
  proof (rule interleaved_delivery [OF pp_example_ctx_wf(1) heap_total_zeros heap_total_zeros _ _ _ _ _ chunks])
    show "pp_sendable (pp_admits heap_zeros pp_example_ctx) pp_example"
      using pp_example_sendable(1) by (simp add: pp_example_admits)
    show "card (dom (pp_abs pp_example_ctx) \<union> (\<lambda>f. pp_signature (cm_id f)) ` set ?frames) \<le>
        unat (ppc_max_channels pp_example_ctx)"
      unfolding set pp_example_ctx_wf(2) ctx by (simp add: card_insert_if)
    show "pp_of_sig ?sig ?frames = [pp_chunk pp_example 8 0, pp_chunk pp_example 8 1]"
      using sigs by (simp add: pp_of_sig_def del: pp_chunk_id)
    show "pp_frame_ok f \<and> pp_addressed (ppc_own_address pp_example_ctx) (ppc_monitoring pp_example_ctx) f"
      if "f \<in> set ?frames" for f
      using that by (auto simp: pp_addressed_def ctx) (simp_all add: pp_example_def pp_example2_def)
  qed (simp_all)
  then show ?thesis
    using sigs by (simp add: split_beta del: pp_chunk_id split: if_splits)
qed

end
