(* ===== verification/Fifo.thy ===== *)
theory Fifo
  imports Main
begin

text \<open>
  The contract of the first-in first-out stores of the program, as interfaces over an abstraction
  to lists: the queue that hands received messages from a backend thread to the application
  (\<open>src/common_queue.h\<close>), and the outbox and inbox rings of the ProtoPlexer queue. The
  interfaces are interpreted where the operations are modelled; what follows from the contract
  (the order of delivery, nothing lost, nothing invented) is proved once, here.
\<close>

locale fifo_source =
  fixes contents :: "'q \<Rightarrow> 'a list"
    and invar :: "'q \<Rightarrow> bool"
    and pop :: "'q \<Rightarrow> ('a \<times> 'q) option"
  assumes pop_empty: "invar q \<Longrightarrow> contents q = [] \<Longrightarrow> pop q = None"
    and pop_head: "invar q \<Longrightarrow> contents q = x # xs \<Longrightarrow>
      \<exists>q'. pop q = Some (x, q') \<and> contents q' = xs \<and> invar q'"
begin

lemma pop_None_iff: "invar q \<Longrightarrow> pop q = None \<longleftrightarrow> contents q = []"
  by (cases "contents q") (auto dest: pop_empty pop_head)

lemma pop_SomeD:
  assumes "invar q" "pop q = Some (x, q')"
  shows "contents q = x # contents q' \<and> invar q'"
proof (cases "contents q")
  case Nil
  with pop_empty [OF assms(1)] assms(2) show ?thesis by simp
next
  case (Cons y ys)
  from pop_head [OF assms(1) Cons] assms(2) Cons show ?thesis by auto
qed

text \<open>Taking \<open>n\<close> elements one after another.\<close>

fun pops :: "nat \<Rightarrow> 'q \<Rightarrow> ('a list \<times> 'q) option" where
  "pops 0 q = Some ([], q)"
| "pops (Suc n) q =
     (case pop q of
        None \<Rightarrow> None
      | Some (x, q') \<Rightarrow> (case pops n q' of None \<Rightarrow> None | Some (xs, q'') \<Rightarrow> Some (x # xs, q'')))"

lemma pops_prefix:
  "invar q \<Longrightarrow> n \<le> length (contents q) \<Longrightarrow>
    \<exists>q'. pops n q = Some (take n (contents q), q') \<and> contents q' = drop n (contents q) \<and> invar q'"
proof (induction n arbitrary: q)
  case 0
  then show ?case by simp
next
  case (Suc n)
  then obtain x xs where xs: "contents q = x # xs" by (cases "contents q") auto
  from pop_head [OF Suc.prems(1) xs] obtain q1 where
    q1: "pop q = Some (x, q1)" "contents q1 = xs" "invar q1" by blast
  from Suc.IH [OF q1(3)] Suc.prems(2) xs q1 show ?case by fastforce
qed

lemma pops_all:
  assumes "invar q"
  shows "\<exists>q'. pops (length (contents q)) q = Some (contents q, q') \<and> contents q' = [] \<and> invar q'"
  using pops_prefix [OF assms order.refl] by simp

end

text \<open>A store that always has room.\<close>

locale unbounded_fifo = fifo_source contents invar pop
  for contents :: "'q \<Rightarrow> 'a list" and invar :: "'q \<Rightarrow> bool" and pop :: "'q \<Rightarrow> ('a \<times> 'q) option" +
  fixes push :: "'a \<Rightarrow> 'q \<Rightarrow> 'q"
  assumes push_contents: "invar q \<Longrightarrow> contents (push x q) = contents q @ [x] \<and> invar (push x q)"
begin

lemma fold_push: "invar q \<Longrightarrow> contents (fold push xs q) = contents q @ xs \<and> invar (fold push xs q)"
  by (induction xs arbitrary: q) (auto simp: push_contents)

text \<open>What was pushed into an empty store comes out in the same order.\<close>

lemma push_then_pop_in_order:
  assumes "invar q" "contents q = []"
  shows "\<exists>q'. pops (length xs) (fold push xs q) = Some (xs, q') \<and> contents q' = []"
  using pops_all [of "fold push xs q"] fold_push [OF assms(1), of xs] assms(2) by auto

end

text \<open>
  A store with a capacity, which refuses an element when it is full. \<open>fits\<close> says which elements the
  store is made for.
\<close>

locale bounded_fifo = fifo_source contents invar pop
  for contents :: "'q \<Rightarrow> 'a list" and invar :: "'q \<Rightarrow> bool" and pop :: "'q \<Rightarrow> ('a \<times> 'q) option" +
  fixes capacity :: "'q \<Rightarrow> nat"
    and fits :: "'q \<Rightarrow> 'a \<Rightarrow> bool"
    and push :: "'a \<Rightarrow> 'q \<Rightarrow> 'q option"
  assumes within_capacity: "invar q \<Longrightarrow> length (contents q) \<le> capacity q"
    and push_room: "invar q \<Longrightarrow> fits q x \<Longrightarrow> length (contents q) < capacity q \<Longrightarrow>
      \<exists>q'. push x q = Some q' \<and> contents q' = contents q @ [x] \<and> invar q' \<and> capacity q' = capacity q \<and>
        fits q' = fits q"
    and push_full: "invar q \<Longrightarrow> length (contents q) = capacity q \<Longrightarrow> push x q = None"
begin

lemma push_SomeD:
  assumes "invar q" "fits q x" "push x q = Some q'"
  shows "contents q' = contents q @ [x] \<and> invar q' \<and> capacity q' = capacity q \<and> fits q' = fits q"
proof (cases "length (contents q) < capacity q")
  case True
  from push_room [OF assms(1,2) True] assms(3) show ?thesis by auto
next
  case False
  with within_capacity [OF assms(1)] push_full [OF assms(1)] assms(3) show ?thesis by auto
qed

lemma push_None_iff: "invar q \<Longrightarrow> fits q x \<Longrightarrow> push x q = None \<longleftrightarrow> length (contents q) = capacity q"
  using within_capacity [of q] push_room [of q x] push_full [of q x]
  by (cases "length (contents q) < capacity q") auto

fun pushes :: "'a list \<Rightarrow> 'q \<Rightarrow> 'q option" where
  "pushes [] q = Some q"
| "pushes (x # xs) q = (case push x q of None \<Rightarrow> None | Some q' \<Rightarrow> pushes xs q')"

lemma pushes_room:
  "invar q \<Longrightarrow> list_all (fits q) xs \<Longrightarrow> length (contents q) + length xs \<le> capacity q \<Longrightarrow>
    \<exists>q'. pushes xs q = Some q' \<and> contents q' = contents q @ xs \<and> invar q' \<and> capacity q' = capacity q"
proof (induction xs arbitrary: q)
  case Nil
  then show ?case by simp
next
  case (Cons x xs)
  then have x: "fits q x" "length (contents q) < capacity q" by simp_all
  from push_room [OF Cons.prems(1) x] obtain q1 where
    q1: "push x q = Some q1" "contents q1 = contents q @ [x]" "invar q1" "capacity q1 = capacity q" "fits q1 = fits q"
    by blast
  with Cons.IH [OF q1(3)] Cons.prems(2,3) show ?case by fastforce
qed

lemma pushes_then_pops:
  assumes "invar q" "list_all (fits q) xs" "contents q = []" "length xs \<le> capacity q"
  shows "\<exists>q1 q2. pushes xs q = Some q1 \<and> pops (length xs) q1 = Some (xs, q2) \<and> contents q2 = []"
proof -
  obtain q1 where "pushes xs q = Some q1" "contents q1 = xs" "invar q1"
    using pushes_room [of q xs] assms by auto
  with pops_all [of q1] show ?thesis by auto
qed

end


section \<open>Rings\<close>

text \<open>The elements of a ring: \<open>count\<close> places of an array from \<open>head\<close> on, around its end.\<close>

definition ring_list :: "'a list \<Rightarrow> nat \<Rightarrow> nat \<Rightarrow> 'a list" where
  "ring_list xs head count = map (\<lambda>k. xs ! ((head + k) mod length xs)) [0..<count]"

lemma length_ring_list [simp]: "length (ring_list xs head count) = count"
  by (simp add: ring_list_def)

lemma ring_list_Nil [simp]: "ring_list xs head 0 = []"
  by (simp add: ring_list_def)

lemma ring_pop:
  assumes "0 < count" "head < length xs"
  shows "ring_list xs head count = xs ! head # ring_list xs ((head + 1) mod length xs) (count - 1)"
proof -
  have "[0..<count] = 0 # map Suc [0..<count - 1]"
    using assms(1) by (simp add: map_Suc_upt upt_conv_Cons)
  then show ?thesis
    using assms(2) by (simp add: ring_list_def mod_add_left_eq comp_def)
qed

lemma ring_places_differ:
  assumes "j < k" "k < (n :: nat)"
  shows "(head + j) mod n \<noteq> (head + k) mod n"
proof
  assume "(head + j) mod n = (head + k) mod n"
  then have "n dvd (head + k) - (head + j)"
    using assms(1) by (metis add_le_cancel_left less_imp_le_nat mod_eq_dvd_iff_nat)
  then have "n dvd k - j"
    by simp
  moreover have "0 < k - j" "k - j < n"
    using assms by simp_all
  ultimately show False
    by (meson nat_dvd_not_less)
qed

lemma ring_push:
  assumes "count < length xs"
  shows "ring_list (xs[(head + count) mod length xs := x]) head (Suc count) = ring_list xs head count @ [x]"
proof -
  have "(head + count) mod length xs < length xs"
    by (rule mod_less_divisor [OF le_less_trans [OF le0 assms]])
  moreover have "(head + count) mod length xs \<noteq> (head + k) mod length xs" if "k < count" for k
    using ring_places_differ [OF that assms, of head] by (rule not_sym)
  ultimately show ?thesis
    by (simp add: ring_list_def nth_list_update)
qed

end
