(* ===== verification/PpQueue.thy ===== *)
theory PpQueue
  imports PpDelivery Fifo
begin

text \<open>
  ProtoPlexer with queues (\<open>include/uni_can_protoplexer_queue.h\<close>,
  \<open>src/uni_can_protoplexer_queue.c\<close>): an outbox of chunks that wait for the network and an inbox of
  received messages, both rings in memory of the application, around a protocol context.

  The storage the configuration points to is a record with the memory in it. A slot of the inbox
  keeps the header of its message and the offset of its data in \<open>inbox_payload\<close>. The callbacks of
  the configuration act on a state \<open>'w\<close> of the application and the network; \<open>rx_event\<close> may also call
  functions of the queue, so it gets the queue and returns it.
\<close>

section \<open>State\<close>

datatype uni_can_protoplexer_hw_result =
    HW_OK
  | HW_ERROR_RESEND_REQUIRED
  | HW_ERROR_NON_RECOVERABLE
  | HW_OTHER nat

record pp_inbox_slot =
  pis_msg :: uni_can_protoplexer_msg
  pis_data :: "nat option"

record uni_can_protoplexer_queue_storage =
  pqs_rx_buffers :: "uni_can_protoplexer_rx_buffer list option"
  pqs_rx_payload :: "u8 list option"
  pqs_max_channels :: u16
  pqs_max_payload :: u16
  pqs_inbox :: "pp_inbox_slot list option"
  pqs_inbox_payload :: "u8 list option"
  pqs_inbox_size :: nat
  pqs_outbox :: "uni_can_message list option"
  pqs_outbox_size :: nat

record uni_can_protoplexer_queue_config =
  pqc_own_address :: u16
  pqc_max_chunk_length :: u16
  pqc_monitoring :: bool
  pqc_send_attempts :: u32
  pqc_storage :: "uni_can_protoplexer_queue_storage option"

record uni_can_protoplexer_queue =
  ppq_config :: uni_can_protoplexer_queue_config
  ppq_protocol :: uni_can_protoplexer_ctx
  ppq_inbox_head :: nat
  ppq_inbox_count :: nat
  ppq_outbox_head :: nat
  ppq_outbox_count :: nat
  ppq_send_attempts :: u32
  ppq_initialized :: bool

text \<open>The callbacks; \<open>None\<close> is a null pointer.\<close>

record 'w pp_queue_callbacks =
  pqb_send_chunk :: "('w \<Rightarrow> uni_can_message \<Rightarrow> uni_can_protoplexer_hw_result \<times> 'w) option"
  pqb_receive_chunk :: "('w \<Rightarrow> uni_can_message option \<times> 'w) option"
  pqb_rx_event ::
    "('w \<Rightarrow> uni_can_protoplexer_queue \<Rightarrow> uni_can_protoplexer_msg \<Rightarrow> uni_can_protoplexer_queue \<times> 'w) option"

definition pp_queue_config_zero :: uni_can_protoplexer_queue_config where
  "pp_queue_config_zero = \<lparr>pqc_own_address = 0, pqc_max_chunk_length = 0, pqc_monitoring = False,
     pqc_send_attempts = 0, pqc_storage = None\<rparr>"

definition pp_queue_zero :: uni_can_protoplexer_queue where
  "pp_queue_zero = \<lparr>ppq_config = pp_queue_config_zero, ppq_protocol = pp_ctx_zero, ppq_inbox_head = 0,
     ppq_inbox_count = 0, ppq_outbox_head = 0, ppq_outbox_count = 0, ppq_send_attempts = 0,
     ppq_initialized = False\<rparr>"

text \<open>Reading and writing through \<open>queue->config.storage\<close>, which is not null once initialised.\<close>

definition ppq_storage :: "uni_can_protoplexer_queue \<Rightarrow> uni_can_protoplexer_queue_storage" where
  "ppq_storage q =
     (case pqc_storage (ppq_config q) of
        Some s \<Rightarrow> s
      | None \<Rightarrow> \<lparr>pqs_rx_buffers = None, pqs_rx_payload = None, pqs_max_channels = 0, pqs_max_payload = 0,
                 pqs_inbox = None, pqs_inbox_payload = None, pqs_inbox_size = 0, pqs_outbox = None,
                 pqs_outbox_size = 0\<rparr>)"

definition ppq_set_storage ::
  "uni_can_protoplexer_queue \<Rightarrow> uni_can_protoplexer_queue_storage \<Rightarrow> uni_can_protoplexer_queue" where
  "ppq_set_storage q s = q\<lparr>ppq_config := (ppq_config q)\<lparr>pqc_storage := Some s\<rparr>\<rparr>"

definition ppq_outbox :: "uni_can_protoplexer_queue \<Rightarrow> uni_can_message list" where
  "ppq_outbox q = (case pqs_outbox (ppq_storage q) of None \<Rightarrow> [] | Some xs \<Rightarrow> xs)"

definition ppq_inbox :: "uni_can_protoplexer_queue \<Rightarrow> pp_inbox_slot list" where
  "ppq_inbox q = (case pqs_inbox (ppq_storage q) of None \<Rightarrow> [] | Some xs \<Rightarrow> xs)"

definition ppq_inbox_payload :: "uni_can_protoplexer_queue \<Rightarrow> u8 list" where
  "ppq_inbox_payload q = (case pqs_inbox_payload (ppq_storage q) of None \<Rightarrow> [] | Some m \<Rightarrow> m)"

text \<open>The message a slot of the inbox describes, with its data read from the memory.\<close>

definition ppq_slot_msg :: "uni_can_protoplexer_queue \<Rightarrow> pp_inbox_slot \<Rightarrow> uni_can_protoplexer_msg" where
  "ppq_slot_msg q slot =
     (pis_msg slot)\<lparr>ppm_data :=
        map_option (\<lambda>off. take (unat (ppm_length (pis_msg slot))) (drop off (ppq_inbox_payload q))) (pis_data slot)\<rparr>"


section \<open>Operations\<close>

definition uni_can_protoplexer_queue_inbox_push ::
  "uni_can_protoplexer_queue \<Rightarrow> uni_can_protoplexer_msg \<Rightarrow> bool \<times> uni_can_protoplexer_queue" where
  "uni_can_protoplexer_queue_inbox_push queue msg =
     (let storage = ppq_storage queue in
      if ppq_inbox_count queue \<ge> pqs_inbox_size storage then (False, queue)
      else
        let tail = (ppq_inbox_head queue + ppq_inbox_count queue) mod pqs_inbox_size storage;
            off = tail * unat (pqs_max_payload storage);
            slot = \<lparr>pis_msg = msg\<lparr>ppm_data := None\<rparr>, pis_data = None\<rparr>;
            storage = (if ppm_length msg > 0
                       then storage\<lparr>
                         pqs_inbox := Some ((ppq_inbox queue)[tail := slot\<lparr>pis_data := Some off\<rparr>]),
                         pqs_inbox_payload := Some (blit (ppq_inbox_payload queue) off
                           (take (unat (ppm_length msg)) (case ppm_data msg of None \<Rightarrow> [] | Some bs \<Rightarrow> bs)))\<rparr>
                       else storage\<lparr>pqs_inbox := Some ((ppq_inbox queue)[tail := slot])\<rparr>)
        in (True, (ppq_set_storage queue storage)\<lparr>ppq_inbox_count := ppq_inbox_count queue + 1\<rparr>))"

definition uni_can_protoplexer_queue_outbox_pop :: "uni_can_protoplexer_queue \<Rightarrow> uni_can_protoplexer_queue" where
  "uni_can_protoplexer_queue_outbox_pop queue =
     queue\<lparr>ppq_outbox_head := (ppq_outbox_head queue + 1) mod pqs_outbox_size (ppq_storage queue),
           ppq_outbox_count := ppq_outbox_count queue - 1\<rparr>"

definition uni_can_protoplexer_queue_init ::
  "uni_can_protoplexer_queue option \<Rightarrow> uni_can_protoplexer_queue_config option
    \<Rightarrow> uni_can_protoplexer_queue option \<times> bool" where
  "uni_can_protoplexer_queue_init queue cfg =
     (case (queue, cfg) of
        (Some _, Some cfg) \<Rightarrow>
          (case pqc_storage cfg of
             None \<Rightarrow> (queue, False)
           | Some storage \<Rightarrow>
               if pqs_rx_buffers storage = None \<or> pqs_inbox storage = None \<or> pqs_inbox_size storage = 0
                  \<or> pqs_outbox storage = None \<or> pqs_outbox_size storage = 0
               then (queue, False)
               else if pqs_max_payload storage \<noteq> 0
                       \<and> (pqs_rx_payload storage = None \<or> pqs_inbox_payload storage = None)
               then (queue, False)
               else
                 let q = pp_queue_zero\<lparr>ppq_config := cfg\<rparr>;
                     protocol_cfg =
                       \<lparr>ppf_own_address = pqc_own_address cfg, ppf_max_chunk_length = pqc_max_chunk_length cfg,
                        ppf_max_channels = pqs_max_channels storage, ppf_monitoring = pqc_monitoring cfg,
                        ppf_max_payload = pqs_max_payload storage, ppf_rx_buffers = pqs_rx_buffers storage,
                        ppf_rx_payload = pqs_rx_payload storage\<rparr>
                 in (case uni_can_protoplexer_init_static (Some (ppq_protocol q)) (Some protocol_cfg) of
                       (Some protocol, True) \<Rightarrow>
                         (Some (q\<lparr>ppq_protocol := protocol, ppq_initialized := True\<rparr>), True)
                     | _ \<Rightarrow> (Some pp_queue_zero, False)))
      | _ \<Rightarrow> (queue, False))"

text \<open>Write a chunk to the place behind the last one, and count it.\<close>

definition ppq_outbox_put :: "uni_can_protoplexer_queue \<Rightarrow> uni_can_message \<Rightarrow> uni_can_protoplexer_queue" where
  "ppq_outbox_put q chunk =
     (let storage = ppq_storage q;
          tail = (ppq_outbox_head q + ppq_outbox_count q) mod pqs_outbox_size storage
      in (ppq_set_storage q (storage\<lparr>pqs_outbox := Some ((ppq_outbox q)[tail := chunk])\<rparr>))
           \<lparr>ppq_outbox_count := ppq_outbox_count q + 1\<rparr>)"

fun ppq_send_loop ::
  "uni_can_protoplexer_msg \<Rightarrow> uni_can_protoplexer_queue \<Rightarrow> nat list
    \<Rightarrow> uni_can_protoplexer_queue \<times> uni_can_protoplexer_result" where
  "ppq_send_loop msg q [] = (q, PP_OK)"
| "ppq_send_loop msg q (idx # rest) =
     (let tail = (ppq_outbox_head q + ppq_outbox_count q) mod pqs_outbox_size (ppq_storage q) in
      case uni_can_protoplexer_build_chunk (Some msg) (ppc_max_chunk_length (ppq_protocol q)) idx
             (Some (ppq_outbox q ! tail)) of
        (PP_OK, Some chunk) \<Rightarrow> ppq_send_loop msg (ppq_outbox_put q chunk) rest
      | (res, _) \<Rightarrow> (q\<lparr>ppq_outbox_count := ppq_outbox_count q - idx\<rparr>, res))"

definition uni_can_protoplexer_queue_send ::
  "uni_can_protoplexer_queue option \<Rightarrow> u16 \<Rightarrow> u16 \<Rightarrow> u16 \<Rightarrow> u8 \<Rightarrow> u8 list option \<Rightarrow> u16
    \<Rightarrow> uni_can_protoplexer_queue option \<times> uni_can_protoplexer_result" where
  "uni_can_protoplexer_queue_send queue message_id address_from address_to priority_inverted data len =
     (case queue of
        None \<Rightarrow> (queue, PP_FAILURE)
      | Some q \<Rightarrow>
          if \<not> ppq_initialized q then (queue, PP_FAILURE)
          else if len > pqs_max_payload (ppq_storage q) \<or> (len > 0 \<and> data = None)
          then (queue, PP_SEND_MSG_INVALID_SIZE)
          else
            let chunks_count = uni_can_protoplexer_chunks_count len (ppc_max_chunk_length (ppq_protocol q)) in
            if chunks_count = 0 then (queue, PP_SEND_MSG_HW_CANT_SEND_HEADER)
            else if ppq_outbox_count q + chunks_count > pqs_outbox_size (ppq_storage q)
            then (queue, PP_SEND_MSG_CANT_ADD_MESSAGE_CHUNKS)
            else
              let msg = \<lparr>ppm_message_id = message_id, ppm_address_from = address_from,
                         ppm_address_to = address_to, ppm_priority_inverted = priority_inverted,
                         ppm_length = len, ppm_data = data\<rparr>
              in (case ppq_send_loop msg q [0..<chunks_count] of (q, res) \<Rightarrow> (Some q, res)))"

text \<open>The protocol works on memory of the application, so its heap is never asked.\<close>

definition uni_can_protoplexer_queue_add_chunk ::
  "uni_can_protoplexer_queue option \<Rightarrow> uni_can_message option
    \<Rightarrow> uni_can_protoplexer_queue option \<times> uni_can_protoplexer_result" where
  "uni_can_protoplexer_queue_add_chunk queue chunk =
     (case queue of
        None \<Rightarrow> (queue, PP_ADDING_CHUNK_INVALID_CHUNK)
      | Some q \<Rightarrow>
          if \<not> ppq_initialized q then (queue, PP_ADDING_CHUNK_INVALID_CHUNK)
          else
            (case uni_can_protoplexer_add_chunk_view heap_none (Some (ppq_protocol q)) chunk True of
               (protocol, res, complete) \<Rightarrow>
                 let q = q\<lparr>ppq_protocol := (case protocol of None \<Rightarrow> ppq_protocol q | Some p \<Rightarrow> p)\<rparr> in
                 (case complete of
                    None \<Rightarrow> (Some q, res)
                  | Some msg \<Rightarrow>
                      (case uni_can_protoplexer_queue_inbox_push q msg of
                         (False, q) \<Rightarrow> (Some q, PP_ADDING_CHUNK_CANT_SAVE_MESSAGE)
                       | (True, q) \<Rightarrow> (Some q, res)))))"

definition uni_can_protoplexer_queue_poll_rx ::
  "'w pp_queue_callbacks \<Rightarrow> uni_can_protoplexer_queue option \<Rightarrow> 'w
    \<Rightarrow> uni_can_protoplexer_queue option \<times> 'w \<times> uni_can_protoplexer_result" where
  "uni_can_protoplexer_queue_poll_rx cb queue w =
     (case queue of
        None \<Rightarrow> (queue, w, PP_POLLING_RX_HW_RX_EMPTY)
      | Some q \<Rightarrow>
          (case pqb_receive_chunk cb of
             None \<Rightarrow> (queue, w, PP_POLLING_RX_HW_RX_EMPTY)
           | Some receive \<Rightarrow>
               if \<not> ppq_initialized q then (queue, w, PP_POLLING_RX_HW_RX_EMPTY)
               else
                 (case receive w of
                    (None, w) \<Rightarrow> (queue, w, PP_POLLING_RX_HW_RX_EMPTY)
                  | (Some chunk, w) \<Rightarrow>
                      (case uni_can_protoplexer_queue_add_chunk queue (Some chunk) of
                         (queue, res) \<Rightarrow> (queue, w, res)))))"

definition uni_can_protoplexer_queue_poll_tx ::
  "'w pp_queue_callbacks \<Rightarrow> uni_can_protoplexer_queue option \<Rightarrow> 'w
    \<Rightarrow> uni_can_protoplexer_queue option \<times> 'w \<times> uni_can_protoplexer_result" where
  "uni_can_protoplexer_queue_poll_tx cb queue w =
     (case queue of
        None \<Rightarrow> (queue, w, PP_POLLING_TX_BUFFER_EMPTY)
      | Some q \<Rightarrow>
          if \<not> ppq_initialized q \<or> ppq_outbox_count q = 0 then (queue, w, PP_POLLING_TX_BUFFER_EMPTY)
          else
            (case (case pqb_send_chunk cb of
                     None \<Rightarrow> (HW_ERROR_NON_RECOVERABLE, w)
                   | Some send \<Rightarrow> send w (ppq_outbox q ! ppq_outbox_head q)) of
               (HW_ERROR_RESEND_REQUIRED, w) \<Rightarrow>
                 let attempts = ppq_send_attempts q + 1 in
                 if attempts > pqc_send_attempts (ppq_config q)
                 then (Some (q\<lparr>ppq_send_attempts := 0\<rparr>), w, PP_HW_SEND_TOO_MANY_ATTEMPTS)
                 else (Some (q\<lparr>ppq_send_attempts := attempts\<rparr>), w, PP_OK)
             | (HW_OK, w) \<Rightarrow>
                 (Some ((uni_can_protoplexer_queue_outbox_pop q)\<lparr>ppq_send_attempts := 0\<rparr>), w, PP_OK)
             | (HW_ERROR_NON_RECOVERABLE, w) \<Rightarrow>
                 (Some ((uni_can_protoplexer_queue_outbox_pop q)\<lparr>ppq_send_attempts := 0\<rparr>), w,
                  PP_HW_SEND_NON_RECOVERABLE)
             | (HW_OTHER _, w) \<Rightarrow> (Some q, w, PP_FAILURE)))"

definition uni_can_protoplexer_queue_poll_new ::
  "'w pp_queue_callbacks \<Rightarrow> uni_can_protoplexer_queue option \<Rightarrow> 'w
    \<Rightarrow> uni_can_protoplexer_queue option \<times> 'w \<times> uni_can_protoplexer_result" where
  "uni_can_protoplexer_queue_poll_new cb queue w =
     (case queue of
        None \<Rightarrow> (queue, w, PP_POLLING_NEW_NO_NEW_MESSAGES)
      | Some q \<Rightarrow>
          if \<not> ppq_initialized q \<or> ppq_inbox_count q = 0 then (queue, w, PP_POLLING_NEW_NO_NEW_MESSAGES)
          else
            let size = pqs_inbox_size (ppq_storage q);
                (q, w) = (case pqb_rx_event cb of
                            None \<Rightarrow> (q, w)
                          | Some event \<Rightarrow> event w q (ppq_slot_msg q (ppq_inbox q ! ppq_inbox_head q)))
            in (Some (q\<lparr>ppq_inbox_head := (ppq_inbox_head q + 1) mod size,
                        ppq_inbox_count := ppq_inbox_count q - 1\<rparr>), w, PP_OK))"


section \<open>Invariant and abstraction\<close>

text \<open>The queue as two lists: the chunks that wait to be sent, and the messages that were received.\<close>

definition ppq_out :: "uni_can_protoplexer_queue \<Rightarrow> uni_can_message list" where
  "ppq_out q = ring_list (ppq_outbox q) (ppq_outbox_head q) (ppq_outbox_count q)"

definition ppq_in :: "uni_can_protoplexer_queue \<Rightarrow> uni_can_protoplexer_msg list" where
  "ppq_in q = map (ppq_slot_msg q) (ring_list (ppq_inbox q) (ppq_inbox_head q) (ppq_inbox_count q))"

definition ppq_out_size :: "uni_can_protoplexer_queue \<Rightarrow> nat" where
  "ppq_out_size q = pqs_outbox_size (ppq_storage q)"

definition ppq_in_size :: "uni_can_protoplexer_queue \<Rightarrow> nat" where
  "ppq_in_size q = pqs_inbox_size (ppq_storage q)"

definition ppq_max_payload :: "uni_can_protoplexer_queue \<Rightarrow> nat" where
  "ppq_max_payload q = unat (pqs_max_payload (ppq_storage q))"

definition ppq_slot_ok :: "uni_can_protoplexer_queue \<Rightarrow> nat \<Rightarrow> bool" where
  "ppq_slot_ok q p \<longleftrightarrow>
     (let slot = ppq_inbox q ! p; n = unat (ppm_length (pis_msg slot)) in
      n \<le> ppq_max_payload q \<and> pis_data slot = (if 0 < n then Some (p * ppq_max_payload q) else None))"

definition ppq_out_wf :: "uni_can_protoplexer_queue \<Rightarrow> bool" where
  "ppq_out_wf q \<longleftrightarrow> length (ppq_outbox q) = ppq_out_size q \<and> ppq_outbox_head q < ppq_out_size q \<and>
     ppq_outbox_count q \<le> ppq_out_size q"

definition ppq_in_wf :: "uni_can_protoplexer_queue \<Rightarrow> bool" where
  "ppq_in_wf q \<longleftrightarrow> length (ppq_inbox q) = ppq_in_size q \<and> ppq_inbox_head q < ppq_in_size q \<and>
     ppq_inbox_count q \<le> ppq_in_size q \<and>
     ppq_in_size q * ppq_max_payload q \<le> length (ppq_inbox_payload q) \<and>
     (\<forall>k<ppq_inbox_count q. ppq_slot_ok q ((ppq_inbox_head q + k) mod ppq_in_size q))"

definition ppq_protocol_wf :: "uni_can_protoplexer_queue \<Rightarrow> bool" where
  "ppq_protocol_wf q \<longleftrightarrow> pp_wf (ppq_protocol q) \<and> ppc_rx_static (ppq_protocol q) \<and>
     ppc_max_payload (ppq_protocol q) = pqs_max_payload (ppq_storage q) \<and>
     6 \<le> unat (ppc_max_chunk_length (ppq_protocol q)) \<and> unat (ppc_max_chunk_length (ppq_protocol q)) \<le> 8"

definition ppq_wf :: "uni_can_protoplexer_queue \<Rightarrow> bool" where
  "ppq_wf q \<longleftrightarrow> ppq_initialized q \<and> ppq_out_wf q \<and> ppq_in_wf q \<and> ppq_protocol_wf q"

lemma ppq_storage_set [simp]: "ppq_storage (ppq_set_storage q s) = s"
  by (simp add: ppq_storage_def ppq_set_storage_def)

lemma ppq_set_storage_fields [simp]:
  "ppq_protocol (ppq_set_storage q s) = ppq_protocol q"
  "ppq_inbox_head (ppq_set_storage q s) = ppq_inbox_head q"
  "ppq_inbox_count (ppq_set_storage q s) = ppq_inbox_count q"
  "ppq_outbox_head (ppq_set_storage q s) = ppq_outbox_head q"
  "ppq_outbox_count (ppq_set_storage q s) = ppq_outbox_count q"
  "ppq_send_attempts (ppq_set_storage q s) = ppq_send_attempts q"
  "ppq_initialized (ppq_set_storage q s) = ppq_initialized q"
  by (simp_all add: ppq_set_storage_def)

lemma ppq_storage_updates [simp]:
  "ppq_storage (q\<lparr>ppq_protocol := p\<rparr>) = ppq_storage q"
  "ppq_storage (q\<lparr>ppq_inbox_head := n\<rparr>) = ppq_storage q"
  "ppq_storage (q\<lparr>ppq_inbox_count := n\<rparr>) = ppq_storage q"
  "ppq_storage (q\<lparr>ppq_outbox_head := n\<rparr>) = ppq_storage q"
  "ppq_storage (q\<lparr>ppq_outbox_count := n\<rparr>) = ppq_storage q"
  "ppq_storage (q\<lparr>ppq_send_attempts := a\<rparr>) = ppq_storage q"
  "ppq_storage (q\<lparr>ppq_initialized := b\<rparr>) = ppq_storage q"
  by (simp_all add: ppq_storage_def)

lemmas ppq_access_defs =
  ppq_outbox_def ppq_inbox_def ppq_inbox_payload_def ppq_out_size_def ppq_in_size_def ppq_max_payload_def

lemmas ppq_parts_defs = ppq_out_wf_def ppq_in_wf_def ppq_protocol_wf_def ppq_slot_ok_def

lemma ppq_slot_msg_storage:
  "ppq_inbox_payload q' = ppq_inbox_payload q \<Longrightarrow> ppq_slot_msg q' = ppq_slot_msg q"
  by (simp add: fun_eq_iff ppq_slot_msg_def)

text \<open>Each part of the queue depends only on its own fields.\<close>

lemma ppq_same_out:
  assumes "ppq_outbox q' = ppq_outbox q" "ppq_out_size q' = ppq_out_size q"
    "ppq_outbox_head q' = ppq_outbox_head q" "ppq_outbox_count q' = ppq_outbox_count q"
  shows "ppq_out q' = ppq_out q" "ppq_out_wf q' = ppq_out_wf q"
  using assms by (simp_all add: ppq_out_def ppq_out_wf_def)

lemma ppq_same_in:
  assumes "ppq_inbox q' = ppq_inbox q" "ppq_in_size q' = ppq_in_size q" "ppq_max_payload q' = ppq_max_payload q"
    "ppq_inbox_head q' = ppq_inbox_head q" "ppq_inbox_count q' = ppq_inbox_count q"
    "ppq_inbox_payload q' = ppq_inbox_payload q"
  shows "ppq_in q' = ppq_in q" "ppq_in_wf q' = ppq_in_wf q"
  using assms by (simp_all add: ppq_in_def ppq_in_wf_def ppq_slot_ok_def ppq_slot_msg_storage [OF assms(6)])

lemma ppq_same_protocol:
  "ppq_protocol q' = ppq_protocol q \<Longrightarrow> pqs_max_payload (ppq_storage q') = pqs_max_payload (ppq_storage q) \<Longrightarrow>
    ppq_protocol_wf q' = ppq_protocol_wf q"
  by (simp add: ppq_protocol_wf_def)


section \<open>The outbox\<close>

definition ppq_outbox_push :: "uni_can_message \<Rightarrow> uni_can_protoplexer_queue \<Rightarrow> uni_can_protoplexer_queue option" where
  "ppq_outbox_push chunk q =
     (if ppq_outbox_count q < pqs_outbox_size (ppq_storage q) then Some (ppq_outbox_put q chunk) else None)"

definition ppq_outbox_take :: "uni_can_protoplexer_queue \<Rightarrow> (uni_can_message \<times> uni_can_protoplexer_queue) option" where
  "ppq_outbox_take q =
     (if ppq_outbox_count q = 0 then None
      else Some (ppq_outbox q ! ppq_outbox_head q, uni_can_protoplexer_queue_outbox_pop q))"

lemma ppq_outbox_put_parts [simp]:
  "ppq_outbox (ppq_outbox_put q c) =
    (ppq_outbox q)[(ppq_outbox_head q + ppq_outbox_count q) mod ppq_out_size q := c]"
  "ppq_outbox_head (ppq_outbox_put q c) = ppq_outbox_head q"
  "ppq_outbox_count (ppq_outbox_put q c) = Suc (ppq_outbox_count q)"
  "ppq_out_size (ppq_outbox_put q c) = ppq_out_size q"
  "ppq_inbox (ppq_outbox_put q c) = ppq_inbox q" "ppq_in_size (ppq_outbox_put q c) = ppq_in_size q"
  "ppq_max_payload (ppq_outbox_put q c) = ppq_max_payload q"
  "ppq_inbox_head (ppq_outbox_put q c) = ppq_inbox_head q"
  "ppq_inbox_count (ppq_outbox_put q c) = ppq_inbox_count q"
  "ppq_inbox_payload (ppq_outbox_put q c) = ppq_inbox_payload q"
  "ppq_protocol (ppq_outbox_put q c) = ppq_protocol q"
  "ppq_initialized (ppq_outbox_put q c) = ppq_initialized q"
  "ppq_send_attempts (ppq_outbox_put q c) = ppq_send_attempts q"
  "pqs_max_payload (ppq_storage (ppq_outbox_put q c)) = pqs_max_payload (ppq_storage q)"
  by (simp_all add: ppq_outbox_put_def Let_def ppq_access_defs)

lemma outbox_put_out:
  assumes "ppq_out_wf q" "ppq_outbox_count q < ppq_out_size q"
  shows "ppq_out (ppq_outbox_put q c) = ppq_out q @ [c]" "ppq_out_wf (ppq_outbox_put q c)"
  using assms ring_push [of "ppq_outbox_count q" "ppq_outbox q" "ppq_outbox_head q" c]
  by (simp_all add: ppq_out_def ppq_out_wf_def)

lemma outbox_put_others:
  "ppq_in (ppq_outbox_put q c) = ppq_in q" "ppq_in_wf (ppq_outbox_put q c) = ppq_in_wf q"
  "ppq_protocol_wf (ppq_outbox_put q c) = ppq_protocol_wf q"
  by (rule ppq_same_in ppq_same_protocol; simp)+

lemma ppq_outbox_pop_parts [simp]:
  "ppq_outbox (uni_can_protoplexer_queue_outbox_pop q) = ppq_outbox q"
  "ppq_out_size (uni_can_protoplexer_queue_outbox_pop q) = ppq_out_size q"
  "ppq_outbox_head (uni_can_protoplexer_queue_outbox_pop q) = (ppq_outbox_head q + 1) mod ppq_out_size q"
  "ppq_outbox_count (uni_can_protoplexer_queue_outbox_pop q) = ppq_outbox_count q - 1"
  "ppq_storage (uni_can_protoplexer_queue_outbox_pop q) = ppq_storage q"
  "ppq_inbox_head (uni_can_protoplexer_queue_outbox_pop q) = ppq_inbox_head q"
  "ppq_inbox_count (uni_can_protoplexer_queue_outbox_pop q) = ppq_inbox_count q"
  "ppq_protocol (uni_can_protoplexer_queue_outbox_pop q) = ppq_protocol q"
  "ppq_initialized (uni_can_protoplexer_queue_outbox_pop q) = ppq_initialized q"
  by (simp_all add: uni_can_protoplexer_queue_outbox_pop_def ppq_access_defs)

lemma outbox_pop_out:
  assumes "ppq_out_wf q" "0 < ppq_outbox_count q"
  shows "ppq_out q = ppq_outbox q ! ppq_outbox_head q # ppq_out (uni_can_protoplexer_queue_outbox_pop q)"
    "ppq_out_wf (uni_can_protoplexer_queue_outbox_pop q)"
  using assms ring_pop [of "ppq_outbox_count q" "ppq_outbox_head q" "ppq_outbox q"]
  by (auto simp: ppq_out_def ppq_out_wf_def)

lemma ppq_out_Nil_iff: "ppq_out q = [] \<longleftrightarrow> ppq_outbox_count q = 0"
  by (auto simp: ppq_out_def ring_list_def)

interpretation outbox: bounded_fifo ppq_out ppq_out_wf ppq_outbox_take ppq_out_size "\<lambda>_ _. True" ppq_outbox_push
proof unfold_locales
  fix q :: uni_can_protoplexer_queue
  show "ppq_out q = [] \<Longrightarrow> ppq_outbox_take q = None"
    by (simp add: ppq_outbox_take_def ppq_out_Nil_iff)
  show "length (ppq_out q) \<le> ppq_out_size q" if "ppq_out_wf q"
    using that by (simp add: ppq_out_def ppq_out_wf_def)
  show "length (ppq_out q) = ppq_out_size q \<Longrightarrow> ppq_outbox_push x q = None" for x
    by (simp add: ppq_outbox_push_def ppq_out_def ppq_out_size_def)
  show "\<exists>q'. ppq_outbox_take q = Some (x, q') \<and> ppq_out q' = xs \<and> ppq_out_wf q'"
    if "ppq_out_wf q" "ppq_out q = x # xs" for x xs
  proof -
    have "0 < ppq_outbox_count q"
      using that(2) ppq_out_Nil_iff [of q] by auto
    with outbox_pop_out [OF that(1)] that(2) show ?thesis
      by (simp add: ppq_outbox_take_def)
  qed
  show "\<exists>q'. ppq_outbox_push x q = Some q' \<and> ppq_out q' = ppq_out q @ [x] \<and> ppq_out_wf q' \<and>
      ppq_out_size q' = ppq_out_size q \<and> (\<lambda>_. True) = (\<lambda>_. True)"
    if "ppq_out_wf q" "length (ppq_out q) < ppq_out_size q" for x
    using that outbox_put_out [of q x] ppq_outbox_put_parts(4) [of q x]
    by (simp add: ppq_outbox_push_def ppq_out_def ppq_out_size_def)
qed

lemma send_loop_eq:
  assumes "pp_msg_wf msg" "ppq_protocol_wf q" "ppq_out_wf q"
    and "\<forall>i\<in>set is. i < uni_can_protoplexer_chunks_count (ppm_length msg) (ppc_max_chunk_length (ppq_protocol q))"
    and "ppq_outbox_count q + length is \<le> ppq_out_size q"
  shows "\<exists>q'. ppq_send_loop msg q is = (q', PP_OK) \<and>
    ppq_out q' = ppq_out q @ map (pp_chunk msg (unat (ppc_max_chunk_length (ppq_protocol q)))) is \<and>
    ppq_out_wf q' \<and> ppq_in q' = ppq_in q \<and> ppq_in_wf q' = ppq_in_wf q \<and> ppq_protocol q' = ppq_protocol q \<and>
    ppq_protocol_wf q' \<and> ppq_initialized q' = ppq_initialized q \<and> ppq_send_attempts q' = ppq_send_attempts q \<and>
    ppq_out_size q' = ppq_out_size q \<and> ppq_max_payload q' = ppq_max_payload q"
  using assms(2-5)
proof (induction "is" arbitrary: q)
  case (Cons i rest)
  let ?m = "ppc_max_chunk_length (ppq_protocol q)"
  let ?c = "pp_chunk msg (unat ?m) i"
  have m: "6 \<le> unat ?m" "unat ?m \<le> 8"
    using Cons.prems(1) by (simp_all add: ppq_protocol_wf_def)
  have room: "ppq_outbox_count q < ppq_out_size q"
    using Cons.prems(4) by simp
  note put = outbox_put_out [OF Cons.prems(2) room, of ?c] outbox_put_others [of q ?c]
  have step: "ppq_send_loop msg q (i # rest) = ppq_send_loop msg (ppq_outbox_put q ?c) rest"
    using Cons.prems(3) build_chunk_eq [OF assms(1) m, of i] by (simp add: Let_def)
  show ?case
    using Cons.IH [of "ppq_outbox_put q ?c"] Cons.prems put unfolding step by simp
qed simp


section \<open>The inbox\<close>

definition ppq_fits :: "uni_can_protoplexer_queue \<Rightarrow> uni_can_protoplexer_msg \<Rightarrow> bool" where
  "ppq_fits q m \<longleftrightarrow> length (case ppm_data m of None \<Rightarrow> [] | Some bs \<Rightarrow> bs) = unat (ppm_length m) \<and>
     (ppm_length m = 0 \<longleftrightarrow> ppm_data m = None) \<and> unat (ppm_length m) \<le> ppq_max_payload q"

definition ppq_inbox_push :: "uni_can_protoplexer_msg \<Rightarrow> uni_can_protoplexer_queue \<Rightarrow> uni_can_protoplexer_queue option" where
  "ppq_inbox_push m q =
     (case uni_can_protoplexer_queue_inbox_push q m of (ok, q') \<Rightarrow> if ok then Some q' else None)"

definition ppq_inbox_take :: "uni_can_protoplexer_queue \<Rightarrow> (uni_can_protoplexer_msg \<times> uni_can_protoplexer_queue) option" where
  "ppq_inbox_take q =
     (if ppq_inbox_count q = 0 then None
      else Some (ppq_slot_msg q (ppq_inbox q ! ppq_inbox_head q),
        q\<lparr>ppq_inbox_head := (ppq_inbox_head q + 1) mod pqs_inbox_size (ppq_storage q),
          ppq_inbox_count := ppq_inbox_count q - 1\<rparr>))"

lemma inbox_push_room:
  assumes wf: "ppq_in_wf q" and fits: "ppq_fits q m" and room: "ppq_inbox_count q < ppq_in_size q"
  shows "\<exists>q'. uni_can_protoplexer_queue_inbox_push q m = (True, q') \<and> ppq_in q' = ppq_in q @ [m] \<and> ppq_in_wf q' \<and>
    ppq_in_size q' = ppq_in_size q \<and> ppq_max_payload q' = ppq_max_payload q \<and>
    ppq_inbox_count q' = Suc (ppq_inbox_count q) \<and> ppq_out q' = ppq_out q \<and> ppq_out_wf q' = ppq_out_wf q \<and>
    ppq_protocol q' = ppq_protocol q \<and> ppq_protocol_wf q' = ppq_protocol_wf q \<and>
    ppq_initialized q' = ppq_initialized q \<and> ppq_out_size q' = ppq_out_size q"
proof -
  let ?tail = "(ppq_inbox_head q + ppq_inbox_count q) mod ppq_in_size q" and ?M = "ppq_max_payload q"
  let ?bs = "case ppm_data m of None \<Rightarrow> [] | Some bs \<Rightarrow> bs"
  let ?slot = "\<lparr>pis_msg = m\<lparr>ppm_data := None\<rparr>, pis_data = (if ppm_length m > 0 then Some (?tail * ?M) else None)\<rparr>"
  let ?mem = "if ppm_length m > 0 then blit (ppq_inbox_payload q) (?tail * ?M) ?bs else ppq_inbox_payload q"
  obtain q' where q': "uni_can_protoplexer_queue_inbox_push q m = (True, q')"
    and parts: "ppq_inbox q' = (ppq_inbox q)[?tail := ?slot]" "ppq_inbox_payload q' = ?mem"
      "ppq_in_size q' = ppq_in_size q" "ppq_max_payload q' = ?M" "ppq_inbox_head q' = ppq_inbox_head q"
      "ppq_inbox_count q' = Suc (ppq_inbox_count q)" "ppq_outbox q' = ppq_outbox q" "ppq_out_size q' = ppq_out_size q"
      "ppq_outbox_head q' = ppq_outbox_head q" "ppq_outbox_count q' = ppq_outbox_count q"
      "ppq_protocol q' = ppq_protocol q" "pqs_max_payload (ppq_storage q') = pqs_max_payload (ppq_storage q)"
      "ppq_initialized q' = ppq_initialized q"
    using room fits
    by (auto simp: uni_can_protoplexer_queue_inbox_push_def Let_def ppq_access_defs ppq_fits_def)
  have n: "length (ppq_inbox q) = ppq_in_size q" "?tail < ppq_in_size q"
    using wf room by (auto simp: ppq_in_wf_def intro: mod_less_divisor)
  have memlen: "length ?mem = length (ppq_inbox_payload q)" "?tail * ?M + ?M \<le> length (ppq_inbox_payload q)"
  proof -
    show "?tail * ?M + ?M \<le> length (ppq_inbox_payload q)"
      using wf static_region [OF n(2), of ?M] by (simp add: ppq_in_wf_def)
    then show "length ?mem = length (ppq_inbox_payload q)"
      using fits by (auto simp: ppq_fits_def)
  qed
  have old: "ppq_slot_msg q' (ppq_inbox q ! p) = ppq_slot_msg q (ppq_inbox q ! p)"
    if "p < ppq_in_size q" "p \<noteq> ?tail" "ppq_slot_ok q p" for p
  proof -
    let ?n = "unat (ppm_length (pis_msg (ppq_inbox q ! p)))"
    have pn: "?n \<le> ?M"
      using that(3) by (simp add: ppq_slot_ok_def Let_def)
    have region: "take ?n (drop (p * ?M) ?mem) = take ?n (drop (p * ?M) (ppq_inbox_payload q))"
    proof (cases "ppm_length m > 0")
      case True
      have "length ?bs \<le> ?M"
        using fits by (simp add: ppq_fits_def)
      moreover have "p * ?M + ?M \<le> ?tail * ?M \<or> ?tail * ?M + ?M \<le> p * ?M"
        using that(2) static_region [of p ?tail ?M] static_region [of ?tail p ?M] by linarith
      ultimately show ?thesis
        using True pn memlen(2) by (simp, intro slice_blit_other) auto
    qed simp
    have data: "pis_data (ppq_inbox q ! p) = (if 0 < ?n then Some (p * ?M) else None)"
      using that(3) by (simp add: ppq_slot_ok_def Let_def)
    show ?thesis
    proof (cases "0 < ?n")
      case True
      then show ?thesis
        using data region by (simp only: ppq_slot_msg_def parts(2) if_True option.map)
    next
      case False
      then show ?thesis
        using data by (simp only: ppq_slot_msg_def if_False option.map)
    qed
  qed
  have new: "ppq_slot_msg q' ?slot = m"
  proof (cases "ppm_data m")
    case None
    then show ?thesis
      using fits by (simp add: ppq_slot_msg_def ppq_fits_def)
  next
    case (Some bs)
    then have "0 < ppm_length m" "length bs = unat (ppm_length m)" "length bs \<le> ?M"
      using fits by (auto simp: ppq_fits_def word_gt_0)
    then show ?thesis
      using Some memlen(2) slice_blit_self [of "?tail * ?M" bs "ppq_inbox_payload q"]
      by (simp add: ppq_slot_msg_def parts(2))
  qed
  have ring: "ring_list (ppq_inbox q') (ppq_inbox_head q') (ppq_inbox_count q') =
      ring_list (ppq_inbox q) (ppq_inbox_head q) (ppq_inbox_count q) @ [?slot]"
    using ring_push [of "ppq_inbox_count q" "ppq_inbox q" "ppq_inbox_head q" ?slot] room
    by (simp only: parts n(1))
  have places: "(ppq_inbox_head q + k) mod ppq_in_size q < ppq_in_size q"
      "(ppq_inbox_head q + k) mod ppq_in_size q \<noteq> ?tail"
      "ppq_slot_ok q ((ppq_inbox_head q + k) mod ppq_in_size q)" if "k < ppq_inbox_count q" for k
    using that wf room ring_places_differ [OF that room, of "ppq_inbox_head q"]
    by (auto simp: ppq_in_wf_def intro: mod_less_divisor)
  have "map (ppq_slot_msg q') (ring_list (ppq_inbox q) (ppq_inbox_head q) (ppq_inbox_count q)) = ppq_in q"
    using old places by (simp add: ppq_in_def ring_list_def n(1))
  then have contents: "ppq_in q' = ppq_in q @ [m]"
    unfolding ppq_in_def ring by (simp add: new ppq_in_def)
  have "ppq_slot_ok q' ((ppq_inbox_head q + k) mod ppq_in_size q)" if "k < Suc (ppq_inbox_count q)" for k
  proof (cases "k = ppq_inbox_count q")
    case True
    then show ?thesis
      using fits n by (auto simp: ppq_slot_ok_def Let_def parts ppq_fits_def word_less_nat_alt)
  next
    case False
    then show ?thesis
      using that places [of k] n by (simp add: ppq_slot_ok_def Let_def parts nth_list_update)
  qed
  then have "ppq_in_wf q'"
    using wf room memlen(1) parts(2) by (simp add: ppq_in_wf_def parts)
  then show ?thesis
    using q' contents parts ppq_same_out [of q' q] ppq_same_protocol [of q' q] by simp
qed

lemma inbox_push_full:
  "ppq_in_size q \<le> ppq_inbox_count q \<Longrightarrow> uni_can_protoplexer_queue_inbox_push q m = (False, q)"
  by (simp add: uni_can_protoplexer_queue_inbox_push_def Let_def ppq_in_size_def)

interpretation inbox: bounded_fifo ppq_in ppq_in_wf ppq_inbox_take ppq_in_size ppq_fits ppq_inbox_push
proof unfold_locales
  fix q :: uni_can_protoplexer_queue
  have len: "length (ppq_in q) = ppq_inbox_count q"
    by (simp add: ppq_in_def)
  then show "ppq_in q = [] \<Longrightarrow> ppq_inbox_take q = None"
    by (simp add: ppq_inbox_take_def)
  show "length (ppq_in q) \<le> ppq_in_size q" if "ppq_in_wf q"
    using that len by (simp add: ppq_in_wf_def)
  show "length (ppq_in q) = ppq_in_size q \<Longrightarrow> ppq_inbox_push x q = None" for x
    using len inbox_push_full [of q x] by (simp add: ppq_inbox_push_def)
  show "\<exists>q'. ppq_inbox_push x q = Some q' \<and> ppq_in q' = ppq_in q @ [x] \<and> ppq_in_wf q' \<and>
      ppq_in_size q' = ppq_in_size q \<and> ppq_fits q' = ppq_fits q"
    if a: "ppq_in_wf q" "ppq_fits q x" "length (ppq_in q) < ppq_in_size q" for x
  proof -
    obtain q' where q': "uni_can_protoplexer_queue_inbox_push q x = (True, q')" "ppq_in q' = ppq_in q @ [x]"
      "ppq_in_wf q'" "ppq_in_size q' = ppq_in_size q" "ppq_max_payload q' = ppq_max_payload q"
      using inbox_push_room [OF a(1,2)] a(3) len by auto
    moreover have "ppq_fits q' = ppq_fits q"
      using q'(5) by (simp add: fun_eq_iff ppq_fits_def)
    ultimately show ?thesis
      by (simp add: ppq_inbox_push_def)
  qed
  show "\<exists>q'. ppq_inbox_take q = Some (x, q') \<and> ppq_in q' = xs \<and> ppq_in_wf q'"
    if wf: "ppq_in_wf q" and xs: "ppq_in q = x # xs" for x xs
  proof -
    have count: "0 < ppq_inbox_count q"
      using xs len by auto
    define q1 where "q1 = q\<lparr>ppq_inbox_head := (ppq_inbox_head q + 1) mod pqs_inbox_size (ppq_storage q),
      ppq_inbox_count := ppq_inbox_count q - 1\<rparr>"
    have parts: "ppq_inbox q1 = ppq_inbox q" "ppq_in_size q1 = ppq_in_size q" "ppq_max_payload q1 = ppq_max_payload q"
      "ppq_inbox_payload q1 = ppq_inbox_payload q" "ppq_inbox_head q1 = (ppq_inbox_head q + 1) mod ppq_in_size q"
      "ppq_inbox_count q1 = ppq_inbox_count q - 1"
      by (simp_all add: q1_def ppq_access_defs)
    have pop: "ring_list (ppq_inbox q) (ppq_inbox_head q) (ppq_inbox_count q) =
        ppq_inbox q ! ppq_inbox_head q # ring_list (ppq_inbox q1) (ppq_inbox_head q1) (ppq_inbox_count q1)"
      using ring_pop [OF count, of "ppq_inbox_head q" "ppq_inbox q"] wf by (simp add: ppq_in_wf_def parts)
    have "ppq_in q = ppq_slot_msg q (ppq_inbox q ! ppq_inbox_head q) # ppq_in q1"
      unfolding ppq_in_def [of q] pop by (simp add: ppq_in_def ppq_slot_msg_storage [OF parts(4)])
    moreover have "ppq_slot_ok q1 ((ppq_inbox_head q1 + k) mod ppq_in_size q)" if "k < ppq_inbox_count q1" for k
    proof -
      have "Suc k < ppq_inbox_count q"
        using that count by (simp add: parts)
      then have "ppq_slot_ok q ((ppq_inbox_head q + Suc k) mod ppq_in_size q)"
        using wf unfolding ppq_in_wf_def by blast
      then show ?thesis
        by (simp add: ppq_slot_ok_def parts mod_add_left_eq Let_def)
    qed
    then have "ppq_in_wf q1"
      using wf count by (auto simp: ppq_in_wf_def parts intro: mod_less_divisor)
    ultimately show ?thesis
      using xs count by (simp add: ppq_inbox_take_def q1_def)
  qed
qed


section \<open>Receiving\<close>

lemma abs_static_len:
  assumes "pp_wf ctx" "ppc_rx_static ctx" "pp_abs ctx s = Some p"
  shows "pa_len p \<le> ppc_max_payload ctx"
proof -
  obtain i where i: "uni_can_protoplexer_rx_find ctx s = Some i" "p = pp_partial_of ctx i"
    using assms(3) by (auto simp: pp_abs_def split: option.splits if_splits)
  have inv: "pp_buf_inv ctx i" "rxb_in_use (pp_buf ctx i)"
    using rx_find_lt [OF i(1)] i(1) pp_wfD(4) [OF assms(1)]
    by (simp_all add: rx_find_iff [OF pp_wfD(1,3) [OF assms(1)]])
  show ?thesis
  proof (cases "pp_content ctx i")
    case None
    with inv i(2) show ?thesis
      by (simp add: pp_buf_inv_def pp_partial_of_def Let_def)
  next
    case (Some c)
    then have "length c \<le> unat (ppc_max_payload ctx)"
      using inv(1) assms(2)
      by (auto simp: pp_buf_inv_def pp_slot_ok_def pp_content_def split: option.splits pp_payload_ref.splits)
    with Some inv i(2) show ?thesis
      by (simp add: pp_buf_inv_def pp_partial_of_def Let_def word_le_nat_alt)
  qed
qed

lemma chan_step_len:
  assumes "chan_step admits st f = (p, r, Some m)"
    and "\<And>p. st = Some p \<Longrightarrow> pa_len p \<le> limit" and "\<And>n. admits n \<Longrightarrow> n \<le> limit"
  shows "ppm_length m \<le> limit"
proof (cases "uni_can_protoplexer_canid_get_is_first (cm_id f)")
  case True
  with assms(1,3) show ?thesis
    by (auto simp: chan_step_def chan_first_def chan_finish_def pp_done_msg_def Let_def split: if_splits)
next
  case False
  with assms(1,2) show ?thesis
    by (cases st) (auto simp: chan_step_def chan_finish_def pp_done_msg_def split: if_splits)
qed

lemma spec_fits:
  assumes wf: "ppq_protocol_wf q" and spec: "pp_spec_of h (ppq_protocol q) f = (st, r, Some m)"
  shows "ppq_fits q m" "r = PP_OK"
proof -
  let ?ctx = "ppq_protocol q"
  have p: "pp_wf ?ctx" "ppc_rx_static ?ctx" "ppc_max_payload ?ctx = pqs_max_payload (ppq_storage q)"
    using wf by (simp_all add: ppq_protocol_wf_def)
  obtain x where "chan_step (pp_admits h ?ctx) (pp_abs ?ctx (pp_signature (cm_id f))) f = (x, r, Some m)"
    using spec by (auto simp: pp_spec_of_def pp_spec_add_def Let_def split: if_splits prod.splits)
  then have "ppm_length m \<le> ppc_max_payload ?ctx"
    by (rule chan_step_len) (use p(2) in \<open>auto simp: pp_admits_def dest: abs_static_len [OF p(1,2)]\<close>)
  with spec_delivers [OF spec] p(3) show "ppq_fits q m" "r = PP_OK"
    by (simp_all add: ppq_fits_def ppq_max_payload_def word_le_nat_alt)
qed

text \<open>A chunk that is added: the protocol's step, and a message goes to the inbox if there is room.\<close>

lemma queue_add_chunk_step:
  assumes wf: "ppq_wf q" and f: "pp_frame_ok f" and spec: "pp_spec_of heap_none (ppq_protocol q) f = (st, r, msg)"
  shows "\<exists>q'. uni_can_protoplexer_queue_add_chunk (Some q) (Some f) =
      (Some q', if msg \<noteq> None \<and> length (ppq_in q) = ppq_in_size q then PP_ADDING_CHUNK_CANT_SAVE_MESSAGE else r) \<and>
    ppq_wf q' \<and> pp_abs (ppq_protocol q') = st \<and> pp_same_config (ppq_protocol q) (ppq_protocol q') \<and>
    ppq_in q' = ppq_in q @
      (case msg of None \<Rightarrow> [] | Some m \<Rightarrow> if length (ppq_in q) < ppq_in_size q then [m] else []) \<and>
    ppq_in_size q' = ppq_in_size q \<and> ppq_out q' = ppq_out q"
proof -
  have parts: "ppq_out_wf q" "ppq_in_wf q" "ppq_protocol_wf q" "ppq_initialized q"
    using wf by (simp_all add: ppq_wf_def)
  then have ctx: "pp_wf (ppq_protocol q)"
    by (simp add: ppq_protocol_wf_def)
  obtain c where c: "uni_can_protoplexer_add_chunk_view heap_none (Some (ppq_protocol q)) (Some f) True = (Some c, r, msg)"
    "pp_wf c" "pp_abs c = st" "pp_same_config (ppq_protocol q) c"
    using add_chunk_view_spec [OF ctx f heap_ok_none spec] by blast
  let ?q = "q\<lparr>ppq_protocol := c\<rparr>"
  have access: "ppq_outbox ?q = ppq_outbox q" "ppq_out_size ?q = ppq_out_size q" "ppq_inbox ?q = ppq_inbox q"
    "ppq_in_size ?q = ppq_in_size q" "ppq_max_payload ?q = ppq_max_payload q" "ppq_inbox_payload ?q = ppq_inbox_payload q"
    by (simp_all add: ppq_access_defs)
  have same: "ppq_out ?q = ppq_out q" "ppq_out_wf ?q = ppq_out_wf q" "ppq_in ?q = ppq_in q" "ppq_in_wf ?q = ppq_in_wf q"
    by (rule ppq_same_out ppq_same_in; simp add: access)+
  have prot: "ppq_protocol_wf ?q"
    using parts(3) c(2,4) by (simp add: ppq_protocol_wf_def pp_same_config_def)
  have len: "length (ppq_in q) = ppq_inbox_count q"
    by (simp add: ppq_in_def)
  show ?thesis
  proof (cases msg)
    case None
    with c parts same prot access show ?thesis
      by (simp add: uni_can_protoplexer_queue_add_chunk_def ppq_wf_def)
  next
    case (Some m)
    have fits: "ppq_fits ?q m" and "r = PP_OK"
      using spec_fits [OF parts(3)] spec Some by (simp_all add: ppq_fits_def access)
    show ?thesis
    proof (cases "length (ppq_in q) < ppq_in_size q")
      case True
      then obtain q' where q': "uni_can_protoplexer_queue_inbox_push ?q m = (True, q')"
        "ppq_in q' = ppq_in ?q @ [m]" "ppq_in_wf q'" "ppq_in_size q' = ppq_in_size ?q" "ppq_out q' = ppq_out ?q"
        "ppq_out_wf q' = ppq_out_wf ?q" "ppq_protocol q' = ppq_protocol ?q" "ppq_protocol_wf q' = ppq_protocol_wf ?q"
        "ppq_initialized q' = ppq_initialized ?q"
        using inbox_push_room [of ?q m] fits parts(2) same(4) access(4) len by auto
      with Some c parts same prot access True show ?thesis
        by (simp add: uni_can_protoplexer_queue_add_chunk_def ppq_wf_def)
    next
      case False
      then have "uni_can_protoplexer_queue_inbox_push ?q m = (False, ?q)"
        using len by (intro inbox_push_full) (simp add: access)
      moreover have "length (ppq_in q) = ppq_in_size q"
        using False parts(2) len by (simp add: ppq_in_wf_def)
      ultimately show ?thesis
        using Some c parts same prot access
        by (simp add: uni_can_protoplexer_queue_add_chunk_def ppq_wf_def)
    qed
  qed
qed

text \<open>Frames of one sender, one after the other, with room for what they deliver.\<close>

fun queue_feed ::
  "uni_can_protoplexer_queue option \<Rightarrow> uni_can_message list
    \<Rightarrow> uni_can_protoplexer_queue option \<times> uni_can_protoplexer_result list" where
  "queue_feed q [] = (q, [])"
| "queue_feed q (f # fs) =
     (case uni_can_protoplexer_queue_add_chunk q (Some f) of
        (q, r) \<Rightarrow> (case queue_feed q fs of (q, rs) \<Rightarrow> (q, r # rs)))"

definition delivered :: "(uni_can_protoplexer_result \<times> uni_can_protoplexer_msg option) list \<Rightarrow> uni_can_protoplexer_msg list" where
  "delivered answers = List.map_filter snd answers"

lemma delivered_simps [simp]:
  "delivered [] = []" "delivered ((r, None) # as) = delivered as" "delivered ((r, Some m) # as) = m # delivered as"
  "delivered (as @ bs) = delivered as @ delivered bs" "delivered (replicate n (r, None)) = []"
  by (induction n) (simp_all add: delivered_def map_filter_def)

lemma queue_feed_step:
  "ppq_wf q \<Longrightarrow>
    \<forall>f\<in>set fs. pp_frame_ok f \<and> pp_signature (cm_id f) = sig \<and>
      pp_addressed (ppc_own_address (ppq_protocol q)) (ppc_monitoring (ppq_protocol q)) f \<Longrightarrow>
    card (dom (pp_abs (ppq_protocol q)) - {sig}) < unat (ppc_max_channels (ppq_protocol q)) \<Longrightarrow>
    length (ppq_in q) +
      length (delivered (chan_feed (pp_admits heap_none (ppq_protocol q)) (pp_abs (ppq_protocol q) sig) fs))
      \<le> ppq_in_size q \<Longrightarrow>
    \<exists>q'. queue_feed (Some q) fs =
        (Some q', map fst (chan_feed (pp_admits heap_none (ppq_protocol q)) (pp_abs (ppq_protocol q) sig) fs)) \<and>
      ppq_wf q' \<and> ppq_out q' = ppq_out q \<and>
      ppq_in q' = ppq_in q @
        delivered (chan_feed (pp_admits heap_none (ppq_protocol q)) (pp_abs (ppq_protocol q) sig) fs)"
proof (induction fs arbitrary: q)
  case (Cons f fs)
  let ?ctx = "ppq_protocol q" and ?admits = "pp_admits heap_none (ppq_protocol q)"
  have f: "pp_frame_ok f" "pp_signature (cm_id f) = sig"
    "pp_addressed (ppc_own_address ?ctx) (ppc_monitoring ?ctx) f"
    using Cons.prems(2) by simp_all
  obtain p r m where cs: "chan_step ?admits (pp_abs ?ctx sig) f = (p, r, m)"
    by (metis prod_cases3)
  have room: "\<not> (pp_abs ?ctx sig = None \<and> unat (ppc_max_channels ?ctx) \<le> card (dom (pp_abs ?ctx)))"
  proof
    assume a: "pp_abs ?ctx sig = None \<and> unat (ppc_max_channels ?ctx) \<le> card (dom (pp_abs ?ctx))"
    then have "dom (pp_abs ?ctx) - {sig} = dom (pp_abs ?ctx)"
      by auto
    with a Cons.prems(3) show False
      by simp
  qed
  then have spec: "pp_spec_of heap_none ?ctx f = ((pp_abs ?ctx)(sig := p), r, m)"
    using f cs by (auto simp: pp_spec_of_def pp_spec_add_def Let_def)
  have not_full: "\<not> (m \<noteq> None \<and> length (ppq_in q) = ppq_in_size q)"
    using Cons.prems(4) cs by (cases m) auto
  obtain q1 where q1: "uni_can_protoplexer_queue_add_chunk (Some q) (Some f) = (Some q1, r)" "ppq_wf q1"
    "pp_abs (ppq_protocol q1) = (pp_abs ?ctx)(sig := p)" "pp_same_config ?ctx (ppq_protocol q1)"
    "ppq_in q1 = ppq_in q @ (case m of None \<Rightarrow> [] | Some m \<Rightarrow> if length (ppq_in q) < ppq_in_size q then [m] else [])"
    "ppq_in_size q1 = ppq_in_size q" "ppq_out q1 = ppq_out q"
    using queue_add_chunk_step [OF Cons.prems(1) f(1) spec] not_full by auto
  have cfg: "ppc_own_address (ppq_protocol q1) = ppc_own_address ?ctx"
    "ppc_monitoring (ppq_protocol q1) = ppc_monitoring ?ctx"
    "ppc_max_channels (ppq_protocol q1) = ppc_max_channels ?ctx" "pp_admits heap_none (ppq_protocol q1) = ?admits"
    using q1(4) pp_same_config_admits [OF q1(4)] by (simp_all add: pp_same_config_def)
  have "length (ppq_in q) \<le> ppq_in_size q"
    using Cons.prems(1) by (simp add: ppq_wf_def ppq_in_wf_def ppq_in_def)
  then have in1: "ppq_in q1 = ppq_in q @ (case m of None \<Rightarrow> [] | Some m \<Rightarrow> [m])"
    using q1(5) not_full by (cases m) auto
  have dom: "dom ((pp_abs ?ctx)(sig := p)) - {sig} = dom (pp_abs ?ctx) - {sig}"
    by auto
  have p: "pp_abs (ppq_protocol q1) sig = p"
    by (simp add: q1(3))
  have feed: "chan_feed ?admits (pp_abs ?ctx sig) (f # fs) = (r, m) # chan_feed ?admits p fs"
    by (simp add: cs)
  have deliver: "delivered ((r, m) # as) = (case m of None \<Rightarrow> [] | Some m \<Rightarrow> [m]) @ delivered as" for as
    by (cases m) simp_all
  have "\<exists>q2. queue_feed (Some q1) fs = (Some q2, map fst (chan_feed ?admits p fs)) \<and> ppq_wf q2 \<and>
      ppq_out q2 = ppq_out q1 \<and> ppq_in q2 = ppq_in q1 @ delivered (chan_feed ?admits p fs)"
  proof (rule Cons.IH [OF q1(2), unfolded cfg p])
    show "\<forall>f\<in>set fs. pp_frame_ok f \<and> pp_signature (cm_id f) = sig \<and>
        pp_addressed (ppc_own_address ?ctx) (ppc_monitoring ?ctx) f"
      using Cons.prems(2) by simp
    show "card (dom (pp_abs (ppq_protocol q1)) - {sig}) < unat (ppc_max_channels ?ctx)"
      unfolding q1(3) dom by (rule Cons.prems(3))
    show "length (ppq_in q1) + length (delivered (chan_feed ?admits p fs)) \<le> ppq_in_size q1"
      using Cons.prems(4) unfolding feed deliver in1 q1(6) by simp
  qed
  then obtain q2 where "queue_feed (Some q1) fs = (Some q2, map fst (chan_feed ?admits p fs))" "ppq_wf q2"
    "ppq_out q2 = ppq_out q1" "ppq_in q2 = ppq_in q1 @ delivered (chan_feed ?admits p fs)"
    by blast
  then show ?case
    unfolding feed deliver using q1(1,7) in1 by simp
qed simp


section \<open>Properties\<close>

text \<open>A memory for examples: two reassemblies, two messages, four chunks.\<close>

definition ppq_example_storage :: uni_can_protoplexer_queue_storage where
  "ppq_example_storage = \<lparr>pqs_rx_buffers = Some [pp_rx_buffer_zero, pp_rx_buffer_zero],
     pqs_rx_payload = Some (replicate 32 0), pqs_max_channels = 2, pqs_max_payload = 16,
     pqs_inbox = Some (replicate 2 \<lparr>pis_msg = pp_msg_zero, pis_data = None\<rparr>),
     pqs_inbox_payload = Some (replicate 32 0), pqs_inbox_size = 2,
     pqs_outbox = Some (replicate 4 can_message_zero), pqs_outbox_size = 4\<rparr>"

definition ppq_example_config :: uni_can_protoplexer_queue_config where
  "ppq_example_config = \<lparr>pqc_own_address = 0x20, pqc_max_chunk_length = 8, pqc_monitoring = False,
     pqc_send_attempts = 3, pqc_storage = Some ppq_example_storage\<rparr>"

definition ppq_example :: uni_can_protoplexer_queue where
  "ppq_example = pp_queue_zero\<lparr>ppq_config := ppq_example_config, ppq_initialized := True,
     ppq_protocol := pp_example_ctx\<lparr>ppc_max_payload := 16, ppc_rx_payload := Some (replicate 32 0),
       ppc_rx_static := True\<rparr>\<rparr>"

lemma queue_init_wf:
  assumes "uni_can_protoplexer_queue_init (Some old) (Some cfg) = (Some q, True)"
    and "pqc_storage cfg = Some s"
    and "\<And>xs. pqs_outbox s = Some xs \<Longrightarrow> length xs = pqs_outbox_size s"
    and "\<And>xs. pqs_inbox s = Some xs \<Longrightarrow> length xs = pqs_inbox_size s"
    and "\<And>m. pqs_inbox_payload s = Some m \<Longrightarrow> length m = pqs_inbox_size s * unat (pqs_max_payload s)"
    and "\<And>m. pqs_rx_payload s = Some m \<Longrightarrow> length m = unat (pqs_max_channels s) * unat (pqs_max_payload s)"
  shows "ppq_wf q \<and> ppq_out q = [] \<and> ppq_in q = [] \<and> pp_abs (ppq_protocol q) = Map.empty"
proof -
  let ?base = "pp_ctx_zero\<lparr>ppc_own_address := pqc_own_address cfg AND 0x0FFF,
    ppc_max_chunk_length := pqc_max_chunk_length cfg, ppc_monitoring := pqc_monitoring cfg,
    ppc_max_channels := pqs_max_channels s, ppc_max_payload := pqs_max_payload s,
    ppc_rx := Some (replicate (unat (pqs_max_channels s)) pp_rx_buffer_zero),
    ppc_rx_payload := pqs_rx_payload s, ppc_rx_static := True\<rparr>"
  have run: "q = pp_queue_zero\<lparr>ppq_config := cfg, ppq_protocol := ?base, ppq_initialized := True\<rparr>"
    and ok: "\<not> (pqs_rx_buffers s = None \<or> pqs_inbox s = None \<or> pqs_inbox_size s = 0 \<or> pqs_outbox s = None \<or>
        pqs_outbox_size s = 0)"
      "\<not> (pqs_max_payload s \<noteq> 0 \<and> (pqs_rx_payload s = None \<or> pqs_inbox_payload s = None))"
      "6 \<le> unat (pqc_max_chunk_length cfg)" "unat (pqc_max_chunk_length cfg) \<le> 8"
    using assms(1,2)
    by (auto simp: uni_can_protoplexer_queue_init_def uni_can_protoplexer_init_static_def Let_def
        uni_can_protoplexer_init_common_def pp_queue_zero_def pp_const_defs split: if_splits)
  have ctx: "pp_wf ?base" "pp_abs ?base = Map.empty"
    using ok(2) assms(6) by (auto intro!: pp_fresh_wf simp: pp_ctx_zero_def split: option.split)
  have storage: "ppq_storage q = s"
    using assms(2) by (simp add: run ppq_storage_def)
  have fields: "ppq_initialized q" "ppq_protocol q = ?base" "ppq_inbox_head q = 0" "ppq_inbox_count q = 0"
    "ppq_outbox_head q = 0" "ppq_outbox_count q = 0"
    by (simp_all add: run pp_queue_zero_def)
  obtain xs ys where rings: "pqs_outbox s = Some xs" "pqs_inbox s = Some ys" "0 < pqs_outbox_size s"
    "0 < pqs_inbox_size s"
    using ok(1) by auto
  have "ppq_in_size q * ppq_max_payload q \<le> length (ppq_inbox_payload q)"
    using ok(2) assms(5) by (cases "pqs_inbox_payload s") (auto simp: ppq_access_defs storage)
  then have "ppq_in_wf q"
    using rings assms(4) by (simp add: ppq_in_wf_def fields) (simp add: ppq_access_defs storage)
  moreover have "ppq_out_wf q"
    using rings assms(3) by (simp add: ppq_out_wf_def fields) (simp add: ppq_access_defs storage)
  moreover have "ppq_protocol_wf q"
    using ctx(1) ok(3,4) by (simp add: ppq_protocol_wf_def fields storage)
  ultimately show ?thesis
    using ctx(2) by (simp add: ppq_wf_def ppq_out_def ppq_in_def fields)
qed

lemma ppq_example_init:
  "uni_can_protoplexer_queue_init (Some pp_queue_zero) (Some ppq_example_config) = (Some ppq_example, True)"
proof -
  have "replicate 2 pp_rx_buffer_zero = [pp_rx_buffer_zero, pp_rx_buffer_zero]"
    by (simp only: numeral_2_eq_2 replicate.simps)
  then show ?thesis
    by (simp add: uni_can_protoplexer_queue_init_def uni_can_protoplexer_init_static_def
        uni_can_protoplexer_init_common_def ppq_example_config_def ppq_example_storage_def ppq_example_def
        pp_example_ctx_def pp_ctx_zero_def pp_queue_zero_def pp_const_defs Let_def)
qed

text \<open>
  A queue that \<open>uni_can_protoplexer_queue_init\<close> sets up from memory of the announced sizes is
  well formed and empty in both directions, with no message in progress.
\<close>

theorem queue_init_empty:
  assumes "uni_can_protoplexer_queue_init (Some old) (Some cfg) = (Some q, True)"
    and "pqc_storage cfg = Some s"
    and "\<And>xs. pqs_outbox s = Some xs \<Longrightarrow> length xs = pqs_outbox_size s"
    and "\<And>xs. pqs_inbox s = Some xs \<Longrightarrow> length xs = pqs_inbox_size s"
    and "\<And>m. pqs_inbox_payload s = Some m \<Longrightarrow> length m = pqs_inbox_size s * unat (pqs_max_payload s)"
    and "\<And>m. pqs_rx_payload s = Some m \<Longrightarrow> length m = unat (pqs_max_channels s) * unat (pqs_max_payload s)"
  shows "ppq_wf q \<and> ppq_out q = [] \<and> ppq_in q = [] \<and> pp_abs (ppq_protocol q) = Map.empty"
  using assms by (rule queue_init_wf)

theorem queue_init_empty_witness: "ppq_wf ppq_example \<and> ppq_out ppq_example = []"
  using queue_init_empty [OF ppq_example_init, of ppq_example_storage]
  by (simp add: ppq_example_config_def ppq_example_storage_def)


lemma ppq_example_wf: "ppq_wf ppq_example" "ppq_out ppq_example = []" "ppq_in ppq_example = []"
  "pp_abs (ppq_protocol ppq_example) = Map.empty"
  using queue_init_wf [OF ppq_example_init, of ppq_example_storage]
  by (simp_all add: ppq_example_config_def ppq_example_storage_def)

lemma queue_send_cases:
  assumes "ppq_wf q" and "\<And>bs. ppm_data msg = Some bs \<Longrightarrow> length bs = unat (ppm_length msg)"
  defines "m \<equiv> ppc_max_chunk_length (ppq_protocol q)"
  defines "n \<equiv> (6 + unat (ppm_length msg) + (unat m - 1)) div unat m"
  shows "\<exists>q' r. uni_can_protoplexer_queue_send (Some q) (ppm_message_id msg) (ppm_address_from msg)
      (ppm_address_to msg) (ppm_priority_inverted msg) (ppm_data msg) (ppm_length msg) = (Some q', r) \<and>
    (if unat (ppm_length msg) > ppq_max_payload q \<or> (ppm_length msg > 0 \<and> ppm_data msg = None) then r = PP_SEND_MSG_INVALID_SIZE \<and> q' = q
     else if length (ppq_out q) + n > ppq_out_size q
     then r = PP_SEND_MSG_CANT_ADD_MESSAGE_CHUNKS \<and> q' = q
     else r = PP_OK \<and> ppq_wf q' \<and> ppq_out q' = ppq_out q @ map (pp_chunk msg (unat m)) [0..<n] \<and>
       ppq_in q' = ppq_in q \<and> ppq_protocol q' = ppq_protocol q \<and> ppq_send_attempts q' = ppq_send_attempts q)"
proof -
  have parts: "ppq_out_wf q" "ppq_in_wf q" "ppq_protocol_wf q" "ppq_initialized q"
    using assms(1) by (simp_all add: ppq_wf_def)
  then have m: "6 \<le> unat m" "unat m \<le> 8"
    by (simp_all add: ppq_protocol_wf_def m_def)
  have count: "uni_can_protoplexer_chunks_count (ppm_length msg) m = n" "0 < n"
    using chunks_count_eq [OF m] chunks_count_pos [OF m, of "ppm_length msg"] by (simp_all add: n_def)
  have len: "length (ppq_out q) = ppq_outbox_count q"
    by (simp add: ppq_out_def)
  have limit: "ppm_length msg > pqs_max_payload (ppq_storage q) \<longleftrightarrow> unat (ppm_length msg) > ppq_max_payload q"
    by (simp add: ppq_max_payload_def word_less_nat_alt)
  let ?bad = "unat (ppm_length msg) > ppq_max_payload q \<or> (ppm_length msg > 0 \<and> ppm_data msg = None)"
  show ?thesis
  proof (cases ?bad)
    case True
    with parts(4) limit show ?thesis
      by (simp add: uni_can_protoplexer_queue_send_def)
  next
    case ok: False
    show ?thesis
    proof (cases "length (ppq_out q) + n > ppq_out_size q")
      case True
      with ok parts(4) limit count len show ?thesis
        by (simp add: uni_can_protoplexer_queue_send_def Let_def m_def [symmetric] ppq_out_size_def)
    next
      case False
      have "pp_msg_wf msg"
        using ok assms(2) by (cases "ppm_data msg") (auto simp: pp_msg_wf_def pp_payload_def word_gt_0)
      then obtain q' where "ppq_send_loop msg q [0..<n] = (q', PP_OK)"
        "ppq_out q' = ppq_out q @ map (pp_chunk msg (unat m)) [0..<n]" "ppq_out_wf q'" "ppq_in q' = ppq_in q"
        "ppq_in_wf q' = ppq_in_wf q" "ppq_protocol q' = ppq_protocol q" "ppq_protocol_wf q'"
        "ppq_initialized q' = ppq_initialized q" "ppq_send_attempts q' = ppq_send_attempts q"
        using send_loop_eq [of msg q "[0..<n]"] parts count False len
        by (auto simp: m_def [symmetric])
      moreover have eta: "\<lparr>ppm_message_id = ppm_message_id msg, ppm_address_from = ppm_address_from msg,
          ppm_address_to = ppm_address_to msg, ppm_priority_inverted = ppm_priority_inverted msg,
          ppm_length = ppm_length msg, ppm_data = ppm_data msg\<rparr> = msg"
        by simp
      ultimately show ?thesis
        using ok False parts limit count len
        by (simp add: uni_can_protoplexer_queue_send_def Let_def m_def [symmetric] ppq_out_size_def ppq_wf_def eta)
    qed
  qed
qed

lemma queue_send_ok:
  assumes "ppq_wf q" and "\<And>bs. ppm_data msg = Some bs \<Longrightarrow> length bs = unat (ppm_length msg)"
    and "unat (ppm_length msg) \<le> ppq_max_payload q" "ppm_length msg > 0 \<Longrightarrow> ppm_data msg \<noteq> None"
    and "length (ppq_out q) + uni_can_protoplexer_chunks_count (ppm_length msg) (ppc_max_chunk_length (ppq_protocol q))
      \<le> ppq_out_size q"
  shows "\<exists>q'. uni_can_protoplexer_queue_send (Some q) (ppm_message_id msg) (ppm_address_from msg)
      (ppm_address_to msg) (ppm_priority_inverted msg) (ppm_data msg) (ppm_length msg) = (Some q', PP_OK) \<and>
    ppq_wf q' \<and> ppq_out q' = ppq_out q @ map (pp_chunk msg (unat (ppc_max_chunk_length (ppq_protocol q))))
      [0..<uni_can_protoplexer_chunks_count (ppm_length msg) (ppc_max_chunk_length (ppq_protocol q))]"
proof -
  have "6 \<le> unat (ppc_max_chunk_length (ppq_protocol q))" "unat (ppc_max_chunk_length (ppq_protocol q)) \<le> 8"
    using assms(1) by (simp_all add: ppq_wf_def ppq_protocol_wf_def)
  from chunks_count_eq [OF this] queue_send_cases [OF assms(1,2)] assms(3-5) show ?thesis
    by (auto simp: not_less word_gt_0 split: if_splits)
qed

text \<open>
  C37. Sending is all or nothing. When the data is too long, or missing, or the outbox has no room
  for all chunks of the message, the call says so and the queue is unchanged; otherwise it returns
  OK, and exactly the chunks of the message, in their order, are appended to the outbox. Nothing
  else of the queue changes, and it stays well formed.
\<close>

theorem queue_send_all_or_nothing:
  assumes "ppq_wf q" and "\<And>bs. ppm_data msg = Some bs \<Longrightarrow> length bs = unat (ppm_length msg)"
  defines "m \<equiv> ppc_max_chunk_length (ppq_protocol q)"
  defines "n \<equiv> (6 + unat (ppm_length msg) + (unat m - 1)) div unat m"
  shows "\<exists>q' r. uni_can_protoplexer_queue_send (Some q) (ppm_message_id msg) (ppm_address_from msg)
      (ppm_address_to msg) (ppm_priority_inverted msg) (ppm_data msg) (ppm_length msg) = (Some q', r) \<and>
    (if unat (ppm_length msg) > ppq_max_payload q \<or> (ppm_length msg > 0 \<and> ppm_data msg = None) then r = PP_SEND_MSG_INVALID_SIZE \<and> q' = q
     else if length (ppq_out q) + n > ppq_out_size q
     then r = PP_SEND_MSG_CANT_ADD_MESSAGE_CHUNKS \<and> q' = q
     else r = PP_OK \<and> ppq_wf q' \<and> ppq_out q' = ppq_out q @ map (pp_chunk msg (unat m)) [0..<n] \<and>
       ppq_in q' = ppq_in q \<and> ppq_protocol q' = ppq_protocol q \<and> ppq_send_attempts q' = ppq_send_attempts q)"
  unfolding m_def n_def using assms(1,2) by (rule queue_send_cases)

theorem queue_send_all_or_nothing_witness:
  "\<exists>q'. uni_can_protoplexer_queue_send (Some ppq_example) 5 0x10 0x20 7 (Some [1, 2, 3]) 3 = (Some q', PP_OK) \<and>
    length (ppq_out q') = 2"
proof -
  have "unat (ppc_max_chunk_length (ppq_protocol ppq_example)) = 8" "ppq_max_payload ppq_example = 16"
    "ppq_out_size ppq_example = 4"
    by (simp_all add: ppq_example_def ppq_example_config_def ppq_example_storage_def ppq_access_defs ppq_storage_def
        pp_queue_zero_def pp_example_ctx_def)
  with queue_send_all_or_nothing [OF ppq_example_wf(1), of "\<lparr>ppm_message_id = 5, ppm_address_from = 0x10,
      ppm_address_to = 0x20, ppm_priority_inverted = 7, ppm_length = 3, ppm_data = Some [1, 2, 3]\<rparr>"]
  show ?thesis
    by (auto simp: ppq_example_wf)
qed

text \<open>Polling a number of times, with the results in their order.\<close>

fun poll_n ::
  "(uni_can_protoplexer_queue option \<Rightarrow> 'w \<Rightarrow> uni_can_protoplexer_queue option \<times> 'w \<times> uni_can_protoplexer_result)
    \<Rightarrow> nat \<Rightarrow> uni_can_protoplexer_queue option \<Rightarrow> 'w
    \<Rightarrow> uni_can_protoplexer_queue option \<times> 'w \<times> uni_can_protoplexer_result list" where
  "poll_n poll 0 q w = (q, w, [])"
| "poll_n poll (Suc n) q w =
     (case poll q w of (q, w, r) \<Rightarrow> (case poll_n poll n q w of (q, w, rs) \<Rightarrow> (q, w, r # rs)))"

text \<open>A network that takes every chunk and keeps them in order, and hands them out again.\<close>

definition wire :: "uni_can_message list pp_queue_callbacks" where
  "wire = \<lparr>pqb_send_chunk = Some (\<lambda>w c. (HW_OK, w @ [c])),
     pqb_receive_chunk = Some (\<lambda>w. case w of [] \<Rightarrow> (None, []) | c # cs \<Rightarrow> (Some c, cs)), pqb_rx_event = None\<rparr>"

lemma pop_others:
  "ppq_in ((uni_can_protoplexer_queue_outbox_pop q)\<lparr>ppq_send_attempts := a\<rparr>) = ppq_in q"
  "ppq_wf q \<Longrightarrow> 0 < ppq_outbox_count q \<Longrightarrow> ppq_wf ((uni_can_protoplexer_queue_outbox_pop q)\<lparr>ppq_send_attempts := a\<rparr>)"
  "ppq_out ((uni_can_protoplexer_queue_outbox_pop q)\<lparr>ppq_send_attempts := a\<rparr>) = ppq_out (uni_can_protoplexer_queue_outbox_pop q)"
proof -
  let ?q = "(uni_can_protoplexer_queue_outbox_pop q)\<lparr>ppq_send_attempts := a\<rparr>"
  have access: "ppq_outbox ?q = ppq_outbox (uni_can_protoplexer_queue_outbox_pop q)" "ppq_out_size ?q = ppq_out_size q"
    "ppq_inbox ?q = ppq_inbox q" "ppq_in_size ?q = ppq_in_size q" "ppq_max_payload ?q = ppq_max_payload q"
    "ppq_inbox_payload ?q = ppq_inbox_payload q"
    by (simp_all add: ppq_access_defs)
  show "ppq_in ?q = ppq_in q" and "ppq_out ?q = ppq_out (uni_can_protoplexer_queue_outbox_pop q)"
    by (rule ppq_same_in ppq_same_out; simp add: access)+
  have "ppq_in_wf ?q = ppq_in_wf q" "ppq_out_wf ?q = ppq_out_wf (uni_can_protoplexer_queue_outbox_pop q)"
    "ppq_protocol_wf ?q = ppq_protocol_wf q"
    by (rule ppq_same_in ppq_same_out ppq_same_protocol; simp add: access)+
  then show "ppq_wf q \<Longrightarrow> 0 < ppq_outbox_count q \<Longrightarrow> ppq_wf ?q"
    using outbox_pop_out(2) [of q] by (simp add: ppq_wf_def)
qed

lemma poll_tx_ok:
  assumes "ppq_wf q" "ppq_out q = c # cs" "pqb_send_chunk cb = Some send" "send w c = (HW_OK, w')"
  shows "\<exists>q'. uni_can_protoplexer_queue_poll_tx cb (Some q) w = (Some q', w', PP_OK) \<and>
    ppq_wf q' \<and> ppq_out q' = cs \<and> ppq_in q' = ppq_in q \<and> ppq_protocol q' = ppq_protocol q \<and> ppq_send_attempts q' = 0"
proof -
  let ?q = "(uni_can_protoplexer_queue_outbox_pop q)\<lparr>ppq_send_attempts := 0\<rparr>"
  have parts: "ppq_out_wf q" "ppq_initialized q"
    using assms(1) by (simp_all add: ppq_wf_def)
  have count: "0 < ppq_outbox_count q"
    using assms(2) ppq_out_Nil_iff [of q] by auto
  have head: "ppq_outbox q ! ppq_outbox_head q = c" "ppq_out (uni_can_protoplexer_queue_outbox_pop q) = cs"
    using outbox_pop_out(1) [OF parts(1) count] assms(2) by simp_all
  have "uni_can_protoplexer_queue_poll_tx cb (Some q) w = (Some ?q, w', PP_OK)"
    using parts(2) count assms(3,4) by (simp add: uni_can_protoplexer_queue_poll_tx_def head)
  with pop_others [where q = q and a = 0] assms(1) count head(2) show ?thesis
    by simp
qed

lemma poll_tx_drains:
  assumes "ppq_wf q"
  shows "\<exists>q'. poll_n (uni_can_protoplexer_queue_poll_tx wire) (length (ppq_out q)) (Some q) w =
      (Some q', w @ ppq_out q, replicate (length (ppq_out q)) PP_OK) \<and>
    ppq_wf q' \<and> ppq_out q' = [] \<and> ppq_in q' = ppq_in q \<and> ppq_protocol q' = ppq_protocol q \<and>
    uni_can_protoplexer_queue_poll_tx wire (Some q') w = (Some q', w, PP_POLLING_TX_BUFFER_EMPTY)"
  using assms
proof (induction "ppq_out q" arbitrary: q w)
  case Nil
  then show ?case
    using ppq_out_Nil_iff [of q] by (simp add: uni_can_protoplexer_queue_poll_tx_def flip: Nil.hyps)
next
  case (Cons c cs)
  obtain q1 where q1: "uni_can_protoplexer_queue_poll_tx wire (Some q) w = (Some q1, w @ [c], PP_OK)"
    "ppq_wf q1" "ppq_out q1 = cs" "ppq_in q1 = ppq_in q" "ppq_protocol q1 = ppq_protocol q"
    using poll_tx_ok [OF Cons.prems Cons.hyps(2) [symmetric], of wire "\<lambda>w c. (HW_OK, w @ [c])"]
    by (auto simp: wire_def)
  have empty: "uni_can_protoplexer_queue_poll_tx wire (Some q') w = (Some q', w, PP_POLLING_TX_BUFFER_EMPTY)"
    if "ppq_out q' = []" for q'
    using that by (simp add: uni_can_protoplexer_queue_poll_tx_def ppq_out_Nil_iff)
  from Cons.hyps(1) [of q1 "w @ [c]"] q1 obtain q2 where
    "poll_n (uni_can_protoplexer_queue_poll_tx wire) (length cs) (Some q1) (w @ [c]) =
      (Some q2, w @ [c] @ cs, replicate (length cs) PP_OK)"
    "ppq_wf q2" "ppq_out q2 = []" "ppq_in q2 = ppq_in q" "ppq_protocol q2 = ppq_protocol q"
    by auto
  with q1(1) empty show ?case
    by (simp flip: Cons.hyps(2))
qed

text \<open>
  The outbox is a queue: polling as often as there are chunks hands them to the network in the
  order they were queued, each exactly once, and empties the outbox; received messages and the
  protocol's state do not change. One more poll reports an empty buffer.
\<close>

theorem poll_tx_sends_in_order:
  assumes "ppq_wf q"
  shows "\<exists>q'. poll_n (uni_can_protoplexer_queue_poll_tx wire) (length (ppq_out q)) (Some q) w =
      (Some q', w @ ppq_out q, replicate (length (ppq_out q)) PP_OK) \<and>
    ppq_wf q' \<and> ppq_out q' = [] \<and> ppq_in q' = ppq_in q \<and> ppq_protocol q' = ppq_protocol q \<and>
    uni_can_protoplexer_queue_poll_tx wire (Some q') w = (Some q', w, PP_POLLING_TX_BUFFER_EMPTY)"
  using assms by (rule poll_tx_drains)

theorem poll_tx_sends_in_order_witness:
  "poll_n (uni_can_protoplexer_queue_poll_tx wire) 0 (Some ppq_example) [] = (Some ppq_example, [], [])"
  using poll_tx_sends_in_order [OF ppq_example_wf(1), of "[]"] by (simp add: ppq_example_wf(2))

lemma attempts_others:
  "ppq_in (q\<lparr>ppq_send_attempts := a\<rparr>) = ppq_in q" "ppq_out (q\<lparr>ppq_send_attempts := a\<rparr>) = ppq_out q"
  "ppq_wf (q\<lparr>ppq_send_attempts := a\<rparr>) = ppq_wf q"
proof -
  let ?q = "q\<lparr>ppq_send_attempts := a\<rparr>"
  have access: "ppq_outbox ?q = ppq_outbox q" "ppq_out_size ?q = ppq_out_size q"
    "ppq_inbox ?q = ppq_inbox q" "ppq_in_size ?q = ppq_in_size q" "ppq_max_payload ?q = ppq_max_payload q"
    "ppq_inbox_payload ?q = ppq_inbox_payload q"
    by (simp_all add: ppq_access_defs)
  show "ppq_in ?q = ppq_in q" and "ppq_out ?q = ppq_out q"
    by (rule ppq_same_in ppq_same_out; simp add: access)+
  have "ppq_in_wf ?q = ppq_in_wf q" "ppq_out_wf ?q = ppq_out_wf q" "ppq_protocol_wf ?q = ppq_protocol_wf q"
    by (rule ppq_same_in ppq_same_out ppq_same_protocol; simp add: access)+
  then show "ppq_wf ?q = ppq_wf q"
    by (simp add: ppq_wf_def)
qed

lemma poll_tx_resend:
  assumes "ppq_wf q" "ppq_out q = c # cs" "pqb_send_chunk cb = Some send" "\<And>w. fst (send w c) = HW_ERROR_RESEND_REQUIRED"
  shows "uni_can_protoplexer_queue_poll_tx cb (Some q) w =
    (if ppq_send_attempts q + 1 > pqc_send_attempts (ppq_config q)
     then (Some (q\<lparr>ppq_send_attempts := 0\<rparr>), snd (send w c), PP_HW_SEND_TOO_MANY_ATTEMPTS)
     else (Some (q\<lparr>ppq_send_attempts := ppq_send_attempts q + 1\<rparr>), snd (send w c), PP_OK))"
proof -
  have count: "0 < ppq_outbox_count q" and parts: "ppq_initialized q" "ppq_out_wf q"
    using assms(1,2) ppq_out_Nil_iff [of q] by (auto simp: ppq_wf_def)
  have "ppq_outbox q ! ppq_outbox_head q = c"
    using outbox_pop_out(1) [OF parts(2) count] assms(2) by simp
  moreover obtain w' where "send w c = (HW_ERROR_RESEND_REQUIRED, w')"
    using assms(4) by (metis prod.collapse)
  ultimately show ?thesis
    using assms(3) count parts(1) by (simp add: uni_can_protoplexer_queue_poll_tx_def Let_def)
qed

lemma poll_tx_resend_n:
  assumes "\<And>w. fst (send w c) = HW_ERROR_RESEND_REQUIRED" "pqb_send_chunk cb = Some send"
  shows "ppq_wf q \<Longrightarrow> ppq_out q = c # cs \<Longrightarrow> pqc_send_attempts (ppq_config q) < 0xFFFFFFFF \<Longrightarrow>
    unat (ppq_send_attempts q) + k = unat (pqc_send_attempts (ppq_config q)) \<Longrightarrow>
    poll_n (uni_can_protoplexer_queue_poll_tx cb) (Suc k) (Some q) w =
      (Some (q\<lparr>ppq_send_attempts := 0\<rparr>), ((\<lambda>w. snd (send w c)) ^^ Suc k) w, replicate k PP_OK @ [PP_HW_SEND_TOO_MANY_ATTEMPTS])"
proof (induction k arbitrary: q w)
  case 0
  then have "ppq_send_attempts q = pqc_send_attempts (ppq_config q)"
    by (simp add: word_unat_eq_iff)
  moreover have "pqc_send_attempts (ppq_config q) < pqc_send_attempts (ppq_config q) + 1"
    using 0(3) by (simp add: word_less_nat_alt unat_word_ariths)
  ultimately show ?case
    using poll_tx_resend [OF 0(1,2) assms(2,1), of w] by simp
next
  case (Suc k)
  let ?q = "q\<lparr>ppq_send_attempts := ppq_send_attempts q + 1\<rparr>"
  have succ: "unat (ppq_send_attempts q + 1) = Suc (unat (ppq_send_attempts q))"
    using Suc.prems(3,4) by (simp add: word_less_nat_alt unat_word_ariths)
  then have "\<not> pqc_send_attempts (ppq_config q) < ppq_send_attempts q + 1"
    using Suc.prems(4) by (simp add: word_less_nat_alt)
  then have "uni_can_protoplexer_queue_poll_tx cb (Some q) w = (Some ?q, snd (send w c), PP_OK)"
    using poll_tx_resend [OF Suc.prems(1,2) assms(2,1), of w] by simp
  moreover have "poll_n (uni_can_protoplexer_queue_poll_tx cb) (Suc k) (Some ?q) (snd (send w c)) =
      (Some (?q\<lparr>ppq_send_attempts := 0\<rparr>), ((\<lambda>w. snd (send w c)) ^^ Suc k) (snd (send w c)),
        replicate k PP_OK @ [PP_HW_SEND_TOO_MANY_ATTEMPTS])"
    by (rule Suc.IH) (use Suc.prems succ in \<open>simp_all add: attempts_others\<close>)
  moreover have "((\<lambda>w. snd (send w c)) ^^ Suc (Suc k)) w = ((\<lambda>w. snd (send w c)) ^^ Suc k) (snd (send w c))"
    by (subst funpow_Suc_right) simp
  ultimately show ?case
    by (simp del: funpow.simps)
qed

text \<open>
  C38. A network that asks for the chunk at the head of the outbox again gets that chunk at every poll and
  no other: as many polls as the configured number of attempts, less the attempts counted before, return
  OK, the next one reports \<open>HW_SEND_TOO_MANY_ATTEMPTS\<close>; then the counter starts anew, and the outbox, that
  chunk at its head, and the inbox are as before. (The bound excludes the configured value
  2^32 - 1, where the counter wraps before it can exceed the limit.)
\<close>

theorem poll_tx_reports_after_limit:
  assumes "ppq_wf q" "ppq_out q = c # cs" "ppq_send_attempts q \<le> pqc_send_attempts (ppq_config q)"
    and "pqc_send_attempts (ppq_config q) < 0xFFFFFFFF"
    and "pqb_send_chunk cb = Some send" "\<And>w. fst (send w c) = HW_ERROR_RESEND_REQUIRED"
    and left: "k = unat (pqc_send_attempts (ppq_config q)) - unat (ppq_send_attempts q)"
  shows "\<exists>q'. poll_n (uni_can_protoplexer_queue_poll_tx cb) (Suc k) (Some q) w =
      (Some q', ((\<lambda>w. snd (send w c)) ^^ Suc k) w, replicate k PP_OK @ [PP_HW_SEND_TOO_MANY_ATTEMPTS]) \<and>
    ppq_wf q' \<and> ppq_out q' = c # cs \<and> ppq_in q' = ppq_in q \<and> ppq_send_attempts q' = 0"
  using poll_tx_resend_n [OF assms(6,5,1,2,4), of k w] assms(1-3) left
  by (auto simp: attempts_others word_le_nat_alt)

text \<open>A network that is always busy, and keeps the chunks it was given.\<close>

definition busy_wire :: "uni_can_message list pp_queue_callbacks" where
  "busy_wire = \<lparr>pqb_send_chunk = Some (\<lambda>w c. (HW_ERROR_RESEND_REQUIRED, w @ [c])), pqb_receive_chunk = None,
     pqb_rx_event = None\<rparr>"

definition ppq_example_loaded :: uni_can_protoplexer_queue where
  "ppq_example_loaded = ppq_outbox_put ppq_example can_message_zero"

lemma ppq_example_loaded_wf: "ppq_wf ppq_example_loaded" "ppq_out ppq_example_loaded = [can_message_zero]"
proof -
  have "ppq_out_wf ppq_example" "ppq_outbox_count ppq_example < ppq_out_size ppq_example"
    using ppq_example_wf(1)
    by (simp_all add: ppq_wf_def) (simp add: ppq_example_def ppq_example_config_def ppq_example_storage_def
        ppq_access_defs ppq_storage_def pp_queue_zero_def)
  from outbox_put_out [OF this, of can_message_zero] outbox_put_others [of ppq_example can_message_zero] ppq_example_wf
  show "ppq_wf ppq_example_loaded" "ppq_out ppq_example_loaded = [can_message_zero]"
    by (simp_all add: ppq_wf_def ppq_example_loaded_def)
qed

theorem poll_tx_reports_after_limit_witness:
  "\<exists>q'. poll_n (uni_can_protoplexer_queue_poll_tx busy_wire) 4 (Some ppq_example_loaded) [] =
      (Some q', replicate 4 can_message_zero, [PP_OK, PP_OK, PP_OK, PP_HW_SEND_TOO_MANY_ATTEMPTS]) \<and>
    ppq_out q' = [can_message_zero]"
proof -
  have start: "ppq_send_attempts ppq_example_loaded = 0"
    and limit: "pqc_send_attempts (ppq_config ppq_example_loaded) = 3"
    by (simp_all add: ppq_example_loaded_def ppq_outbox_put_def ppq_set_storage_def Let_def)
      (simp_all add: ppq_example_def ppq_example_config_def pp_queue_zero_def)
  have sends: "pqb_send_chunk busy_wire = Some (\<lambda>w c. (HW_ERROR_RESEND_REQUIRED, w @ [c]))"
    by (simp add: busy_wire_def)
  from poll_tx_reports_after_limit [OF ppq_example_loaded_wf(1,2) _ _ sends, of 3 "[]"] start limit
  obtain q' where "poll_n (uni_can_protoplexer_queue_poll_tx busy_wire) (Suc 3) (Some ppq_example_loaded) [] =
      (Some q', ((\<lambda>w. w @ [can_message_zero]) ^^ Suc 3) [], replicate 3 PP_OK @ [PP_HW_SEND_TOO_MANY_ATTEMPTS])"
    "ppq_out q' = [can_message_zero]"
    by fastforce
  moreover have "((\<lambda>w. w @ [c]) ^^ Suc 3) [] = replicate 4 c" "replicate 3 r = [r, r, r]" for c :: uni_can_message and r :: 'r
    by (simp_all add: eval_nat_numeral)
  moreover have "Suc 3 = 4"
    by simp
  ultimately show ?thesis
    by (metis append_Cons append_Nil)
qed

lemma queue_add_chunk_initialized:
  "ppq_initialized q \<Longrightarrow> \<exists>q' r. uni_can_protoplexer_queue_add_chunk (Some q) c = (Some q', r) \<and> ppq_initialized q'"
  by (auto simp: uni_can_protoplexer_queue_add_chunk_def uni_can_protoplexer_queue_inbox_push_def Let_def
      split: prod.split option.split bool.split)

lemma poll_rx_feed:
  "ppq_initialized q \<Longrightarrow> poll_n (uni_can_protoplexer_queue_poll_rx wire) (length fs) (Some q) fs =
    (fst (queue_feed (Some q) fs), [], snd (queue_feed (Some q) fs))"
proof (induction fs arbitrary: q)
  case (Cons f fs)
  obtain q1 r where q1: "uni_can_protoplexer_queue_add_chunk (Some q) (Some f) = (Some q1, r)" "ppq_initialized q1"
    using queue_add_chunk_initialized [OF Cons.prems] by blast
  then have "uni_can_protoplexer_queue_poll_rx wire (Some q) (f # fs) = (Some q1, fs, r)"
    using Cons.prems by (simp add: uni_can_protoplexer_queue_poll_rx_def wire_def)
  with Cons.IH [OF q1(2)] q1(1) show ?case
    by (simp add: split_beta)
qed simp

text \<open>
  C3. Two queues on a wire. A message that one side sends and that fits its outbox and the other
  side's memory arrives: polling the sender as often as chunks were queued puts them on the wire,
  polling the receiver as often takes them off, every call returns OK, the receiver's inbox has
  gained exactly that message (identifier, addresses, priority, data), and the sender's outbox is
  empty again.
\<close>

theorem queue_end_to_end:
  assumes "ppq_wf a" "ppq_out a = []" "ppq_wf b"
    and "pp_sendable (pp_admits heap_none (ppq_protocol b)) msg" "ppm_length msg = 0 \<longleftrightarrow> ppm_data msg = None"
    and "ppm_address_to msg = ppc_own_address (ppq_protocol b) \<or> ppc_monitoring (ppq_protocol b)"
    and "unat (ppm_length msg) \<le> ppq_max_payload a"
    and "uni_can_protoplexer_chunks_count (ppm_length msg) (ppc_max_chunk_length (ppq_protocol a)) \<le> ppq_out_size a"
    and "length (ppq_in b) < ppq_in_size b"
    and "card (dom (pp_abs (ppq_protocol b))) < unat (ppc_max_channels (ppq_protocol b))"
  shows "\<exists>a1 a2 b' w n. uni_can_protoplexer_queue_send (Some a) (ppm_message_id msg) (ppm_address_from msg)
        (ppm_address_to msg) (ppm_priority_inverted msg) (ppm_data msg) (ppm_length msg) = (Some a1, PP_OK) \<and>
    poll_n (uni_can_protoplexer_queue_poll_tx wire) n (Some a1) [] = (Some a2, w, replicate n PP_OK) \<and>
    poll_n (uni_can_protoplexer_queue_poll_rx wire) n (Some b) w = (Some b', [], replicate n PP_OK) \<and>
    n = uni_can_protoplexer_chunks_count (ppm_length msg) (ppc_max_chunk_length (ppq_protocol a)) \<and>
    ppq_in b' = ppq_in b @ [msg] \<and> ppq_wf b' \<and> ppq_out a2 = [] \<and> ppq_wf a2"
proof -
  let ?m = "ppc_max_chunk_length (ppq_protocol a)"
  let ?n = "uni_can_protoplexer_chunks_count (ppm_length msg) ?m"
  let ?frames = "map (pp_chunk msg (unat ?m)) [0..<?n]"
  let ?admits = "pp_admits heap_none (ppq_protocol b)"
  let ?sig = "pp_signature (uni_can_protoplexer_canid_create (ppm_address_from msg) (ppm_address_to msg)
    (ppm_priority_inverted msg) True)"
  have m: "6 \<le> unat ?m" "unat ?m \<le> 8"
    using assms(1) by (simp_all add: ppq_wf_def ppq_protocol_wf_def)
  have count: "?n = (6 + unat (ppm_length msg) + (unat ?m - 1)) div unat ?m" "0 < ?n"
    using chunks_count_eq [OF m] chunks_count_pos [OF m] by simp_all
  have data: "length bs = unat (ppm_length msg)" if "ppm_data msg = Some bs" for bs
    using assms(4) that by (simp add: pp_sendable_def pp_msg_wf_def pp_payload_def)
  obtain a1 where a1: "uni_can_protoplexer_queue_send (Some a) (ppm_message_id msg) (ppm_address_from msg)
      (ppm_address_to msg) (ppm_priority_inverted msg) (ppm_data msg) (ppm_length msg) = (Some a1, PP_OK)"
    "ppq_wf a1" "ppq_out a1 = ?frames"
    using queue_send_ok [OF assms(1) data] assms(2,5,7,8) count(1) by (auto simp: word_gt_0)
  obtain a2 where a2: "poll_n (uni_can_protoplexer_queue_poll_tx wire) ?n (Some a1) [] =
      (Some a2, ?frames, replicate ?n PP_OK)" "ppq_wf a2" "ppq_out a2 = []"
    using poll_tx_drains [OF a1(2), of "[]"] by (auto simp: a1(3))
  have feed: "chan_feed ?admits st ?frames = replicate (?n - 1) (PP_OK, None) @ [(PP_OK, Some (pp_received msg))]" for st
    by (rule chan_feed_message [OF assms(4) m])
  have to: "ppm_address_to msg AND 0x0FFF = ppm_address_to msg"
    using assms(4) by (simp add: pp_sendable_def address_validD)
  have "\<exists>b'. queue_feed (Some b) ?frames = (Some b', map fst (chan_feed ?admits (pp_abs (ppq_protocol b) ?sig) ?frames)) \<and>
      ppq_wf b' \<and> ppq_out b' = ppq_out b \<and>
      ppq_in b' = ppq_in b @ delivered (chan_feed ?admits (pp_abs (ppq_protocol b) ?sig) ?frames)"
  proof (rule queue_feed_step [OF assms(3)])
    show "\<forall>f\<in>set ?frames. pp_frame_ok f \<and> pp_signature (cm_id f) = ?sig \<and>
        pp_addressed (ppc_own_address (ppq_protocol b)) (ppc_monitoring (ppq_protocol b)) f"
      using m(2) assms(6) to
      by (auto simp: pp_addressed_def intro: pp_signature_create)
    have "card (dom (pp_abs (ppq_protocol b)) - {?sig}) \<le> card (dom (pp_abs (ppq_protocol b)))"
      by (cases "finite (dom (pp_abs (ppq_protocol b)))") (auto intro: card_mono)
    then show "card (dom (pp_abs (ppq_protocol b)) - {?sig}) < unat (ppc_max_channels (ppq_protocol b))"
      using assms(10) by (rule le_less_trans)
    show "length (ppq_in b) + length (delivered (chan_feed ?admits (pp_abs (ppq_protocol b) ?sig) ?frames)) \<le> ppq_in_size b"
      using assms(9) by (simp add: feed)
  qed
  then obtain b' where b': "queue_feed (Some b) ?frames = (Some b', map fst (replicate (?n - 1) (PP_OK, None) @
      [(PP_OK, Some (pp_received msg))]))" "ppq_wf b'" "ppq_in b' = ppq_in b @ [pp_received msg]"
    unfolding feed by auto
  have results: "map fst (replicate (?n - 1) (PP_OK, None) @ [(PP_OK, Some (pp_received msg))]) = replicate ?n PP_OK"
    using count(2) by (cases ?n) (simp_all add: replicate_append_same)
  have "pp_received msg = msg"
    using assms(5) by (cases "ppm_data msg") (simp_all add: pp_received_def pp_payload_def)
  with b'(3) have "ppq_in b' = ppq_in b @ [msg]"
    by simp
  moreover have "poll_n (uni_can_protoplexer_queue_poll_rx wire) ?n (Some b) ?frames = (Some b', [], replicate ?n PP_OK)"
    using poll_rx_feed [of b ?frames] assms(3) b'(1) results by (simp add: ppq_wf_def)
  ultimately show ?thesis
    using a1(1) a2 b'(2)
    by (intro exI [of _ a1] exI [of _ a2] exI [of _ b'] exI [of _ ?frames] exI [of _ ?n]) simp
qed

theorem queue_end_to_end_witness:
  "\<exists>b' w. poll_n (uni_can_protoplexer_queue_poll_rx wire) 2 (Some ppq_example) w = (Some b', [], [PP_OK, PP_OK]) \<and>
    ppq_in b' = [pp_example]"
proof -
  have size: "ppq_max_payload ppq_example = 16" "ppq_out_size ppq_example = 4" "ppq_in_size ppq_example = 2"
    "ppc_max_chunk_length (ppq_protocol ppq_example) = 8" "unat (ppc_max_channels (ppq_protocol ppq_example)) = 2"
    "ppc_own_address (ppq_protocol ppq_example) = 0x20"
    by (simp_all add: ppq_example_def ppq_example_config_def ppq_example_storage_def ppq_access_defs ppq_storage_def
        pp_queue_zero_def pp_example_ctx_def)
  have admits: "pp_admits heap_none (ppq_protocol ppq_example) (ppm_length pp_example)"
    by (simp add: pp_admits_def ppq_example_def pp_queue_zero_def pp_example_ctx_def pp_example_def)
  have sendable: "pp_sendable (pp_admits heap_none (ppq_protocol ppq_example)) pp_example"
    using pp_example_sendable(1) admits by (simp add: pp_sendable_def)
  have msg: "ppm_length pp_example = 5" "ppm_data pp_example \<noteq> None" "ppm_address_to pp_example = 0x20"
    by (simp_all add: pp_example_def)
  have count: "uni_can_protoplexer_chunks_count 5 8 = 2"
    by (simp add: uni_can_protoplexer_chunks_count_def pp_const_defs Let_def)
  have two: "replicate 2 PP_OK = [PP_OK, PP_OK]"
    by (simp add: numeral_2_eq_2)
  show ?thesis
    using queue_end_to_end [OF ppq_example_wf(1,2,1) sendable] msg
    unfolding size count two ppq_example_wf by (auto simp: count two)
qed

lemma ppq_in_Nil_iff: "ppq_in q = [] \<longleftrightarrow> ppq_inbox_count q = 0"
  by (auto simp: ppq_in_def ring_list_def)

text \<open>An application that collects the messages it is given.\<close>

definition collector :: "uni_can_protoplexer_msg list pp_queue_callbacks" where
  "collector = \<lparr>pqb_send_chunk = None, pqb_receive_chunk = None, pqb_rx_event = Some (\<lambda>w q m. (q, w @ [m]))\<rparr>"

lemma poll_new_takes:
  assumes "ppq_wf q" "ppq_in q = m # ms" "pqb_rx_event cb = Some event" "event w q m = (q, w')"
  shows "\<exists>q'. uni_can_protoplexer_queue_poll_new cb (Some q) w = (Some q', w', PP_OK) \<and>
    ppq_wf q' \<and> ppq_in q' = ms \<and> ppq_out q' = ppq_out q"
proof -
  have parts: "ppq_in_wf q" "ppq_initialized q"
    using assms(1) by (simp_all add: ppq_wf_def)
  obtain q' where q': "ppq_inbox_take q = Some (m, q')" "ppq_in q' = ms" "ppq_in_wf q'"
    using inbox.pop_head [OF parts(1) assms(2)] by blast
  then have take: "ppq_inbox_count q \<noteq> 0" "ppq_slot_msg q (ppq_inbox q ! ppq_inbox_head q) = m"
    "q' = q\<lparr>ppq_inbox_head := (ppq_inbox_head q + 1) mod pqs_inbox_size (ppq_storage q),
      ppq_inbox_count := ppq_inbox_count q - 1\<rparr>"
    by (simp_all add: ppq_inbox_take_def split: if_splits)
  have access: "ppq_outbox q' = ppq_outbox q" "ppq_out_size q' = ppq_out_size q" "ppq_outbox_head q' = ppq_outbox_head q"
    "ppq_outbox_count q' = ppq_outbox_count q" "ppq_initialized q' = ppq_initialized q" "ppq_protocol q' = ppq_protocol q"
    "pqs_max_payload (ppq_storage q') = pqs_max_payload (ppq_storage q)"
    by (simp_all add: take(3) ppq_access_defs)
  have "ppq_wf q'"
    using assms(1) q'(3) ppq_same_out(2) [OF access(1-4)] ppq_same_protocol [OF access(6,7)] access(5)
    by (simp add: ppq_wf_def)
  moreover have "uni_can_protoplexer_queue_poll_new cb (Some q) w = (Some q', w', PP_OK)"
    using parts(2) take(1,2) assms(3,4) by (simp add: uni_can_protoplexer_queue_poll_new_def Let_def take(3))
  ultimately show ?thesis
    using q'(2) ppq_same_out(1) [OF access(1-4)] by simp
qed

text \<open>
  Received messages are handed to the application in the order they were completed, each once,
  with its data intact: polling as often as there are messages empties the inbox, and one more
  poll reports that there is no new message.
\<close>

theorem poll_new_hands_out_in_order:
  assumes "ppq_wf q"
  shows "\<exists>q'. poll_n (uni_can_protoplexer_queue_poll_new collector) (length (ppq_in q)) (Some q) w =
      (Some q', w @ ppq_in q, replicate (length (ppq_in q)) PP_OK) \<and>
    ppq_wf q' \<and> ppq_in q' = [] \<and> ppq_out q' = ppq_out q \<and>
    uni_can_protoplexer_queue_poll_new collector (Some q') w = (Some q', w, PP_POLLING_NEW_NO_NEW_MESSAGES)"
  using assms
proof (induction "ppq_in q" arbitrary: q w)
  case Nil
  then have "ppq_inbox_count q = 0"
    using ppq_in_Nil_iff [of q] by simp
  with Nil show ?case
    by (simp add: uni_can_protoplexer_queue_poll_new_def flip: Nil.hyps)
next
  case (Cons m ms)
  obtain q1 where q1: "uni_can_protoplexer_queue_poll_new collector (Some q) w = (Some q1, w @ [m], PP_OK)"
    "ppq_wf q1" "ppq_in q1 = ms" "ppq_out q1 = ppq_out q"
    using poll_new_takes [OF Cons.prems Cons.hyps(2) [symmetric], of collector "\<lambda>w q m. (q, w @ [m])"]
    by (auto simp: collector_def)
  have empty: "uni_can_protoplexer_queue_poll_new collector (Some q') w = (Some q', w, PP_POLLING_NEW_NO_NEW_MESSAGES)"
    if "ppq_in q' = []" for q'
    using that by (simp add: uni_can_protoplexer_queue_poll_new_def ppq_in_Nil_iff)
  from Cons.hyps(1) [of q1 "w @ [m]"] q1 obtain q2 where
    "poll_n (uni_can_protoplexer_queue_poll_new collector) (length ms) (Some q1) (w @ [m]) =
      (Some q2, w @ [m] @ ms, replicate (length ms) PP_OK)"
    "ppq_wf q2" "ppq_in q2 = []" "ppq_out q2 = ppq_out q"
    by auto
  with q1(1) empty show ?case
    by (simp flip: Cons.hyps(2))
qed

theorem poll_new_hands_out_in_order_witness:
  "uni_can_protoplexer_queue_poll_new collector (Some ppq_example) [] =
    (Some ppq_example, [], PP_POLLING_NEW_NO_NEW_MESSAGES)"
  using poll_new_hands_out_in_order [OF ppq_example_wf(1), of "[]"] by (auto simp: ppq_example_wf(3))

end
