(* ===== verification/Imp.thy ===== *)
theory Imp
  imports CanMessage CanId
begin

text \<open>
  The Intermodule Protocol, IMP (\<open>include/uni_can_protocol_imp.h\<close>,
  \<open>src/uni_can_protocol_imp.c\<close>): transfers of messages in sessions between two devices, with or
  without acknowledgement of every frame.

  A session is a record, and the functions on one session return it changed; a context holds the
  array of sessions, and a session of it is named by its index. The payload of a session is a null
  pointer or a block of \<open>payload_capacity\<close> bytes. The answers of \<open>malloc\<close> and \<open>calloc\<close> are arguments;
  \<open>realloc\<close> asks the same heap for a block and copies the old content, which is its documented
  behaviour. The message validator is a predicate; what it reads through \<open>user_data\<close> is part of it.
\<close>

section \<open>Types\<close>

definition UNI_CAN_IMP_DEVICE_ID_ALL :: u8 where "UNI_CAN_IMP_DEVICE_ID_ALL = 31"
definition UNI_CAN_IMP_DEVICE_ID_MAX :: u8 where "UNI_CAN_IMP_DEVICE_ID_MAX = 31"
definition UNI_CAN_IMP_DEFAULT_MAX_SESSIONS :: u16 where "UNI_CAN_IMP_DEFAULT_MAX_SESSIONS = 8"
definition UNI_CAN_IMP_DEFAULT_MAX_MESSAGE_SIZE :: u16 where "UNI_CAN_IMP_DEFAULT_MAX_MESSAGE_SIZE = 200"
definition UNI_CAN_IMP_DEFAULT_SESSION_TIMEOUT_MS :: u32 where "UNI_CAN_IMP_DEFAULT_SESSION_TIMEOUT_MS = 1000"

lemmas imp_const_defs =
  UNI_CAN_IMP_DEVICE_ID_ALL_def UNI_CAN_IMP_DEVICE_ID_MAX_def UNI_CAN_IMP_DEFAULT_MAX_SESSIONS_def
  UNI_CAN_IMP_DEFAULT_MAX_MESSAGE_SIZE_def UNI_CAN_IMP_DEFAULT_SESSION_TIMEOUT_MS_def

datatype uni_can_imp_msg_mode =
    IMP_WITH_ACK
  | IMP_WITHOUT_ACK
  | IMP_MODE_OTHER nat

text \<open>Commands are numbers in the CAN identifier; any value of five bits can arrive.\<close>

definition UNI_CAN_IMP_CMD_START :: u32 where "UNI_CAN_IMP_CMD_START = 0"
definition UNI_CAN_IMP_CMD_START_WA :: u32 where "UNI_CAN_IMP_CMD_START_WA = 1"
definition UNI_CAN_IMP_CMD_ACK :: u32 where "UNI_CAN_IMP_CMD_ACK = 2"
definition UNI_CAN_IMP_CMD_NACK :: u32 where "UNI_CAN_IMP_CMD_NACK = 3"
definition UNI_CAN_IMP_CMD_DATA :: u32 where "UNI_CAN_IMP_CMD_DATA = 4"
definition UNI_CAN_IMP_CMD_DATA_WA :: u32 where "UNI_CAN_IMP_CMD_DATA_WA = 5"
definition UNI_CAN_IMP_CMD_END :: u32 where "UNI_CAN_IMP_CMD_END = 6"
definition UNI_CAN_IMP_CMD_END_WA :: u32 where "UNI_CAN_IMP_CMD_END_WA = 7"
definition UNI_CAN_IMP_CMD_ABORT_WA :: u32 where "UNI_CAN_IMP_CMD_ABORT_WA = 8"

lemmas imp_cmd_defs =
  UNI_CAN_IMP_CMD_START_def UNI_CAN_IMP_CMD_START_WA_def UNI_CAN_IMP_CMD_ACK_def
  UNI_CAN_IMP_CMD_NACK_def UNI_CAN_IMP_CMD_DATA_def UNI_CAN_IMP_CMD_DATA_WA_def
  UNI_CAN_IMP_CMD_END_def UNI_CAN_IMP_CMD_END_WA_def UNI_CAN_IMP_CMD_ABORT_WA_def

datatype uni_can_imp_result =
    IMP_OK
  | IMP_FAILURE
  | IMP_INVALID_ARGUMENT
  | IMP_WRONG_ADDRESS
  | IMP_INVALID_FRAME
  | IMP_NO_FREE_SESSION
  | IMP_CANT_ALLOCATE
  | IMP_MESSAGE_TOO_LARGE
  | IMP_UNEXPECTED_COMMAND
  | IMP_MESSAGE_REJECTED

fun uni_can_imp_result_to_string :: "uni_can_imp_result \<Rightarrow> string" where
  "uni_can_imp_result_to_string IMP_OK = ''ok''"
| "uni_can_imp_result_to_string IMP_FAILURE = ''failure''"
| "uni_can_imp_result_to_string IMP_INVALID_ARGUMENT = ''invalid_argument''"
| "uni_can_imp_result_to_string IMP_WRONG_ADDRESS = ''wrong_address''"
| "uni_can_imp_result_to_string IMP_INVALID_FRAME = ''invalid_frame''"
| "uni_can_imp_result_to_string IMP_NO_FREE_SESSION = ''no_free_session''"
| "uni_can_imp_result_to_string IMP_CANT_ALLOCATE = ''cant_allocate''"
| "uni_can_imp_result_to_string IMP_MESSAGE_TOO_LARGE = ''message_too_large''"
| "uni_can_imp_result_to_string IMP_UNEXPECTED_COMMAND = ''unexpected_command''"
| "uni_can_imp_result_to_string IMP_MESSAGE_REJECTED = ''message_rejected''"

datatype uni_can_imp_event =
    IMP_EVENT_NONE
  | IMP_EVENT_TX_FINISHED
  | IMP_EVENT_TX_TIMEOUT
  | IMP_EVENT_TX_ABORTED
  | IMP_EVENT_RX_FINISHED
  | IMP_EVENT_RX_TIMEOUT
  | IMP_EVENT_RX_ABORTED

record uni_can_imp_msg =
  imm_mode :: uni_can_imp_msg_mode
  imm_address_from :: u8
  imm_address_to :: u8
  imm_session_id :: u8
  imm_length :: u16
  imm_data :: "u8 list option"

datatype uni_can_imp_session_state =
    IMP_SESSION_FREE
  | IMP_SESSION_RX
  | IMP_SESSION_TX_WITHOUT_ACK
  | IMP_SESSION_TX_WAIT_START_ACK
  | IMP_SESSION_TX_WAIT_DATA_ACK
  | IMP_SESSION_TX_WAIT_END_ACK

text \<open>The states are ordered as the enumeration lists them.\<close>

fun imp_state_value :: "uni_can_imp_session_state \<Rightarrow> nat" where
  "imp_state_value IMP_SESSION_FREE = 0"
| "imp_state_value IMP_SESSION_RX = 1"
| "imp_state_value IMP_SESSION_TX_WITHOUT_ACK = 2"
| "imp_state_value IMP_SESSION_TX_WAIT_START_ACK = 3"
| "imp_state_value IMP_SESSION_TX_WAIT_DATA_ACK = 4"
| "imp_state_value IMP_SESSION_TX_WAIT_END_ACK = 5"

instantiation uni_can_imp_session_state :: linorder
begin

definition "a \<le> b \<longleftrightarrow> imp_state_value a \<le> imp_state_value b"
definition "a < b \<longleftrightarrow> imp_state_value a < imp_state_value b"

instance
proof
  fix a b c :: uni_can_imp_session_state
  show "a < b \<longleftrightarrow> a \<le> b \<and> \<not> b \<le> a" "a \<le> a" "a \<le> b \<Longrightarrow> b \<le> c \<Longrightarrow> a \<le> c" "a \<le> b \<or> b \<le> a"
    by (auto simp: less_eq_uni_can_imp_session_state_def less_uni_can_imp_session_state_def)
  show "a \<le> b \<Longrightarrow> b \<le> a \<Longrightarrow> a = b"
    by (cases a; cases b) (simp_all add: less_eq_uni_can_imp_session_state_def)
qed

end

record uni_can_imp_session =
  ims_address_mask :: u32
  ims_state :: uni_can_imp_session_state
  ims_mode :: uni_can_imp_msg_mode
  ims_peer_address :: u8
  ims_local_address :: u8
  ims_session_id :: u8
  ims_last_data_length :: u8
  ims_payload :: "u8 list option"
  ims_payload_size :: u16
  ims_payload_capacity :: u16
  ims_payload_offset :: u16
  ims_last_activity_ms :: u32

text \<open>A session as \<open>memset\<close> leaves it, with its address mask put back.\<close>

definition imp_session_zero :: "u32 \<Rightarrow> uni_can_imp_session" where
  "imp_session_zero accepted = \<lparr>ims_address_mask = accepted, ims_state = IMP_SESSION_FREE, ims_mode = IMP_WITH_ACK,
     ims_peer_address = 0, ims_local_address = 0, ims_session_id = 0, ims_last_data_length = 0,
     ims_payload = None, ims_payload_size = 0, ims_payload_capacity = 0, ims_payload_offset = 0,
     ims_last_activity_ms = 0\<rparr>"

record uni_can_imp_config =
  imf_own_address :: u8
  imf_max_sessions :: u16
  imf_max_message_size :: u16
  imf_session_timeout_ms :: u32
  imf_session_address_masks :: "u32 list option"
  imf_session_address_masks_count :: nat
  imf_message_validator :: "(uni_can_imp_msg \<Rightarrow> bool) option"

record uni_can_imp_ctx =
  imc_own_address :: u8
  imc_max_sessions :: u16
  imc_max_message_size :: u16
  imc_session_timeout_ms :: u32
  imc_message_validator :: "(uni_can_imp_msg \<Rightarrow> bool) option"
  imc_sessions :: "uni_can_imp_session list option"

definition imp_ctx_zero :: uni_can_imp_ctx where
  "imp_ctx_zero = \<lparr>imc_own_address = 0, imc_max_sessions = 0, imc_max_message_size = 0,
     imc_session_timeout_ms = 0, imc_message_validator = None, imc_sessions = None\<rparr>"

record uni_can_imp_output =
  imo_frame_ready :: bool
  imo_frame :: uni_can_message
  imo_received_message :: "uni_can_imp_msg option"
  imo_event :: uni_can_imp_event
  imo_peer_address :: u8
  imo_session_id :: u8

definition imp_output_zero :: uni_can_imp_output where
  "imp_output_zero = \<lparr>imo_frame_ready = False, imo_frame = can_message_zero, imo_received_message = None,
     imo_event = IMP_EVENT_NONE, imo_peer_address = 0, imo_session_id = 0\<rparr>"


section \<open>Identifiers\<close>

definition uni_can_imp_canid_create :: "u8 \<Rightarrow> u8 \<Rightarrow> u8 \<Rightarrow> u32 \<Rightarrow> u32" where
  "uni_can_imp_canid_create address_from address_to session_id command =
     push_bit 24 (ucast address_to AND 0x1F) OR push_bit 19 (ucast address_from AND 0x1F) OR
     push_bit 15 (ucast session_id AND 0x0F) OR push_bit 10 (command AND 0x1F)"

definition uni_can_imp_canid_get_from :: "u32 \<Rightarrow> u8" where
  "uni_can_imp_canid_get_from can_id = ucast (drop_bit 19 can_id AND 0x1F)"

definition uni_can_imp_canid_get_to :: "u32 \<Rightarrow> u8" where
  "uni_can_imp_canid_get_to can_id = ucast (drop_bit 24 can_id AND 0x1F)"

definition uni_can_imp_canid_get_session_id :: "u32 \<Rightarrow> u8" where
  "uni_can_imp_canid_get_session_id can_id = ucast (drop_bit 15 can_id AND 0x0F)"

definition uni_can_imp_canid_get_command :: "u32 \<Rightarrow> u32" where
  "uni_can_imp_canid_get_command can_id = drop_bit 10 can_id AND 0x1F"


section \<open>Small helpers\<close>

definition uni_can_imp_address_valid :: "u8 \<Rightarrow> bool" where
  "uni_can_imp_address_valid address \<longleftrightarrow> address \<le> UNI_CAN_IMP_DEVICE_ID_MAX"

definition uni_can_imp_source_address_valid :: "u8 \<Rightarrow> bool" where
  "uni_can_imp_source_address_valid address \<longleftrightarrow>
     uni_can_imp_address_valid address \<and> address \<noteq> UNI_CAN_IMP_DEVICE_ID_ALL"

definition uni_can_imp_sessions :: "uni_can_imp_ctx \<Rightarrow> uni_can_imp_session list" where
  "uni_can_imp_sessions ctx = (case imc_sessions ctx of None \<Rightarrow> [] | Some ss \<Rightarrow> ss)"

text \<open>The sessions the loops of the code run over.\<close>

definition imp_array :: "uni_can_imp_ctx \<Rightarrow> uni_can_imp_session list" where
  "imp_array ctx = take (unat (imc_max_sessions ctx)) (uni_can_imp_sessions ctx)"

definition imp_put :: "uni_can_imp_ctx \<Rightarrow> nat \<Rightarrow> uni_can_imp_session \<Rightarrow> uni_can_imp_ctx" where
  "imp_put ctx i s = ctx\<lparr>imc_sessions := map_option (\<lambda>ss. ss[i := s]) (imc_sessions ctx)\<rparr>"

definition uni_can_imp_session_release :: "uni_can_imp_session \<Rightarrow> uni_can_imp_session" where
  "uni_can_imp_session_release session = imp_session_zero (ims_address_mask session)"

definition uni_can_imp_session_accepts :: "uni_can_imp_session \<Rightarrow> u8 \<Rightarrow> bool" where
  "uni_can_imp_session_accepts session peer_address \<longleftrightarrow>
     ims_address_mask session AND push_bit (unat peer_address) 1 \<noteq> 0"

definition uni_can_imp_find_session :: "uni_can_imp_ctx \<Rightarrow> u8 \<Rightarrow> u8 \<Rightarrow> u8 \<Rightarrow> nat option" where
  "uni_can_imp_find_session ctx peer_address local_address session_id =
     first_index (\<lambda>s. ims_state s \<noteq> IMP_SESSION_FREE \<and> ims_peer_address s = peer_address \<and>
       ims_local_address s = local_address \<and> ims_session_id s = session_id) (imp_array ctx)"

definition uni_can_imp_find_free_session :: "uni_can_imp_ctx \<Rightarrow> u8 \<Rightarrow> nat option" where
  "uni_can_imp_find_free_session ctx peer_address =
     first_index (\<lambda>s. ims_state s = IMP_SESSION_FREE \<and> uni_can_imp_session_accepts s peer_address) (imp_array ctx)"

definition uni_can_imp_session_is_tx :: "uni_can_imp_session \<Rightarrow> bool" where
  "uni_can_imp_session_is_tx session \<longleftrightarrow> ims_state session \<ge> IMP_SESSION_TX_WITHOUT_ACK"

definition uni_can_imp_command_without_ack :: "u32 \<Rightarrow> bool" where
  "uni_can_imp_command_without_ack command \<longleftrightarrow>
     command = UNI_CAN_IMP_CMD_START_WA \<or> command = UNI_CAN_IMP_CMD_DATA_WA \<or>
     command = UNI_CAN_IMP_CMD_END_WA \<or> command = UNI_CAN_IMP_CMD_ABORT_WA"

definition uni_can_imp_set_event ::
  "uni_can_imp_output \<Rightarrow> uni_can_imp_event \<Rightarrow> uni_can_imp_session \<Rightarrow> uni_can_imp_output" where
  "uni_can_imp_set_event output event session =
     output\<lparr>imo_event := event, imo_peer_address := ims_peer_address session,
            imo_session_id := ims_session_id session\<rparr>"

definition uni_can_imp_set_frame ::
  "uni_can_imp_ctx \<Rightarrow> uni_can_imp_output \<Rightarrow> u8 \<Rightarrow> u8 \<Rightarrow> u32 \<Rightarrow> u8 list \<Rightarrow> u8 \<Rightarrow> uni_can_imp_output" where
  "uni_can_imp_set_frame ctx output address_to session_id command data len =
     output\<lparr>imo_frame_ready := True,
            imo_frame := can_message_zero\<lparr>
              cm_id := uni_can_imp_canid_create (imc_own_address ctx) address_to session_id command,
              cm_flags := UNI_CAN_MSG_FLAG_EXT_ID,
              cm_len := ucast len,
              cm_data := Inline (blit (replicate UNI_CAN_MESSAGE_MAXLEN 0) 0 (take (unat len) data))\<rparr>\<rparr>"

definition c_realloc :: "heap \<Rightarrow> u8 list option \<Rightarrow> nat \<Rightarrow> u8 list option" where
  "c_realloc heap old n =
     map_option (\<lambda>block. blit block 0 (take n (case old of None \<Rightarrow> [] | Some bs \<Rightarrow> bs))) (heap n)"

definition uni_can_imp_session_copy_payload ::
  "heap \<Rightarrow> uni_can_imp_session \<Rightarrow> u8 list option \<Rightarrow> u16 \<Rightarrow> uni_can_imp_session \<times> uni_can_imp_result" where
  "uni_can_imp_session_copy_payload malloc session data len =
     (if len = 0 then (session, IMP_OK)
      else
        (case malloc (unat len) of
           None \<Rightarrow> (session\<lparr>ims_payload := None\<rparr>, IMP_CANT_ALLOCATE)
         | Some block \<Rightarrow>
             (session\<lparr>ims_payload := Some (blit block 0 (take (unat len) (case data of None \<Rightarrow> [] | Some bs \<Rightarrow> bs))),
                      ims_payload_size := len, ims_payload_capacity := len\<rparr>, IMP_OK)))"

text \<open>The bytes behind the payload pointer.\<close>

definition imp_payload :: "uni_can_imp_session \<Rightarrow> u8 list" where
  "imp_payload s = (case ims_payload s of None \<Rightarrow> [] | Some bs \<Rightarrow> bs)"

definition uni_can_imp_session_append ::
  "heap \<Rightarrow> uni_can_imp_ctx \<Rightarrow> uni_can_imp_session \<Rightarrow> u8 list \<Rightarrow> u16 \<Rightarrow> uni_can_imp_session \<times> uni_can_imp_result" where
  "uni_can_imp_session_append realloc ctx session data len =
     (let required = unat (ims_payload_size session) + unat len in
      if required > unat (imc_max_message_size ctx) then (session, IMP_MESSAGE_TOO_LARGE)
      else if len = 0 then (session, IMP_OK)
      else
        let grown =
          (if required > unat (ims_payload_capacity session) then
             let capacity = (if ims_payload_capacity session \<noteq> 0 then unat (ims_payload_capacity session) * 2 else 32);
                 capacity = (if capacity < required then required else capacity);
                 capacity = (if capacity > unat (imc_max_message_size ctx)
                             then unat (imc_max_message_size ctx) else capacity)
             in (case c_realloc realloc (ims_payload session) capacity of
                   None \<Rightarrow> None
                 | Some payload \<Rightarrow>
                     Some (session\<lparr>ims_payload := Some payload, ims_payload_capacity := of_nat capacity\<rparr>))
           else Some session)
        in (case grown of
              None \<Rightarrow> (session, IMP_CANT_ALLOCATE)
            | Some s \<Rightarrow>
                (s\<lparr>ims_payload := Some (blit (imp_payload s) (unat (ims_payload_size s)) (take (unat len) data)),
                   ims_payload_size := of_nat required\<rparr>, IMP_OK)))"


section \<open>Messages\<close>

definition uni_can_imp_msg_create ::
  "bool \<Rightarrow> heap \<Rightarrow> uni_can_imp_msg_mode \<Rightarrow> u8 \<Rightarrow> u8 \<Rightarrow> u8 list option \<Rightarrow> u16 \<Rightarrow> uni_can_imp_msg option" where
  "uni_can_imp_msg_create calloc_ok malloc mode address_from address_to data len =
     (if (mode \<noteq> IMP_WITH_ACK \<and> mode \<noteq> IMP_WITHOUT_ACK) \<or> \<not> uni_can_imp_source_address_valid address_from \<or>
         \<not> uni_can_imp_address_valid address_to \<or> (len > 0 \<and> data = None)
      then None
      else if \<not> calloc_ok then None
      else
        let message = \<lparr>imm_mode = (if address_to = UNI_CAN_IMP_DEVICE_ID_ALL then IMP_WITHOUT_ACK else mode),
              imm_address_from = address_from, imm_address_to = address_to, imm_session_id = 0,
              imm_length = len, imm_data = None\<rparr>
        in if len > 0 then
             (case malloc (unat len) of
                None \<Rightarrow> None
              | Some block \<Rightarrow>
                  Some (message\<lparr>imm_data :=
                    Some (blit block 0 (take (unat len) (case data of None \<Rightarrow> [] | Some bs \<Rightarrow> bs)))\<rparr>))
           else Some message)"

definition uni_can_imp_msg_free :: "uni_can_imp_msg option \<Rightarrow> released list" where
  "uni_can_imp_msg_free msg =
     (case msg of None \<Rightarrow> [] | Some m \<Rightarrow> [ReleasedData (imm_data m), ReleasedMessage])"


section \<open>Starting and ending\<close>

definition uni_can_imp_init ::
  "bool \<Rightarrow> uni_can_imp_ctx option \<Rightarrow> uni_can_imp_config option \<Rightarrow> uni_can_imp_ctx option \<times> bool" where
  "uni_can_imp_init calloc_ok ctx cfg =
     (case (ctx, cfg) of
        (Some _, Some cfg) \<Rightarrow>
          if \<not> uni_can_imp_source_address_valid (imf_own_address cfg) then (ctx, False)
          else
            let ctx = imp_ctx_zero\<lparr>imc_own_address := imf_own_address cfg,
                  imc_max_sessions := (if imf_max_sessions cfg \<noteq> 0 then imf_max_sessions cfg
                                       else UNI_CAN_IMP_DEFAULT_MAX_SESSIONS),
                  imc_max_message_size := (if imf_max_message_size cfg \<noteq> 0 then imf_max_message_size cfg
                                           else UNI_CAN_IMP_DEFAULT_MAX_MESSAGE_SIZE),
                  imc_session_timeout_ms := (if imf_session_timeout_ms cfg \<noteq> 0 then imf_session_timeout_ms cfg
                                             else UNI_CAN_IMP_DEFAULT_SESSION_TIMEOUT_MS),
                  imc_message_validator := imf_message_validator cfg\<rparr>
            in if \<not> calloc_ok then (Some imp_ctx_zero, False)
               else (Some (ctx\<lparr>imc_sessions := Some (map (\<lambda>i.
                       imp_session_zero (case imf_session_address_masks cfg of
                           Some masks \<Rightarrow> if i < imf_session_address_masks_count cfg then masks ! i else 0xFFFFFFFF
                         | None \<Rightarrow> 0xFFFFFFFF)) [0..<unat (imc_max_sessions ctx)])\<rparr>), True)
      | _ \<Rightarrow> (ctx, False))"

text \<open>The blocks \<open>deinit\<close> frees: the payload of every session, in their order.\<close>

definition uni_can_imp_deinit :: "uni_can_imp_ctx option \<Rightarrow> uni_can_imp_ctx option \<times> u8 list option list" where
  "uni_can_imp_deinit ctx =
     (case ctx of
        None \<Rightarrow> (None, [])
      | Some c \<Rightarrow> (Some imp_ctx_zero, map ims_payload (imp_array c)))"

definition uni_can_imp_output_clear :: "uni_can_imp_output option \<Rightarrow> uni_can_imp_output option" where
  "uni_can_imp_output_clear output = map_option (\<lambda>_. imp_output_zero) output"



section \<open>Frames of a session\<close>

definition uni_can_imp_emit_abort :: "uni_can_imp_ctx \<Rightarrow> uni_can_imp_output \<Rightarrow> u8 \<Rightarrow> u8 \<Rightarrow> uni_can_imp_output" where
  "uni_can_imp_emit_abort ctx output peer_address session_id =
     uni_can_imp_set_frame ctx output peer_address session_id UNI_CAN_IMP_CMD_ABORT_WA [] 0"

text \<open>A frame without data to the peer of the session.\<close>

definition imp_reply :: "uni_can_imp_ctx \<Rightarrow> uni_can_imp_output \<Rightarrow> uni_can_imp_session \<Rightarrow> u32 \<Rightarrow> uni_can_imp_output" where
  "imp_reply ctx output session command =
     uni_can_imp_set_frame ctx output (ims_peer_address session) (ims_session_id session) command [] 0"

text \<open>The length of the next piece of the payload, at most a frame.\<close>

definition imp_next_length :: "uni_can_imp_session \<Rightarrow> u8" where
  "imp_next_length session =
     (let bytes_left = ims_payload_size session - ims_payload_offset session
      in if unat bytes_left > UNI_CAN_MESSAGE_MAXLEN then of_nat UNI_CAN_MESSAGE_MAXLEN else ucast bytes_left)"

definition imp_payload_from_offset :: "uni_can_imp_session \<Rightarrow> u8 list" where
  "imp_payload_from_offset session = drop (unat (ims_payload_offset session)) (imp_payload session)"

definition uni_can_imp_emit_next_acked_frame ::
  "uni_can_imp_ctx \<Rightarrow> uni_can_imp_session \<Rightarrow> u32 \<Rightarrow> uni_can_imp_output \<Rightarrow> uni_can_imp_session \<times> uni_can_imp_output" where
  "uni_can_imp_emit_next_acked_frame ctx session now_ms output =
     (if ims_payload_offset session < ims_payload_size session then
        let len = imp_next_length session;
            session = session\<lparr>ims_last_data_length := len, ims_state := IMP_SESSION_TX_WAIT_DATA_ACK,
                              ims_last_activity_ms := now_ms\<rparr>
        in (session, uni_can_imp_set_frame ctx output (ims_peer_address session) (ims_session_id session)
                       UNI_CAN_IMP_CMD_DATA (imp_payload_from_offset session) len)
      else
        let session = session\<lparr>ims_state := IMP_SESSION_TX_WAIT_END_ACK, ims_last_activity_ms := now_ms\<rparr>
        in (session, imp_reply ctx output session UNI_CAN_IMP_CMD_END))"

definition uni_can_imp_resend_acked_frame ::
  "uni_can_imp_ctx \<Rightarrow> uni_can_imp_session \<Rightarrow> u32 \<Rightarrow> uni_can_imp_output \<Rightarrow> uni_can_imp_session \<times> uni_can_imp_output" where
  "uni_can_imp_resend_acked_frame ctx session now_ms output =
     (let session = session\<lparr>ims_last_activity_ms := now_ms\<rparr> in
      if ims_state session = IMP_SESSION_TX_WAIT_START_ACK then
        (session, imp_reply ctx output session UNI_CAN_IMP_CMD_START)
      else if ims_state session = IMP_SESSION_TX_WAIT_DATA_ACK then
        (session, uni_can_imp_set_frame ctx output (ims_peer_address session) (ims_session_id session)
                    UNI_CAN_IMP_CMD_DATA (imp_payload_from_offset session) (ims_last_data_length session))
      else (session, output))"

type_synonym imp_step = "uni_can_imp_session \<times> uni_can_imp_output \<times> uni_can_imp_result"

definition uni_can_imp_handle_tx_frame ::
  "uni_can_imp_ctx \<Rightarrow> uni_can_imp_session \<Rightarrow> u32 \<Rightarrow> u32 \<Rightarrow> uni_can_imp_output \<Rightarrow> imp_step" where
  "uni_can_imp_handle_tx_frame ctx session command now_ms output =
     (if command = UNI_CAN_IMP_CMD_ABORT_WA then
        (uni_can_imp_session_release session,
         uni_can_imp_set_event output IMP_EVENT_TX_ABORTED session, IMP_OK)
      else if command = UNI_CAN_IMP_CMD_NACK then
        (if ims_state session = IMP_SESSION_TX_WAIT_START_ACK \<or> ims_state session = IMP_SESSION_TX_WAIT_DATA_ACK
         then (case uni_can_imp_resend_acked_frame ctx session now_ms output of
                 (session, output) \<Rightarrow> (session, output, IMP_OK))
         else (uni_can_imp_session_release session,
               uni_can_imp_set_event output IMP_EVENT_TX_ABORTED session, IMP_MESSAGE_REJECTED))
      else if command \<noteq> UNI_CAN_IMP_CMD_ACK then
        (uni_can_imp_session_release session,
         uni_can_imp_set_event
           (uni_can_imp_emit_abort ctx output (ims_peer_address session) (ims_session_id session))
           IMP_EVENT_TX_ABORTED session,
         IMP_UNEXPECTED_COMMAND)
      else if ims_state session = IMP_SESSION_TX_WAIT_START_ACK then
        (case uni_can_imp_emit_next_acked_frame ctx session now_ms output of
           (session, output) \<Rightarrow> (session, output, IMP_OK))
      else if ims_state session = IMP_SESSION_TX_WAIT_DATA_ACK then
        (case uni_can_imp_emit_next_acked_frame ctx
                (session\<lparr>ims_payload_offset := ims_payload_offset session + ucast (ims_last_data_length session)\<rparr>)
                now_ms output of
           (session, output) \<Rightarrow> (session, output, IMP_OK))
      else if ims_state session = IMP_SESSION_TX_WAIT_END_ACK then
        (uni_can_imp_session_release session,
         uni_can_imp_set_event output IMP_EVENT_TX_FINISHED session, IMP_OK)
      else (session, output, IMP_UNEXPECTED_COMMAND))"

definition uni_can_imp_finish_rx ::
  "bool \<Rightarrow> heap \<Rightarrow> uni_can_imp_ctx \<Rightarrow> uni_can_imp_session \<Rightarrow> u32 \<Rightarrow> uni_can_imp_output \<Rightarrow> imp_step" where
  "uni_can_imp_finish_rx calloc_ok malloc ctx session command output =
     (let candidate = \<lparr>imm_mode = ims_mode session, imm_address_from = ims_peer_address session,
            imm_address_to = ims_local_address session, imm_session_id = ims_session_id session,
            imm_length = ims_payload_size session, imm_data = ims_payload session\<rparr>
      in
      if (case imc_message_validator ctx of None \<Rightarrow> False | Some valid \<Rightarrow> \<not> valid candidate) then
        (uni_can_imp_session_release session,
         uni_can_imp_set_event
           (if command = UNI_CAN_IMP_CMD_END then imp_reply ctx output session UNI_CAN_IMP_CMD_NACK else output)
           IMP_EVENT_RX_ABORTED session,
         IMP_MESSAGE_REJECTED)
      else
        (case uni_can_imp_msg_create calloc_ok malloc (imm_mode candidate) (imm_address_from candidate)
                (imm_address_to candidate) (imm_data candidate) (imm_length candidate) of
           None \<Rightarrow>
             (uni_can_imp_session_release session,
              uni_can_imp_set_event
                (if command = UNI_CAN_IMP_CMD_END
                 then uni_can_imp_emit_abort ctx output (ims_peer_address session) (ims_session_id session)
                 else output)
                IMP_EVENT_RX_ABORTED session,
              IMP_CANT_ALLOCATE)
         | Some message \<Rightarrow>
             (uni_can_imp_session_release session,
              uni_can_imp_set_event
                ((if command = UNI_CAN_IMP_CMD_END then imp_reply ctx output session UNI_CAN_IMP_CMD_ACK else output)
                   \<lparr>imo_received_message := Some (message\<lparr>imm_session_id := imm_session_id candidate\<rparr>)\<rparr>)
                IMP_EVENT_RX_FINISHED session,
              IMP_OK)))"

definition uni_can_imp_handle_rx_frame ::
  "bool \<Rightarrow> heap \<Rightarrow> uni_can_imp_ctx \<Rightarrow> uni_can_imp_session \<Rightarrow> uni_can_message \<Rightarrow> u32 \<Rightarrow> u32
    \<Rightarrow> uni_can_imp_output \<Rightarrow> imp_step" where
  "uni_can_imp_handle_rx_frame calloc_ok heap ctx session frame command now_ms output =
     (if command = UNI_CAN_IMP_CMD_ABORT_WA then
        (uni_can_imp_session_release session,
         uni_can_imp_set_event output IMP_EVENT_RX_ABORTED session, IMP_OK)
      else if command = UNI_CAN_IMP_CMD_START \<or> command = UNI_CAN_IMP_CMD_START_WA then
        (let session = session\<lparr>ims_payload := None, ims_payload_size := 0, ims_payload_capacity := 0,
               ims_payload_offset := 0,
               ims_mode := (if command = UNI_CAN_IMP_CMD_START then IMP_WITH_ACK else IMP_WITHOUT_ACK),
               ims_last_activity_ms := now_ms\<rparr>
         in (session,
             (if command = UNI_CAN_IMP_CMD_START \<and> ims_local_address session \<noteq> UNI_CAN_IMP_DEVICE_ID_ALL
              then imp_reply ctx output session UNI_CAN_IMP_CMD_ACK else output),
             IMP_OK))
      else if command = UNI_CAN_IMP_CMD_DATA \<or> command = UNI_CAN_IMP_CMD_DATA_WA then
        (case uni_can_imp_session_append heap ctx session (data_u8 (cm_data frame)) (cm_len frame) of
           (session, IMP_OK) \<Rightarrow>
             (let session = session\<lparr>ims_last_activity_ms := now_ms\<rparr>
              in (session,
                  (if command = UNI_CAN_IMP_CMD_DATA then imp_reply ctx output session UNI_CAN_IMP_CMD_ACK else output),
                  IMP_OK))
         | (session, result) \<Rightarrow>
             (uni_can_imp_session_release session,
              uni_can_imp_set_event
                (if command = UNI_CAN_IMP_CMD_DATA
                 then uni_can_imp_emit_abort ctx output (ims_peer_address session) (ims_session_id session)
                 else output)
                IMP_EVENT_RX_ABORTED session,
              result))
      else if command = UNI_CAN_IMP_CMD_END \<or> command = UNI_CAN_IMP_CMD_END_WA then
        uni_can_imp_finish_rx calloc_ok heap ctx session command output
      else
        (uni_can_imp_session_release session,
         uni_can_imp_set_event
           (uni_can_imp_emit_abort ctx output (ims_peer_address session) (ims_session_id session))
           IMP_EVENT_RX_ABORTED session,
         IMP_UNEXPECTED_COMMAND))"


section \<open>Calls\<close>

text \<open>The ids taken by transfers to a peer, and the loop that looks for a free one.\<close>

definition imp_reserved_ids :: "uni_can_imp_ctx \<Rightarrow> u8 \<Rightarrow> nat set" where
  "imp_reserved_ids ctx address_to =
     set (map (\<lambda>s. unat (drop_bit 1 (ims_session_id s)))
       (filter (\<lambda>s. uni_can_imp_session_is_tx s \<and> ims_peer_address s = address_to) (imp_array ctx)))"

definition imp_unique_id :: "nat set \<Rightarrow> nat option" where
  "imp_unique_id reserved = first_index (\<lambda>k. k \<notin> reserved) [0..<8]"

type_synonym imp_call = "uni_can_imp_ctx option \<times> uni_can_imp_output option \<times> uni_can_imp_result"

definition uni_can_imp_start_send ::
  "heap \<Rightarrow> uni_can_imp_ctx option \<Rightarrow> uni_can_imp_msg option \<Rightarrow> u32 \<Rightarrow> uni_can_imp_output option \<Rightarrow> imp_call" where
  "uni_can_imp_start_send malloc ctx msg now_ms output =
     (case (ctx, msg, output) of
        (Some c, Some msg, Some _) \<Rightarrow>
          if imc_sessions c = None then (ctx, output, IMP_INVALID_ARGUMENT)
          else
            let out = imp_output_zero in
            if imm_mode msg \<noteq> IMP_WITH_ACK \<and> imm_mode msg \<noteq> IMP_WITHOUT_ACK then
              (ctx, Some out, IMP_INVALID_ARGUMENT)
            else if imm_address_from msg \<noteq> imc_own_address c \<or> \<not> uni_can_imp_address_valid (imm_address_to msg)
                    \<or> imm_address_to msg = imc_own_address c \<or> imm_length msg > imc_max_message_size c
                    \<or> (imm_length msg > 0 \<and> imm_data msg = None)
            then (ctx, Some out,
                  if imm_length msg > imc_max_message_size c then IMP_MESSAGE_TOO_LARGE else IMP_WRONG_ADDRESS)
            else
              (case uni_can_imp_find_free_session c (imm_address_to msg) of
                 None \<Rightarrow> (ctx, Some out, IMP_NO_FREE_SESSION)
               | Some i \<Rightarrow>
                   (case imp_unique_id (imp_reserved_ids c (imm_address_to msg)) of
                      None \<Rightarrow> (ctx, Some out, IMP_NO_FREE_SESSION)
                    | Some unique_id \<Rightarrow>
                        let s = (imp_session_zero (ims_address_mask (uni_can_imp_sessions c ! i)))
                              \<lparr>ims_peer_address := imm_address_to msg, ims_local_address := imc_own_address c,
                               ims_session_id := push_bit 1 (of_nat unique_id) OR
                                 (if imc_own_address c > imm_address_to msg then 1 else 0),
                               ims_mode := (if imm_address_to msg = UNI_CAN_IMP_DEVICE_ID_ALL
                                            then IMP_WITHOUT_ACK else imm_mode msg),
                               ims_last_activity_ms := now_ms\<rparr>
                        in (case uni_can_imp_session_copy_payload malloc s (imm_data msg) (imm_length msg) of
                              (s, IMP_OK) \<Rightarrow>
                                (let (s, out) =
                                       (if ims_mode s = IMP_WITHOUT_ACK
                                        then (s\<lparr>ims_state := IMP_SESSION_TX_WITHOUT_ACK\<rparr>,
                                              imp_reply c out s UNI_CAN_IMP_CMD_START_WA)
                                        else (s\<lparr>ims_state := IMP_SESSION_TX_WAIT_START_ACK\<rparr>,
                                              imp_reply c out s UNI_CAN_IMP_CMD_START))
                                 in (Some (imp_put c i s),
                                     Some (out\<lparr>imo_peer_address := ims_peer_address s,
                                               imo_session_id := ims_session_id s\<rparr>), IMP_OK))
                            | (s, err) \<Rightarrow>
                                (Some (imp_put c i (uni_can_imp_session_release s)), Some out, err))))
      | _ \<Rightarrow> (ctx, output, IMP_INVALID_ARGUMENT))"

text \<open>The session a frame belongs to; a start of a transfer takes a free one.\<close>

definition imp_session_for ::
  "uni_can_imp_ctx \<Rightarrow> u8 \<Rightarrow> u8 \<Rightarrow> u8 \<Rightarrow> u32 \<Rightarrow> u32 \<Rightarrow> uni_can_imp_ctx \<times> nat option" where
  "imp_session_for ctx address_from address_to session_id command now_ms =
     (case uni_can_imp_find_session ctx address_from address_to session_id of
        Some i \<Rightarrow> (ctx, Some i)
      | None \<Rightarrow>
          if command = UNI_CAN_IMP_CMD_START \<or> command = UNI_CAN_IMP_CMD_START_WA then
            (case uni_can_imp_find_free_session ctx address_from of
               None \<Rightarrow> (ctx, None)
             | Some i \<Rightarrow>
                 (imp_put ctx i ((imp_session_zero (ims_address_mask (uni_can_imp_sessions ctx ! i)))
                    \<lparr>ims_state := IMP_SESSION_RX,
                     ims_mode := (if command = UNI_CAN_IMP_CMD_START then IMP_WITH_ACK else IMP_WITHOUT_ACK),
                     ims_peer_address := address_from, ims_local_address := address_to,
                     ims_session_id := session_id, ims_last_activity_ms := now_ms\<rparr>), Some i))
          else (ctx, None))"

definition uni_can_imp_add_frame ::
  "bool \<Rightarrow> heap \<Rightarrow> uni_can_imp_ctx option \<Rightarrow> uni_can_message option \<Rightarrow> u32 \<Rightarrow> uni_can_imp_output option
    \<Rightarrow> imp_call" where
  "uni_can_imp_add_frame calloc_ok heap ctx frame now_ms output =
     (case (ctx, frame, output) of
        (Some c, Some frame, Some _) \<Rightarrow>
          if imc_sessions c = None then (ctx, output, IMP_INVALID_ARGUMENT)
          else
            let out = imp_output_zero in
            if unat (cm_len frame) > UNI_CAN_MESSAGE_MAXLEN then (ctx, Some out, IMP_INVALID_FRAME)
            else
              let address_to = uni_can_imp_canid_get_to (cm_id frame);
                  address_from = uni_can_imp_canid_get_from (cm_id frame);
                  session_id = uni_can_imp_canid_get_session_id (cm_id frame);
                  command = uni_can_imp_canid_get_command (cm_id frame)
              in
              if (address_to \<noteq> imc_own_address c \<and> address_to \<noteq> UNI_CAN_IMP_DEVICE_ID_ALL) \<or>
                 \<not> uni_can_imp_source_address_valid address_from
              then (ctx, Some out, IMP_WRONG_ADDRESS)
              else if command > UNI_CAN_IMP_CMD_ABORT_WA then (ctx, Some out, IMP_INVALID_FRAME)
              else if address_to = UNI_CAN_IMP_DEVICE_ID_ALL \<and> \<not> uni_can_imp_command_without_ack command
              then (ctx, Some out, IMP_INVALID_FRAME)
              else
                (case imp_session_for c address_from address_to session_id command now_ms of
                   (c, None) \<Rightarrow>
                     (Some c,
                      Some (if \<not> uni_can_imp_command_without_ack command
                            then uni_can_imp_emit_abort c out address_from session_id else out),
                      IMP_NO_FREE_SESSION)
                 | (c, Some i) \<Rightarrow>
                     let s = uni_can_imp_sessions c ! i in
                     (case (if uni_can_imp_session_is_tx s
                            then uni_can_imp_handle_tx_frame c s command now_ms out
                            else uni_can_imp_handle_rx_frame calloc_ok heap c s frame command now_ms out) of
                        (s, out, res) \<Rightarrow> (Some (imp_put c i s), Some out, res)))
      | _ \<Rightarrow> (ctx, output, IMP_INVALID_ARGUMENT))"

definition imp_timed_out :: "uni_can_imp_ctx \<Rightarrow> u32 \<Rightarrow> uni_can_imp_session \<Rightarrow> bool" where
  "imp_timed_out ctx now_ms s \<longleftrightarrow>
     (ims_state s = IMP_SESSION_RX \<or> ims_state s = IMP_SESSION_TX_WAIT_START_ACK \<or>
      ims_state s = IMP_SESSION_TX_WAIT_DATA_ACK \<or> ims_state s = IMP_SESSION_TX_WAIT_END_ACK) \<and>
     now_ms - ims_last_activity_ms s > imc_session_timeout_ms ctx"

definition uni_can_imp_process ::
  "uni_can_imp_ctx option \<Rightarrow> u32 \<Rightarrow> uni_can_imp_output option \<Rightarrow> imp_call" where
  "uni_can_imp_process ctx now_ms output =
     (case (ctx, output) of
        (Some c, Some _) \<Rightarrow>
          if imc_sessions c = None then (ctx, output, IMP_INVALID_ARGUMENT)
          else
            let out = imp_output_zero in
            (case first_index (imp_timed_out c now_ms) (imp_array c) of
               Some i \<Rightarrow>
                 (let s = uni_can_imp_sessions c ! i in
                  (Some (imp_put c i (uni_can_imp_session_release s)),
                   Some (uni_can_imp_set_event out
                     (if ims_state s = IMP_SESSION_RX then IMP_EVENT_RX_TIMEOUT else IMP_EVENT_TX_TIMEOUT) s),
                   IMP_OK))
             | None \<Rightarrow>
                 (case first_index (\<lambda>s. ims_state s = IMP_SESSION_TX_WITHOUT_ACK) (imp_array c) of
                    None \<Rightarrow> (ctx, Some out, IMP_OK)
                  | Some i \<Rightarrow>
                      let s = uni_can_imp_sessions c ! i in
                      if ims_payload_offset s < ims_payload_size s then
                        let len = imp_next_length s in
                        (Some (imp_put c i (s\<lparr>ims_payload_offset := ims_payload_offset s + ucast len\<rparr>)),
                         Some ((uni_can_imp_set_frame c out (ims_peer_address s) (ims_session_id s)
                                  UNI_CAN_IMP_CMD_DATA_WA (imp_payload_from_offset s) len)
                                 \<lparr>imo_peer_address := ims_peer_address s, imo_session_id := ims_session_id s\<rparr>),
                         IMP_OK)
                      else
                        (Some (imp_put c i (uni_can_imp_session_release s)),
                         Some (uni_can_imp_set_event (imp_reply c out s UNI_CAN_IMP_CMD_END_WA)
                                 IMP_EVENT_TX_FINISHED s),
                         IMP_OK)))
      | _ \<Rightarrow> (ctx, output, IMP_INVALID_ARGUMENT))"

end
