(* ===== verification/ImpInvariant.thy ===== *)
theory ImpInvariant
  imports Imp
begin

text \<open>
  What always holds of an IMP context: the memory of every session has the size its fields say and
  never exceeds the configured maximum, a free session holds nothing of the transfer before it, an
  outgoing transfer never reads past its payload, and outgoing transfers to one peer have different
  session identifiers whose lowest bit tells the two devices apart. The identifiers of the CAN
  frames are interpreted as a \<open>canid_codec\<close>.
\<close>

section \<open>Identifiers\<close>

lemma bit_imp_canid_create:
  "bit (uni_can_imp_canid_create f t s c) n \<longleftrightarrow>
    (24 \<le> n \<and> n < 29 \<and> bit t (n - 24)) \<or> (19 \<le> n \<and> n < 24 \<and> bit f (n - 19)) \<or>
    (15 \<le> n \<and> n < 19 \<and> bit s (n - 15)) \<or> (10 \<le> n \<and> n < 15 \<and> bit c (n - 10))"
proof -
  have widths: "n < 29 \<and> n < 32 \<and> P \<longleftrightarrow> n < 29 \<and> P" "n < 24 \<and> n < 32 \<and> P \<longleftrightarrow> n < 24 \<and> P"
    "n < 19 \<and> n < 32 \<and> P \<longleftrightarrow> n < 19 \<and> P" "n < 15 \<and> n < 32 \<and> P \<longleftrightarrow> n < 15 \<and> P" for P
    by linarith+
  show ?thesis
    unfolding uni_can_imp_canid_create_def masks
    by (simp only: bit_or_iff fields bit_field_put_same [of 10 c] len_bit0 len_num1) (simp add: widths disj_assoc)
qed

lemma imp_canid_get_create [simp]:
  "uni_can_imp_canid_get_from (uni_can_imp_canid_create f t s c) = f AND 0x1F"
  "uni_can_imp_canid_get_to (uni_can_imp_canid_create f t s c) = t AND 0x1F"
  "uni_can_imp_canid_get_session_id (uni_can_imp_canid_create f t s c) = s AND 0x0F"
  "uni_can_imp_canid_get_command (uni_can_imp_canid_create f t s c) = c AND 0x1F"
  unfolding uni_can_imp_canid_get_from_def uni_can_imp_canid_get_to_def uni_can_imp_canid_get_session_id_def
    uni_can_imp_canid_get_command_def masks
  by (rule bit_word_eqI; auto simp: fields bit_drop_bit_eq bit_imp_canid_create)+

lemma imp_canid_29_bits: "unat (uni_can_imp_canid_create f t s c) < 2 ^ 29"
proof -
  have "take_bit 29 (uni_can_imp_canid_create f t s c) = uni_can_imp_canid_create f t s c"
    by (rule bit_word_eqI) (auto simp: bit_take_bit_iff bit_imp_canid_create)
  then show ?thesis
    by (metis take_bit_nat_less_exp unsigned_take_bit_eq)
qed

definition imp_id_encode :: "u8 \<times> u8 \<times> u8 \<times> u32 \<Rightarrow> u32" where
  "imp_id_encode = (\<lambda>(f, t, s, c). uni_can_imp_canid_create f t s c)"

definition imp_id_decode :: "u32 \<Rightarrow> u8 \<times> u8 \<times> u8 \<times> u32" where
  "imp_id_decode can_id = (uni_can_imp_canid_get_from can_id, uni_can_imp_canid_get_to can_id,
     uni_can_imp_canid_get_session_id can_id, uni_can_imp_canid_get_command can_id)"

definition imp_id_fits :: "u8 \<times> u8 \<times> u8 \<times> u32 \<Rightarrow> bool" where
  "imp_id_fits = (\<lambda>(f, t, s, c). f \<le> 0x1F \<and> t \<le> 0x1F \<and> s \<le> 0x0F \<and> c \<le> 0x1F)"

lemma u8_and_5_bits: "(w :: u8) \<le> 0x1F \<Longrightarrow> w AND 0x1F = w"
  unfolding masks by (rule and_numeral_mask_self) (simp add: word_le_nat_alt mask_eq_exp_minus_1)

lemma u32_and_5_bits: "(w :: u32) \<le> 0x1F \<Longrightarrow> w AND 0x1F = w"
  unfolding masks by (rule and_numeral_mask_self) (simp add: word_le_nat_alt mask_eq_exp_minus_1)

interpretation imp_id: canid_codec imp_id_encode imp_id_decode imp_id_fits
  by unfold_locales
    (auto simp: imp_id_encode_def imp_id_decode_def imp_id_fits_def u8_and_4_bits u8_and_5_bits u32_and_5_bits
      intro: imp_canid_29_bits [simplified])


section \<open>Invariant\<close>

definition imp_session_ok :: "u16 \<Rightarrow> u8 \<Rightarrow> uni_can_imp_session \<Rightarrow> bool" where
  "imp_session_ok limit own s \<longleftrightarrow>
     length (imp_payload s) = unat (ims_payload_capacity s) \<and> (ims_payload_capacity s = 0 \<longleftrightarrow> ims_payload s = None) \<and>
     ims_payload_size s \<le> ims_payload_capacity s \<and> ims_payload_capacity s \<le> limit \<and>
     (ims_state s = IMP_SESSION_FREE \<longrightarrow> s = imp_session_zero (ims_address_mask s)) \<and>
     (uni_can_imp_session_is_tx s \<longrightarrow>
        ims_payload_offset s \<le> ims_payload_size s \<and> ims_local_address s = own \<and> ims_session_id s \<le> 15 \<and>
        (bit (ims_session_id s) 0 \<longleftrightarrow> own > ims_peer_address s)) \<and>
     (ims_state s = IMP_SESSION_TX_WAIT_DATA_ACK \<longrightarrow>
        ims_last_data_length s \<le> 8 \<and>
        unat (ims_payload_offset s) + unat (ims_last_data_length s) \<le> unat (ims_payload_size s))"

definition imp_tx_distinct :: "uni_can_imp_session list \<Rightarrow> bool" where
  "imp_tx_distinct ss \<longleftrightarrow>
     (\<forall>i<length ss. \<forall>j<length ss. uni_can_imp_session_is_tx (ss ! i) \<and> uni_can_imp_session_is_tx (ss ! j) \<and>
        ims_peer_address (ss ! i) = ims_peer_address (ss ! j) \<and>
        ims_session_id (ss ! i) = ims_session_id (ss ! j) \<longrightarrow> i = j)"

definition imp_wf :: "uni_can_imp_ctx \<Rightarrow> bool" where
  "imp_wf c \<longleftrightarrow>
     imc_sessions c \<noteq> None \<and> length (uni_can_imp_sessions c) = unat (imc_max_sessions c) \<and>
     (\<forall>s\<in>set (uni_can_imp_sessions c). imp_session_ok (imc_max_message_size c) (imc_own_address c) s) \<and>
     imp_tx_distinct (uni_can_imp_sessions c) \<and> uni_can_imp_source_address_valid (imc_own_address c)"

lemma imp_is_tx_states:
  "uni_can_imp_session_is_tx s \<longleftrightarrow> ims_state s \<in> {IMP_SESSION_TX_WITHOUT_ACK, IMP_SESSION_TX_WAIT_START_ACK,
     IMP_SESSION_TX_WAIT_DATA_ACK, IMP_SESSION_TX_WAIT_END_ACK}"
  by (cases "ims_state s")
    (simp_all add: uni_can_imp_session_is_tx_def less_eq_uni_can_imp_session_state_def)

lemma tx_not_free: "uni_can_imp_session_is_tx s \<Longrightarrow> ims_state s \<noteq> IMP_SESSION_FREE"
  by (auto simp: imp_is_tx_states)

lemma imp_is_tx_updates [simp]:
  "uni_can_imp_session_is_tx (s\<lparr>ims_last_activity_ms := n\<rparr>) = uni_can_imp_session_is_tx s"
  "uni_can_imp_session_is_tx (s\<lparr>ims_payload_offset := w\<rparr>) = uni_can_imp_session_is_tx s"
  "uni_can_imp_session_is_tx (s\<lparr>ims_payload_size := w\<rparr>) = uni_can_imp_session_is_tx s"
  "uni_can_imp_session_is_tx (s\<lparr>ims_payload_capacity := w\<rparr>) = uni_can_imp_session_is_tx s"
  "uni_can_imp_session_is_tx (s\<lparr>ims_payload := p\<rparr>) = uni_can_imp_session_is_tx s"
  "uni_can_imp_session_is_tx (s\<lparr>ims_mode := m\<rparr>) = uni_can_imp_session_is_tx s"
  by (simp_all add: uni_can_imp_session_is_tx_def)

lemma imp_is_tx_state_update [simp]:
  "uni_can_imp_session_is_tx (s\<lparr>ims_state := st\<rparr>) \<longleftrightarrow> IMP_SESSION_TX_WITHOUT_ACK \<le> st"
  "uni_can_imp_session_is_tx (s\<lparr>ims_state := st, ims_last_activity_ms := n\<rparr>) \<longleftrightarrow> IMP_SESSION_TX_WITHOUT_ACK \<le> st"
  "uni_can_imp_session_is_tx (s\<lparr>ims_last_data_length := l, ims_state := st, ims_last_activity_ms := n\<rparr>) \<longleftrightarrow>
    IMP_SESSION_TX_WITHOUT_ACK \<le> st"
  by (simp_all add: uni_can_imp_session_is_tx_def)

lemma imp_tx_states [simp]:
  "IMP_SESSION_TX_WITHOUT_ACK \<le> IMP_SESSION_TX_WAIT_START_ACK"
  "IMP_SESSION_TX_WITHOUT_ACK \<le> IMP_SESSION_TX_WAIT_DATA_ACK"
  "IMP_SESSION_TX_WITHOUT_ACK \<le> IMP_SESSION_TX_WAIT_END_ACK"
  "\<not> IMP_SESSION_TX_WITHOUT_ACK \<le> IMP_SESSION_RX" "\<not> IMP_SESSION_TX_WITHOUT_ACK \<le> IMP_SESSION_FREE"
  by (simp_all add: less_eq_uni_can_imp_session_state_def)

lemma imp_session_zero_fields [simp]:
  "ims_state (imp_session_zero a) = IMP_SESSION_FREE" "ims_payload (imp_session_zero a) = None"
  "ims_address_mask (imp_session_zero a) = a" "ims_payload_size (imp_session_zero a) = 0"
  "ims_payload_capacity (imp_session_zero a) = 0" "ims_payload_offset (imp_session_zero a) = 0"
  "ims_last_data_length (imp_session_zero a) = 0"
  by (simp_all add: imp_session_zero_def)

lemma imp_session_zero_ok [simp]: "imp_session_ok limit own (imp_session_zero a)"
  by (simp add: imp_session_ok_def imp_payload_def imp_is_tx_states)

lemma imp_release_ok [simp]: "imp_session_ok limit own (uni_can_imp_session_release s)"
  by (simp add: uni_can_imp_session_release_def)

lemma imp_release_not_tx [simp]: "\<not> uni_can_imp_session_is_tx (uni_can_imp_session_release s)"
  by (simp add: uni_can_imp_session_release_def imp_is_tx_states)

lemma imp_put_simps [simp]:
  "imc_own_address (imp_put c i s) = imc_own_address c" "imc_max_sessions (imp_put c i s) = imc_max_sessions c"
  "imc_max_message_size (imp_put c i s) = imc_max_message_size c"
  "imc_session_timeout_ms (imp_put c i s) = imc_session_timeout_ms c"
  "imc_message_validator (imp_put c i s) = imc_message_validator c"
  "imc_sessions (imp_put c i s) = None \<longleftrightarrow> imc_sessions c = None"
  "uni_can_imp_sessions (imp_put c i s) = (uni_can_imp_sessions c)[i := s]"
  by (simp_all add: imp_put_def uni_can_imp_sessions_def split: option.split)

lemma imp_put_put [simp]: "imp_put (imp_put c i s) i t = imp_put c i t"
  by (cases "imc_sessions c") (simp_all add: imp_put_def)

lemma imp_array_wf: "imp_wf c \<Longrightarrow> imp_array c = uni_can_imp_sessions c"
  by (simp add: imp_array_def imp_wf_def)

text \<open>Replacing a session keeps the invariant if the new one is in order and takes no foreign id.\<close>

lemma imp_put_wf:
  assumes "imp_wf c" "imp_session_ok (imc_max_message_size c) (imc_own_address c) s"
    and "\<And>j. uni_can_imp_session_is_tx s \<Longrightarrow> j < length (uni_can_imp_sessions c) \<Longrightarrow> j \<noteq> i \<Longrightarrow>
      uni_can_imp_session_is_tx (uni_can_imp_sessions c ! j) \<Longrightarrow>
      ims_peer_address (uni_can_imp_sessions c ! j) = ims_peer_address s \<Longrightarrow>
      ims_session_id (uni_can_imp_sessions c ! j) \<noteq> ims_session_id s"
  shows "imp_wf (imp_put c i s)"
proof -
  let ?ss = "uni_can_imp_sessions c"
  have "imp_tx_distinct (?ss[i := s])"
    unfolding imp_tx_distinct_def
  proof (intro allI impI)
    fix a b
    assume ab: "a < length (?ss[i := s])" "b < length (?ss[i := s])"
      and eq: "uni_can_imp_session_is_tx (?ss[i := s] ! a) \<and> uni_can_imp_session_is_tx (?ss[i := s] ! b) \<and>
        ims_peer_address (?ss[i := s] ! a) = ims_peer_address (?ss[i := s] ! b) \<and>
        ims_session_id (?ss[i := s] ! a) = ims_session_id (?ss[i := s] ! b)"
    show "a = b"
    proof (cases "a = i"; cases "b = i")
      assume "a \<noteq> i" "b \<noteq> i"
      with ab eq assms(1) show ?thesis
        by (auto simp: imp_wf_def imp_tx_distinct_def)
    next
      assume "a = i" "b \<noteq> i"
      with ab eq assms(3) [of b] show ?thesis
        by auto
    next
      assume "a \<noteq> i" "b = i"
      with ab eq assms(3) [of a] show ?thesis
        by auto
    qed simp
  qed
  moreover have "\<forall>x\<in>set (?ss[i := s]). imp_session_ok (imc_max_message_size c) (imc_own_address c) x"
    using assms(1,2) set_list_update_subset [of ?ss i s] by (auto simp: imp_wf_def)
  ultimately show ?thesis
    using assms(1) by (simp add: imp_wf_def)
qed

text \<open>A step on session \<open>i\<close> that keeps what identifies an outgoing transfer.\<close>

lemma imp_put_same_transfer:
  assumes "imp_wf c" "i < length (uni_can_imp_sessions c)" "imp_session_ok (imc_max_message_size c) (imc_own_address c) s"
    and "uni_can_imp_session_is_tx s \<Longrightarrow> uni_can_imp_session_is_tx (uni_can_imp_sessions c ! i) \<and>
      ims_peer_address s = ims_peer_address (uni_can_imp_sessions c ! i) \<and>
      ims_session_id s = ims_session_id (uni_can_imp_sessions c ! i)"
  shows "imp_wf (imp_put c i s)"
proof (rule imp_put_wf [OF assms(1,3)])
  fix j
  assume "uni_can_imp_session_is_tx s" "j < length (uni_can_imp_sessions c)" "j \<noteq> i"
    "uni_can_imp_session_is_tx (uni_can_imp_sessions c ! j)"
    "ims_peer_address (uni_can_imp_sessions c ! j) = ims_peer_address s"
  with assms(1,2,4) show "ims_session_id (uni_can_imp_sessions c ! j) \<noteq> ims_session_id s"
    by (auto simp: imp_wf_def imp_tx_distinct_def)
qed


section \<open>The steps of a session keep it\<close>

lemma imp_next_length_bounds:
  assumes "ims_payload_offset s < ims_payload_size s"
  shows "imp_next_length s \<le> 8" "0 < imp_next_length s"
    "unat (imp_next_length s) = min 8 (unat (ims_payload_size s) - unat (ims_payload_offset s))"
proof -
  let ?left = "ims_payload_size s - ims_payload_offset s"
  have left: "unat ?left = unat (ims_payload_size s) - unat (ims_payload_offset s)" "0 < unat ?left"
    using assms by (simp_all add: word_less_nat_alt unat_sub_if')
  have len: "unat (imp_next_length s) = min 8 (unat ?left)"
  proof (cases "unat ?left > 8")
    case True
    then show ?thesis
      by (simp add: imp_next_length_def Let_def UNI_CAN_MESSAGE_MAXLEN_def)
  next
    case False
    then have "unat (ucast ?left :: u8) = unat ?left"
      by (simp add: unsigned_ucast_eq take_bit_nat_eq_self)
    with False show ?thesis
      by (simp add: imp_next_length_def Let_def UNI_CAN_MESSAGE_MAXLEN_def)
  qed
  then show "unat (imp_next_length s) = min 8 (unat (ims_payload_size s) - unat (ims_payload_offset s))"
    by (simp only: left)
  show "imp_next_length s \<le> 8" "0 < imp_next_length s"
    using len left(2) by (simp_all add: word_le_nat_alt word_less_nat_alt)
qed

lemma emit_next_ok:
  assumes "imp_session_ok limit own s" "uni_can_imp_session_is_tx s"
    and "uni_can_imp_emit_next_acked_frame c s now out = (s', out')"
  shows "imp_session_ok limit own s' \<and> ims_peer_address s' = ims_peer_address s \<and>
    ims_session_id s' = ims_session_id s"
proof (cases "ims_payload_offset s < ims_payload_size s")
  case True
  have s': "s' = s\<lparr>ims_last_data_length := imp_next_length s, ims_state := IMP_SESSION_TX_WAIT_DATA_ACK,
      ims_last_activity_ms := now\<rparr>"
    using True assms(3) by (simp add: uni_can_imp_emit_next_acked_frame_def Let_def)
  have "unat (ims_payload_offset s) + unat (imp_next_length s) \<le> unat (ims_payload_size s)"
    using True imp_next_length_bounds(3) [OF True] by (simp add: word_less_nat_alt)
  with assms(1,2) imp_next_length_bounds(1) [OF True] show ?thesis
    by (simp add: s' imp_session_ok_def imp_payload_def)
next
  case False
  then have "s' = s\<lparr>ims_state := IMP_SESSION_TX_WAIT_END_ACK, ims_last_activity_ms := now\<rparr>"
    using assms(3) by (simp add: uni_can_imp_emit_next_acked_frame_def Let_def)
  with assms(1,2) show ?thesis
    by (simp add: imp_session_ok_def imp_payload_def)
qed

text \<open>The session after a frame for an outgoing transfer.\<close>

lemma resend_session:
  "fst (uni_can_imp_resend_acked_frame c s now out) = s\<lparr>ims_last_activity_ms := now\<rparr>"
  by (simp add: uni_can_imp_resend_acked_frame_def Let_def)

lemma handle_tx_session:
  "fst (uni_can_imp_handle_tx_frame c s command now out) =
    (if command = UNI_CAN_IMP_CMD_ABORT_WA then uni_can_imp_session_release s
     else if command = UNI_CAN_IMP_CMD_NACK then
       (if ims_state s = IMP_SESSION_TX_WAIT_START_ACK \<or> ims_state s = IMP_SESSION_TX_WAIT_DATA_ACK
        then s\<lparr>ims_last_activity_ms := now\<rparr> else uni_can_imp_session_release s)
     else if command \<noteq> UNI_CAN_IMP_CMD_ACK then uni_can_imp_session_release s
     else if ims_state s = IMP_SESSION_TX_WAIT_START_ACK
     then fst (uni_can_imp_emit_next_acked_frame c s now out)
     else if ims_state s = IMP_SESSION_TX_WAIT_DATA_ACK
     then fst (uni_can_imp_emit_next_acked_frame c
       (s\<lparr>ims_payload_offset := ims_payload_offset s + ucast (ims_last_data_length s)\<rparr>) now out)
     else if ims_state s = IMP_SESSION_TX_WAIT_END_ACK then uni_can_imp_session_release s else s)"
  by (simp add: uni_can_imp_handle_tx_frame_def prod.case_eq_if resend_session)

lemma handle_tx_ok:
  assumes ok: "imp_session_ok limit own s" and tx: "uni_can_imp_session_is_tx s"
    and run: "uni_can_imp_handle_tx_frame c s command now out = (s', out', r)"
  shows "imp_session_ok limit own s' \<and> (uni_can_imp_session_is_tx s' \<longrightarrow>
    ims_peer_address s' = ims_peer_address s \<and> ims_session_id s' = ims_session_id s)"
proof -
  let ?t = "s\<lparr>ims_payload_offset := ims_payload_offset s + ucast (ims_last_data_length s)\<rparr>"
  have advance: "imp_session_ok limit own (?t\<lparr>ims_state := IMP_SESSION_TX_WAIT_START_ACK\<rparr>)"
    if "ims_state s = IMP_SESSION_TX_WAIT_DATA_ACK"
  proof -
    have "unat (ims_payload_offset s) + unat (ims_last_data_length s) \<le> unat (ims_payload_size s)"
      using ok that by (simp add: imp_session_ok_def)
    then have "unat (ims_payload_offset s + ucast (ims_last_data_length s)) \<le> unat (ims_payload_size s)"
      using unat_add_le [of "ims_payload_offset s" "ucast (ims_last_data_length s)"] by simp
    with ok tx that show ?thesis
      by (simp add: imp_session_ok_def imp_payload_def word_le_nat_alt)
  qed
  have start: "uni_can_imp_emit_next_acked_frame c (t\<lparr>ims_state := x\<rparr>) now out = uni_can_imp_emit_next_acked_frame c t now out"
    for t x
    by (simp add: uni_can_imp_emit_next_acked_frame_def Let_def imp_next_length_def imp_payload_from_offset_def
        imp_payload_def imp_reply_def)
  have s': "s' = fst (uni_can_imp_handle_tx_frame c s command now out)"
    by (simp add: run)
  consider (release) "s' = uni_can_imp_session_release s"
    | (same) "s' = s" | (again) "s' = s\<lparr>ims_last_activity_ms := now\<rparr>"
    | (first) "s' = fst (uni_can_imp_emit_next_acked_frame c s now out)"
    | (step) "ims_state s = IMP_SESSION_TX_WAIT_DATA_ACK" "s' = fst (uni_can_imp_emit_next_acked_frame c ?t now out)"
    using s' unfolding handle_tx_session by argo
  then show ?thesis
  proof cases
    case first
    with emit_next_ok [OF ok tx] show ?thesis by (metis prod.collapse)
  next
    case step
    let ?u = "?t\<lparr>ims_state := IMP_SESSION_TX_WAIT_START_ACK\<rparr>"
    have "uni_can_imp_emit_next_acked_frame c ?u now out = (s', snd (uni_can_imp_emit_next_acked_frame c ?t now out))"
      unfolding start step(2) by simp
    from emit_next_ok [OF advance [OF step(1)] _ this] show ?thesis
      by (simp add: imp_is_tx_states)
  next
    case again
    with ok tx tx_not_free [OF tx] show ?thesis
      by (simp add: imp_session_ok_def imp_payload_def)
  qed (use ok in simp_all)
qed

text \<open>Appending to an incoming transfer; the frame holds the bytes it announces.\<close>

definition imp_capacity :: "u16 \<Rightarrow> uni_can_imp_session \<Rightarrow> nat \<Rightarrow> nat" where
  "imp_capacity limit s need =
     min (unat limit) (max need (if ims_payload_capacity s \<noteq> 0 then unat (ims_payload_capacity s) * 2 else 32))"

text \<open>The block and the capacity the new bytes are copied into.\<close>

definition imp_grown :: "heap \<Rightarrow> u16 \<Rightarrow> uni_can_imp_session \<Rightarrow> nat \<Rightarrow> (u8 list \<times> u16) option" where
  "imp_grown h limit s need =
     (if need > unat (ims_payload_capacity s)
      then map_option (\<lambda>p. (p, of_nat (imp_capacity limit s need))) (c_realloc h (ims_payload s) (imp_capacity limit s need))
      else Some (imp_payload s, ims_payload_capacity s))"

lemma append_cases:
  "uni_can_imp_session_append h c s data len =
    (let need = unat (ims_payload_size s) + unat len in
     if need > unat (imc_max_message_size c) then (s, IMP_MESSAGE_TOO_LARGE)
     else if len = 0 then (s, IMP_OK)
     else (case imp_grown h (imc_max_message_size c) s need of
             None \<Rightarrow> (s, IMP_CANT_ALLOCATE)
           | Some (p, cap) \<Rightarrow> (s\<lparr>ims_payload := Some (blit p (unat (ims_payload_size s)) (take (unat len) data)),
               ims_payload_capacity := cap, ims_payload_size := of_nat need\<rparr>, IMP_OK)))"
proof -
  have cap: "(let k = (if ims_payload_capacity s \<noteq> 0 then unat (ims_payload_capacity s) * 2 else 32);
      k = (if k < need then need else k) in if k > lim then lim else k) =
    min lim (max need (if ims_payload_capacity s \<noteq> 0 then unat (ims_payload_capacity s) * 2 else 32))" for need lim
    by (auto simp: Let_def)
  show ?thesis
    unfolding uni_can_imp_session_append_def Let_def imp_grown_def imp_capacity_def cap [unfolded Let_def, symmetric]
    by (auto simp: imp_payload_def split: option.split)
qed

lemma grown_block:
  assumes ok: "imp_session_ok limit own s" and need: "need \<le> unat limit" "unat (ims_payload_size s) \<le> need"
    and heap: "heap_ok h" and run: "imp_grown h limit s need = Some (p, cap)"
  shows "length p = unat cap \<and> need \<le> unat cap \<and> unat cap \<le> unat limit \<and>
    take (unat (ims_payload_size s)) p = take (unat (ims_payload_size s)) (imp_payload s)"
proof (cases "need > unat (ims_payload_capacity s)")
  case False
  then show ?thesis
    using run ok by (simp add: imp_grown_def imp_session_ok_def word_le_nat_alt)
next
  case True
  let ?k = "imp_capacity limit s need"
  have k: "need \<le> ?k" "?k \<le> unat limit"
    using need(1) by (auto simp: imp_capacity_def)
  then have cap: "unat (of_nat ?k :: u16) = ?k"
    using unat_u16_less [of limit] by (intro unat_of_nat_u16) simp
  obtain block where block: "h ?k = Some block" "p = blit block 0 (take ?k (imp_payload s))" "cap = of_nat ?k"
    using run True by (auto simp: imp_grown_def c_realloc_def imp_payload_def)
  then have "length block = ?k" "length (imp_payload s) \<le> ?k"
    using heap ok True k(1) by (auto simp: imp_session_ok_def dest: heap_okD)
  with block cap k ok need(2) show ?thesis
    by (simp add: blit_def imp_session_ok_def word_le_nat_alt)
qed

lemma append_result:
  assumes ok: "imp_session_ok (imc_max_message_size c) own s" and rx: "ims_state s = IMP_SESSION_RX"
    and data: "unat len \<le> length data" and heap: "heap_ok h"
    and run: "uni_can_imp_session_append h c s data len = (s', r)"
  shows "if r = IMP_OK
    then (\<exists>p cap. s' = s\<lparr>ims_payload := p, ims_payload_capacity := cap, ims_payload_size := ims_payload_size s + len\<rparr>) \<and>
      unat (ims_payload_size s') = unat (ims_payload_size s) + unat len \<and>
      imp_session_ok (imc_max_message_size c) own s' \<and>
      take (unat (ims_payload_size s')) (imp_payload s') = take (unat (ims_payload_size s)) (imp_payload s) @ take (unat len) data
    else s' = s"
proof -
  define need where "need = unat (ims_payload_size s) + unat len"
  let ?lim = "unat (imc_max_message_size c)" and ?size = "unat (ims_payload_size s)"
  have eq: "of_nat need = ims_payload_size s + len"
    by (simp add: need_def)
  consider (large) "need > ?lim" | (none) "need \<le> ?lim" "len = 0"
    | (failed) "need \<le> ?lim" "len \<noteq> 0" "imp_grown h (imc_max_message_size c) s need = None"
    | (grown) p cap where "need \<le> ?lim" "len \<noteq> 0" "imp_grown h (imc_max_message_size c) s need = Some (p, cap)"
    by fastforce
  then show ?thesis
  proof cases
    case large
    then show ?thesis
      using run by (auto simp: append_cases need_def)
  next
    case none
    then have "s' = s" "r = IMP_OK"
      using run by (auto simp: append_cases need_def)
    then show ?thesis
      using ok none(2) by (auto intro!: exI [of _ "ims_payload s"] exI [of _ "ims_payload_capacity s"])
  next
    case failed
    then show ?thesis
      using run by (auto simp: append_cases need_def)
  next
    case grown
    note g = grown_block [OF ok grown(1) _ heap grown(3), unfolded need_def, simplified]
    let ?p = "blit p ?size (take (unat len) data)"
    have s': "s' = s\<lparr>ims_payload := Some ?p, ims_payload_capacity := cap, ims_payload_size := ims_payload_size s + len\<rparr>" "r = IMP_OK"
      using run grown eq by (auto simp: append_cases need_def [symmetric])
    have size: "unat (ims_payload_size s + len) = need"
      using grown(1) unat_u16_less [of "imc_max_message_size c"] unat_of_nat_u16 [of need] by (simp add: eq)
    have len: "length ?p = unat cap" "take need ?p = take ?size p @ take (unat len) data"
      using g data take_blit_prefix [of ?size p "take (unat len) data"] by (simp_all add: need_def)
    have "need > 0"
      using grown(2) by (simp add: need_def unat_gt_0)
    then have "cap \<noteq> 0"
      using g by (auto simp: need_def)
    with ok rx len(1) g size have "imp_session_ok (imc_max_message_size c) own s'"
      by (auto simp: s' imp_session_ok_def imp_payload_def word_le_nat_alt imp_is_tx_states need_def)
    with s' size len(2) g show ?thesis
      by (auto simp: imp_payload_def need_def)
  qed
qed

lemma finish_rx_session: "fst (uni_can_imp_finish_rx calloc_ok h c s command out) = uni_can_imp_session_release s"
  by (simp add: uni_can_imp_finish_rx_def Let_def split: option.split)

text \<open>A frame for an incoming transfer leaves it incoming or releases it.\<close>

lemma handle_rx_ok:
  assumes ok: "imp_session_ok (imc_max_message_size c) own s" and rx: "ims_state s = IMP_SESSION_RX"
    and f: "unat (cm_len frame) \<le> length (data_u8 (cm_data frame))" and heap: "heap_ok h"
    and run: "uni_can_imp_handle_rx_frame calloc_ok h c s frame command now out = (s', out', r)"
  shows "imp_session_ok (imc_max_message_size c) own s' \<and> \<not> uni_can_imp_session_is_tx s'"
proof -
  obtain t res where app: "uni_can_imp_session_append h c s (data_u8 (cm_data frame)) (cm_len frame) = (t, res)"
    by (cases "uni_can_imp_session_append h c s (data_u8 (cm_data frame)) (cm_len frame)")
  note t = append_result [OF ok rx f heap app]
  have s': "s' = fst (uni_can_imp_handle_rx_frame calloc_ok h c s frame command now out)"
    by (simp add: run)
  have appended: "command = UNI_CAN_IMP_CMD_DATA \<or> command = UNI_CAN_IMP_CMD_DATA_WA \<Longrightarrow> command \<noteq> UNI_CAN_IMP_CMD_ABORT_WA \<Longrightarrow>
    \<not> (command = UNI_CAN_IMP_CMD_START \<or> command = UNI_CAN_IMP_CMD_START_WA) \<Longrightarrow>
    s' = (if res = IMP_OK then t\<lparr>ims_last_activity_ms := now\<rparr> else uni_can_imp_session_release t)"
    using s' app by (cases res) (simp_all add: uni_can_imp_handle_rx_frame_def Let_def)
  consider (release) "s' = uni_can_imp_session_release s"
    | (start) m where "s' = s\<lparr>ims_payload := None, ims_payload_size := 0, ims_payload_capacity := 0,
        ims_payload_offset := 0, ims_mode := m, ims_last_activity_ms := now\<rparr>"
    | (data) "s' = (if res = IMP_OK then t\<lparr>ims_last_activity_ms := now\<rparr> else uni_can_imp_session_release t)"
  proof -
    consider "command = UNI_CAN_IMP_CMD_ABORT_WA"
      | "command \<noteq> UNI_CAN_IMP_CMD_ABORT_WA" "command = UNI_CAN_IMP_CMD_START \<or> command = UNI_CAN_IMP_CMD_START_WA"
      | "command \<noteq> UNI_CAN_IMP_CMD_ABORT_WA" "\<not> (command = UNI_CAN_IMP_CMD_START \<or> command = UNI_CAN_IMP_CMD_START_WA)"
        "command = UNI_CAN_IMP_CMD_DATA \<or> command = UNI_CAN_IMP_CMD_DATA_WA"
      | "command \<noteq> UNI_CAN_IMP_CMD_ABORT_WA" "\<not> (command = UNI_CAN_IMP_CMD_START \<or> command = UNI_CAN_IMP_CMD_START_WA)"
        "\<not> (command = UNI_CAN_IMP_CMD_DATA \<or> command = UNI_CAN_IMP_CMD_DATA_WA)"
      by blast
    then show ?thesis
    proof cases
      case 2
      then show ?thesis
        using s' by (intro start) (simp add: uni_can_imp_handle_rx_frame_def Let_def)
    next
      case 3
      then have "s' = (if res = IMP_OK then t\<lparr>ims_last_activity_ms := now\<rparr> else uni_can_imp_session_release t)"
        by (intro appended)
      then show ?thesis by (rule data)
    qed (use s' in \<open>auto intro!: release simp: uni_can_imp_handle_rx_frame_def finish_rx_session\<close>)
  qed
  then show ?thesis
  proof cases
    case start
    with ok rx show ?thesis
      by (simp add: imp_session_ok_def imp_payload_def imp_is_tx_states)
  next
    case data
    show ?thesis
    proof (cases "res = IMP_OK")
      case True
      then have "ims_state t = IMP_SESSION_RX" "imp_session_ok (imc_max_message_size c) own t"
        using t rx by auto
      with data True show ?thesis
        by (simp add: imp_session_ok_def imp_payload_def imp_is_tx_states)
    qed (simp add: data)
  qed simp
qed

section \<open>The calls keep the invariant\<close>

lemma init_wf:
  assumes "uni_can_imp_init calloc_ok (Some old) (Some cfg) = (Some c, True)"
  shows "imp_wf c"
proof -
  define masks where "masks = (\<lambda>i. imp_session_zero (case imf_session_address_masks cfg of
    Some masks \<Rightarrow> if i < imf_session_address_masks_count cfg then masks ! i else 0xFFFFFFFF | None \<Rightarrow> 0xFFFFFFFF))"
  have given: "calloc_ok" "uni_can_imp_source_address_valid (imf_own_address cfg)"
    using assms by (simp_all add: uni_can_imp_init_def Let_def split: if_splits)
  define base where "base = imp_ctx_zero\<lparr>imc_own_address := imf_own_address cfg,
    imc_max_sessions := (if imf_max_sessions cfg \<noteq> 0 then imf_max_sessions cfg else UNI_CAN_IMP_DEFAULT_MAX_SESSIONS),
    imc_max_message_size := (if imf_max_message_size cfg \<noteq> 0 then imf_max_message_size cfg
      else UNI_CAN_IMP_DEFAULT_MAX_MESSAGE_SIZE),
    imc_session_timeout_ms := (if imf_session_timeout_ms cfg \<noteq> 0 then imf_session_timeout_ms cfg
      else UNI_CAN_IMP_DEFAULT_SESSION_TIMEOUT_MS),
    imc_message_validator := imf_message_validator cfg\<rparr>"
  have "(Some c, True) = (Some (base\<lparr>imc_sessions := Some (map masks [0..<unat (imc_max_sessions base)])\<rparr>), True)"
    unfolding assms [symmetric] uni_can_imp_init_def Let_def base_def masks_def using given by simp
  moreover have "imc_own_address base = imf_own_address cfg"
    by (simp add: base_def)
  ultimately have c: "imc_sessions c = Some (map masks [0..<unat (imc_max_sessions c)])" "imc_own_address c = imf_own_address cfg"
    "uni_can_imp_source_address_valid (imf_own_address cfg)"
    using given(2) by simp_all
  then have ss: "uni_can_imp_sessions c = map masks [0..<unat (imc_max_sessions c)]"
    by (simp add: uni_can_imp_sessions_def)
  have "imp_session_ok a b (masks i)" "\<not> uni_can_imp_session_is_tx (masks i)" for a b i
    by (simp_all add: masks_def imp_is_tx_states)
  then show ?thesis
    using c ss by (auto simp: imp_wf_def imp_tx_distinct_def)
qed

lemma imp_wfD:
  assumes "imp_wf c"
  shows "imc_sessions c \<noteq> None" "i < length (uni_can_imp_sessions c) \<Longrightarrow>
      imp_session_ok (imc_max_message_size c) (imc_own_address c) (uni_can_imp_sessions c ! i)"
    "uni_can_imp_source_address_valid (imc_own_address c)"
  using assms by (auto simp: imp_wf_def)

lemma imp_release_wf:
  assumes "imp_wf c" "ims_address_mask s = ims_address_mask (uni_can_imp_sessions c ! i)"
  shows "imp_wf (imp_put c i (uni_can_imp_session_release s))"
  by (rule imp_put_wf [OF assms(1)]) simp_all

text \<open>The sessions of transfers to a peer have the identifiers the loop over the array marks.\<close>

lemma unique_id_fresh:
  assumes wf: "imp_wf c" and id: "imp_unique_id (imp_reserved_ids c peer) = Some k"
    and tx: "j < length (uni_can_imp_sessions c)" "uni_can_imp_session_is_tx (uni_can_imp_sessions c ! j)"
      "ims_peer_address (uni_can_imp_sessions c ! j) = peer"
    and low: "(b :: u8) \<in> {0, 1}"
  shows "ims_session_id (uni_can_imp_sessions c ! j) \<noteq> push_bit 1 (of_nat k) OR b"
proof
  assume eq: "ims_session_id (uni_can_imp_sessions c ! j) = push_bit 1 (of_nat k) OR b"
  have k: "k < 8" "k \<notin> imp_reserved_ids c peer"
    using first_index_lt [OF id [unfolded imp_unique_id_def]] first_index_holds [OF id [unfolded imp_unique_id_def]] by auto
  have drop: "drop_bit 1 (push_bit 1 (of_nat k) OR b) = (of_nat k :: u8)"
  proof -
    have "k = 0 \<or> k = 1 \<or> k = 2 \<or> k = 3 \<or> k = 4 \<or> k = 5 \<or> k = 6 \<or> k = 7"
      using k(1) by linarith
    with low show ?thesis
      by (elim disjE insertE) simp_all
  qed
  then have "unat (drop_bit 1 (ims_session_id (uni_can_imp_sessions c ! j))) = k"
    using k(1) unfolding eq drop by (simp add: unat_of_nat take_bit_nat_eq_self)
  moreover have "unat (drop_bit 1 (ims_session_id (uni_can_imp_sessions c ! j))) \<in> imp_reserved_ids c peer"
    using tx by (auto simp: imp_reserved_ids_def imp_array_wf [OF wf])
  ultimately show False
    using k(2) by simp
qed

text \<open>The identifier of a new transfer: eight of them for each side, told apart by the lowest bit.\<close>

definition imp_new_id :: "nat \<Rightarrow> bool \<Rightarrow> u8" where
  "imp_new_id k high = push_bit 1 (of_nat k) OR (if high then 1 else 0)"

lemma imp_new_id_range:
  assumes "k < 8"
  shows "imp_new_id k high \<le> 15" "bit (imp_new_id k high) 0 \<longleftrightarrow> high"
proof -
  have "k = 0 \<or> k = 1 \<or> k = 2 \<or> k = 3 \<or> k = 4 \<or> k = 5 \<or> k = 6 \<or> k = 7"
    using assms by linarith
  then show "imp_new_id k high \<le> 15" "bit (imp_new_id k high) 0 \<longleftrightarrow> high"
    by (cases high; elim disjE; simp add: imp_new_id_def)+
qed

lemma copy_payload_result:
  assumes "heap_ok h" "len \<noteq> 0 \<Longrightarrow> data = Some bs \<and> unat len \<le> length bs" "ims_payload s = None"
    "ims_payload_size s = 0" "ims_payload_capacity s = 0"
    and run: "uni_can_imp_session_copy_payload h s data len = (s', r)"
  shows "if r = IMP_OK
    then \<exists>p. s' = s\<lparr>ims_payload := p, ims_payload_size := len, ims_payload_capacity := len\<rparr> \<and>
      (p = None \<longleftrightarrow> len = 0) \<and> (\<forall>q. p = Some q \<longrightarrow> q = take (unat len) bs \<and> length q = unat len)
    else s' = s \<and> len \<noteq> 0 \<and> h (unat len) = None \<and> r = IMP_CANT_ALLOCATE"
proof (cases "len = 0")
  case True
  with run assms(3-5) show ?thesis
    by (cases s) (simp add: uni_can_imp_session_copy_payload_def)
next
  case False
  with assms(2) have bs: "data = Some bs" "unat len \<le> length bs" by simp_all
  show ?thesis
  proof (cases "h (unat len)")
    case None
    with run False assms(3) show ?thesis
      by (auto simp: uni_can_imp_session_copy_payload_def)
  next
    case (Some block)
    then have "length block = unat len"
      using assms(1) by (auto dest: heap_okD)
    with run False Some bs show ?thesis
      by (auto simp: uni_can_imp_session_copy_payload_def blit_whole)
  qed
qed

text \<open>
  What \<open>uni_can_imp_start_send\<close> leaves when it accepts a message: a session that was free holds the
  transfer, with the payload of the message, nothing sent of it, and a new identifier.
\<close>

definition imp_new_session :: "uni_can_imp_session \<Rightarrow> u8 \<Rightarrow> uni_can_imp_msg \<Rightarrow> nat \<Rightarrow> u32 \<Rightarrow> u8 list option \<Rightarrow> uni_can_imp_session" where
  "imp_new_session old own msg k now p = (imp_session_zero (ims_address_mask old))
     \<lparr>ims_state := (if imm_address_to msg = UNI_CAN_IMP_DEVICE_ID_ALL \<or> imm_mode msg = IMP_WITHOUT_ACK
                    then IMP_SESSION_TX_WITHOUT_ACK else IMP_SESSION_TX_WAIT_START_ACK),
      ims_mode := (if imm_address_to msg = UNI_CAN_IMP_DEVICE_ID_ALL then IMP_WITHOUT_ACK else imm_mode msg),
      ims_peer_address := imm_address_to msg, ims_local_address := own,
      ims_session_id := imp_new_id k (own > imm_address_to msg), ims_last_activity_ms := now,
      ims_payload := p, ims_payload_size := imm_length msg, ims_payload_capacity := imm_length msg\<rparr>"

definition imp_msg_wf :: "uni_can_imp_msg \<Rightarrow> bool" where
  "imp_msg_wf msg \<longleftrightarrow> (imm_length msg \<noteq> 0 \<longrightarrow> (\<exists>bs. imm_data msg = Some bs \<and> unat (imm_length msg) \<le> length bs))"

definition imp_msg_payload :: "uni_can_imp_msg \<Rightarrow> u8 list" where
  "imp_msg_payload msg = take (unat (imm_length msg)) (case imm_data msg of None \<Rightarrow> [] | Some bs \<Rightarrow> bs)"

lemma start_send_cases:
  assumes wf: "imp_wf c" and msg: "imp_msg_wf msg" and heap: "heap_ok h"
    and run: "uni_can_imp_start_send h (Some c) (Some msg) now (Some old) = (c', out, r)"
  shows "if r = IMP_OK
    then \<exists>i k p o'. uni_can_imp_find_free_session c (imm_address_to msg) = Some i \<and>
      imp_unique_id (imp_reserved_ids c (imm_address_to msg)) = Some k \<and>
      (p = None \<longleftrightarrow> imm_length msg = 0) \<and> (p \<noteq> None \<longrightarrow> p = Some (imp_msg_payload msg) \<and> length (imp_msg_payload msg) = unat (imm_length msg)) \<and>
      imm_address_from msg = imc_own_address c \<and> uni_can_imp_address_valid (imm_address_to msg) \<and>
      imm_length msg \<le> imc_max_message_size c \<and> imm_address_to msg \<noteq> imc_own_address c \<and>
      c' = Some (imp_put c i (imp_new_session (uni_can_imp_sessions c ! i) (imc_own_address c) msg k now p)) \<and>
      out = Some o' \<and> imo_frame_ready o' \<and>
      imo_frame o' = imo_frame (uni_can_imp_set_frame c imp_output_zero (imm_address_to msg)
        (imp_new_id k (imc_own_address c > imm_address_to msg))
        (if imm_address_to msg = UNI_CAN_IMP_DEVICE_ID_ALL \<or> imm_mode msg = IMP_WITHOUT_ACK
         then UNI_CAN_IMP_CMD_START_WA else UNI_CAN_IMP_CMD_START) [] 0)
    else c' = Some c \<or> (\<exists>i s. uni_can_imp_find_free_session c (imm_address_to msg) = Some i \<and>
      ims_address_mask s = ims_address_mask (uni_can_imp_sessions c ! i) \<and>
      c' = Some (imp_put c i (uni_can_imp_session_release s)))"
proof -
  consider (refused) "c' = Some c" "r \<noteq> IMP_OK"
    | (accepted) i k where "uni_can_imp_find_free_session c (imm_address_to msg) = Some i"
      "imp_unique_id (imp_reserved_ids c (imm_address_to msg)) = Some k"
      "imm_address_from msg = imc_own_address c" "uni_can_imp_address_valid (imm_address_to msg)"
      "imm_address_to msg \<noteq> imc_own_address c" "imm_length msg \<le> imc_max_message_size c"
      "imm_mode msg = IMP_WITH_ACK \<or> imm_mode msg = IMP_WITHOUT_ACK" "imc_sessions c \<noteq> None"
      "\<not> (imm_length msg > 0 \<and> imm_data msg = None)"
    using run imp_wfD(1) [OF wf]
    by (simp add: uni_can_imp_start_send_def Let_def not_less split: if_splits option.splits)
  then show ?thesis
  proof cases
    case refused
    then show ?thesis by simp
  next
    case accepted
    let ?s = "(imp_session_zero (ims_address_mask (uni_can_imp_sessions c ! i)))
      \<lparr>ims_peer_address := imm_address_to msg, ims_local_address := imc_own_address c,
       ims_session_id := imp_new_id k (imc_own_address c > imm_address_to msg),
       ims_mode := (if imm_address_to msg = UNI_CAN_IMP_DEVICE_ID_ALL then IMP_WITHOUT_ACK else imm_mode msg),
       ims_last_activity_ms := now\<rparr>"
    obtain s' r' where copy: "uni_can_imp_session_copy_payload h ?s (imm_data msg) (imm_length msg) = (s', r')"
      by (cases "uni_can_imp_session_copy_payload h ?s (imm_data msg) (imm_length msg)")
    have res: "uni_can_imp_start_send h (Some c) (Some msg) now (Some old) =
      (case (s', r') of
         (s, IMP_OK) \<Rightarrow>
           (let (s, out) = (if ims_mode s = IMP_WITHOUT_ACK
                  then (s\<lparr>ims_state := IMP_SESSION_TX_WITHOUT_ACK\<rparr>, imp_reply c imp_output_zero s UNI_CAN_IMP_CMD_START_WA)
                  else (s\<lparr>ims_state := IMP_SESSION_TX_WAIT_START_ACK\<rparr>, imp_reply c imp_output_zero s UNI_CAN_IMP_CMD_START))
            in (Some (imp_put c i s), Some (out\<lparr>imo_peer_address := ims_peer_address s, imo_session_id := ims_session_id s\<rparr>), IMP_OK))
       | (s, err) \<Rightarrow> (Some (imp_put c i (uni_can_imp_session_release s)), Some imp_output_zero, err))"
    proof -
      have guards: "(imm_mode msg \<noteq> IMP_WITH_ACK \<and> imm_mode msg \<noteq> IMP_WITHOUT_ACK) = False" "(imc_sessions c = None) = False"
        "(imm_address_from msg \<noteq> imc_own_address c \<or> \<not> uni_can_imp_address_valid (imm_address_to msg) \<or>
          imm_address_to msg = imc_own_address c \<or> imm_length msg > imc_max_message_size c \<or>
          (imm_length msg > 0 \<and> imm_data msg = None)) = False"
        using accepted by (auto simp: not_less)
      show ?thesis
        unfolding uni_can_imp_start_send_def Let_def prod.case option.case guards if_False accepted(1,2)
          imp_new_id_def [symmetric] copy by (rule refl)
    qed
    obtain bs where bs: "imm_length msg \<noteq> 0 \<Longrightarrow> imm_data msg = Some bs \<and> unat (imm_length msg) \<le> length bs"
      using msg by (auto simp: imp_msg_wf_def)
    note cp = copy_payload_result [OF heap bs _ _ _ copy, simplified]
    show ?thesis
    proof (cases "r' = IMP_OK")
      case True
      then obtain p where p: "s' = ?s\<lparr>ims_payload := p, ims_payload_size := imm_length msg, ims_payload_capacity := imm_length msg\<rparr>"
        "p = None \<longleftrightarrow> imm_length msg = 0" "\<forall>q. p = Some q \<longrightarrow> q = take (unat (imm_length msg)) bs \<and> length q = unat (imm_length msg)"
        using cp by auto
      have p2: "p \<noteq> None \<longrightarrow> p = Some (imp_msg_payload msg) \<and> length (imp_msg_payload msg) = unat (imm_length msg)"
        using p(2,3) bs by (auto simp: imp_msg_payload_def)
      let ?wa = "imm_address_to msg = UNI_CAN_IMP_DEVICE_ID_ALL \<or> imm_mode msg = IMP_WITHOUT_ACK"
      have st: "s'\<lparr>ims_state := (if ?wa then IMP_SESSION_TX_WITHOUT_ACK else IMP_SESSION_TX_WAIT_START_ACK)\<rparr> =
          imp_new_session (uni_can_imp_sessions c ! i) (imc_own_address c) msg k now p"
        by (simp add: p(1) imp_new_session_def imp_session_zero_def)
      have wa: "ims_mode s' = IMP_WITHOUT_ACK \<longleftrightarrow> ?wa"
        using accepted(7) by (auto simp: p(1))
      have call: "(c', out, r) = (let s = imp_new_session (uni_can_imp_sessions c ! i) (imc_own_address c) msg k now p;
          o1 = imp_reply c imp_output_zero s (if ?wa then UNI_CAN_IMP_CMD_START_WA else UNI_CAN_IMP_CMD_START)
        in (Some (imp_put c i s), Some (o1\<lparr>imo_peer_address := ims_peer_address s, imo_session_id := ims_session_id s\<rparr>), IMP_OK))"
        unfolding run [symmetric] res True st [symmetric] Let_def by (cases ?wa) (simp_all add: wa imp_reply_def)
      then have "r = IMP_OK" "c' = Some (imp_put c i (imp_new_session (uni_can_imp_sessions c ! i) (imc_own_address c) msg k now p))"
        by (simp_all add: Let_def)
      moreover have "\<exists>o'. out = Some o' \<and> imo_frame_ready o' \<and> imo_frame o' = imo_frame (uni_can_imp_set_frame c imp_output_zero
          (imm_address_to msg) (imp_new_id k (imc_own_address c > imm_address_to msg))
          (if imm_address_to msg = UNI_CAN_IMP_DEVICE_ID_ALL \<or> imm_mode msg = IMP_WITHOUT_ACK
           then UNI_CAN_IMP_CMD_START_WA else UNI_CAN_IMP_CMD_START) [] 0)"
        using call by (simp add: Let_def imp_reply_def uni_can_imp_set_frame_def imp_new_session_def)
      ultimately show ?thesis
        using accepted p(2) p2 by auto
    next
      case False
      then have "s' = ?s" "r' = IMP_CANT_ALLOCATE"
        using cp by simp_all
      then have "c' = Some (imp_put c i (uni_can_imp_session_release s'))" "r = IMP_CANT_ALLOCATE"
        using run res by simp_all
      moreover have "ims_address_mask s' = ims_address_mask (uni_can_imp_sessions c ! i)"
        by (simp add: \<open>s' = ?s\<close>)
      ultimately show ?thesis
        using accepted(1) by auto
    qed
  qed
qed

lemma free_session_bounds:
  assumes "imp_wf c" "uni_can_imp_find_free_session c peer = Some i"
  shows "i < length (uni_can_imp_sessions c)" "ims_state (uni_can_imp_sessions c ! i) = IMP_SESSION_FREE"
  using first_index_Some [OF assms(2) [unfolded uni_can_imp_find_free_session_def]] by (simp_all add: imp_array_wf [OF assms(1)])

lemma new_session_wf:
  assumes wf: "imp_wf c" and k: "imp_unique_id (imp_reserved_ids c (imm_address_to msg)) = Some k"
    and p: "p = None \<longleftrightarrow> imm_length msg = 0" "p \<noteq> None \<longrightarrow> p = Some bs \<and> length bs = unat (imm_length msg)"
    and len: "imm_length msg \<le> imc_max_message_size c"
  shows "imp_wf (imp_put c i (imp_new_session old (imc_own_address c) msg k now p))"
proof (rule imp_put_wf [OF wf])
  let ?own = "imc_own_address c" and ?s = "imp_new_session old (imc_own_address c) msg k now p"
  have "k < 8"
    using first_index_lt [OF k [unfolded imp_unique_id_def]] by simp
  note id = imp_new_id_range [OF this, of "?own > imm_address_to msg"]
  have s: "ims_payload ?s = p" "ims_payload_size ?s = imm_length msg" "ims_payload_capacity ?s = imm_length msg"
    "ims_payload_offset ?s = 0" "ims_local_address ?s = ?own" "ims_peer_address ?s = imm_address_to msg"
    "ims_session_id ?s = imp_new_id k (?own > imm_address_to msg)"
    "ims_state ?s \<noteq> IMP_SESSION_FREE" "ims_state ?s \<noteq> IMP_SESSION_TX_WAIT_DATA_ACK"
    by (simp_all add: imp_new_session_def)
  have "length (imp_payload ?s) = unat (imm_length msg)"
    using p unfolding imp_payload_def s(1) by (cases p) auto
  then show "imp_session_ok (imc_max_message_size c) ?own ?s"
    unfolding imp_session_ok_def s using s(8,9) p(1) len id by auto
  show "ims_session_id (uni_can_imp_sessions c ! j) \<noteq> ims_session_id ?s"
    if "j < length (uni_can_imp_sessions c)" "uni_can_imp_session_is_tx (uni_can_imp_sessions c ! j)"
      "ims_peer_address (uni_can_imp_sessions c ! j) = ims_peer_address ?s" for j
    using unique_id_fresh [OF wf k that(1,2)] that(3) unfolding s imp_new_id_def by simp
qed

lemma start_send_wf:
  assumes "imp_wf c" "imp_msg_wf msg" "heap_ok h"
    and "uni_can_imp_start_send h (Some c) (Some msg) now (Some old) = (c', out, r)"
  shows "\<exists>d. c' = Some d \<and> imp_wf d"
proof (cases "r = IMP_OK")
  case True
  with start_send_cases [OF assms] obtain i k p where c': "imp_unique_id (imp_reserved_ids c (imm_address_to msg)) = Some k"
    "p = None \<longleftrightarrow> imm_length msg = 0"
    "p \<noteq> None \<longrightarrow> p = Some (imp_msg_payload msg) \<and> length (imp_msg_payload msg) = unat (imm_length msg)"
    "imm_length msg \<le> imc_max_message_size c"
    "c' = Some (imp_put c i (imp_new_session (uni_can_imp_sessions c ! i) (imc_own_address c) msg k now p))"
    by auto
  with new_session_wf [OF assms(1) c'(1-4)] show ?thesis
    by simp
next
  case False
  with start_send_cases [OF assms] show ?thesis
    using imp_release_wf [OF assms(1)] assms(1) by auto
qed

lemma find_session_bounds:
  assumes "imp_wf c" "uni_can_imp_find_session c peer me sid = Some i"
  shows "i < length (uni_can_imp_sessions c)" "ims_state (uni_can_imp_sessions c ! i) \<noteq> IMP_SESSION_FREE"
    "ims_peer_address (uni_can_imp_sessions c ! i) = peer" "ims_local_address (uni_can_imp_sessions c ! i) = me"
    "ims_session_id (uni_can_imp_sessions c ! i) = sid"
  using first_index_Some [OF assms(2) [unfolded uni_can_imp_find_session_def]] by (simp_all add: imp_array_wf [OF assms(1)])

lemma session_for_wf:
  assumes "imp_wf c" "imp_session_for c from to sid command now = (d, k)"
  shows "imp_wf d" "imc_max_message_size d = imc_max_message_size c" "imc_own_address d = imc_own_address c"
    "k = Some i \<Longrightarrow> i < length (uni_can_imp_sessions d) \<and> ims_state (uni_can_imp_sessions d ! i) \<noteq> IMP_SESSION_FREE"
proof -
  define new where "new = (\<lambda>i. (imp_session_zero (ims_address_mask (uni_can_imp_sessions c ! i)))
    \<lparr>ims_state := IMP_SESSION_RX, ims_mode := (if command = UNI_CAN_IMP_CMD_START then IMP_WITH_ACK else IMP_WITHOUT_ACK),
     ims_peer_address := from, ims_local_address := to, ims_session_id := sid, ims_last_activity_ms := now\<rparr>)"
  have new: "imp_session_ok lim own (new j)" "\<not> uni_can_imp_session_is_tx (new j)" "ims_state (new j) = IMP_SESSION_RX" for lim own j
    by (simp_all add: new_def imp_session_ok_def imp_payload_def imp_is_tx_states)
  consider "uni_can_imp_find_session c from to sid = k" "d = c" "k \<noteq> None" | "d = c" "k = None"
    | j where "uni_can_imp_find_free_session c from = Some j" "d = imp_put c j (new j)" "k = Some j"
  proof (cases "uni_can_imp_find_session c from to sid")
    case (Some j)
    with assms(2) have "d = c" "k = Some j"
      by (simp_all add: imp_session_for_def)
    with Some show ?thesis
      by (intro that(1)) simp_all
  next
    case none: None
    show ?thesis
    proof (cases "uni_can_imp_find_free_session c from")
      case free: None
      with none assms(2) have "d = c" "k = None"
        by (simp_all add: imp_session_for_def split: if_splits)
      then show ?thesis
        by (rule that(2))
    next
      case free: (Some j)
      have "(d, k) = (if command = UNI_CAN_IMP_CMD_START \<or> command = UNI_CAN_IMP_CMD_START_WA
          then (imp_put c j (new j), Some j) else (c, None))"
        unfolding assms(2) [symmetric] imp_session_for_def none free option.case new_def by (rule refl)
      then show ?thesis
        using that(2) that(3) [OF free] by (simp split: if_splits)
    qed
  qed
  then have all: "imp_wf d \<and> imc_max_message_size d = imc_max_message_size c \<and> imc_own_address d = imc_own_address c \<and>
    (k = Some i \<longrightarrow> i < length (uni_can_imp_sessions d) \<and> ims_state (uni_can_imp_sessions d ! i) \<noteq> IMP_SESSION_FREE)"
  proof cases
    case 1
    then show ?thesis
      using assms(1) find_session_bounds [OF assms(1), of "from" to sid i] by auto
  next
    case 3
    then show ?thesis
      using imp_put_wf [OF assms(1), of "new j" j] new free_session_bounds [OF assms(1) 3(1)] by auto
  qed (use assms(1) in simp)
  then show "imp_wf d" "imc_max_message_size d = imc_max_message_size c" "imc_own_address d = imc_own_address c"
    "k = Some i \<Longrightarrow> i < length (uni_can_imp_sessions d) \<and> ims_state (uni_can_imp_sessions d ! i) \<noteq> IMP_SESSION_FREE"
    by simp_all
qed

lemma add_frame_wf:
  assumes wf: "imp_wf c" and f: "unat (cm_len f) \<le> 8 \<longrightarrow> unat (cm_len f) \<le> length (data_u8 (cm_data f))" and heap: "heap_ok h"
    and run: "uni_can_imp_add_frame calloc_ok h (Some c) (Some f) now (Some old) = (c', out, r)"
  shows "\<exists>d. c' = Some d \<and> imp_wf d"
proof -
  let ?from = "uni_can_imp_canid_get_from (cm_id f)" and ?to = "uni_can_imp_canid_get_to (cm_id f)"
    and ?sid = "uni_can_imp_canid_get_session_id (cm_id f)" and ?cmd = "uni_can_imp_canid_get_command (cm_id f)"
  obtain d k where d: "imp_session_for c ?from ?to ?sid ?cmd now = (d, k)"
    by (cases "imp_session_for c ?from ?to ?sid ?cmd now")
  note dwf = session_for_wf [OF wf d]
  consider "c' = Some c" | "c' = Some d"
    | i s' out' where "k = Some i" "c' = Some (imp_put d i s')" "unat (cm_len f) \<le> 8"
      "(if uni_can_imp_session_is_tx (uni_can_imp_sessions d ! i)
        then uni_can_imp_handle_tx_frame d (uni_can_imp_sessions d ! i) ?cmd now imp_output_zero
        else uni_can_imp_handle_rx_frame calloc_ok h d (uni_can_imp_sessions d ! i) f ?cmd now imp_output_zero) = (s', out', r)"
    using run imp_wfD(1) [OF wf] d
    by (auto simp: uni_can_imp_add_frame_def Let_def UNI_CAN_MESSAGE_MAXLEN_def split: if_splits option.splits prod.splits)
  then show ?thesis
  proof cases
    case 3
    let ?s = "uni_can_imp_sessions d ! i"
    have i: "i < length (uni_can_imp_sessions d)" "ims_state ?s \<noteq> IMP_SESSION_FREE"
      using dwf(4) [OF 3(1)] by simp_all
    note ok = imp_wfD(2) [OF dwf(1) i(1)]
    have "imp_wf (imp_put d i s')"
    proof (cases "uni_can_imp_session_is_tx ?s")
      case True
      with handle_tx_ok [OF ok True] 3(4) show ?thesis
        by (intro imp_put_same_transfer [OF dwf(1) i(1)]) auto
    next
      case False
      then have "ims_state ?s = IMP_SESSION_RX"
        using i(2) by (cases "ims_state ?s") (simp_all add: imp_is_tx_states)
      from handle_rx_ok [OF ok this _ heap] False 3(3,4) f show ?thesis
        by (intro imp_put_same_transfer [OF dwf(1) i(1)]) auto
    qed
    with 3 show ?thesis
      by simp
  qed (use wf dwf in auto)
qed

lemma process_wf:
  assumes wf: "imp_wf c" and run: "uni_can_imp_process (Some c) now (Some old) = (c', out, r)"
  shows "\<exists>d. c' = Some d \<and> imp_wf d"
proof -
  let ?draining = "\<lambda>i. first_index (\<lambda>s. ims_state s = IMP_SESSION_TX_WITHOUT_ACK) (imp_array c) = Some i"
  consider "c' = Some c"
    | i where "c' = Some (imp_put c i (uni_can_imp_session_release (uni_can_imp_sessions c ! i)))"
    | i where "?draining i" "ims_payload_offset (uni_can_imp_sessions c ! i) < ims_payload_size (uni_can_imp_sessions c ! i)"
      "c' = Some (imp_put c i ((uni_can_imp_sessions c ! i)\<lparr>ims_payload_offset :=
         ims_payload_offset (uni_can_imp_sessions c ! i) + ucast (imp_next_length (uni_can_imp_sessions c ! i))\<rparr>))"
    using run imp_wfD(1) [OF wf]
    by (auto simp: uni_can_imp_process_def Let_def split: option.splits if_splits)
  then show ?thesis
  proof cases
    case 2
    then show ?thesis
      using imp_release_wf [OF wf] by simp
  next
    case 3
    let ?s = "uni_can_imp_sessions c ! i"
    have i: "i < length (uni_can_imp_sessions c)" "ims_state ?s = IMP_SESSION_TX_WITHOUT_ACK"
      using first_index_Some [OF 3(1)] by (simp_all add: imp_array_wf [OF wf])
    note ok = imp_wfD(2) [OF wf i(1)]
    have "unat (ims_payload_offset ?s) + unat (imp_next_length ?s) \<le> unat (ims_payload_size ?s)"
      using imp_next_length_bounds(3) [OF 3(2)] 3(2) by (simp add: word_less_nat_alt)
    then have "unat (ims_payload_offset ?s + ucast (imp_next_length ?s)) \<le> unat (ims_payload_size ?s)"
      using unat_add_le [of "ims_payload_offset ?s" "ucast (imp_next_length ?s)"] by simp
    then have "imp_session_ok (imc_max_message_size c) (imc_own_address c)
        (?s\<lparr>ims_payload_offset := ims_payload_offset ?s + ucast (imp_next_length ?s)\<rparr>)"
      using ok i(2) by (simp add: imp_session_ok_def imp_payload_def imp_is_tx_states word_le_nat_alt)
    then have "imp_wf (imp_put c i (?s\<lparr>ims_payload_offset := ims_payload_offset ?s + ucast (imp_next_length ?s)\<rparr>))"
      using i(2) by (intro imp_put_same_transfer [OF wf i(1)]) (simp_all add: imp_is_tx_states)
    with 3 show ?thesis
      by simp
  qed (use wf in simp)
qed


lemma session_ok_facts:
  assumes "imp_session_ok limit own s"
  shows "length (imp_payload s) = unat (ims_payload_capacity s)" "ims_payload_size s \<le> ims_payload_capacity s"
    "ims_payload_capacity s \<le> limit" "ims_state s = IMP_SESSION_FREE \<longrightarrow> ims_payload s = None"
    "uni_can_imp_session_is_tx s \<longrightarrow> ims_payload_offset s \<le> ims_payload_size s \<and>
       (bit (ims_session_id s) 0 \<longleftrightarrow> own > ims_peer_address s)"
    "ims_state s = IMP_SESSION_TX_WAIT_DATA_ACK \<longrightarrow>
       unat (ims_payload_offset s) + unat (ims_last_data_length s) \<le> length (imp_payload s)"
proof -
  show "ims_state s = IMP_SESSION_FREE \<longrightarrow> ims_payload s = None"
  proof
    assume "ims_state s = IMP_SESSION_FREE"
    with assms have "s = imp_session_zero (ims_address_mask s)"
      by (simp add: imp_session_ok_def)
    then have "ims_payload s = ims_payload (imp_session_zero (ims_address_mask s))"
      by (rule arg_cong)
    then show "ims_payload s = None" by simp
  qed
qed (use assms in \<open>auto simp: imp_session_ok_def word_le_nat_alt\<close>)


section \<open>Properties\<close>

text \<open>A context as an application can have it: set up, and used with any calls in any order.\<close>

inductive imp_reachable :: "uni_can_imp_ctx \<Rightarrow> bool" where
  imp_started: "uni_can_imp_init calloc_ok (Some old) (Some cfg) = (Some c, True) \<Longrightarrow> imp_reachable c"
| imp_sent: "imp_reachable c \<Longrightarrow> imp_msg_wf msg \<Longrightarrow> heap_ok h \<Longrightarrow>
    uni_can_imp_start_send h (Some c) (Some msg) now (Some out) = (Some d, out', r) \<Longrightarrow> imp_reachable d"
| imp_got: "imp_reachable c \<Longrightarrow> length (data_u8 (cm_data f)) = 8 \<Longrightarrow> heap_ok h \<Longrightarrow>
    uni_can_imp_add_frame calloc_ok h (Some c) (Some f) now (Some out) = (Some d, out', r) \<Longrightarrow> imp_reachable d"
| imp_processed: "imp_reachable c \<Longrightarrow>
    uni_can_imp_process (Some c) now (Some out) = (Some d, out', r) \<Longrightarrow> imp_reachable d"

lemma reachable_wf: "imp_reachable c \<Longrightarrow> imp_wf c"
proof (induction rule: imp_reachable.induct)
  case imp_started
  then show ?case by (rule init_wf)
next
  case imp_sent
  then show ?case using start_send_wf by blast
next
  case (imp_got c f h calloc_ok now out d out' r)
  then show ?case using add_frame_wf [OF imp_got(5) _ imp_got(3,4)] by simp
next
  case imp_processed
  then show ?case using process_wf by blast
qed

text \<open>
  C9. Whatever messages are sent, whatever frames arrive (hostile ones included), whenever memory
  runs out and whatever the clock shows: no session holds more than the configured maximum or
  claims more payload than its block has, a transfer never reads past its payload, a free session
  holds no block, and no two outgoing transfers to a peer share a session identifier, the lowest
  bit of which tells the sides apart.
\<close>

theorem imp_invariant:
  assumes "imp_reachable c"
  shows "(\<forall>s\<in>set (uni_can_imp_sessions c).
      length (imp_payload s) = unat (ims_payload_capacity s) \<and> ims_payload_size s \<le> ims_payload_capacity s \<and>
      ims_payload_capacity s \<le> imc_max_message_size c \<and> (ims_state s = IMP_SESSION_FREE \<longrightarrow> ims_payload s = None) \<and>
      (uni_can_imp_session_is_tx s \<longrightarrow> ims_payload_offset s \<le> ims_payload_size s \<and>
        (bit (ims_session_id s) 0 \<longleftrightarrow> imc_own_address c > ims_peer_address s)) \<and>
      (ims_state s = IMP_SESSION_TX_WAIT_DATA_ACK \<longrightarrow>
        unat (ims_payload_offset s) + unat (ims_last_data_length s) \<le> length (imp_payload s))) \<and>
    imp_tx_distinct (uni_can_imp_sessions c)"
proof -
  have wf: "imp_wf c"
    using assms by (rule reachable_wf)
  show ?thesis
  proof (intro conjI ballI)
    show "imp_tx_distinct (uni_can_imp_sessions c)"
      using wf by (simp add: imp_wf_def)
  next
    fix s
    assume "s \<in> set (uni_can_imp_sessions c)"
    then have "imp_session_ok (imc_max_message_size c) (imc_own_address c) s"
      using wf by (simp add: imp_wf_def)
    note session_ok_facts [OF this]
    then show "length (imp_payload s) = unat (ims_payload_capacity s)" "ims_payload_size s \<le> ims_payload_capacity s"
      "ims_payload_capacity s \<le> imc_max_message_size c" "ims_state s = IMP_SESSION_FREE \<longrightarrow> ims_payload s = None"
      "uni_can_imp_session_is_tx s \<longrightarrow> ims_payload_offset s \<le> ims_payload_size s \<and>
        (bit (ims_session_id s) 0 \<longleftrightarrow> imc_own_address c > ims_peer_address s)"
      "ims_state s = IMP_SESSION_TX_WAIT_DATA_ACK \<longrightarrow>
        unat (ims_payload_offset s) + unat (ims_last_data_length s) \<le> length (imp_payload s)"
      by blast+
  qed
qed

definition imp_example_cfg :: "u8 \<Rightarrow> uni_can_imp_config" where
  "imp_example_cfg own = \<lparr>imf_own_address = own, imf_max_sessions = 1, imf_max_message_size = 64, imf_session_timeout_ms = 100,
     imf_session_address_masks = None, imf_session_address_masks_count = 0, imf_message_validator = None\<rparr>"

definition imp_example_ctx :: "u8 \<Rightarrow> uni_can_imp_ctx" where
  "imp_example_ctx own = \<lparr>imc_own_address = own, imc_max_sessions = 1, imc_max_message_size = 64, imc_session_timeout_ms = 100,
     imc_message_validator = None, imc_sessions = Some [imp_session_zero 0xFFFFFFFF]\<rparr>"

definition imp_example_msg :: uni_can_imp_msg where
  "imp_example_msg = \<lparr>imm_mode = IMP_WITH_ACK, imm_address_from = 2, imm_address_to = 1, imm_session_id = 0, imm_length = 10,
     imm_data = Some [1, 2, 3, 4, 5, 6, 7, 8, 9, 10]\<rparr>"

lemma imp_example_init:
  "own \<le> 30 \<Longrightarrow> uni_can_imp_init True (Some imp_ctx_zero) (Some (imp_example_cfg own)) = (Some (imp_example_ctx own), True)"
  by (auto simp: uni_can_imp_init_def imp_example_cfg_def imp_example_ctx_def imp_ctx_zero_def Let_def
      uni_can_imp_source_address_valid_def uni_can_imp_address_valid_def imp_const_defs word_le_nat_alt)

theorem imp_invariant_witness:
  "\<exists>c. imp_reachable c \<and> imp_tx_distinct (uni_can_imp_sessions c) \<and> length (uni_can_imp_sessions c) = 1"
proof (intro exI conjI)
  show started: "imp_reachable (imp_example_ctx 2)"
    by (rule imp_started [OF imp_example_init]) (simp add: word_le_nat_alt)
  show "imp_tx_distinct (uni_can_imp_sessions (imp_example_ctx 2))"
    using imp_invariant [OF started] by blast
  show "length (uni_can_imp_sessions (imp_example_ctx 2)) = 1"
    by (simp add: uni_can_imp_sessions_def imp_example_ctx_def)
qed

end
