(* ===== verification/ImpTransfer.thy ===== *)
theory ImpTransfer
  imports ImpInvariant
begin

text \<open>
  Two devices on a wire that speak the Intermodule Protocol: what a transfer with acknowledgement
  delivers. The frames one device emits are given to \<open>uni_can_imp_add_frame\<close> of the other until
  none comes back. The proofs go through the steps of the two sessions alone; the rest of a context
  only routes a frame to its session.
\<close>

section \<open>Frames\<close>

definition imp_frame_of :: "u8 \<Rightarrow> u8 \<Rightarrow> u8 \<Rightarrow> u32 \<Rightarrow> u8 list \<Rightarrow> u8 \<Rightarrow> uni_can_message" where
  "imp_frame_of own peer sid command data len = can_message_zero\<lparr>
     cm_id := uni_can_imp_canid_create own peer sid command, cm_flags := UNI_CAN_MSG_FLAG_EXT_ID, cm_len := ucast len,
     cm_data := Inline (blit (replicate UNI_CAN_MESSAGE_MAXLEN 0) 0 (take (unat len) data))\<rparr>"

lemma imp_set_frame_eq:
  "uni_can_imp_set_frame c out peer sid command data len =
    out\<lparr>imo_frame_ready := True, imo_frame := imp_frame_of (imc_own_address c) peer sid command data len\<rparr>"
  by (simp add: uni_can_imp_set_frame_def imp_frame_of_def)

lemma imp_frame_of_id:
  assumes "own \<le> 31" "peer \<le> 31" "sid \<le> 15" "command \<le> 31"
  shows "uni_can_imp_canid_get_from (cm_id (imp_frame_of own peer sid command data len)) = own"
    "uni_can_imp_canid_get_to (cm_id (imp_frame_of own peer sid command data len)) = peer"
    "uni_can_imp_canid_get_session_id (cm_id (imp_frame_of own peer sid command data len)) = sid"
    "uni_can_imp_canid_get_command (cm_id (imp_frame_of own peer sid command data len)) = command"
  using assms by (simp_all add: imp_frame_of_def u8_and_5_bits u8_and_4_bits u32_and_5_bits)

lemma imp_frame_of_data:
  assumes "len \<le> 8" "unat len \<le> length data"
  shows "unat (cm_len (imp_frame_of own peer sid command data len)) = unat len"
    "length (data_u8 (cm_data (imp_frame_of own peer sid command data len))) = 8"
    "take (unat len) (data_u8 (cm_data (imp_frame_of own peer sid command data len))) = take (unat len) data"
proof -
  have "unat len \<le> 8"
    using assms(1) by (simp add: word_le_nat_alt)
  with assms(2) show "length (data_u8 (cm_data (imp_frame_of own peer sid command data len))) = 8"
    "take (unat len) (data_u8 (cm_data (imp_frame_of own peer sid command data len))) = take (unat len) data"
    by (simp_all add: imp_frame_of_def UNI_CAN_MESSAGE_MAXLEN_def blit_def min_def)
  show "unat (cm_len (imp_frame_of own peer sid command data len)) = unat len"
    by (simp add: imp_frame_of_def)
qed


section \<open>A session in its context\<close>

text \<open>The functions on one session read nothing of the other sessions of the context.\<close>

lemma handle_tx_put [simp]:
  "uni_can_imp_handle_tx_frame (imp_put c i x) s command now out = uni_can_imp_handle_tx_frame c s command now out"
  by (simp add: uni_can_imp_handle_tx_frame_def uni_can_imp_resend_acked_frame_def uni_can_imp_emit_next_acked_frame_def
      uni_can_imp_emit_abort_def imp_reply_def imp_set_frame_eq)

lemma append_put [simp]:
  "uni_can_imp_session_append h (imp_put c i x) s data len = uni_can_imp_session_append h c s data len"
  unfolding append_cases imp_put_simps by (rule refl)

lemma handle_rx_put [simp]:
  "uni_can_imp_handle_rx_frame calloc_ok h (imp_put c i x) s frame command now out =
    uni_can_imp_handle_rx_frame calloc_ok h c s frame command now out"
  unfolding uni_can_imp_handle_rx_frame_def uni_can_imp_finish_rx_def uni_can_imp_emit_abort_def imp_reply_def imp_set_frame_eq
    append_put imp_put_simps by (rule refl)

lemma imp_array_put: "imp_wf c \<Longrightarrow> imp_array (imp_put c i s) = (uni_can_imp_sessions c)[i := s]"
  by (simp add: imp_array_def imp_wf_def)

text \<open>A session that is put where no other has its peer, own address and identifier is found.\<close>

definition imp_named :: "uni_can_imp_session \<Rightarrow> u8 \<Rightarrow> u8 \<Rightarrow> u8 \<Rightarrow> bool" where
  "imp_named s peer me sid \<longleftrightarrow> ims_state s \<noteq> IMP_SESSION_FREE \<and> ims_peer_address s = peer \<and>
     ims_local_address s = me \<and> ims_session_id s = sid"

lemma find_session_put:
  assumes "imp_wf c" "uni_can_imp_find_session c peer me sid = None" "i < length (uni_can_imp_sessions c)" "imp_named s peer me sid"
  shows "uni_can_imp_find_session (imp_put c i s) peer me sid = Some i"
  unfolding uni_can_imp_find_session_def imp_array_put [OF assms(1)]
proof (rule first_index_unique)
  have none: "\<not> imp_named (uni_can_imp_sessions c ! j) peer me sid" if "j < length (uni_can_imp_sessions c)" for j
    using assms(2) that by (auto simp: uni_can_imp_find_session_def imp_array_wf [OF assms(1)] imp_named_def)
  fix j
  assume "j < length ((uni_can_imp_sessions c)[i := s])"
    "ims_state ((uni_can_imp_sessions c)[i := s] ! j) \<noteq> IMP_SESSION_FREE \<and> ims_peer_address ((uni_can_imp_sessions c)[i := s] ! j) = peer \<and>
      ims_local_address ((uni_can_imp_sessions c)[i := s] ! j) = me \<and> ims_session_id ((uni_can_imp_sessions c)[i := s] ! j) = sid"
  then show "j = i"
    using none [of j] by (cases "j = i") (simp_all add: imp_named_def)
qed (use assms(3,4) in \<open>simp_all add: imp_named_def\<close>)

text \<open>A frame for a session that is there reaches it.\<close>

definition imp_step_of :: "heap \<Rightarrow> uni_can_imp_ctx \<Rightarrow> uni_can_imp_session \<Rightarrow> uni_can_message \<Rightarrow> u32 \<Rightarrow> u32 \<Rightarrow> imp_step" where
  "imp_step_of h c s frame command now =
     (if uni_can_imp_session_is_tx s then uni_can_imp_handle_tx_frame c s command now imp_output_zero
      else uni_can_imp_handle_rx_frame True h c s frame command now imp_output_zero)"

lemma add_frame_reaches:
  assumes wf: "imp_wf c" and own: "imc_own_address c = me" "uni_can_imp_source_address_valid peer"
    and free: "uni_can_imp_find_session c peer me sid = None" "i < length (uni_can_imp_sessions c)" "imp_named s peer me sid"
    and f: "f = imp_frame_of peer me sid command data len" "len \<le> 8" "sid \<le> 15" "command \<le> UNI_CAN_IMP_CMD_ABORT_WA"
    and run: "imp_step_of h c s f command now = (s', out, r)"
  shows "uni_can_imp_add_frame True h (Some (imp_put c i s)) (Some f) now (Some old) = (Some (imp_put c i s'), Some out, r)"
proof -
  have valid: "me \<le> 31" "peer \<le> 31" "command \<le> 31" "me \<noteq> UNI_CAN_IMP_DEVICE_ID_ALL"
    using imp_wfD(3) [OF wf] own f(4)
    by (auto simp: uni_can_imp_source_address_valid_def uni_can_imp_address_valid_def imp_const_defs imp_cmd_defs intro: order_trans)
  note id = imp_frame_of_id [OF valid(2,1) f(3) valid(3), of data len, folded f(1)]
  have len: "unat (cm_len f) \<le> UNI_CAN_MESSAGE_MAXLEN"
    using f(2) by (simp add: f(1) imp_frame_of_def UNI_CAN_MESSAGE_MAXLEN_def word_le_nat_alt)
  have found: "imp_session_for (imp_put c i s) peer me sid command now = (imp_put c i s, Some i)"
    by (simp add: imp_session_for_def find_session_put [OF wf free])
  have there: "uni_can_imp_sessions (imp_put c i s) ! i = s"
    using free(2) by simp
  show ?thesis
    unfolding uni_can_imp_add_frame_def option.case prod.case id Let_def found there
    using imp_wfD(1) [OF wf] own valid(4) len f(4) run
    by (cases "uni_can_imp_session_is_tx s") (auto simp: imp_step_of_def not_less [symmetric])
qed

text \<open>The first frame of a transfer takes a free session.\<close>

definition imp_incoming :: "u32 \<Rightarrow> u8 \<Rightarrow> u8 \<Rightarrow> u8 \<Rightarrow> u8 list option \<Rightarrow> u16 \<Rightarrow> u16 \<Rightarrow> u32 \<Rightarrow> uni_can_imp_session" where
  "imp_incoming accepted peer me sid p received capacity now = (imp_session_zero accepted)\<lparr>ims_state := IMP_SESSION_RX,
     ims_mode := IMP_WITH_ACK, ims_peer_address := peer, ims_local_address := me, ims_session_id := sid, ims_payload := p,
     ims_payload_size := received, ims_payload_capacity := capacity, ims_last_activity_ms := now\<rparr>"

lemma add_frame_starts:
  assumes wf: "imp_wf c" and own: "imc_own_address c = me" "uni_can_imp_source_address_valid peer"
    and free: "uni_can_imp_find_session c peer me sid = None" "uni_can_imp_find_free_session c peer = Some j"
    and f: "f = imp_frame_of peer me sid UNI_CAN_IMP_CMD_START [] 0" "sid \<le> 15"
  shows "uni_can_imp_add_frame True h (Some c) (Some f) now (Some old) =
    (Some (imp_put c j (imp_incoming (ims_address_mask (uni_can_imp_sessions c ! j)) peer me sid None 0 0 now)),
     Some (imp_output_zero\<lparr>imo_frame_ready := True, imo_frame := imp_frame_of me peer sid UNI_CAN_IMP_CMD_ACK [] 0\<rparr>), IMP_OK)"
proof -
  let ?t = "imp_incoming (ims_address_mask (uni_can_imp_sessions c ! j)) peer me sid None 0 0 now"
  have valid: "me \<le> 31" "peer \<le> 31" "me \<noteq> UNI_CAN_IMP_DEVICE_ID_ALL"
    using imp_wfD(3) [OF wf] own
    by (auto simp: uni_can_imp_source_address_valid_def uni_can_imp_address_valid_def imp_const_defs)
  have cmd: "UNI_CAN_IMP_CMD_START \<le> 31" "\<not> UNI_CAN_IMP_CMD_START > UNI_CAN_IMP_CMD_ABORT_WA"
    by (simp_all add: imp_cmd_defs)
  note id = imp_frame_of_id [OF valid(2,1) f(2) cmd(1), of "[]" 0, folded f(1)]
  have len: "unat (cm_len f) \<le> UNI_CAN_MESSAGE_MAXLEN"
    by (simp add: f(1) imp_frame_of_def)
  have j: "j < length (uni_can_imp_sessions c)"
    by (rule free_session_bounds [OF wf free(2)])
  have found: "imp_session_for c peer me sid UNI_CAN_IMP_CMD_START now = (imp_put c j ?t, Some j)"
    by (simp add: imp_session_for_def free imp_incoming_def imp_session_zero_def)
  have there: "uni_can_imp_sessions (imp_put c j ?t) ! j = ?t"
    using j by simp
  have rx: "\<not> uni_can_imp_session_is_tx ?t"
    by (simp add: imp_is_tx_states imp_incoming_def)
  have step: "uni_can_imp_handle_rx_frame True h c ?t f UNI_CAN_IMP_CMD_START now imp_output_zero =
    (?t, imp_output_zero\<lparr>imo_frame_ready := True, imo_frame := imp_frame_of me peer sid UNI_CAN_IMP_CMD_ACK [] 0\<rparr>, IMP_OK)"
    using own valid(3)
    by (simp add: uni_can_imp_handle_rx_frame_def imp_cmd_defs imp_reply_def imp_set_frame_eq imp_incoming_def imp_session_zero_def)
  show ?thesis
    unfolding uni_can_imp_add_frame_def option.case prod.case id Let_def found there handle_rx_put
    using imp_wfD(1) [OF wf] own valid(3) len cmd(2) rx step by auto
qed


section \<open>The dialogue\<close>

text \<open>
  What came out of a call that an application looks at: the event and the message. The wire gives
  every frame of \<open>a\<close> to \<open>b\<close> and every answer back; \<open>clock\<close> is the time of the calls.
\<close>

definition imp_report :: "uni_can_imp_output \<Rightarrow> (uni_can_imp_event \<times> uni_can_imp_msg option) list" where
  "imp_report out = (if imo_event out = IMP_EVENT_NONE \<and> imo_received_message out = None then []
     else [(imo_event out, imo_received_message out)])"

fun imp_dialogue :: "heap \<Rightarrow> (nat \<Rightarrow> u32) \<Rightarrow> nat \<Rightarrow> uni_can_imp_ctx \<Rightarrow> uni_can_imp_ctx \<Rightarrow> uni_can_message
    \<Rightarrow> (uni_can_imp_ctx \<times> uni_can_imp_ctx \<times> (uni_can_imp_event \<times> uni_can_imp_msg option) list) option" where
  "imp_dialogue h clock 0 a b frame = None"
| "imp_dialogue h clock (Suc n) a b frame =
     (case uni_can_imp_add_frame True h (Some b) (Some frame) (clock (Suc (2 * n))) (Some imp_output_zero) of
        (Some b, Some answer, _) \<Rightarrow>
          if \<not> imo_frame_ready answer then Some (a, b, imp_report answer)
          else
            (case uni_can_imp_add_frame True h (Some a) (Some (imo_frame answer)) (clock (2 * n)) (Some imp_output_zero) of
               (Some a, Some reply, _) \<Rightarrow>
                 if \<not> imo_frame_ready reply then Some (a, b, imp_report answer @ imp_report reply)
                 else map_option (\<lambda>(a, b, reports). (a, b, imp_report answer @ imp_report reply @ reports))
                        (imp_dialogue h clock n a b (imo_frame reply))
             | _ \<Rightarrow> None)
      | _ \<Rightarrow> None)"

section \<open>The steps of a transfer\<close>

text \<open>
  The two ends of a transfer of the payload \<open>P\<close> from \<open>a\<close> to \<open>b\<close>: session \<open>i\<close> of \<open>a\<close> sends, session
  \<open>j\<close> of \<open>b\<close> receives, and no other session of either has the name of the transfer.
\<close>

definition imp_link :: "uni_can_imp_ctx \<Rightarrow> uni_can_imp_ctx \<Rightarrow> nat \<Rightarrow> nat \<Rightarrow> u8 \<Rightarrow> u8 list \<Rightarrow> bool" where
  "imp_link a b i j sid P \<longleftrightarrow> imp_wf a \<and> imp_wf b \<and> sid \<le> 15 \<and>
     uni_can_imp_find_session a (imc_own_address b) (imc_own_address a) sid = None \<and> i < length (uni_can_imp_sessions a) \<and>
     uni_can_imp_find_session b (imc_own_address a) (imc_own_address b) sid = None \<and> j < length (uni_can_imp_sessions b) \<and>
     length P \<le> unat (imc_max_message_size b)"

definition imp_outgoing :: "u32 \<Rightarrow> u8 \<Rightarrow> u8 \<Rightarrow> u8 \<Rightarrow> u8 list \<Rightarrow> uni_can_imp_session_state \<Rightarrow> nat \<Rightarrow> u8 \<Rightarrow> u32 \<Rightarrow> uni_can_imp_session" where
  "imp_outgoing accepted peer me sid P st offset got now = (imp_session_zero accepted)\<lparr>ims_state := st,
     ims_mode := IMP_WITH_ACK, ims_peer_address := peer, ims_local_address := me, ims_session_id := sid,
     ims_last_data_length := got, ims_payload := (if P = [] then None else Some P), ims_payload_size := of_nat (length P),
     ims_payload_capacity := of_nat (length P), ims_payload_offset := of_nat offset, ims_last_activity_ms := now\<rparr>"

text \<open>What is outstanding after \<open>offset\<close> bytes: the session and the frame of the next step.\<close>

definition imp_piece :: "u8 list \<Rightarrow> nat \<Rightarrow> u8" where
  "imp_piece P offset = of_nat (min 8 (length P - offset))"

definition imp_sending :: "u32 \<Rightarrow> u8 \<Rightarrow> u8 \<Rightarrow> u8 \<Rightarrow> u8 list \<Rightarrow> nat \<Rightarrow> u8 \<Rightarrow> u32 \<Rightarrow> uni_can_imp_session" where
  "imp_sending accepted peer me sid P offset got now =
     (if offset < length P then imp_outgoing accepted peer me sid P IMP_SESSION_TX_WAIT_DATA_ACK offset (imp_piece P offset) now
      else imp_outgoing accepted peer me sid P IMP_SESSION_TX_WAIT_END_ACK offset got now)"

definition imp_sending_frame :: "u8 \<Rightarrow> u8 \<Rightarrow> u8 \<Rightarrow> u8 list \<Rightarrow> nat \<Rightarrow> uni_can_message" where
  "imp_sending_frame me peer sid P offset =
     (if offset < length P then imp_frame_of me peer sid UNI_CAN_IMP_CMD_DATA (drop offset P) (imp_piece P offset)
      else imp_frame_of me peer sid UNI_CAN_IMP_CMD_END [] 0)"

lemma imp_piece_props:
  assumes "offset < length P"
  shows "unat (imp_piece P offset) = min 8 (length P - offset)" "imp_piece P offset \<le> 8" "imp_piece P offset \<noteq> 0"
proof -
  show *: "unat (imp_piece P offset) = min 8 (length P - offset)"
    by (simp add: imp_piece_def unat_of_nat take_bit_nat_eq_self)
  then show "imp_piece P offset \<le> 8"
    by (simp add: word_le_nat_alt)
  from * assms have "0 < unat (imp_piece P offset)"
    by simp
  then show "imp_piece P offset \<noteq> 0"
    by (simp add: unat_gt_0)
qed

lemma imp_payload_outgoing [simp]: "imp_payload (imp_outgoing acc peer me sid P st offset got now) = P"
  by (simp add: imp_payload_def imp_outgoing_def)

lemma emit_next_outgoing:
  assumes "length P < 2 ^ 16" "offset \<le> length P" "imc_own_address c = me"
  shows "uni_can_imp_emit_next_acked_frame c (imp_outgoing acc peer me sid P st offset got before) now out =
    (imp_sending acc peer me sid P offset got now, out\<lparr>imo_frame_ready := True, imo_frame := imp_sending_frame me peer sid P offset\<rparr>)"
proof -
  let ?s = "imp_outgoing acc peer me sid P st offset got before"
  have un: "unat (of_nat (length P) :: u16) = length P" "unat (of_nat offset :: u16) = offset"
    using assms(1,2) by (auto intro!: unat_of_nat_u16)
  have fields: "ims_payload_size ?s = of_nat (length P)" "ims_payload_offset ?s = of_nat offset" "ims_peer_address ?s = peer"
    "ims_session_id ?s = sid"
    by (simp_all add: imp_outgoing_def)
  show ?thesis
  proof (cases "offset < length P")
    case True
    then have less: "ims_payload_offset ?s < ims_payload_size ?s"
      by (simp add: fields word_less_nat_alt un)
    have next_len: "imp_next_length ?s = imp_piece P offset"
      using imp_next_length_bounds(3) [OF less] imp_piece_props(1) [OF True] by (simp add: fields un word_unat_eq_iff)
    have "P \<noteq> []"
      using True by auto
    then show ?thesis
      unfolding uni_can_imp_emit_next_acked_frame_def Let_def imp_set_frame_eq next_len
      using less True assms(3)
      by (simp add: fields imp_sending_def imp_sending_frame_def imp_outgoing_def imp_session_zero_def
          imp_payload_from_offset_def imp_payload_def un)
  next
    case False
    then have "\<not> ims_payload_offset ?s < ims_payload_size ?s"
      by (simp add: fields word_less_nat_alt un)
    then show ?thesis
      unfolding uni_can_imp_emit_next_acked_frame_def Let_def imp_reply_def imp_set_frame_eq
      using False assms(3) by (simp add: fields imp_sending_def imp_sending_frame_def imp_outgoing_def imp_session_zero_def)
  qed
qed

lemma imp_linkD:
  assumes "imp_link a b i j sid P"
  shows "imp_wf a" "imp_wf b" "sid \<le> 15" "length P < 2 ^ 16" "length P \<le> unat (imc_max_message_size b)"
    "uni_can_imp_find_session a (imc_own_address b) (imc_own_address a) sid = None" "i < length (uni_can_imp_sessions a)"
    "uni_can_imp_find_session b (imc_own_address a) (imc_own_address b) sid = None" "j < length (uni_can_imp_sessions b)"
    "uni_can_imp_source_address_valid (imc_own_address a)" "uni_can_imp_source_address_valid (imc_own_address b)"
  using assms imp_wfD(3) [of a] imp_wfD(3) [of b] unat_u16_less [of "imc_max_message_size b"] by (auto simp: imp_link_def)

abbreviation "imp_ack a b sid \<equiv> imp_frame_of (imc_own_address b) (imc_own_address a) sid UNI_CAN_IMP_CMD_ACK [] 0"

text \<open>The sender gets an acknowledgement.\<close>

lemma sender_gets_ack:
  assumes link: "imp_link a b i j sid P" and s: "imp_named s (imc_own_address b) (imc_own_address a) sid" "uni_can_imp_session_is_tx s"
    and run: "uni_can_imp_handle_tx_frame a s UNI_CAN_IMP_CMD_ACK now imp_output_zero = (s', out, r)"
  shows "uni_can_imp_add_frame True h (Some (imp_put a i s)) (Some (imp_ack a b sid)) now (Some old) = (Some (imp_put a i s'), Some out, r)"
  by (rule add_frame_reaches [OF imp_linkD(1) [OF link] refl imp_linkD(11,6,7) [OF link] s(1) refl _ imp_linkD(3) [OF link]])
    (use s(2) run in \<open>simp_all add: imp_step_of_def imp_cmd_defs\<close>)

lemma imp_outgoing_named:
  assumes "st \<noteq> IMP_SESSION_FREE"
  shows "imp_named (imp_outgoing acc peer me sid P st offset got now) peer me sid"
  using assms by (simp add: imp_named_def imp_outgoing_def)

lemma imp_outgoing_tx:
  "uni_can_imp_session_is_tx (imp_outgoing acc peer me sid P st offset got now) \<longleftrightarrow> IMP_SESSION_TX_WITHOUT_ACK \<le> st"
  by (simp add: uni_can_imp_session_is_tx_def imp_outgoing_def)

lemma imp_outgoing_simps [simp]:
  "ims_state (imp_outgoing acc peer me sid P st offset got now) = st"
  "ims_peer_address (imp_outgoing acc peer me sid P st offset got now) = peer"
  "ims_session_id (imp_outgoing acc peer me sid P st offset got now) = sid"
  "ims_address_mask (imp_outgoing acc peer me sid P st offset got now) = acc"
  "ims_last_data_length (imp_outgoing acc peer me sid P st offset got now) = got"
  "ims_payload_offset (imp_outgoing acc peer me sid P st offset got now) = of_nat offset"
  by (simp_all add: imp_outgoing_def)

text \<open>The frame that goes on after \<open>offset\<close> bytes, as an output.\<close>

definition imp_goes_on :: "uni_can_imp_ctx \<Rightarrow> uni_can_imp_ctx \<Rightarrow> u8 \<Rightarrow> u8 list \<Rightarrow> nat \<Rightarrow> uni_can_imp_output" where
  "imp_goes_on a b sid P offset = imp_output_zero\<lparr>imo_frame_ready := True,
     imo_frame := imp_sending_frame (imc_own_address a) (imc_own_address b) sid P offset\<rparr>"

abbreviation "imp_out a b acc sid P \<equiv> imp_outgoing acc (imc_own_address b) (imc_own_address a) sid P"
abbreviation "imp_sends a b acc sid P \<equiv> imp_sending acc (imc_own_address b) (imc_own_address a) sid P"

lemma sender_start_acked:
  assumes link: "imp_link a b i j sid P"
  shows "uni_can_imp_add_frame True h (Some (imp_put a i (imp_out a b acc sid P IMP_SESSION_TX_WAIT_START_ACK 0 0 t)))
      (Some (imp_ack a b sid)) now (Some old) =
    (Some (imp_put a i (imp_sends a b acc sid P 0 0 now)), Some (imp_goes_on a b sid P 0), IMP_OK)"
  by (rule sender_gets_ack [OF link imp_outgoing_named])
    (use emit_next_outgoing [OF imp_linkD(4) [OF link], of 0] in
      \<open>simp_all add: imp_outgoing_tx uni_can_imp_handle_tx_frame_def imp_cmd_defs imp_goes_on_def\<close>)

lemma sender_data_acked:
  assumes link: "imp_link a b i j sid P" and offset: "offset < length P"
  shows "uni_can_imp_add_frame True h (Some (imp_put a i (imp_sends a b acc sid P offset got t)))
      (Some (imp_ack a b sid)) now (Some old) =
    (Some (imp_put a i (imp_sends a b acc sid P (offset + min 8 (length P - offset)) (imp_piece P offset) now)),
     Some (imp_goes_on a b sid P (offset + min 8 (length P - offset))), IMP_OK)"
proof -
  let ?s = "imp_out a b acc sid P IMP_SESSION_TX_WAIT_DATA_ACK offset (imp_piece P offset) t"
  let ?n = "offset + min 8 (length P - offset)"
  have "ucast (imp_piece P offset) = (of_nat (min 8 (length P - offset)) :: u16)"
    using imp_piece_props(1) [OF offset] by (simp flip: imp_piece_props(1) [OF offset])
  then have moved: "?s\<lparr>ims_payload_offset := ims_payload_offset ?s + ucast (ims_last_data_length ?s)\<rparr> =
      imp_out a b acc sid P IMP_SESSION_TX_WAIT_DATA_ACK ?n (imp_piece P offset) t"
    by (simp add: imp_outgoing_def imp_session_zero_def)
  have s: "imp_sends a b acc sid P offset got t = ?s"
    using offset by (simp add: imp_sending_def)
  show ?thesis
    unfolding s
  proof (rule sender_gets_ack [OF link imp_outgoing_named])
    have "?n \<le> length P"
      using offset by simp
    note next_step = emit_next_outgoing [OF imp_linkD(4) [OF link] this refl]
    show "uni_can_imp_handle_tx_frame a ?s UNI_CAN_IMP_CMD_ACK now imp_output_zero =
        (imp_sends a b acc sid P ?n (imp_piece P offset) now, imp_goes_on a b sid P ?n, IMP_OK)"
      unfolding uni_can_imp_handle_tx_frame_def moved next_step by (simp add: imp_cmd_defs imp_goes_on_def)
  qed (simp_all add: imp_outgoing_tx)
qed

lemma sender_end_acked:
  assumes link: "imp_link a b i j sid P" and offset: "\<not> offset < length P"
  shows "\<exists>out. uni_can_imp_add_frame True h (Some (imp_put a i (imp_sends a b acc sid P offset got t)))
      (Some (imp_ack a b sid)) now (Some old) = (Some (imp_put a i (imp_session_zero acc)), Some out, IMP_OK) \<and>
    \<not> imo_frame_ready out \<and> imp_report out = [(IMP_EVENT_TX_FINISHED, None)]"
proof (intro exI conjI)
  let ?out = "imp_output_zero\<lparr>imo_event := IMP_EVENT_TX_FINISHED, imo_peer_address := imc_own_address b, imo_session_id := sid\<rparr>"
  show "uni_can_imp_add_frame True h (Some (imp_put a i (imp_sends a b acc sid P offset got t)))
      (Some (imp_ack a b sid)) now (Some old) = (Some (imp_put a i (imp_session_zero acc)), Some ?out, IMP_OK)"
    unfolding imp_sending_def if_not_P [OF offset]
    by (rule sender_gets_ack [OF link imp_outgoing_named])
      (simp_all add: imp_outgoing_tx uni_can_imp_handle_tx_frame_def imp_cmd_defs uni_can_imp_session_release_def
        uni_can_imp_set_event_def)
  show "\<not> imo_frame_ready ?out" "imp_report ?out = [(IMP_EVENT_TX_FINISHED, None)]"
    by (simp_all add: imp_output_zero_def imp_report_def)
qed

text \<open>The receiver gets the next piece.\<close>

lemma append_succeeds:
  assumes "heap_total h" "unat (ims_payload_size s) + unat len \<le> unat (imc_max_message_size c)"
  shows "snd (uni_can_imp_session_append h c s data len) = IMP_OK"
proof -
  have "imp_grown h lim s need \<noteq> None" for lim need
  proof -
    obtain block where "h (imp_capacity lim s need) = Some block"
      using assms(1) by (rule heap_totalE)
    then show ?thesis
      by (simp add: imp_grown_def c_realloc_def)
  qed
  then obtain p where "imp_grown h (imc_max_message_size c) s (unat (ims_payload_size s) + unat len) = Some p"
    by (meson not_Some_eq)
  with assms(2) show ?thesis
    by (simp add: append_cases Let_def not_less prod.case_eq_if)
qed

definition imp_holds :: "uni_can_imp_ctx \<Rightarrow> uni_can_imp_ctx \<Rightarrow> u32 \<Rightarrow> u8 \<Rightarrow> u8 list \<Rightarrow> nat \<Rightarrow> uni_can_imp_session \<Rightarrow> bool" where
  "imp_holds a b acc sid P offset t \<longleftrightarrow>
     (\<exists>p capacity now. t = imp_incoming acc (imc_own_address a) (imc_own_address b) sid p (of_nat offset) capacity now) \<and>
     imp_session_ok (imc_max_message_size b) (imc_own_address b) t \<and> take offset (imp_payload t) = take offset P"

lemma imp_incoming_simps [simp]:
  "ims_state (imp_incoming acc peer me sid p received capacity now) = IMP_SESSION_RX"
  "ims_mode (imp_incoming acc peer me sid p received capacity now) = IMP_WITH_ACK"
  "ims_peer_address (imp_incoming acc peer me sid p received capacity now) = peer"
  "ims_local_address (imp_incoming acc peer me sid p received capacity now) = me"
  "ims_session_id (imp_incoming acc peer me sid p received capacity now) = sid"
  "ims_payload_size (imp_incoming acc peer me sid p received capacity now) = received"
  "ims_address_mask (imp_incoming acc peer me sid p received capacity now) = acc"
  "ims_payload (imp_incoming acc peer me sid p received capacity now) = p"
  by (simp_all add: imp_incoming_def imp_session_zero_def)

lemma imp_holds_fields:
  assumes "imp_holds a b acc sid P offset t"
  shows "imp_named t (imc_own_address a) (imc_own_address b) sid" "\<not> uni_can_imp_session_is_tx t" "ims_state t = IMP_SESSION_RX"
    "ims_payload_size t = of_nat offset" "ims_peer_address t = imc_own_address a" "ims_local_address t = imc_own_address b"
    "ims_session_id t = sid" "ims_mode t = IMP_WITH_ACK" "ims_address_mask t = acc"
  using assms by (auto simp: imp_holds_def imp_named_def imp_is_tx_states)

lemma receiver_gets:
  assumes link: "imp_link a b i j sid P" and t: "imp_holds a b acc sid P offset t"
    and f: "f = imp_frame_of (imc_own_address a) (imc_own_address b) sid command data len" "len \<le> 8"
      "command \<le> UNI_CAN_IMP_CMD_ABORT_WA"
    and run: "uni_can_imp_handle_rx_frame True h b t f command now imp_output_zero = (t', out, r)"
  shows "uni_can_imp_add_frame True h (Some (imp_put b j t)) (Some f) now (Some old) = (Some (imp_put b j t'), Some out, r)"
  by (rule add_frame_reaches [OF imp_linkD(2) [OF link] refl imp_linkD(10,8,9) [OF link] imp_holds_fields(1) [OF t] f(1,2)
        imp_linkD(3) [OF link] f(3)])
    (use imp_holds_fields(2) [OF t] run in \<open>simp add: imp_step_of_def\<close>)

lemma append_piece:
  assumes ok: "imp_session_ok (imc_max_message_size c) own t" and rx: "ims_state t = IMP_SESSION_RX"
    and got: "ims_payload_size t = of_nat offset" "take offset (imp_payload t) = take offset P"
    and offset: "offset < length P" and room: "length P \<le> unat (imc_max_message_size c)" and h: "heap_total h"
    and f: "f = imp_frame_of peer to sid command (drop offset P) (imp_piece P offset)"
  obtains t' where "uni_can_imp_session_append h c t (data_u8 (cm_data f)) (cm_len f) = (t', IMP_OK)"
    and "\<exists>p capacity. t' = t\<lparr>ims_payload := p, ims_payload_capacity := capacity,
      ims_payload_size := of_nat (offset + min 8 (length P - offset))\<rparr>"
    and "imp_session_ok (imc_max_message_size c) own t'"
    and "take (offset + min 8 (length P - offset)) (imp_payload t') = take (offset + min 8 (length P - offset)) P"
proof -
  let ?n = "min 8 (length P - offset)"
  note piece = imp_piece_props [OF offset]
  note data = imp_frame_of_data [of "imp_piece P offset" "drop offset P" peer to sid command, folded f, unfolded piece(1), OF piece(2)]
  have offset_size: "unat (of_nat offset :: u16) = offset"
    using offset room unat_u16_less [of "imc_max_message_size c"] by (intro unat_of_nat_u16) simp
  obtain t' r where app: "uni_can_imp_session_append h c t (data_u8 (cm_data f)) (cm_len f) = (t', r)"
    by (cases "uni_can_imp_session_append h c t (data_u8 (cm_data f)) (cm_len f)")
  have "snd (uni_can_imp_session_append h c t (data_u8 (cm_data f)) (cm_len f)) = IMP_OK"
    by (rule append_succeeds [OF h]) (use data(1) got(1) offset_size offset room in simp)
  then have r: "r = IMP_OK"
    by (simp add: app)
  have len8: "unat (cm_len f) \<le> length (data_u8 (cm_data f))"
    using data(1,2) by simp
  note result = append_result [OF ok rx len8 heap_totalD [OF h] app, unfolded r if_P [OF refl]]
  have len: "cm_len f = of_nat ?n"
    using data(1) by (simp add: word_unat_eq_iff piece(1) unat_of_nat take_bit_nat_eq_self)
  show ?thesis
  proof
    show "uni_can_imp_session_append h c t (data_u8 (cm_data f)) (cm_len f) = (t', IMP_OK)"
      using app r by simp
    show "\<exists>p capacity. t' = t\<lparr>ims_payload := p, ims_payload_capacity := capacity, ims_payload_size := of_nat (offset + ?n)\<rparr>"
      using result len by (simp add: got(1))
    show "imp_session_ok (imc_max_message_size c) own t'"
      using result by simp
    have "unat (ims_payload_size t') = offset + ?n" "take (unat (cm_len f)) (data_u8 (cm_data f)) = take ?n (drop offset P)"
      using result data(1,3) got(1) offset_size by simp_all
    then have "take (offset + ?n) (imp_payload t') = take offset (imp_payload t) @ take ?n (drop offset P)"
      using result got(1) offset_size by metis
    then show "take (offset + ?n) (imp_payload t') = take (offset + ?n) P"
      using got(2) by (simp add: take_add)
  qed
qed

lemma receiver_gets_data:
  assumes link: "imp_link a b i j sid P" and t: "imp_holds a b acc sid P offset t" and offset: "offset < length P" and h: "heap_total h"
  shows "\<exists>t'. uni_can_imp_add_frame True h (Some (imp_put b j t))
      (Some (imp_sending_frame (imc_own_address a) (imc_own_address b) sid P offset)) now (Some old) =
    (Some (imp_put b j t'), Some (imp_output_zero\<lparr>imo_frame_ready := True, imo_frame := imp_ack a b sid\<rparr>), IMP_OK) \<and>
    imp_holds a b acc sid P (offset + min 8 (length P - offset)) t' \<and> ims_last_activity_ms t' = now"
proof -
  let ?n = "min 8 (length P - offset)"
  define f where "f = imp_frame_of (imc_own_address a) (imc_own_address b) sid UNI_CAN_IMP_CMD_DATA (drop offset P) (imp_piece P offset)"
  have ok: "imp_session_ok (imc_max_message_size b) (imc_own_address b) t" "take offset (imp_payload t) = take offset P"
    using t by (simp_all add: imp_holds_def)
  obtain t1 where app: "uni_can_imp_session_append h b t (data_u8 (cm_data f)) (cm_len f) = (t1, IMP_OK)"
    and t1: "\<exists>p capacity. t1 = t\<lparr>ims_payload := p, ims_payload_capacity := capacity, ims_payload_size := of_nat (offset + ?n)\<rparr>"
    and t1_ok: "imp_session_ok (imc_max_message_size b) (imc_own_address b) t1"
    and t1_got: "take (offset + ?n) (imp_payload t1) = take (offset + ?n) P"
    by (rule append_piece [OF ok(1) imp_holds_fields(3,4) [OF t] ok(2) offset imp_linkD(5) [OF link] h f_def])
  let ?t' = "t1\<lparr>ims_last_activity_ms := now\<rparr>"
  have fields: "ims_peer_address t1 = imc_own_address a" "ims_session_id t1 = sid" "ims_state t1 = IMP_SESSION_RX"
    using t1 imp_holds_fields [OF t] by auto
  have step: "uni_can_imp_handle_rx_frame True h b t f UNI_CAN_IMP_CMD_DATA now imp_output_zero =
      (?t', imp_output_zero\<lparr>imo_frame_ready := True, imo_frame := imp_ack a b sid\<rparr>, IMP_OK)"
    by (simp add: uni_can_imp_handle_rx_frame_def app imp_cmd_defs imp_reply_def imp_set_frame_eq fields)
  have "imp_holds a b acc sid P (offset + ?n) ?t'"
    unfolding imp_holds_def
  proof (intro conjI)
    obtain p0 c0 n0 where t0: "t = imp_incoming acc (imc_own_address a) (imc_own_address b) sid p0 (of_nat offset) c0 n0"
      using t by (auto simp: imp_holds_def)
    obtain p c where "t1 = t\<lparr>ims_payload := p, ims_payload_capacity := c, ims_payload_size := of_nat (offset + ?n)\<rparr>"
      using t1 by blast
    then have "?t' = imp_incoming acc (imc_own_address a) (imc_own_address b) sid p (of_nat (offset + ?n)) c now"
      by (simp add: t0 imp_incoming_def imp_session_zero_def)
    then show "\<exists>p capacity now. ?t' = imp_incoming acc (imc_own_address a) (imc_own_address b) sid p (of_nat (offset + ?n)) capacity now"
      by blast
    show "imp_session_ok (imc_max_message_size b) (imc_own_address b) ?t'"
      using t1_ok fields(3) by (simp add: imp_session_ok_def imp_payload_def imp_is_tx_states)
    show "take (offset + ?n) (imp_payload ?t') = take (offset + ?n) P"
      using t1_got by (simp add: imp_payload_def)
  qed
  then show ?thesis
    using receiver_gets [OF link t f_def imp_piece_props(2) [OF offset] _ step] offset
    by (auto simp: imp_sending_frame_def f_def imp_cmd_defs)
qed

text \<open>The receiver gets the end.\<close>

definition imp_accepts :: "uni_can_imp_ctx \<Rightarrow> u8 list \<Rightarrow> bool" where
  "imp_accepts b P \<longleftrightarrow>
     (case imc_message_validator b of None \<Rightarrow> True | Some valid \<Rightarrow> \<forall>m. imp_msg_payload m = P \<longrightarrow> valid m)"

definition imp_delivered :: "uni_can_imp_ctx \<Rightarrow> uni_can_imp_ctx \<Rightarrow> u8 \<Rightarrow> u8 list \<Rightarrow> uni_can_imp_msg" where
  "imp_delivered a b sid P = \<lparr>imm_mode = IMP_WITH_ACK, imm_address_from = imc_own_address a, imm_address_to = imc_own_address b,
     imm_session_id = sid, imm_length = of_nat (length P), imm_data = (if P = [] then None else Some P)\<rparr>"

text \<open>The message made of a session that holds the whole payload.\<close>

lemma msg_create_payload:
  assumes h: "heap_total h" and valid: "uni_can_imp_source_address_valid peer" "uni_can_imp_address_valid to"
    and mode: "mode = IMP_WITH_ACK \<or> mode = IMP_WITHOUT_ACK"
    and payload: "take (length P) (imp_payload t) = P" and len: "length P < 2 ^ 16"
  shows "uni_can_imp_msg_create True h mode peer to (ims_payload t) (of_nat (length P)) =
    Some \<lparr>imm_mode = (if to = UNI_CAN_IMP_DEVICE_ID_ALL then IMP_WITHOUT_ACK else mode), imm_address_from = peer,
      imm_address_to = to, imm_session_id = 0, imm_length = of_nat (length P), imm_data = (if P = [] then None else Some P)\<rparr>"
proof -
  have unat: "unat (of_nat (length P) :: u16) = length P"
    using len by (intro unat_of_nat_u16) simp
  obtain block where block: "h (length P) = Some block" "length block = length P"
    using h by (rule heap_totalE)
  show ?thesis
  proof (cases "P = []")
    case True
    then show ?thesis
      using valid mode by (auto simp: uni_can_imp_msg_create_def)
  next
    case False
    then obtain bs where bs: "ims_payload t = Some bs" "take (length P) bs = P"
      using payload by (cases "ims_payload t") (simp_all add: imp_payload_def)
    have "(of_nat (length P) :: u16) > 0"
      using False by (simp add: word_less_nat_alt unat)
    then show ?thesis
      using valid mode block False by (auto simp: uni_can_imp_msg_create_def bs unat blit_whole)
  qed
qed

lemma receiver_gets_end:
  assumes link: "imp_link a b i j sid P" and t: "imp_holds a b acc sid P (length P) t" and h: "heap_total h" and valid: "imp_accepts b P"
  shows "\<exists>out. uni_can_imp_add_frame True h (Some (imp_put b j t))
      (Some (imp_sending_frame (imc_own_address a) (imc_own_address b) sid P (length P))) now (Some old) =
    (Some (imp_put b j (imp_session_zero acc)), Some out, IMP_OK) \<and> imo_frame_ready out \<and> imo_frame out = imp_ack a b sid \<and>
    imp_report out = [(IMP_EVENT_RX_FINISHED, Some (imp_delivered a b sid P))]"
proof -
  note fields = imp_holds_fields [OF t]
  have len: "unat (of_nat (length P) :: u16) = length P"
    using imp_linkD(4) [OF link] by (intro unat_of_nat_u16) simp
  have payload: "take (length P) (imp_payload t) = P" and ok: "imp_session_ok (imc_max_message_size b) (imc_own_address b) t"
    using t by (simp_all add: imp_holds_def)
  have data: "ims_payload t \<noteq> None" if "P \<noteq> []"
    using payload that by (cases "ims_payload t") (simp_all add: imp_payload_def)
  let ?candidate = "\<lparr>imm_mode = IMP_WITH_ACK, imm_address_from = imc_own_address a, imm_address_to = imc_own_address b,
    imm_session_id = sid, imm_length = of_nat (length P), imm_data = ims_payload t\<rparr>"
  have "imp_msg_payload ?candidate = P"
    using payload by (simp add: imp_msg_payload_def imp_payload_def len)
  then have accepted: "\<not> (case imc_message_validator b of None \<Rightarrow> False | Some valid \<Rightarrow> \<not> valid ?candidate)"
    using valid by (simp add: imp_accepts_def split: option.splits)
  have create: "uni_can_imp_msg_create True h IMP_WITH_ACK (imc_own_address a) (imc_own_address b) (ims_payload t) (of_nat (length P)) =
      Some (imp_delivered a b 0 P)"
    using msg_create_payload [OF h imp_linkD(10) [OF link] _ _ payload imp_linkD(4) [OF link], of "imc_own_address b" IMP_WITH_ACK]
      imp_linkD(11) [OF link] by (simp add: uni_can_imp_source_address_valid_def imp_delivered_def)
  let ?out = "imp_output_zero\<lparr>imo_frame_ready := True, imo_frame := imp_ack a b sid,
    imo_received_message := Some (imp_delivered a b sid P), imo_event := IMP_EVENT_RX_FINISHED,
    imo_peer_address := imc_own_address a, imo_session_id := sid\<rparr>"
  have step: "uni_can_imp_handle_rx_frame True h b t (imp_frame_of (imc_own_address a) (imc_own_address b) sid UNI_CAN_IMP_CMD_END [] 0)
      UNI_CAN_IMP_CMD_END now imp_output_zero = (imp_session_zero acc, ?out, IMP_OK)"
  proof -
    have "uni_can_imp_handle_rx_frame True h b t (imp_frame_of (imc_own_address a) (imc_own_address b) sid UNI_CAN_IMP_CMD_END [] 0)
      UNI_CAN_IMP_CMD_END now imp_output_zero = uni_can_imp_finish_rx True h b t UNI_CAN_IMP_CMD_END imp_output_zero"
      by (simp add: uni_can_imp_handle_rx_frame_def imp_cmd_defs)
    also have "\<dots> = (imp_session_zero acc, ?out, IMP_OK)"
      unfolding uni_can_imp_finish_rx_def Let_def fields uni_can_imp_msg.simps create if_not_P [OF accepted] option.case
      by (simp add: imp_reply_def imp_set_frame_eq uni_can_imp_set_event_def fields uni_can_imp_session_release_def imp_delivered_def)
    finally show ?thesis .
  qed
  have "imo_frame_ready ?out" "imo_frame ?out = imp_ack a b sid" "imp_report ?out = [(IMP_EVENT_RX_FINISHED, Some (imp_delivered a b sid P))]"
    by (simp_all add: imp_output_zero_def imp_report_def)
  moreover have "uni_can_imp_add_frame True h (Some (imp_put b j t))
      (Some (imp_sending_frame (imc_own_address a) (imc_own_address b) sid P (length P))) now (Some old) =
    (Some (imp_put b j (imp_session_zero acc)), Some ?out, IMP_OK)"
    unfolding imp_sending_frame_def if_not_P [OF less_irrefl]
    by (rule receiver_gets [OF link t refl _ _ step]) (simp_all add: imp_cmd_defs)
  ultimately show ?thesis
    by blast
qed


section \<open>A whole transfer\<close>

lemma imp_report_frame: "imp_report (imp_output_zero\<lparr>imo_frame_ready := True, imo_frame := f\<rparr>) = []"
  by (simp add: imp_report_def imp_output_zero_def)

text \<open>From the first piece to the end: one round for each piece and one for the end.\<close>

lemma dialogue_from:
  assumes link: "imp_link a b i j sid P" and h: "heap_total h" and valid: "imp_accepts b P"
    and "imp_holds a b acc_b sid P offset t" "offset \<le> length P" "n > (length P - offset + 7) div 8"
  shows "imp_dialogue h clock n (imp_put a i (imp_sends a b acc_a sid P offset got before)) (imp_put b j t)
      (imp_sending_frame (imc_own_address a) (imc_own_address b) sid P offset) =
    Some (imp_put a i (imp_session_zero acc_a), imp_put b j (imp_session_zero acc_b),
      [(IMP_EVENT_RX_FINISHED, Some (imp_delivered a b sid P)), (IMP_EVENT_TX_FINISHED, None)])"
  using assms(4-6)
proof (induction n arbitrary: offset t got before)
  case 0
  then show ?case by simp
next
  case (Suc n)
  show ?case
  proof (cases "offset < length P")
    case True
    obtain t' where t': "uni_can_imp_add_frame True h (Some (imp_put b j t))
        (Some (imp_sending_frame (imc_own_address a) (imc_own_address b) sid P offset)) (clock (Suc (2 * n))) (Some imp_output_zero) =
      (Some (imp_put b j t'), Some (imp_output_zero\<lparr>imo_frame_ready := True, imo_frame := imp_ack a b sid\<rparr>), IMP_OK)"
      "imp_holds a b acc_b sid P (offset + min 8 (length P - offset)) t'"
      using receiver_gets_data [OF link Suc.prems(1) True h] by blast
    have left: "n > (length P - (offset + min 8 (length P - offset)) + 7) div 8"
      using True Suc.prems(3) by (auto simp: min_def)
    note rest = Suc.IH [OF t'(2) _ left]
    show ?thesis
      using True
      by (simp add: t'(1) sender_data_acked [OF link True] imp_goes_on_def rest imp_report_frame)
  next
    case False
    with Suc.prems(2) have end_of: "offset = length P"
      by simp
    obtain out where out: "uni_can_imp_add_frame True h (Some (imp_put b j t))
        (Some (imp_sending_frame (imc_own_address a) (imc_own_address b) sid P offset)) (clock (Suc (2 * n))) (Some imp_output_zero) =
      (Some (imp_put b j (imp_session_zero acc_b)), Some out, IMP_OK)" "imo_frame_ready out" "imo_frame out = imp_ack a b sid"
      "imp_report out = [(IMP_EVENT_RX_FINISHED, Some (imp_delivered a b sid P))]"
      using receiver_gets_end [OF link _ h valid] Suc.prems(1) unfolding end_of by blast
    obtain out' where out': "uni_can_imp_add_frame True h (Some (imp_put a i (imp_sends a b acc_a sid P offset got before)))
        (Some (imp_ack a b sid)) (clock (2 * n)) (Some imp_output_zero) = (Some (imp_put a i (imp_session_zero acc_a)), Some out', IMP_OK)"
      "\<not> imo_frame_ready out'" "imp_report out' = [(IMP_EVENT_TX_FINISHED, None)]"
      using sender_end_acked [OF link False] by blast
    show ?thesis
      by (simp add: out out')
  qed
qed

lemma imp_put_free:
  assumes "imp_wf c" "i < length (uni_can_imp_sessions c)" "ims_state (uni_can_imp_sessions c ! i) = IMP_SESSION_FREE"
  shows "imp_put c i (imp_session_zero (ims_address_mask (uni_can_imp_sessions c ! i))) = c"
proof -
  have "imp_session_zero (ims_address_mask (uni_can_imp_sessions c ! i)) = uni_can_imp_sessions c ! i"
    using imp_wfD(2) [OF assms(1,2)] assms(3) by (simp add: imp_session_ok_def)
  then show ?thesis
    using imp_wfD(1) [OF assms(1)] by (auto simp: imp_put_def uni_can_imp_sessions_def)
qed

text \<open>What \<open>uni_can_imp_start_send\<close> leaves for a message with acknowledgement.\<close>

lemma start_send_outgoing:
  assumes wf: "imp_wf a" and h: "heap_ok h" and msg: "imp_msg_wf msg" "imm_mode msg = IMP_WITH_ACK" "imm_address_to msg \<noteq> UNI_CAN_IMP_DEVICE_ID_ALL"
    and run: "uni_can_imp_start_send h (Some a) (Some msg) now (Some old) = (Some a', Some out, IMP_OK)"
  shows "\<exists>i sid. uni_can_imp_find_free_session a (imm_address_to msg) = Some i \<and> sid \<le> 15 \<and>
    a' = imp_put a i (imp_outgoing (ims_address_mask (uni_can_imp_sessions a ! i)) (imm_address_to msg) (imc_own_address a) sid
      (imp_msg_payload msg) IMP_SESSION_TX_WAIT_START_ACK 0 0 now) \<and>
    imo_frame out = imp_frame_of (imc_own_address a) (imm_address_to msg) sid UNI_CAN_IMP_CMD_START [] 0 \<and>
    length (imp_msg_payload msg) = unat (imm_length msg)"
proof -
  let ?P = "imp_msg_payload msg"
  from start_send_cases [OF wf msg(1) h run, unfolded if_P [OF refl]] obtain i k p where
    *: "uni_can_imp_find_free_session a (imm_address_to msg) = Some i"
    "imp_unique_id (imp_reserved_ids a (imm_address_to msg)) = Some k" "p = None \<longleftrightarrow> imm_length msg = 0"
    "p \<noteq> None \<longrightarrow> p = Some ?P \<and> length ?P = unat (imm_length msg)"
    "a' = imp_put a i (imp_new_session (uni_can_imp_sessions a ! i) (imc_own_address a) msg k now p)"
    "imo_frame out = imo_frame (uni_can_imp_set_frame a imp_output_zero (imm_address_to msg)
      (imp_new_id k (imc_own_address a > imm_address_to msg)) UNI_CAN_IMP_CMD_START [] 0)"
    using msg(2,3) by auto
  have "k < 8"
    using first_index_lt [OF *(2) [unfolded imp_unique_id_def]] by simp
  note sid = imp_new_id_range(1) [OF this]
  have len: "length ?P = unat (imm_length msg)"
    using *(3,4) by (cases p) (simp_all add: imp_msg_payload_def)
  then have "imm_length msg = of_nat (length ?P)" "p = (if ?P = [] then None else Some ?P)"
    using *(3,4) by (cases p; auto simp: unat_eq_0)+
  then have "imp_new_session (uni_can_imp_sessions a ! i) (imc_own_address a) msg k now p =
    imp_outgoing (ims_address_mask (uni_can_imp_sessions a ! i)) (imm_address_to msg) (imc_own_address a)
      (imp_new_id k (imc_own_address a > imm_address_to msg)) ?P IMP_SESSION_TX_WAIT_START_ACK 0 0 now"
    using msg(2,3) by (simp add: imp_new_session_def imp_outgoing_def imp_session_zero_def)
  with *(1,5,6) sid len show ?thesis
    by (auto simp: imp_set_frame_eq)
qed


text \<open>The two ends after a transfer has been started.\<close>

lemma start_send_links:
  assumes "imp_reachable a" "imp_reachable b" "heap_total h"
    and "imp_msg_wf msg" "imm_mode msg = IMP_WITH_ACK" "imm_address_to msg = imc_own_address b"
      "imm_length msg \<le> imc_max_message_size b"
    and start: "uni_can_imp_start_send h (Some a) (Some msg) now (Some old) = (Some a', Some out, IMP_OK)"
    and free: "uni_can_imp_find_free_session b (imc_own_address a) = Some j"
    and sid: "sid = uni_can_imp_canid_get_session_id (cm_id (imo_frame out))"
      "uni_can_imp_find_session a (imc_own_address b) (imc_own_address a) sid = None"
      "uni_can_imp_find_session b (imc_own_address a) (imc_own_address b) sid = None"
  obtains i where "uni_can_imp_find_free_session a (imc_own_address b) = Some i"
    and "a' = imp_put a i (imp_out a b (ims_address_mask (uni_can_imp_sessions a ! i)) sid (imp_msg_payload msg)
      IMP_SESSION_TX_WAIT_START_ACK 0 0 now)"
    and "imo_frame out = imp_frame_of (imc_own_address a) (imc_own_address b) sid UNI_CAN_IMP_CMD_START [] 0"
    and "length (imp_msg_payload msg) = unat (imm_length msg)" and "imp_link a b i j sid (imp_msg_payload msg)"
proof -
  let ?P = "imp_msg_payload msg"
  have wf: "imp_wf a" "imp_wf b"
    using assms(1,2) by (simp_all add: reachable_wf)
  have valid: "uni_can_imp_source_address_valid (imc_own_address a)" "uni_can_imp_source_address_valid (imc_own_address b)"
    using wf by (simp_all add: imp_wfD(3))
  then have "imm_address_to msg \<noteq> UNI_CAN_IMP_DEVICE_ID_ALL"
    using assms(6) by (simp add: uni_can_imp_source_address_valid_def)
  from start_send_outgoing [OF wf(1) heap_totalD [OF assms(3)] assms(4,5) this start] obtain i s where
    i: "uni_can_imp_find_free_session a (imc_own_address b) = Some i" and "s \<le> 15"
    and a': "a' = imp_put a i (imp_out a b (ims_address_mask (uni_can_imp_sessions a ! i)) s ?P IMP_SESSION_TX_WAIT_START_ACK 0 0 now)"
    and frame: "imo_frame out = imp_frame_of (imc_own_address a) (imc_own_address b) s UNI_CAN_IMP_CMD_START [] 0"
    and len: "length ?P = unat (imm_length msg)"
    unfolding assms(6) by blast
  have "s = sid"
    using \<open>s \<le> 15\<close> sid(1) unfolding frame imp_frame_of_def by (simp add: u8_and_4_bits)
  have "imp_link a b i j sid ?P"
    using wf \<open>s \<le> 15\<close> \<open>s = sid\<close> sid free_session_bounds [OF wf(1) i] free_session_bounds [OF wf(2) free] assms(7)
    by (simp add: imp_link_def len word_le_nat_alt)
  with i a' frame len \<open>s = sid\<close> show ?thesis
    by (intro that) simp_all
qed

lemma incoming_holds:
  "imp_holds a b acc sid P 0 (imp_incoming acc (imc_own_address a) (imc_own_address b) sid None 0 0 now)"
  unfolding imp_holds_def
  by (auto simp: imp_incoming_def imp_session_zero_def imp_session_ok_def imp_payload_def imp_is_tx_states)

lemma imp_delivered_msg:
  assumes "length (imp_msg_payload msg) = unat (imm_length msg)"
  shows "imp_delivered a b sid (imp_msg_payload msg) = \<lparr>imm_mode = IMP_WITH_ACK, imm_address_from = imc_own_address a,
    imm_address_to = imc_own_address b, imm_session_id = sid, imm_length = imm_length msg,
    imm_data = (if imm_length msg = 0 then None else Some (imp_msg_payload msg))\<rparr>"
proof -
  have "imm_length msg = of_nat (length (imp_msg_payload msg))" "imp_msg_payload msg = [] \<longleftrightarrow> imm_length msg = 0"
    using assms by (auto simp: unat_eq_0 simp flip: length_0_conv)
  then show ?thesis
    by (simp add: imp_delivered_def)
qed


section \<open>Properties\<close>

text \<open>
  C5. A transfer with acknowledgement arrives. Two devices are in any reachable state and both have
  memory, and \<open>uni_can_imp_start_send\<close> has accepted at the first a message with acknowledgement to the
  second, one whose data have the length it says. The second has a free session that accepts the first, its limit for messages allows the length,
  and its validator, if it has one, allows the payload; and the identifier that was chosen names no
  session between the two that is still open, neither one in which the first receives from the second
  nor one in which the second receives from the first (\<open>uni_can_imp_start_send\<close> only looks at the
  transfers the first sends). Then over a wire that loses nothing the two need one round trip for the
  start, one for each eight bytes and one for the end: the receiver hands out the message with exactly
  the bytes that were sent, the sender reports the end of the transfer, and both contexts, their other
  sessions included, are then what they were before it.
\<close>

theorem imp_acked_transfer:
  assumes "imp_reachable a" "imp_reachable b" "heap_total h"
    and "imp_msg_wf msg" "imm_mode msg = IMP_WITH_ACK" "imm_address_to msg = imc_own_address b"
      "imm_length msg \<le> imc_max_message_size b" "imp_accepts b (imp_msg_payload msg)"
    and start: "uni_can_imp_start_send h (Some a) (Some msg) now (Some old) = (Some a', Some out, IMP_OK)"
    and free: "uni_can_imp_find_free_session b (imc_own_address a) = Some j"
    and sid: "sid = uni_can_imp_canid_get_session_id (cm_id (imo_frame out))"
      "uni_can_imp_find_session a (imc_own_address b) (imc_own_address a) sid = None"
      "uni_can_imp_find_session b (imc_own_address a) (imc_own_address b) sid = None"
    and rounds: "n > (unat (imm_length msg) + 7) div 8 + 1"
  shows "imp_dialogue h clock n a' b (imo_frame out) = Some (a, b,
    [(IMP_EVENT_RX_FINISHED, Some \<lparr>imm_mode = IMP_WITH_ACK, imm_address_from = imc_own_address a,
        imm_address_to = imc_own_address b, imm_session_id = sid, imm_length = imm_length msg,
        imm_data = (if imm_length msg = 0 then None else Some (imp_msg_payload msg))\<rparr>),
     (IMP_EVENT_TX_FINISHED, None)])"
proof -
  let ?P = "imp_msg_payload msg"
  have wf: "imp_wf a" "imp_wf b"
    using assms(1,2) by (simp_all add: reachable_wf)
  obtain i where i: "uni_can_imp_find_free_session a (imc_own_address b) = Some i"
    and a': "a' = imp_put a i (imp_out a b (ims_address_mask (uni_can_imp_sessions a ! i)) sid ?P IMP_SESSION_TX_WAIT_START_ACK 0 0 now)"
    and frame: "imo_frame out = imp_frame_of (imc_own_address a) (imc_own_address b) sid UNI_CAN_IMP_CMD_START [] 0"
    and len: "length ?P = unat (imm_length msg)" and link: "imp_link a b i j sid ?P"
    by (rule start_send_links [OF assms(1-7) start free sid])
  note bounds = free_session_bounds [OF wf(1) i] free_session_bounds [OF wf(2) free]
  let ?t = "\<lambda>now. imp_incoming (ims_address_mask (uni_can_imp_sessions b ! j)) (imc_own_address a) (imc_own_address b) sid None 0 0 now"
  note holds = incoming_holds [of a b "ims_address_mask (uni_can_imp_sessions b ! j)" sid ?P]
  obtain m where n: "n = Suc m" "m > (length ?P - 0 + 7) div 8"
    using rounds len by (cases n) auto
  note first = add_frame_starts [OF wf(2) refl imp_linkD(10) [OF link] sid(3) free frame imp_linkD(3) [OF link]]
  note rest = dialogue_from [OF link assms(3,8) holds _ n(2)]
  have "imp_dialogue h clock n a' b (imo_frame out) = Some (a, b,
      [(IMP_EVENT_RX_FINISHED, Some (imp_delivered a b sid ?P)), (IMP_EVENT_TX_FINISHED, None)])"
    unfolding n(1) a'
    by (simp add: first sender_start_acked [OF link] imp_goes_on_def rest imp_report_frame imp_put_free wf bounds)
  then show ?thesis
    by (simp add: imp_delivered_msg [OF len])
qed

lemma imp_example_start:
  "uni_can_imp_start_send heap_zeros (Some (imp_example_ctx 2)) (Some imp_example_msg) 0 (Some imp_output_zero) =
    (Some (imp_put (imp_example_ctx 2) 0 (imp_outgoing 0xFFFFFFFF 1 2 1 [1, 2, 3, 4, 5, 6, 7, 8, 9, 10] IMP_SESSION_TX_WAIT_START_ACK 0 0 0)),
     Some (imp_output_zero\<lparr>imo_frame_ready := True, imo_frame := imp_frame_of 2 1 1 UNI_CAN_IMP_CMD_START [] 0,
       imo_peer_address := 1, imo_session_id := 1\<rparr>), IMP_OK)"
  by (simp add: uni_can_imp_start_send_def imp_example_ctx_def imp_example_msg_def uni_can_imp_address_valid_def imp_const_defs
      uni_can_imp_find_free_session_def imp_array_def uni_can_imp_sessions_def imp_session_zero_def uni_can_imp_session_accepts_def
      imp_unique_id_def imp_reserved_ids_def uni_can_imp_session_is_tx_def less_eq_uni_can_imp_session_state_def
      uni_can_imp_session_copy_payload_def heap_zeros_def blit_def imp_reply_def imp_set_frame_eq imp_put_def imp_outgoing_def upt_rec)

lemma imp_example_reachable [simp]: "imp_reachable (imp_example_ctx 2)" "imp_reachable (imp_example_ctx 1)"
  by (rule imp_started [OF imp_example_init], simp add: word_le_nat_alt)+

lemma imp_example_simps [simp]:
  "imc_own_address (imp_example_ctx k) = k" "imc_max_message_size (imp_example_ctx k) = 64"
  "imc_message_validator (imp_example_ctx k) = None" "imc_session_timeout_ms (imp_example_ctx k) = 100"
  "uni_can_imp_sessions (imp_example_ctx k) = [imp_session_zero 0xFFFFFFFF]"
  by (simp_all add: imp_example_ctx_def uni_can_imp_sessions_def)

lemma imp_example_free [simp]:
  "uni_can_imp_find_free_session (imp_example_ctx 1) 2 = Some 0" "uni_can_imp_find_session (imp_example_ctx k) p l s = None"
  by (simp_all add: uni_can_imp_find_free_session_def uni_can_imp_find_session_def imp_array_def uni_can_imp_session_accepts_def)
    (simp_all add: imp_example_ctx_def imp_session_zero_def)

lemma imp_example_msg_simps:
  "imp_msg_wf imp_example_msg" "imm_mode imp_example_msg = IMP_WITH_ACK" "imm_address_to imp_example_msg = 1"
  "imm_length imp_example_msg = 10" "imp_msg_payload imp_example_msg = [1, 2, 3, 4, 5, 6, 7, 8, 9, 10]"
  by (simp_all add: imp_example_msg_def imp_msg_wf_def imp_msg_payload_def)

lemma imp_example_sid: "uni_can_imp_canid_get_session_id (cm_id (imp_frame_of 2 1 1 UNI_CAN_IMP_CMD_START [] 0)) = 1"
  by (simp add: imp_frame_of_id word_le_nat_alt imp_cmd_defs)

theorem imp_acked_transfer_witness:
  "\<exists>a'. imp_dialogue heap_zeros (\<lambda>_. 0) 4 a' (imp_example_ctx 1) (imp_frame_of 2 1 1 UNI_CAN_IMP_CMD_START [] 0) =
    Some (imp_example_ctx 2, imp_example_ctx 1,
      [(IMP_EVENT_RX_FINISHED, Some \<lparr>imm_mode = IMP_WITH_ACK, imm_address_from = 2, imm_address_to = 1, imm_session_id = 1,
          imm_length = 10, imm_data = Some [1, 2, 3, 4, 5, 6, 7, 8, 9, 10]\<rparr>), (IMP_EVENT_TX_FINISHED, None)])"
proof -
  note msg = imp_example_msg_simps
  show ?thesis
    using imp_acked_transfer [OF imp_example_reachable heap_total_zeros msg(1,2) _ _ _ imp_example_start,
        where j = 0 and sid = 1 and n = 4 and clock = "\<lambda>_. 0"]
    by (auto simp: msg imp_example_sid imp_accepts_def word_le_nat_alt)
qed

end
