(* ===== verification/ImpLoss.thy ===== *)
theory ImpLoss
  imports ImpTransfer
begin

text \<open>
  The Intermodule Protocol when frames are lost, when nothing answers, and without
  acknowledgements (\<open>src/uni_can_protocol_imp.c\<close>): what a transfer over a wire that loses frames can
  leave behind, how \<open>uni_can_imp_process\<close> ends the sessions that wait, and what a transfer without
  acknowledgement delivers.
\<close>

section \<open>A wire that loses frames\<close>

text \<open>
  The dialogue of \<open>ImpTransfer\<close>; \<open>lost\<close> says which of the frames never arrive. After a loss neither
  side has anything to say.
\<close>

fun imp_lossy_dialogue :: "heap \<Rightarrow> (nat \<Rightarrow> u32) \<Rightarrow> (nat \<Rightarrow> bool) \<Rightarrow> nat \<Rightarrow> uni_can_imp_ctx \<Rightarrow> uni_can_imp_ctx \<Rightarrow> uni_can_message
    \<Rightarrow> (uni_can_imp_ctx \<times> uni_can_imp_ctx \<times> (uni_can_imp_event \<times> uni_can_imp_msg option) list) option" where
  "imp_lossy_dialogue h clock lost 0 a b frame = None"
| "imp_lossy_dialogue h clock lost (Suc n) a b frame =
     (if lost (Suc (2 * n)) then Some (a, b, [])
      else
        (case uni_can_imp_add_frame True h (Some b) (Some frame) (clock (Suc (2 * n))) (Some imp_output_zero) of
           (Some b, Some answer, _) \<Rightarrow>
             if \<not> imo_frame_ready answer \<or> lost (2 * n) then Some (a, b, imp_report answer)
             else
               (case uni_can_imp_add_frame True h (Some a) (Some (imo_frame answer)) (clock (2 * n)) (Some imp_output_zero) of
                  (Some a, Some reply, _) \<Rightarrow>
                    if \<not> imo_frame_ready reply then Some (a, b, imp_report answer @ imp_report reply)
                    else map_option (\<lambda>(a, b, reports). (a, b, imp_report answer @ imp_report reply @ reports))
                           (imp_lossy_dialogue h clock lost n a b (imo_frame reply))
                | _ \<Rightarrow> None)
         | _ \<Rightarrow> None))"

lemma imp_lossless: "imp_lossy_dialogue h clock (\<lambda>_. False) n a b frame = imp_dialogue h clock n a b frame"
  by (induction n arbitrary: a b frame) (auto split: option.splits prod.splits)

text \<open>A session that waits for its peer, since one of the given times.\<close>

definition imp_waits :: "u32 \<Rightarrow> u32 set \<Rightarrow> uni_can_imp_session \<Rightarrow> bool" where
  "imp_waits acc since s \<longleftrightarrow> ims_address_mask s = acc \<and> ims_last_activity_ms s \<in> since \<and>
     ims_state s \<in> {IMP_SESSION_TX_WAIT_START_ACK, IMP_SESSION_TX_WAIT_DATA_ACK, IMP_SESSION_TX_WAIT_END_ACK}"

definition imp_listens :: "u32 \<Rightarrow> u32 set \<Rightarrow> uni_can_imp_session \<Rightarrow> bool" where
  "imp_listens acc since s \<longleftrightarrow> ims_address_mask s = acc \<and> ims_last_activity_ms s \<in> since \<and> ims_state s = IMP_SESSION_RX"

text \<open>
  How a transfer can end: complete, with the receiver done and the sender waiting, or with neither
  done.
\<close>

definition imp_ends ::
  "uni_can_imp_ctx \<Rightarrow> uni_can_imp_ctx \<Rightarrow> nat \<Rightarrow> nat \<Rightarrow> u32 \<Rightarrow> u32 \<Rightarrow> u8 \<Rightarrow> u8 list \<Rightarrow> u32 set
    \<Rightarrow> uni_can_imp_ctx \<times> uni_can_imp_ctx \<times> (uni_can_imp_event \<times> uni_can_imp_msg option) list \<Rightarrow> bool" where
  "imp_ends a b i j acc_a acc_b sid P since = (\<lambda>(a', b', reports).
     let got = (IMP_EVENT_RX_FINISHED, Some (imp_delivered a b sid P)) in
     (reports = [got, (IMP_EVENT_TX_FINISHED, None)] \<and> a' = imp_put a i (imp_session_zero acc_a) \<and>
        b' = imp_put b j (imp_session_zero acc_b)) \<or>
     (\<exists>s. imp_waits acc_a since s \<and> a' = imp_put a i s \<and>
        (reports = [got] \<and> b' = imp_put b j (imp_session_zero acc_b) \<or>
         reports = [] \<and> (\<exists>t. (t = imp_session_zero acc_b \<or> imp_listens acc_b since t) \<and> b' = imp_put b j t))))"

lemma imp_ends_waiting:
  assumes "imp_waits acc_a since s" "t = imp_session_zero acc_b \<or> imp_listens acc_b since t"
  shows "imp_ends a b i j acc_a acc_b sid P since (imp_put a i s, imp_put b j t, [])"
  using assms by (auto simp: imp_ends_def)

lemma imp_sends_waits: "now \<in> since \<Longrightarrow> imp_waits acc since (imp_sends a b acc sid P offset got now)"
  by (simp add: imp_waits_def imp_sending_def imp_outgoing_def)

lemma imp_holds_listens: "imp_holds a b acc sid P offset t \<Longrightarrow> ims_last_activity_ms t \<in> since \<Longrightarrow> imp_listens acc since t"
  using imp_holds_fields [of a b acc sid P offset t] by (simp add: imp_listens_def)

text \<open>Nothing is reported before the end, so what a rest of the transfer reports is all.\<close>

lemma lossy_from:
  assumes link: "imp_link a b i j sid P" and h: "heap_total h" and valid: "imp_accepts b P" and since: "range clock \<subseteq> since"
    and "imp_holds a b acc_b sid P offset t" "ims_last_activity_ms t \<in> since" "before \<in> since" "offset \<le> length P"
      "n > (length P - offset + 7) div 8"
  shows "\<exists>r. imp_lossy_dialogue h clock lost n (imp_put a i (imp_sends a b acc_a sid P offset got before)) (imp_put b j t)
      (imp_sending_frame (imc_own_address a) (imc_own_address b) sid P offset) = Some r \<and>
    imp_ends a b i j acc_a acc_b sid P since r"
  using assms(5-9)
proof (induction n arbitrary: offset t got before)
  case 0
  then show ?case by simp
next
  case (Suc n)
  have clock: "clock k \<in> since" for k
    using since by blast
  note waits = imp_sends_waits [OF Suc.prems(3), where acc = acc_a and a = a and b = b and sid = sid and P = P and offset = offset and got = got]
  note listens = imp_holds_listens [OF Suc.prems(1,2)]
  show ?case
  proof (cases "lost (Suc (2 * n))")
    case True
    then show ?thesis
      using imp_ends_waiting [OF waits disjI2 [OF listens]] by simp
  next
    case arrives: False
    show ?thesis
    proof (cases "offset < length P")
      case True
      obtain t' where t': "uni_can_imp_add_frame True h (Some (imp_put b j t))
          (Some (imp_sending_frame (imc_own_address a) (imc_own_address b) sid P offset)) (clock (Suc (2 * n))) (Some imp_output_zero) =
        (Some (imp_put b j t'), Some (imp_output_zero\<lparr>imo_frame_ready := True, imo_frame := imp_ack a b sid\<rparr>), IMP_OK)"
        "imp_holds a b acc_b sid P (offset + min 8 (length P - offset)) t'" "ims_last_activity_ms t' = clock (Suc (2 * n))"
        using receiver_gets_data [OF link Suc.prems(1) True h] by blast
      have t'_times: "ims_last_activity_ms t' \<in> since"
        using t'(3) clock by simp
      show ?thesis
      proof (cases "lost (2 * n)")
        case True
        then show ?thesis
          using imp_ends_waiting [OF waits disjI2 [OF imp_holds_listens [OF t'(2) t'_times]]] arrives
          by (simp add: t'(1) imp_report_frame)
      next
        case False
        have left: "n > (length P - (offset + min 8 (length P - offset)) + 7) div 8"
          using True Suc.prems(5) by (auto simp: min_def)
        have more: "offset + min 8 (length P - offset) \<le> length P"
          using True by simp
        obtain r where r: "imp_lossy_dialogue h clock lost n
            (imp_put a i (imp_sends a b acc_a sid P (offset + min 8 (length P - offset)) (imp_piece P offset) (clock (2 * n)))) (imp_put b j t')
            (imp_sending_frame (imc_own_address a) (imc_own_address b) sid P (offset + min 8 (length P - offset))) = Some r"
          "imp_ends a b i j acc_a acc_b sid P since r"
          using Suc.IH [OF t'(2) t'_times clock more left] by blast
        then show ?thesis
          using arrives False
          by (cases r) (simp add: t'(1) sender_data_acked [OF link True] imp_goes_on_def imp_report_frame)
      qed
    next
      case False
      with Suc.prems(4) have end_of: "offset = length P"
        by simp
      obtain out where out: "uni_can_imp_add_frame True h (Some (imp_put b j t))
          (Some (imp_sending_frame (imc_own_address a) (imc_own_address b) sid P offset)) (clock (Suc (2 * n))) (Some imp_output_zero) =
        (Some (imp_put b j (imp_session_zero acc_b)), Some out, IMP_OK)" "imo_frame_ready out" "imo_frame out = imp_ack a b sid"
        "imp_report out = [(IMP_EVENT_RX_FINISHED, Some (imp_delivered a b sid P))]"
        using receiver_gets_end [OF link _ h valid] Suc.prems(1) unfolding end_of by blast
      obtain out' where out': "uni_can_imp_add_frame True h (Some (imp_put a i (imp_sends a b acc_a sid P offset got before)))
          (Some (imp_ack a b sid)) (clock (2 * n)) (Some imp_output_zero) = (Some (imp_put a i (imp_session_zero acc_a)), Some out', IMP_OK)"
        "\<not> imo_frame_ready out'" "imp_report out' = [(IMP_EVENT_TX_FINISHED, None)]"
        using sender_end_acked [OF link False] by blast
      show ?thesis
        using arrives waits by (cases "lost (2 * n)") (auto simp: out out' imp_ends_def)
    qed
  qed
qed

section \<open>Sessions that wait\<close>

text \<open>A session that has waited too long is released, and nothing else changes.\<close>

lemma process_expires:
  assumes wf: "imp_wf c" and i: "i < length (uni_can_imp_sessions c)"
    and others: "list_all (\<lambda>x. \<not> imp_timed_out c late x) (uni_can_imp_sessions c)" and s: "imp_timed_out c late s"
  shows "\<exists>out. uni_can_imp_process (Some (imp_put c i s)) late (Some old) =
      (Some (imp_put c i (imp_session_zero (ims_address_mask s))), Some out, IMP_OK) \<and>
    imo_event out = (if ims_state s = IMP_SESSION_RX then IMP_EVENT_RX_TIMEOUT else IMP_EVENT_TX_TIMEOUT) \<and> \<not> imo_frame_ready out"
proof -
  have same: "imp_timed_out (imp_put c i s) late = imp_timed_out c late"
    by (rule ext) (simp add: imp_timed_out_def)
  have "first_index (imp_timed_out c late) ((uni_can_imp_sessions c)[i := s]) = Some i"
  proof (rule first_index_unique)
    fix k
    assume "k < length ((uni_can_imp_sessions c)[i := s])" "imp_timed_out c late ((uni_can_imp_sessions c)[i := s] ! k)"
    then show "k = i"
      using others by (cases "k = i") (simp_all add: list_all_length)
  qed (use i s in simp_all)
  then show ?thesis
    using imp_wfD(1) [OF wf] i
    by (simp add: uni_can_imp_process_def same imp_array_put [OF wf] uni_can_imp_session_release_def uni_can_imp_set_event_def
        imp_output_zero_def)
qed

text \<open>Every way a transfer can end is settled by the timeouts.\<close>

lemma imp_ends_settle:
  assumes link: "imp_link a b i j sid P" and ends: "imp_ends a b i j acc_a acc_b sid P since (a1, b1, reports)"
    and restored: "imp_put a i (imp_session_zero acc_a) = a" "imp_put b j (imp_session_zero acc_b) = b"
    and late: "\<forall>t\<in>since. late - t > imc_session_timeout_ms a \<and> late - t > imc_session_timeout_ms b"
    and quiet: "list_all (\<lambda>x. \<not> imp_timed_out a late x) (uni_can_imp_sessions a)"
      "list_all (\<lambda>x. \<not> imp_timed_out b late x) (uni_can_imp_sessions b)"
  shows "\<exists>out_a out_b.
    (let got = (IMP_EVENT_RX_FINISHED, Some (imp_delivered a b sid P))
     in reports = [got, (IMP_EVENT_TX_FINISHED, None)] \<and> a1 = a \<and> b1 = b \<or>
        (reports = [got] \<and> b1 = b \<or>
         reports = [] \<and> (b1 = b \<or> uni_can_imp_process (Some b1) late (Some old) = (Some b, Some out_b, IMP_OK) \<and>
           imo_event out_b = IMP_EVENT_RX_TIMEOUT)) \<and>
        uni_can_imp_process (Some a1) late (Some old) = (Some a, Some out_a, IMP_OK) \<and> imo_event out_a = IMP_EVENT_TX_TIMEOUT)"
proof -
  note a = process_expires [OF imp_linkD(1,7) [OF link] quiet(1)]
  note b = process_expires [OF imp_linkD(2,9) [OF link] quiet(2)]
  have sender: "\<exists>out. uni_can_imp_process (Some (imp_put a i s)) late (Some old) = (Some a, Some out, IMP_OK) \<and>
      imo_event out = IMP_EVENT_TX_TIMEOUT" if "imp_waits acc_a since s" for s
    using a [of s old] that late restored(1) by (auto simp: imp_waits_def imp_timed_out_def)
  have receiver: "\<exists>out. uni_can_imp_process (Some (imp_put b j t)) late (Some old) = (Some b, Some out, IMP_OK) \<and>
      imo_event out = IMP_EVENT_RX_TIMEOUT" if "imp_listens acc_b since t" for t
    using b [of t old] that late restored(2) by (auto simp: imp_listens_def imp_timed_out_def)
  from ends consider
      "reports = [(IMP_EVENT_RX_FINISHED, Some (imp_delivered a b sid P)), (IMP_EVENT_TX_FINISHED, None)]"
        "a1 = imp_put a i (imp_session_zero acc_a)" "b1 = imp_put b j (imp_session_zero acc_b)"
    | s where "imp_waits acc_a since s" "a1 = imp_put a i s"
        "reports = [(IMP_EVENT_RX_FINISHED, Some (imp_delivered a b sid P))]" "b1 = imp_put b j (imp_session_zero acc_b)"
    | s where "imp_waits acc_a since s" "a1 = imp_put a i s" "reports = []" "b1 = imp_put b j (imp_session_zero acc_b)"
    | s t where "imp_waits acc_a since s" "a1 = imp_put a i s" "reports = []" "imp_listens acc_b since t" "b1 = imp_put b j t"
    unfolding imp_ends_def Let_def prod.case by blast
  then show ?thesis
  proof cases
    case 1
    then show ?thesis
      by (simp add: restored Let_def)
  next
    case 2
    with sender [OF 2(1)] show ?thesis
      by (auto simp: restored Let_def)
  next
    case 3
    with sender [OF 3(1)] show ?thesis
      by (auto simp: restored Let_def)
  next
    case 4
    with sender [OF 4(1)] receiver [OF 4(4)] show ?thesis
      by (auto simp: Let_def)
  qed
qed

text \<open>What is left to do for a session when no frame arrives: one call to end it, and one for each piece.\<close>

definition imp_awaits :: "uni_can_imp_session \<Rightarrow> bool" where
  "imp_awaits s \<longleftrightarrow> ims_state s \<in> {IMP_SESSION_TX_WAIT_START_ACK, IMP_SESSION_TX_WAIT_DATA_ACK, IMP_SESSION_TX_WAIT_END_ACK}"

definition imp_work :: "uni_can_imp_session \<Rightarrow> nat" where
  "imp_work s = (if ims_state s = IMP_SESSION_FREE then 0
     else if ims_state s = IMP_SESSION_TX_WITHOUT_ACK then (unat (ims_payload_size s) - unat (ims_payload_offset s) + 7) div 8 + 1
     else 1)"

lemma imp_work_0: "imp_work s = 0 \<longleftrightarrow> ims_state s = IMP_SESSION_FREE"
  by (simp add: imp_work_def)

definition imp_left :: "uni_can_imp_ctx \<Rightarrow> nat" where
  "imp_left c = sum_list (map imp_work (uni_can_imp_sessions c))"

text \<open>Calls of \<open>uni_can_imp_process\<close>, one after the other, and what comes out of them.\<close>

fun imp_processes :: "(nat \<Rightarrow> u32) \<Rightarrow> nat \<Rightarrow> uni_can_imp_ctx \<Rightarrow> uni_can_imp_ctx \<times> uni_can_imp_output list" where
  "imp_processes clock 0 c = (c, [])"
| "imp_processes clock (Suc n) c =
     (case uni_can_imp_process (Some c) (clock n) (Some imp_output_zero) of
        (Some c, Some out, _) \<Rightarrow> (case imp_processes clock n c of (c, outs) \<Rightarrow> (c, out # outs))
      | _ \<Rightarrow> (c, []))"

definition imp_expired :: "(nat \<Rightarrow> u32) \<Rightarrow> uni_can_imp_ctx \<Rightarrow> bool" where
  "imp_expired clock c \<longleftrightarrow> (\<forall>s\<in>set (uni_can_imp_sessions c). \<forall>k.
     imp_awaits s \<or> ims_state s = IMP_SESSION_RX \<longrightarrow> clock k - ims_last_activity_ms s > imc_session_timeout_ms c)"

text \<open>A weight of the sessions is what one session has, and the rest.\<close>

lemma sum_put:
  fixes f :: "uni_can_imp_session \<Rightarrow> nat"
  assumes "i < length (uni_can_imp_sessions c)" "f (uni_can_imp_sessions c ! i) = f s + d"
  shows "sum_list (map f (uni_can_imp_sessions c)) = sum_list (map f (uni_can_imp_sessions (imp_put c i s))) + d"
proof -
  let ?ss = "uni_can_imp_sessions c"
  have "sum_list (map f ?ss) = sum_list (map f (take i ?ss)) + f (?ss ! i) + sum_list (map f (drop (Suc i) ?ss))"
    using assms(1) by (subst id_take_nth_drop [of i ?ss]) simp_all
  moreover have "uni_can_imp_sessions (imp_put c i s) = take i ?ss @ s # drop (Suc i) ?ss"
    using assms(1) by (simp add: upd_conv_take_nth_drop)
  ultimately show ?thesis
    using assms(2) by simp
qed

text \<open>The weights that a call moves from the sessions to what comes out.\<close>

definition imp_rx :: "uni_can_imp_session \<Rightarrow> nat" where "imp_rx s = of_bool (ims_state s = IMP_SESSION_RX)"
definition imp_tx :: "uni_can_imp_session \<Rightarrow> nat" where "imp_tx s = of_bool (imp_awaits s)"
definition imp_wa :: "uni_can_imp_session \<Rightarrow> nat" where "imp_wa s = of_bool (ims_state s = IMP_SESSION_TX_WITHOUT_ACK)"
definition imp_is_event :: "uni_can_imp_event \<Rightarrow> uni_can_imp_output \<Rightarrow> nat" where
  "imp_is_event e out = of_bool (imo_event out = e)"

lemma work_piece:
  fixes size offset :: nat
  assumes "offset < size"
  shows "(size - offset + 7) div 8 = Suc ((size - (offset + min 8 (size - offset)) + 7) div 8)"
proof (cases "size - offset \<le> 8")
  case True
  then have "(size - offset + 7) div 8 = 1"
    using assms by (intro div_nat_eqI) auto
  with True show ?thesis by simp
next
  case False
  then have "size - offset + 7 = (size - (offset + 8) + 7) + 8"
    by simp
  with False show ?thesis by simp
qed

lemma process_works:
  assumes wf: "imp_wf c" and expired: "imp_expired clock c" and left: "imp_left c \<noteq> 0"
  obtains i s out where "uni_can_imp_process (Some c) (clock k) (Some imp_output_zero) = (Some (imp_put c i s), Some out, IMP_OK)"
    and "i < length (uni_can_imp_sessions c)" and "imp_work (uni_can_imp_sessions c ! i) = Suc (imp_work s)"
    and "imp_rx (uni_can_imp_sessions c ! i) = imp_rx s + imp_is_event IMP_EVENT_RX_TIMEOUT out"
    and "imp_tx (uni_can_imp_sessions c ! i) = imp_tx s + imp_is_event IMP_EVENT_TX_TIMEOUT out"
    and "imp_wa (uni_can_imp_sessions c ! i) = imp_wa s + imp_is_event IMP_EVENT_TX_FINISHED out"
    and "\<not> imp_awaits s" and "ims_state s \<noteq> IMP_SESSION_RX"
proof -
  note array = imp_array_wf [OF wf]
  have sessions: "imc_sessions c \<noteq> None"
    using imp_wfD(1) [OF wf] by blast
  have timed: "imp_timed_out c (clock k) s \<longleftrightarrow> imp_awaits s \<or> ims_state s = IMP_SESSION_RX" if "s \<in> set (uni_can_imp_sessions c)" for s
    using expired that by (auto simp: imp_expired_def imp_timed_out_def imp_awaits_def)
  show ?thesis
  proof (cases "first_index (imp_timed_out c (clock k)) (imp_array c)")
    case (Some i)
    let ?s = "uni_can_imp_sessions c ! i"
    note i = first_index_Some [OF Some, unfolded array]
    then have "imp_awaits ?s \<or> ims_state ?s = IMP_SESSION_RX"
      using timed [of ?s] by simp
    then show ?thesis
      using i sessions Some
      by (intro that [of i "uni_can_imp_session_release ?s" "uni_can_imp_set_event imp_output_zero
            (if ims_state ?s = IMP_SESSION_RX then IMP_EVENT_RX_TIMEOUT else IMP_EVENT_TX_TIMEOUT) ?s"])
        (auto simp: uni_can_imp_process_def Let_def uni_can_imp_session_release_def imp_work_def imp_rx_def imp_tx_def imp_wa_def
          imp_is_event_def uni_can_imp_set_event_def imp_awaits_def)
  next
    case none: None
    then have waiting: "\<not> imp_awaits s" "ims_state s \<noteq> IMP_SESSION_RX" if "s \<in> set (uni_can_imp_sessions c)" for s
      using timed [OF that] that by (auto simp: first_index_None array)
    have "\<exists>s\<in>set (uni_can_imp_sessions c). ims_state s \<noteq> IMP_SESSION_FREE"
      using left by (auto simp: imp_left_def imp_work_def)
    then have "\<exists>s\<in>set (uni_can_imp_sessions c). ims_state s = IMP_SESSION_TX_WITHOUT_ACK"
      using waiting by (metis imp_awaits_def insertCI uni_can_imp_session_state.exhaust)
    then obtain i where first: "first_index (\<lambda>s. ims_state s = IMP_SESSION_TX_WITHOUT_ACK) (imp_array c) = Some i"
      by (cases "first_index (\<lambda>s. ims_state s = IMP_SESSION_TX_WITHOUT_ACK) (imp_array c)") (auto simp: array)
    let ?s = "uni_can_imp_sessions c ! i"
    note i = first_index_Some [OF first, unfolded array]
    show ?thesis
    proof (cases "ims_payload_offset ?s < ims_payload_size ?s")
      case True
      let ?s' = "?s\<lparr>ims_payload_offset := ims_payload_offset ?s + ucast (imp_next_length ?s)\<rparr>"
      have len: "unat (imp_next_length ?s) = min 8 (unat (ims_payload_size ?s) - unat (ims_payload_offset ?s))"
        by (rule imp_next_length_bounds(3) [OF True])
      have less: "unat (ims_payload_offset ?s) < unat (ims_payload_size ?s)"
        using True by (simp add: word_less_nat_alt)
      have small: "unat (ims_payload_offset ?s) + unat (imp_next_length ?s) < 65536"
        using len less unat_u16_less [of "ims_payload_size ?s"] by simp
      have moved: "unat (ims_payload_offset ?s + ucast (imp_next_length ?s)) = unat (ims_payload_offset ?s) + unat (imp_next_length ?s)"
        using small by (simp add: unat_plus_if_size word_size)
      have "imp_work ?s = (unat (ims_payload_size ?s) - unat (ims_payload_offset ?s) + 7) div 8 + 1"
        "imp_work ?s' = (unat (ims_payload_size ?s) - unat (ims_payload_offset ?s + ucast (imp_next_length ?s)) + 7) div 8 + 1"
        using i by (simp_all add: imp_work_def)
      then have "imp_work ?s = Suc (imp_work ?s')"
        unfolding moved len work_piece [OF less] by simp
      then show ?thesis
        using none first i True sessions
        by (intro that [of i ?s' "(uni_can_imp_set_frame c imp_output_zero (ims_peer_address ?s) (ims_session_id ?s)
                UNI_CAN_IMP_CMD_DATA_WA (imp_payload_from_offset ?s) (imp_next_length ?s))
              \<lparr>imo_peer_address := ims_peer_address ?s, imo_session_id := ims_session_id ?s\<rparr>"])
          (auto simp: uni_can_imp_process_def Let_def imp_rx_def imp_tx_def imp_wa_def imp_is_event_def imp_set_frame_eq
            imp_output_zero_def imp_awaits_def simp del: first_index_None)
    next
      case False
      have "imp_work ?s = 1"
        using i False by (simp add: imp_work_def word_less_nat_alt)
      then show ?thesis
        using none first i False sessions
        by (intro that [of i "uni_can_imp_session_release ?s" "uni_can_imp_set_event (imp_reply c imp_output_zero ?s UNI_CAN_IMP_CMD_END_WA)
              IMP_EVENT_TX_FINISHED ?s"])
          (auto simp: uni_can_imp_process_def Let_def uni_can_imp_session_release_def imp_work_def imp_rx_def imp_tx_def imp_wa_def
            imp_is_event_def uni_can_imp_set_event_def imp_awaits_def simp del: first_index_None)
    qed
  qed
qed

text \<open>All calls together.\<close>

lemma process_expired:
  assumes "imp_expired clock c" "i < length (uni_can_imp_sessions c)" "\<not> imp_awaits s" "ims_state s \<noteq> IMP_SESSION_RX"
  shows "imp_expired clock (imp_put c i s)"
  using assms set_update_subset_insert [of "uni_can_imp_sessions c" i s] by (fastforce simp: imp_expired_def)

lemma processes_end:
  assumes "imp_wf c" "imp_expired clock c" "imp_processes clock (imp_left c) c = (d, outs)"
  shows "list_all (\<lambda>s. ims_state s = IMP_SESSION_FREE) (uni_can_imp_sessions d) \<and> length outs = imp_left c \<and>
    sum_list (map imp_rx (uni_can_imp_sessions c)) = sum_list (map (imp_is_event IMP_EVENT_RX_TIMEOUT) outs) \<and>
    sum_list (map imp_tx (uni_can_imp_sessions c)) = sum_list (map (imp_is_event IMP_EVENT_TX_TIMEOUT) outs) \<and>
    sum_list (map imp_wa (uni_can_imp_sessions c)) = sum_list (map (imp_is_event IMP_EVENT_TX_FINISHED) outs)"
  using assms
proof (induction "imp_left c" arbitrary: c outs)
  case 0
  then have "list_all (\<lambda>s. ims_state s = IMP_SESSION_FREE) (uni_can_imp_sessions c)"
    by (simp add: imp_left_def list_all_iff imp_work_0)
  then show ?case
    using 0 by (auto simp: list_all_iff imp_rx_def imp_tx_def imp_wa_def imp_awaits_def)
next
  case (Suc n)
  obtain i s out where step: "uni_can_imp_process (Some c) (clock n) (Some imp_output_zero) = (Some (imp_put c i s), Some out, IMP_OK)"
    and i: "i < length (uni_can_imp_sessions c)" and work: "imp_work (uni_can_imp_sessions c ! i) = Suc (imp_work s)"
    and weights: "imp_rx (uni_can_imp_sessions c ! i) = imp_rx s + imp_is_event IMP_EVENT_RX_TIMEOUT out"
      "imp_tx (uni_can_imp_sessions c ! i) = imp_tx s + imp_is_event IMP_EVENT_TX_TIMEOUT out"
      "imp_wa (uni_can_imp_sessions c ! i) = imp_wa s + imp_is_event IMP_EVENT_TX_FINISHED out"
    and s: "\<not> imp_awaits s" "ims_state s \<noteq> IMP_SESSION_RX"
    by (rule process_works [OF Suc.prems(1,2), of n]) (use Suc.hyps(2) in simp)
  have left: "imp_left c = imp_left (imp_put c i s) + 1"
    unfolding imp_left_def by (rule sum_put [OF i]) (simp add: work)
  have wf: "imp_wf (imp_put c i s)"
    using process_wf [OF Suc.prems(1) step] by simp
  obtain outs' where rest: "imp_processes clock n (imp_put c i s) = (d, outs')" "outs = out # outs'"
    using Suc.prems(3) step unfolding Suc.hyps(2) [symmetric] by (auto split: prod.splits)
  have n: "n = imp_left (imp_put c i s)"
    using left Suc.hyps(2) by simp
  note IH = Suc.hyps(1) [OF n wf process_expired [OF Suc.prems(2) i s], folded n, OF rest(1)]
  show ?case
    using IH sum_put [OF i weights(1)] sum_put [OF i weights(2)] sum_put [OF i weights(3)] Suc.hyps(2) rest(2) by simp
qed


section \<open>Properties\<close>

text \<open>
  C6. A transfer with acknowledgement over a wire that may lose any of its frames. The conditions are
  those of C5: reachable states, memory on both sides, a message with acknowledgement that
  \<open>uni_can_imp_start_send\<close> accepted, a free session, a limit and a validator at the receiver that allow it,
  and an identifier that names no open session between the two. Then one of three things happens: the
  receiver hands out exactly the message that was sent and the sender reports success, both contexts
  being what they were before; or the receiver hands it out, with its context as before, and the
  sender does not report; or neither reports anything. So nothing else is ever delivered, nothing twice, and the sender
  reports success only when the message has arrived. And a transfer that was cut off leaves nothing
  behind: at a time when the transfer has timed out on both sides by their configurations and no other
  session of either has, one call of \<open>uni_can_imp_process\<close> on either side that still waits puts its
  context back to what it was before the transfer, and reports the timeout.
\<close>

theorem imp_lossy_transfer:
  assumes "imp_reachable a" "imp_reachable b" "heap_total h"
    and "imp_msg_wf msg" "imm_mode msg = IMP_WITH_ACK" "imm_address_to msg = imc_own_address b"
      "imm_length msg \<le> imc_max_message_size b" "imp_accepts b (imp_msg_payload msg)"
    and start: "uni_can_imp_start_send h (Some a) (Some msg) now (Some old) = (Some a', Some out, IMP_OK)"
    and free: "uni_can_imp_find_free_session b (imc_own_address a) = Some j"
    and sid: "sid = uni_can_imp_canid_get_session_id (cm_id (imo_frame out))"
      "uni_can_imp_find_session a (imc_own_address b) (imc_own_address a) sid = None"
      "uni_can_imp_find_session b (imc_own_address a) (imc_own_address b) sid = None"
    and rounds: "n > (unat (imm_length msg) + 7) div 8 + 1"
    and late: "\<forall>t\<in>insert now (range clock). late - t > imc_session_timeout_ms a \<and> late - t > imc_session_timeout_ms b"
    and quiet: "list_all (\<lambda>x. \<not> imp_timed_out a late x) (uni_can_imp_sessions a)"
      "list_all (\<lambda>x. \<not> imp_timed_out b late x) (uni_can_imp_sessions b)"
  shows "\<exists>a1 b1 reports out_a out_b.
    imp_lossy_dialogue h clock lost n a' b (imo_frame out) = Some (a1, b1, reports) \<and>
    (let got = (IMP_EVENT_RX_FINISHED, Some \<lparr>imm_mode = IMP_WITH_ACK, imm_address_from = imc_own_address a,
           imm_address_to = imc_own_address b, imm_session_id = sid, imm_length = imm_length msg,
           imm_data = (if imm_length msg = 0 then None else Some (imp_msg_payload msg))\<rparr>)
     in reports = [got, (IMP_EVENT_TX_FINISHED, None)] \<and> a1 = a \<and> b1 = b \<or>
        (reports = [got] \<and> b1 = b \<or>
         reports = [] \<and> (b1 = b \<or> uni_can_imp_process (Some b1) late (Some old) = (Some b, Some out_b, IMP_OK) \<and>
           imo_event out_b = IMP_EVENT_RX_TIMEOUT)) \<and>
        uni_can_imp_process (Some a1) late (Some old) = (Some a, Some out_a, IMP_OK) \<and> imo_event out_a = IMP_EVENT_TX_TIMEOUT)"
proof -
  let ?P = "imp_msg_payload msg" and ?since = "insert now (range clock)"
  have wf: "imp_wf a" "imp_wf b"
    using assms(1,2) by (simp_all add: reachable_wf)
  obtain i where i: "uni_can_imp_find_free_session a (imc_own_address b) = Some i"
    and a': "a' = imp_put a i (imp_out a b (ims_address_mask (uni_can_imp_sessions a ! i)) sid ?P IMP_SESSION_TX_WAIT_START_ACK 0 0 now)"
    and frame: "imo_frame out = imp_frame_of (imc_own_address a) (imc_own_address b) sid UNI_CAN_IMP_CMD_START [] 0"
    and len: "length ?P = unat (imm_length msg)" and link: "imp_link a b i j sid ?P"
    by (rule start_send_links [OF assms(1-7) start free sid])
  note bounds = free_session_bounds [OF wf(1) i] free_session_bounds [OF wf(2) free]
  let ?acc_a = "ims_address_mask (uni_can_imp_sessions a ! i)" and ?acc_b = "ims_address_mask (uni_can_imp_sessions b ! j)"
  have restored: "imp_put a i (imp_session_zero ?acc_a) = a" "imp_put b j (imp_session_zero ?acc_b) = b"
    using wf bounds by (simp_all add: imp_put_free)
  let ?s = "imp_out a b ?acc_a sid ?P IMP_SESSION_TX_WAIT_START_ACK 0 0 now"
  let ?t = "\<lambda>now. imp_incoming ?acc_b (imc_own_address a) (imc_own_address b) sid None 0 0 now"
  have waits: "imp_waits ?acc_a ?since ?s"
    by (simp add: imp_waits_def imp_outgoing_def)
  have listens: "imp_listens ?acc_b ?since (?t (clock k))" for k
    by (simp add: imp_listens_def imp_incoming_def)
  obtain m where n: "n = Suc m" "m > (length ?P - 0 + 7) div 8"
    using rounds len by (cases n) auto
  note first = add_frame_starts [OF wf(2) refl imp_linkD(10) [OF link] sid(3) free frame imp_linkD(3) [OF link]]
  have since: "ims_last_activity_ms (?t (clock (Suc (2 * m)))) \<in> ?since"
    by (simp add: imp_incoming_def)
  obtain r where r: "imp_lossy_dialogue h clock lost m (imp_put a i (imp_sends a b ?acc_a sid ?P 0 0 (clock (2 * m))))
      (imp_put b j (?t (clock (Suc (2 * m))))) (imp_sending_frame (imc_own_address a) (imc_own_address b) sid ?P 0) = Some r"
    "imp_ends a b i j ?acc_a ?acc_b sid ?P ?since r"
    using lossy_from [OF link assms(3,8) subset_insertI incoming_holds since _ _ n(2), where before = "clock (2 * m)"
        and got = 0 and lost = lost and acc_a = ?acc_a] by auto
  have "\<exists>r. imp_lossy_dialogue h clock lost n a' b (imo_frame out) = Some r \<and> imp_ends a b i j ?acc_a ?acc_b sid ?P ?since r"
  proof -
    consider "lost (Suc (2 * m))" | "\<not> lost (Suc (2 * m))" "lost (2 * m)" | "\<not> lost (Suc (2 * m))" "\<not> lost (2 * m)"
      by blast
    then show ?thesis
    proof cases
      case 1
      then show ?thesis
        using imp_ends_waiting [OF waits disjI1 [OF refl], where a = a and b = b and i = i and j = j and sid = sid and P = ?P and acc_b = ?acc_b] by (simp add: n(1) a' restored)
    next
      case 2
      then show ?thesis
        using imp_ends_waiting [OF waits disjI2 [OF listens], where a = a and b = b and i = i and j = j and sid = sid and P = ?P] by (simp add: n(1) a' first imp_report_frame)
    next
      case 3
      with r show ?thesis
        unfolding n(1) a' by (cases r) (simp add: first sender_start_acked [OF link] imp_goes_on_def imp_report_frame)
    qed
  qed
  then obtain a1 b1 reports where finished: "imp_lossy_dialogue h clock lost n a' b (imo_frame out) = Some (a1, b1, reports)"
    "imp_ends a b i j ?acc_a ?acc_b sid ?P ?since (a1, b1, reports)"
    by auto
  show ?thesis
    using imp_ends_settle [OF link finished(2) restored late quiet, unfolded imp_delivered_msg [OF len]] finished(1) by blast
qed

text \<open>
  C7. No session waits forever. Whatever state a context has come to: when nothing arrives any more
  and the configured time has passed for every session that waits, exactly as many calls of
  \<open>uni_can_imp_process\<close> as there is work left (one for each session that waits, and for each transfer
  without acknowledgement one for every eight bytes that are left and one for its end) free every
  session. Each waiting receiver and each waiting sender is reported as a timeout once, each transfer
  without acknowledgement as finished once.
\<close>

theorem imp_sessions_end:
  assumes "imp_reachable c"
    and "\<forall>s\<in>set (uni_can_imp_sessions c). \<forall>k. imp_awaits s \<or> ims_state s = IMP_SESSION_RX \<longrightarrow>
      clock k - ims_last_activity_ms s > imc_session_timeout_ms c"
    and "imp_processes clock (imp_left c) c = (d, outs)"
  shows "list_all (\<lambda>s. ims_state s = IMP_SESSION_FREE) (uni_can_imp_sessions d) \<and> length outs = imp_left c \<and>
    count_list (map imo_event outs) IMP_EVENT_RX_TIMEOUT = count_list (map ims_state (uni_can_imp_sessions c)) IMP_SESSION_RX \<and>
    count_list (map imo_event outs) IMP_EVENT_TX_TIMEOUT = length (filter imp_awaits (uni_can_imp_sessions c)) \<and>
    count_list (map imo_event outs) IMP_EVENT_TX_FINISHED =
      count_list (map ims_state (uni_can_imp_sessions c)) IMP_SESSION_TX_WITHOUT_ACK"
proof -
  have events: "sum_list (map (imp_is_event e) os) = count_list (map imo_event os) e" for e os
    by (induction os) (simp_all add: imp_is_event_def)
  have states: "sum_list (map imp_rx ss) = count_list (map ims_state ss) IMP_SESSION_RX"
    "sum_list (map imp_wa ss) = count_list (map ims_state ss) IMP_SESSION_TX_WITHOUT_ACK"
    "sum_list (map imp_tx ss) = length (filter imp_awaits ss)" for ss
    by (induction ss) (simp_all add: imp_rx_def imp_wa_def imp_tx_def)
  show ?thesis
    using processes_end [OF reachable_wf [OF assms(1)] _ assms(3)] assms(2)
    unfolding imp_expired_def events states by simp
qed


section \<open>Concrete runs\<close>

text \<open>The last acknowledgement is lost: the message has arrived, the sender reports a timeout.\<close>

theorem imp_lossy_transfer_witness:
  "\<exists>a1 b1 reports out. imp_lossy_dialogue heap_zeros (\<lambda>_. 0) (\<lambda>k. k = 0) 4
      (imp_put (imp_example_ctx 2) 0 (imp_outgoing 0xFFFFFFFF 1 2 1 [1, 2, 3, 4, 5, 6, 7, 8, 9, 10] IMP_SESSION_TX_WAIT_START_ACK 0 0 0))
      (imp_example_ctx 1) (imp_frame_of 2 1 1 UNI_CAN_IMP_CMD_START [] 0) = Some (a1, b1, reports) \<and> length reports \<le> 2 \<and>
    (length reports < 2 \<longrightarrow> uni_can_imp_process (Some a1) 500 (Some imp_output_zero) = (Some (imp_example_ctx 2), Some out, IMP_OK))"
proof -
  note msg = imp_example_msg_simps
  have late: "\<forall>t\<in>insert 0 (range (\<lambda>_. 0)). imc_session_timeout_ms (imp_example_ctx 2) < 500 - t \<and>
      imc_session_timeout_ms (imp_example_ctx 1) < 500 - t"
    by (simp add: word_less_nat_alt)
  have quiet: "list_all (\<lambda>x. \<not> imp_timed_out (imp_example_ctx k) 500 x) (uni_can_imp_sessions (imp_example_ctx k))" for k
    by (simp add: imp_timed_out_def)
  show ?thesis
    using imp_lossy_transfer [OF imp_example_reachable heap_total_zeros msg(1,2) _ _ _ imp_example_start _ _ _ _ _ late quiet quiet,
        where j = 0 and sid = 1 and n = 4 and lost = "\<lambda>k. k = 0"]
    by (fastforce simp: msg imp_example_sid imp_accepts_def word_le_nat_alt Let_def)
qed

theorem imp_sessions_end_witness:
  "let c = imp_put (imp_example_ctx 2) 0 (imp_outgoing 0xFFFFFFFF 1 2 1 [1, 2, 3, 4, 5, 6, 7, 8, 9, 10] IMP_SESSION_TX_WAIT_START_ACK 0 0 0);
     (d, outs) = imp_processes (\<lambda>_. 500) 1 c
   in list_all (\<lambda>s. ims_state s = IMP_SESSION_FREE) (uni_can_imp_sessions d) \<and> count_list (map imo_event outs) IMP_EVENT_TX_TIMEOUT = 1"
proof -
  let ?c = "imp_put (imp_example_ctx 2) 0 (imp_outgoing 0xFFFFFFFF 1 2 1 [1, 2, 3, 4, 5, 6, 7, 8, 9, 10] IMP_SESSION_TX_WAIT_START_ACK 0 0 0)"
  have reach: "imp_reachable ?c"
    by (rule imp_sent [OF imp_example_reachable(1) imp_example_msg_simps(1) heap_totalD [OF heap_total_zeros] imp_example_start])
  obtain d outs where run: "imp_processes (\<lambda>_. 500) (imp_left ?c) ?c = (d, outs)"
    by (metis surj_pair)
  have "imp_left ?c = 1"
    by (simp add: imp_left_def imp_work_def)
  with imp_sessions_end [OF reach _ run] run show ?thesis
    by (simp add: imp_awaits_def imp_outgoing_def word_less_nat_alt)
qed

end
