(* ===== verification/ImpUnacked.thy ===== *)
theory ImpUnacked
  imports ImpLoss
begin

text \<open>
  Transfers without acknowledgement of the Intermodule Protocol
  (\<open>src/uni_can_protocol_imp.c\<close>): the frames that the calls of \<open>uni_can_imp_process\<close> emit, and what a
  device that hears them hands out; with the address of all devices there are any number of them.
\<close>

section \<open>A device that listens\<close>

text \<open>The frames given one after the other, with the reports.\<close>

fun imp_feeds :: "heap \<Rightarrow> (nat \<Rightarrow> u32) \<Rightarrow> uni_can_imp_ctx \<Rightarrow> uni_can_message list
    \<Rightarrow> uni_can_imp_ctx \<times> (uni_can_imp_event \<times> uni_can_imp_msg option) list" where
  "imp_feeds h clock c [] = (c, [])"
| "imp_feeds h clock c (f # fs) =
     (case uni_can_imp_add_frame True h (Some c) (Some f) (clock (length fs)) (Some imp_output_zero) of
        (Some c, Some out, _) \<Rightarrow> (case imp_feeds h clock c fs of (c, reports) \<Rightarrow> (c, imp_report out @ reports))
      | _ \<Rightarrow> (c, []))"

text \<open>Session \<open>t\<close> holds the first \<open>offset\<close> bytes of \<open>P\<close>.\<close>

definition imp_hears :: "uni_can_imp_ctx \<Rightarrow> u32 \<Rightarrow> u8 \<Rightarrow> u8 \<Rightarrow> u8 \<Rightarrow> u8 list \<Rightarrow> nat \<Rightarrow> uni_can_imp_session \<Rightarrow> bool" where
  "imp_hears b acc peer to sid P offset t \<longleftrightarrow> ims_state t = IMP_SESSION_RX \<and> ims_mode t = IMP_WITHOUT_ACK \<and>
     ims_peer_address t = peer \<and> ims_local_address t = to \<and> ims_session_id t = sid \<and> ims_address_mask t = acc \<and>
     ims_payload_size t = of_nat offset \<and> imp_session_ok (imc_max_message_size b) (imc_own_address b) t \<and>
     take offset (imp_payload t) = take offset P"

text \<open>A device that can take a transfer of \<open>P\<close> from \<open>peer\<close> to \<open>to\<close>.\<close>

definition imp_listener :: "uni_can_imp_ctx \<Rightarrow> nat \<Rightarrow> u8 \<Rightarrow> u8 \<Rightarrow> u8 \<Rightarrow> u8 list \<Rightarrow> bool" where
  "imp_listener b j peer to sid P \<longleftrightarrow> imp_wf b \<and> (to = imc_own_address b \<or> to = UNI_CAN_IMP_DEVICE_ID_ALL) \<and>
     uni_can_imp_source_address_valid peer \<and> sid \<le> 15 \<and> uni_can_imp_find_session b peer to sid = None \<and>
     j < length (uni_can_imp_sessions b) \<and> length P \<le> unat (imc_max_message_size b)"

lemma imp_listenerD:
  assumes "imp_listener b j peer to sid P"
  shows "imp_wf b" "to \<le> 31" "peer \<le> 31" "sid \<le> 15" "uni_can_imp_find_session b peer to sid = None"
    "j < length (uni_can_imp_sessions b)" "length P < 2 ^ 16" "length P \<le> unat (imc_max_message_size b)"
    "to = imc_own_address b \<or> to = UNI_CAN_IMP_DEVICE_ID_ALL" "uni_can_imp_source_address_valid peer"
  using assms imp_wfD(3) [of b] unat_u16_less [of "imc_max_message_size b"]
  by (auto simp: imp_listener_def uni_can_imp_source_address_valid_def uni_can_imp_address_valid_def imp_const_defs)

text \<open>The commands of a transfer without acknowledgement are taken from any address.\<close>

lemma listener_frame:
  assumes b: "imp_listener b j peer to sid P"
    and f: "f = imp_frame_of peer to sid command data len" "len \<le> 8"
      "command \<in> {UNI_CAN_IMP_CMD_START_WA, UNI_CAN_IMP_CMD_DATA_WA, UNI_CAN_IMP_CMD_END_WA}"
    and c: "imc_sessions c \<noteq> None" "imc_own_address c = imc_own_address b"
    and session: "imp_session_for c peer to sid command now = (d, Some j)" "\<not> uni_can_imp_session_is_tx (uni_can_imp_sessions d ! j)"
    and run: "uni_can_imp_handle_rx_frame True h d (uni_can_imp_sessions d ! j) f command now imp_output_zero = (t', out, r)"
  shows "uni_can_imp_add_frame True h (Some c) (Some f) now (Some old) = (Some (imp_put d j t'), Some out, r)"
proof -
  have command: "command \<le> 31" "\<not> command > UNI_CAN_IMP_CMD_ABORT_WA" "uni_can_imp_command_without_ack command"
    using f(3) by (auto simp: uni_can_imp_command_without_ack_def imp_cmd_defs)
  note id = imp_frame_of_id [OF imp_listenerD(3,2,4) [OF b] command(1), of data len, folded f(1)]
  have len: "unat (cm_len f) \<le> UNI_CAN_MESSAGE_MAXLEN"
    using f(2) by (simp add: f(1) imp_frame_of_def UNI_CAN_MESSAGE_MAXLEN_def word_le_nat_alt)
  show ?thesis
    unfolding uni_can_imp_add_frame_def option.case prod.case id Let_def session(1)
    using c imp_listenerD(9,10) [OF b] len command session(2) run by auto
qed

lemma listener_starts:
  assumes b: "imp_listener b j peer to sid P" and free: "uni_can_imp_find_free_session b peer = Some j"
  shows "\<exists>t. uni_can_imp_add_frame True h (Some b) (Some (imp_frame_of peer to sid UNI_CAN_IMP_CMD_START_WA [] 0)) now (Some old) =
      (Some (imp_put b j t), Some imp_output_zero, IMP_OK) \<and>
    imp_hears b (ims_address_mask (uni_can_imp_sessions b ! j)) peer to sid P 0 t"
proof -
  let ?t = "(imp_session_zero (ims_address_mask (uni_can_imp_sessions b ! j)))\<lparr>ims_state := IMP_SESSION_RX,
    ims_mode := IMP_WITHOUT_ACK, ims_peer_address := peer, ims_local_address := to, ims_session_id := sid,
    ims_last_activity_ms := now\<rparr>"
  have "uni_can_imp_add_frame True h (Some b) (Some (imp_frame_of peer to sid UNI_CAN_IMP_CMD_START_WA [] 0)) now (Some old) =
      (Some (imp_put (imp_put b j ?t) j ?t), Some imp_output_zero, IMP_OK)"
  proof (rule listener_frame [OF b refl])
    show "imp_session_for b peer to sid UNI_CAN_IMP_CMD_START_WA now = (imp_put b j ?t, Some j)"
      by (simp add: imp_session_for_def imp_listenerD(5) [OF b] free imp_cmd_defs imp_session_zero_def)
  qed (use imp_wfD(1) [OF imp_listenerD(1) [OF b]] imp_listenerD(6) [OF b] in
      \<open>auto simp: uni_can_imp_handle_rx_frame_def imp_cmd_defs imp_session_zero_def imp_is_tx_states\<close>)
  moreover have "imp_hears b (ims_address_mask (uni_can_imp_sessions b ! j)) peer to sid P 0 ?t"
    by (auto simp: imp_hears_def imp_session_zero_def imp_session_ok_def imp_payload_def imp_is_tx_states)
  ultimately show ?thesis
    by (intro exI [of _ ?t]) simp
qed

lemma listener_gets:
  assumes b: "imp_listener b j peer to sid P" and t: "imp_hears b acc peer to sid P offset t"
    and f: "f = imp_frame_of peer to sid command data len" "len \<le> 8"
      "command \<in> {UNI_CAN_IMP_CMD_DATA_WA, UNI_CAN_IMP_CMD_END_WA}"
    and run: "uni_can_imp_handle_rx_frame True h b t f command now imp_output_zero = (t', out, r)"
  shows "uni_can_imp_add_frame True h (Some (imp_put b j t)) (Some f) now (Some old) = (Some (imp_put b j t'), Some out, r)"
proof -
  have "imp_named t peer to sid" and rx: "\<not> uni_can_imp_session_is_tx t"
    using t by (simp_all add: imp_hears_def imp_named_def imp_is_tx_states)
  then have found: "imp_session_for (imp_put b j t) peer to sid command now = (imp_put b j t, Some j)"
    by (simp add: imp_session_for_def find_session_put [OF imp_listenerD(1,5,6) [OF b]])
  have "uni_can_imp_add_frame True h (Some (imp_put b j t)) (Some f) now (Some old) =
      (Some (imp_put (imp_put b j t) j t'), Some out, r)"
    by (rule listener_frame [OF b f(1,2) _ _ _ found])
      (use f(3) imp_wfD(1) [OF imp_listenerD(1) [OF b]] imp_listenerD(6) [OF b] rx run in auto)
  then show ?thesis
    by simp
qed

lemma listener_data:
  assumes b: "imp_listener b j peer to sid P" and t: "imp_hears b acc peer to sid P offset t" and offset: "offset < length P"
    and h: "heap_total h"
  shows "\<exists>t'. uni_can_imp_add_frame True h (Some (imp_put b j t))
      (Some (imp_frame_of peer to sid UNI_CAN_IMP_CMD_DATA_WA (drop offset P) (imp_piece P offset))) now (Some old) =
    (Some (imp_put b j t'), Some imp_output_zero, IMP_OK) \<and>
    imp_hears b acc peer to sid P (offset + min 8 (length P - offset)) t'"
proof -
  let ?n = "min 8 (length P - offset)"
  define f where "f = imp_frame_of peer to sid UNI_CAN_IMP_CMD_DATA_WA (drop offset P) (imp_piece P offset)"
  have facts: "imp_session_ok (imc_max_message_size b) (imc_own_address b) t" "ims_state t = IMP_SESSION_RX"
    "ims_payload_size t = of_nat offset" "take offset (imp_payload t) = take offset P"
    using t by (simp_all add: imp_hears_def)
  obtain t1 where app: "uni_can_imp_session_append h b t (data_u8 (cm_data f)) (cm_len f) = (t1, IMP_OK)"
    and t1: "\<exists>p capacity. t1 = t\<lparr>ims_payload := p, ims_payload_capacity := capacity, ims_payload_size := of_nat (offset + ?n)\<rparr>"
    and t1_ok: "imp_session_ok (imc_max_message_size b) (imc_own_address b) t1"
    and t1_got: "take (offset + ?n) (imp_payload t1) = take (offset + ?n) P"
    by (rule append_piece [OF facts offset imp_listenerD(8) [OF b] h f_def])
  let ?t' = "t1\<lparr>ims_last_activity_ms := now\<rparr>"
  have fields: "ims_state t1 = IMP_SESSION_RX" "ims_mode t1 = IMP_WITHOUT_ACK" "ims_peer_address t1 = peer" "ims_local_address t1 = to"
    "ims_session_id t1 = sid" "ims_address_mask t1 = acc" "ims_payload_size t1 = of_nat (offset + ?n)"
    using t t1 by (auto simp: imp_hears_def)
  have "imp_session_ok (imc_max_message_size b) (imc_own_address b) ?t'" "take (offset + ?n) (imp_payload ?t') = take (offset + ?n) P"
    using t1_ok t1_got fields(1) by (simp_all add: imp_session_ok_def imp_payload_def imp_is_tx_states)
  then have "imp_hears b acc peer to sid P (offset + ?n) ?t'"
    using fields by (simp add: imp_hears_def)
  moreover have "uni_can_imp_handle_rx_frame True h b t f UNI_CAN_IMP_CMD_DATA_WA now imp_output_zero = (?t', imp_output_zero, IMP_OK)"
    by (simp add: uni_can_imp_handle_rx_frame_def app imp_cmd_defs)
  ultimately show ?thesis
    using listener_gets [OF b t f_def imp_piece_props(2) [OF offset]] by (auto simp: f_def)
qed

text \<open>The message that arrives.\<close>

definition imp_heard :: "u8 \<Rightarrow> u8 \<Rightarrow> u8 \<Rightarrow> u8 list \<Rightarrow> uni_can_imp_msg" where
  "imp_heard peer to sid P = \<lparr>imm_mode = IMP_WITHOUT_ACK, imm_address_from = peer, imm_address_to = to,
     imm_session_id = sid, imm_length = of_nat (length P), imm_data = (if P = [] then None else Some P)\<rparr>"

lemma listener_end:
  assumes b: "imp_listener b j peer to sid P" and t: "imp_hears b acc peer to sid P (length P) t" and h: "heap_total h"
    and valid: "imp_accepts b P"
  shows "\<exists>out. uni_can_imp_add_frame True h (Some (imp_put b j t)) (Some (imp_frame_of peer to sid UNI_CAN_IMP_CMD_END_WA [] 0)) now (Some old) =
      (Some (imp_put b j (imp_session_zero acc)), Some out, IMP_OK) \<and> \<not> imo_frame_ready out \<and>
    imp_report out = [(IMP_EVENT_RX_FINISHED, Some (imp_heard peer to sid P))]"
proof -
  have fields: "ims_mode t = IMP_WITHOUT_ACK" "ims_peer_address t = peer" "ims_local_address t = to" "ims_session_id t = sid"
    "ims_address_mask t = acc" "ims_payload_size t = of_nat (length P)" and payload: "take (length P) (imp_payload t) = P"
    using t by (simp_all add: imp_hears_def)
  have len: "unat (of_nat (length P) :: u16) = length P"
    using imp_listenerD(7) [OF b] by (intro unat_of_nat_u16) simp
  let ?candidate = "\<lparr>imm_mode = IMP_WITHOUT_ACK, imm_address_from = peer, imm_address_to = to, imm_session_id = sid,
    imm_length = of_nat (length P), imm_data = ims_payload t\<rparr>"
  have "imp_msg_payload ?candidate = P"
    using payload by (simp add: imp_msg_payload_def imp_payload_def len)
  then have accepted: "\<not> (case imc_message_validator b of None \<Rightarrow> False | Some valid \<Rightarrow> \<not> valid ?candidate)"
    using valid by (simp add: imp_accepts_def split: option.splits)
  have "uni_can_imp_address_valid to"
    using imp_listenerD(2) [OF b] by (simp add: uni_can_imp_address_valid_def imp_const_defs)
  then have create: "uni_can_imp_msg_create True h IMP_WITHOUT_ACK peer to (ims_payload t) (of_nat (length P)) = Some (imp_heard peer to 0 P)"
    using msg_create_payload [OF h imp_listenerD(10) [OF b] _ _ payload imp_listenerD(7) [OF b], of to IMP_WITHOUT_ACK]
    by (simp add: imp_heard_def)
  let ?out = "imp_output_zero\<lparr>imo_received_message := Some (imp_heard peer to sid P), imo_event := IMP_EVENT_RX_FINISHED,
    imo_peer_address := peer, imo_session_id := sid\<rparr>"
  have "uni_can_imp_finish_rx True h b t UNI_CAN_IMP_CMD_END_WA imp_output_zero = (imp_session_zero acc, ?out, IMP_OK)"
    unfolding uni_can_imp_finish_rx_def Let_def fields uni_can_imp_msg.simps create if_not_P [OF accepted] option.case
    by (simp add: uni_can_imp_set_event_def fields uni_can_imp_session_release_def imp_heard_def imp_cmd_defs)
  then have step: "uni_can_imp_handle_rx_frame True h b t (imp_frame_of peer to sid UNI_CAN_IMP_CMD_END_WA [] 0)
      UNI_CAN_IMP_CMD_END_WA now imp_output_zero = (imp_session_zero acc, ?out, IMP_OK)"
    by (simp add: uni_can_imp_handle_rx_frame_def imp_cmd_defs)
  have "uni_can_imp_add_frame True h (Some (imp_put b j t)) (Some (imp_frame_of peer to sid UNI_CAN_IMP_CMD_END_WA [] 0)) now (Some old) =
      (Some (imp_put b j (imp_session_zero acc)), Some ?out, IMP_OK)"
    by (rule listener_gets [OF b t refl _ _ step]) simp_all
  moreover have "\<not> imo_frame_ready ?out" "imp_report ?out = [(IMP_EVENT_RX_FINISHED, Some (imp_heard peer to sid P))]"
    by (simp_all add: imp_output_zero_def imp_report_def)
  ultimately show ?thesis
    by blast
qed


section \<open>The device that sends\<close>

definition imp_stream :: "u32 \<Rightarrow> u8 \<Rightarrow> u8 \<Rightarrow> u8 \<Rightarrow> u8 list \<Rightarrow> nat \<Rightarrow> u32 \<Rightarrow> uni_can_imp_session" where
  "imp_stream accepted to me sid P offset now = (imp_session_zero accepted)\<lparr>ims_state := IMP_SESSION_TX_WITHOUT_ACK,
     ims_mode := IMP_WITHOUT_ACK, ims_peer_address := to, ims_local_address := me, ims_session_id := sid,
     ims_payload := (if P = [] then None else Some P), ims_payload_size := of_nat (length P),
     ims_payload_capacity := of_nat (length P), ims_payload_offset := of_nat offset, ims_last_activity_ms := now\<rparr>"

lemma imp_stream_simps [simp]:
  "ims_state (imp_stream acc to me sid P offset now) = IMP_SESSION_TX_WITHOUT_ACK"
  "ims_peer_address (imp_stream acc to me sid P offset now) = to"
  "ims_session_id (imp_stream acc to me sid P offset now) = sid"
  "ims_address_mask (imp_stream acc to me sid P offset now) = acc"
  "ims_payload_size (imp_stream acc to me sid P offset now) = of_nat (length P)"
  "ims_payload_offset (imp_stream acc to me sid P offset now) = of_nat offset"
  "imp_payload (imp_stream acc to me sid P offset now) = P"
  by (simp_all add: imp_stream_def imp_payload_def)

text \<open>No other session of the sender has anything to do at the time of the calls.\<close>

definition imp_idle :: "uni_can_imp_ctx \<Rightarrow> (nat \<Rightarrow> u32) \<Rightarrow> bool" where
  "imp_idle a clock \<longleftrightarrow> list_all (\<lambda>s. ims_state s \<noteq> IMP_SESSION_TX_WITHOUT_ACK \<and> (\<forall>k. \<not> imp_timed_out a (clock k) s)) (uni_can_imp_sessions a)"

lemma idle_process:
  assumes wf: "imp_wf a" and i: "i < length (uni_can_imp_sessions a)" and idle: "imp_idle a clock"
    and s: "ims_state s = IMP_SESSION_TX_WITHOUT_ACK"
  shows "uni_can_imp_process (Some (imp_put a i s)) (clock k) (Some old) =
    (if ims_payload_offset s < ims_payload_size s
     then (Some (imp_put a i (s\<lparr>ims_payload_offset := ims_payload_offset s + ucast (imp_next_length s)\<rparr>)),
       Some ((uni_can_imp_set_frame a imp_output_zero (ims_peer_address s) (ims_session_id s) UNI_CAN_IMP_CMD_DATA_WA
         (imp_payload_from_offset s) (imp_next_length s))\<lparr>imo_peer_address := ims_peer_address s, imo_session_id := ims_session_id s\<rparr>), IMP_OK)
     else (Some (imp_put a i (uni_can_imp_session_release s)),
       Some (uni_can_imp_set_event (imp_reply a imp_output_zero s UNI_CAN_IMP_CMD_END_WA) IMP_EVENT_TX_FINISHED s), IMP_OK))"
proof -
  let ?ss = "(uni_can_imp_sessions a)[i := s]"
  have same: "imp_timed_out (imp_put a i s) now = imp_timed_out a now" for now
    by (rule ext) (simp add: imp_timed_out_def)
  have "\<not> imp_timed_out a (clock k) s"
    using s by (simp add: imp_timed_out_def)
  then have none: "first_index (imp_timed_out a (clock k)) ?ss = None"
    using idle set_update_subset_insert [of "uni_can_imp_sessions a" i s] by (auto simp: imp_idle_def list_all_iff)
  have first: "first_index (\<lambda>s. ims_state s = IMP_SESSION_TX_WITHOUT_ACK) ?ss = Some i"
  proof (rule first_index_unique)
    fix j
    assume "j < length ?ss" "ims_state (?ss ! j) = IMP_SESSION_TX_WITHOUT_ACK"
    then show "j = i"
      using idle by (cases "j = i") (simp_all add: imp_idle_def list_all_length)
  qed (use i s in simp_all)
  have sessions: "imc_sessions (imp_put a i s) \<noteq> None"
    using imp_wfD(1) [OF wf] by (auto simp: imp_put_def)
  show ?thesis
    unfolding uni_can_imp_process_def option.case prod.case Let_def imp_array_put [OF wf] same none first if_not_P [OF sessions]
    using i by (simp add: imp_reply_def imp_set_frame_eq)
qed

text \<open>The rest of a transfer, at both ends.\<close>

lemma stream_heard:
  assumes a: "imp_wf a" "i < length (uni_can_imp_sessions a)" "imp_idle a clock" "imc_own_address a = me"
    and b: "imp_listener b j me to sid P" "imp_accepts b P" and h: "heap_total h"
    and "imp_hears b acc_b me to sid P offset t" "offset \<le> length P" "n = (length P - offset + 7) div 8 + 1"
  shows "\<exists>outs. imp_processes clock n (imp_put a i (imp_stream acc_a to me sid P offset now)) =
      (imp_put a i (imp_session_zero acc_a), outs) \<and> list_all imo_frame_ready outs \<and>
    map imo_event outs = replicate (n - 1) IMP_EVENT_NONE @ [IMP_EVENT_TX_FINISHED] \<and>
    imp_feeds h clock' (imp_put b j t) (map imo_frame outs) =
      (imp_put b j (imp_session_zero acc_b), [(IMP_EVENT_RX_FINISHED, Some (imp_heard me to sid P))])"
  using assms(8-10)
proof (induction n arbitrary: offset t)
  case (Suc n)
  let ?s = "imp_stream acc_a to me sid P offset now"
  have un: "unat (of_nat (length P) :: u16) = length P" "unat (of_nat offset :: u16) = offset"
    using imp_listenerD(7) [OF b(1)] Suc.prems(2) by (auto intro!: unat_of_nat_u16)
  show ?case
  proof (cases "offset < length P")
    case True
    let ?o = "offset + min 8 (length P - offset)"
    have less: "ims_payload_offset ?s < ims_payload_size ?s"
      using True by (simp add: word_less_nat_alt un)
    have len: "imp_next_length ?s = imp_piece P offset"
      using imp_next_length_bounds(3) [OF less] imp_piece_props(1) [OF True] by (simp add: un word_unat_eq_iff)
    have "ucast (imp_piece P offset) = (of_nat (min 8 (length P - offset)) :: u16)"
      using imp_piece_props(1) [OF True] by (simp flip: imp_piece_props(1) [OF True])
    then have moved: "?s\<lparr>ims_payload_offset := ims_payload_offset ?s + ucast (imp_next_length ?s)\<rparr> = imp_stream acc_a to me sid P ?o now"
      unfolding len by (simp add: imp_stream_def imp_session_zero_def)
    let ?f = "imp_frame_of me to sid UNI_CAN_IMP_CMD_DATA_WA (drop offset P) (imp_piece P offset)"
    obtain out where out: "uni_can_imp_process (Some (imp_put a i ?s)) (clock n) (Some imp_output_zero) =
        (Some (imp_put a i (imp_stream acc_a to me sid P ?o now)), Some out, IMP_OK)"
      "imo_frame_ready out" "imo_frame out = ?f" "imo_event out = IMP_EVENT_NONE"
      using idle_process [OF a(1-3), of ?s n imp_output_zero] less
      unfolding moved unfolding len imp_set_frame_eq by (simp add: a(4) imp_payload_from_offset_def un imp_output_zero_def)
    have n: "n = (length P - ?o + 7) div 8 + 1"
      using Suc.prems(3) unfolding work_piece [OF True] by simp
    obtain t' where t': "uni_can_imp_add_frame True h (Some (imp_put b j t)) (Some ?f) (clock' (n - 1 + 1)) (Some imp_output_zero) =
        (Some (imp_put b j t'), Some imp_output_zero, IMP_OK)" "imp_hears b acc_b me to sid P ?o t'"
      using listener_data [OF b(1) Suc.prems(1) True h] by blast
    have "?o \<le> length P"
      using True by simp
    then obtain outs where outs: "imp_processes clock n (imp_put a i (imp_stream acc_a to me sid P ?o now)) =
        (imp_put a i (imp_session_zero acc_a), outs)" "list_all imo_frame_ready outs"
      "map imo_event outs = replicate (n - 1) IMP_EVENT_NONE @ [IMP_EVENT_TX_FINISHED]"
      "imp_feeds h clock' (imp_put b j t') (map imo_frame outs) =
        (imp_put b j (imp_session_zero acc_b), [(IMP_EVENT_RX_FINISHED, Some (imp_heard me to sid P))])"
      using Suc.IH [OF t'(2) _ n] by blast
    have "length outs = n"
      using arg_cong [OF outs(3), of length] n by simp
    moreover have "imp_report imp_output_zero = []"
      by (simp add: imp_report_def imp_output_zero_def)
    moreover have "replicate n IMP_EVENT_NONE = IMP_EVENT_NONE # replicate (n - 1) IMP_EVENT_NONE"
      using n by (cases n) simp_all
    ultimately show ?thesis
      using out outs t'(1) n by (intro exI [of _ "out # outs"]) simp
  next
    case False
    with Suc.prems(2) have whole: "offset = length P"
      by simp
    then have n: "n = 0"
      using Suc.prems(3) by simp
    let ?f = "imp_frame_of me to sid UNI_CAN_IMP_CMD_END_WA [] 0"
    obtain out where out: "uni_can_imp_process (Some (imp_put a i ?s)) (clock n) (Some imp_output_zero) =
        (Some (imp_put a i (imp_session_zero acc_a)), Some out, IMP_OK)"
      "imo_frame_ready out" "imo_frame out = ?f" "imo_event out = IMP_EVENT_TX_FINISHED"
      using idle_process [OF a(1-3), of ?s n imp_output_zero] whole
      by (simp add: a(4) imp_reply_def imp_set_frame_eq uni_can_imp_set_event_def uni_can_imp_session_release_def)
    obtain out' where "uni_can_imp_add_frame True h (Some (imp_put b j t)) (Some ?f) (clock' 0) (Some imp_output_zero) =
        (Some (imp_put b j (imp_session_zero acc_b)), Some out', IMP_OK)"
      "imp_report out' = [(IMP_EVENT_RX_FINISHED, Some (imp_heard me to sid P))]"
      using listener_end [OF b(1) Suc.prems(1) [unfolded whole] h b(2)] by blast
    with out show ?thesis
      by (intro exI [of _ "[out]"]) (simp add: n)
  qed
qed simp


section \<open>Properties\<close>

text \<open>
  C8. A transfer without acknowledgement, to one device or to all, is heard completely by every device
  that has room for it. The sender, in a reachable state and with memory, has accepted the message in
  \<open>uni_can_imp_start_send\<close>, its data have the length it says, and none of its other sessions has anything to do at the times of the calls:
  none sends without acknowledgement, none times out. Then one call of
  \<open>uni_can_imp_process\<close> for every eight bytes and one for the end each emit a frame, and the sender
  has no trace of the transfer. Any device that the message is addressed to, in a reachable state and with
  memory, that has a free session for the sender and none open under the identifier of the transfer,
  whose limit allows the length and whose validator, if it has one, the payload, and that is given the
  frames in order, hands out exactly the bytes that were sent, once, and has no trace of the transfer
  either.
\<close>

theorem imp_unacked_transfer:
  assumes "imp_reachable a" "heap_total h" "imp_msg_wf msg"
    and mode: "imm_mode msg = IMP_WITHOUT_ACK \<or> imm_address_to msg = UNI_CAN_IMP_DEVICE_ID_ALL"
    and start: "uni_can_imp_start_send h (Some a) (Some msg) now (Some old) = (Some a', Some out, IMP_OK)"
    and idle: "imp_idle a clock"
    and sid: "sid = uni_can_imp_canid_get_session_id (cm_id (imo_frame out))"
    and b: "imp_reachable b" "imm_address_to msg = imc_own_address b \<or> imm_address_to msg = UNI_CAN_IMP_DEVICE_ID_ALL"
      "uni_can_imp_find_session b (imc_own_address a) (imm_address_to msg) sid = None"
      "uni_can_imp_find_free_session b (imc_own_address a) = Some j"
      "imm_length msg \<le> imc_max_message_size b" "imp_accepts b (imp_msg_payload msg)"
    and n: "n = (unat (imm_length msg) + 7) div 8 + 1"
  shows "\<exists>outs. imp_processes clock n a' = (a, outs) \<and> list_all imo_frame_ready outs \<and>
    map imo_event outs = replicate (n - 1) IMP_EVENT_NONE @ [IMP_EVENT_TX_FINISHED] \<and>
    imp_feeds h clock' b (imo_frame out # map imo_frame outs) = (b,
      [(IMP_EVENT_RX_FINISHED, Some \<lparr>imm_mode = IMP_WITHOUT_ACK, imm_address_from = imc_own_address a,
          imm_address_to = imm_address_to msg, imm_session_id = sid, imm_length = imm_length msg,
          imm_data = (if imm_length msg = 0 then None else Some (imp_msg_payload msg))\<rparr>)])"
proof -
  let ?P = "imp_msg_payload msg" and ?me = "imc_own_address a" and ?to = "imm_address_to msg"
  have wf: "imp_wf a" "imp_wf b"
    using assms(1) b(1) by (simp_all add: reachable_wf)
  have wa: "imm_address_to msg = UNI_CAN_IMP_DEVICE_ID_ALL \<or> imm_mode msg = IMP_WITHOUT_ACK"
    using mode by blast
  from start_send_cases [OF wf(1) assms(3) heap_totalD [OF assms(2)] start, unfolded if_P [OF refl]] obtain i k p where
    i: "uni_can_imp_find_free_session a ?to = Some i" and k: "imp_unique_id (imp_reserved_ids a ?to) = Some k"
    and p: "p = None \<longleftrightarrow> imm_length msg = 0" "p \<noteq> None \<longrightarrow> p = Some ?P \<and> length ?P = unat (imm_length msg)"
    and a': "a' = imp_put a i (imp_new_session (uni_can_imp_sessions a ! i) ?me msg k now p)"
    and frame: "imo_frame out = imo_frame (uni_can_imp_set_frame a imp_output_zero ?to (imp_new_id k (?me > ?to)) UNI_CAN_IMP_CMD_START_WA [] 0)"
    using wa by auto
  have "k < 8"
    using first_index_lt [OF k [unfolded imp_unique_id_def]] by simp
  note new_id = imp_new_id_range(1) [OF this]
  have frame: "imo_frame out = imp_frame_of ?me ?to (imp_new_id k (?me > ?to)) UNI_CAN_IMP_CMD_START_WA [] 0"
    using frame by (simp add: imp_set_frame_eq)
  then have new_sid: "imp_new_id k (?me > ?to) = sid"
    using sid new_id by (simp add: imp_frame_of_def u8_and_4_bits)
  have "sid \<le> 15"
    using new_id new_sid by blast
  have len: "length ?P = unat (imm_length msg)"
    using p by (cases p) (simp_all add: imp_msg_payload_def)
  then have size: "imm_length msg = of_nat (length ?P)" "imm_length msg = 0 \<longleftrightarrow> ?P = []"
    by (auto simp: unat_eq_0 simp flip: length_0_conv)
  then have "p = (if ?P = [] then None else Some ?P)"
    using p by (cases p) auto
  then have session: "imp_new_session (uni_can_imp_sessions a ! i) ?me msg k now p =
      imp_stream (ims_address_mask (uni_can_imp_sessions a ! i)) ?to ?me sid ?P 0 now"
    using wa by (auto simp: imp_new_session_def imp_stream_def imp_session_zero_def new_sid size(1))
  have bounds: "i < length (uni_can_imp_sessions a)" "ims_state (uni_can_imp_sessions a ! i) = IMP_SESSION_FREE"
      "j < length (uni_can_imp_sessions b)" "ims_state (uni_can_imp_sessions b ! j) = IMP_SESSION_FREE"
    using free_session_bounds [OF wf(1) i] free_session_bounds [OF wf(2) b(4)] by simp_all
  have listener: "imp_listener b j ?me ?to sid ?P"
    using wf b(2,3,5) bounds(3) \<open>sid \<le> 15\<close> imp_wfD(3) [OF wf(1)] len by (simp add: imp_listener_def word_le_nat_alt)
  obtain t where t: "uni_can_imp_add_frame True h (Some b) (Some (imo_frame out)) (clock' n) (Some imp_output_zero) =
      (Some (imp_put b j t), Some imp_output_zero, IMP_OK)"
    "imp_hears b (ims_address_mask (uni_can_imp_sessions b ! j)) ?me ?to sid ?P 0 t"
    using listener_starts [OF listener b(4)] unfolding frame new_sid by blast
  have n_len: "n = (length ?P - 0 + 7) div 8 + 1"
    by (simp add: n len)
  from stream_heard [OF wf(1) bounds(1) idle refl listener b(6) assms(2) t(2) _ n_len]
  obtain outs where outs: "imp_processes clock n (imp_put a i (imp_stream (ims_address_mask (uni_can_imp_sessions a ! i)) ?to ?me sid ?P 0 now)) =
      (imp_put a i (imp_session_zero (ims_address_mask (uni_can_imp_sessions a ! i))), outs)" "list_all imo_frame_ready outs"
    "map imo_event outs = replicate (n - 1) IMP_EVENT_NONE @ [IMP_EVENT_TX_FINISHED]"
    "imp_feeds h clock' (imp_put b j t) (map imo_frame outs) =
      (imp_put b j (imp_session_zero (ims_address_mask (uni_can_imp_sessions b ! j))), [(IMP_EVENT_RX_FINISHED, Some (imp_heard ?me ?to sid ?P))])"
    by blast
  have "length outs = n"
    using arg_cong [OF outs(3), of length] n by simp
  moreover have "imp_report imp_output_zero = []"
    by (simp add: imp_report_def imp_output_zero_def)
  ultimately show ?thesis
    using outs t(1) imp_put_free [OF wf(1) bounds(1,2)] imp_put_free [OF wf(2) bounds(3,4)]
    by (intro exI [of _ outs]) (simp add: a' session imp_heard_def size(2) flip: size(1))
qed

definition imp_example_call :: uni_can_imp_msg where
  "imp_example_call = imp_example_msg\<lparr>imm_mode := IMP_WITHOUT_ACK, imm_address_to := UNI_CAN_IMP_DEVICE_ID_ALL\<rparr>"

lemma imp_example_call_start:
  "\<exists>a' out. uni_can_imp_start_send heap_zeros (Some (imp_example_ctx 2)) (Some imp_example_call) 0 (Some imp_output_zero) =
    (Some a', Some out, IMP_OK) \<and> uni_can_imp_canid_get_session_id (cm_id (imo_frame out)) = 0"
  by (simp add: uni_can_imp_start_send_def imp_example_ctx_def imp_example_msg_def imp_example_call_def uni_can_imp_address_valid_def
      imp_const_defs uni_can_imp_find_free_session_def imp_array_def uni_can_imp_sessions_def imp_session_zero_def
      uni_can_imp_session_accepts_def imp_unique_id_def imp_reserved_ids_def uni_can_imp_session_is_tx_def
      less_eq_uni_can_imp_session_state_def uni_can_imp_session_copy_payload_def heap_zeros_def blit_def imp_reply_def
      imp_set_frame_eq imp_put_def upt_rec imp_frame_of_def)

theorem imp_unacked_transfer_witness:
  "\<exists>a' (out :: uni_can_imp_output) outs. imp_processes (\<lambda>_. 0) 3 a' = (imp_example_ctx 2, outs) \<and>
    imp_feeds heap_zeros (\<lambda>_. 0) (imp_example_ctx 1) (imo_frame out # map imo_frame outs) = (imp_example_ctx 1,
      [(IMP_EVENT_RX_FINISHED, Some \<lparr>imm_mode = IMP_WITHOUT_ACK, imm_address_from = 2, imm_address_to = 31, imm_session_id = 0,
          imm_length = 10, imm_data = Some [1, 2, 3, 4, 5, 6, 7, 8, 9, 10]\<rparr>)])"
proof -
  obtain a' out where start: "uni_can_imp_start_send heap_zeros (Some (imp_example_ctx 2)) (Some imp_example_call) 0 (Some imp_output_zero) =
      (Some a', Some out, IMP_OK)" "uni_can_imp_canid_get_session_id (cm_id (imo_frame out)) = 0"
    using imp_example_call_start by blast
  have msg: "imp_msg_wf imp_example_call" "imm_mode imp_example_call = IMP_WITHOUT_ACK" "imm_address_to imp_example_call = 31"
    "imm_length imp_example_call = 10" "imp_msg_payload imp_example_call = [1, 2, 3, 4, 5, 6, 7, 8, 9, 10]"
    by (simp_all add: imp_example_call_def imp_example_msg_def imp_msg_wf_def imp_msg_payload_def imp_const_defs)
  have idle: "imp_idle (imp_example_ctx 2) (\<lambda>_. 0)"
    by (simp add: imp_idle_def imp_timed_out_def)
  have room: "imm_address_to imp_example_call = imc_own_address (imp_example_ctx 1) \<or> imm_address_to imp_example_call = UNI_CAN_IMP_DEVICE_ID_ALL"
    "imm_length imp_example_call \<le> imc_max_message_size (imp_example_ctx 1)" "imp_accepts (imp_example_ctx 1) (imp_msg_payload imp_example_call)"
    by (simp_all add: msg imp_const_defs imp_accepts_def word_le_nat_alt)
  have "uni_can_imp_find_session (imp_example_ctx 1) (imc_own_address (imp_example_ctx 2)) (imm_address_to imp_example_call) 0 = None"
    "uni_can_imp_find_free_session (imp_example_ctx 1) (imc_own_address (imp_example_ctx 2)) = Some 0"
    "3 = (unat (imm_length imp_example_call) + 7) div 8 + 1"
    by (simp_all add: msg)
  from imp_unacked_transfer [OF imp_example_reachable(1) heap_total_zeros msg(1) disjI1 [OF msg(2)] start(1) idle start(2) [symmetric]
      imp_example_reachable(2) room(1) this(1,2) room(2,3) this(3), where clock' = "\<lambda>_. 0"]
  obtain outs where "imp_processes (\<lambda>_. 0) 3 a' = (imp_example_ctx 2, outs)"
    "imp_feeds heap_zeros (\<lambda>_. 0) (imp_example_ctx 1) (imo_frame out # map imo_frame outs) = (imp_example_ctx 1,
      [(IMP_EVENT_RX_FINISHED, Some \<lparr>imm_mode = IMP_WITHOUT_ACK, imm_address_from = 2, imm_address_to = 31, imm_session_id = 0,
          imm_length = 10, imm_data = Some [1, 2, 3, 4, 5, 6, 7, 8, 9, 10]\<rparr>)])"
    unfolding msg imp_example_simps by (elim exE conjE) simp
  then show ?thesis
    by blast
qed

end
