(* ===== verification/CanChannel.thy ===== *)
theory CanChannel
  imports CanMessage
begin

text \<open>
  The channel functions of \<open>include/uni_can_channel.h\<close> and \<open>src/uni_can_channel.c\<close>: they find
  the table of operations at the start of a channel object and pass the call on.

  The object of a channel is a state \<open>'s\<close> of its backend. \<open>ops_of\<close> reads the pointer to the
  table of operations the object starts with (\<open>None\<close> for a null pointer), so that a backend may
  clear it, as the Uni.HAL backend does when it is destroyed. A \<open>void *channel\<close> is an
  \<open>'s option\<close>, \<open>None\<close> for null; an operation that a backend leaves null is \<open>None\<close> in the table.
  Handlers and cookies are opaque values \<open>'f\<close> and \<open>'c\<close>.
\<close>

section \<open>Data\<close>

record ('s, 'f, 'c) uni_can_channel_ops =
  op_init :: "('s \<Rightarrow> bool \<times> 's) option"
  op_open :: "('s \<Rightarrow> bool \<times> 's) option"
  op_close :: "('s \<Rightarrow> bool \<times> 's) option"
  op_destroy :: "('s \<Rightarrow> bool \<times> 's) option"
  op_receive :: "('s \<Rightarrow> uni_can_message option \<times> 's) option"
  op_receive_to :: "('s \<Rightarrow> uni_can_message \<Rightarrow> bool \<times> uni_can_message \<times> 's) option"
  op_transmit :: "('s \<Rightarrow> uni_can_message \<Rightarrow> bool \<times> 's) option"
  op_transmit_idle :: "('s \<Rightarrow> bool \<times> 's) option"
  op_transmit_abort :: "('s \<Rightarrow> bool \<times> 's) option"
  op_set_receive_handler :: "('s \<Rightarrow> 'f option \<Rightarrow> 'c \<Rightarrow> bool \<times> 's) option"
  op_filter_add :: "('s \<Rightarrow> u32 \<Rightarrow> u32 \<Rightarrow> bool \<times> 's) option"

text \<open>The table with no operation at all, \<open>(uni_can_channel_ops_t){0}\<close>.\<close>

definition channel_ops_none :: "('s, 'f, 'c) uni_can_channel_ops" where
  "channel_ops_none = \<lparr>op_init = None, op_open = None, op_close = None, op_destroy = None,
     op_receive = None, op_receive_to = None, op_transmit = None, op_transmit_idle = None,
     op_transmit_abort = None, op_set_receive_handler = None, op_filter_add = None\<rparr>"


section \<open>Operations\<close>

definition uni_can_channel_ops_get ::
  "('s \<Rightarrow> ('s, 'f, 'c) uni_can_channel_ops option) \<Rightarrow> 's option \<Rightarrow> ('s, 'f, 'c) uni_can_channel_ops option" where
  "uni_can_channel_ops_get ops_of channel = (case channel of None \<Rightarrow> None | Some s \<Rightarrow> ops_of s)"

text \<open>\<open>(ops != NULL) && (ops->op != NULL) && ops->op(channel)\<close>, with the state the call leaves.\<close>

definition channel_pass ::
  "('s \<Rightarrow> ('s, 'f, 'c) uni_can_channel_ops option) \<Rightarrow> (('s, 'f, 'c) uni_can_channel_ops \<Rightarrow> ('s \<Rightarrow> bool \<times> 's) option)
    \<Rightarrow> 's option \<Rightarrow> bool \<times> 's option" where
  "channel_pass ops_of sel channel =
     (case uni_can_channel_ops_get ops_of channel of
        None \<Rightarrow> (False, channel)
      | Some ops \<Rightarrow>
          (case sel ops of
             None \<Rightarrow> (False, channel)
           | Some f \<Rightarrow>
               (case channel of
                  None \<Rightarrow> (False, channel)
                | Some s \<Rightarrow> (let (r, s') = f s in (r, Some s')))))"

definition uni_can_channel_init ::
  "('s \<Rightarrow> ('s, 'f, 'c) uni_can_channel_ops option) \<Rightarrow> 's option \<Rightarrow> bool \<times> 's option" where
  "uni_can_channel_init ops_of channel = channel_pass ops_of op_init channel"

definition uni_can_channel_open ::
  "('s \<Rightarrow> ('s, 'f, 'c) uni_can_channel_ops option) \<Rightarrow> 's option \<Rightarrow> bool \<times> 's option" where
  "uni_can_channel_open ops_of channel = channel_pass ops_of op_open channel"

definition uni_can_channel_close ::
  "('s \<Rightarrow> ('s, 'f, 'c) uni_can_channel_ops option) \<Rightarrow> 's option \<Rightarrow> bool \<times> 's option" where
  "uni_can_channel_close ops_of channel = channel_pass ops_of op_close channel"

definition uni_can_channel_destroy ::
  "('s \<Rightarrow> ('s, 'f, 'c) uni_can_channel_ops option) \<Rightarrow> 's option \<Rightarrow> bool \<times> 's option" where
  "uni_can_channel_destroy ops_of channel = channel_pass ops_of op_destroy channel"

text \<open>
  \<open>uni_can_channel_receive\<close>: the backend's own object, or a new object the backend fills in;
  \<open>calloc_ok\<close> says whether that object could be allocated.
\<close>

definition uni_can_channel_receive ::
  "('s \<Rightarrow> ('s, 'f, 'c) uni_can_channel_ops option) \<Rightarrow> bool \<Rightarrow> 's option \<Rightarrow> uni_can_message option \<times> 's option" where
  "uni_can_channel_receive ops_of calloc_ok channel =
     (case channel of
        None \<Rightarrow> (None, channel)
      | Some s \<Rightarrow>
          (case uni_can_channel_ops_get ops_of channel of
             None \<Rightarrow> (None, channel)
           | Some ops \<Rightarrow>
               (case op_receive ops of
                  Some f \<Rightarrow> (let (r, s') = f s in (r, Some s'))
                | None \<Rightarrow>
                    (case op_receive_to ops of
                       Some f \<Rightarrow>
                         (case uni_can_message_create calloc_ok of
                            None \<Rightarrow> (None, channel)
                          | Some result \<Rightarrow>
                              (let (ok, result', s') = f s result
                               in (if ok then Some result' else None, Some s')))
                     | None \<Rightarrow> (None, channel)))))"

text \<open>The memory of the caller (\<open>None\<close> for a null \<open>msg\<close>) is part of the result.\<close>

definition uni_can_channel_receive_to ::
  "('s \<Rightarrow> ('s, 'f, 'c) uni_can_channel_ops option) \<Rightarrow> 's option \<Rightarrow> uni_can_message option
    \<Rightarrow> bool \<times> uni_can_message option \<times> 's option" where
  "uni_can_channel_receive_to ops_of channel msg =
     (case channel of
        None \<Rightarrow> (False, msg, channel)
      | Some s \<Rightarrow>
          (case uni_can_channel_ops_get ops_of channel of
             None \<Rightarrow> (False, msg, channel)
           | Some ops \<Rightarrow>
               (case op_receive_to ops of
                  None \<Rightarrow> (False, msg, channel)
                | Some f \<Rightarrow>
                    (case msg of
                       None \<Rightarrow> (False, msg, channel)
                     | Some m \<Rightarrow> (let (ok, m', s') = f s m in (ok, Some m', Some s'))))))"

definition uni_can_channel_transmit ::
  "('s \<Rightarrow> ('s, 'f, 'c) uni_can_channel_ops option) \<Rightarrow> 's option \<Rightarrow> uni_can_message option \<Rightarrow> bool \<times> 's option" where
  "uni_can_channel_transmit ops_of channel msg =
     (case msg of
        None \<Rightarrow> (False, channel)
      | Some m \<Rightarrow> channel_pass ops_of (\<lambda>ops. map_option (\<lambda>f s. f s m) (op_transmit ops)) channel)"

definition uni_can_channel_transmit_idle ::
  "('s \<Rightarrow> ('s, 'f, 'c) uni_can_channel_ops option) \<Rightarrow> 's option \<Rightarrow> bool \<times> 's option" where
  "uni_can_channel_transmit_idle ops_of channel = channel_pass ops_of op_transmit_idle channel"

definition uni_can_channel_transmit_abort ::
  "('s \<Rightarrow> ('s, 'f, 'c) uni_can_channel_ops option) \<Rightarrow> 's option \<Rightarrow> bool \<times> 's option" where
  "uni_can_channel_transmit_abort ops_of channel = channel_pass ops_of op_transmit_abort channel"

definition uni_can_channel_set_receive_handler ::
  "('s \<Rightarrow> ('s, 'f, 'c) uni_can_channel_ops option) \<Rightarrow> 's option \<Rightarrow> 'f option \<Rightarrow> 'c \<Rightarrow> bool \<times> 's option" where
  "uni_can_channel_set_receive_handler ops_of channel func cookie =
     channel_pass ops_of (\<lambda>ops. map_option (\<lambda>f s. f s func cookie) (op_set_receive_handler ops)) channel"

definition uni_can_channel_filter_add ::
  "('s \<Rightarrow> ('s, 'f, 'c) uni_can_channel_ops option) \<Rightarrow> 's option \<Rightarrow> u32 \<Rightarrow> u32 \<Rightarrow> bool \<times> 's option" where
  "uni_can_channel_filter_add ops_of channel fid fmask =
     channel_pass ops_of (\<lambda>ops. map_option (\<lambda>f s. f s fid fmask) (op_filter_add ops)) channel"

text \<open>Taking messages again and again, as an application that polls does.\<close>

fun channel_receive_n ::
  "('s \<Rightarrow> ('s, 'f, 'c) uni_can_channel_ops option) \<Rightarrow> nat \<Rightarrow> 's option \<Rightarrow> uni_can_message option list \<times> 's option" where
  "channel_receive_n ops_of 0 channel = ([], channel)"
| "channel_receive_n ops_of (Suc n) channel =
     (let (r, channel) = uni_can_channel_receive ops_of True channel;
          (rs, channel) = channel_receive_n ops_of n channel
      in (r # rs, channel))"

lemmas channel_defs =
  uni_can_channel_init_def uni_can_channel_open_def uni_can_channel_close_def
  uni_can_channel_destroy_def uni_can_channel_receive_def uni_can_channel_receive_to_def
  uni_can_channel_transmit_def uni_can_channel_transmit_idle_def uni_can_channel_transmit_abort_def
  uni_can_channel_set_receive_handler_def uni_can_channel_filter_add_def
  channel_pass_def uni_can_channel_ops_get_def


section \<open>Lemmas\<close>

lemma channel_pass_missing:
  assumes "\<And>s ops. channel = Some s \<Longrightarrow> ops_of s = Some ops \<Longrightarrow> sel ops = None"
  shows "channel_pass ops_of sel channel = (False, channel)"
  using assms by (auto simp: channel_defs split: option.splits)

lemma channel_pass_reaches:
  "ops_of s = Some ops \<Longrightarrow> sel ops = Some f \<Longrightarrow>
    channel_pass ops_of sel (Some s) = (fst (f s), Some (snd (f s)))"
  by (simp add: channel_defs split_beta)

text \<open>A channel that has no table: null, or one that was destroyed.\<close>

lemma channel_without_table:
  assumes "uni_can_channel_ops_get ops_of channel = None"
  shows "channel_pass ops_of sel channel = (False, channel)"
    and "uni_can_channel_receive ops_of calloc_ok channel = (None, channel)"
    and "uni_can_channel_receive_to ops_of channel msg = (False, msg, channel)"
    and "uni_can_channel_transmit ops_of channel msg = (False, channel)"
  using assms
  by (auto simp: channel_defs split: option.splits)

text \<open>
  The contract of a backend that delivers the messages that arrived, oldest first: what is
  pending is a list, and taking a message takes its head. It is stated for the two ways a
  backend can deliver, an object of its own or memory of the caller.
\<close>

locale channel_source =
  fixes ops_of :: "'s \<Rightarrow> ('s, 'f, 'c) uni_can_channel_ops option"
    and pending :: "'s \<Rightarrow> uni_can_message list"
    and live :: "'s \<Rightarrow> bool"
  assumes has_source: "live s \<Longrightarrow>
      \<exists>ops. ops_of s = Some ops \<and> (op_receive ops \<noteq> None \<or> op_receive_to ops \<noteq> None)"
    and receive_empty: "live s \<Longrightarrow> ops_of s = Some ops \<Longrightarrow> op_receive ops = Some f \<Longrightarrow> pending s = [] \<Longrightarrow>
      fst (f s) = None \<and> pending (snd (f s)) = [] \<and> live (snd (f s))"
    and receive_head: "live s \<Longrightarrow> ops_of s = Some ops \<Longrightarrow> op_receive ops = Some f \<Longrightarrow> pending s = m # ms \<Longrightarrow>
      fst (f s) = Some m \<and> pending (snd (f s)) = ms \<and> live (snd (f s))"
    and receive_to_empty: "live s \<Longrightarrow> ops_of s = Some ops \<Longrightarrow> op_receive_to ops = Some g \<Longrightarrow> pending s = [] \<Longrightarrow>
      fst (g s x) = False \<and> pending (snd (snd (g s x))) = [] \<and> live (snd (snd (g s x)))"
    and receive_to_head: "live s \<Longrightarrow> ops_of s = Some ops \<Longrightarrow> op_receive_to ops = Some g \<Longrightarrow> pending s = m # ms \<Longrightarrow>
      fst (g s x) = True \<and> fst (snd (g s x)) = m \<and> pending (snd (snd (g s x))) = ms
        \<and> live (snd (snd (g s x)))"
begin

text \<open>Whatever way the backend delivers, \<open>uni_can_channel_receive\<close> gives the oldest message.\<close>

lemma receive_takes_head:
  assumes "live s" "pending s = m # ms"
  shows "\<exists>s'. uni_can_channel_receive ops_of True (Some s) = (Some m, Some s') \<and> pending s' = ms \<and> live s'"
proof -
  obtain ops where ops: "ops_of s = Some ops" "op_receive ops \<noteq> None \<or> op_receive_to ops \<noteq> None"
    using has_source [OF assms(1)] by blast
  show ?thesis
  proof (cases "op_receive ops")
    case (Some f)
    with receive_head [OF assms(1) ops(1) Some assms(2)] ops(1) show ?thesis
      by (cases "f s") (simp add: channel_defs)
  next
    case None
    then obtain g where g: "op_receive_to ops = Some g" using ops(2) by auto
    with None receive_to_head [OF assms(1) ops(1) g assms(2), of can_message_zero] ops(1) show ?thesis
      by (cases "g s can_message_zero") (auto simp: channel_defs uni_can_message_create_def)
  qed
qed

lemma receive_none_when_empty:
  assumes "live s" "pending s = []"
  shows "\<exists>s'. uni_can_channel_receive ops_of True (Some s) = (None, Some s') \<and> pending s' = [] \<and> live s'"
proof -
  obtain ops where ops: "ops_of s = Some ops" "op_receive ops \<noteq> None \<or> op_receive_to ops \<noteq> None"
    using has_source [OF assms(1)] by blast
  show ?thesis
  proof (cases "op_receive ops")
    case (Some f)
    with receive_empty [OF assms(1) ops(1) Some assms(2)] ops(1) show ?thesis
      by (cases "f s") (simp add: channel_defs)
  next
    case None
    then obtain g where g: "op_receive_to ops = Some g" using ops(2) by auto
    with None receive_to_empty [OF assms(1) ops(1) g assms(2), of can_message_zero] ops(1) show ?thesis
      by (cases "g s can_message_zero") (auto simp: channel_defs uni_can_message_create_def)
  qed
qed

lemma receive_all_in_order:
  "live s \<Longrightarrow> \<exists>s'. channel_receive_n ops_of (length (pending s)) (Some s) = (map Some (pending s), Some s') \<and>
    pending s' = [] \<and> live s'"
proof (induction "pending s" arbitrary: s)
  case Nil
  then show ?case
    by simp
next
  case (Cons m ms)
  obtain s' where "uni_can_channel_receive ops_of True (Some s) = (Some m, Some s')" "ms = pending s'" "live s'"
    using receive_takes_head [OF Cons.prems Cons.hyps(2) [symmetric]] by auto
  with Cons.hyps(1) [of s'] show ?case
    unfolding Cons.hyps(2) [symmetric] by auto
qed

end

end
