(* ===== verification/ChannelBase.thy ===== *)
theory ChannelBase
  imports CanChannel Fifo
begin

text \<open>
  What every channel of a C++ backend shares, \<open>src/can_channel_base.h\<close> and \<open>.cpp\<close>, with the queue
  of \<open>src/common_queue.h\<close> that hands received messages from the backend's thread to the
  application.

  Every operation of \<open>SharedQueue\<close> holds its mutex from beginning to end, so a run of several
  threads is a sequence of whole operations; a \<open>pop\<close> on an empty queue waits, which is \<open>None\<close>
  here. \<open>ReceiveMessage\<close> is two such operations, \<open>empty\<close> and then \<open>pop\<close>, and other threads may
  act between them: the last section models that interleaving as a step relation.
\<close>

section \<open>SharedQueue\<close>

type_synonym 'a shared_queue = "'a list"

definition sq_clear :: "'a shared_queue \<Rightarrow> 'a shared_queue" where
  "sq_clear q = []"

definition sq_empty :: "'a shared_queue \<Rightarrow> bool" where
  "sq_empty q = (q = [])"

definition sq_push :: "'a \<Rightarrow> 'a shared_queue \<Rightarrow> 'a shared_queue" where
  "sq_push t q = q @ [t]"

definition sq_pop :: "'a shared_queue \<Rightarrow> ('a \<times> 'a shared_queue) option" where
  "sq_pop q = (case q of [] \<Rightarrow> None | v # rest \<Rightarrow> Some (v, rest))"

interpretation sq: unbounded_fifo "\<lambda>q. q" "\<lambda>_. True" sq_pop sq_push
  by unfold_locales (auto simp: sq_pop_def sq_push_def)


section \<open>CanChannelBase\<close>

text \<open>
  The members of the class. A thread that is joinable is \<open>True\<close> in \<open>cb_thread\<close>; the body it
  runs is the backend's \<open>threadProc\<close>.
\<close>

record ('f, 'c) can_channel_base =
  cb_receive_func :: "'f option"
  cb_receive_cookie :: 'c
  cb_receive_queue :: "uni_can_message shared_queue"
  cb_thread :: bool
  cb_thread_abort :: bool

definition ReceiveMessage ::
  "('f, 'c) can_channel_base \<Rightarrow> uni_can_message option \<times> ('f, 'c) can_channel_base" where
  "ReceiveMessage b =
     (if sq_empty (cb_receive_queue b) then (None, b)
      else (case sq_pop (cb_receive_queue b) of
              None \<Rightarrow> (None, b)
            | Some (m, q') \<Rightarrow> (Some m, b\<lparr>cb_receive_queue := q'\<rparr>)))"

definition ReceiveHandlerSet ::
  "('f, 'c) can_channel_base \<Rightarrow> 'f option \<Rightarrow> 'c \<Rightarrow> ('f, 'c) can_channel_base" where
  "ReceiveHandlerSet b func cookie = b\<lparr>cb_receive_func := func, cb_receive_cookie := cookie\<rparr>"

text \<open>
  \<open>threadStop\<close> asks the thread to end and waits for it; the wait ends when the thread's loop sees
  the request, which is the backend's part.
\<close>

definition threadStop :: "('f, 'c) can_channel_base \<Rightarrow> bool \<times> ('f, 'c) can_channel_base" where
  "threadStop b =
     (if \<not> cb_thread b then (False, b)
      else (True, b\<lparr>cb_thread_abort := True, cb_thread := False\<rparr>))"

definition threadStart :: "('f, 'c) can_channel_base \<Rightarrow> bool \<times> ('f, 'c) can_channel_base" where
  "threadStart b =
     (let b1 = snd (threadStop b)
      in (True, b1\<lparr>cb_thread_abort := False, cb_thread := True\<rparr>))"

text \<open>
  What a backend's thread does with a message: \<open>m_receive_queue.push(msg)\<close>, and then the handler,
  if there is one. The call of the handler, function and cookie, is the second result.
\<close>

definition channel_deliver ::
  "uni_can_message \<Rightarrow> ('f, 'c) can_channel_base \<Rightarrow> ('f, 'c) can_channel_base \<times> ('f \<times> 'c) option" where
  "channel_deliver msg b =
     (let b1 = b\<lparr>cb_receive_queue := sq_push msg (cb_receive_queue b)\<rparr>
      in (b1, map_option (\<lambda>f. (f, cb_receive_cookie b1)) (cb_receive_func b1)))"

fun channel_deliver_all ::
  "uni_can_message list \<Rightarrow> ('f, 'c) can_channel_base \<Rightarrow> ('f, 'c) can_channel_base \<times> ('f \<times> 'c) list" where
  "channel_deliver_all [] b = (b, [])"
| "channel_deliver_all (m # ms) b =
     (let (b1, call) = channel_deliver m b;
          (b2, calls) = channel_deliver_all ms b1
      in (b2, (case call of None \<Rightarrow> [] | Some c \<Rightarrow> [c]) @ calls))"


section \<open>Lemmas\<close>

lemma ReceiveMessage_simps [simp]:
  "cb_receive_queue b = [] \<Longrightarrow> ReceiveMessage b = (None, b)"
  "cb_receive_queue b = m # ms \<Longrightarrow> ReceiveMessage b = (Some m, b\<lparr>cb_receive_queue := ms\<rparr>)"
  by (simp_all add: ReceiveMessage_def sq_empty_def sq_pop_def)

lemma threadStop_stops: "\<not> cb_thread (snd (threadStop b))"
  by (simp add: threadStop_def)

lemma threadStart_runs:
  "cb_thread (snd (threadStart b))" "\<not> cb_thread_abort (snd (threadStart b))"
  "cb_receive_queue (snd (threadStart b)) = cb_receive_queue b"
  by (simp_all add: threadStart_def threadStop_def Let_def)

lemma channel_deliver_queue:
  "cb_receive_queue (fst (channel_deliver m b)) = cb_receive_queue b @ [m]"
  "cb_receive_func (fst (channel_deliver m b)) = cb_receive_func b"
  "cb_receive_cookie (fst (channel_deliver m b)) = cb_receive_cookie b"
  by (simp_all add: channel_deliver_def sq_push_def Let_def)

lemma channel_deliver_all_queue:
  "cb_receive_queue (fst (channel_deliver_all ms b)) = cb_receive_queue b @ ms"
proof (induction ms arbitrary: b)
  case (Cons m ms)
  show ?case
    using Cons.IH [of "fst (channel_deliver m b)"]
    by (simp add: split_beta Let_def channel_deliver_queue)
qed simp

text \<open>The handler is called once for every message, with the cookie it was set with.\<close>

lemma channel_deliver_all_calls:
  "cb_receive_func b = Some f \<Longrightarrow>
    snd (channel_deliver_all ms b) = replicate (length ms) (f, cb_receive_cookie b)"
proof (induction ms arbitrary: b)
  case (Cons m ms)
  have "snd (channel_deliver m b) = Some (f, cb_receive_cookie b)"
    using Cons.prems by (simp add: channel_deliver_def Let_def)
  with Cons.IH [of "fst (channel_deliver m b)"] Cons.prems show ?case
    by (simp add: split_beta Let_def channel_deliver_queue)
qed simp


section \<open>ReceiveMessage among threads\<close>

text \<open>
  The threads that take messages are numbered. \<open>Idle\<close> is a thread outside \<open>ReceiveMessage\<close>,
  \<open>Taking\<close> one that has seen a queue that was not empty and is about to \<open>pop\<close>. The backend's
  thread pushes at any time; \<open>Close\<close> clears the queue from whatever thread closes the channel.
\<close>

datatype rm_pc = Idle | Taking

record rm_state =
  rm_queue :: "uni_can_message shared_queue"
  rm_pcs :: "nat \<Rightarrow> rm_pc"

datatype rm_event = Arrive uni_can_message | CheckEmpty nat | Enter nat | Take nat uni_can_message | Clear

inductive rm_step :: "rm_state \<Rightarrow> rm_event \<Rightarrow> rm_state \<Rightarrow> bool" where
  arrive: "rm_step s (Arrive m) (s\<lparr>rm_queue := sq_push m (rm_queue s)\<rparr>)"
| check_empty: "rm_pcs s i = Idle \<Longrightarrow> sq_empty (rm_queue s) \<Longrightarrow> rm_step s (CheckEmpty i) s"
| enter: "rm_pcs s i = Idle \<Longrightarrow> \<not> sq_empty (rm_queue s) \<Longrightarrow>
    rm_step s (Enter i) (s\<lparr>rm_pcs := (rm_pcs s)(i := Taking)\<rparr>)"
| take_msg: "rm_pcs s i = Taking \<Longrightarrow> sq_pop (rm_queue s) = Some (m, q') \<Longrightarrow>
    rm_step s (Take i m) (s\<lparr>rm_queue := q', rm_pcs := (rm_pcs s)(i := Idle)\<rparr>)"
| clear: "rm_step s Clear (s\<lparr>rm_queue := sq_clear (rm_queue s)\<rparr>)"

inductive_cases rm_stepE: "rm_step s e t"

definition rm_init :: rm_state where
  "rm_init = \<lparr>rm_queue = [], rm_pcs = (\<lambda>_. Idle)\<rparr>"

text \<open>The runs in which the threads that receive are those of \<open>R\<close> and \<open>allow_clear\<close> says whether
  the queue may be cleared.\<close>

fun rm_event_ok :: "nat set \<Rightarrow> bool \<Rightarrow> rm_event \<Rightarrow> bool" where
  "rm_event_ok R allow_clear (Arrive m) = True"
| "rm_event_ok R allow_clear (CheckEmpty i) = (i \<in> R)"
| "rm_event_ok R allow_clear (Enter i) = (i \<in> R)"
| "rm_event_ok R allow_clear (Take i m) = (i \<in> R)"
| "rm_event_ok R allow_clear Clear = allow_clear"

inductive rm_reachable :: "nat set \<Rightarrow> bool \<Rightarrow> rm_state \<Rightarrow> bool" for R :: "nat set" and allow_clear :: bool where
  rm_start: "rm_reachable R allow_clear rm_init"
| rm_next: "rm_reachable R allow_clear s \<Longrightarrow> rm_step s e t \<Longrightarrow> rm_event_ok R allow_clear e \<Longrightarrow>
    rm_reachable R allow_clear t"

text \<open>A thread that is stuck in \<open>pop\<close>, waiting for a message on an empty queue.\<close>

definition rm_waiting :: "rm_state \<Rightarrow> nat \<Rightarrow> bool" where
  "rm_waiting s i \<longleftrightarrow> rm_pcs s i = Taking \<and> sq_pop (rm_queue s) = None"

lemma single_taker_inv:
  assumes "rm_reachable {r} False s"
  shows "(rm_pcs s r = Taking \<longrightarrow> rm_queue s \<noteq> []) \<and> (\<forall>i. i \<noteq> r \<longrightarrow> rm_pcs s i = Idle)"
  using assms
proof (induction rule: rm_reachable.induct)
  case rm_start
  then show ?case by (simp add: rm_init_def)
next
  case (rm_next s e t)
  from rm_next.hyps(2) rm_next.hyps(3) rm_next.IH show ?case
    by (cases rule: rm_stepE) (auto simp: sq_push_def sq_empty_def)
qed


section \<open>Properties\<close>

text \<open>C36. \<open>ReceiveMessage\<close> never waits on an empty queue as long as one thread only takes messages
  and the queue is not cleared meanwhile, whatever the backend's thread pushes.\<close>

theorem single_receiver_never_waits:
  assumes "rm_reachable {r} False s"
  shows "\<not> rm_waiting s i"
proof -
  from single_taker_inv [OF assms] show ?thesis
    by (cases "i = r") (auto simp: rm_waiting_def sq_pop_def split: list.splits)
qed

lemma rm_reachable_taking:
  assumes "r \<in> R"
  shows "rm_reachable R c (rm_init\<lparr>rm_queue := [m], rm_pcs := (\<lambda>_. Idle)(r := Taking)\<rparr>)"
proof -
  have "rm_reachable R c (rm_init\<lparr>rm_queue := [m]\<rparr>)"
    using rm_next [OF rm_start arrive [of rm_init m], of R c]
    by (simp add: sq_push_def rm_init_def)
  from rm_next [OF this enter [of _ r]] assms show ?thesis
    by (simp add: rm_init_def sq_empty_def)
qed

theorem single_receiver_never_waits_witness:
  "rm_reachable {0} False (rm_init\<lparr>rm_queue := [can_message_zero], rm_pcs := (\<lambda>_. Idle)(0 := Taking)\<rparr>) \<and>
   \<not> rm_waiting (rm_init\<lparr>rm_queue := [can_message_zero], rm_pcs := (\<lambda>_. Idle)(0 := Taking)\<rparr>) 0"
proof -
  have r: "rm_reachable {0} False
      (rm_init\<lparr>rm_queue := [can_message_zero], rm_pcs := (\<lambda>_. Idle)(0 := Taking)\<rparr>)"
    by (rule rm_reachable_taking) simp
  from single_receiver_never_waits [OF r] r show ?thesis by simp
qed

text \<open>The check for an empty queue and the \<open>pop\<close> of \<open>ReceiveMessage\<close> are two critical sections:
  when \<open>Close\<close> clears the queue between them, the thread that was about to take the message waits
  on an empty queue, and so it can when a second thread receives.\<close>

theorem receive_message_can_wait:
  "(\<exists>s. rm_reachable {0} True s \<and> rm_waiting s 0) \<and> (\<exists>s. rm_reachable {0, 1} False s \<and> rm_waiting s 0)"
proof
  let ?s = "rm_init\<lparr>rm_queue := [can_message_zero], rm_pcs := (\<lambda>_. Idle)(0 := Taking)\<rparr>"
  have "rm_reachable {0} True ?s" by (rule rm_reachable_taking) simp
  from rm_next [OF this clear]
  have "rm_reachable {0} True (?s\<lparr>rm_queue := []\<rparr>)" by (simp add: sq_clear_def)
  moreover have "rm_waiting (?s\<lparr>rm_queue := []\<rparr>) 0" by (simp add: rm_waiting_def sq_pop_def)
  ultimately show "\<exists>s. rm_reachable {0} True s \<and> rm_waiting s 0" by blast
next
  let ?s = "rm_init\<lparr>rm_queue := [can_message_zero], rm_pcs := (\<lambda>_. Idle)(0 := Taking)\<rparr>"
  have "rm_reachable {0, 1} False ?s" by (rule rm_reachable_taking) simp
  from rm_next [OF this enter [of _ 1]]
  have "rm_reachable {0, 1} False (?s\<lparr>rm_pcs := (\<lambda>_. Idle)(0 := Taking, 1 := Taking)\<rparr>)"
    by (simp add: sq_empty_def)
  from rm_next [OF this take_msg [of _ 1 can_message_zero "[]"]]
  have "rm_reachable {0, 1} False (?s\<lparr>rm_queue := [], rm_pcs := (\<lambda>_. Idle)(0 := Taking, 1 := Idle)\<rparr>)"
    by (simp add: sq_pop_def)
  moreover have "rm_waiting (?s\<lparr>rm_queue := [], rm_pcs := (\<lambda>_. Idle)(0 := Taking, 1 := Idle)\<rparr>) 0"
    by (simp add: rm_waiting_def sq_pop_def)
  ultimately show "\<exists>s. rm_reachable {0, 1} False s \<and> rm_waiting s 0" by blast
qed

end
