(* ===== verification/ChannelAdapter.thy ===== *)
theory ChannelAdapter
  imports ChannelBase
begin

text \<open>
  The adapter that makes a channel of a C++ backend usable through the C functions,
  \<open>src/can_channel_interface.h\<close> and \<open>src/can_channel_adapter.cpp\<close>.

  The virtual functions of \<open>ICanChannel\<close> are a record of functions over the state of the backend's
  object, which starts with what every channel shares (\<open>CanChannelBase\<close>). The backend calls back
  the function that \<open>CanChannelAdapt\<close> gave it with the adapter as its cookie, so the handler and
  the cookie of the backend are one value each (\<open>unit\<close>); the handler of the application is \<open>'f\<close>
  with cookie \<open>'c\<close>.
\<close>

section \<open>Data\<close>

record 's ICanChannel =
  ic_Init :: "'s \<Rightarrow> bool \<times> 's"
  ic_DeInit :: "'s \<Rightarrow> bool \<times> 's"
  ic_Open :: "'s \<Rightarrow> bool \<times> 's"
  ic_Close :: "'s \<Rightarrow> bool \<times> 's"
  ic_ReceiveHandlerSet :: "'s \<Rightarrow> unit option \<Rightarrow> 's"
  ic_ReceiveMessage :: "'s \<Rightarrow> uni_can_message option \<times> 's"
  ic_TransmitMessage :: "'s \<Rightarrow> uni_can_message \<Rightarrow> bool \<times> 's"
  ic_destructor :: "'s \<Rightarrow> 's"

text \<open>
  \<open>ad_deleted\<close> is set when the object was deleted. Its memory must not be used after that; the
  model reads no table of operations from it.
\<close>

record ('s, 'f, 'c) CanChannelAdapter =
  ad_vtable :: "'s ICanChannel"
  ad_channel :: 's
  ad_receive_func :: "'f option"
  ad_receive_cookie :: 'c
  ad_deleted :: bool


section \<open>Operations\<close>

definition adapter_init :: "('s, 'f, 'c) CanChannelAdapter \<Rightarrow> bool \<times> ('s, 'f, 'c) CanChannelAdapter" where
  "adapter_init a = (let (r, s) = ic_Init (ad_vtable a) (ad_channel a) in (r, a\<lparr>ad_channel := s\<rparr>))"

definition adapter_open :: "('s, 'f, 'c) CanChannelAdapter \<Rightarrow> bool \<times> ('s, 'f, 'c) CanChannelAdapter" where
  "adapter_open a = (let (r, s) = ic_Open (ad_vtable a) (ad_channel a) in (r, a\<lparr>ad_channel := s\<rparr>))"

definition adapter_close :: "('s, 'f, 'c) CanChannelAdapter \<Rightarrow> bool \<times> ('s, 'f, 'c) CanChannelAdapter" where
  "adapter_close a = (let (r, s) = ic_Close (ad_vtable a) (ad_channel a) in (r, a\<lparr>ad_channel := s\<rparr>))"

definition adapter_destroy :: "('s, 'f, 'c) CanChannelAdapter \<Rightarrow> bool \<times> ('s, 'f, 'c) CanChannelAdapter" where
  "adapter_destroy a =
     (True, a\<lparr>ad_channel := ic_destructor (ad_vtable a) (ad_channel a), ad_deleted := True\<rparr>)"

definition adapter_receive ::
  "('s, 'f, 'c) CanChannelAdapter \<Rightarrow> uni_can_message option \<times> ('s, 'f, 'c) CanChannelAdapter" where
  "adapter_receive a =
     (let (m, s) = ic_ReceiveMessage (ad_vtable a) (ad_channel a) in (m, a\<lparr>ad_channel := s\<rparr>))"

text \<open>The blocks that \<open>adapter_receive_to\<close> gives back to the heap are its third result.\<close>

definition adapter_receive_to_released ::
  "('s, 'f, 'c) CanChannelAdapter \<Rightarrow> uni_can_message
    \<Rightarrow> bool \<times> uni_can_message \<times> ('s, 'f, 'c) CanChannelAdapter \<times> released list" where
  "adapter_receive_to_released a msg =
     (case adapter_receive a of
        (None, a') \<Rightarrow> (False, msg, a', [])
      | (Some received, a') \<Rightarrow>
          (True, received, a',
           uni_can_message_free (Some (received\<lparr>cm_flags := cm_flags received AND NOT UNI_CAN_MSG_FLAG_TP\<rparr>))))"

definition adapter_receive_to ::
  "('s, 'f, 'c) CanChannelAdapter \<Rightarrow> uni_can_message \<Rightarrow> bool \<times> uni_can_message \<times> ('s, 'f, 'c) CanChannelAdapter" where
  "adapter_receive_to a msg =
     (let (ok, m, a', _) = adapter_receive_to_released a msg in (ok, m, a'))"

definition adapter_transmit ::
  "('s, 'f, 'c) CanChannelAdapter \<Rightarrow> uni_can_message \<Rightarrow> bool \<times> ('s, 'f, 'c) CanChannelAdapter" where
  "adapter_transmit a msg =
     (let (r, s) = ic_TransmitMessage (ad_vtable a) (ad_channel a) msg in (r, a\<lparr>ad_channel := s\<rparr>))"

text \<open>The call of the application's handler that a call of the backend makes, if any.\<close>

definition adapter_receive_handler :: "('s, 'f, 'c) CanChannelAdapter \<Rightarrow> ('f \<times> 'c) option" where
  "adapter_receive_handler self =
     (case ad_receive_func self of None \<Rightarrow> None | Some func \<Rightarrow> Some (func, ad_receive_cookie self))"

definition adapter_set_receive_handler ::
  "('s, 'f, 'c) CanChannelAdapter \<Rightarrow> 'f option \<Rightarrow> 'c \<Rightarrow> bool \<times> ('s, 'f, 'c) CanChannelAdapter" where
  "adapter_set_receive_handler a func cookie =
     (True, a\<lparr>ad_receive_cookie := cookie, ad_receive_func := func\<rparr>)"

definition adapter_ops :: "(('s, 'f, 'c) CanChannelAdapter, 'f, 'c) uni_can_channel_ops" where
  "adapter_ops = \<lparr>
     op_init = Some adapter_init,
     op_open = Some adapter_open,
     op_close = Some adapter_close,
     op_destroy = Some adapter_destroy,
     op_receive = Some adapter_receive,
     op_receive_to = Some adapter_receive_to,
     op_transmit = Some adapter_transmit,
     op_transmit_idle = None,
     op_transmit_abort = None,
     op_set_receive_handler = Some adapter_set_receive_handler,
     op_filter_add = None\<rparr>"

definition adapter_ops_of ::
  "('s, 'f, 'c) CanChannelAdapter \<Rightarrow> (('s, 'f, 'c) CanChannelAdapter, 'f, 'c) uni_can_channel_ops option" where
  "adapter_ops_of a = (if ad_deleted a then None else Some adapter_ops)"

definition CanChannelAdapt ::
  "'s ICanChannel \<Rightarrow> 'c \<Rightarrow> 's option \<Rightarrow> ('s, 'f, 'c) CanChannelAdapter option" where
  "CanChannelAdapt vtable null_cookie channel =
     (case channel of
        None \<Rightarrow> None
      | Some s \<Rightarrow> Some \<lparr>ad_vtable = vtable, ad_channel = ic_ReceiveHandlerSet vtable s (Some ()),
           ad_receive_func = None, ad_receive_cookie = null_cookie, ad_deleted = False\<rparr>)"


section \<open>A channel of a backend\<close>

text \<open>
  The part of \<open>ICanChannel\<close> that \<open>CanChannelBase\<close> provides for every backend; what a backend adds
  (\<open>'x\<close>: its members) is reached through the functions it overrides, the arguments.
\<close>

type_synonym 'x backend_channel = "(unit, unit) can_channel_base \<times> 'x"

definition backend_vtable ::
  "('x backend_channel \<Rightarrow> bool \<times> 'x backend_channel) \<Rightarrow> ('x backend_channel \<Rightarrow> bool \<times> 'x backend_channel)
    \<Rightarrow> ('x backend_channel \<Rightarrow> bool \<times> 'x backend_channel) \<Rightarrow> ('x backend_channel \<Rightarrow> bool \<times> 'x backend_channel)
    \<Rightarrow> ('x backend_channel \<Rightarrow> uni_can_message \<Rightarrow> bool \<times> 'x backend_channel) \<Rightarrow> 'x backend_channel ICanChannel" where
  "backend_vtable init deinit opn cls tx = \<lparr>
     ic_Init = init,
     ic_DeInit = deinit,
     ic_Open = opn,
     ic_Close = cls,
     ic_ReceiveHandlerSet = (\<lambda>(b, x) func. (ReceiveHandlerSet b func (), x)),
     ic_ReceiveMessage = (\<lambda>(b, x). (let (m, b') = ReceiveMessage b in (m, (b', x)))),
     ic_TransmitMessage = tx,
     ic_destructor = (\<lambda>s. snd (deinit (snd (cls s))))\<rparr>"

definition backend_pending :: "('x backend_channel, 'f, 'c) CanChannelAdapter \<Rightarrow> uni_can_message list" where
  "backend_pending a = cb_receive_queue (fst (ad_channel a))"

text \<open>An adapter that was made of a backend's channel and not deleted.\<close>

definition backend_live :: "('x backend_channel, 'f, 'c) CanChannelAdapter \<Rightarrow> bool" where
  "backend_live a \<longleftrightarrow> \<not> ad_deleted a \<and>
     ic_ReceiveMessage (ad_vtable a) = (\<lambda>(b, x). (let (m, b') = ReceiveMessage b in (m, (b', x))))"


section \<open>Lemmas\<close>

lemma adapter_receive_empty:
  "backend_live a \<Longrightarrow> backend_pending a = [] \<Longrightarrow> adapter_receive a = (None, a)"
  by (cases a) (auto simp: adapter_receive_def backend_live_def backend_pending_def split_beta)

lemma adapter_receive_head:
  assumes "backend_live a" "backend_pending a = m # ms"
  shows "\<exists>a'. adapter_receive a = (Some m, a') \<and> backend_pending a' = ms \<and> backend_live a'"
  using assms
  by (auto simp: adapter_receive_def backend_live_def backend_pending_def split_beta)

lemma no_tp_after_clear: "(w AND NOT UNI_CAN_MSG_FLAG_TP) AND UNI_CAN_MSG_FLAG_TP = (0 :: u32)"
  by (rule bit_word_eqI) (simp add: bit_simps)

lemma adapter_receive_to_head:
  assumes "backend_live a" "backend_pending a = m # ms"
  shows "\<exists>a'. adapter_receive_to_released a msg = (True, m, a', [ReleasedMessage]) \<and>
    backend_pending a' = ms \<and> backend_live a'"
  using adapter_receive_head [OF assms]
  by (auto simp: adapter_receive_to_released_def uni_can_message_free_def no_tp_after_clear)

text \<open>Every channel of a C++ backend keeps the contract of a source of messages.\<close>

interpretation adapted: channel_source adapter_ops_of backend_pending backend_live
proof unfold_locales
  fix s :: "('x backend_channel, 'f, 'c) CanChannelAdapter" and ops f g m ms x
  assume live: "backend_live s"
  show "\<exists>ops. adapter_ops_of s = Some ops \<and> (op_receive ops \<noteq> None \<or> op_receive_to ops \<noteq> None)"
    using live by (simp add: adapter_ops_of_def adapter_ops_def backend_live_def)
  assume ops: "adapter_ops_of s = Some ops"
  then have eqs: "op_receive ops = Some adapter_receive" "op_receive_to ops = Some adapter_receive_to"
    by (auto simp: adapter_ops_of_def adapter_ops_def split: if_splits)
  show "fst (f s) = None \<and> backend_pending (snd (f s)) = [] \<and> backend_live (snd (f s))"
    if "op_receive ops = Some f" "backend_pending s = []"
    using that eqs live adapter_receive_empty [OF live] by simp
  show "fst (f s) = Some m \<and> backend_pending (snd (f s)) = ms \<and> backend_live (snd (f s))"
    if "op_receive ops = Some f" "backend_pending s = m # ms"
    using that eqs adapter_receive_head [OF live that(2)] by auto
  show "fst (g s x) = False \<and> backend_pending (snd (snd (g s x))) = [] \<and> backend_live (snd (snd (g s x)))"
    if "op_receive_to ops = Some g" "backend_pending s = []"
    using that eqs live adapter_receive_empty [OF live]
    by (simp add: adapter_receive_to_def adapter_receive_to_released_def)
  show "fst (g s x) = True \<and> fst (snd (g s x)) = m \<and> backend_pending (snd (snd (g s x))) = ms
      \<and> backend_live (snd (snd (g s x)))"
    if "op_receive_to ops = Some g" "backend_pending s = m # ms"
    using that eqs adapter_receive_to_head [OF live that(2), of x] by (auto simp: adapter_receive_to_def)
qed

end
