(* ===== verification/J1939Pgn.thy ===== *)
theory J1939Pgn
  imports CanId
begin

text \<open>
  CAN identifiers of SAE J1939 (\<open>include/uni_can_j1939_const.h\<close>,
  \<open>src/uni_can_j1939_pgn.c\<close>): priority, data page, PDU format, PDU specific and source address, and
  the parameter group number (PGN) they form. A PDU format below 240 makes the PDU specific byte a
  destination address, which is not part of the PGN; from 240 on it is the low byte of the PGN.

  In C the small fields are promoted to \<open>int\<close> before they are shifted, which has a defined result
  for a priority of at most 31; the definitions shift in 32 bits.
\<close>

section \<open>Constants\<close>

definition UNI_CAN_J1939_PGN_REQUEST :: u32 where "UNI_CAN_J1939_PGN_REQUEST = 0x0EA00"

definition UNI_CAN_J1939_MASK_PRIORITY :: u32 where "UNI_CAN_J1939_MASK_PRIORITY = 0x1C000000"
definition UNI_CAN_J1939_MASK_DATAPAGE :: u32 where "UNI_CAN_J1939_MASK_DATAPAGE = 0x01000000"
definition UNI_CAN_J1939_MASK_PDU_FORMAT :: u32 where "UNI_CAN_J1939_MASK_PDU_FORMAT = 0x00FF0000"
definition UNI_CAN_J1939_MASK_PDU_SPECIFIC :: u32 where "UNI_CAN_J1939_MASK_PDU_SPECIFIC = 0x0000FF00"
definition UNI_CAN_J1939_MASK_ADDR_SRC :: u32 where "UNI_CAN_J1939_MASK_ADDR_SRC = 0x000000FF"

definition UNI_CAN_J1939_POS_PRIORITY :: nat where "UNI_CAN_J1939_POS_PRIORITY = 26"
definition UNI_CAN_J1939_POS_DATAPAGE :: nat where "UNI_CAN_J1939_POS_DATAPAGE = 24"
definition UNI_CAN_J1939_POS_PDU_FORMAT :: nat where "UNI_CAN_J1939_POS_PDU_FORMAT = 16"
definition UNI_CAN_J1939_POS_PDU_SPECIFIC :: nat where "UNI_CAN_J1939_POS_PDU_SPECIFIC = 8"
definition UNI_CAN_J1939_POS_PGN_NUMBER :: nat where "UNI_CAN_J1939_POS_PGN_NUMBER = 8"
definition UNI_CAN_J1939_POS_ADDR_SRC :: nat where "UNI_CAN_J1939_POS_ADDR_SRC = 0"

definition EXT_PDU_FORMAT :: u8 where "EXT_PDU_FORMAT = 240"

lemmas j1939_pos_defs =
  UNI_CAN_J1939_POS_PRIORITY_def UNI_CAN_J1939_POS_DATAPAGE_def UNI_CAN_J1939_POS_PDU_FORMAT_def
  UNI_CAN_J1939_POS_PDU_SPECIFIC_def UNI_CAN_J1939_POS_PGN_NUMBER_def UNI_CAN_J1939_POS_ADDR_SRC_def

lemmas j1939_mask_defs =
  UNI_CAN_J1939_MASK_PRIORITY_def UNI_CAN_J1939_MASK_DATAPAGE_def UNI_CAN_J1939_MASK_PDU_FORMAT_def
  UNI_CAN_J1939_MASK_PDU_SPECIFIC_def UNI_CAN_J1939_MASK_ADDR_SRC_def


section \<open>Taking an identifier apart\<close>

definition uni_can_j1939_pgn_get_priority :: "u32 \<Rightarrow> u8" where
  "uni_can_j1939_pgn_get_priority can_id =
     ucast (drop_bit UNI_CAN_J1939_POS_PRIORITY (can_id AND UNI_CAN_J1939_MASK_PRIORITY))"

definition uni_can_j1939_pgn_get_datapage :: "u32 \<Rightarrow> u8" where
  "uni_can_j1939_pgn_get_datapage can_id =
     ucast (drop_bit UNI_CAN_J1939_POS_DATAPAGE (can_id AND UNI_CAN_J1939_MASK_DATAPAGE))"

definition uni_can_j1939_pgn_get_pduformat :: "u32 \<Rightarrow> u8" where
  "uni_can_j1939_pgn_get_pduformat can_id =
     ucast (drop_bit UNI_CAN_J1939_POS_PDU_FORMAT (can_id AND UNI_CAN_J1939_MASK_PDU_FORMAT))"

definition uni_can_j1939_pgn_get_pduspecific :: "u32 \<Rightarrow> u8" where
  "uni_can_j1939_pgn_get_pduspecific can_id =
     ucast (drop_bit UNI_CAN_J1939_POS_PDU_SPECIFIC (can_id AND UNI_CAN_J1939_MASK_PDU_SPECIFIC))"

definition uni_can_j1939_pgn_get_sourceaddr :: "u32 \<Rightarrow> u8" where
  "uni_can_j1939_pgn_get_sourceaddr can_id =
     ucast (drop_bit UNI_CAN_J1939_POS_ADDR_SRC (can_id AND UNI_CAN_J1939_MASK_ADDR_SRC))"

definition uni_can_j1939_pgn_contains_dstaddr :: "u32 \<Rightarrow> bool" where
  "uni_can_j1939_pgn_contains_dstaddr can_id \<longleftrightarrow> uni_can_j1939_pgn_get_pduformat can_id < EXT_PDU_FORMAT"

definition uni_can_j1939_pgn_get_pgnnumber_mask :: "u32 \<Rightarrow> u32" where
  "uni_can_j1939_pgn_get_pgnnumber_mask can_id =
     (if uni_can_j1939_pgn_contains_dstaddr can_id
      then UNI_CAN_J1939_MASK_DATAPAGE OR UNI_CAN_J1939_MASK_PDU_FORMAT
      else UNI_CAN_J1939_MASK_DATAPAGE OR UNI_CAN_J1939_MASK_PDU_FORMAT OR UNI_CAN_J1939_MASK_PDU_SPECIFIC)"

definition uni_can_j1939_pgn_get_pgnnumber :: "u32 \<Rightarrow> u32" where
  "uni_can_j1939_pgn_get_pgnnumber can_id =
     drop_bit UNI_CAN_J1939_POS_PGN_NUMBER (can_id AND uni_can_j1939_pgn_get_pgnnumber_mask can_id)"


section \<open>Putting an identifier together\<close>

definition uni_can_j1939_pgn_create_3 :: "u32 \<Rightarrow> u32" where
  "uni_can_j1939_pgn_create_3 pgn_number =
     push_bit UNI_CAN_J1939_POS_PGN_NUMBER pgn_number AND
     uni_can_j1939_pgn_get_pgnnumber_mask (push_bit UNI_CAN_J1939_POS_PGN_NUMBER pgn_number)"

definition uni_can_j1939_pgn_create_2 :: "u32 \<Rightarrow> u32 \<Rightarrow> u32" where
  "uni_can_j1939_pgn_create_2 pgn_number pdu_specific =
     (let result = uni_can_j1939_pgn_create_3 pgn_number in
      if uni_can_j1939_pgn_contains_dstaddr result
      then result OR push_bit UNI_CAN_J1939_POS_PDU_SPECIFIC (pdu_specific AND 0xFF)
      else result)"

definition uni_can_j1939_pgn_create :: "u8 \<Rightarrow> u32 \<Rightarrow> u8 \<Rightarrow> u8 \<Rightarrow> u32" where
  "uni_can_j1939_pgn_create priority pgn_number pdu_specific source_addr =
     (push_bit UNI_CAN_J1939_POS_PRIORITY (ucast priority) AND UNI_CAN_J1939_MASK_PRIORITY) OR
     uni_can_j1939_pgn_create_2 pgn_number (ucast pdu_specific) OR
     (push_bit UNI_CAN_J1939_POS_ADDR_SRC (ucast source_addr) AND UNI_CAN_J1939_MASK_ADDR_SRC)"

text \<open>A PGN in the three bytes of a message; \<open>None\<close> is a null pointer.\<close>

definition uni_can_j1939_pgn_create_from_array :: "u8 list option \<Rightarrow> u32" where
  "uni_can_j1939_pgn_create_from_array data =
     (case data of
        None \<Rightarrow> 0
      | Some d \<Rightarrow> ucast (d ! 0) OR push_bit 8 (ucast (d ! 1)) OR push_bit 16 (ucast (d ! 2)))"

definition uni_can_j1939_pgn_create_to_array :: "u32 \<Rightarrow> u8 list option \<Rightarrow> u8 list option" where
  "uni_can_j1939_pgn_create_to_array pgn data =
     (case data of
        None \<Rightarrow> None
      | Some d \<Rightarrow> Some (d[0 := ucast (pgn AND 0xFF), 1 := ucast (drop_bit 8 pgn AND 0xFF),
          2 := ucast (drop_bit 16 pgn AND 0x03)]))"

definition uni_can_j1939_pgn_replace_addr :: "u32 \<Rightarrow> u8 \<Rightarrow> u32" where
  "uni_can_j1939_pgn_replace_addr can_id src_addr =
     (can_id AND NOT UNI_CAN_J1939_MASK_ADDR_SRC) OR (ucast src_addr AND UNI_CAN_J1939_MASK_ADDR_SRC)"

definition uni_can_j1939_pgn_replace_dstaddr :: "u32 \<Rightarrow> u8 \<Rightarrow> u32" where
  "uni_can_j1939_pgn_replace_dstaddr can_id dst_addr =
     (if uni_can_j1939_pgn_contains_dstaddr can_id
      then (can_id AND NOT UNI_CAN_J1939_MASK_PDU_SPECIFIC) OR
        (push_bit UNI_CAN_J1939_POS_PDU_SPECIFIC (ucast dst_addr) AND UNI_CAN_J1939_MASK_PDU_SPECIFIC)
      else can_id)"


section \<open>The bits\<close>

named_theorems j1939_bits "bits of the J1939 masks and fields"

lemma j1939_mask_fields:
  "UNI_CAN_J1939_MASK_PRIORITY = push_bit 26 (mask 3)" "UNI_CAN_J1939_MASK_DATAPAGE = push_bit 24 (mask 1)"
  "UNI_CAN_J1939_MASK_PDU_FORMAT = push_bit 16 (mask 8)" "UNI_CAN_J1939_MASK_PDU_SPECIFIC = push_bit 8 (mask 8)"
  "UNI_CAN_J1939_MASK_ADDR_SRC = mask 8"
  by (simp_all add: j1939_mask_defs mask_eq_exp_minus_1 push_bit_eq_mult)

lemma bit_field_mask: "bit (push_bit k (mask m) :: u32) n \<longleftrightarrow> k \<le> n \<and> n < k + m \<and> n < 32"
  by (auto simp: bit_push_bit_iff bit_mask_iff)

lemma bit_j1939_masks [j1939_bits]:
  "bit UNI_CAN_J1939_MASK_PRIORITY n \<longleftrightarrow> 26 \<le> n \<and> n < 29"
  "bit UNI_CAN_J1939_MASK_DATAPAGE n \<longleftrightarrow> n = 24"
  "bit UNI_CAN_J1939_MASK_PDU_FORMAT n \<longleftrightarrow> 16 \<le> n \<and> n < 24"
  "bit UNI_CAN_J1939_MASK_PDU_SPECIFIC n \<longleftrightarrow> 8 \<le> n \<and> n < 16"
  "bit UNI_CAN_J1939_MASK_ADDR_SRC n \<longleftrightarrow> n < 8"
  by (simp_all only: j1939_mask_fields bit_field_mask bit_mask_iff possible_bit_word) auto

lemma bit_j1939_get [j1939_bits]:
  "bit (uni_can_j1939_pgn_get_priority c) n \<longleftrightarrow> n < 3 \<and> bit c (26 + n)"
  "bit (uni_can_j1939_pgn_get_datapage c) n \<longleftrightarrow> n = 0 \<and> bit c 24"
  "bit (uni_can_j1939_pgn_get_pduformat c) n \<longleftrightarrow> n < 8 \<and> bit c (16 + n)"
  "bit (uni_can_j1939_pgn_get_pduspecific c) n \<longleftrightarrow> n < 8 \<and> bit c (8 + n)"
  "bit (uni_can_j1939_pgn_get_sourceaddr c) n \<longleftrightarrow> n < 8 \<and> bit c n"
  by (auto simp: uni_can_j1939_pgn_get_priority_def uni_can_j1939_pgn_get_datapage_def
      uni_can_j1939_pgn_get_pduformat_def uni_can_j1939_pgn_get_pduspecific_def uni_can_j1939_pgn_get_sourceaddr_def
      j1939_pos_defs bit_ucast_iff bit_drop_bit_eq bit_and_iff bit_j1939_masks)

lemma bit_j1939_pgnnumber_mask [j1939_bits]:
  "bit (uni_can_j1939_pgn_get_pgnnumber_mask c) n \<longleftrightarrow>
    (if uni_can_j1939_pgn_contains_dstaddr c then 16 else 8) \<le> n \<and> n < 25"
  by (auto simp: uni_can_j1939_pgn_get_pgnnumber_mask_def bit_or_iff bit_j1939_masks)

lemma bit_j1939_pgnnumber [j1939_bits]:
  "bit (uni_can_j1939_pgn_get_pgnnumber c) n \<longleftrightarrow>
    (if uni_can_j1939_pgn_contains_dstaddr c then 8 else 0) \<le> n \<and> n < 17 \<and> bit c (8 + n)"
  by (auto simp: uni_can_j1939_pgn_get_pgnnumber_def j1939_pos_defs bit_drop_bit_eq bit_and_iff
      bit_j1939_pgnnumber_mask)

lemma pduformat_cong:
  "(\<And>n. n < 8 \<Longrightarrow> bit c (16 + n) = bit d (16 + n)) \<Longrightarrow>
    uni_can_j1939_pgn_get_pduformat c = uni_can_j1939_pgn_get_pduformat d"
  by (rule bit_word_eqI) (simp add: bit_j1939_get)

text \<open>Whether an identifier with this PGN has a destination address.\<close>

definition pgn_has_dstaddr :: "u32 \<Rightarrow> bool" where
  "pgn_has_dstaddr pgn \<longleftrightarrow> uni_can_j1939_pgn_contains_dstaddr (push_bit 8 pgn)"

lemma contains_dstaddr_cong:
  "(\<And>n. n < 8 \<Longrightarrow> bit c (16 + n) = bit d (8 + n)) \<Longrightarrow>
    uni_can_j1939_pgn_contains_dstaddr c = pgn_has_dstaddr d"
  unfolding uni_can_j1939_pgn_contains_dstaddr_def pgn_has_dstaddr_def
  by (subst pduformat_cong [of c "push_bit 8 d"]) (auto simp: bit_push_bit_iff)

lemma bit_create_3:
  "bit (uni_can_j1939_pgn_create_3 pgn) n \<longleftrightarrow>
    (if pgn_has_dstaddr pgn then 16 else 8) \<le> n \<and> n < 25 \<and> bit pgn (n - 8)"
  by (auto simp: uni_can_j1939_pgn_create_3_def j1939_pos_defs bit_and_iff bit_push_bit_iff
      bit_j1939_pgnnumber_mask pgn_has_dstaddr_def)

lemma create_3_has_dstaddr: "uni_can_j1939_pgn_contains_dstaddr (uni_can_j1939_pgn_create_3 pgn) = pgn_has_dstaddr pgn"
  by (rule contains_dstaddr_cong) (auto simp: bit_create_3)

lemma bit_create_2:
  "bit (uni_can_j1939_pgn_create_2 pgn ps) n \<longleftrightarrow>
    (if pgn_has_dstaddr pgn then (16 \<le> n \<and> n < 25 \<and> bit pgn (n - 8)) \<or> (8 \<le> n \<and> n < 16 \<and> bit ps (n - 8))
     else 8 \<le> n \<and> n < 25 \<and> bit pgn (n - 8))"
proof -
  have "bit (push_bit 8 (ps AND 0xFF)) n \<longleftrightarrow> 8 \<le> n \<and> n < 16 \<and> bit ps (n - 8)"
    unfolding masks bit_field_put_same by auto
  then show ?thesis
    by (auto simp: uni_can_j1939_pgn_create_2_def Let_def create_3_has_dstaddr bit_or_iff bit_create_3 j1939_pos_defs)
qed

lemma bit_pgn_create [j1939_bits]:
  "bit (uni_can_j1939_pgn_create p pgn ps sa) n \<longleftrightarrow>
    (26 \<le> n \<and> n < 29 \<and> bit p (n - 26)) \<or>
    (16 \<le> n \<and> n < 25 \<and> bit pgn (n - 8)) \<or>
    (8 \<le> n \<and> n < 16 \<and> (if pgn_has_dstaddr pgn then bit ps (n - 8) else bit pgn (n - 8))) \<or>
    (n < 8 \<and> bit sa n)"
  unfolding uni_can_j1939_pgn_create_def bit_or_iff bit_create_2
  by (auto simp: j1939_pos_defs bit_and_iff bit_push_bit_iff bit_ucast_iff bit_j1939_masks)

lemma pgn_create_has_dstaddr [simp]:
  "uni_can_j1939_pgn_contains_dstaddr (uni_can_j1939_pgn_create p pgn ps sa) = pgn_has_dstaddr pgn"
  by (rule contains_dstaddr_cong) (auto simp: bit_pgn_create)


section \<open>Properties\<close>

lemma pgn_create_29_bits: "unat (uni_can_j1939_pgn_create p pgn ps sa) < 2 ^ 29"
proof -
  have "take_bit 29 (uni_can_j1939_pgn_create p pgn ps sa) = uni_can_j1939_pgn_create p pgn ps sa"
    by (rule bit_word_eqI) (auto simp: bit_take_bit_iff bit_pgn_create)
  then show ?thesis
    by (metis take_bit_nat_less_exp unsigned_take_bit_eq)
qed

lemma pgn_get_create:
  "uni_can_j1939_pgn_get_priority (uni_can_j1939_pgn_create p pgn ps sa) = take_bit 3 p"
  "uni_can_j1939_pgn_get_sourceaddr (uni_can_j1939_pgn_create p pgn ps sa) = sa"
  "uni_can_j1939_pgn_get_pduspecific (uni_can_j1939_pgn_create p pgn ps sa) =
    (if pgn_has_dstaddr pgn then ps else ucast pgn)"
  "uni_can_j1939_pgn_get_pgnnumber (uni_can_j1939_pgn_create p pgn ps sa) =
    (if pgn_has_dstaddr pgn then take_bit 17 (push_bit 8 (drop_bit 8 pgn)) else take_bit 17 pgn)"
proof -
  show "uni_can_j1939_pgn_get_priority (uni_can_j1939_pgn_create p pgn ps sa) = take_bit 3 p"
    by (rule bit_word_eqI) (auto simp: j1939_bits bit_take_bit_iff)
  show "uni_can_j1939_pgn_get_sourceaddr (uni_can_j1939_pgn_create p pgn ps sa) = sa"
    by (rule bit_word_eqI) (auto simp: j1939_bits)
  show "uni_can_j1939_pgn_get_pduspecific (uni_can_j1939_pgn_create p pgn ps sa) =
    (if pgn_has_dstaddr pgn then ps else ucast pgn)"
    by (rule bit_word_eqI) (auto simp: j1939_bits bit_ucast_iff)
  show "uni_can_j1939_pgn_get_pgnnumber (uni_can_j1939_pgn_create p pgn ps sa) =
    (if pgn_has_dstaddr pgn then take_bit 17 (push_bit 8 (drop_bit 8 pgn)) else take_bit 17 pgn)"
    by (rule bit_word_eqI) (auto simp: j1939_bits bit_take_bit_iff bit_push_bit_iff bit_drop_bit_eq)
qed

text \<open>The codec: priority, PGN, PDU specific byte and source address.\<close>

definition j1939_encode :: "u8 \<times> u32 \<times> u8 \<times> u8 \<Rightarrow> u32" where
  "j1939_encode = (\<lambda>(p, pgn, ps, sa). uni_can_j1939_pgn_create p pgn ps sa)"

definition j1939_decode :: "u32 \<Rightarrow> u8 \<times> u32 \<times> u8 \<times> u8" where
  "j1939_decode can_id = (uni_can_j1939_pgn_get_priority can_id, uni_can_j1939_pgn_get_pgnnumber can_id,
     uni_can_j1939_pgn_get_pduspecific can_id, uni_can_j1939_pgn_get_sourceaddr can_id)"

text \<open>
  A PGN has 17 bits. One with a destination address ends in a zero byte; in one without, the PDU
  specific byte is its low byte.
\<close>

definition j1939_pgn_ok :: "u32 \<Rightarrow> bool" where
  "j1939_pgn_ok pgn \<longleftrightarrow> take_bit 17 pgn = pgn \<and> (pgn_has_dstaddr pgn \<longrightarrow> take_bit 8 pgn = 0)"

definition j1939_fits :: "u8 \<times> u32 \<times> u8 \<times> u8 \<Rightarrow> bool" where
  "j1939_fits = (\<lambda>(p, pgn, ps, sa). p \<le> 7 \<and> j1939_pgn_ok pgn \<and> (pgn_has_dstaddr pgn \<or> ps = ucast pgn))"

lemma take_bit_3_priority: "(p :: u8) \<le> 7 \<Longrightarrow> take_bit 3 p = p"
  unfolding take_bit_eq_mask by (rule and_numeral_mask_self) (simp add: word_le_nat_alt)

lemma clear_low_byte: "take_bit 8 (pgn :: u32) = 0 \<Longrightarrow> push_bit 8 (drop_bit 8 pgn) = pgn"
  by (metis add.right_neutral bits_ident)

interpretation j1939_id: canid_codec j1939_encode j1939_decode j1939_fits
proof
  show "j1939_decode (j1939_encode f) = f" if "j1939_fits f" for f
    using that by (cases f)
      (auto simp: j1939_encode_def j1939_decode_def j1939_fits_def pgn_get_create j1939_pgn_ok_def
        take_bit_3_priority clear_low_byte)
  show "unat (j1939_encode f) < 2 ^ 29" for f
    by (cases f) (simp add: j1939_encode_def pgn_create_29_bits [simplified])
qed

text \<open>
  C39. The fields a J1939 identifier is made of come back from it, for a priority of three bits and a
  PGN of 17 bits whose low byte is empty when it takes a destination address; the identifier has
  at most 29 bits. Without a destination address the given PDU specific byte is ignored: the low
  byte of the PGN is in its place.
\<close>

theorem j1939_id_roundtrip:
  assumes "p \<le> 7" "j1939_pgn_ok pgn" and can_id: "can_id = uni_can_j1939_pgn_create p pgn ps sa"
  shows "uni_can_j1939_pgn_get_priority can_id = p \<and> uni_can_j1939_pgn_get_pgnnumber can_id = pgn \<and>
    uni_can_j1939_pgn_get_sourceaddr can_id = sa \<and>
    uni_can_j1939_pgn_get_pduspecific can_id = (if uni_can_j1939_pgn_contains_dstaddr can_id then ps else ucast pgn) \<and>
    unat can_id < 2 ^ 29"
  using assms(1,2) pgn_create_29_bits [of p pgn ps sa]
  by (auto simp: can_id pgn_get_create j1939_pgn_ok_def take_bit_3_priority clear_low_byte)

theorem j1939_id_roundtrip_witness:
  "uni_can_j1939_pgn_get_pgnnumber (uni_can_j1939_pgn_create 6 UNI_CAN_J1939_PGN_REQUEST 0x21 0x42) = 0x0EA00 \<and>
   uni_can_j1939_pgn_get_pduspecific (uni_can_j1939_pgn_create 6 UNI_CAN_J1939_PGN_REQUEST 0x21 0x42) = 0x21"
proof -
  have dst: "pgn_has_dstaddr 0x0EA00"
    by (simp add: pgn_has_dstaddr_def uni_can_j1939_pgn_contains_dstaddr_def uni_can_j1939_pgn_get_pduformat_def
        EXT_PDU_FORMAT_def j1939_mask_defs j1939_pos_defs)
  then have "j1939_pgn_ok 0x0EA00"
    by (simp add: j1939_pgn_ok_def)
  with j1939_id_roundtrip [of 6 "0x0EA00" _ "0x21" "0x42"] dst show ?thesis
    by (simp add: UNI_CAN_J1939_PGN_REQUEST_def)
qed

lemma bit_replace [j1939_bits]:
  "bit (uni_can_j1939_pgn_replace_addr c a) n \<longleftrightarrow> n < 32 \<and> (if n < 8 then bit a n else bit c n)"
  "bit (uni_can_j1939_pgn_replace_dstaddr c a) n \<longleftrightarrow>
    (if uni_can_j1939_pgn_contains_dstaddr c \<and> 8 \<le> n \<and> n < 16 then bit a (n - 8) else bit c n)"
  by (auto simp: uni_can_j1939_pgn_replace_addr_def uni_can_j1939_pgn_replace_dstaddr_def bit_or_iff bit_and_iff
      bit_not_iff bit_ucast_iff bit_push_bit_iff bit_j1939_masks j1939_pos_defs dest: bit_imp_le_length)

lemma replace_has_dstaddr:
  "uni_can_j1939_pgn_contains_dstaddr (uni_can_j1939_pgn_replace_addr c a) = uni_can_j1939_pgn_contains_dstaddr c"
  "uni_can_j1939_pgn_contains_dstaddr (uni_can_j1939_pgn_replace_dstaddr c a) = uni_can_j1939_pgn_contains_dstaddr c"
  unfolding uni_can_j1939_pgn_contains_dstaddr_def
  by (subst pduformat_cong [of _ c]; auto simp: bit_replace)+

text \<open>
  Replacing the source address changes nothing but the source address. Replacing the destination
  address changes nothing but the PDU specific byte when the identifier has a destination address,
  and nothing at all when it has none, so the PGN stays the same in either case.
\<close>

theorem j1939_replace_addresses:
  "uni_can_j1939_pgn_get_sourceaddr (uni_can_j1939_pgn_replace_addr c a) = a \<and>
   uni_can_j1939_pgn_get_pduspecific (uni_can_j1939_pgn_replace_addr c a) = uni_can_j1939_pgn_get_pduspecific c \<and>
   uni_can_j1939_pgn_get_pgnnumber (uni_can_j1939_pgn_replace_addr c a) = uni_can_j1939_pgn_get_pgnnumber c \<and>
   uni_can_j1939_pgn_get_priority (uni_can_j1939_pgn_replace_addr c a) = uni_can_j1939_pgn_get_priority c \<and>
   uni_can_j1939_pgn_get_pduspecific (uni_can_j1939_pgn_replace_dstaddr c a) =
     (if uni_can_j1939_pgn_contains_dstaddr c then a else uni_can_j1939_pgn_get_pduspecific c) \<and>
   uni_can_j1939_pgn_get_sourceaddr (uni_can_j1939_pgn_replace_dstaddr c a) = uni_can_j1939_pgn_get_sourceaddr c \<and>
   uni_can_j1939_pgn_get_pgnnumber (uni_can_j1939_pgn_replace_dstaddr c a) = uni_can_j1939_pgn_get_pgnnumber c \<and>
   uni_can_j1939_pgn_get_priority (uni_can_j1939_pgn_replace_dstaddr c a) = uni_can_j1939_pgn_get_priority c"
  by (intro conjI; rule bit_word_eqI)
    (auto simp: bit_j1939_get bit_j1939_pgnnumber bit_replace replace_has_dstaddr dest: bit_imp_le_length)

text \<open>
  A PGN of 18 bits written to an array of three bytes is read back from it, whatever the array
  held before.
\<close>

theorem j1939_array_roundtrip:
  assumes "length d = 3"
  shows "uni_can_j1939_pgn_create_from_array (uni_can_j1939_pgn_create_to_array pgn (Some d)) = take_bit 18 pgn"
proof -
  obtain a b c where d: "d = [a, b, c]"
    using assms by (auto simp: length_Suc_conv numeral_3_eq_3)
  have bytes: "bit (ucast (ucast (pgn AND mask 8) :: u8) :: u32) n \<longleftrightarrow> n < 8 \<and> bit pgn n"
    "bit (push_bit 8 (ucast (ucast (drop_bit 8 pgn AND mask 8) :: u8)) :: u32) n \<longleftrightarrow> 8 \<le> n \<and> n < 16 \<and> bit pgn n"
    "bit (push_bit 16 (ucast (ucast (drop_bit 16 pgn AND mask 2) :: u8)) :: u32) n \<longleftrightarrow> 16 \<le> n \<and> n < 18 \<and> bit pgn n"
    for n
    by (auto simp: bit_simps)
  show ?thesis
    by (rule bit_word_eqI)
      (auto simp: d uni_can_j1939_pgn_create_from_array_def uni_can_j1939_pgn_create_to_array_def masks bit_or_iff
        bytes bit_take_bit_iff)
qed

theorem j1939_array_roundtrip_witness:
  "uni_can_j1939_pgn_create_from_array (uni_can_j1939_pgn_create_to_array 0x0FECA (Some [0, 0, 0])) = 0x0FECA"
  using j1939_array_roundtrip [of "[0, 0, 0]" "0x0FECA"] by simp

end
