(* ===== verification/J1939Msg.thy ===== *)
theory J1939Msg
  imports CanMessage J1939Pgn
begin

text \<open>
  Messages and signals of SAE J1939 (\<open>include/uni_can_j1939_signal.h\<close>,
  \<open>include/uni_can_j1939_msg.h\<close>, \<open>src/uni_can_j1939_msg.c\<close>). A message descriptor lists the
  signals of a message in their order; a signal starts at the bit where the one before it ends.

  A value is the union \<open>uni_can_j1939_signal_value_t\<close>: 64 bits that are read as an integer or as a
  double. Doubles are their bit patterns, and the operations of the floating point unit are the
  record \<open>fp\<close>. The eight data bytes are read as one integer, least significant byte first.
  Results are \<open>None\<close> where C leaves the behaviour undefined: a matching signal that is 64 or more
  bits long or starts at bit 64 or later, which shifts a \<open>uint64_t\<close> too far, or a transport message.
\<close>

section \<open>Bytes and integers\<close>

fun le_word :: "u8 list \<Rightarrow> 'a::len word" where
  "le_word [] = 0"
| "le_word (b # bs) = ucast b OR push_bit 8 (le_word bs)"

definition le_bytes :: "nat \<Rightarrow> 'a::len word \<Rightarrow> u8 list" where
  "le_bytes n w = map (\<lambda>i. ucast (drop_bit (8 * i) w)) [0..<n]"

lemma length_le_bytes [simp]: "length (le_bytes n w) = n"
  by (simp add: le_bytes_def)

lemma bit_le_word:
  "bit (le_word bs :: 'a::len word) n \<longleftrightarrow> n < LENGTH('a) \<and> n div 8 < length bs \<and> bit (bs ! (n div 8)) (n mod 8)"
proof (induction bs arbitrary: n)
  case (Cons b bs)
  show ?case
  proof (cases "n < 8")
    case True
    then show ?thesis
      by (auto simp: bit_or_iff bit_push_bit_iff bit_ucast_iff dest: bit_imp_le_length)
  next
    case False
    then have n: "n div 8 = Suc ((n - 8) div 8)" "(n - 8) mod 8 = n mod 8"
      by (auto simp: le_div_geq le_mod_geq)
    have "\<not> bit b n"
      using False bit_imp_le_length [of b n] by auto
    with False n show ?thesis
      by (auto simp: bit_or_iff bit_push_bit_iff bit_ucast_iff Cons.IH)
  qed
qed simp

lemma le_word_le_bytes: "LENGTH('a) \<le> 8 * n \<Longrightarrow> le_word (le_bytes n (w :: 'a::len word)) = w"
proof (rule bit_word_eqI)
  fix k
  assume "LENGTH('a) \<le> 8 * n" "k < LENGTH('a)"
  then have "k div 8 < n"
    by (simp add: div_less_iff_less_mult mult.commute)
  then show "bit (le_word (le_bytes n w) :: 'a word) k = bit w k"
    using \<open>k < LENGTH('a)\<close>
    by (simp add: bit_le_word) (simp add: le_bytes_def bit_ucast_iff bit_drop_bit_eq)
qed


section \<open>Signals and descriptors\<close>

datatype uni_can_j1939_signal_type =
    SIGNAL_SLOT | SIGNAL_RAW | SIGNAL_PGNNUM | SIGNAL_SPECIAL nat

record uni_can_j1939_signal =
  jsig_id :: nat
  jsig_length :: u64
  jsig_offset :: u64
  jsig_scale :: u64
  jsig_val_min :: u64
  jsig_val_max :: u64
  jsig_unit :: string
  jsig_type :: uni_can_j1939_signal_type

record uni_can_j1939_msg_desc =
  jmd_pgn_number :: nat
  jmd_period :: nat
  jmd_signal :: "uni_can_j1939_signal list"

record fp =
  fp_nan :: u64
  fp_isnan :: "u64 \<Rightarrow> bool"
  fp_isinf :: "u64 \<Rightarrow> bool"
  fp_greater :: "u64 \<Rightarrow> u64 \<Rightarrow> bool"
  fp_of_u64 :: "u64 \<Rightarrow> u64"
  fp_to_u64 :: "u64 \<Rightarrow> u64"
  fp_add :: "u64 \<Rightarrow> u64 \<Rightarrow> u64"
  fp_sub :: "u64 \<Rightarrow> u64 \<Rightarrow> u64"
  fp_mul :: "u64 \<Rightarrow> u64 \<Rightarrow> u64"
  fp_div :: "u64 \<Rightarrow> u64 \<Rightarrow> u64"

definition J1939_PRIORITY :: u8 where "J1939_PRIORITY = 6"


section \<open>Operations\<close>

definition uni_can_j1939_msg_pgn_request ::
  "uni_can_message option \<Rightarrow> u32 \<Rightarrow> u8 \<Rightarrow> u8 \<Rightarrow> uni_can_message option \<times> bool" where
  "uni_can_j1939_msg_pgn_request msg pgn_id addr_dst addr_src =
     (case msg of
        None \<Rightarrow> (None, False)
      | Some m \<Rightarrow>
          (Some (m\<lparr>cm_len := 3, cm_flags := UNI_CAN_MSG_FLAG_EXT_ID,
             cm_id := uni_can_j1939_pgn_create J1939_PRIORITY UNI_CAN_J1939_PGN_REQUEST addr_dst addr_src,
             cm_data := Inline (blit (case cm_data m of Inline bs \<Rightarrow> bs | Ptr _ \<Rightarrow> replicate UNI_CAN_MESSAGE_MAXLEN 0) 0
               (le_bytes 4 pgn_id))\<rparr>), True))"

text \<open>The value of a signal from the data of a message, where the signal starts at \<open>offset\<close>.\<close>

definition j1939_signal_read :: "fp \<Rightarrow> uni_can_j1939_signal \<Rightarrow> u64 \<Rightarrow> u64 \<Rightarrow> u64" where
  "j1939_signal_read fp signal offset data =
     (let val_max = push_bit (unat (jsig_length signal)) 1 - 1;
          val = drop_bit (unat offset) data AND val_max
      in if jsig_type signal = SIGNAL_SLOT
         then (if val = val_max then fp_nan fp
               else fp_add fp (fp_mul fp (fp_of_u64 fp val) (jsig_scale signal)) (jsig_offset signal))
         else val)"

definition j1939_signal_encode :: "fp \<Rightarrow> uni_can_j1939_signal \<Rightarrow> u64 \<Rightarrow> u64" where
  "j1939_signal_encode fp signal v =
     (let val_max = push_bit (unat (jsig_length signal)) 1 - 1 in
      if jsig_type signal = SIGNAL_SLOT
      then (if fp_isnan fp v \<or> fp_isinf fp v \<or> fp_greater fp v (jsig_val_max signal) then val_max
            else fp_to_u64 fp (fp_div fp (fp_sub fp v (jsig_offset signal)) (jsig_scale signal)) AND val_max)
      else v AND val_max)"

definition j1939_signal_write :: "fp \<Rightarrow> uni_can_j1939_signal \<Rightarrow> u64 \<Rightarrow> u64 \<Rightarrow> u64 \<Rightarrow> u64" where
  "j1939_signal_write fp signal offset v data =
     (let val_max = push_bit (unat (jsig_length signal)) 1 - 1
      in (data AND NOT (push_bit (unat offset) val_max)) OR
         push_bit (unat offset) (j1939_signal_encode fp signal v))"

definition j1939_shift_ok :: "uni_can_j1939_signal \<Rightarrow> u64 \<Rightarrow> bool" where
  "j1939_shift_ok signal offset \<longleftrightarrow> jsig_length signal < 64 \<and> offset < 64"

fun j1939_get_loop ::
  "fp \<Rightarrow> u64 \<Rightarrow> nat \<Rightarrow> uni_can_j1939_signal list \<Rightarrow> u64 \<Rightarrow> bool \<times> u64 \<Rightarrow> (bool \<times> u64) option" where
  "j1939_get_loop fp data signal_id [] offset st = Some st"
| "j1939_get_loop fp data signal_id (signal # rest) offset st =
     (if jsig_id signal = signal_id
      then (if j1939_shift_ok signal offset
            then j1939_get_loop fp data signal_id rest (offset + jsig_length signal)
                   (True, j1939_signal_read fp signal offset data)
            else None)
      else j1939_get_loop fp data signal_id rest (offset + jsig_length signal) st)"

fun j1939_set_loop ::
  "fp \<Rightarrow> u64 \<Rightarrow> nat \<Rightarrow> uni_can_j1939_signal list \<Rightarrow> u64 \<Rightarrow> bool \<times> u64 \<Rightarrow> (bool \<times> u64) option" where
  "j1939_set_loop fp v signal_id [] offset st = Some st"
| "j1939_set_loop fp v signal_id (signal # rest) offset (result, data) =
     (if jsig_id signal = signal_id
      then (if j1939_shift_ok signal offset
            then j1939_set_loop fp v signal_id rest (offset + jsig_length signal)
                   (True, j1939_signal_write fp signal offset v data)
            else None)
      else j1939_set_loop fp v signal_id rest (offset + jsig_length signal) (result, data))"

definition uni_can_j1939_msg_signal_get ::
  "fp \<Rightarrow> uni_can_message option \<Rightarrow> uni_can_j1939_msg_desc option \<Rightarrow> nat \<Rightarrow> u64 option
    \<Rightarrow> (bool \<times> u64 option) option" where
  "uni_can_j1939_msg_signal_get fp msg desc signal_id value =
     (case (msg, desc, value) of
        (Some m, Some d, Some v) \<Rightarrow>
          (case cm_data m of
             Inline bs \<Rightarrow> map_option (\<lambda>(r, v). (r, Some v))
               (j1939_get_loop fp (le_word bs) signal_id (jmd_signal d) 0 (False, v))
           | Ptr _ \<Rightarrow> None)
      | _ \<Rightarrow> Some (False, value))"

definition uni_can_j1939_msg_signal_set ::
  "fp \<Rightarrow> uni_can_message option \<Rightarrow> uni_can_j1939_msg_desc option \<Rightarrow> nat \<Rightarrow> u64 option
    \<Rightarrow> (bool \<times> uni_can_message option) option" where
  "uni_can_j1939_msg_signal_set fp msg desc signal_id value =
     (case (msg, desc, value) of
        (Some m, Some d, Some v) \<Rightarrow>
          (case cm_data m of
             Inline bs \<Rightarrow> map_option (\<lambda>(r, data). (r, Some (m\<lparr>cm_data := Inline (le_bytes 8 data)\<rparr>)))
               (j1939_set_loop fp v signal_id (jmd_signal d) 0 (False, le_word bs))
           | Ptr _ \<Rightarrow> None)
      | _ \<Rightarrow> Some (False, msg))"


section \<open>Signals at their places\<close>

text \<open>The place of the signals of a descriptor whose signals fit the 64 bits of the data.\<close>

definition j1939_desc_ok :: "uni_can_j1939_signal list \<Rightarrow> bool" where
  "j1939_desc_ok ss \<longleftrightarrow> distinct (map jsig_id ss) \<and> (\<forall>s\<in>set ss. 0 < jsig_length s \<and> jsig_length s < 64) \<and>
     sum_list (map (unat \<circ> jsig_length) ss) \<le> 64"

definition j1939_pos :: "uni_can_j1939_signal list \<Rightarrow> nat \<Rightarrow> nat" where
  "j1939_pos ss i = sum_list (map (unat \<circ> jsig_length) (take i ss))"

definition j1939_field :: "uni_can_j1939_signal list \<Rightarrow> nat \<Rightarrow> u64 \<Rightarrow> u64" where
  "j1939_field ss i data = drop_bit (j1939_pos ss i) data AND mask (unat (jsig_length (ss ! i)))"

lemma j1939_pos_Suc: "i < length ss \<Longrightarrow> j1939_pos ss (Suc i) = j1939_pos ss i + unat (jsig_length (ss ! i))"
  by (simp add: j1939_pos_def take_Suc_conv_app_nth)

lemma j1939_pos_mono: "i \<le> j \<Longrightarrow> j1939_pos ss i \<le> j1939_pos ss j"
proof -
  assume "i \<le> j"
  then have "take j ss = take i ss @ take (j - i) (drop i ss)"
    by (metis le_add_diff_inverse take_add)
  then show ?thesis
    by (simp add: j1939_pos_def)
qed

lemma j1939_pos_total: "j1939_desc_ok ss \<Longrightarrow> j1939_pos ss i \<le> 64"
proof -
  assume ok: "j1939_desc_ok ss"
  have "sum_list (map (unat \<circ> jsig_length) ss) =
    j1939_pos ss i + sum_list (map (unat \<circ> jsig_length) (drop i ss))"
    unfolding j1939_pos_def by (metis append_take_drop_id map_append sum_list_append)
  with ok show ?thesis
    by (simp add: j1939_desc_ok_def)
qed

lemma j1939_place:
  assumes "j1939_desc_ok ss" "i < length ss"
  shows "j1939_pos ss i + unat (jsig_length (ss ! i)) \<le> 64" "j1939_pos ss i < 64"
    "0 < unat (jsig_length (ss ! i))" "j1939_shift_ok (ss ! i) (of_nat (j1939_pos ss i))"
proof -
  show sum: "j1939_pos ss i + unat (jsig_length (ss ! i)) \<le> 64"
    using j1939_pos_total [OF assms(1), of "Suc i"] j1939_pos_Suc [OF assms(2)] by simp
  have "0 < jsig_length (ss ! i)" "jsig_length (ss ! i) < 64"
    using assms by (auto simp: j1939_desc_ok_def)
  then show len: "0 < unat (jsig_length (ss ! i))"
    by (simp add: word_less_nat_alt)
  with sum show pos: "j1939_pos ss i < 64"
    by simp
  then have "(of_nat (j1939_pos ss i) :: u64) < 64"
    by (simp add: word_less_nat_alt unat_of_nat take_bit_nat_eq_self)
  with \<open>jsig_length (ss ! i) < 64\<close> show "j1939_shift_ok (ss ! i) (of_nat (j1939_pos ss i))"
    by (simp add: j1939_shift_ok_def)
qed

lemma j1939_loops_other:
  "signal_id \<notin> jsig_id ` set ss \<Longrightarrow> j1939_get_loop fp data signal_id ss offset st = Some st"
  "signal_id \<notin> jsig_id ` set ss \<Longrightarrow> j1939_set_loop fp v signal_id ss offset (r, data) = Some (r, data)"
  by (induction ss arbitrary: offset) auto

lemma j1939_loops_skip:
  "signal_id \<notin> jsig_id ` set pre \<Longrightarrow> j1939_get_loop fp data signal_id (pre @ ss) offset st =
    j1939_get_loop fp data signal_id ss (offset + of_nat (sum_list (map (unat \<circ> jsig_length) pre))) st"
  "signal_id \<notin> jsig_id ` set pre \<Longrightarrow> j1939_set_loop fp v signal_id (pre @ ss) offset (r, data) =
    j1939_set_loop fp v signal_id ss (offset + of_nat (sum_list (map (unat \<circ> jsig_length) pre))) (r, data)"
  by (induction pre arbitrary: offset) (auto simp: add.assoc)

lemma j1939_loops_at:
  assumes ok: "j1939_desc_ok ss" and i: "i < length ss"
  shows "j1939_get_loop fp data (jsig_id (ss ! i)) ss 0 st =
      Some (True, j1939_signal_read fp (ss ! i) (of_nat (j1939_pos ss i)) data)"
    and "j1939_set_loop fp v (jsig_id (ss ! i)) ss 0 (r, data) =
      Some (True, j1939_signal_write fp (ss ! i) (of_nat (j1939_pos ss i)) v data)"
proof -
  have split: "ss = take i ss @ ss ! i # drop (Suc i) ss"
    using i by (rule id_take_nth_drop)
  have "distinct (map jsig_id (take i ss @ ss ! i # drop (Suc i) ss))"
    using ok split by (simp add: j1939_desc_ok_def)
  then have fresh: "jsig_id (ss ! i) \<notin> jsig_id ` set (take i ss)" "jsig_id (ss ! i) \<notin> jsig_id ` set (drop (Suc i) ss)"
    by auto
  note at = j1939_loops_skip [OF fresh(1), of _ _ "ss ! i # drop (Suc i) ss" 0]
  note shift = j1939_place(4) [OF ok i, unfolded j1939_pos_def]
  show "j1939_get_loop fp data (jsig_id (ss ! i)) ss 0 st =
      Some (True, j1939_signal_read fp (ss ! i) (of_nat (j1939_pos ss i)) data)"
    using at(1) [of fp data st] shift j1939_loops_other(1) [OF fresh(2)] split
    by (simp add: j1939_pos_def)
  show "j1939_set_loop fp v (jsig_id (ss ! i)) ss 0 (r, data) =
      Some (True, j1939_signal_write fp (ss ! i) (of_nat (j1939_pos ss i)) v data)"
    using at(2) [of fp v r data] shift j1939_loops_other(2) [OF fresh(2)] split
    by (simp add: j1939_pos_def)
qed

lemma signal_val_max: "push_bit n 1 - 1 = (mask n :: u64)" "2 ^ n - 1 = (mask n :: u64)"
  by (simp_all add: mask_eq_exp_minus_1)

lemma j1939_encode_masked:
  "j1939_signal_encode fp s v AND mask (unat (jsig_length s)) = j1939_signal_encode fp s v"
  by (simp add: j1939_signal_encode_def Let_def signal_val_max and.assoc)

lemma bit_j1939_field:
  "bit (j1939_field ss i data) n \<longleftrightarrow> n < unat (jsig_length (ss ! i)) \<and> bit data (j1939_pos ss i + n)"
  by (auto simp: j1939_field_def bit_and_iff bit_drop_bit_eq bit_mask_iff dest: bit_imp_le_length)

lemma unat_j1939_pos:
  "j1939_desc_ok ss \<Longrightarrow> i < length ss \<Longrightarrow> unat (of_nat (j1939_pos ss i) :: u64) = j1939_pos ss i"
  using j1939_place(2) [of ss i] by (simp add: unat_of_nat take_bit_nat_eq_self)

text \<open>Writing signal \<open>i\<close> sets its field and leaves every other bit alone.\<close>

lemma bit_j1939_write:
  assumes "j1939_desc_ok ss" "i < length ss"
  shows "bit (j1939_signal_write fp (ss ! i) (of_nat (j1939_pos ss i)) v data) n \<longleftrightarrow>
    (if j1939_pos ss i \<le> n \<and> n < j1939_pos ss (Suc i) then bit (j1939_signal_encode fp (ss ! i) v) (n - j1939_pos ss i)
     else bit data n)"
proof -
  have enc: "bit (j1939_signal_encode fp (ss ! i) v) k \<Longrightarrow> k < unat (jsig_length (ss ! i))" for k
    using j1939_encode_masked [of fp "ss ! i" v] by (metis bit_and_mask_iff)
  show ?thesis
    using j1939_place(1) [OF assms] j1939_pos_Suc [OF assms(2)]
    by (auto simp: j1939_signal_write_def Let_def signal_val_max unat_j1939_pos [OF assms] bit_or_iff bit_and_iff
        bit_not_iff bit_push_bit_iff bit_mask_iff dest: enc bit_imp_le_length)
qed

lemma field_of_write:
  assumes "j1939_desc_ok ss" "i < length ss" "j < length ss"
  shows "j1939_field ss j (j1939_signal_write fp (ss ! i) (of_nat (j1939_pos ss i)) v data) =
    (if j = i then j1939_signal_encode fp (ss ! i) v else j1939_field ss j data)"
proof (cases "j = i")
  case True
  have enc: "bit (j1939_signal_encode fp (ss ! i) v) k \<Longrightarrow> k < unat (jsig_length (ss ! i))" for k
    using j1939_encode_masked [of fp "ss ! i" v] by (metis bit_and_mask_iff)
  show ?thesis
    unfolding True by (rule bit_word_eqI)
      (use enc in \<open>auto simp: bit_j1939_field bit_j1939_write [OF assms(1,2)] j1939_pos_Suc [OF assms(2)]\<close>)
next
  case False
  then have "j1939_pos ss (Suc j) \<le> j1939_pos ss i \<or> j1939_pos ss (Suc i) \<le> j1939_pos ss j"
    by (metis Suc_leI j1939_pos_mono linorder_neqE_nat)
  with False show ?thesis
    by (intro bit_word_eqI)
      (auto simp: bit_j1939_field bit_j1939_write [OF assms(1,2)] j1939_pos_Suc [OF assms(3)])
qed

lemma read_field:
  assumes "j1939_desc_ok ss" "i < length ss"
  shows "j1939_signal_read fp (ss ! i) (of_nat (j1939_pos ss i)) data =
    (if jsig_type (ss ! i) = SIGNAL_SLOT
     then (if j1939_field ss i data = mask (unat (jsig_length (ss ! i))) then fp_nan fp
           else fp_add fp (fp_mul fp (fp_of_u64 fp (j1939_field ss i data)) (jsig_scale (ss ! i))) (jsig_offset (ss ! i)))
     else j1939_field ss i data)"
  by (simp add: j1939_signal_read_def Let_def signal_val_max unat_j1939_pos [OF assms] j1939_field_def)

section \<open>Properties\<close>

lemma signal_set_at:
  assumes "j1939_desc_ok (jmd_signal d)" "i < length (jmd_signal d)" "cm_data m = Inline bs"
  shows "uni_can_j1939_msg_signal_set fp (Some m) (Some d) (jsig_id (jmd_signal d ! i)) (Some v) =
    Some (True, Some (m\<lparr>cm_data := Inline (le_bytes 8
      (j1939_signal_write fp (jmd_signal d ! i) (of_nat (j1939_pos (jmd_signal d) i)) v (le_word bs)))\<rparr>))"
  by (simp add: uni_can_j1939_msg_signal_set_def assms(3) j1939_loops_at(2) [OF assms(1,2)])

lemma signal_get_at:
  assumes "j1939_desc_ok (jmd_signal d)" "i < length (jmd_signal d)" "cm_data m = Inline bs"
  shows "uni_can_j1939_msg_signal_get fp (Some m) (Some d) (jsig_id (jmd_signal d ! i)) (Some w) =
    Some (True, Some (j1939_signal_read fp (jmd_signal d ! i) (of_nat (j1939_pos (jmd_signal d) i)) (le_word bs)))"
  by (simp add: uni_can_j1939_msg_signal_get_def assms(3) j1939_loops_at(1) [OF assms(1,2)])

text \<open>
  C29. Signals are independent: when the signals of a descriptor have different identifiers and fit
  the 64 bits of the data, setting one of them succeeds, and getting any other signal afterwards
  gives what it gave before, scaled values included.
\<close>

theorem j1939_signal_set_keeps_others:
  assumes "j1939_desc_ok (jmd_signal d)" "i < length (jmd_signal d)" "j < length (jmd_signal d)" "i \<noteq> j"
    and "cm_data m = Inline bs"
  shows "\<exists>m'. uni_can_j1939_msg_signal_set fp (Some m) (Some d) (jsig_id (jmd_signal d ! i)) (Some v) = Some (True, Some m') \<and>
    uni_can_j1939_msg_signal_get fp (Some m') (Some d) (jsig_id (jmd_signal d ! j)) (Some w) =
    uni_can_j1939_msg_signal_get fp (Some m) (Some d) (jsig_id (jmd_signal d ! j)) (Some w)"
  unfolding signal_set_at [OF assms(1,2,5)]
  using assms(4)
  by (simp add: signal_get_at [OF assms(1,3)] assms(5) le_word_le_bytes read_field [OF assms(1,3)]
      field_of_write [OF assms(1-3)])


text \<open>Eight bits of flags and 16 bits of an engine's speed.\<close>

definition j1939_example :: uni_can_j1939_msg_desc where
  "j1939_example = \<lparr>jmd_pgn_number = 0xF004, jmd_period = 10, jmd_signal =
     [\<lparr>jsig_id = 1, jsig_length = 8, jsig_offset = 0, jsig_scale = 0, jsig_val_min = 0, jsig_val_max = 0,
       jsig_unit = ''bit'', jsig_type = SIGNAL_RAW\<rparr>,
      \<lparr>jsig_id = 2, jsig_length = 16, jsig_offset = 0, jsig_scale = 0, jsig_val_min = 0, jsig_val_max = 0,
       jsig_unit = ''rpm'', jsig_type = SIGNAL_RAW\<rparr>]\<rparr>"

lemma j1939_example_ok: "j1939_desc_ok (jmd_signal j1939_example)"
  by (simp add: j1939_desc_ok_def j1939_example_def)

text \<open>A floating point unit for examples: the bit patterns 1 to 3 are infinite and not a number.\<close>

definition j1939_example_fp :: fp where
  "j1939_example_fp = \<lparr>fp_nan = 1, fp_isnan = (\<lambda>v. v = 1), fp_isinf = (\<lambda>v. v = 2 \<or> v = 3),
     fp_greater = (\<lambda>v w. v > w), fp_of_u64 = id, fp_to_u64 = id, fp_add = (+), fp_sub = (-), fp_mul = (*),
     fp_div = (div)\<rparr>"

theorem j1939_signal_set_keeps_others_witness:
  "\<exists>m'. uni_can_j1939_msg_signal_set j1939_example_fp (Some can_message_zero) (Some j1939_example) 2 (Some 0x1234) =
      Some (True, Some m') \<and>
    uni_can_j1939_msg_signal_get j1939_example_fp (Some m') (Some j1939_example) 1 (Some 0) =
    uni_can_j1939_msg_signal_get j1939_example_fp (Some can_message_zero) (Some j1939_example) 1 (Some 0)"
  using j1939_signal_set_keeps_others [OF j1939_example_ok, of 1 0 can_message_zero]
  by (simp add: j1939_example_def can_message_zero_def)


end
