(* ===== verification/J1939Tp.thy ===== *)
theory J1939Tp
  imports CanMessage
begin

text \<open>
  The types of the transport protocol of SAE J1939 (\<open>include/uni_can_j1939_tp.h\<close>). The repository declares
  them and has no function on them yet (\<open>src/uni_can_j1939_tp.c\<close> only includes the header), so there
  are the types, the numbers of their enumerations, and the layout of the two packed structures, which
  the header asserts to fill the eight bytes of a frame.
\<close>

section \<open>Enumerations\<close>

datatype uni_can_j1939_tp_cm_type = TP_CM_RTS | TP_CM_CTS | TP_CM_EOM | TP_CM_BAM | TP_CM_ABORT

fun tp_cm_value :: "uni_can_j1939_tp_cm_type \<Rightarrow> u8" where
  "tp_cm_value TP_CM_RTS = 16"
| "tp_cm_value TP_CM_CTS = 17"
| "tp_cm_value TP_CM_EOM = 19"
| "tp_cm_value TP_CM_BAM = 32"
| "tp_cm_value TP_CM_ABORT = 255"

datatype uni_can_j1939_tp_session_state =
    TP_UNKNOWN
  | TP_Other_Finished
  | TP_Other_Abort
  | TP_Other_Drop
  | TP_Other_Timeout
  | TP_Incoming_Burst_Init
  | TP_Incoming_Burst_Data
  | TP_Incoming_Burst_WrongOrder
  | TP_Incoming_Burst_BurstEnd
  | TP_Incoming_Burst_MessageEnd
  | TP_IN_BROADCAST_DATA
  | TP_Outgoing_Burst_Init
  | TP_Outgoing_Burst_Waiting
  | TP_Outgoing_Burst_Data
  | TP_OUT_BROADCAST_INIT
  | TP_OUT_BROADCAST_DATA

fun tp_state_value :: "uni_can_j1939_tp_session_state \<Rightarrow> nat" where
  "tp_state_value TP_UNKNOWN = 0"
| "tp_state_value TP_Other_Finished = 10"
| "tp_state_value TP_Other_Abort = 11"
| "tp_state_value TP_Other_Drop = 12"
| "tp_state_value TP_Other_Timeout = 13"
| "tp_state_value TP_Incoming_Burst_Init = 30"
| "tp_state_value TP_Incoming_Burst_Data = 31"
| "tp_state_value TP_Incoming_Burst_WrongOrder = 32"
| "tp_state_value TP_Incoming_Burst_BurstEnd = 33"
| "tp_state_value TP_Incoming_Burst_MessageEnd = 34"
| "tp_state_value TP_IN_BROADCAST_DATA = 40"
| "tp_state_value TP_Outgoing_Burst_Init = 50"
| "tp_state_value TP_Outgoing_Burst_Waiting = 51"
| "tp_state_value TP_Outgoing_Burst_Data = 52"
| "tp_state_value TP_OUT_BROADCAST_INIT = 60"
| "tp_state_value TP_OUT_BROADCAST_DATA = 61"

instantiation uni_can_j1939_tp_session_state :: linorder
begin

definition "a \<le> b \<longleftrightarrow> tp_state_value a \<le> tp_state_value b"
definition "a < b \<longleftrightarrow> tp_state_value a < tp_state_value b"

instance
proof
  fix a b c :: uni_can_j1939_tp_session_state
  show "a < b \<longleftrightarrow> a \<le> b \<and> \<not> b \<le> a" "a \<le> a" "a \<le> b \<Longrightarrow> b \<le> c \<Longrightarrow> a \<le> c" "a \<le> b \<or> b \<le> a"
    by (auto simp: less_eq_uni_can_j1939_tp_session_state_def less_uni_can_j1939_tp_session_state_def)
  show "a \<le> b \<Longrightarrow> b \<le> a \<Longrightarrow> a = b"
    by (cases a; cases b) (simp_all add: less_eq_uni_can_j1939_tp_session_state_def)
qed

end

text \<open>A number of the wire names at most one type of message.\<close>

lemma tp_cm_value_inject: "tp_cm_value a = tp_cm_value b \<longleftrightarrow> a = b"
  by (cases a; cases b) simp_all


section \<open>Structures\<close>

record uni_can_j1939_tp_cm_bam =
  bam_control :: u8
  bam_message_size :: u16
  bam_number_of_packets :: u8
  bam_reserved :: u8
  bam_pgn :: "u8 list"

record uni_can_j1939_tp_dt =
  dt_seq_num :: u8
  dt_data :: "u8 list"

record uni_can_j1939_tp_session_settings =
  tps_message_size :: u16
  tps_address_local :: u8
  tps_address_remote :: u8
  tps_number_of_packets :: u8
  tps_burst_count :: u8

record uni_can_j1939_tp_session =
  tpn_settings :: uni_can_j1939_tp_session_settings
  tpn_state :: uni_can_j1939_tp_session_state
  tpn_message :: "uni_can_message option"
  tpn_chunks_trx :: nat
  tpn_time_rx :: int
  tpn_time_tx :: int

text \<open>The packed structures as the bytes of a frame, the least significant byte of a number first.\<close>

definition bam_bytes :: "uni_can_j1939_tp_cm_bam \<Rightarrow> u8 list" where
  "bam_bytes b = [bam_control b, lo8 (bam_message_size b), hi8 (bam_message_size b), bam_number_of_packets b, bam_reserved b] @ bam_pgn b"

definition bam_of_bytes :: "u8 list \<Rightarrow> uni_can_j1939_tp_cm_bam" where
  "bam_of_bytes d = \<lparr>bam_control = d ! 0, bam_message_size = le16 (d ! 1) (d ! 2), bam_number_of_packets = d ! 3,
     bam_reserved = d ! 4, bam_pgn = take 3 (drop 5 d)\<rparr>"

definition dt_bytes :: "uni_can_j1939_tp_dt \<Rightarrow> u8 list" where
  "dt_bytes t = dt_seq_num t # dt_data t"

definition dt_of_bytes :: "u8 list \<Rightarrow> uni_can_j1939_tp_dt" where
  "dt_of_bytes d = \<lparr>dt_seq_num = d ! 0, dt_data = take 7 (drop 1 d)\<rparr>"

text \<open>The structures fill a frame, as the header asserts, and are what the bytes of the frame say.\<close>

lemma bam_layout:
  assumes "length (bam_pgn b) = 3"
  shows "length (bam_bytes b) = UNI_CAN_MESSAGE_MAXLEN" "bam_of_bytes (bam_bytes b) = b"
  using assms by (simp_all add: bam_bytes_def bam_of_bytes_def UNI_CAN_MESSAGE_MAXLEN_def)

lemma dt_layout:
  assumes "length (dt_data t) = 7"
  shows "length (dt_bytes t) = UNI_CAN_MESSAGE_MAXLEN" "dt_of_bytes (dt_bytes t) = t"
  using assms by (simp_all add: dt_bytes_def dt_of_bytes_def UNI_CAN_MESSAGE_MAXLEN_def)

text \<open>And the other way: eight bytes are the structure they describe.\<close>

lemma bam_bytes_of:
  assumes "length d = UNI_CAN_MESSAGE_MAXLEN"
  shows "bam_bytes (bam_of_bytes d) = d" "dt_bytes (dt_of_bytes d) = d"
proof -
  obtain a b c e f g h i where "d = [a, b, c, e, f, g, h, i]"
    using assms by (auto simp: UNI_CAN_MESSAGE_MAXLEN_def length_Suc_conv numeral_eq_Suc)
  then show "bam_bytes (bam_of_bytes d) = d" "dt_bytes (dt_of_bytes d) = d"
    by (simp_all add: bam_bytes_def bam_of_bytes_def dt_bytes_def dt_of_bytes_def)
qed

end
