(* ===== verification/UniHal.thy ===== *)
theory UniHal
  imports CanChannel
begin

text \<open>
  The backend for the CAN driver of Uni.HAL (\<open>include/uni_can_unihal.h\<close>,
  \<open>src/backend_unihal/uni_can_unihal.c\<close>): a channel on a CAN peripheral of a microcontroller.

  The driver is not part of the repository: its functions are the record \<open>'h uni_hal\<close>, acting on the
  state \<open>'h\<close> of the peripheral, and its frames are records with the fields the backend reads and
  writes. \<open>hal_fifo\<close> states what the driver documents of receiving: the frames in the receive FIFO
  come out one by one, oldest first. The loop that skips unusable frames is a partial function,
  \<open>None\<close> if it does not return.
\<close>

section \<open>Data\<close>

definition UNI_CAN_UNIHAL_FILTERS_MAX :: nat where "UNI_CAN_UNIHAL_FILTERS_MAX = 14"
definition UNI_CAN_UNIHAL_TX_MAILBOXES :: nat where "UNI_CAN_UNIHAL_TX_MAILBOXES = 3"
definition UNI_CAN_UNIHAL_FILTER_EXT_ID_POS :: nat where "UNI_CAN_UNIHAL_FILTER_EXT_ID_POS = 3"
definition UNI_CAN_UNIHAL_EXT_ID_MASK :: u32 where "UNI_CAN_UNIHAL_EXT_ID_MASK = 0x1FFFFFFF"

text \<open>The driver.\<close>

record uni_hal_can_msg =
  uhm_id :: u32
  uhm_standard_id :: bool
  uhm_remote :: bool
  uhm_dlc :: u8
  uhm_data :: "u8 list"

record 'h uni_hal =
  hal_is_inited :: "'h \<Rightarrow> bool"
  hal_init :: "'h \<Rightarrow> bool \<times> 'h"
  hal_start :: "'h \<Rightarrow> bool \<times> 'h"
  hal_stop :: "'h \<Rightarrow> bool \<times> 'h"
  hal_receive :: "'h \<Rightarrow> uni_hal_can_msg option \<times> 'h"
  hal_transmit_nowait :: "'h \<Rightarrow> uni_hal_can_msg \<Rightarrow> bool \<times> 'h"
  hal_transmit_free :: "'h \<Rightarrow> nat"
  hal_transmit_abort :: "'h \<Rightarrow> bool \<times> 'h"
  hal_set_filter :: "'h \<Rightarrow> u32 \<Rightarrow> u32 \<Rightarrow> u32 \<Rightarrow> u32 \<Rightarrow> bool \<times> 'h"

text \<open>
  The channel. \<open>uhc_ops\<close> says whether \<open>base.ops\<close> points to the table of operations; the peripheral
  that \<open>config.can\<close> points to is part of the state.
\<close>

record 'h uni_can_unihal_config =
  uhf_can :: "'h option"
  uhf_filter_fifo :: u32
  uhf_filter_slot_first :: u32
  uhf_filter_slot_count :: u32

record 'h uni_can_unihal_channel =
  uhc_ops :: bool
  uhc_can :: 'h
  uhc_filter_fifo :: u32
  uhc_filter_slot_first :: u32
  uhc_filter_slot_count :: u32
  uhc_filters :: "(u32 \<times> u32) list"
  uhc_opened :: bool


section \<open>Operations\<close>

definition unihal_on :: "'h uni_can_unihal_channel \<Rightarrow> bool \<times> 'h \<Rightarrow> bool \<times> 'h uni_can_unihal_channel" where
  "unihal_on self r = (fst r, self\<lparr>uhc_can := snd r\<rparr>)"

definition unihal_init :: "'h uni_hal \<Rightarrow> 'h uni_can_unihal_channel \<Rightarrow> bool \<times> 'h uni_can_unihal_channel" where
  "unihal_init hal self =
     (if hal_is_inited hal (uhc_can self) then (True, self) else unihal_on self (hal_init hal (uhc_can self)))"

definition unihal_open :: "'h uni_hal \<Rightarrow> 'h uni_can_unihal_channel \<Rightarrow> bool \<times> 'h uni_can_unihal_channel" where
  "unihal_open hal self =
     (let (r, self') = unihal_on self (hal_start hal (uhc_can self)) in (r, self'\<lparr>uhc_opened := r\<rparr>))"

definition unihal_close :: "'h uni_hal \<Rightarrow> 'h uni_can_unihal_channel \<Rightarrow> bool \<times> 'h uni_can_unihal_channel" where
  "unihal_close hal self = unihal_on (self\<lparr>uhc_opened := False\<rparr>) (hal_stop hal (uhc_can self))"

definition unihal_destroy :: "'h uni_hal \<Rightarrow> 'h uni_can_unihal_channel \<Rightarrow> bool \<times> 'h uni_can_unihal_channel" where
  "unihal_destroy hal self =
     (let self = (if hal_is_inited hal (uhc_can self) then snd (unihal_close hal self) else self)
      in (True, self\<lparr>uhc_ops := False\<rparr>))"

definition unihal_usable :: "uni_hal_can_msg \<Rightarrow> bool" where
  "unihal_usable rx \<longleftrightarrow> \<not> (uhm_remote rx \<or> unat (uhm_dlc rx) > UNI_CAN_MESSAGE_MAXLEN)"

definition unihal_message :: "uni_hal_can_msg \<Rightarrow> uni_can_message" where
  "unihal_message rx = can_message_zero\<lparr>cm_id := uhm_id rx,
     cm_flags := (if uhm_standard_id rx then UNI_CAN_MSG_FLAG_STD_ID else UNI_CAN_MSG_FLAG_EXT_ID),
     cm_len := ucast (uhm_dlc rx),
     cm_data := Inline (blit (replicate UNI_CAN_MESSAGE_MAXLEN 0) 0 (take (unat (uhm_dlc rx)) (uhm_data rx)))\<rparr>"

partial_function (option) unihal_receive_loop :: "'h uni_hal \<Rightarrow> 'h \<Rightarrow> (uni_can_message option \<times> 'h) option" where
  "unihal_receive_loop hal h =
     (case hal_receive hal h of
        (None, h') \<Rightarrow> Some (None, h')
      | (Some rx, h') \<Rightarrow>
          if uhm_remote rx \<or> unat (uhm_dlc rx) > UNI_CAN_MESSAGE_MAXLEN
          then unihal_receive_loop hal h'
          else Some (Some (unihal_message rx), h'))"

definition unihal_receive_to ::
  "'h uni_hal \<Rightarrow> 'h uni_can_unihal_channel \<Rightarrow> uni_can_message
    \<Rightarrow> (bool \<times> uni_can_message \<times> 'h uni_can_unihal_channel) option" where
  "unihal_receive_to hal self msg =
     map_option (\<lambda>(received, h). (received \<noteq> None, case received of None \<Rightarrow> msg | Some m \<Rightarrow> m, self\<lparr>uhc_can := h\<rparr>))
       (unihal_receive_loop hal (uhc_can self))"

definition unihal_frame :: "uni_can_message \<Rightarrow> uni_hal_can_msg" where
  "unihal_frame msg = \<lparr>uhm_id = cm_id msg,
     uhm_standard_id = (cm_flags msg AND UNI_CAN_MSG_FLAG_STD_ID \<noteq> 0 \<and> cm_flags msg AND UNI_CAN_MSG_FLAG_EXT_ID = 0),
     uhm_remote = False, uhm_dlc = ucast (cm_len msg), uhm_data = can_bytes msg\<rparr>"

definition unihal_transmit ::
  "'h uni_hal \<Rightarrow> 'h uni_can_unihal_channel \<Rightarrow> uni_can_message \<Rightarrow> bool \<times> 'h uni_can_unihal_channel" where
  "unihal_transmit hal self msg =
     (if unat (cm_len msg) > UNI_CAN_MESSAGE_MAXLEN \<or> can_is_tp msg then (False, self)
      else unihal_on self (hal_transmit_nowait hal (uhc_can self) (unihal_frame msg)))"

definition unihal_transmit_idle :: "'h uni_hal \<Rightarrow> 'h uni_can_unihal_channel \<Rightarrow> bool \<times> 'h uni_can_unihal_channel" where
  "unihal_transmit_idle hal self = (hal_transmit_free hal (uhc_can self) = UNI_CAN_UNIHAL_TX_MAILBOXES, self)"

definition unihal_transmit_abort :: "'h uni_hal \<Rightarrow> 'h uni_can_unihal_channel \<Rightarrow> bool \<times> 'h uni_can_unihal_channel" where
  "unihal_transmit_abort hal self = unihal_on self (hal_transmit_abort hal (uhc_can self))"

definition unihal_slots :: "'h uni_can_unihal_channel \<Rightarrow> nat" where
  "unihal_slots self = min (unat (uhc_filter_slot_count self)) UNI_CAN_UNIHAL_FILTERS_MAX"

definition unihal_filter_add ::
  "'h uni_hal \<Rightarrow> 'h uni_can_unihal_channel \<Rightarrow> u32 \<Rightarrow> u32 \<Rightarrow> bool \<times> 'h uni_can_unihal_channel" where
  "unihal_filter_add hal self fid fmask =
     (let fid = fid AND UNI_CAN_UNIHAL_EXT_ID_MASK; fmask = fmask AND UNI_CAN_UNIHAL_EXT_ID_MASK in
      if (fid, fmask) \<in> set (uhc_filters self) then (True, self)
      else if length (uhc_filters self) \<ge> unihal_slots self then (False, self)
      else
        let slot = uhc_filter_slot_first self + of_nat (length (uhc_filters self));
            (r, self) = unihal_on self (hal_set_filter hal (uhc_can self) (uhc_filter_fifo self) slot
              (push_bit UNI_CAN_UNIHAL_FILTER_EXT_ID_POS fid) (push_bit UNI_CAN_UNIHAL_FILTER_EXT_ID_POS fmask))
        in if \<not> r then (False, self)
           else (True, self\<lparr>uhc_filters := uhc_filters self @ [(fid, fmask)]\<rparr>))"

text \<open>
  The table of operations. Where receiving does not return there is no result; the entry gives the
  unchanged arguments then, and the contract of a source below assumes a driver that returns.
\<close>

definition unihal_ops :: "'h uni_hal \<Rightarrow> ('h uni_can_unihal_channel, 'f, 'c) uni_can_channel_ops" where
  "unihal_ops hal = \<lparr>
     op_init = Some (unihal_init hal),
     op_open = Some (unihal_open hal),
     op_close = Some (unihal_close hal),
     op_destroy = Some (unihal_destroy hal),
     op_receive = None,
     op_receive_to = Some (\<lambda>self msg. case unihal_receive_to hal self msg of None \<Rightarrow> (False, msg, self) | Some r \<Rightarrow> r),
     op_transmit = Some (unihal_transmit hal),
     op_transmit_idle = Some (unihal_transmit_idle hal),
     op_transmit_abort = Some (unihal_transmit_abort hal),
     op_set_receive_handler = None,
     op_filter_add = Some (unihal_filter_add hal)\<rparr>"

definition unihal_ops_of ::
  "'h uni_hal \<Rightarrow> 'h uni_can_unihal_channel \<Rightarrow> ('h uni_can_unihal_channel, 'f, 'c) uni_can_channel_ops option" where
  "unihal_ops_of hal self = (if uhc_ops self then Some (unihal_ops hal) else None)"

definition uni_can_unihal_channel_setup ::
  "'h uni_can_unihal_channel option \<Rightarrow> 'h uni_can_unihal_config option \<Rightarrow> bool \<times> 'h uni_can_unihal_channel option" where
  "uni_can_unihal_channel_setup channel config =
     (case (channel, config) of
        (Some _, Some cfg) \<Rightarrow>
          (case uhf_can cfg of
             None \<Rightarrow> (False, channel)
           | Some can \<Rightarrow> (True, Some \<lparr>uhc_ops = True, uhc_can = can, uhc_filter_fifo = uhf_filter_fifo cfg,
               uhc_filter_slot_first = uhf_filter_slot_first cfg, uhc_filter_slot_count = uhf_filter_slot_count cfg,
               uhc_filters = [], uhc_opened = False\<rparr>))
      | _ \<Rightarrow> (False, channel))"

section \<open>Receiving\<close>

text \<open>The documented behaviour of the driver's receive FIFO; \<open>frames\<close> is what waits in it.\<close>

definition hal_fifo :: "'h uni_hal \<Rightarrow> ('h \<Rightarrow> uni_hal_can_msg list) \<Rightarrow> bool" where
  "hal_fifo hal frames \<longleftrightarrow>
     (\<forall>h. (frames h = [] \<longrightarrow> fst (hal_receive hal h) = None \<and> frames (snd (hal_receive hal h)) = []) \<and>
          (\<forall>rx rest. frames h = rx # rest \<longrightarrow>
             fst (hal_receive hal h) = Some rx \<and> frames (snd (hal_receive hal h)) = rest))"

text \<open>The messages that wait: the usable frames, in their order.\<close>

definition unihal_pending :: "('h \<Rightarrow> uni_hal_can_msg list) \<Rightarrow> 'h uni_can_unihal_channel \<Rightarrow> uni_can_message list" where
  "unihal_pending frames self = map unihal_message (filter unihal_usable (frames (uhc_can self)))"

definition unihal_live :: "'h uni_hal \<Rightarrow> ('h \<Rightarrow> uni_hal_can_msg list) \<Rightarrow> 'h uni_can_unihal_channel \<Rightarrow> bool" where
  "unihal_live hal frames self \<longleftrightarrow> hal_fifo hal frames \<and> uhc_ops self"

lemma receive_loop_fifo:
  assumes "hal_fifo hal frames"
  shows "\<exists>h'. unihal_receive_loop hal h =
      Some (case filter unihal_usable (frames h) of [] \<Rightarrow> None | rx # _ \<Rightarrow> Some (unihal_message rx), h') \<and>
    filter unihal_usable (frames h') = tl (filter unihal_usable (frames h))"
proof (induction "frames h" arbitrary: h)
  case Nil
  then obtain h1 where h1: "hal_receive hal h = (None, h1)" "frames h1 = []"
    using assms by (metis hal_fifo_def prod.collapse)
  then have "unihal_receive_loop hal h = Some (None, h1)"
    by (subst unihal_receive_loop.simps) simp
  with h1(2) Nil [symmetric] show ?case
    by simp
next
  case (Cons rx rest)
  obtain h1 where h1: "hal_receive hal h = (Some rx, h1)" "frames h1 = rest"
    using assms Cons.hyps(2) by (metis hal_fifo_def prod.collapse)
  show ?case
  proof (cases "unihal_usable rx")
    case True
    then have "unihal_receive_loop hal h = Some (Some (unihal_message rx), h1)"
      by (subst unihal_receive_loop.simps) (simp add: h1 unihal_usable_def)
    with True h1(2) Cons.hyps(2) [symmetric] show ?thesis
      by auto
  next
    case False
    then have "unihal_receive_loop hal h = unihal_receive_loop hal h1"
      by (subst unihal_receive_loop.simps) (simp add: h1 unihal_usable_def)
    with False Cons.hyps(1) [of h1] h1(2) Cons.hyps(2) [symmetric] show ?thesis
      by simp
  qed
qed

lemma unihal_receive_fifo:
  assumes "hal_fifo hal frames"
  shows "\<exists>h'. unihal_receive_to hal self msg =
      Some (unihal_pending frames self \<noteq> [], case unihal_pending frames self of [] \<Rightarrow> msg | m # _ \<Rightarrow> m,
        self\<lparr>uhc_can := h'\<rparr>) \<and>
    unihal_pending frames (self\<lparr>uhc_can := h'\<rparr>) = tl (unihal_pending frames self)"
proof -
  obtain h' where "unihal_receive_loop hal (uhc_can self) =
      Some (case filter unihal_usable (frames (uhc_can self)) of [] \<Rightarrow> None | rx # _ \<Rightarrow> Some (unihal_message rx), h')"
    "filter unihal_usable (frames h') = tl (filter unihal_usable (frames (uhc_can self)))"
    using receive_loop_fifo [OF assms] by blast
  then show ?thesis
    by (cases "filter unihal_usable (frames (uhc_can self))")
      (auto simp: unihal_receive_to_def unihal_pending_def intro!: exI [of _ h'])
qed

interpretation unihal: channel_source "unihal_ops_of hal" "unihal_pending frames" "unihal_live hal frames"
  for hal :: "'h uni_hal" and frames
proof unfold_locales
  fix s :: "'h uni_can_unihal_channel" and ops :: "('h uni_can_unihal_channel, 'f, 'c) uni_can_channel_ops" and f g m ms x
  assume live: "unihal_live hal frames s"
  show "\<exists>ops. unihal_ops_of hal s = Some ops \<and> (op_receive ops \<noteq> None \<or> op_receive_to ops \<noteq> None)"
    using live by (simp add: unihal_live_def unihal_ops_of_def unihal_ops_def)
  assume "unihal_ops_of hal s = Some ops"
  then have ops: "ops = unihal_ops hal"
    by (simp add: unihal_ops_of_def split: if_splits)
  have fifo: "hal_fifo hal frames" and attached: "uhc_ops s"
    using live by (simp_all add: unihal_live_def)
  obtain h' where run: "unihal_receive_to hal s x = Some (unihal_pending frames s \<noteq> [],
      case unihal_pending frames s of [] \<Rightarrow> x | m # _ \<Rightarrow> m, s\<lparr>uhc_can := h'\<rparr>)"
    "unihal_pending frames (s\<lparr>uhc_can := h'\<rparr>) = tl (unihal_pending frames s)"
    using unihal_receive_fifo [OF fifo] by blast
  have alive: "unihal_live hal frames (s\<lparr>uhc_can := h'\<rparr>)"
    using live by (simp add: unihal_live_def)
  show "fst (f s) = None \<and> unihal_pending frames (snd (f s)) = [] \<and> unihal_live hal frames (snd (f s))"
    if "op_receive ops = Some f" "unihal_pending frames s = []"
    using that by (simp add: ops unihal_ops_def)
  show "fst (f s) = Some m \<and> unihal_pending frames (snd (f s)) = ms \<and> unihal_live hal frames (snd (f s))"
    if "op_receive ops = Some f" "unihal_pending frames s = m # ms"
    using that by (simp add: ops unihal_ops_def)
  show "fst (g s x) = False \<and> unihal_pending frames (snd (snd (g s x))) = [] \<and>
      unihal_live hal frames (snd (snd (g s x)))"
    if "op_receive_to ops = Some g" "unihal_pending frames s = []"
    using that run alive by (auto simp: ops unihal_ops_def)
  show "fst (g s x) = True \<and> fst (snd (g s x)) = m \<and> unihal_pending frames (snd (snd (g s x))) = ms \<and>
      unihal_live hal frames (snd (snd (g s x)))"
    if "op_receive_to ops = Some g" "unihal_pending frames s = m # ms"
    using that run alive by (auto simp: ops unihal_ops_def)
qed

text \<open>A driver for examples: its state is the receive FIFO, the transmitted frames and the filters.\<close>

type_synonym fifo_peripheral = "uni_hal_can_msg list \<times> uni_hal_can_msg list \<times> (u32 \<Rightarrow> (u32 \<times> u32 \<times> u32) option)"

definition fifo_hal :: "fifo_peripheral uni_hal" where
  "fifo_hal = \<lparr>hal_is_inited = (\<lambda>_. True), hal_init = (\<lambda>h. (True, h)), hal_start = (\<lambda>h. (True, h)),
     hal_stop = (\<lambda>h. (True, h)),
     hal_receive = (\<lambda>(rxs, txs, fs). case rxs of [] \<Rightarrow> (None, (rxs, txs, fs)) | rx # rest \<Rightarrow> (Some rx, (rest, txs, fs))),
     hal_transmit_nowait = (\<lambda>(rxs, txs, fs) tx. (True, (rxs, txs @ [tx], fs))),
     hal_transmit_free = (\<lambda>(rxs, txs, fs). 3 - length txs),
     hal_transmit_abort = (\<lambda>(rxs, txs, fs). (True, (rxs, [], fs))),
     hal_set_filter = (\<lambda>(rxs, txs, fs) fifo slot fid fmask. (True, (rxs, txs, fs(slot \<mapsto> (fifo, fid, fmask)))))\<rparr>"

lemma fifo_hal_fifo: "hal_fifo fifo_hal fst"
  by (simp add: hal_fifo_def fifo_hal_def split_beta)

definition unihal_example :: "uni_hal_can_msg list \<Rightarrow> fifo_peripheral uni_can_unihal_channel" where
  "unihal_example rxs = \<lparr>uhc_ops = True, uhc_can = (rxs, [], Map.empty), uhc_filter_fifo = 0,
     uhc_filter_slot_first = 4, uhc_filter_slot_count = 2, uhc_filters = [], uhc_opened = True\<rparr>"

definition unihal_example_frame :: "bool \<Rightarrow> uni_hal_can_msg" where
  "unihal_example_frame remote = \<lparr>uhm_id = 0x123, uhm_standard_id = True, uhm_remote = remote, uhm_dlc = 2,
     uhm_data = [1, 2]\<rparr>"

text \<open>
  Receiving from a peripheral whose FIFO holds finitely many frames always returns: it drops
  remote frames and frames of more than eight bytes, gives the first frame that is left, and
  leaves the rest in their order; without a usable frame it returns false and the caller's
  message is unchanged.
\<close>

theorem unihal_receive_returns:
  assumes "hal_fifo hal frames"
  shows "\<exists>h'. unihal_receive_to hal self msg =
      Some (case filter unihal_usable (frames (uhc_can self)) of
              [] \<Rightarrow> (False, msg, self\<lparr>uhc_can := h'\<rparr>)
            | rx # _ \<Rightarrow> (True, unihal_message rx, self\<lparr>uhc_can := h'\<rparr>)) \<and>
    filter unihal_usable (frames h') = tl (filter unihal_usable (frames (uhc_can self)))"
  using receive_loop_fifo [OF assms, of "uhc_can self"]
  by (auto simp: unihal_receive_to_def split: list.split)

theorem unihal_receive_returns_witness:
  "\<exists>h'. unihal_receive_to fifo_hal (unihal_example [unihal_example_frame True, unihal_example_frame False]) can_message_zero =
    Some (True, unihal_message (unihal_example_frame False), (unihal_example [])\<lparr>uhc_can := h'\<rparr>)"
proof -
  let ?s = "unihal_example [unihal_example_frame True, unihal_example_frame False]"
  have "filter unihal_usable (fst (uhc_can ?s)) = [unihal_example_frame False]"
    by (simp add: unihal_example_def unihal_example_frame_def unihal_usable_def UNI_CAN_MESSAGE_MAXLEN_def)
  then show ?thesis
    using unihal_receive_returns [OF fifo_hal_fifo, of ?s can_message_zero]
    by (auto simp: unihal_example_def)
qed

text \<open>
  An application that polls a Uni.HAL channel through \<open>uni_can_channel_receive\<close> gets every
  usable frame of the peripheral exactly once, in the order they arrived.
\<close>

theorem unihal_channel_receives_in_order:
  assumes "hal_fifo hal frames" "uhc_ops self"
    and "waiting = map unihal_message (filter unihal_usable (frames (uhc_can self)))"
  shows "\<exists>self'. channel_receive_n (unihal_ops_of hal) (length waiting) (Some self) = (map Some waiting, Some self') \<and>
    filter unihal_usable (frames (uhc_can self')) = []"
  using unihal.receive_all_in_order [of hal frames self] assms
  by (fastforce simp: unihal_live_def unihal_pending_def)

theorem unihal_channel_receives_in_order_witness:
  "\<exists>self'. channel_receive_n (unihal_ops_of fifo_hal) 1
      (Some (unihal_example [unihal_example_frame True, unihal_example_frame False])) =
    ([Some (unihal_message (unihal_example_frame False))], Some self')"
  using unihal_channel_receives_in_order [OF fifo_hal_fifo, of
      "unihal_example [unihal_example_frame True, unihal_example_frame False]", OF _ refl]
  by (auto simp: unihal_example_def unihal_example_frame_def unihal_usable_def UNI_CAN_MESSAGE_MAXLEN_def)

section \<open>Filters\<close>

text \<open>
  The documented behaviour of setting a filter: \<open>bank\<close> is the filter of every slot of the
  peripheral, and a call that succeeds sets the slot it names and no other. \<open>filter_accepts\<close> is
  how the hardware compares an extended identifier with the registers.
\<close>

type_synonym filter_bank = "u32 \<Rightarrow> (u32 \<times> u32 \<times> u32) option"

definition hal_filters :: "'h uni_hal \<Rightarrow> ('h \<Rightarrow> filter_bank) \<Rightarrow> bool" where
  "hal_filters hal bank \<longleftrightarrow>
     (\<forall>h fifo slot fid fmask. bank (snd (hal_set_filter hal h fifo slot fid fmask)) =
        (if fst (hal_set_filter hal h fifo slot fid fmask) then (bank h)(slot \<mapsto> (fifo, fid, fmask)) else bank h))"

definition filter_accepts :: "(u32 \<times> u32 \<times> u32) option \<Rightarrow> u32 \<Rightarrow> bool" where
  "filter_accepts reg x = (case reg of None \<Rightarrow> False | Some (_, fid, fmask) \<Rightarrow> push_bit 3 x AND fmask = fid AND fmask)"

text \<open>The channel asks for several filters, one after the other.\<close>

fun unihal_filter_all ::
  "'h uni_hal \<Rightarrow> 'h uni_can_unihal_channel \<Rightarrow> (u32 \<times> u32) list \<Rightarrow> bool list \<times> 'h uni_can_unihal_channel" where
  "unihal_filter_all hal self [] = ([], self)"
| "unihal_filter_all hal self ((fid, fmask) # reqs) =
     (let (r, self) = unihal_filter_add hal self fid fmask;
          (rs, self) = unihal_filter_all hal self reqs
      in (r # rs, self))"

definition unihal_slot :: "'h uni_can_unihal_channel \<Rightarrow> nat \<Rightarrow> u32" where
  "unihal_slot self k = uhc_filter_slot_first self + of_nat k"

definition unihal_reg :: "'h uni_can_unihal_channel \<Rightarrow> u32 \<times> u32 \<Rightarrow> u32 \<times> u32 \<times> u32" where
  "unihal_reg self = (\<lambda>(fid, fmask). (uhc_filter_fifo self, push_bit 3 fid, push_bit 3 fmask))"

definition unihal_filters_ok :: "('h \<Rightarrow> filter_bank) \<Rightarrow> 'h uni_can_unihal_channel \<Rightarrow> bool" where
  "unihal_filters_ok bank self \<longleftrightarrow>
     length (uhc_filters self) \<le> unihal_slots self \<and> distinct (uhc_filters self) \<and>
     (\<forall>(fid, fmask)\<in>set (uhc_filters self). fid AND 0x1FFFFFFF = fid \<and> fmask AND 0x1FFFFFFF = fmask) \<and>
     (\<forall>k<length (uhc_filters self).
        bank (uhc_can self) (unihal_slot self k) = Some (unihal_reg self (uhc_filters self ! k)))"

definition unihal_same_place :: "'h uni_can_unihal_channel \<Rightarrow> 'h uni_can_unihal_channel \<Rightarrow> bool" where
  "unihal_same_place a b \<longleftrightarrow> uhc_filter_fifo a = uhc_filter_fifo b \<and>
     uhc_filter_slot_first a = uhc_filter_slot_first b \<and> uhc_filter_slot_count a = uhc_filter_slot_count b"

lemma unihal_same_placeD:
  "unihal_same_place a b \<Longrightarrow> unihal_slot a = unihal_slot b \<and> unihal_reg a = unihal_reg b \<and> unihal_slots a = unihal_slots b"
  by (simp add: unihal_same_place_def unihal_slot_def unihal_reg_def unihal_slots_def fun_eq_iff)

lemma unihal_slot_inject: "j < 14 \<Longrightarrow> k < 14 \<Longrightarrow> unihal_slot self j = unihal_slot self k \<longleftrightarrow> j = k"
proof -
  assume "j < 14" "k < 14"
  then have "unat (of_nat j :: u32) = j" "unat (of_nat k :: u32) = k"
    by (simp_all add: unat_of_nat_u32)
  then have "(of_nat j :: u32) = of_nat k \<longleftrightarrow> j = k"
    by metis
  then show ?thesis
    by (simp add: unihal_slot_def)
qed

fun unihal_granted :: "(u32 \<times> u32) list \<Rightarrow> bool list \<Rightarrow> (u32 \<times> u32) set" where
  "unihal_granted ((fid, fmask) # reqs) (r # rs) =
     (if r then {(fid AND 0x1FFFFFFF, fmask AND 0x1FFFFFFF)} else {}) \<union> unihal_granted reqs rs"
| "unihal_granted _ _ = {}"

lemma filters_ok_append:
  assumes "unihal_filters_ok bank self" "length (uhc_filters self) < unihal_slots self" "f \<notin> set (uhc_filters self)"
    and "fst f AND 0x1FFFFFFF = fst f" "snd f AND 0x1FFFFFFF = snd f"
    and "bank h = (bank (uhc_can self))(unihal_slot self (length (uhc_filters self)) \<mapsto> unihal_reg self f)"
  shows "unihal_filters_ok bank (self\<lparr>uhc_can := h, uhc_filters := uhc_filters self @ [f]\<rparr>)"
proof -
  let ?n = "length (uhc_filters self)"
  let ?self' = "self\<lparr>uhc_can := h, uhc_filters := uhc_filters self @ [f]\<rparr>"
  have same: "unihal_slot ?self' = unihal_slot self" "unihal_reg ?self' = unihal_reg self" "unihal_slots ?self' = unihal_slots self"
    by (simp_all add: unihal_slot_def unihal_reg_def unihal_slots_def fun_eq_iff)
  have slots: "unihal_slots self \<le> 14"
    by (simp add: unihal_slots_def UNI_CAN_UNIHAL_FILTERS_MAX_def)
  have "bank h (unihal_slot self k) = Some (unihal_reg self ((uhc_filters self @ [f]) ! k))" if "k < Suc ?n" for k
  proof (cases "k = ?n")
    case False
    with that have "k < ?n" "unihal_slot self k \<noteq> unihal_slot self ?n"
      using assms(2) slots unihal_slot_inject [of k ?n self] by auto
    with assms(1) show ?thesis
      by (simp add: assms(6) unihal_filters_ok_def nth_append)
  qed (simp add: assms(6))
  moreover have "\<forall>(fid, fmask)\<in>set (uhc_filters self @ [f]). fid AND 0x1FFFFFFF = fid \<and> fmask AND 0x1FFFFFFF = fmask"
    using assms(1,4,5) unfolding unihal_filters_ok_def by (simp add: case_prod_beta)
  ultimately show ?thesis
    using assms(1-3) unfolding unihal_filters_ok_def same by simp
qed

lemma filter_add_cases:
  assumes "unihal_filter_add hal self fid fmask = (r, self')"
    and "i = fid AND 0x1FFFFFFF" "m = fmask AND 0x1FFFFFFF"
    and "call = hal_set_filter hal (uhc_can self) (uhc_filter_fifo self)
      (unihal_slot self (length (uhc_filters self))) (push_bit 3 i) (push_bit 3 m)"
  obtains (known) "(i, m) \<in> set (uhc_filters self)" "r" "self' = self"
    | (full) "\<not> r" "self' = self"
    | (refused) "\<not> fst call" "\<not> r" "self' = self\<lparr>uhc_can := snd call\<rparr>"
    | (added) "(i, m) \<notin> set (uhc_filters self)" "length (uhc_filters self) < unihal_slots self" "fst call" "r"
        "self' = self\<lparr>uhc_can := snd call, uhc_filters := uhc_filters self @ [(i, m)]\<rparr>"
proof -
  have "(r, self') =
     (if (i, m) \<in> set (uhc_filters self) then (True, self)
      else if unihal_slots self \<le> length (uhc_filters self) then (False, self)
      else if fst call then (True, self\<lparr>uhc_can := snd call, uhc_filters := uhc_filters self @ [(i, m)]\<rparr>)
      else (False, self\<lparr>uhc_can := snd call\<rparr>))"
    unfolding assms(1) [symmetric] assms(2-4)
    by (simp add: unihal_filter_add_def Let_def unihal_on_def UNI_CAN_UNIHAL_EXT_ID_MASK_def unihal_slot_def
        UNI_CAN_UNIHAL_FILTER_EXT_ID_POS_def)
  with that show thesis
    by (cases "(i, m) \<in> set (uhc_filters self)"; cases "unihal_slots self \<le> length (uhc_filters self)"; cases "fst call")
      simp_all
qed

lemma filter_add_step:
  assumes hal: "hal_filters hal bank" and ok: "unihal_filters_ok bank self"
    and run: "unihal_filter_add hal self fid fmask = (r, self')"
  shows "unihal_filters_ok bank self' \<and> unihal_same_place self' self \<and>
    set (uhc_filters self') = set (uhc_filters self) \<union> (if r then {(fid AND 0x1FFFFFFF, fmask AND 0x1FFFFFFF)} else {}) \<and>
    (\<forall>slot. (\<forall>k<unihal_slots self. slot \<noteq> unihal_slot self k) \<longrightarrow>
       bank (uhc_can self') slot = bank (uhc_can self) slot)"
proof -
  define i m where im: "i = fid AND 0x1FFFFFFF" "m = fmask AND 0x1FFFFFFF"
  let ?call = "hal_set_filter hal (uhc_can self) (uhc_filter_fifo self) (unihal_slot self (length (uhc_filters self)))
    (push_bit 3 i) (push_bit 3 m)"
  have idem: "i AND 0x1FFFFFFF = i" "m AND 0x1FFFFFFF = m"
    by (simp_all add: im and.assoc)
  show ?thesis
    unfolding im [symmetric]
  proof (cases rule: filter_add_cases [OF run im refl, case_names known full refused added])
    case refused
    have "bank (snd ?call) = bank (uhc_can self)"
      using hal refused(1) by (simp add: hal_filters_def)
    with ok refused(2,3) show "unihal_filters_ok bank self' \<and> unihal_same_place self' self \<and>
        set (uhc_filters self') = set (uhc_filters self) \<union> (if r then {(i, m)} else {}) \<and>
        (\<forall>slot. (\<forall>k<unihal_slots self. slot \<noteq> unihal_slot self k) \<longrightarrow> bank (uhc_can self') slot = bank (uhc_can self) slot)"
      by (simp add: unihal_filters_ok_def unihal_same_place_def unihal_slots_def unihal_slot_def unihal_reg_def)
  next
    case added
    have bank: "bank (snd ?call) = (bank (uhc_can self))(unihal_slot self (length (uhc_filters self)) \<mapsto> unihal_reg self (i, m))"
      using hal added(3) by (simp add: hal_filters_def unihal_reg_def)
    have "unihal_filters_ok bank self'"
      unfolding added(5) by (rule filters_ok_append [OF ok added(2,1) _ _ bank]) (simp_all add: idem)
    with added(2,4) show "unihal_filters_ok bank self' \<and> unihal_same_place self' self \<and>
        set (uhc_filters self') = set (uhc_filters self) \<union> (if r then {(i, m)} else {}) \<and>
        (\<forall>slot. (\<forall>k<unihal_slots self. slot \<noteq> unihal_slot self k) \<longrightarrow> bank (uhc_can self') slot = bank (uhc_can self) slot)"
      by (simp add: added(5) bank unihal_same_place_def)
  qed (use ok in \<open>simp_all add: unihal_same_place_def insert_absorb\<close>)
qed

lemma filter_all_steps:
  assumes "hal_filters hal bank" "unihal_filters_ok bank self" "unihal_filter_all hal self reqs = (rs, self')"
  shows "unihal_filters_ok bank self' \<and> unihal_same_place self' self \<and> length rs = length reqs \<and>
    set (uhc_filters self') = set (uhc_filters self) \<union> unihal_granted reqs rs \<and>
    (\<forall>slot. (\<forall>k<unihal_slots self. slot \<noteq> unihal_slot self k) \<longrightarrow>
       bank (uhc_can self') slot = bank (uhc_can self) slot)"
  using assms(2,3)
proof (induction reqs arbitrary: self rs)
  case (Cons req reqs)
  obtain fid fmask where req: "req = (fid, fmask)" by (cases req)
  obtain r self1 where step: "unihal_filter_add hal self fid fmask = (r, self1)"
    by (cases "unihal_filter_add hal self fid fmask")
  obtain rs1 where rest: "unihal_filter_all hal self1 reqs = (rs1, self')" and rs: "rs = r # rs1"
    using Cons.prems(2) by (auto simp: req step split: prod.splits)
  note one = filter_add_step [OF assms(1) Cons.prems(1) step]
  note more = Cons.IH [OF conjunct1 [OF one] rest]
  have "unihal_same_place self1 self" using one by blast
  then show ?case
    using one more unihal_same_placeD [OF \<open>unihal_same_place self1 self\<close>]
    by (simp add: rs req unihal_same_place_def Un_assoc)
qed (simp add: unihal_same_place_def)

text \<open>The register layout compares the 29 bits of an identifier.\<close>

lemma filter_layout:
  assumes "x AND 0x1FFFFFFF = (x :: u32)" "fid AND 0x1FFFFFFF = fid" "fmask AND 0x1FFFFFFF = fmask"
  shows "push_bit 3 x AND push_bit 3 fmask = push_bit 3 fid AND push_bit 3 fmask \<longleftrightarrow> x AND fmask = fid AND fmask"
proof -
  have unshift: "drop_bit 3 (push_bit 3 w) = w" if "w AND 0x1FFFFFFF = w" for w :: u32
  proof (rule bit_word_eqI)
    fix n
    assume "n < LENGTH(32)"
    have "bit w n \<Longrightarrow> n < 29"
      using that unfolding masks by (metis bit_and_mask_iff)
    then show "bit (drop_bit 3 (push_bit 3 w)) n = bit w n"
      by (auto simp: bit_drop_bit_eq bit_push_bit_iff)
  qed
  have "(y AND fmask) AND 0x1FFFFFFF = y AND fmask" for y
    using assms(3) by (simp add: and.assoc)
  then have "push_bit 3 (x AND fmask) = push_bit 3 (fid AND fmask) \<longleftrightarrow> x AND fmask = fid AND fmask"
    by (metis unshift)
  then show ?thesis
    by (simp only: push_bit_and)
qed

text \<open>
  C27. The filters of a channel. Of the filters an application asks for, those the call accepts are
  kept, each once, in at most as many slots as the channel has (and at most 14), no slot of the
  peripheral outside the channel's is touched, and the frames with 29-bit identifiers that the
  slots in use accept are exactly those that match an accepted request.
\<close>

theorem unihal_filters_accept:
  assumes hal: "hal_filters hal bank"
    and made: "uni_can_unihal_channel_setup (Some old) (Some cfg) = (True, Some self)"
    and run: "unihal_filter_all hal self reqs = (rs, self')"
    and x: "x AND 0x1FFFFFFF = x"
  shows "length (uhc_filters self') \<le> unihal_slots self \<and> distinct (uhc_filters self') \<and>
    (\<forall>slot. (\<forall>k<unihal_slots self. slot \<noteq> unihal_slot self k) \<longrightarrow> bank (uhc_can self') slot = bank (uhc_can self) slot) \<and>
    ((\<exists>k<length (uhc_filters self'). filter_accepts (bank (uhc_can self') (unihal_slot self k)) x) \<longleftrightarrow>
     (\<exists>(fid, fmask)\<in>unihal_granted reqs rs. x AND fmask = fid AND fmask))"
proof -
  have empty: "uhc_filters self = []"
    using made by (auto simp: uni_can_unihal_channel_setup_def split: option.splits)
  then have ok: "unihal_filters_ok bank self"
    by (simp add: unihal_filters_ok_def)
  note steps = filter_all_steps [OF hal ok run]
  have same: "unihal_slot self' = unihal_slot self" "unihal_slots self' = unihal_slots self"
    using steps unihal_same_placeD by blast+
  have ok': "unihal_filters_ok bank self'" and granted: "set (uhc_filters self') = unihal_granted reqs rs"
    using steps empty by simp_all
  have accepts: "filter_accepts (bank (uhc_can self') (unihal_slot self k)) x \<longleftrightarrow>
      x AND snd (uhc_filters self' ! k) = fst (uhc_filters self' ! k) AND snd (uhc_filters self' ! k)"
    if "k < length (uhc_filters self')" for k
  proof -
    obtain fid fmask where f: "uhc_filters self' ! k = (fid, fmask)"
      by (cases "uhc_filters self' ! k")
    have "fid AND 0x1FFFFFFF = fid" "fmask AND 0x1FFFFFFF = fmask"
      using ok' nth_mem [OF that] unfolding f unihal_filters_ok_def by blast+
    from filter_layout [OF x this] show ?thesis
      using ok' that unfolding unihal_filters_ok_def same
      by (simp add: f filter_accepts_def unihal_reg_def)
  qed
  have "(\<exists>k<length (uhc_filters self'). filter_accepts (bank (uhc_can self') (unihal_slot self k)) x) \<longleftrightarrow>
    (\<exists>f\<in>set (uhc_filters self'). x AND snd f = fst f AND snd f)"
    using accepts by (metis in_set_conv_nth)
  then show ?thesis
    using steps ok' unfolding unihal_filters_ok_def same granted by (simp add: case_prod_beta)
qed

definition unihal_example_config :: "fifo_peripheral uni_can_unihal_config" where
  "unihal_example_config = \<lparr>uhf_can = Some ([], [], Map.empty), uhf_filter_fifo = 0, uhf_filter_slot_first = 4,
     uhf_filter_slot_count = 2\<rparr>"

lemma fifo_hal_filters: "hal_filters fifo_hal (snd \<circ> snd)"
  by (simp add: hal_filters_def fifo_hal_def split_beta)

theorem unihal_filters_accept_witness:
  "\<exists>rs self'. unihal_filter_all fifo_hal ((unihal_example [])\<lparr>uhc_opened := False\<rparr>) [(0x10, 0x1F), (0x20, 0x3F)] = (rs, self') \<and>
    length (uhc_filters self') \<le> 2"
proof -
  obtain rs self' where run: "unihal_filter_all fifo_hal ((unihal_example [])\<lparr>uhc_opened := False\<rparr>)
      [(0x10, 0x1F), (0x20, 0x3F)] = (rs, self')"
    by (cases "unihal_filter_all fifo_hal ((unihal_example [])\<lparr>uhc_opened := False\<rparr>) [(0x10, 0x1F), (0x20, 0x3F)]")
  have "uni_can_unihal_channel_setup (Some (unihal_example [])) (Some unihal_example_config) =
      (True, Some ((unihal_example [])\<lparr>uhc_opened := False\<rparr>))"
    by (simp add: uni_can_unihal_channel_setup_def unihal_example_config_def unihal_example_def)
  from unihal_filters_accept [OF fifo_hal_filters this run, of 0] run show ?thesis
    by (auto simp: unihal_slots_def unihal_example_def UNI_CAN_UNIHAL_FILTERS_MAX_def)
qed

text \<open>
  A message of at most eight bytes that one Uni.HAL channel transmits and another receives is
  the same message, identifier, kind of frame, length and data, without its time.
\<close>

theorem unihal_frame_roundtrip:
  assumes "cm_data m = Inline bs" "length bs = UNI_CAN_MESSAGE_MAXLEN" "unat (cm_len m) \<le> UNI_CAN_MESSAGE_MAXLEN"
    and "cm_flags m \<in> {UNI_CAN_MSG_FLAG_STD_ID, UNI_CAN_MSG_FLAG_EXT_ID}"
    and "hal_fifo hal frames" "frames (uhc_can b) = [unihal_frame m]"
  shows "unihal_transmit hal a m = unihal_on a (hal_transmit_nowait hal (uhc_can a) (unihal_frame m)) \<and>
    (\<exists>r h'. unihal_receive_to hal b msg = Some (True, r, b\<lparr>uhc_can := h'\<rparr>) \<and>
      cm_id r = cm_id m \<and> cm_flags r = cm_flags m \<and> cm_len r = cm_len m \<and> can_bytes r = can_bytes m)"
proof -
  have len: "unat (cm_len m) \<le> 8"
    using assms(3) by (simp add: UNI_CAN_MESSAGE_MAXLEN_def)
  then have dlc: "unat (ucast (cm_len m) :: u8) = unat (cm_len m)"
    by (simp add: unsigned_ucast_eq take_bit_nat_eq_self)
  then have len_back: "ucast (ucast (cm_len m) :: u8) = cm_len m"
    by (metis unat_ucast_u8_u16 unsigned_word_eqI)
  have usable: "unihal_usable (unihal_frame m)"
    using len by (simp add: unihal_usable_def unihal_frame_def dlc UNI_CAN_MESSAGE_MAXLEN_def)
  have not_tp: "\<not> can_is_tp m"
    using assms(4) by (auto simp: can_is_tp_def can_flag_defs)
  obtain h' where run: "unihal_receive_to hal b msg = Some (True, unihal_message (unihal_frame m), b\<lparr>uhc_can := h'\<rparr>)"
    using unihal_receive_fifo [OF assms(5), of b msg] usable assms(6) by (auto simp: unihal_pending_def)
  have kind: "cm_flags (unihal_message (unihal_frame m)) = cm_flags m"
    using assms(4) by (auto simp: unihal_message_def unihal_frame_def can_flag_defs)
  have "take (unat (cm_len m)) (blit (replicate 8 0) 0 (take (unat (cm_len m)) bs)) = take (unat (cm_len m)) bs"
    using take_blit_prefix [of 0 "replicate 8 0" "take (unat (cm_len m)) bs"] assms(2) len
    by (simp add: UNI_CAN_MESSAGE_MAXLEN_def min_def)
  then have "can_bytes (unihal_message (unihal_frame m)) = can_bytes m"
    using assms(1) by (simp add: unihal_message_def unihal_frame_def can_bytes_def dlc len_back UNI_CAN_MESSAGE_MAXLEN_def)
  moreover have "cm_id (unihal_message (unihal_frame m)) = cm_id m" "cm_len (unihal_message (unihal_frame m)) = cm_len m"
    by (simp_all add: unihal_message_def unihal_frame_def len_back)
  moreover have "unihal_transmit hal a m = unihal_on a (hal_transmit_nowait hal (uhc_can a) (unihal_frame m))"
    using not_tp assms(3) by (simp add: unihal_transmit_def)
  ultimately show ?thesis
    using run kind by blast
qed

definition unihal_example_msg :: uni_can_message where
  "unihal_example_msg = can_message_zero\<lparr>cm_id := 0x123, cm_flags := UNI_CAN_MSG_FLAG_EXT_ID, cm_len := 2,
     cm_data := Inline [1, 2, 0, 0, 0, 0, 0, 0]\<rparr>"

theorem unihal_frame_roundtrip_witness:
  "\<exists>r h'. unihal_receive_to fifo_hal (unihal_example [unihal_frame unihal_example_msg]) can_message_zero =
     Some (True, r, (unihal_example [unihal_frame unihal_example_msg])\<lparr>uhc_can := h'\<rparr>) \<and> can_bytes r = [1, 2]"
proof -
  have bytes: "can_bytes unihal_example_msg = [1, 2]"
    by (simp add: unihal_example_msg_def can_bytes_def)
  have "cm_data unihal_example_msg = Inline [1, 2, 0, 0, 0, 0, 0, 0]"
      "length [1, 2, 0, 0, 0, 0, 0, 0 :: u8] = UNI_CAN_MESSAGE_MAXLEN"
      "unat (cm_len unihal_example_msg) \<le> UNI_CAN_MESSAGE_MAXLEN"
      "cm_flags unihal_example_msg \<in> {UNI_CAN_MSG_FLAG_STD_ID, UNI_CAN_MSG_FLAG_EXT_ID}"
      "fst (uhc_can (unihal_example [unihal_frame unihal_example_msg])) = [unihal_frame unihal_example_msg]"
    by (simp_all add: unihal_example_msg_def unihal_example_def UNI_CAN_MESSAGE_MAXLEN_def)
  from unihal_frame_roundtrip [OF this(1-4) fifo_hal_fifo this(5), of "unihal_example []" can_message_zero]
  show ?thesis
    unfolding bytes by blast
qed

text \<open>
  A channel that was destroyed refuses every operation and touches the peripheral no more, until
  it is set up again; destroying stops a peripheral that was brought up and only that one.
\<close>

theorem unihal_destroyed_refuses:
  assumes "uni_can_channel_destroy (unihal_ops_of hal) (Some self) = (True, Some self')"
  shows "uhc_can self' = (if hal_is_inited hal (uhc_can self) then snd (hal_stop hal (uhc_can self)) else uhc_can self) \<and>
    uni_can_channel_init (unihal_ops_of hal) (Some self') = (False, Some self') \<and>
    uni_can_channel_open (unihal_ops_of hal) (Some self') = (False, Some self') \<and>
    uni_can_channel_close (unihal_ops_of hal) (Some self') = (False, Some self') \<and>
    uni_can_channel_destroy (unihal_ops_of hal) (Some self') = (False, Some self') \<and>
    uni_can_channel_receive (unihal_ops_of hal) True (Some self') = (None, Some self') \<and>
    uni_can_channel_transmit (unihal_ops_of hal) (Some self') msg = (False, Some self') \<and>
    uni_can_channel_transmit_idle (unihal_ops_of hal) (Some self') = (False, Some self') \<and>
    uni_can_channel_transmit_abort (unihal_ops_of hal) (Some self') = (False, Some self') \<and>
    uni_can_channel_filter_add (unihal_ops_of hal) (Some self') fid fmask = (False, Some self')"
proof -
  have attached: "uhc_ops self"
    using assms by (auto simp: channel_defs unihal_ops_of_def split: if_splits)
  then have "self' = snd (unihal_destroy hal self)"
    using assms by (simp add: channel_defs unihal_ops_of_def unihal_ops_def split_beta)
  then have gone: "\<not> uhc_ops self'"
    and can: "uhc_can self' = (if hal_is_inited hal (uhc_can self) then snd (hal_stop hal (uhc_can self)) else uhc_can self)"
    by (simp_all add: unihal_destroy_def unihal_close_def unihal_on_def Let_def)
  from gone have none: "uni_can_channel_ops_get (unihal_ops_of hal) (Some self') = None"
    by (simp add: uni_can_channel_ops_get_def unihal_ops_of_def)
  show ?thesis
    using can
    by (simp add: channel_without_table [OF none] uni_can_channel_init_def uni_can_channel_open_def
        uni_can_channel_close_def uni_can_channel_destroy_def uni_can_channel_transmit_idle_def
        uni_can_channel_transmit_abort_def uni_can_channel_filter_add_def)
qed

theorem unihal_destroyed_refuses_witness:
  "\<exists>self'. uni_can_channel_destroy (unihal_ops_of fifo_hal) (Some (unihal_example [])) = (True, Some self') \<and>
    uni_can_channel_transmit (unihal_ops_of fifo_hal) (Some self') (Some unihal_example_msg) = (False, Some self')"
proof -
  let ?s = "unihal_example []"
  have "uni_can_channel_destroy (unihal_ops_of fifo_hal) (Some ?s) = (True, Some (snd (unihal_destroy fifo_hal ?s)))"
    by (simp add: channel_defs unihal_ops_of_def unihal_ops_def unihal_example_def unihal_destroy_def Let_def)
  with unihal_destroyed_refuses [OF this, of "Some unihal_example_msg"] show ?thesis
    by blast
qed

end
