(* ===== verification/Factory.thy ===== *)
theory Factory
  imports ChannelAdapter
begin

text \<open>
  The factory that lists the devices of all providers and makes channels of them
  (\<open>include/uni_can_devinfo.h\<close>, \<open>src/can_provider.h\<close>, \<open>src/uni_can_factory.cpp\<close>).

  A provider is an object with state \<open>'p\<close> and the virtual functions of \<open>ICanProvider\<close>; which
  providers there are is fixed when the library is built, the argument \<open>built_in\<close>. A channel a
  provider makes is a table of virtual functions with a state, and the factory wraps it in an
  adapter. A \<open>char\<close> array or pointer is the string up to its terminating zero. The two globals are
  the record \<open>factory\<close>.
\<close>

section \<open>Data\<close>

definition UNI_CAN_DEVINFO_FIELDLEN :: nat where "UNI_CAN_DEVINFO_FIELDLEN = 64"

record uni_can_devinfo =
  dev_manufacturer :: string
  dev_model :: string
  dev_sn :: string
  dev_provider :: string
  dev_index :: nat
  dev_chancnt :: u32

type_synonym 's channel_object = "'s ICanChannel \<times> 's"

record ('p, 's) ICanProvider =
  pv_Init :: "'p \<Rightarrow> 'p"
  pv_IsInited :: "'p \<Rightarrow> bool"
  pv_CreateChannel :: "'p \<Rightarrow> uni_can_devinfo \<Rightarrow> nat \<Rightarrow> u32 \<Rightarrow> 's channel_object option \<times> 'p"
  pv_GetDeviceInfo :: "'p \<Rightarrow> uni_can_devinfo list \<times> 'p"
  pv_GetProviderName :: "string option"

type_synonym ('p, 's) provider = "('p, 's) ICanProvider \<times> 'p"

record ('p, 's) factory =
  g_providers :: "('p, 's) provider list"
  g_devices :: "uni_can_devinfo list"

definition factory_start :: "('p, 's) factory" where
  "factory_start = \<lparr>g_providers = [], g_devices = []\<rparr>"


section \<open>Operations\<close>

definition uni_can_factory_ensure_providers ::
  "('p, 's) provider list \<Rightarrow> ('p, 's) factory \<Rightarrow> ('p, 's) factory" where
  "uni_can_factory_ensure_providers built_in g =
     (if g_providers g \<noteq> [] then g else g\<lparr>g_providers := built_in\<rparr>)"

definition uni_can_factory_providers_count ::
  "('p, 's) provider list \<Rightarrow> ('p, 's) factory \<Rightarrow> nat \<times> ('p, 's) factory" where
  "uni_can_factory_providers_count built_in g =
     (let g = uni_can_factory_ensure_providers built_in g in (length (g_providers g), g))"

text \<open>
  The buffer of the caller holds \<open>outlen\<close> characters; \<open>strncpy\<close> fills what the name leaves free with
  zeros.
\<close>

definition uni_can_factory_get_provider_name ::
  "('p, 's) provider list \<Rightarrow> ('p, 's) factory \<Rightarrow> string option \<Rightarrow> nat \<Rightarrow> nat
    \<Rightarrow> bool \<times> string option \<times> ('p, 's) factory" where
  "uni_can_factory_get_provider_name built_in g out outlen index =
     (let g = uni_can_factory_ensure_providers built_in g in
      case out of
        None \<Rightarrow> (False, out, g)
      | Some buf \<Rightarrow>
          if index < length (g_providers g) \<and> outlen > 1
          then
            let name = (case pv_GetProviderName (fst (g_providers g ! index)) of None \<Rightarrow> [] | Some n \<Rightarrow> n);
                copied = take (outlen - 1) name;
                buf = blit buf 0 (copied @ replicate (outlen - 1 - length copied) (CHR 0x00))
            in (True, Some (buf[outlen - 1 := CHR 0x00]), g)
          else (False, out, g))"

definition factory_refresh_provider ::
  "('p, 's) provider \<Rightarrow> uni_can_devinfo list \<times> ('p, 's) provider" where
  "factory_refresh_provider provider =
     (case provider of (vt, p) \<Rightarrow>
        let p = (if \<not> pv_IsInited vt p then pv_Init vt p else p);
            (infos, p) = pv_GetDeviceInfo vt p
        in (infos, (vt, p)))"

fun factory_refresh_loop ::
  "('p, 's) provider list \<Rightarrow> uni_can_devinfo list \<Rightarrow> uni_can_devinfo list \<times> ('p, 's) provider list" where
  "factory_refresh_loop [] devices = (devices, [])"
| "factory_refresh_loop (provider # rest) devices =
     (let (infos, provider) = factory_refresh_provider provider;
          (devices, rest) = factory_refresh_loop rest (devices @ infos)
      in (devices, provider # rest))"

definition uni_can_factory_refresh ::
  "('p, 's) provider list \<Rightarrow> ('p, 's) factory \<Rightarrow> nat \<times> ('p, 's) factory" where
  "uni_can_factory_refresh built_in g =
     (let g = uni_can_factory_ensure_providers built_in g;
          (devices, providers) = factory_refresh_loop (g_providers g) []
      in (length devices, g\<lparr>g_providers := providers, g_devices := devices\<rparr>))"

definition uni_can_factory_get_info ::
  "('p, 's) factory \<Rightarrow> uni_can_devinfo option \<Rightarrow> nat \<Rightarrow> bool \<times> uni_can_devinfo option" where
  "uni_can_factory_get_info g info index =
     (if info \<noteq> None \<and> index < length (g_devices g) then (True, Some (g_devices g ! index)) else (False, info))"

text \<open>
  The loop over the providers. \<open>None\<close> as the name of a provider would be a null pointer for
  \<open>strcmp\<close>, whose behaviour is undefined; no provider has it, and the loop skips it.
\<close>

fun factory_create_loop ::
  "('p, 's) provider list \<Rightarrow> uni_can_devinfo \<Rightarrow> nat \<Rightarrow> u32 \<Rightarrow> 's channel_object option \<times> ('p, 's) provider list" where
  "factory_create_loop [] info idx baudrate = (None, [])"
| "factory_create_loop ((vt, p) # rest) info idx baudrate =
     (if pv_GetProviderName vt \<noteq> Some (dev_provider info)
      then (let (r, rest) = factory_create_loop rest info idx baudrate in (r, (vt, p) # rest))
      else
        (case pv_CreateChannel vt p info idx baudrate of
           (Some channel, p) \<Rightarrow> (Some channel, (vt, p) # rest)
         | (None, p) \<Rightarrow> (let (r, rest) = factory_create_loop rest info idx baudrate in (r, (vt, p) # rest))))"

definition uni_can_factory_create_channel ::
  "'c \<Rightarrow> ('p, 's) factory \<Rightarrow> uni_can_devinfo option \<Rightarrow> nat \<Rightarrow> u32
    \<Rightarrow> ('s, 'f, 'c) CanChannelAdapter option \<times> ('p, 's) factory" where
  "uni_can_factory_create_channel null_cookie g info channelidx baudrate =
     (case info of
        None \<Rightarrow> (None, g)
      | Some info \<Rightarrow>
          if channelidx \<ge> unat (dev_chancnt info) then (None, g)
          else
            (case factory_create_loop (g_providers g) info channelidx baudrate of
               (None, ps) \<Rightarrow> (None, g\<lparr>g_providers := ps\<rparr>)
             | (Some (vtable, s), ps) \<Rightarrow> (CanChannelAdapt vtable null_cookie (Some s), g\<lparr>g_providers := ps\<rparr>)))"


section \<open>Lemmas\<close>

lemma refresh_loop_eq:
  "factory_refresh_loop ps devices =
    (devices @ concat (map (fst \<circ> factory_refresh_provider) ps), map (snd \<circ> factory_refresh_provider) ps)"
  by (induction ps arbitrary: devices) (simp_all add: split_beta)

lemma create_loop_names:
  assumes "factory_create_loop ps info idx baudrate = (Some ch, qs)"
  shows "\<exists>i vt p p'. i < length ps \<and> ps ! i = (vt, p) \<and> pv_GetProviderName vt = Some (dev_provider info) \<and>
    pv_CreateChannel vt p info idx baudrate = (Some ch, p') \<and>
    (\<forall>j<i. pv_GetProviderName (fst (ps ! j)) = Some (dev_provider info) \<longrightarrow>
       fst (pv_CreateChannel (fst (ps ! j)) (snd (ps ! j)) info idx baudrate) = None)"
  using assms
proof (induction ps arbitrary: qs)
  case (Cons prov ps)
  obtain vt p where prov: "prov = (vt, p)" by (cases prov)
  obtain r p' where create: "pv_CreateChannel vt p info idx baudrate = (r, p')"
    by (cases "pv_CreateChannel vt p info idx baudrate")
  show ?case
  proof (cases "pv_GetProviderName vt = Some (dev_provider info) \<and> r \<noteq> None")
    case True
    then have "r = Some ch"
      using Cons.prems by (auto simp: prov create)
    with True show ?thesis
      by (intro exI [of _ 0]) (auto simp: prov create)
  next
    case False
    then obtain qs' where "factory_create_loop ps info idx baudrate = (Some ch, qs')"
      using Cons.prems by (cases r) (auto simp: prov create split: if_splits prod.splits)
    from Cons.IH [OF this] obtain i vt' p0 p1 where i: "i < length ps" "ps ! i = (vt', p0)"
      "pv_GetProviderName vt' = Some (dev_provider info)"
      "pv_CreateChannel vt' p0 info idx baudrate = (Some ch, p1)"
      "\<forall>j<i. pv_GetProviderName (fst (ps ! j)) = Some (dev_provider info) \<longrightarrow>
         fst (pv_CreateChannel (fst (ps ! j)) (snd (ps ! j)) info idx baudrate) = None"
      by blast
    have "\<forall>j<Suc i. pv_GetProviderName (fst ((prov # ps) ! j)) = Some (dev_provider info) \<longrightarrow>
       fst (pv_CreateChannel (fst ((prov # ps) ! j)) (snd ((prov # ps) ! j)) info idx baudrate) = None"
      using False i(5) by (cases r) (auto simp: prov create less_Suc_eq_0_disj)
    with i show ?thesis
      by (intro exI [of _ "Suc i"]) auto
  qed
qed simp


section \<open>Properties\<close>

text \<open>
  After \<open>uni_can_factory_refresh\<close> the devices are those of all providers, in the order of the
  providers, each provider initialised before it was asked; the result counts them, and
  \<open>uni_can_factory_get_info\<close> gives exactly the devices below that count, leaving the caller's
  memory alone for any other index.
\<close>

theorem factory_refresh_lists_all:
  assumes "uni_can_factory_refresh built_in g = (n, g')"
    and "ps = (if g_providers g = [] then built_in else g_providers g)"
  shows "g_devices g' = concat (map (\<lambda>(vt, p). fst (pv_GetDeviceInfo vt (if pv_IsInited vt p then p else pv_Init vt p))) ps) \<and>
    n = length (g_devices g') \<and> map fst (g_providers g') = map fst ps \<and>
    (\<forall>info i. uni_can_factory_get_info g' (Some info) i =
       (if i < n then (True, Some (g_devices g' ! i)) else (False, Some info)))"
proof -
  have infos: "map (fst \<circ> factory_refresh_provider) ps =
      map (\<lambda>(vt, p). fst (pv_GetDeviceInfo vt (if pv_IsInited vt p then p else pv_Init vt p))) ps"
    by (simp add: factory_refresh_provider_def split_beta Let_def)
  have "g_devices g' = concat (map (fst \<circ> factory_refresh_provider) ps)" "n = length (g_devices g')"
    "g_providers g' = map (snd \<circ> factory_refresh_provider) ps"
    using assms by (auto simp: uni_can_factory_refresh_def uni_can_factory_ensure_providers_def refresh_loop_eq Let_def)
  moreover have "map fst (map (snd \<circ> factory_refresh_provider) ps) = map fst ps"
    by (simp add: factory_refresh_provider_def split_beta Let_def)
  ultimately show ?thesis
    by (simp only: infos) (simp add: uni_can_factory_get_info_def)
qed

text \<open>
  A channel the factory makes comes from the first provider that has the name the device
  information asks for and can make it, for a channel index below the device's number of channels;
  it starts undeleted, without a handler of the application, and with the adapter registered as
  the handler of the backend.
\<close>

theorem factory_channel_from_named_provider:
  assumes "uni_can_factory_create_channel null_cookie g (Some info) idx baudrate = (Some a, g')"
  shows "idx < unat (dev_chancnt info) \<and>
    (\<exists>i vt p p' vtable s. i < length (g_providers g) \<and> g_providers g ! i = (vt, p) \<and>
       pv_GetProviderName vt = Some (dev_provider info) \<and>
       pv_CreateChannel vt p info idx baudrate = (Some (vtable, s), p') \<and>
       ad_vtable a = vtable \<and> ad_channel a = ic_ReceiveHandlerSet vtable s (Some ()) \<and>
       (\<forall>j<i. pv_GetProviderName (fst (g_providers g ! j)) = Some (dev_provider info) \<longrightarrow>
          fst (pv_CreateChannel (fst (g_providers g ! j)) (snd (g_providers g ! j)) info idx baudrate) = None)) \<and>
    \<not> ad_deleted a \<and> ad_receive_func a = None"
proof -
  have idx: "idx < unat (dev_chancnt info)"
    using assms by (simp add: uni_can_factory_create_channel_def split: if_splits)
  then obtain vtable s ps where loop: "factory_create_loop (g_providers g) info idx baudrate = (Some (vtable, s), ps)"
    and a: "CanChannelAdapt vtable null_cookie (Some s) = Some a"
    using assms by (auto simp: uni_can_factory_create_channel_def CanChannelAdapt_def split: option.splits prod.splits if_splits)
  have "ad_vtable a = vtable \<and> ad_channel a = ic_ReceiveHandlerSet vtable s (Some ()) \<and> \<not> ad_deleted a \<and> ad_receive_func a = None"
    using a by (auto simp: CanChannelAdapt_def)
  with idx create_loop_names [OF loop] show ?thesis
    by blast
qed

text \<open>
  The name of a provider that was copied out is terminated within the caller's buffer: the
  buffer keeps its size and what lies behind \<open>outlen\<close>, and up to its first zero it holds the first
  \<open>outlen - 1\<close> characters of the name.
\<close>

theorem factory_provider_name_terminated:
  assumes "uni_can_factory_get_provider_name built_in g (Some buf) outlen i = (True, out, g')"
    and "outlen \<le> length buf"
    and "pv_GetProviderName (fst (g_providers g' ! i)) = Some name" "CHR 0x00 \<notin> set name"
  shows "\<exists>res. out = Some res \<and> length res = length buf \<and> drop outlen res = drop outlen buf \<and>
    takeWhile (\<lambda>c. c \<noteq> CHR 0x00) res = take (outlen - 1) name \<and> res ! (outlen - 1) = CHR 0x00"
proof -
  let ?copied = "take (outlen - 1) name"
  let ?text = "?copied @ replicate (outlen - 1 - length ?copied) (CHR 0x00)"
  have out: "out = Some ((blit buf 0 ?text)[outlen - 1 := CHR 0x00])" and pos: "outlen > 1"
    using assms(1,3) by (auto simp: uni_can_factory_get_provider_name_def Let_def split: if_splits)
  have len: "length ?text = outlen - 1"
    by simp
  have shape: "(blit buf 0 ?text)[outlen - 1 := CHR 0x00] = ?text @ CHR 0x00 # drop outlen buf"
    using assms(2) pos unfolding blit_def len
    by (simp add: upd_conv_take_nth_drop min_def)
  have keep: "takeWhile (\<lambda>c. c \<noteq> CHR 0x00) ?copied = ?copied"
    using assms(4) by (auto simp: takeWhile_eq_all_conv dest: in_set_takeD)
  have stop: "takeWhile (\<lambda>c. c \<noteq> CHR 0x00) (?copied @ replicate k (CHR 0x00) @ CHR 0x00 # r) = ?copied" for k r
    using keep by (cases k) (auto simp: takeWhile_append takeWhile_eq_all_conv)
  have "takeWhile (\<lambda>c. c \<noteq> CHR 0x00) (?text @ CHR 0x00 # drop outlen buf) = ?copied"
    using stop by simp
  moreover have "(?text @ CHR 0x00 # drop outlen buf) ! (outlen - 1) = CHR 0x00"
    by (metis len nth_append_length)
  moreover have "length (?text @ CHR 0x00 # drop outlen buf) = length buf"
    "drop outlen (?text @ CHR 0x00 # drop outlen buf) = drop outlen buf"
    using assms(2) pos len by auto
  ultimately show ?thesis
    unfolding out shape by blast
qed

text \<open>A provider for examples with two devices; its channels have no operation that does anything.\<close>

definition example_vtable :: "unit ICanChannel" where
  "example_vtable = \<lparr>ic_Init = (\<lambda>s. (True, s)), ic_DeInit = (\<lambda>s. (True, s)), ic_Open = (\<lambda>s. (True, s)),
     ic_Close = (\<lambda>s. (True, s)), ic_ReceiveHandlerSet = (\<lambda>s _. s), ic_ReceiveMessage = (\<lambda>s. (None, s)),
     ic_TransmitMessage = (\<lambda>s _. (False, s)), ic_destructor = id\<rparr>"

definition example_device :: uni_can_devinfo where
  "example_device = \<lparr>dev_manufacturer = ''Linux'', dev_model = ''SocketCAN'', dev_sn = ''can0'',
     dev_provider = ''socketcan'', dev_index = 3, dev_chancnt = 1\<rparr>"

definition example_provider :: "(bool, unit) ICanProvider" where
  "example_provider = \<lparr>pv_Init = (\<lambda>_. True), pv_IsInited = (\<lambda>p. p),
     pv_CreateChannel = (\<lambda>p _ _ _. (Some (example_vtable, ()), p)),
     pv_GetDeviceInfo = (\<lambda>p. (if p then [example_device] else [], p)),
     pv_GetProviderName = Some ''socketcan''\<rparr>"

theorem factory_refresh_lists_all_witness:
  "\<exists>g. uni_can_factory_refresh [(example_provider, False)] factory_start = (1, g) \<and> g_devices g = [example_device]"
proof -
  obtain n g where run: "uni_can_factory_refresh [(example_provider, False)] factory_start = (n, g)"
    by (cases "uni_can_factory_refresh [(example_provider, False)] factory_start")
  from factory_refresh_lists_all [OF this refl] run show ?thesis
    by (simp add: factory_start_def example_provider_def)
qed

theorem factory_channel_from_named_provider_witness:
  "\<exists>(a :: (unit, unit, unit) CanChannelAdapter) g'. uni_can_factory_create_channel () \<lparr>g_providers = [(example_provider, True)], g_devices = []\<rparr>
      (Some example_device) 0 500000 = (Some a, g') \<and> ad_vtable a = example_vtable"
proof -
  let ?g = "\<lparr>g_providers = [(example_provider, True)], g_devices = []\<rparr>"
  obtain a :: "(unit, unit, unit) CanChannelAdapter" and g'
    where run: "uni_can_factory_create_channel () ?g (Some example_device) 0 500000 = (Some a, g')"
    by (simp add: uni_can_factory_create_channel_def example_device_def example_provider_def CanChannelAdapt_def)
  have one: "g_providers ?g ! i = (example_provider, True)" if "i < length (g_providers ?g)" for i
    using that by simp
  have "ad_vtable a = example_vtable"
    using factory_channel_from_named_provider [OF run] one by (fastforce simp: example_provider_def)
  with run show ?thesis
    by blast
qed

theorem factory_provider_name_terminated_witness:
  "\<exists>res. takeWhile (\<lambda>c. c \<noteq> CHR 0x00) res = ''sock'' \<and> length res = 8 \<and>
    fst (snd (uni_can_factory_get_provider_name [(example_provider, False)] factory_start (Some (replicate 8 (CHR ''x''))) 5 0)) = Some res"
proof -
  let ?call = "uni_can_factory_get_provider_name [(example_provider, False)] factory_start (Some (replicate 8 (CHR ''x''))) 5 0"
  have run: "?call = (True, fst (snd ?call), snd (snd ?call))"
    by (simp add: uni_can_factory_get_provider_name_def uni_can_factory_ensure_providers_def factory_start_def Let_def)
  have name: "pv_GetProviderName (fst (g_providers (snd (snd ?call)) ! 0)) = Some ''socketcan''"
    by (simp add: uni_can_factory_get_provider_name_def uni_can_factory_ensure_providers_def factory_start_def Let_def
        example_provider_def)
  from factory_provider_name_terminated [OF run _ name] show ?thesis
    by auto
qed

end
