(* ===== verification/TextNumbers.thy ===== *)
theory TextNumbers
  imports Prelude
begin

text \<open>
  Numbers in text, as the C and C++ libraries read and print them: \<open>stoi\<close>, and \<open>stoul\<close> and
  \<open>stol\<close> with a base taken from the prefix (where \<open>long\<close> has 64 bits), and hexadecimal digits of
  a fixed width, \<open>%0nX\<close> of a number that fits \<open>n\<close> digits. Exceptions are values.
\<close>

section \<open>Characters\<close>

definition code :: "char \<Rightarrow> nat" where
  "code c = of_char c"

definition is_digit :: "char \<Rightarrow> bool" where
  "is_digit c \<longleftrightarrow> 48 \<le> code c \<and> code c \<le> 57"

definition is_octal :: "char \<Rightarrow> bool" where
  "is_octal c \<longleftrightarrow> 48 \<le> code c \<and> code c \<le> 55"

definition is_blank :: "char \<Rightarrow> bool" where
  "is_blank c \<longleftrightarrow> code c = 32 \<or> (9 \<le> code c \<and> code c \<le> 13)"

definition is_xdigit :: "char \<Rightarrow> bool" where
  "is_xdigit c \<longleftrightarrow> is_digit c \<or> (65 \<le> code c \<and> code c \<le> 70) \<or> (97 \<le> code c \<and> code c \<le> 102)"

definition hex_value :: "char \<Rightarrow> nat" where
  "hex_value c = (if is_digit c then code c - 48 else if code c \<le> 70 then code c - 55 else code c - 87)"

definition hex_char :: "nat \<Rightarrow> char" where
  "hex_char d = char_of (if d < 10 then 48 + d else 55 + d)"

lemma code_hex_char: "d < 16 \<Longrightarrow> code (hex_char d) = (if d < 10 then 48 + d else 55 + d)"
  by (simp add: code_def hex_char_def)

lemma hex_char_digit [simp]: "d < 16 \<Longrightarrow> is_xdigit (hex_char d)"
  by (auto simp: is_xdigit_def is_digit_def code_hex_char)

lemma hex_value_hex_char [simp]: "d < 16 \<Longrightarrow> hex_value (hex_char d) = d"
  by (auto simp: hex_value_def is_digit_def code_hex_char)


section \<open>Hexadecimal digits of a fixed width\<close>

definition hex_fixed :: "nat \<Rightarrow> nat \<Rightarrow> string" where
  "hex_fixed w n = map (\<lambda>i. hex_char (n div 16 ^ (w - 1 - i) mod 16)) [0..<w]"

fun hex_number :: "nat \<Rightarrow> string \<Rightarrow> nat" where
  "hex_number acc [] = acc"
| "hex_number acc (c # cs) = hex_number (16 * acc + hex_value c) cs"

lemma length_hex_fixed [simp]: "length (hex_fixed w n) = w"
  by (simp add: hex_fixed_def)

lemma hex_number_append: "hex_number acc (xs @ ys) = hex_number (hex_number acc xs) ys"
  by (induction xs arbitrary: acc) auto

lemma hex_fixed_Suc: "hex_fixed (Suc w) n = hex_fixed w (n div 16) @ [hex_char (n mod 16)]"
  by (simp add: hex_fixed_def Suc_diff_Suc div_mult2_eq [symmetric] flip: power_Suc)

lemma hex_number_hex_fixed: "n < 16 ^ w \<Longrightarrow> hex_number 0 (hex_fixed w n) = n"
proof (induction w arbitrary: n)
  case (Suc w)
  then have "n div 16 < 16 ^ w"
    by (simp add: less_mult_imp_div_less mult.commute)
  with Suc.IH show ?case
    by (simp add: hex_fixed_Suc hex_number_append)
qed (simp add: hex_fixed_def)

lemma hex_fixed_xdigits: "\<forall>c\<in>set (hex_fixed w n). is_xdigit c"
  by (auto simp: hex_fixed_def)


text \<open>\<open>%X\<close>: hexadecimal digits without leading zeros.\<close>

fun show_hex :: "nat \<Rightarrow> string" where
  "show_hex n = (if n < 16 then [hex_char n] else show_hex (n div 16) @ [hex_char (n mod 16)])"

declare show_hex.simps [simp del]

lemma length_show_hex: "0 < k \<Longrightarrow> length (show_hex n) \<le> k \<longleftrightarrow> n < 16 ^ k"
proof (induction k arbitrary: n)
  case (Suc k)
  have rec: "length (show_hex n) = (if n < 16 then 1 else Suc (length (show_hex (n div 16))))"
    by (simp add: show_hex.simps [of n])
  show ?case
  proof (cases "k = 0 \<or> n < 16")
    case True
    have "n < 16 * 16 ^ k" if "n < 16"
      using that by (rule less_le_trans) simp
    moreover have "show_hex m \<noteq> []" for m
      by (simp add: show_hex.simps [of m])
    ultimately show ?thesis
      using True rec by (auto simp: Suc_le_eq)
  next
    case False
    then have "length (show_hex n) \<le> Suc k \<longleftrightarrow> n div 16 < 16 ^ k"
      using rec Suc.IH [of "n div 16"] by simp
    also have "\<dots> \<longleftrightarrow> n < 16 ^ Suc k"
      by (simp add: div_less_iff_less_mult mult.commute)
    finally show ?thesis .
  qed
qed simp

text \<open>\<open>%0nX\<close> of any number, and \<open>%0nd\<close> of a number that is not negative.\<close>

definition hex_padded :: "nat \<Rightarrow> nat \<Rightarrow> string" where
  "hex_padded w n = replicate (w - length (show_hex n)) CHR ''0'' @ show_hex n"

definition dec_padded :: "nat \<Rightarrow> nat \<Rightarrow> string" where
  "dec_padded w n = replicate (w - length (show_nat n)) CHR ''0'' @ show_nat n"


section \<open>Reading integers\<close>

datatype number_error = InvalidArgument | OutOfRange

text \<open>An optional sign after white space, and what follows it.\<close>

definition read_sign :: "string \<Rightarrow> bool \<times> string" where
  "read_sign text =
     (case dropWhile is_blank text of
        [] \<Rightarrow> (False, [])
      | c # cs \<Rightarrow> if c = CHR ''-'' then (True, cs) else if c = CHR ''+'' then (False, cs) else (False, c # cs))"

text \<open>The magnitude of a number in base 0; \<open>None\<close> when there are no digits.\<close>

definition read_base0 :: "string \<Rightarrow> nat option" where
  "read_base0 text =
     (case text of
        c # x # d # _ \<Rightarrow>
          if c = CHR ''0'' \<and> (x = CHR ''x'' \<or> x = CHR ''X'') \<and> is_xdigit d
          then Some (hex_number 0 (takeWhile is_xdigit (drop 2 text)))
          else if c = CHR ''0'' then Some (foldl (\<lambda>n c. 8 * n + (code c - 48)) 0 (takeWhile is_octal text))
          else if is_digit c then Some (nat_of_digits 0 (takeWhile is_digit text)) else None
      | c # _ \<Rightarrow>
          if c = CHR ''0'' then Some (foldl (\<lambda>n c. 8 * n + (code c - 48)) 0 (takeWhile is_octal text))
          else if is_digit c then Some (nat_of_digits 0 (takeWhile is_digit text)) else None
      | [] \<Rightarrow> None)"

definition stoul :: "string \<Rightarrow> number_error + u64" where
  "stoul text =
     (let (neg, rest) = read_sign text in
      case read_base0 rest of
        None \<Rightarrow> Inl InvalidArgument
      | Some n \<Rightarrow> if n \<ge> 2 ^ 64 then Inl OutOfRange else Inr (if neg then - of_nat n else of_nat n))"

definition stol :: "string \<Rightarrow> number_error + int" where
  "stol text =
     (let (neg, rest) = read_sign text in
      case read_base0 rest of
        None \<Rightarrow> Inl InvalidArgument
      | Some n \<Rightarrow>
          let v = (if neg then - int n else int n)
          in if v < - (2 ^ 63) \<or> v \<ge> 2 ^ 63 then Inl OutOfRange else Inr v)"

text \<open>\<open>stoi\<close> reads decimal digits; \<open>None\<close> is its exception.\<close>

definition stoi :: "string \<Rightarrow> int option" where
  "stoi text =
     (let (neg, rest) = read_sign text;
          digits = takeWhile is_digit rest;
          n = (if neg then - int (nat_of_digits 0 digits) else int (nat_of_digits 0 digits))
      in if digits = [] \<or> n < - (2 ^ 31) \<or> n \<ge> 2 ^ 31 then None else Some n)"

end
