(* ===== verification/SocketCan.thy ===== *)
theory SocketCan
  imports Factory TextNumbers
begin

text \<open>
  The backend for the CAN sockets of Linux (\<open>src/common_sysfs.cpp\<close>,
  \<open>src/backend_socketcan/can_socketcan_channel.cpp\<close>,
  \<open>src/backend_socketcan/can_socketcan_provider.cpp\<close>).

  The kernel and libsocketcan are the record \<open>'o can_os\<close> of functions over a state \<open>'o\<close>; a negative
  descriptor reports an error, as the system calls document. The object of a channel is the part
  every channel has (\<open>CanChannelBase\<close>) and the members of the class, with the state of the system
  beside them. \<open>sc_event\<close> is the value of the event descriptor: whether a stop request waits there.
  The receive thread ends only on such a request, so joining it without one never returns; that is
  the result \<open>None\<close>.
\<close>

section \<open>Data\<close>

record can_frame =
  cf_can_id :: u32
  cf_can_dlc :: u8
  cf_data :: "u8 list"

definition CAN_EFF_FLAG :: u32 where "CAN_EFF_FLAG = 0x80000000"
definition CAN_ERR_FLAG :: u32 where "CAN_ERR_FLAG = 0x20000000"
definition CAN_EFF_MASK :: u32 where "CAN_EFF_MASK = 0x1FFFFFFF"
definition CAN_SFF_MASK :: u32 where "CAN_SFF_MASK = 0x000007FF"

lemmas can_id_defs = CAN_EFF_FLAG_def CAN_ERR_FLAG_def CAN_EFF_MASK_def CAN_SFF_MASK_def

record 'o can_os =
  os_can_do_stop :: "string \<Rightarrow> 'o \<Rightarrow> 'o"
  os_can_get_bitrate :: "string \<Rightarrow> 'o \<Rightarrow> u32"
  os_can_set_bitrate :: "string \<Rightarrow> u32 \<Rightarrow> 'o \<Rightarrow> bool \<times> 'o"
  os_can_get_restart_ms :: "string \<Rightarrow> 'o \<Rightarrow> u32 option"
  os_can_set_restart_ms :: "string \<Rightarrow> u32 \<Rightarrow> 'o \<Rightarrow> bool \<times> 'o"
  os_can_do_start :: "string \<Rightarrow> 'o \<Rightarrow> 'o"
  os_socket :: "'o \<Rightarrow> int \<times> 'o"
  os_bind :: "int \<Rightarrow> nat \<Rightarrow> 'o \<Rightarrow> bool \<times> 'o"
  os_set_loopback :: "int \<Rightarrow> bool \<Rightarrow> 'o \<Rightarrow> 'o"
  os_set_nonblock :: "int \<Rightarrow> 'o \<Rightarrow> 'o"
  os_eventfd :: "'o \<Rightarrow> int \<times> 'o"
  os_shutdown :: "int \<Rightarrow> 'o \<Rightarrow> 'o"
  os_close :: "int \<Rightarrow> 'o \<Rightarrow> 'o"
  os_write :: "int \<Rightarrow> can_frame \<Rightarrow> 'o \<Rightarrow> bool \<times> 'o"
  os_read :: "int \<Rightarrow> 'o \<Rightarrow> can_frame option \<times> 'o"

record 'o socketcan =
  sc_info_dev :: uni_can_devinfo
  sc_info_chidx :: u8
  sc_info_baudrate :: u32
  sc_thread_fd :: int
  sc_thread_started :: bool
  sc_event :: bool
  sc_can_restart :: u32
  sc_fd :: int
  sc_os :: 'o

type_synonym 'o socketcan_channel = "'o socketcan backend_channel"


section \<open>Frames\<close>

definition socketcan_frame :: "uni_can_message \<Rightarrow> can_frame" where
  "socketcan_frame msg = \<lparr>
     cf_can_id = (if cm_flags msg AND UNI_CAN_MSG_FLAG_EXT_ID \<noteq> 0 then (cm_id msg AND CAN_EFF_MASK) OR CAN_EFF_FLAG
                  else if cm_flags msg AND UNI_CAN_MSG_FLAG_STD_ID \<noteq> 0 then cm_id msg AND CAN_SFF_MASK
                  else 0),
     cf_can_dlc = ucast (cm_len msg),
     cf_data = data_u8 (cm_data msg)\<rparr>"

definition socketcan_message :: "u64 \<Rightarrow> can_frame \<Rightarrow> uni_can_message" where
  "socketcan_message time_us frame = \<lparr>
     cm_time_us = time_us,
     cm_id = (if cf_can_id frame AND CAN_EFF_FLAG \<noteq> 0 then cf_can_id frame AND CAN_EFF_MASK
              else cf_can_id frame AND CAN_SFF_MASK),
     cm_flags = (if cf_can_id frame AND CAN_EFF_FLAG \<noteq> 0 then UNI_CAN_MSG_FLAG_EXT_ID else 0),
     cm_data = Inline (cf_data frame),
     cm_len = ucast (cf_can_dlc frame)\<rparr>"


section \<open>Operations\<close>

definition socketcan_TransmitMessage ::
  "'o can_os \<Rightarrow> 'o socketcan_channel \<Rightarrow> uni_can_message \<Rightarrow> bool \<times> 'o socketcan_channel" where
  "socketcan_TransmitMessage os = (\<lambda>(b, x) msg.
     if sc_fd x < 0 then (False, (b, x))
     else (let (r, s) = os_write os (sc_fd x) (socketcan_frame msg) (sc_os x) in (r, (b, x\<lparr>sc_os := s\<rparr>))))"

definition socketcan_Init :: "'o socketcan_channel \<Rightarrow> bool \<times> 'o socketcan_channel" where
  "socketcan_Init s = (True, s)"

definition socketcan_DeInit :: "'o socketcan_channel \<Rightarrow> bool \<times> 'o socketcan_channel" where
  "socketcan_DeInit s = (True, s)"

text \<open>The constructor; the system is there already.\<close>

definition CanChannelSocketcan :: "'o \<Rightarrow> uni_can_devinfo \<Rightarrow> nat \<Rightarrow> u32 \<Rightarrow> 'o socketcan_channel" where
  "CanChannelSocketcan s devInfo channel_idx baudrate =
     (\<lparr>cb_receive_func = None, cb_receive_cookie = (), cb_receive_queue = [], cb_thread = False,
       cb_thread_abort = False\<rparr>,
      \<lparr>sc_info_dev = devInfo, sc_info_chidx = of_nat channel_idx, sc_info_baudrate = baudrate, sc_thread_fd = -1,
       sc_thread_started = False, sc_event = False, sc_can_restart = 100, sc_fd = -1, sc_os = s\<rparr>)"

text \<open>\<open>threadStop\<close> of the class: wake the thread up, then join it.\<close>

definition socketcan_threadStop :: "'o socketcan_channel \<Rightarrow> (bool \<times> 'o socketcan_channel) option" where
  "socketcan_threadStop = (\<lambda>(b, x).
     let x = (if sc_thread_started x \<and> sc_thread_fd x > -1 then x\<lparr>sc_event := True\<rparr> else x) in
     if cb_thread b \<and> \<not> sc_event x then None
     else (let (r, b) = threadStop b in Some (r, (b, x\<lparr>sc_thread_started := False\<rparr>))))"

definition socketcan_threadStart :: "'o socketcan_channel \<Rightarrow> (bool \<times> 'o socketcan_channel) option" where
  "socketcan_threadStart ch =
     (case socketcan_threadStop ch of
        None \<Rightarrow> None
      | Some (_, (b, x)) \<Rightarrow> Some (True, (b\<lparr>cb_thread_abort := False, cb_thread := True\<rparr>, x)))"

text \<open>Bit timing and restart time of the interface; \<open>False\<close> when they could not be set.\<close>

definition socketcan_configure :: "'o can_os \<Rightarrow> 'o socketcan \<Rightarrow> 'o \<Rightarrow> bool \<times> 'o" where
  "socketcan_configure os x s =
     (let can_name = dev_sn (sc_info_dev x);
          s = os_can_do_stop os can_name s;
          (ok, s) = (if os_can_get_bitrate os can_name s \<noteq> sc_info_baudrate x
                     then os_can_set_bitrate os can_name (sc_info_baudrate x) s else (True, s))
      in if \<not> ok then (False, s)
         else
           let (ok, s) = (case os_can_get_restart_ms os can_name s of
                            None \<Rightarrow> (True, s)
                          | Some restart_ms \<Rightarrow>
                              if restart_ms \<noteq> sc_can_restart x
                              then os_can_set_restart_ms os can_name (sc_can_restart x) s else (True, s))
           in if \<not> ok then (False, s) else (True, os_can_do_start os can_name s))"

text \<open>The socket, bound to the interface, and the event descriptor, once the interface runs.\<close>

definition socketcan_connect :: "'o can_os \<Rightarrow> 'o socketcan \<Rightarrow> bool \<times> 'o socketcan" where
  "socketcan_connect os x =
     (if sc_fd x \<ge> 0 then (False, x)
      else
        let (fd, s) = os_socket os (sc_os x); x = x\<lparr>sc_fd := fd, sc_os := s\<rparr> in
        if fd < 0 then (False, x)
        else
          let (ok, s) = os_bind os fd (dev_index (sc_info_dev x)) s in
          if \<not> ok then (False, x\<lparr>sc_fd := -1, sc_os := os_close os fd s\<rparr>)
          else
            let s = os_set_nonblock os fd (os_set_loopback os fd False s);
                (tfd, s) = os_eventfd os s;
                x = x\<lparr>sc_thread_fd := tfd, sc_event := False, sc_os := s\<rparr>
            in if tfd < 0 then (False, x\<lparr>sc_fd := -1, sc_os := os_close os fd s\<rparr>) else (True, x))"

definition socketcan_Open :: "'o can_os \<Rightarrow> 'o socketcan_channel \<Rightarrow> (bool \<times> 'o socketcan_channel) option" where
  "socketcan_Open os = (\<lambda>(b, x).
     let b = b\<lparr>cb_receive_queue := sq_clear (cb_receive_queue b)\<rparr>;
         (ok, s) = socketcan_configure os x (sc_os x);
         x = x\<lparr>sc_os := s\<rparr>
     in if \<not> ok then Some (False, (b, x))
        else
          let (ok, x) = socketcan_connect os x in
          if \<not> ok then Some (False, (b, x))
          else map_option (\<lambda>(_, (b, x)). (True, (b, x\<lparr>sc_thread_started := True\<rparr>))) (socketcan_threadStart (b, x)))"

definition socketcan_Close :: "'o can_os \<Rightarrow> 'o socketcan_channel \<Rightarrow> (bool \<times> 'o socketcan_channel) option" where
  "socketcan_Close os ch =
     (case socketcan_threadStop ch of
        None \<Rightarrow> None
      | Some (_, (b, x)) \<Rightarrow>
          let x = (if sc_thread_fd x \<ge> 0
                   then x\<lparr>sc_thread_fd := -1, sc_os := os_close os (sc_thread_fd x) (sc_os x)\<rparr> else x);
              x = x\<lparr>sc_fd := -1, sc_os := os_close os (sc_fd x) (os_shutdown os (sc_fd x) (sc_os x))\<rparr>
          in Some (True, (b\<lparr>cb_receive_queue := sq_clear (cb_receive_queue b)\<rparr>, x)))"

definition socketcan_destructor :: "'o can_os \<Rightarrow> 'o socketcan_channel \<Rightarrow> 'o socketcan_channel option" where
  "socketcan_destructor os ch = map_option (\<lambda>(_, ch). snd (socketcan_DeInit ch)) (socketcan_Close os ch)"

text \<open>
  One round of the receive loop: \<open>now\<close> is the time since the thread started, in microseconds, and
  \<open>calloc_ok\<close> whether there is memory for the message. The last result is the call of the handler.
\<close>

definition socketcan_threadProcReceive ::
  "'o can_os \<Rightarrow> bool \<Rightarrow> u64 \<Rightarrow> 'o socketcan_channel \<Rightarrow> bool \<times> 'o socketcan_channel \<times> (unit \<times> unit) option" where
  "socketcan_threadProcReceive os calloc_ok now = (\<lambda>(b, x).
     case os_read os (sc_fd x) (sc_os x) of
       (None, s) \<Rightarrow> (False, (b, x\<lparr>sc_os := s\<rparr>), None)
     | (Some frame, s) \<Rightarrow>
         let x = x\<lparr>sc_os := s\<rparr> in
         if cf_can_id frame AND CAN_ERR_FLAG \<noteq> 0 then (True, (b, x), None)
         else if \<not> calloc_ok then (True, (b, x), None)
         else (let (b, call) = channel_deliver (socketcan_message now frame) b in (True, (b, x), call)))"

text \<open>
  \<open>while (threadProcReceive()) {}\<close>. In every turn the system decides anew: \<open>mem\<close> whether there is
  memory for a message, and \<open>clock\<close> the time.
\<close>

partial_function (option) socketcan_drain ::
  "'o can_os \<Rightarrow> ('o \<Rightarrow> bool) \<Rightarrow> ('o \<Rightarrow> u64) \<Rightarrow> 'o socketcan_channel \<Rightarrow> 'o socketcan_channel option" where
  "socketcan_drain os mem clock ch =
     (let s = sc_os (snd ch); r = socketcan_threadProcReceive os (mem s) (clock s) ch
      in if fst r then socketcan_drain os mem clock (fst (snd r)) else Some (fst (snd r)))"

text \<open>
  The body of \<open>threadProc\<close> for one return of \<open>poll\<close>: \<open>readable\<close> and \<open>woken\<close> are the two descriptors'
  \<open>POLLIN\<close>. The second result tells whether the thread ends.
\<close>

definition socketcan_threadProc_round ::
  "'o can_os \<Rightarrow> ('o \<Rightarrow> bool) \<Rightarrow> ('o \<Rightarrow> u64) \<Rightarrow> bool \<Rightarrow> 'o socketcan_channel \<Rightarrow> ('o socketcan_channel \<times> bool) option" where
  "socketcan_threadProc_round os mem clock readable ch =
     map_option (\<lambda>ch. (ch, sc_event (snd ch))) (if readable then socketcan_drain os mem clock ch else Some ch)"

text \<open>
  The virtual functions of the class. \<open>Open\<close> and \<open>Close\<close> that do not return have no result; the
  entries give \<open>False\<close> and the unchanged object then, and \<open>socketcan_calls_return\<close> shows that it
  does not happen.
\<close>

definition socketcan_vtable :: "'o can_os \<Rightarrow> 'o socketcan_channel ICanChannel" where
  "socketcan_vtable os = backend_vtable socketcan_Init socketcan_DeInit
     (\<lambda>ch. case socketcan_Open os ch of None \<Rightarrow> (False, ch) | Some r \<Rightarrow> r)
     (\<lambda>ch. case socketcan_Close os ch of None \<Rightarrow> (False, ch) | Some r \<Rightarrow> r)
     (socketcan_TransmitMessage os)"


section \<open>The provider\<close>

text \<open>
  \<open>/sys/class\<close>: which paths exist, and what their files hold.
\<close>

record sysfs =
  fs_exists :: "string \<Rightarrow> bool"
  fs_content :: "string \<Rightarrow> string"

definition IsClassExists :: "sysfs \<Rightarrow> string \<Rightarrow> string \<Rightarrow> bool" where
  "IsClassExists fs className elementName =
     fs_exists fs (''/sys/class/'' @ className @ ''/'' @ elementName @ ''/'')"

definition GetClassProperty :: "sysfs \<Rightarrow> string \<Rightarrow> string \<Rightarrow> string \<Rightarrow> int option" where
  "GetClassProperty fs className elementName propertyName =
     (let filepath = ''/sys/class/'' @ className @ ''/'' @ elementName @ ''/'' @ propertyName
      in if fs_exists fs filepath then stoi (fs_content fs filepath) else Some (-1))"

definition socketcan_provider_name :: string where
  "socketcan_provider_name = ''socketcan''"

definition socketcan_name :: "nat \<Rightarrow> string" where
  "socketcan_name can_idx = ''can'' @ show_nat can_idx"

text \<open>The device of one interface; the outer \<open>None\<close> is an exception.\<close>

definition socketcan_devinfo :: "sysfs \<Rightarrow> nat \<Rightarrow> uni_can_devinfo option option" where
  "socketcan_devinfo fs can_idx =
     map_option (\<lambda>can_ifidx.
        if can_ifidx \<ge> 0
        then Some \<lparr>dev_manufacturer = ''Linux'', dev_model = ''SocketCAN'', dev_sn = socketcan_name can_idx,
               dev_provider = socketcan_provider_name, dev_index = nat can_ifidx, dev_chancnt = 1\<rparr>
        else None)
       (GetClassProperty fs ''net'' (socketcan_name can_idx) ''ifindex'')"

text \<open>The loop over the interfaces; \<open>None\<close> when it does not return, \<open>Some None\<close> for an exception.\<close>

partial_function (option) socketcan_devices_loop ::
  "sysfs \<Rightarrow> nat \<Rightarrow> uni_can_devinfo list \<Rightarrow> uni_can_devinfo list option option" where
  "socketcan_devices_loop fs can_idx found =
     (if \<not> IsClassExists fs ''net'' (socketcan_name can_idx) then Some (Some found)
      else
        (case socketcan_devinfo fs can_idx of
           None \<Rightarrow> Some None
         | Some d \<Rightarrow> socketcan_devices_loop fs (can_idx + 1) (found @ (case d of None \<Rightarrow> [] | Some i \<Rightarrow> [i]))))"

definition socketcan_GetDeviceInfo :: "sysfs \<Rightarrow> uni_can_devinfo list option option" where
  "socketcan_GetDeviceInfo fs = socketcan_devices_loop fs 0 []"

definition socketcan_CreateChannel ::
  "'o can_os \<Rightarrow> 'o \<Rightarrow> uni_can_devinfo option \<Rightarrow> nat \<Rightarrow> u32 \<Rightarrow> 'o socketcan_channel channel_object option" where
  "socketcan_CreateChannel os s devInfo channelIdx baudrate =
     (case devInfo of
        None \<Rightarrow> None
      | Some d \<Rightarrow> if baudrate = 0 then None
          else Some (socketcan_vtable os, CanChannelSocketcan s d channelIdx baudrate))"

section \<open>Opening and closing\<close>

text \<open>What an application and the receive thread do with a channel, one operation after another.\<close>

datatype socketcan_op = SOpen | SClose | STransmit uni_can_message | SReceive bool u64

fun socketcan_do :: "'o can_os \<Rightarrow> socketcan_op \<Rightarrow> 'o socketcan_channel \<Rightarrow> 'o socketcan_channel option" where
  "socketcan_do os SOpen ch = map_option snd (socketcan_Open os ch)"
| "socketcan_do os SClose ch = map_option snd (socketcan_Close os ch)"
| "socketcan_do os (STransmit msg) ch = Some (snd (socketcan_TransmitMessage os ch msg))"
| "socketcan_do os (SReceive calloc_ok now) ch =
     Some (if cb_thread (fst ch) then fst (snd (socketcan_threadProcReceive os calloc_ok now ch)) else ch)"

fun socketcan_run :: "'o can_os \<Rightarrow> socketcan_op list \<Rightarrow> 'o socketcan_channel \<Rightarrow> 'o socketcan_channel option" where
  "socketcan_run os [] ch = Some ch"
| "socketcan_run os (p # ps) ch = (case socketcan_do os p ch of None \<Rightarrow> None | Some ch \<Rightarrow> socketcan_run os ps ch)"

text \<open>A thread runs exactly while the channel has its two descriptors, and no stop request waits.\<close>

definition socketcan_ok :: "'o socketcan_channel \<Rightarrow> bool" where
  "socketcan_ok = (\<lambda>(b, x).
     if cb_thread b then sc_thread_started x \<and> 0 \<le> sc_thread_fd x \<and> 0 \<le> sc_fd x \<and> \<not> sc_event x
     else \<not> sc_thread_started x \<and> sc_thread_fd x < 0 \<and> sc_fd x < 0)"

text \<open>
  The documented behaviour of descriptors: opening one gives a new descriptor or a negative number,
  closing one removes it, and nothing else changes which descriptors are open.
\<close>

definition os_fds_ok :: "'o can_os \<Rightarrow> ('o \<Rightarrow> int set) \<Rightarrow> bool" where
  "os_fds_ok os fds \<longleftrightarrow>
     (\<forall>s. (case os_socket os s of (fd, s') \<Rightarrow> if fd < 0 then fds s' = fds s else fd \<notin> fds s \<and> fds s' = insert fd (fds s))) \<and>
     (\<forall>s. (case os_eventfd os s of (fd, s') \<Rightarrow> if fd < 0 then fds s' = fds s else fd \<notin> fds s \<and> fds s' = insert fd (fds s))) \<and>
     (\<forall>s fd. fds (os_close os fd s) = fds s - {fd}) \<and>
     (\<forall>s name. fds (os_can_do_stop os name s) = fds s \<and> fds (os_can_do_start os name s) = fds s) \<and>
     (\<forall>s name n. fds (snd (os_can_set_bitrate os name n s)) = fds s \<and> fds (snd (os_can_set_restart_ms os name n s)) = fds s) \<and>
     (\<forall>s fd i. fds (snd (os_bind os fd i s)) = fds s) \<and>
     (\<forall>s fd l. fds (os_set_loopback os fd l s) = fds s \<and> fds (os_set_nonblock os fd s) = fds s \<and> fds (os_shutdown os fd s) = fds s) \<and>
     (\<forall>s fd f. fds (snd (os_write os fd f s)) = fds s \<and> fds (snd (os_read os fd s)) = fds s)"

text \<open>The descriptors a channel holds, beside those (\<open>others\<close>) of the rest of the program.\<close>

definition socketcan_holds :: "('o \<Rightarrow> int set) \<Rightarrow> int set \<Rightarrow> 'o socketcan_channel \<Rightarrow> bool" where
  "socketcan_holds fds others = (\<lambda>(b, x).
     if cb_thread b then fds (sc_os x) = others \<union> {sc_fd x, sc_thread_fd x} \<and> sc_fd x \<notin> others \<and> sc_thread_fd x \<notin> others
     else fds (sc_os x) = others)"

lemma os_fds_opened:
  assumes "os_fds_ok os fds"
  shows "os_socket os s = (fd, s') \<Longrightarrow> if fd < 0 then fds s' = fds s else fd \<notin> fds s \<and> fds s' = insert fd (fds s)"
    and "os_eventfd os s = (fd, s') \<Longrightarrow> if fd < 0 then fds s' = fds s else fd \<notin> fds s \<and> fds s' = insert fd (fds s)"
proof -
  note parts = assms [unfolded os_fds_ok_def]
  note parts [THEN conjunct1, THEN spec, of s] parts [THEN conjunct2, THEN conjunct1, THEN spec, of s]
  then
  show "os_socket os s = (fd, s') \<Longrightarrow> if fd < 0 then fds s' = fds s else fd \<notin> fds s \<and> fds s' = insert fd (fds s)"
    "os_eventfd os s = (fd, s') \<Longrightarrow> if fd < 0 then fds s' = fds s else fd \<notin> fds s \<and> fds s' = insert fd (fds s)"
    by simp_all
qed

lemma socketcan_new_ok: "socketcan_ok (CanChannelSocketcan s d idx baudrate)"
  by (simp add: socketcan_ok_def CanChannelSocketcan_def)

lemma configure_fds: "os_fds_ok os fds \<Longrightarrow> fds (snd (socketcan_configure os x s)) = fds s"
  by (simp add: socketcan_configure_def os_fds_ok_def Let_def split_beta split: option.split)

lemma connect_outcomes:
  assumes "sc_fd x < 0" "sc_thread_fd x < 0" "socketcan_connect os x = (ok, x')"
  shows "sc_thread_started x' = sc_thread_started x \<and>
    (if ok then 0 \<le> sc_fd x' \<and> 0 \<le> sc_thread_fd x' \<and> \<not> sc_event x' else sc_fd x' < 0 \<and> sc_thread_fd x' < 0)"
  using assms by (auto simp: socketcan_connect_def Let_def split_beta split: if_splits)

lemma connect_fds:
  assumes os: "os_fds_ok os fds" and neg: "sc_fd x < 0" and run: "socketcan_connect os x = (ok, x')"
    and pos: "\<forall>d\<in>fds (sc_os x). 0 \<le> d"
  shows "if ok then fds (sc_os x') = fds (sc_os x) \<union> {sc_fd x', sc_thread_fd x'} \<and>
      sc_fd x' \<notin> fds (sc_os x) \<and> sc_thread_fd x' \<notin> fds (sc_os x)
    else fds (sc_os x') = fds (sc_os x)"
proof -
  obtain fd s where sock: "os_socket os (sc_os x) = (fd, s)" by (cases "os_socket os (sc_os x)")
  obtain bound s1 where bind: "os_bind os fd (dev_index (sc_info_dev x)) s = (bound, s1)"
    by (cases "os_bind os fd (dev_index (sc_info_dev x)) s")
  let ?s2 = "os_set_nonblock os fd (os_set_loopback os fd False s1)"
  obtain tfd s3 where event: "os_eventfd os ?s2 = (tfd, s3)" by (cases "os_eventfd os ?s2")
  have f: "fds s = (if fd < 0 then fds (sc_os x) else insert fd (fds (sc_os x)))" "0 \<le> fd \<Longrightarrow> fd \<notin> fds (sc_os x)"
    using os_fds_opened(1) [OF os sock] by (simp_all split: if_splits)
  have f1: "fds s1 = fds s"
    using os bind by (metis os_fds_ok_def snd_conv)
  have f2: "fds ?s2 = fds s"
    using os f1 by (simp add: os_fds_ok_def)
  have f3: "if tfd < 0 then fds s3 = fds s else tfd \<notin> fds s \<and> fds s3 = insert tfd (fds s)"
    using os_fds_opened(2) [OF os event] unfolding f2 .
  have closed: "fds (os_close os d t) = fds t - {d}" for d t
    using os by (simp add: os_fds_ok_def)
  have x': "(ok, x') =
    (if fd < 0 then (False, x\<lparr>sc_fd := fd, sc_os := s\<rparr>)
     else if \<not> bound then (False, x\<lparr>sc_fd := -1, sc_os := os_close os fd s1\<rparr>)
     else if tfd < 0 then (False, x\<lparr>sc_fd := -1, sc_os := os_close os fd s3, sc_thread_fd := tfd, sc_event := False\<rparr>)
     else (True, x\<lparr>sc_fd := fd, sc_os := s3, sc_thread_fd := tfd, sc_event := False\<rparr>))"
    unfolding run [symmetric] using neg by (simp add: socketcan_connect_def sock bind event Let_def)
  consider "fd < 0" "\<not> ok" "x' = x\<lparr>sc_fd := fd, sc_os := s\<rparr>"
    | t where "0 \<le> fd" "\<not> ok" "sc_os x' = os_close os fd t" "fds t = fds s"
    | "0 \<le> fd" "0 \<le> tfd" "ok" "sc_os x' = s3" "sc_fd x' = fd" "sc_thread_fd x' = tfd"
    using x' f1 f3 by (cases "fd < 0"; cases bound; cases "tfd < 0") simp_all
  then show ?thesis
  proof cases
    case 1
    with f show ?thesis by simp
  next
    case 2
    with f show ?thesis by (simp add: closed)
  next
    case 3
    with f f3 show ?thesis by auto
  qed
qed

lemma socketcan_stop_ok:
  assumes "socketcan_ok (b, x)"
  shows "\<exists>r b' x'. socketcan_threadStop (b, x) = Some (r, (b', x')) \<and> \<not> cb_thread b' \<and> \<not> sc_thread_started x' \<and>
    cb_receive_queue b' = cb_receive_queue b \<and> sc_fd x' = sc_fd x \<and> sc_thread_fd x' = sc_thread_fd x \<and> sc_os x' = sc_os x"
  using assms by (auto simp: socketcan_threadStop_def socketcan_ok_def threadStop_def Let_def)

lemma socketcan_open_ok:
  assumes "socketcan_ok ch"
  shows "\<exists>r ch'. socketcan_Open os ch = Some (r, ch') \<and> socketcan_ok ch' \<and>
    (os_fds_ok os fds \<and> socketcan_holds fds others ch \<and> (\<forall>d\<in>others. 0 \<le> d) \<longrightarrow> socketcan_holds fds others ch')"
proof -
  obtain b x where ch: "ch = (b, x)" by (cases ch)
  obtain okc s where conf: "socketcan_configure os x (sc_os x) = (okc, s)" by (cases "socketcan_configure os x (sc_os x)")
  let ?x = "x\<lparr>sc_os := s\<rparr>"
  let ?b = "b\<lparr>cb_receive_queue := sq_clear (cb_receive_queue b)\<rparr>"
  obtain ok x' where conn: "socketcan_connect os ?x = (ok, x')" by (cases "socketcan_connect os ?x")
  have fdss: "os_fds_ok os fds \<Longrightarrow> fds s = fds (sc_os x)"
    using configure_fds [of os fds x "sc_os x"] conf by simp
  have keep: "socketcan_ok (?b, ?x)"
    "os_fds_ok os fds \<Longrightarrow> socketcan_holds fds others (b, x) \<Longrightarrow> socketcan_holds fds others (?b, ?x)"
    using assms fdss by (auto simp: ch socketcan_ok_def socketcan_holds_def)
  consider (noconf) "\<not> okc" | (again) "okc" "cb_thread b" | (noconn) "okc" "\<not> cb_thread b" "\<not> ok"
    | (conn) "okc" "\<not> cb_thread b" "ok"
    by blast
  then show ?thesis
  proof cases
    case noconf
    then have "socketcan_Open os ch = Some (False, (?b, ?x))"
      by (simp add: ch socketcan_Open_def conf)
    with keep show ?thesis
      unfolding ch by blast
  next
    case again
    then have "0 \<le> sc_fd x"
      using assms by (simp add: ch socketcan_ok_def)
    then have "socketcan_connect os ?x = (False, ?x)"
      by (simp add: socketcan_connect_def)
    with again have "socketcan_Open os ch = Some (False, (?b, ?x))"
      by (simp add: ch socketcan_Open_def conf)
    with keep show ?thesis
      unfolding ch by blast
  next
    case noconn
    then have closed: "sc_fd ?x < 0" "sc_thread_fd ?x < 0" "\<not> sc_thread_started x"
      using assms by (simp_all add: ch socketcan_ok_def)
    have "socketcan_Open os ch = Some (False, (?b, x'))"
      using noconn by (simp add: ch socketcan_Open_def conf conn)
    moreover have "socketcan_ok (?b, x')"
      using noconn connect_outcomes [OF closed(1,2) conn] closed(3) by (simp add: socketcan_ok_def)
    moreover have "socketcan_holds fds others (?b, x')"
      if "os_fds_ok os fds" "socketcan_holds fds others ch" "\<forall>d\<in>others. 0 \<le> d"
      using noconn connect_fds [OF that(1) closed(1) conn] that fdss by (simp add: ch socketcan_holds_def)
    ultimately show ?thesis by blast
  next
    case conn
    then have closed: "sc_fd ?x < 0" "sc_thread_fd ?x < 0" "\<not> sc_thread_started x"
      using assms by (simp_all add: ch socketcan_ok_def)
    note outcome = connect_outcomes [OF closed(1,2) \<open>socketcan_connect os ?x = (ok, x')\<close>]
    let ?b' = "?b\<lparr>cb_thread_abort := False, cb_thread := True\<rparr>"
    let ?x' = "x'\<lparr>sc_thread_started := True\<rparr>"
    have started: "\<not> sc_thread_started x'"
      using outcome closed(3) by simp
    have "socketcan_threadStart (?b, x') = Some (True, (?b', x'\<lparr>sc_thread_started := False\<rparr>))"
      using conn started by (simp add: socketcan_threadStart_def socketcan_threadStop_def threadStop_def)
    then have "socketcan_Open os ch = Some (True, (?b', ?x'))"
      using conn by (simp add: ch socketcan_Open_def conf \<open>socketcan_connect os ?x = (ok, x')\<close>)
    moreover have "socketcan_ok (?b', ?x')"
      using conn outcome by (simp add: socketcan_ok_def)
    moreover have "socketcan_holds fds others (?b', ?x')"
      if "os_fds_ok os fds" "socketcan_holds fds others ch" "\<forall>d\<in>others. 0 \<le> d"
      using conn connect_fds [OF that(1) closed(1) \<open>socketcan_connect os ?x = (ok, x')\<close>] that fdss
      by (simp add: ch socketcan_holds_def)
    ultimately show ?thesis by blast
  qed
qed

lemma socketcan_close_ok:
  assumes "socketcan_ok ch"
  shows "\<exists>ch'. socketcan_Close os ch = Some (True, ch') \<and> socketcan_ok ch' \<and> \<not> cb_thread (fst ch') \<and>
    (os_fds_ok os fds \<and> socketcan_holds fds others ch \<and> (\<forall>d\<in>others. 0 \<le> d) \<longrightarrow> socketcan_holds fds others ch')"
proof -
  obtain b x where ch: "ch = (b, x)" by (cases ch)
  obtain r b' x' where stop: "socketcan_threadStop (b, x) = Some (r, (b', x'))" "\<not> cb_thread b'" "\<not> sc_thread_started x'"
    "sc_fd x' = sc_fd x" "sc_thread_fd x' = sc_thread_fd x" "sc_os x' = sc_os x"
    using socketcan_stop_ok [of b x] assms ch by blast
  define t where "t = (if sc_thread_fd x \<ge> 0 then os_close os (sc_thread_fd x) (sc_os x) else sc_os x)"
  define ch' where "ch' = (b'\<lparr>cb_receive_queue := sq_clear (cb_receive_queue b')\<rparr>,
    x'\<lparr>sc_thread_fd := (if sc_thread_fd x \<ge> 0 then -1 else sc_thread_fd x), sc_fd := -1,
       sc_os := os_close os (sc_fd x) (os_shutdown os (sc_fd x) t)\<rparr>)"
  have run: "socketcan_Close os ch = Some (True, ch')"
    using stop by (simp add: ch socketcan_Close_def ch'_def t_def Let_def)
  moreover have "socketcan_ok ch'" "\<not> cb_thread (fst ch')"
    using assms stop by (auto simp: ch ch'_def socketcan_ok_def split: if_splits)
  moreover have "socketcan_holds fds others ch'"
    if os: "os_fds_ok os fds" and held: "socketcan_holds fds others ch" and pos: "\<forall>d\<in>others. 0 \<le> d"
  proof -
    have fds: "fds (os_close os d s) = fds s - {d}" "fds (os_shutdown os d s) = fds s" for d s
      using os by (simp_all add: os_fds_ok_def)
    have "fds (os_close os (sc_fd x) (os_shutdown os (sc_fd x) t)) = others"
      using assms held pos by (cases "cb_thread b") (auto simp: ch socketcan_ok_def socketcan_holds_def fds t_def)
    with stop(2) show ?thesis
      by (simp add: ch'_def socketcan_holds_def)
  qed
  ultimately show ?thesis by blast
qed

lemma socketcan_transmit_ok:
  "socketcan_ok ch \<Longrightarrow> socketcan_ok (snd (socketcan_TransmitMessage os ch msg))"
  "os_fds_ok os fds \<Longrightarrow> socketcan_holds fds others ch \<Longrightarrow>
    socketcan_holds fds others (snd (socketcan_TransmitMessage os ch msg))"
  by (cases ch; auto simp: socketcan_TransmitMessage_def socketcan_ok_def socketcan_holds_def os_fds_ok_def split_beta
      Let_def split: if_splits)+

lemma deliver_thread [simp]: "cb_thread (fst (channel_deliver m b)) = cb_thread b"
  by (simp add: channel_deliver_def Let_def)

text \<open>One round of receiving: what it does to the queue, and that it leaves everything else.\<close>

definition socketcan_accepts :: "can_frame \<Rightarrow> bool" where
  "socketcan_accepts frame \<longleftrightarrow> cf_can_id frame AND CAN_ERR_FLAG = 0"

lemma receive_round:
  assumes "os_read os (sc_fd x) (sc_os x) = (r, s)"
  shows "socketcan_threadProcReceive os calloc_ok now (b, x) =
    (r \<noteq> None,
     (case r of Some f \<Rightarrow> if socketcan_accepts f \<and> calloc_ok then fst (channel_deliver (socketcan_message now f) b) else b
              | None \<Rightarrow> b, x\<lparr>sc_os := s\<rparr>),
     case r of Some f \<Rightarrow> if socketcan_accepts f \<and> calloc_ok then snd (channel_deliver (socketcan_message now f) b) else None
             | None \<Rightarrow> None)"
  using assms
  by (simp add: socketcan_threadProcReceive_def socketcan_accepts_def Let_def split_beta split: option.split)

lemma socketcan_receive_ok:
  "socketcan_ok ch \<Longrightarrow> socketcan_ok (fst (snd (socketcan_threadProcReceive os calloc_ok now ch)))"
  "os_fds_ok os fds \<Longrightarrow> socketcan_holds fds others ch \<Longrightarrow>
    socketcan_holds fds others (fst (snd (socketcan_threadProcReceive os calloc_ok now ch)))"
proof -
  obtain b x where ch: "ch = (b, x)" by (cases ch)
  obtain r s where read: "os_read os (sc_fd x) (sc_os x) = (r, s)" by (cases "os_read os (sc_fd x) (sc_os x)")
  have same: "cb_thread (case r of Some f \<Rightarrow> if socketcan_accepts f \<and> calloc_ok
      then fst (channel_deliver (socketcan_message now f) b) else b | None \<Rightarrow> b) = cb_thread b"
    by (simp split: option.split)
  show "socketcan_ok ch \<Longrightarrow> socketcan_ok (fst (snd (socketcan_threadProcReceive os calloc_ok now ch)))"
    unfolding ch receive_round [OF read] by (simp add: socketcan_ok_def same)
  have "os_fds_ok os fds \<Longrightarrow> fds s = fds (sc_os x)"
    using read by (metis os_fds_ok_def snd_conv)
  then show "os_fds_ok os fds \<Longrightarrow> socketcan_holds fds others ch \<Longrightarrow>
    socketcan_holds fds others (fst (snd (socketcan_threadProcReceive os calloc_ok now ch)))"
    unfolding ch receive_round [OF read] by (simp add: socketcan_holds_def same)
qed

lemma socketcan_do_ok:
  assumes "socketcan_ok ch"
  shows "\<exists>ch'. socketcan_do os p ch = Some ch' \<and> socketcan_ok ch' \<and>
    (os_fds_ok os fds \<and> socketcan_holds fds others ch \<and> (\<forall>d\<in>others. 0 \<le> d) \<longrightarrow> socketcan_holds fds others ch')"
proof (cases p)
  case SOpen
  with socketcan_open_ok [OF assms, of os fds others] show ?thesis by fastforce
next
  case SClose
  with socketcan_close_ok [OF assms, of os fds others] show ?thesis by fastforce
next
  case STransmit
  with socketcan_transmit_ok [where ch = ch] assms show ?thesis by simp
next
  case SReceive
  with socketcan_receive_ok [where ch = ch] assms show ?thesis by simp
qed

lemma socketcan_run_ok:
  assumes "socketcan_ok ch"
  shows "\<exists>ch'. socketcan_run os ps ch = Some ch' \<and> socketcan_ok ch' \<and>
    (os_fds_ok os fds \<and> socketcan_holds fds others ch \<and> (\<forall>d\<in>others. 0 \<le> d) \<longrightarrow> socketcan_holds fds others ch')"
  using assms
proof (induction ps arbitrary: ch)
  case (Cons p ps)
  from socketcan_do_ok [OF Cons.prems, of os p fds others]
  obtain ch1 where step: "socketcan_do os p ch = Some ch1" "socketcan_ok ch1"
    "os_fds_ok os fds \<and> socketcan_holds fds others ch \<and> (\<forall>d\<in>others. 0 \<le> d) \<longrightarrow> socketcan_holds fds others ch1"
    by blast
  with Cons.IH [OF step(2)] show ?case
    by fastforce
qed simp

lemma socketcan_run_returns:
  "\<exists>ch. socketcan_run os ps (CanChannelSocketcan s devInfo idx baudrate) = Some ch \<and> socketcan_ok ch"
  using socketcan_run_ok [OF socketcan_new_ok, of os ps s devInfo idx baudrate "\<lambda>_. {}" "{}"] by blast

text \<open>
  No call on a SocketCAN channel waits for the receive thread forever: whatever an application
  does with a channel, however the system answers, and whatever the thread has received, opening and
  closing return, because the descriptor that wakes the thread up exists as long as the thread.
\<close>

theorem socketcan_calls_return:
  "\<exists>ch. socketcan_run os ps (CanChannelSocketcan s devInfo idx baudrate) = Some ch \<and>
    (\<exists>r. socketcan_Open os ch = Some r) \<and> (\<exists>r. socketcan_Close os ch = Some r) \<and>
    (cb_thread (fst ch) \<longleftrightarrow> 0 \<le> sc_fd (snd ch)) \<and> (cb_thread (fst ch) \<longleftrightarrow> 0 \<le> sc_thread_fd (snd ch))"
proof -
  obtain ch where ch: "socketcan_run os ps (CanChannelSocketcan s devInfo idx baudrate) = Some ch" "socketcan_ok ch"
    using socketcan_run_returns [of os ps s devInfo idx baudrate] by blast
  have "cb_thread (fst ch) \<longleftrightarrow> 0 \<le> sc_fd (snd ch)" "cb_thread (fst ch) \<longleftrightarrow> 0 \<le> sc_thread_fd (snd ch)"
    using ch(2) by (cases ch; simp add: socketcan_ok_def split: if_splits)+
  with ch show ?thesis
    using socketcan_open_ok [OF ch(2), of os "\<lambda>_. {}" "{}"] socketcan_close_ok [OF ch(2), of os "\<lambda>_. {}" "{}"] by blast
qed

text \<open>
  C31. A SocketCAN channel leaks no descriptor: after any operations on a new channel the process has
  the descriptors it had before and, exactly while the channel is open, its socket and its event
  descriptor, and closing takes both away. Failures on the way of opening give back what they took.
\<close>

theorem socketcan_keeps_descriptors:
  assumes os: "os_fds_ok os fds" and pos: "\<forall>d\<in>fds s. 0 \<le> d"
    and run: "socketcan_run os ps (CanChannelSocketcan s devInfo idx baudrate) = Some ch"
  shows "fds (sc_os (snd ch)) = fds s \<union> (if cb_thread (fst ch) then {sc_fd (snd ch), sc_thread_fd (snd ch)} else {}) \<and>
    (\<exists>ch'. socketcan_Close os ch = Some (True, ch') \<and> fds (sc_os (snd ch')) = fds s)"
proof -
  have "socketcan_holds fds (fds s) (CanChannelSocketcan s devInfo idx baudrate)"
    by (simp add: socketcan_holds_def CanChannelSocketcan_def)
  moreover obtain ch0 where ch0: "socketcan_run os ps (CanChannelSocketcan s devInfo idx baudrate) = Some ch0"
    "socketcan_ok ch0" "os_fds_ok os fds \<and> socketcan_holds fds (fds s) (CanChannelSocketcan s devInfo idx baudrate) \<and>
      (\<forall>d\<in>fds s. 0 \<le> d) \<longrightarrow> socketcan_holds fds (fds s) ch0"
    using socketcan_run_ok [OF socketcan_new_ok, of os ps s devInfo idx baudrate fds "fds s"] by blast
  moreover have "ch0 = ch"
    using ch0(1) run by simp
  ultimately have ch: "socketcan_ok ch" "socketcan_holds fds (fds s) ch"
    using os pos by simp_all
  obtain ch' where close: "socketcan_Close os ch = Some (True, ch')" "\<not> cb_thread (fst ch')" "socketcan_holds fds (fds s) ch'"
    using socketcan_close_ok [OF ch(1), of os fds "fds s"] os pos ch(2) by blast
  then have "fds (sc_os (snd ch')) = fds s"
    by (cases ch') (simp add: socketcan_holds_def)
  with close(1) ch(2) show ?thesis
    by (cases ch) (simp add: socketcan_holds_def)
qed

text \<open>A system for examples: its state is the open descriptors and the frames that wait in the socket.\<close>

type_synonym example_os = "int list \<times> can_frame list"

definition example_can_os :: "example_os can_os" where
  "example_can_os = \<lparr>os_can_do_stop = (\<lambda>_ s. s), os_can_get_bitrate = (\<lambda>_ _. 0), os_can_set_bitrate = (\<lambda>_ _ s. (True, s)),
     os_can_get_restart_ms = (\<lambda>_ _. None), os_can_set_restart_ms = (\<lambda>_ _ s. (True, s)), os_can_do_start = (\<lambda>_ s. s),
     os_socket = (\<lambda>(fds, rx). if 3 \<in> set fds then (-1, (fds, rx)) else (3, (3 # fds, rx))),
     os_bind = (\<lambda>_ _ s. (True, s)), os_set_loopback = (\<lambda>_ _ s. s), os_set_nonblock = (\<lambda>_ s. s),
     os_eventfd = (\<lambda>(fds, rx). if 4 \<in> set fds then (-1, (fds, rx)) else (4, (4 # fds, rx))),
     os_shutdown = (\<lambda>_ s. s), os_close = (\<lambda>fd (fds, rx). (removeAll fd fds, rx)),
     os_write = (\<lambda>_ f (fds, rx). (True, (fds, rx @ [f]))),
     os_read = (\<lambda>_ (fds, rx). case rx of [] \<Rightarrow> (None, (fds, rx)) | f # fs \<Rightarrow> (Some f, (fds, fs)))\<rparr>"

lemma example_can_os_fds: "os_fds_ok example_can_os (set \<circ> fst)"
  by (auto simp: os_fds_ok_def example_can_os_def split_beta split: list.split)

theorem socketcan_keeps_descriptors_witness:
  "\<exists>ch. socketcan_run example_can_os [SOpen, SClose, SOpen] (CanChannelSocketcan ([0, 1], []) example_device 0 500000) = Some ch \<and>
    set (fst (sc_os (snd ch))) = {0, 1, 3, 4}"
proof -
  obtain ch where run: "socketcan_run example_can_os [SOpen, SClose, SOpen]
      (CanChannelSocketcan ([0, 1], []) example_device 0 500000) = Some ch"
    using socketcan_run_returns [of example_can_os "[SOpen, SClose, SOpen]" "([0, 1], [])" example_device 0 500000] by blast
  have "map_option (\<lambda>ch. (cb_thread (fst ch), sc_fd (snd ch), sc_thread_fd (snd ch)))
      (socketcan_run example_can_os [SOpen, SClose, SOpen] (CanChannelSocketcan ([0, 1], []) example_device 0 500000)) =
    Some (True, 3, 4)"
    by code_simp
  then have opened: "cb_thread (fst ch)" "sc_fd (snd ch) = 3" "sc_thread_fd (snd ch) = 4"
    unfolding run by simp_all
  show ?thesis
    using socketcan_keeps_descriptors [OF example_can_os_fds _ run] run opened by auto
qed


section \<open>Frames on the bus\<close>

text \<open>
  An extended message of at most eight bytes that goes out on one socket comes in on another
  as the same message. A standard message arrives with its identifier, length and data, but with no
  flag that says what kind of frame it was: \<open>socketcan_message\<close> sets none, so sending on what was
  received, as a gateway does, gives a frame with identifier 0.
\<close>

theorem socketcan_frame_roundtrip:
  assumes "cm_data m = Inline bs" "unat (cm_len m) \<le> 8"
  shows "(cm_flags m = UNI_CAN_MSG_FLAG_EXT_ID \<and> cm_id m AND CAN_EFF_MASK = cm_id m \<longrightarrow>
      socketcan_message t (socketcan_frame m) = m\<lparr>cm_time_us := t\<rparr>) \<and>
    (cm_flags m = UNI_CAN_MSG_FLAG_STD_ID \<and> cm_id m AND CAN_SFF_MASK = cm_id m \<longrightarrow>
      socketcan_message t (socketcan_frame m) = m\<lparr>cm_time_us := t, cm_flags := 0\<rparr> \<and>
      cf_can_id (socketcan_frame (socketcan_message t (socketcan_frame m))) = 0)"
proof -
  have len: "ucast (ucast (cm_len m) :: u8) = cm_len m"
  proof -
    have "unat (ucast (cm_len m) :: u8) = unat (cm_len m)"
      using assms(2) by (simp add: unsigned_ucast_eq take_bit_nat_eq_self)
    then show ?thesis
      by (metis unat_ucast_u8_u16 unsigned_word_eqI)
  qed
  have eff: "(w OR CAN_EFF_FLAG) AND CAN_EFF_FLAG \<noteq> 0" "(w OR CAN_EFF_FLAG) AND CAN_EFF_MASK = w AND CAN_EFF_MASK" for w
    by (simp_all add: can_id_defs bit.conj_disj_distrib2)
  have sff: "(w AND CAN_SFF_MASK) AND CAN_EFF_FLAG = 0" "(w AND CAN_SFF_MASK) AND CAN_SFF_MASK = w AND CAN_SFF_MASK" for w
    by (simp_all add: can_id_defs and.assoc)
  have nonzero: "CAN_EFF_FLAG \<noteq> 0"
    by (simp add: CAN_EFF_FLAG_def)
  have "socketcan_message t (socketcan_frame m) = m\<lparr>cm_time_us := t\<rparr>"
    if ext: "cm_flags m = UNI_CAN_MSG_FLAG_EXT_ID" and fits: "cm_id m AND CAN_EFF_MASK = cm_id m"
  proof -
    have frame: "socketcan_frame m = \<lparr>cf_can_id = cm_id m OR CAN_EFF_FLAG, cf_can_dlc = ucast (cm_len m), cf_data = bs\<rparr>"
      using fits by (simp add: socketcan_frame_def ext assms(1)) (simp add: can_flag_defs)
    show ?thesis
      by (rule uni_can_message.equality)
        (simp_all add: frame socketcan_message_def eff nonzero fits ext assms(1) len)
  qed
  moreover have "socketcan_message t (socketcan_frame m) = m\<lparr>cm_time_us := t, cm_flags := 0\<rparr>"
    if std: "cm_flags m = UNI_CAN_MSG_FLAG_STD_ID" and fits: "cm_id m AND CAN_SFF_MASK = cm_id m"
  proof -
    have frame: "socketcan_frame m = \<lparr>cf_can_id = cm_id m AND CAN_SFF_MASK, cf_can_dlc = ucast (cm_len m), cf_data = bs\<rparr>"
      by (simp add: socketcan_frame_def std assms(1)) (simp add: can_flag_defs)
    show ?thesis
      by (rule uni_can_message.equality)
        (simp_all add: frame socketcan_message_def sff nonzero, simp_all add: fits assms(1) len nonzero)
  qed
  ultimately show ?thesis
    by (simp add: socketcan_frame_def [of "m\<lparr>cm_time_us := t, cm_flags := 0\<rparr>"])
qed


definition socketcan_example_msg :: uni_can_message where
  "socketcan_example_msg = can_message_zero\<lparr>cm_id := 0x123, cm_flags := UNI_CAN_MSG_FLAG_STD_ID, cm_len := 2\<rparr>"

theorem socketcan_frame_roundtrip_witness:
  "cf_can_id (socketcan_frame (socketcan_message 0 (socketcan_frame socketcan_example_msg))) = 0"
proof -
  have "cm_data socketcan_example_msg = Inline (replicate 8 0)" "unat (cm_len socketcan_example_msg) \<le> 8"
    "cm_flags socketcan_example_msg = UNI_CAN_MSG_FLAG_STD_ID"
    "cm_id socketcan_example_msg AND CAN_SFF_MASK = cm_id socketcan_example_msg"
    by (simp_all add: socketcan_example_msg_def can_message_zero_def UNI_CAN_MESSAGE_MAXLEN_def CAN_SFF_MASK_def)
  with socketcan_frame_roundtrip [OF this(1,2)] show ?thesis
    by blast
qed


section \<open>From the socket to the application\<close>

text \<open>
  What reading the socket gives until it gives no frame: each frame, with whether there is memory for
  a message at that moment and with the time.
\<close>

inductive socket_reads ::
  "'o can_os \<Rightarrow> ('o \<Rightarrow> bool) \<Rightarrow> ('o \<Rightarrow> u64) \<Rightarrow> int \<Rightarrow> 'o \<Rightarrow> (can_frame \<times> bool \<times> u64) list \<Rightarrow> bool"
  for os mem clock fd where
  socket_empty: "os_read os fd s = (None, s') \<Longrightarrow> socket_reads os mem clock fd s []"
| socket_frame: "os_read os fd s = (Some f, s') \<Longrightarrow> socket_reads os mem clock fd s' fs \<Longrightarrow>
    socket_reads os mem clock fd s ((f, mem s, clock s) # fs)"

text \<open>The messages of these frames: error frames are left out, and a frame without memory is lost.\<close>

definition socket_messages :: "(can_frame \<times> bool \<times> u64) list \<Rightarrow> uni_can_message list" where
  "socket_messages reads =
     map (\<lambda>(f, _, now). socketcan_message now f) (filter (\<lambda>(f, calloc_ok, _). socketcan_accepts f \<and> calloc_ok) reads)"

lemma deliver_all_Cons:
  "fst (channel_deliver_all (m # ms) b) = fst (channel_deliver_all ms (fst (channel_deliver m b)))"
  by (simp add: split_beta Let_def)

lemma socketcan_drain_frames:
  assumes "socket_reads os mem clock fd s reads" "sc_fd x = fd" "sc_os x = s"
  shows "\<exists>s'. socketcan_drain os mem clock (b, x) =
      Some (fst (channel_deliver_all (socket_messages reads) b), x\<lparr>sc_os := s'\<rparr>)"
  using assms
proof (induction arbitrary: b x rule: socket_reads.induct)
  case (socket_empty s s')
  then have "socketcan_drain os mem clock (b, x) = Some (b, x\<lparr>sc_os := s'\<rparr>)"
    by (subst socketcan_drain.simps) (simp add: receive_round [where r = None])
  then show ?case
    by (auto simp: socket_messages_def)
next
  case (socket_frame s f s' fs)
  let ?x = "x\<lparr>sc_os := s'\<rparr>"
  let ?b = "if socketcan_accepts f \<and> mem s then fst (channel_deliver (socketcan_message (clock s) f) b) else b"
  have step: "socketcan_drain os mem clock (b, x) = socketcan_drain os mem clock (?b, ?x)"
    using socket_frame.hyps(1) socket_frame.prems
    by (subst socketcan_drain.simps) (simp add: receive_round [where r = "Some f"])
  have deliver: "fst (channel_deliver_all (socket_messages fs) ?b) =
      fst (channel_deliver_all (socket_messages ((f, mem s, clock s) # fs)) b)"
    by (simp del: channel_deliver_all.simps add: deliver_all_Cons socket_messages_def)
  obtain s2 where "socketcan_drain os mem clock (?b, ?x) =
      Some (fst (channel_deliver_all (socket_messages fs) ?b), ?x\<lparr>sc_os := s2\<rparr>)"
    using socket_frame.IH [of ?x ?b] socket_frame.prems(1) by auto
  moreover have "?x\<lparr>sc_os := s2\<rparr> = x\<lparr>sc_os := s2\<rparr>"
    by simp
  ultimately show ?case
    unfolding step by (metis deliver)
qed

text \<open>The adapter of a SocketCAN channel after the receive thread has run.\<close>

definition socketcan_adapter ::
  "'o can_os \<Rightarrow> 'o socketcan_channel \<Rightarrow> ('o socketcan_channel, 'f, unit) CanChannelAdapter option" where
  "socketcan_adapter os ch = CanChannelAdapt (socketcan_vtable os) () (Some ch)"

text \<open>
  C25. What waits in the socket when the receive thread wakes up reaches the application, as far as
  there is memory: when reading the socket gives a finite number of frames, the thread's round returns,
  and polling the channel through \<open>uni_can_channel_receive\<close> gives the messages that were in the queue
  before and then those of the frames, each once, in the order they arrived and with the time of their
  arrival. Left out are exactly the error frames and the frames for which \<open>uni_can_message_create\<close>
  found no memory at that moment.
\<close>

theorem socketcan_delivers_in_order:
  assumes "socket_reads os mem clock (sc_fd x) (sc_os x) reads" "\<not> ad_deleted a" "ad_vtable a = socketcan_vtable os"
    and "ad_channel a = (b, x)" "msgs = cb_receive_queue b @ socket_messages reads"
  shows "\<exists>ch. socketcan_threadProc_round os mem clock True (b, x) = Some (ch, sc_event x) \<and>
    (\<exists>a'. channel_receive_n adapter_ops_of (length msgs) (Some (a\<lparr>ad_channel := ch\<rparr>)) = (map Some msgs, Some a'))"
proof -
  obtain s' where drain: "socketcan_drain os mem clock (b, x) =
      Some (fst (channel_deliver_all (socket_messages reads) b), x\<lparr>sc_os := s'\<rparr>)"
    using socketcan_drain_frames [OF assms(1) refl refl] by blast
  let ?ch = "(fst (channel_deliver_all (socket_messages reads) b), x\<lparr>sc_os := s'\<rparr>)"
  have "backend_live (a\<lparr>ad_channel := ?ch\<rparr>)"
    using assms(2,3) by (simp add: backend_live_def socketcan_vtable_def backend_vtable_def)
  moreover have "backend_pending (a\<lparr>ad_channel := ?ch\<rparr>) = msgs"
    by (simp add: backend_pending_def channel_deliver_all_queue assms(5))
  moreover have "socketcan_threadProc_round os mem clock True (b, x) = Some (?ch, sc_event x)"
    by (simp add: socketcan_threadProc_round_def drain)
  ultimately show ?thesis
    using adapted.receive_all_in_order [of "a\<lparr>ad_channel := ?ch\<rparr>"] by auto
qed

text \<open>Two frames, of which the second finds no memory.\<close>

theorem socketcan_delivers_in_order_witness:
  "\<exists>a :: (example_os socketcan_channel, unit, unit) CanChannelAdapter.
    \<exists>ch a'. socketcan_threadProc_round example_can_os (\<lambda>s. length (snd s) = 2) (\<lambda>_. 7) True (ad_channel a) = Some (ch, False) \<and>
    channel_receive_n adapter_ops_of 1 (Some (a\<lparr>ad_channel := ch\<rparr>)) =
      ([Some (socketcan_message 7 (socketcan_frame socketcan_example_msg))], Some a')"
proof -
  let ?f = "socketcan_frame socketcan_example_msg" and ?mem = "\<lambda>s :: example_os. length (snd s) = 2" and ?clock = "\<lambda>s :: example_os. 7 :: u64"
  let ?ch = "CanChannelSocketcan ([3, 4], [?f, ?f]) example_device 0 500000 :: example_os socketcan_channel"
  let ?a = "\<lparr>ad_vtable = socketcan_vtable example_can_os, ad_channel = ?ch, ad_receive_func = None, ad_receive_cookie = (),
    ad_deleted = False\<rparr> :: (example_os socketcan_channel, unit, unit) CanChannelAdapter"
  have "socket_reads example_can_os ?mem ?clock fd ([3, 4], [?f, ?f])
      [(?f, ?mem ([3, 4], [?f, ?f]), 7), (?f, ?mem ([3, 4], [?f]), 7)]" for fd
    by (rule socket_frame, simp add: example_can_os_def)+ (rule socket_empty, simp add: example_can_os_def)
  then have reads: "socket_reads example_can_os ?mem ?clock (sc_fd (snd ?ch)) (sc_os (snd ?ch)) [(?f, True, 7), (?f, False, 7)]"
    by (simp add: CanChannelSocketcan_def)
  have accepted: "socketcan_accepts ?f"
    by (simp add: socketcan_accepts_def socketcan_frame_def socketcan_example_msg_def can_flag_defs can_id_defs)
  then have msgs: "[socketcan_message 7 ?f] = cb_receive_queue (fst ?ch) @ socket_messages [(?f, True, 7), (?f, False, 7)]"
    by (simp add: CanChannelSocketcan_def socket_messages_def)
  have "\<exists>ch. socketcan_threadProc_round example_can_os ?mem ?clock True (fst ?ch, snd ?ch) = Some (ch, sc_event (snd ?ch)) \<and>
    (\<exists>a'. channel_receive_n adapter_ops_of (length [socketcan_message 7 ?f]) (Some (?a\<lparr>ad_channel := ch\<rparr>)) =
       (map Some [socketcan_message 7 ?f], Some a'))"
    by (rule socketcan_delivers_in_order [OF reads _ _ _ msgs]) simp_all
  then show ?thesis
    by (intro exI [of _ ?a]) (auto simp: CanChannelSocketcan_def)
qed

section \<open>Listing the interfaces\<close>

lemma devices_loop_to_gap:
  assumes "\<not> IsClassExists fs ''net'' (socketcan_name n)"
    and "\<And>i. i < n \<Longrightarrow> IsClassExists fs ''net'' (socketcan_name i) \<and> socketcan_devinfo fs i = Some (d i)"
    and "k \<le> n"
  shows "socketcan_devices_loop fs k found =
    Some (Some (found @ concat (map (\<lambda>i. case d i of None \<Rightarrow> [] | Some x \<Rightarrow> [x]) [k..<n])))"
  using assms(3)
proof (induction "n - k" arbitrary: k found)
  case 0
  with assms(1) show ?case
    by (subst socketcan_devices_loop.simps) simp
next
  case (Suc m)
  then have "k < n" by simp
  then have "socketcan_devices_loop fs k found =
      socketcan_devices_loop fs (Suc k) (found @ (case d k of None \<Rightarrow> [] | Some x \<Rightarrow> [x]))"
    using assms(2) [of k] by (subst socketcan_devices_loop.simps) simp
  also have "\<dots> = Some (Some ((found @ (case d k of None \<Rightarrow> [] | Some x \<Rightarrow> [x])) @
      concat (map (\<lambda>i. case d i of None \<Rightarrow> [] | Some x \<Rightarrow> [x]) [Suc k..<n])))"
    by (rule Suc.hyps(1)) (use Suc.hyps(2) \<open>k < n\<close> in simp_all)
  finally show ?case
    using \<open>k < n\<close> by (simp add: upt_conv_Cons)
qed

text \<open>
  The SocketCAN provider lists, in their order, the interfaces can0, can1, and so on up to the
  first number there is no interface for, leaving out those whose interface index is not known;
  every listed device has one channel, names its interface and gets its index, and no interface
  is listed twice.
\<close>

theorem socketcan_lists_interfaces:
  assumes "\<not> IsClassExists fs ''net'' (socketcan_name n)"
    and "\<And>i. i < n \<Longrightarrow> IsClassExists fs ''net'' (socketcan_name i) \<and>
      GetClassProperty fs ''net'' (socketcan_name i) ''ifindex'' = Some (ifindex i)"
  shows "\<exists>devices. socketcan_GetDeviceInfo fs = Some (Some devices) \<and>
    map dev_sn devices = map socketcan_name (filter (\<lambda>i. 0 \<le> ifindex i) [0..<n]) \<and>
    map dev_index devices = map (nat \<circ> ifindex) (filter (\<lambda>i. 0 \<le> ifindex i) [0..<n]) \<and>
    (\<forall>d\<in>set devices. dev_chancnt d = 1 \<and> dev_provider d = socketcan_provider_name) \<and>
    distinct (map dev_sn devices)"
proof -
  let ?d = "\<lambda>i. if 0 \<le> ifindex i
    then Some \<lparr>dev_manufacturer = ''Linux'', dev_model = ''SocketCAN'', dev_sn = socketcan_name i,
      dev_provider = socketcan_provider_name, dev_index = nat (ifindex i), dev_chancnt = 1\<rparr>
    else None"
  define devices where "devices = concat (map (\<lambda>i. case ?d i of None \<Rightarrow> [] | Some x \<Rightarrow> [x]) [0..<n])"
  have "socketcan_GetDeviceInfo fs = Some (Some devices)"
    unfolding socketcan_GetDeviceInfo_def devices_def
    using devices_loop_to_gap [OF assms(1), of ?d 0 "[]"] assms(2) by (simp add: socketcan_devinfo_def)
  moreover have sn: "map dev_sn devices = map socketcan_name (filter (\<lambda>i. 0 \<le> ifindex i) [0..<n])"
    unfolding devices_def by (induction n) auto
  moreover have "map dev_index devices = map (nat \<circ> ifindex) (filter (\<lambda>i. 0 \<le> ifindex i) [0..<n])"
    unfolding devices_def by (induction n) auto
  moreover have "\<forall>d\<in>set devices. dev_chancnt d = 1 \<and> dev_provider d = socketcan_provider_name"
    unfolding devices_def by auto
  moreover have "distinct (map dev_sn devices)"
    unfolding sn by (simp add: distinct_map inj_on_def socketcan_name_def show_nat_inject)
  ultimately show ?thesis
    by (intro exI [of _ devices] conjI)
qed

definition example_sysfs :: sysfs where
  "example_sysfs = \<lparr>fs_exists = (\<lambda>p. p = ''/sys/class/net/can0/'' \<or> p = ''/sys/class/net/can0/ifindex''),
     fs_content = (\<lambda>_. ''3'')\<rparr>"

theorem socketcan_lists_interfaces_witness:
  "\<exists>devices. socketcan_GetDeviceInfo example_sysfs = Some (Some devices) \<and> map dev_sn devices = [''can0'']"
proof -
  have name: "socketcan_name 0 = ''can0''" "socketcan_name 1 = ''can1''"
    by code_simp+
  have "\<not> IsClassExists example_sysfs ''net'' (socketcan_name 1)"
    by (simp only: name) (simp add: IsClassExists_def example_sysfs_def)
  moreover have "IsClassExists example_sysfs ''net'' (socketcan_name i) \<and>
      GetClassProperty example_sysfs ''net'' (socketcan_name i) ''ifindex'' = Some 3" if "i < 1" for i
    using that
    by (simp add: name IsClassExists_def GetClassProperty_def example_sysfs_def stoi_def read_sign_def is_blank_def
        is_digit_def code_def)
  ultimately show ?thesis
    using socketcan_lists_interfaces [of example_sysfs 1 "\<lambda>_. 3"] by (auto simp: name)
qed

end
