(* ===== verification/PpDictionary.thy ===== *)
theory PpDictionary
  imports TextNumbers "HOL-Library.AList"
begin

text \<open>
  The dictionary of ProtoPlexer messages and addresses of the application
  (\<open>src_app/protoplexer_dictionary.h\<close>, \<open>src_app/protoplexer_dictionary.cpp\<close>): names for message
  identifiers and addresses, and descriptors of the fields of a message, loaded from a JSON file.

  JSON values are those of the library that parses the file: an object is a list of its members in
  the order the library iterates them, integers are 64 bits with a mark for their sign. The file
  system and the parser are the argument \<open>file\<close>. A function that may throw returns the exception
  or its result; loading returns what is in the dictionary when the exception leaves it. The hash
  maps are association lists; their order is of no importance to any theorem.
\<close>

section \<open>Data\<close>

datatype json =
    JNull
  | JBool bool
  | JUnsigned u64
  | JInteger u64
  | JFloat u64
  | JString string
  | JArray "json list"
  | JObject "(string \<times> json) list"

datatype dict_error = NumberError number_error | TypeError | ParseError string

record ProtoPlexerField =
  fld_name :: string
  fld_type :: string
  fld_offset :: u32
  fld_size :: u32
  fld_bit :: int

record ProtoPlexerMessageDef =
  mdef_id :: u16
  mdef_name :: string
  mdef_fields :: "ProtoPlexerField list"

record ProtoPlexerDictionary =
  m_messages :: "(u16 \<times> ProtoPlexerMessageDef) list"
  m_addresses :: "(u16 \<times> string) list"

definition dict_empty :: ProtoPlexerDictionary where
  "dict_empty = \<lparr>m_messages = [], m_addresses = []\<rparr>"

datatype file_state = FileMissing | FileUnreadable | FileUnparsable string | FileParsed json


section \<open>The parts of the JSON library that are used\<close>

fun j_contains :: "string \<Rightarrow> json \<Rightarrow> bool" where
  "j_contains k (JObject ms) \<longleftrightarrow> map_of ms k \<noteq> None"
| "j_contains k _ \<longleftrightarrow> False"

fun j_at :: "string \<Rightarrow> json \<Rightarrow> json" where
  "j_at k (JObject ms) = (case map_of ms k of None \<Rightarrow> JNull | Some j \<Rightarrow> j)"
| "j_at k _ = JNull"

fun is_object :: "json \<Rightarrow> bool" where
  "is_object (JObject _) \<longleftrightarrow> True"
| "is_object _ \<longleftrightarrow> False"

fun get_string :: "json \<Rightarrow> dict_error + string" where
  "get_string (JString s) = Inr s"
| "get_string _ = Inl TypeError"

text \<open>\<open>j.value(key, "")\<close>.\<close>

definition j_value :: "string \<Rightarrow> json \<Rightarrow> dict_error + string" where
  "j_value k j = (if j_contains k j then get_string (j_at k j) else Inr [])"

fun and_then :: "'e + 'a \<Rightarrow> ('a \<Rightarrow> 'e + 'b) \<Rightarrow> 'e + 'b" where
  "and_then (Inl e) f = Inl e"
| "and_then (Inr x) f = f x"

definition number_result :: "number_error + 'a \<Rightarrow> dict_error + 'a" where
  "number_result r = (case r of Inl e \<Rightarrow> Inl (NumberError e) | Inr v \<Rightarrow> Inr v)"


section \<open>Reading values\<close>

fun parse_u16 :: "json \<Rightarrow> dict_error + u16" where
  "parse_u16 (JUnsigned v) = Inr (ucast (v AND 0xFFFF))"
| "parse_u16 (JInteger v) = Inr (ucast (v AND 0xFFFF))"
| "parse_u16 (JString s) = and_then (number_result (stoul s)) (\<lambda>v. Inr (ucast (v AND 0xFFFF)))"
| "parse_u16 _ = Inr 0"

fun parse_u32 :: "json \<Rightarrow> dict_error + u32" where
  "parse_u32 (JUnsigned v) = Inr (ucast v)"
| "parse_u32 (JInteger v) = Inr (ucast v)"
| "parse_u32 (JString s) = and_then (number_result (stoul s)) (\<lambda>v. Inr (ucast v))"
| "parse_u32 _ = Inr 0"

fun parse_i32 :: "json \<Rightarrow> dict_error + int" where
  "parse_i32 (JUnsigned v) = Inr (sint (ucast v :: 32 word))"
| "parse_i32 (JInteger v) = Inr (sint (ucast v :: 32 word))"
| "parse_i32 (JString s) = and_then (number_result (stol s)) (\<lambda>v. Inr (sint (word_of_int v :: 32 word)))"
| "parse_i32 _ = Inr 0"

definition read_u8_at :: "u8 list \<Rightarrow> nat \<Rightarrow> u8 option" where
  "read_u8_at data off = (if off + 1 > length data then None else Some (data ! off))"

definition read_u32le_at :: "u8 list \<Rightarrow> nat \<Rightarrow> u32 option" where
  "read_u32le_at data off =
     (if off + 4 > length data then None
      else Some (ucast (data ! off) OR push_bit 8 (ucast (data ! (off + 1))) OR
        push_bit 16 (ucast (data ! (off + 2))) OR push_bit 24 (ucast (data ! (off + 3)))))"

definition read_u32be_at :: "u8 list \<Rightarrow> nat \<Rightarrow> u32 option" where
  "read_u32be_at data off =
     (if off + 4 > length data then None
      else Some (push_bit 24 (ucast (data ! off)) OR push_bit 16 (ucast (data ! (off + 1))) OR
        push_bit 8 (ucast (data ! (off + 2))) OR ucast (data ! (off + 3))))"


section \<open>Loading\<close>

definition dict_clear :: "ProtoPlexerDictionary \<Rightarrow> ProtoPlexerDictionary" where
  "dict_clear d = d\<lparr>m_messages := [], m_addresses := []\<rparr>"

text \<open>A field; \<open>None\<close> when the entry is skipped. An optional member that is missing keeps its default.\<close>

definition optional :: "string \<Rightarrow> json \<Rightarrow> (json \<Rightarrow> dict_error + 'a) \<Rightarrow> 'a \<Rightarrow> dict_error + 'a" where
  "optional k j parse dflt = (if j_contains k j then parse (j_at k j) else Inr dflt)"

definition load_field :: "json \<Rightarrow> dict_error + ProtoPlexerField option" where
  "load_field fj =
     (if \<not> is_object fj \<or> \<not> j_contains ''name'' fj then Inr None
      else
        and_then (get_string (j_at ''name'' fj)) (\<lambda>name.
        and_then (j_value ''type'' fj) (\<lambda>ty.
        and_then (optional ''offset'' fj parse_u32 0) (\<lambda>off.
        and_then (optional ''size'' fj parse_u32 0) (\<lambda>size.
        and_then (optional ''bit'' fj parse_i32 (-1)) (\<lambda>bit.
          Inr (Some \<lparr>fld_name = name, fld_type = ty, fld_offset = off, fld_size = size, fld_bit = bit\<rparr>)))))))"

fun load_fields :: "json list \<Rightarrow> dict_error + ProtoPlexerField list" where
  "load_fields [] = Inr []"
| "load_fields (fj # fjs) =
     and_then (load_field fj) (\<lambda>f.
     and_then (load_fields fjs) (\<lambda>fs. Inr ((case f of None \<Rightarrow> [] | Some f \<Rightarrow> [f]) @ fs)))"

definition load_message :: "json \<Rightarrow> dict_error + ProtoPlexerMessageDef option" where
  "load_message item =
     (if \<not> is_object item \<or> \<not> j_contains ''id'' item \<or> \<not> j_contains ''name'' item then Inr None
      else
        and_then (parse_u16 (j_at ''id'' item)) (\<lambda>mid.
        and_then (get_string (j_at ''name'' item)) (\<lambda>name.
        and_then (if j_contains ''fields'' item
                  then (case j_at ''fields'' item of JArray fjs \<Rightarrow> load_fields fjs | _ \<Rightarrow> Inr [])
                  else Inr [])
          (\<lambda>fields. Inr (Some \<lparr>mdef_id = mid, mdef_name = name, mdef_fields = fields\<rparr>)))))"

definition dict_put_message :: "ProtoPlexerMessageDef \<Rightarrow> ProtoPlexerDictionary \<Rightarrow> ProtoPlexerDictionary" where
  "dict_put_message m d = d\<lparr>m_messages := AList.update (mdef_id m) m (m_messages d)\<rparr>"

definition dict_put_address :: "u16 \<Rightarrow> string \<Rightarrow> ProtoPlexerDictionary \<Rightarrow> ProtoPlexerDictionary" where
  "dict_put_address a name d = d\<lparr>m_addresses := AList.update a name (m_addresses d)\<rparr>"

type_synonym loading = "ProtoPlexerDictionary \<times> dict_error option"

fun load_messages_array :: "json list \<Rightarrow> ProtoPlexerDictionary \<Rightarrow> loading" where
  "load_messages_array [] d = (d, None)"
| "load_messages_array (item # items) d =
     (case load_message item of
        Inl e \<Rightarrow> (d, Some e)
      | Inr None \<Rightarrow> load_messages_array items d
      | Inr (Some m) \<Rightarrow> load_messages_array items (dict_put_message m d))"

definition load_message_member :: "string \<Rightarrow> json \<Rightarrow> dict_error + ProtoPlexerMessageDef option" where
  "load_message_member key j =
     and_then (number_result (stoul key)) (\<lambda>v.
       if \<not> is_object j then Inr None
       else and_then (j_value ''name'' j) (\<lambda>name.
         Inr (Some \<lparr>mdef_id = ucast (v AND 0xFFFF), mdef_name = name, mdef_fields = []\<rparr>)))"

fun load_messages_object :: "(string \<times> json) list \<Rightarrow> ProtoPlexerDictionary \<Rightarrow> loading" where
  "load_messages_object [] d = (d, None)"
| "load_messages_object ((key, j) # ms) d =
     (case load_message_member key j of
        Inl e \<Rightarrow> (d, Some e)
      | Inr None \<Rightarrow> load_messages_object ms d
      | Inr (Some m) \<Rightarrow> load_messages_object ms (dict_put_message m d))"

definition load_address :: "json \<Rightarrow> dict_error + (u16 \<times> string) option" where
  "load_address item =
     (if \<not> is_object item \<or> \<not> j_contains ''addr'' item \<or> \<not> j_contains ''name'' item then Inr None
      else and_then (parse_u16 (j_at ''addr'' item)) (\<lambda>a.
           and_then (get_string (j_at ''name'' item)) (\<lambda>name. Inr (Some (a, name)))))"

fun load_addresses_array :: "json list \<Rightarrow> ProtoPlexerDictionary \<Rightarrow> loading" where
  "load_addresses_array [] d = (d, None)"
| "load_addresses_array (item # items) d =
     (case load_address item of
        Inl e \<Rightarrow> (d, Some e)
      | Inr None \<Rightarrow> load_addresses_array items d
      | Inr (Some (a, name)) \<Rightarrow> load_addresses_array items (dict_put_address a name d))"

fun load_addresses_object :: "(string \<times> json) list \<Rightarrow> ProtoPlexerDictionary \<Rightarrow> loading" where
  "load_addresses_object [] d = (d, None)"
| "load_addresses_object ((key, j) # ms) d =
     (case stoul key of
        Inl e \<Rightarrow> (d, Some (NumberError e))
      | Inr v \<Rightarrow>
          load_addresses_object ms
            (case j of JString name \<Rightarrow> dict_put_address (ucast (v AND 0xFFFF)) name d | _ \<Rightarrow> d))"

definition load_section ::
  "string \<Rightarrow> (json list \<Rightarrow> ProtoPlexerDictionary \<Rightarrow> loading) \<Rightarrow> ((string \<times> json) list \<Rightarrow> ProtoPlexerDictionary \<Rightarrow> loading)
    \<Rightarrow> json \<Rightarrow> ProtoPlexerDictionary \<Rightarrow> loading" where
  "load_section key arr obj root d =
     (if j_contains key root
      then (case j_at key root of JArray js \<Rightarrow> arr js d | JObject ms \<Rightarrow> obj ms d | _ \<Rightarrow> (d, None))
      else (d, None))"

definition dict_root :: "json \<Rightarrow> json" where
  "dict_root j = (if is_object j \<and> j_contains ''protoplexer'' j then j_at ''protoplexer'' j else j)"

text \<open>
  \<open>TryLoadFromFile\<close>; \<open>out_error\<close> is the string the pointer leads to, \<open>None\<close> for a null pointer, and
  \<open>what\<close> the text of an exception.
\<close>

definition TryLoadFromFile ::
  "(string \<Rightarrow> file_state) \<Rightarrow> (dict_error \<Rightarrow> string) \<Rightarrow> string \<Rightarrow> string option \<Rightarrow> ProtoPlexerDictionary
    \<Rightarrow> bool \<times> string option \<times> ProtoPlexerDictionary" where
  "TryLoadFromFile file what path out_error d =
     (let fail = (\<lambda>text d. (False, map_option (\<lambda>_. text) out_error, d)) in
      if path = [] then fail ''empty path'' d
      else
        (case file path of
           FileMissing \<Rightarrow> fail ''file does not exist'' d
         | FileUnreadable \<Rightarrow> fail ''failed to open file'' d
         | FileUnparsable text \<Rightarrow> fail (what (ParseError text)) d
         | FileParsed j \<Rightarrow>
             let root = dict_root j in
             if \<not> is_object root then fail ''root is not an object'' d
             else
               (case load_section ''message_ids'' load_messages_array load_messages_object root (dict_clear d) of
                  (d, Some e) \<Rightarrow> fail (what e) d
                | (d, None) \<Rightarrow>
                    (case load_section ''addresses'' load_addresses_array load_addresses_object root d of
                       (d, Some e) \<Rightarrow> fail (what e) d
                     | (d, None) \<Rightarrow> (True, out_error, d)))))"

text \<open>The dictionary of the application, loaded when it is first asked for.\<close>

definition GetProtoPlexerDictionary :: "(string \<Rightarrow> file_state) \<Rightarrow> (dict_error \<Rightarrow> string) \<Rightarrow> ProtoPlexerDictionary" where
  "GetProtoPlexerDictionary file what =
     (case TryLoadFromFile file what ''protoplexer_dict.json'' (Some []) dict_empty of
        (ok, _, d) \<Rightarrow>
          if ok then d else snd (snd (TryLoadFromFile file what ''src_app/protoplexer_dict.json'' None d)))"


section \<open>Looking up and formatting\<close>

definition MessageDef :: "ProtoPlexerDictionary \<Rightarrow> u16 \<Rightarrow> ProtoPlexerMessageDef option" where
  "MessageDef d mid = map_of (m_messages d) mid"

definition MessageName :: "ProtoPlexerDictionary \<Rightarrow> u16 \<Rightarrow> string" where
  "MessageName d mid = (case map_of (m_messages d) mid of None \<Rightarrow> [] | Some m \<Rightarrow> mdef_name m)"

definition AddressName :: "ProtoPlexerDictionary \<Rightarrow> u16 \<Rightarrow> string" where
  "AddressName d addr = (case map_of (m_addresses d) addr of None \<Rightarrow> [] | Some n \<Rightarrow> n)"

definition MessageIds :: "ProtoPlexerDictionary \<Rightarrow> u16 list" where
  "MessageIds d = map fst (m_messages d)"

definition AddressIds :: "ProtoPlexerDictionary \<Rightarrow> u16 list" where
  "AddressIds d = map fst (m_addresses d)"

definition FormatMessageId :: "ProtoPlexerDictionary \<Rightarrow> u16 \<Rightarrow> string" where
  "FormatMessageId d mid =
     (let n = MessageName d mid in
      if n \<noteq> [] then hex_fixed 4 (unat mid) @ '' ('' @ n @ '')'' else hex_fixed 4 (unat mid))"

definition FormatAddress :: "ProtoPlexerDictionary \<Rightarrow> u16 \<Rightarrow> string" where
  "FormatAddress d addr =
     (let n = AddressName d addr in
      if n \<noteq> [] then hex_fixed 3 (unat (addr AND 0x0FFF)) @ '' ('' @ n @ '')''
      else hex_fixed 3 (unat (addr AND 0x0FFF)))"

text \<open>The value of a field as text; \<open>None\<close> when the field is left out.\<close>

definition field_text :: "u8 list \<Rightarrow> ProtoPlexerField \<Rightarrow> string option" where
  "field_text data f =
     (let off = unat (fld_offset f) in
      if fld_type f = ''u8'' then map_option (\<lambda>v. show_nat (unat v)) (read_u8_at data off)
      else if fld_type f = ''u32le'' then map_option (\<lambda>v. show_nat (unat v)) (read_u32le_at data off)
      else if fld_type f = ''u32be'' then map_option (\<lambda>v. show_nat (unat v)) (read_u32be_at data off)
      else if fld_type f = ''bit''
      then (case read_u8_at data off of
              None \<Rightarrow> None
            | Some b \<Rightarrow> if fld_bit f < 0 \<or> fld_bit f > 7 then None
                else Some (show_nat (unat (drop_bit (nat (fld_bit f)) b AND 1))))
      else None)"

text \<open>The loop with its two variables, the text so far and whether a pair is the first one.\<close>

fun summary_loop :: "u8 list \<Rightarrow> ProtoPlexerField list \<Rightarrow> string \<Rightarrow> bool \<Rightarrow> string" where
  "summary_loop data [] out first = out"
| "summary_loop data (f # fs) out first =
     (case field_text data f of
        None \<Rightarrow> summary_loop data fs out first
      | Some v \<Rightarrow> summary_loop data fs ((if first then out else out @ '' '') @ fld_name f @ ''='' @ v) False)"

definition FormatPayloadSummary :: "ProtoPlexerDictionary \<Rightarrow> u16 \<Rightarrow> u8 list \<Rightarrow> string" where
  "FormatPayloadSummary d mid data =
     (case map_of (m_messages d) mid of
        None \<Rightarrow> []
      | Some m \<Rightarrow> if mdef_fields m = [] then [] else summary_loop data (mdef_fields m) [] True)"

section \<open>Loading a file of the expected shape\<close>

text \<open>The messages and addresses of an array that loads without an exception.\<close>

definition loads_to :: "json \<Rightarrow> ProtoPlexerMessageDef option \<Rightarrow> bool" where
  "loads_to item m \<longleftrightarrow> load_message item = Inr m"

lemma messages_array_prefix:
  assumes "list_all2 loads_to items ms"
  shows "load_messages_array (items @ rest) d =
    load_messages_array rest (fold dict_put_message (concat (map (\<lambda>m. case m of None \<Rightarrow> [] | Some m \<Rightarrow> [m]) ms)) d)"
  using assms by (induction arbitrary: d rule: list_all2_induct) (auto simp: loads_to_def split: option.split)

lemma fold_put_messages:
  "map_of (m_messages (fold dict_put_message ms d)) =
    map_of (m_messages d) ++ map_of (rev (map (\<lambda>m. (mdef_id m, m)) ms))"
  "m_addresses (fold dict_put_message ms d) = m_addresses d"
  by (induction ms arbitrary: d) (auto simp: dict_put_message_def update_conv' map_add_assoc fun_eq_iff map_add_def
      split: option.split)

lemma MessageDef_fold:
  "MessageDef (fold dict_put_message ms d) mid =
    (case find (\<lambda>m. mdef_id m = mid) (rev ms) of Some m \<Rightarrow> Some m | None \<Rightarrow> MessageDef d mid)"
proof -
  have "map_of (map (\<lambda>m. (mdef_id m, m)) xs) mid = find (\<lambda>m. mdef_id m = mid) xs" for xs :: "ProtoPlexerMessageDef list"
    by (induction xs) auto
  then show ?thesis
    unfolding MessageDef_def fold_put_messages by (simp add: map_add_def rev_map split: option.split)
qed

lemma dict_clear_empty: "dict_clear d = dict_empty"
  by (cases d) (simp add: dict_clear_def dict_empty_def)

lemma load_message_file:
  assumes "path \<noteq> []" "file path = FileParsed (JObject [(''message_ids'', JArray items)])"
  shows "TryLoadFromFile file what path out_error d =
    (case load_messages_array items dict_empty of
       (d', Some e) \<Rightarrow> (False, map_option (\<lambda>_. what e) out_error, d')
     | (d', None) \<Rightarrow> (True, out_error, d'))"
  using assms
  by (simp add: TryLoadFromFile_def dict_root_def load_section_def dict_clear_empty Let_def split: option.split prod.split)

text \<open>
  C23. Loading a list of messages: when no entry throws, loading succeeds, what was in the dictionary
  before is gone, and an identifier is looked up as the last entry of the file that has it, with
  its name and fields; entries that are skipped count for nothing.
\<close>

theorem dictionary_load_lookup:
  assumes "path \<noteq> []" "file path = FileParsed (JObject [(''message_ids'', JArray items)])"
    and "list_all2 loads_to items ms"
    and "entries = concat (map (\<lambda>m. case m of None \<Rightarrow> [] | Some m \<Rightarrow> [m]) ms)"
  shows "\<exists>d'. TryLoadFromFile file what path out_error d = (True, out_error, d') \<and>
    (\<forall>mid. MessageDef d' mid = find (\<lambda>m. mdef_id m = mid) (rev entries)) \<and> AddressIds d' = []"
proof -
  have "load_messages_array items dict_empty = (fold dict_put_message entries dict_empty, None)"
    using messages_array_prefix [OF assms(3), of "[]" dict_empty] assms(4) by simp
  then show ?thesis
    unfolding load_message_file [OF assms(1), of "file", OF assms(2)]
    by (auto simp: MessageDef_fold AddressIds_def fold_put_messages(2))
      (simp_all add: MessageDef_def dict_empty_def split: option.split)
qed

text \<open>
  An entry that throws ends the loading with \<open>false\<close>, but not without effect: what was in the
  dictionary before is gone, and the entries before the broken one stay in it. The caller that
  takes \<open>false\<close> for "not loaded" is left with a part of the file.
\<close>

theorem dictionary_broken_entry_keeps_prefix:
  assumes "path \<noteq> []" "file path = FileParsed (JObject [(''message_ids'', JArray (items @ broken # rest))])"
    and "list_all2 loads_to items ms" "load_message broken = Inl e"
    and "entries = concat (map (\<lambda>m. case m of None \<Rightarrow> [] | Some m \<Rightarrow> [m]) ms)"
  shows "\<exists>d'. TryLoadFromFile file what path (Some text) d = (False, Some (what e), d') \<and>
    (\<forall>mid. MessageDef d' mid = find (\<lambda>m. mdef_id m = mid) (rev entries))"
proof -
  have "load_messages_array (items @ broken # rest) dict_empty = (fold dict_put_message entries dict_empty, Some e)"
    using messages_array_prefix [OF assms(3), of "broken # rest" dict_empty] assms(4,5) by simp
  then show ?thesis
    unfolding load_message_file [OF assms(1), of "file", OF assms(2)]
    by (auto simp: MessageDef_fold) (simp_all add: MessageDef_def dict_empty_def split: option.split)
qed

text \<open>
  A load that fails before it has a JSON object (no path, no file, a file that cannot be read or
  parsed, something else at the root) leaves the dictionary as it is and reports why.
\<close>

theorem dictionary_unreadable_unchanged:
  assumes "path = [] \<or> (case file path of FileParsed j \<Rightarrow> \<not> is_object (dict_root j) | _ \<Rightarrow> True)"
  shows "\<exists>text. TryLoadFromFile file what path out_error d = (False, map_option (\<lambda>_. text) out_error, d)"
  using assms by (auto simp: TryLoadFromFile_def Let_def split: file_state.splits)

definition example_json_message :: "string \<Rightarrow> string \<Rightarrow> json" where
  "example_json_message i name = JObject [(''id'', JString i), (''name'', JString name)]"

lemma example_json_message_loads:
  "loads_to (example_json_message ''0x10'' ''Ping'') (Some \<lparr>mdef_id = 0x10, mdef_name = ''Ping'', mdef_fields = []\<rparr>)"
  "load_message (example_json_message ''?'' ''Bad'') = Inl (NumberError InvalidArgument)"
  by (simp_all add: loads_to_def load_message_def example_json_message_def number_result_def stoul_def read_sign_def
      read_base0_def is_blank_def is_xdigit_def is_digit_def hex_value_def code_def)

theorem dictionary_load_lookup_witness:
  "\<exists>d'. TryLoadFromFile (\<lambda>_. FileParsed (JObject [(''message_ids'', JArray [example_json_message ''0x10'' ''Ping''])])) (\<lambda>_. [])
      ''x'' None dict_empty = (True, None, d') \<and> map_option mdef_name (MessageDef d' 0x10) = Some ''Ping''"
  using dictionary_load_lookup [of "''x''" "\<lambda>_. FileParsed (JObject [(''message_ids'', JArray [example_json_message ''0x10'' ''Ping''])])"
      "[example_json_message ''0x10'' ''Ping'']" "[Some \<lparr>mdef_id = 0x10, mdef_name = ''Ping'', mdef_fields = []\<rparr>]",
      OF _ _ _ refl, of "\<lambda>_. []" None dict_empty] example_json_message_loads(1)
  by auto

theorem dictionary_broken_entry_keeps_prefix_witness:
  "\<exists>d'. TryLoadFromFile (\<lambda>_. FileParsed (JObject [(''message_ids'',
        JArray ([example_json_message ''0x10'' ''Ping''] @ [example_json_message ''?'' ''Bad'']))])) (\<lambda>_. ''bad'')
      ''x'' (Some []) dict_empty = (False, Some ''bad'', d') \<and> map_option mdef_name (MessageDef d' 0x10) = Some ''Ping''"
  using dictionary_broken_entry_keeps_prefix [of "''x''" _ "[example_json_message ''0x10'' ''Ping'']"
      "example_json_message ''?'' ''Bad''" "[]" "[Some \<lparr>mdef_id = 0x10, mdef_name = ''Ping'', mdef_fields = []\<rparr>]",
      OF _ refl _ example_json_message_loads(2) refl, of "\<lambda>_. ''bad''" "[]" dict_empty] example_json_message_loads(1)
  by auto

theorem dictionary_unreadable_unchanged_witness:
  "\<exists>text. TryLoadFromFile (\<lambda>_. FileMissing) (\<lambda>_. []) ''x'' (Some []) dict_empty = (False, Some text, dict_empty)"
  using dictionary_unreadable_unchanged [of "''x''" "\<lambda>_. FileMissing" "\<lambda>_. []" "Some []" dict_empty] by simp

end
