(* ===== verification/TxPayload.thy ===== *)
theory TxPayload
  imports PpDictionary
begin

text \<open>
  The payload of a ProtoPlexer message as the transmit window builds it
  (\<open>src_app/window_can_tx.cpp\<close>): hexadecimal text to bytes and back, the writers of the fields, and
  the payload of the fields of a dictionary entry. The states of the fields are a map from names;
  a name that is missing reads as the default state, which the code then puts into its map. What
  the user selects, types and presses in a pass is the record \<open>pp_input\<close>.
\<close>

section \<open>Hexadecimal text\<close>

text \<open>Two digits, read by a stream in hexadecimal, are one byte.\<close>

fun hex_pairs :: "string \<Rightarrow> u8 list" where
  "hex_pairs (a # b # cs) = of_nat (hex_number 0 [a, b]) # hex_pairs cs"
| "hex_pairs _ = []"

definition parseHexBytes :: "string \<Rightarrow> u8 list" where
  "parseHexBytes s =
     (let hex = filter is_xdigit s;
          hex = (if length hex mod 2 \<noteq> 0 then butlast hex else hex)
      in hex_pairs hex)"

definition hex_from_bytes :: "u8 list \<Rightarrow> string" where
  "hex_from_bytes data =
     (let out = concat (map (\<lambda>b. hex_fixed 2 (unat b) @ '' '') data)
      in if out \<noteq> [] then butlast out else out)"


section \<open>Writing fields\<close>

record ProtoPlexerFieldState =
  st_value :: u64
  st_bool :: bool
  st_bytes_hex :: string

definition field_state_default :: ProtoPlexerFieldState where
  "field_state_default = \<lparr>st_value = 0, st_bool = False, st_bytes_hex = []\<rparr>"

type_synonym field_states = "string \<Rightarrow> ProtoPlexerFieldState option"

text \<open>\<open>state[name]\<close>: the entry, made when it is missing.\<close>

definition fs_at :: "field_states \<Rightarrow> string \<Rightarrow> ProtoPlexerFieldState" where
  "fs_at st n = (case st n of None \<Rightarrow> field_state_default | Some s \<Rightarrow> s)"

definition fs_touch :: "field_states \<Rightarrow> string \<Rightarrow> field_states" where
  "fs_touch st n = st(n \<mapsto> fs_at st n)"

definition ensure_size :: "u8 list \<Rightarrow> nat \<Rightarrow> u8 list" where
  "ensure_size data n = (if length data < n then data @ replicate (n - length data) 0 else data)"

definition write_u8 :: "u8 list \<Rightarrow> nat \<Rightarrow> u8 \<Rightarrow> u8 list" where
  "write_u8 data off v = (ensure_size data (off + 1))[off := v]"

definition write_u16le :: "u8 list \<Rightarrow> nat \<Rightarrow> u16 \<Rightarrow> u8 list" where
  "write_u16le data off v =
     (ensure_size data (off + 2))[off := ucast (v AND 0xFF), off + 1 := ucast (drop_bit 8 v AND 0xFF)]"

definition write_u32le :: "u8 list \<Rightarrow> nat \<Rightarrow> u32 \<Rightarrow> u8 list" where
  "write_u32le data off v =
     (ensure_size data (off + 4))[off := ucast (v AND 0xFF), off + 1 := ucast (drop_bit 8 v AND 0xFF),
        off + 2 := ucast (drop_bit 16 v AND 0xFF), off + 3 := ucast (drop_bit 24 v AND 0xFF)]"

definition write_u32be :: "u8 list \<Rightarrow> nat \<Rightarrow> u32 \<Rightarrow> u8 list" where
  "write_u32be data off v =
     (ensure_size data (off + 4))[off := ucast (drop_bit 24 v AND 0xFF), off + 1 := ucast (drop_bit 16 v AND 0xFF),
        off + 2 := ucast (drop_bit 8 v AND 0xFF), off + 3 := ucast (v AND 0xFF)]"

definition write_bit :: "u8 list \<Rightarrow> nat \<Rightarrow> int \<Rightarrow> bool \<Rightarrow> u8 list" where
  "write_bit data off b v =
     (if b < 0 \<or> b > 7 then data
      else
        (let data = ensure_size data (off + 1); m = push_bit (nat b) 1 in
         if v then data[off := data ! off OR m] else data[off := data ! off AND NOT m]))"

definition max_value_for_type :: "string \<Rightarrow> u64" where
  "max_value_for_type ty =
     (if ty = ''u8'' then 0xFF else if ty = ''u16le'' then 0xFFFF
      else if ty = ''u32le'' \<or> ty = ''u32be'' then 0xFFFFFFFF else 0xFFFFFFFF)"

definition write_bytes :: "u8 list \<Rightarrow> nat \<Rightarrow> u8 list \<Rightarrow> u8 list" where
  "write_bytes data off bytes =
     (if bytes \<noteq> [] then blit (ensure_size data (off + length bytes)) off bytes else data)"

text \<open>One round of the loop over the fields: the branches by the type of the field.\<close>

definition write_field :: "ProtoPlexerField \<Rightarrow> ProtoPlexerFieldState \<Rightarrow> u8 list \<Rightarrow> u8 list" where
  "write_field f st data =
     (let off = unat (fld_offset f) in
      if fld_type f = ''u8'' then write_u8 data off (ucast (st_value st AND 0xFF))
      else if fld_type f = ''u16le'' then write_u16le data off (ucast (st_value st AND 0xFFFF))
      else if fld_type f = ''u32le'' then write_u32le data off (ucast (st_value st AND 0xFFFFFFFF))
      else if fld_type f = ''u32be'' then write_u32be data off (ucast (st_value st AND 0xFFFFFFFF))
      else if fld_type f = ''bit'' then write_bit data off (fld_bit f) (st_bool st)
      else if fld_type f = ''bytes'' then write_bytes data off (parseHexBytes (st_bytes_hex st))
      else data)"

fun write_fields :: "ProtoPlexerField list \<Rightarrow> field_states \<Rightarrow> u8 list \<Rightarrow> field_states \<times> u8 list" where
  "write_fields [] st data = (st, data)"
| "write_fields (f # fs) st data =
     write_fields fs (fs_touch st (fld_name f)) (write_field f (fs_at st (fld_name f)) data)"

definition update_payload_from_fields ::
  "ProtoPlexerMessageDef option \<Rightarrow> field_states \<Rightarrow> field_states \<times> u8 list" where
  "update_payload_from_fields def st =
     (case def of None \<Rightarrow> (st, []) | Some m \<Rightarrow> write_fields (mdef_fields m) st [])"


section \<open>The window\<close>

text \<open>
  What the pass of the window does with the fields: each numeric field shows its value, takes
  what was typed and is cut to the largest value of its type; the others take what was typed.
\<close>

definition field_input :: "(ProtoPlexerField \<Rightarrow> ProtoPlexerFieldState \<Rightarrow> ProtoPlexerFieldState) \<Rightarrow>
    ProtoPlexerField \<Rightarrow> ProtoPlexerFieldState \<Rightarrow> ProtoPlexerFieldState" where
  "field_input typed f st =
     (if fld_type f \<in> {''u8'', ''u16le'', ''u32le'', ''u32be''}
      then (let maxv = max_value_for_type (fld_type f); st = st\<lparr>st_value := st_value (typed f st)\<rparr>
            in if st_value st > maxv then st\<lparr>st_value := maxv\<rparr> else st)
      else if fld_type f = ''bit'' then st\<lparr>st_bool := st_bool (typed f st)\<rparr>
      else if fld_type f = ''bytes'' then st\<lparr>st_bytes_hex := st_bytes_hex (typed f st)\<rparr>
      else st)"

definition fields_input :: "(ProtoPlexerField \<Rightarrow> ProtoPlexerFieldState \<Rightarrow> ProtoPlexerFieldState) \<Rightarrow>
    ProtoPlexerField list \<Rightarrow> field_states \<Rightarrow> field_states" where
  "fields_input typed fs st = fold (\<lambda>f st. st(fld_name f \<mapsto> field_input typed f (fs_at st (fld_name f)))) fs st"

record ProtoPlexerMessage =
  pm_message_id :: u16
  pm_address_from :: u16
  pm_address_to :: u16
  pm_priority_inverted :: u8
  pm_data :: "u8 list"

record tx_window =
  m_pp_msg_id :: u32
  m_pp_from :: u32
  m_pp_to :: u32
  m_pp_prio :: u32
  m_pp_payload_hex :: string
  s_pp_field_state :: "u16 \<Rightarrow> field_states"

definition tx_window_new :: tx_window where
  "tx_window_new = \<lparr>m_pp_msg_id = 0x0001, m_pp_from = 0x001, m_pp_to = 0x001, m_pp_prio = 0x07, m_pp_payload_hex = [],
     s_pp_field_state = (\<lambda>_ _. None)\<rparr>"

text \<open>The payload of this pass; the text of the payload is typed only when there are no fields.\<close>

definition pp_payload :: "ProtoPlexerDictionary \<Rightarrow> (ProtoPlexerField \<Rightarrow> ProtoPlexerFieldState \<Rightarrow> ProtoPlexerFieldState)
    \<Rightarrow> (string \<Rightarrow> string) \<Rightarrow> tx_window \<Rightarrow> tx_window \<times> u8 list" where
  "pp_payload dict typed typed_hex w =
     (let mid = ucast (m_pp_msg_id w); msg_def = MessageDef dict mid in
      case msg_def of
        Some m \<Rightarrow>
          if mdef_fields m \<noteq> []
          then
            (let (st, payload) = update_payload_from_fields msg_def (fields_input typed (mdef_fields m) (s_pp_field_state w mid))
             in (w\<lparr>s_pp_field_state := (s_pp_field_state w)(mid := st), m_pp_payload_hex := hex_from_bytes payload\<rparr>, payload))
          else (let hex = typed_hex (m_pp_payload_hex w) in (w\<lparr>m_pp_payload_hex := hex\<rparr>, parseHexBytes hex))
      | None \<Rightarrow> (let hex = typed_hex (m_pp_payload_hex w) in (w\<lparr>m_pp_payload_hex := hex\<rparr>, parseHexBytes hex)))"

text \<open>The message the button sends.\<close>

definition pp_message :: "tx_window \<Rightarrow> u8 list \<Rightarrow> ProtoPlexerMessage" where
  "pp_message w payload =
     \<lparr>pm_message_id = ucast (m_pp_msg_id w), pm_address_from = ucast (m_pp_from w), pm_address_to = ucast (m_pp_to w),
      pm_priority_inverted = ucast (m_pp_prio w),
      pm_data = (if payload \<noteq> [] then payload else parseHexBytes (m_pp_payload_hex w))\<rparr>"

text \<open>
  What the user did in a pass of the tab: the entry clicked in the list of each of the three boxes,
  the priority that was typed, what was typed into the fields and the text of the payload, and
  whether the button was pressed.
\<close>

record pp_input =
  ppi_msg_id :: "nat option"
  ppi_from :: "nat option"
  ppi_to :: "nat option"
  ppi_prio :: "u32 option"
  ppi_typed :: "ProtoPlexerField \<Rightarrow> ProtoPlexerFieldState \<Rightarrow> ProtoPlexerFieldState"
  ppi_typed_hex :: "string \<Rightarrow> string"
  ppi_send :: bool

text \<open>A box offers the identifiers of the dictionary; what it holds may be none of them.\<close>

definition combo_select :: "u16 list \<Rightarrow> nat option \<Rightarrow> u32 \<Rightarrow> u32" where
  "combo_select ids clicked v =
     (case clicked of None \<Rightarrow> v | Some i \<Rightarrow> if i < length ids then ucast (ids ! i) else v)"

definition pp_selected :: "ProtoPlexerDictionary \<Rightarrow> pp_input \<Rightarrow> tx_window \<Rightarrow> tx_window" where
  "pp_selected dict inp w =
     (let w = w\<lparr>m_pp_msg_id := combo_select (MessageIds dict) (ppi_msg_id inp) (m_pp_msg_id w)\<rparr>;
          w = w\<lparr>m_pp_from := combo_select (AddressIds dict) (ppi_from inp) (m_pp_from w)\<rparr>;
          w = w\<lparr>m_pp_to := combo_select (AddressIds dict) (ppi_to inp) (m_pp_to w)\<rparr>;
          w = (case ppi_prio inp of None \<Rightarrow> w | Some prio \<Rightarrow> w\<lparr>m_pp_prio := prio\<rparr>)
      in w\<lparr>m_pp_prio := m_pp_prio w AND 0x0F\<rparr>)"

definition ui_pp :: "ProtoPlexerDictionary \<Rightarrow> pp_input \<Rightarrow> tx_window \<Rightarrow> tx_window \<times> ProtoPlexerMessage option" where
  "ui_pp dict inp w =
     (let (w, payload) = pp_payload dict (ppi_typed inp) (ppi_typed_hex inp) (pp_selected dict inp w)
      in (w, if ppi_send inp then Some (pp_message w payload) else None))"

section \<open>Text to bytes and back\<close>

lemma hex_pairs_digits: "hex_pairs (concat (map (\<lambda>b. hex_fixed 2 (unat b)) data)) = data"
proof (induction data)
  case (Cons b data)
  have "hex_number 0 (hex_fixed 2 (unat b)) = unat b"
    using unat_u8_less [of b] by (intro hex_number_hex_fixed) simp
  moreover obtain x y where "hex_fixed 2 (unat b) = [x, y]"
    by (metis (no_types, lifting) One_nat_def Suc_1 length_0_conv length_Suc_conv length_hex_fixed)
  ultimately show ?case
    using Cons by simp
qed simp

lemma filter_hex_text:
  "filter is_xdigit (concat (map (\<lambda>b. hex_fixed 2 (unat b) @ sep) data)) =
    concat (map (\<lambda>b. hex_fixed 2 (unat b) @ filter is_xdigit sep) data)"
  by (induction data) (use hex_fixed_xdigits in auto)

lemma space_no_xdigit: "\<not> is_xdigit CHR '' ''"
  by (simp add: is_xdigit_def is_digit_def code_def)

lemma filter_hex_from_bytes:
  "filter is_xdigit (hex_from_bytes data) = concat (map (\<lambda>b. hex_fixed 2 (unat b)) data)"
proof (cases data rule: rev_cases)
  case (snoc xs b)
  then have "hex_from_bytes data = concat (map (\<lambda>b. hex_fixed 2 (unat b) @ '' '') xs) @ hex_fixed 2 (unat b)"
    by (simp add: hex_from_bytes_def butlast_append)
  then show ?thesis
    using filter_hex_text [of "'' ''" xs] hex_fixed_xdigits [of 2 "unat b"] snoc
    by (simp add: space_no_xdigit filter_id_conv)
qed (simp add: hex_from_bytes_def)

lemma length_hex_digits: "length (concat (map (\<lambda>b. hex_fixed 2 (unat b)) data)) = 2 * length data"
  by (induction data) auto

text \<open>
  The text of a payload reads back as the payload, and what stands between the digits does not
  matter: any text that has the same digits in the same order gives the same bytes.
\<close>

theorem hex_text_roundtrip:
  assumes "filter is_xdigit s = filter is_xdigit (hex_from_bytes data)"
  shows "parseHexBytes s = data"
  using assms by (simp add: parseHexBytes_def filter_hex_from_bytes length_hex_digits hex_pairs_digits)

theorem hex_text_roundtrip_witness:
  "parseHexBytes ''DE:ad'' = [0xDE, 0xAD] \<and> parseHexBytes (hex_from_bytes [1, 2]) = [1, 2]"
  using hex_text_roundtrip [of "hex_from_bytes [1, 2]" "[1, 2]"] by (simp) code_simp


section \<open>What a field writes and what is read back\<close>

text \<open>Bit \<open>b\<close> of byte \<open>i\<close> of a payload; bytes past its end count as zero.\<close>

definition pbit :: "u8 list \<Rightarrow> nat \<Rightarrow> nat \<Rightarrow> bool" where
  "pbit data i b \<longleftrightarrow> i < length data \<and> bit (data ! i) b"

lemma length_ensure_size [simp]: "length (ensure_size data n) = max (length data) n"
  by (simp add: ensure_size_def)

lemma pbit_ensure_size [simp]: "pbit (ensure_size data n) i b = pbit data i b"
  by (auto simp: pbit_def ensure_size_def nth_append)

lemma pbit_update [simp]:
  "pbit (data[k := v]) i b = (if i = k \<and> k < length data then bit v b else pbit data i b)"
  by (auto simp: pbit_def nth_list_update)

lemma pbit_blit:
  "off + length src \<le> length data \<Longrightarrow>
    pbit (blit data off src) i b = (if off \<le> i \<and> i < off + length src then bit (src ! (i - off)) b else pbit data i b)"
  by (auto simp: pbit_def nth_blit)

definition field_width :: "ProtoPlexerField \<Rightarrow> ProtoPlexerFieldState \<Rightarrow> nat" where
  "field_width f st =
     (if fld_type f = ''u8'' then 1 else if fld_type f = ''u16le'' then 2
      else if fld_type f = ''u32le'' \<or> fld_type f = ''u32be'' then 4
      else if fld_type f = ''bit'' then (if fld_bit f < 0 \<or> fld_bit f > 7 then 0 else 1)
      else if fld_type f = ''bytes'' then length (parseHexBytes (st_bytes_hex st))
      else 0)"

definition footprint :: "ProtoPlexerField \<Rightarrow> ProtoPlexerFieldState \<Rightarrow> (nat \<times> nat) set" where
  "footprint f st =
     {unat (fld_offset f) ..< unat (fld_offset f) + field_width f st} \<times>
     (if fld_type f = ''bit'' then {nat (fld_bit f)} else {0..<8})"

lemma length_write_field:
  "length (write_field f st data) =
    (if field_width f st = 0 then length data else max (length data) (unat (fld_offset f) + field_width f st))"
  by (auto simp: write_field_def field_width_def write_u8_def write_u16le_def write_u32le_def write_u32be_def write_bit_def
      write_bytes_def Let_def)

lemma pbit_write_u8: "pbit (write_u8 data off v) i b = (if i = off then bit v b else pbit data i b)"
  by (simp add: write_u8_def less_max_iff_disj)

lemma pbit_write_u16le:
  "pbit (write_u16le data off v) i b =
    (if i = off + 1 then bit (ucast (drop_bit 8 v AND 0xFF) :: u8) b
     else if i = off then bit (ucast (v AND 0xFF) :: u8) b else pbit data i b)"
  by (simp add: write_u16le_def less_max_iff_disj)

lemma pbit_write_u32le:
  "pbit (write_u32le data off v) i b =
    (if i = off + 3 then bit (ucast (drop_bit 24 v AND 0xFF) :: u8) b
     else if i = off + 2 then bit (ucast (drop_bit 16 v AND 0xFF) :: u8) b
     else if i = off + 1 then bit (ucast (drop_bit 8 v AND 0xFF) :: u8) b
     else if i = off then bit (ucast (v AND 0xFF) :: u8) b else pbit data i b)"
  by (simp add: write_u32le_def less_max_iff_disj)

lemma pbit_write_u32be:
  "pbit (write_u32be data off v) i b =
    (if i = off + 3 then bit (ucast (v AND 0xFF) :: u8) b
     else if i = off + 2 then bit (ucast (drop_bit 8 v AND 0xFF) :: u8) b
     else if i = off + 1 then bit (ucast (drop_bit 16 v AND 0xFF) :: u8) b
     else if i = off then bit (ucast (drop_bit 24 v AND 0xFF) :: u8) b else pbit data i b)"
  by (simp add: write_u32be_def less_max_iff_disj)

lemma pbit_write_bit:
  assumes "0 \<le> k" "k \<le> 7" "b < 8"
  shows "pbit (write_bit data off k v) i b = (if i = off \<and> b = nat k then v else pbit data i b)"
proof -
  have "bit (ensure_size data (off + 1) ! off) b = pbit (ensure_size data (off + 1)) off b"
    by (simp add: pbit_def less_max_iff_disj)
  then have "bit (ensure_size data (off + 1) ! off) b = pbit data off b"
    by simp
  then show ?thesis
    using assms by (auto simp: write_bit_def Let_def bit_simps)
qed

lemma pbit_write_bytes:
  "pbit (write_bytes data off bytes) i b =
    (if off \<le> i \<and> i < off + length bytes then bit (bytes ! (i - off)) b else pbit data i b)"
  by (auto simp: write_bytes_def pbit_blit)

lemmas pbit_writes = pbit_write_u8 pbit_write_u16le pbit_write_u32le pbit_write_u32be pbit_write_bytes

lemma field_type_cases:
  obtains "fld_type f = ''u8''" | "fld_type f = ''u16le''" | "fld_type f = ''u32le''" | "fld_type f = ''u32be''"
  | "fld_type f = ''bit''" | "fld_type f = ''bytes''"
  | "fld_type f \<notin> {''u8'', ''u16le'', ''u32le'', ''u32be'', ''bit'', ''bytes''}"
  by blast

lemma write_field_other:
  assumes "(i, b) \<notin> footprint f st" "b < 8"
  shows "pbit (write_field f st data) i b = pbit data i b"
proof (cases "fld_type f = ''bit''")
  case True
  then show ?thesis
    using assms pbit_write_bit [of "fld_bit f" b data "unat (fld_offset f)" "st_bool st" i]
    by (cases "fld_bit f < 0 \<or> fld_bit f > 7")
      (auto simp: write_field_def footprint_def field_width_def write_bit_def Let_def)
next
  case False
  then have "\<not> (unat (fld_offset f) \<le> i \<and> i < unat (fld_offset f) + field_width f st)"
    using assms by (simp add: footprint_def)
  with False show ?thesis
    by (cases rule: field_type_cases [of f]) (auto simp: write_field_def field_width_def pbit_writes Let_def)
qed

text \<open>What the receive window shows of a field that was written; \<open>None\<close> when it shows nothing.\<close>

definition field_shown :: "ProtoPlexerField \<Rightarrow> ProtoPlexerFieldState \<Rightarrow> string option" where
  "field_shown f st =
     (if fld_type f = ''u8'' then Some (show_nat (unat (st_value st) mod 2 ^ 8))
      else if fld_type f = ''u32le'' \<or> fld_type f = ''u32be'' then Some (show_nat (unat (st_value st) mod 2 ^ 32))
      else if fld_type f = ''bit'' \<and> 0 \<le> fld_bit f \<and> fld_bit f \<le> 7 then Some (if st_bool st then ''1'' else ''0'')
      else None)"

lemma low_byte_u32: "ucast (ucast (w AND 0xFF) :: u8) = (w :: u32) AND mask 8"
  unfolding masks by (rule bit_word_eqI) (auto simp: bit_simps)

lemma bytes_of_u32:
  "ucast (ucast (v AND 0xFF) :: u8) OR push_bit 8 (ucast (ucast (drop_bit 8 v AND 0xFF) :: u8)) OR
    push_bit 16 (ucast (ucast (drop_bit 16 v AND 0xFF) :: u8)) OR
    push_bit 24 (ucast (ucast (drop_bit 24 v AND 0xFF) :: u8)) = (v :: u32)"
  unfolding low_byte_u32
proof (rule bit_word_eqI)
  fix n
  assume "n < LENGTH(32)"
  then consider "n < 8" | "8 \<le> n \<and> n < 16" | "16 \<le> n \<and> n < 24" | "24 \<le> n \<and> n < 32"
    by fastforce
  then show "bit (v AND mask 8 OR push_bit 8 (drop_bit 8 v AND mask 8) OR push_bit 16 (drop_bit 16 v AND mask 8) OR
      push_bit 24 (drop_bit 24 v AND mask 8)) n = bit v n"
    by cases (auto simp: bit_simps)
qed

lemma masks_u64: "(0xFF :: u64) = mask 8" "(0xFFFFFFFF :: u64) = mask 32"
  by (simp_all add: mask_eq_exp_minus_1)

lemma unat_cut_u8: "unat (ucast ((v :: u64) AND 0xFF) :: u8) = unat v mod 2 ^ 8"
proof -
  have "ucast (v AND 0xFF) = (ucast v :: u8)"
    unfolding masks_u64 by (rule bit_word_eqI) (auto simp: bit_simps)
  then show ?thesis
    by (simp add: unsigned_ucast_eq take_bit_eq_mod)
qed

lemma unat_cut_u32: "unat (ucast ((v :: u64) AND 0xFFFFFFFF) :: u32) = unat v mod 2 ^ 32"
proof -
  have "ucast (v AND 0xFFFFFFFF) = (ucast v :: u32)"
    unfolding masks_u64 by (rule bit_word_eqI) (auto simp: bit_simps)
  then show ?thesis
    by (simp add: unsigned_ucast_eq take_bit_eq_mod)
qed

lemma read_back_u32le: "read_u32le_at (write_u32le data off v) off = Some v"
  using bytes_of_u32 [of v] by (simp add: read_u32le_at_def write_u32le_def nth_list_update less_max_iff_disj or.assoc)

lemma read_back_u32be: "read_u32be_at (write_u32be data off v) off = Some v"
  using bytes_of_u32 [of v] by (simp add: read_u32be_at_def write_u32be_def nth_list_update less_max_iff_disj or.assoc or.commute or.left_commute)

lemma drop_bit_and_1: "drop_bit k (w :: u8) AND 1 = of_bool (bit w k)"
  by (simp add: and_one_eq bit_iff_odd_drop_bit odd_iff_mod_2_eq_one)

lemma show_nat_bit: "show_nat (unat (of_bool P :: u8)) = (if P then ''1'' else ''0'')"
  by (cases P) (simp_all add: show_nat.simps digit_char_def, code_simp+)

text \<open>Whether \<open>field_text\<close> finds the bytes it wants.\<close>

lemma field_text_bit:
  "fld_type f = ''bit'' \<Longrightarrow> field_text data f =
    (if unat (fld_offset f) < length data \<and> 0 \<le> fld_bit f \<and> fld_bit f \<le> 7
     then Some (if pbit data (unat (fld_offset f)) (nat (fld_bit f)) then ''1'' else ''0'') else None)"
  by (simp add: field_text_def read_u8_at_def drop_bit_and_1 show_nat_bit pbit_def Let_def)

lemma write_field_shown: "field_text (write_field f st data) f = field_shown f st"
proof (cases rule: field_type_cases [of f])
  case 5
  define off where "off = unat (fld_offset f)"
  show ?thesis
  proof (cases "fld_bit f < 0 \<or> fld_bit f > 7")
    case True
    then show ?thesis
      using 5 by (auto simp: field_text_bit field_shown_def)
  next
    case False
    then have "write_field f st data = write_bit data off (fld_bit f) (st_bool st)"
      "length (write_field f st data) = max (length data) (off + 1)"
      using 5 length_write_field [of f st data] by (simp_all add: write_field_def off_def field_width_def)
    moreover have "pbit (write_bit data off (fld_bit f) (st_bool st)) off (nat (fld_bit f)) = st_bool st"
      using False by (subst pbit_write_bit) auto
    ultimately show ?thesis
      using 5 False by (simp add: field_text_bit field_shown_def off_def less_max_iff_disj)
  qed
qed (auto simp: field_text_def field_shown_def write_field_def Let_def read_back_u32le read_back_u32be unat_cut_u8 unat_cut_u32
    read_u8_at_def write_u8_def less_max_iff_disj)

text \<open>
  What the receive window shows of a field depends on the bits of its footprint only, as long as
  the payload is long enough for it.
\<close>

lemma byte_from_pbit:
  assumes "i < length data" "length data \<le> length data'" "\<And>b. b < 8 \<Longrightarrow> pbit data' i b = pbit data i b"
  shows "data' ! i = data ! i"
  using assms by (intro bit_word_eqI) (auto simp: pbit_def)

lemma field_text_cong:
  assumes long: "unat (fld_offset f) + field_width f st \<le> length data" "length data \<le> length data'"
    and same: "\<And>i b. (i, b) \<in> footprint f st \<Longrightarrow> b < 8 \<Longrightarrow> pbit data' i b = pbit data i b"
  shows "field_text data' f = field_text data f"
proof (cases "fld_type f = ''bit''")
  case True
  then show ?thesis
    using long same [of "unat (fld_offset f)" "nat (fld_bit f)"]
    by (auto simp: field_text_bit footprint_def field_width_def nat_less_iff)
next
  case False
  have byte: "data' ! i = data ! i" if "unat (fld_offset f) \<le> i" "i < unat (fld_offset f) + field_width f st" for i
    using that long False by (intro byte_from_pbit same) (auto simp: footprint_def)
  show ?thesis
    using False long byte [of "unat (fld_offset f)"] byte [of "unat (fld_offset f) + 1"]
      byte [of "unat (fld_offset f) + 2"] byte [of "unat (fld_offset f) + 3"]
    by (cases rule: field_type_cases [of f])
      (auto simp: field_text_def field_width_def Let_def read_u8_at_def read_u32le_at_def read_u32be_at_def)
qed

lemma field_shown_None_text: "field_width f st = 0 \<Longrightarrow> field_text data f = None"
  by (cases rule: field_type_cases [of f])
    (auto simp: field_width_def field_text_bit split: if_splits, auto simp: field_text_def Let_def)

lemma fs_at_touch [simp]: "fs_at (fs_touch st n) m = fs_at st m"
  by (simp add: fs_touch_def fs_at_def)

lemma footprint_length: "field_width f st \<noteq> 0 \<Longrightarrow>
    unat (fld_offset f) + field_width f st \<le> length (write_field f st data)"
  by (simp add: length_write_field)

lemma write_fields_keeps:
  assumes "\<forall>f\<in>set fs. footprint f (fs_at st (fld_name f)) \<inter> footprint g sg = {}"
    and "unat (fld_offset g) + field_width g sg \<le> length data"
  shows "field_text (snd (write_fields fs st data)) g = field_text data g"
  using assms
proof (induction fs arbitrary: st data)
  case (Cons f fs)
  let ?data = "write_field f (fs_at st (fld_name f)) data"
  have "length data \<le> length ?data"
    by (simp add: length_write_field)
  with Cons.prems have "field_text (snd (write_fields fs (fs_touch st (fld_name f)) ?data)) g = field_text ?data g"
    by (intro Cons.IH) auto
  also have "\<dots> = field_text data g"
    using Cons.prems \<open>length data \<le> length ?data\<close> by (intro field_text_cong [where st = sg] write_field_other) auto
  finally show ?case
    by simp
qed simp

definition fields_disjoint :: "field_states \<Rightarrow> ProtoPlexerField list \<Rightarrow> bool" where
  "fields_disjoint st =
     sorted_wrt (\<lambda>f g. footprint f (fs_at st (fld_name f)) \<inter> footprint g (fs_at st (fld_name g)) = {})"

lemma write_fields_shown:
  assumes "fields_disjoint st fs" "f \<in> set fs"
  shows "field_text (snd (write_fields fs st data)) f = field_shown f (fs_at st (fld_name f))"
  using assms
proof (induction fs arbitrary: st data)
  case (Cons g fs)
  let ?sg = "fs_at st (fld_name g)"
  let ?data = "write_field g ?sg data"
  have rest: "fields_disjoint (fs_touch st (fld_name g)) fs"
    using Cons.prems(1) by (simp add: fields_disjoint_def)
  show ?case
  proof (cases "f \<in> set fs")
    case True
    then show ?thesis
      using Cons.IH [OF rest] by simp
  next
    case False
    with Cons.prems(2) have "f = g"
      by simp
    show ?thesis
    proof (cases "field_width g ?sg = 0")
      case True
      then show ?thesis
        using write_field_shown [of g ?sg data] \<open>f = g\<close> by (simp add: field_shown_None_text)
    next
      case False
      have "field_text (snd (write_fields fs (fs_touch st (fld_name g)) ?data)) g = field_text ?data g"
        using Cons.prems(1) footprint_length [OF False]
        by (intro write_fields_keeps [where sg = ?sg]) (auto simp: fields_disjoint_def)
      then show ?thesis
        using \<open>f = g\<close> by (simp add: write_field_shown)
    qed
  qed
qed simp


section \<open>The summary of a payload\<close>

text \<open>The pairs \<open>name=value\<close> of the fields that are shown, joined by blanks.\<close>

fun joined :: "string list \<Rightarrow> string" where
  "joined [] = []"
| "joined [x] = x"
| "joined (x # y # zs) = x @ '' '' @ joined (y # zs)"

fun pairs_of :: "(ProtoPlexerField \<Rightarrow> string option) \<Rightarrow> ProtoPlexerField list \<Rightarrow> string list" where
  "pairs_of val [] = []"
| "pairs_of val (f # fs) =
     (case val f of None \<Rightarrow> pairs_of val fs | Some v \<Rightarrow> (fld_name f @ ''='' @ v) # pairs_of val fs)"

lemma pairs_of_cong: "(\<And>f. f \<in> set fs \<Longrightarrow> val f = val' f) \<Longrightarrow> pairs_of val fs = pairs_of val' fs"
  by (induction fs) (auto split: option.split)

lemma summary_loop_joined:
  "summary_loop data fs out first =
    (if pairs_of (field_text data) fs = [] then out
     else out @ (if first then [] else '' '') @ joined (pairs_of (field_text data) fs))"
proof (induction data fs out first rule: summary_loop.induct)
  case (2 data f fs out first)
  then show ?case
    by (cases "field_text data f"; cases "pairs_of (field_text data) fs") auto
qed simp

lemma FormatPayloadSummary_joined:
  "FormatPayloadSummary d mid data =
    (case MessageDef d mid of None \<Rightarrow> [] | Some m \<Rightarrow> joined (pairs_of (field_text data) (mdef_fields m)))"
  by (auto simp: FormatPayloadSummary_def MessageDef_def summary_loop_joined split: option.split)

lemma payload_summary_shows_fields:
  assumes "MessageDef d mid = Some m" "fields_disjoint st (mdef_fields m)"
  shows "FormatPayloadSummary d mid (snd (update_payload_from_fields (MessageDef d mid) st)) =
    joined (pairs_of (\<lambda>f. field_shown f (fs_at st (fld_name f))) (mdef_fields m))"
  using assms(1) write_fields_shown [OF assms(2)]
  by (simp add: FormatPayloadSummary_joined update_payload_from_fields_def cong: pairs_of_cong)

text \<open>The states after the pass over the widgets hold no value that is too large for its field.\<close>

lemma fs_at_update [simp]: "fs_at (st(n \<mapsto> s)) k = (if k = n then s else fs_at st k)"
  by (simp add: fs_at_def)

lemma fields_input_other:
  "n \<notin> fld_name ` set fs \<Longrightarrow> fs_at (fields_input typed fs st) n = fs_at st n"
  unfolding fields_input_def by (induction fs arbitrary: st) auto

lemma fields_input_Cons:
  "fields_input typed (g # fs) st = fields_input typed fs (st(fld_name g \<mapsto> field_input typed g (fs_at st (fld_name g))))"
  by (simp add: fields_input_def)

lemma fields_input_at:
  assumes "distinct (map fld_name fs)" "f \<in> set fs"
  shows "fs_at (fields_input typed fs st) (fld_name f) = field_input typed f (fs_at st (fld_name f))"
  using assms
proof (induction fs arbitrary: st)
  case (Cons g fs)
  have g: "fld_name g \<notin> fld_name ` set fs" "distinct (map fld_name fs)"
    using Cons.prems(1) by simp_all
  show ?case
  proof (cases "f = g")
    case True
    show ?thesis
      unfolding True fields_input_Cons fields_input_other [OF g(1)] fs_at_update by simp
  next
    case False
    with Cons.prems(2) have "f \<in> set fs"
      by simp
    moreover from this g(1) have "fld_name f \<noteq> fld_name g"
      by (metis imageI)
    ultimately show ?thesis
      unfolding fields_input_Cons by (simp only: Cons.IH [OF g(2)] fs_at_update) simp
  qed
qed simp

text \<open>The value of a field as it stands in its widget.\<close>

definition field_display :: "ProtoPlexerField \<Rightarrow> ProtoPlexerFieldState \<Rightarrow> string option" where
  "field_display f st =
     (if fld_type f \<in> {''u8'', ''u32le'', ''u32be''} then Some (show_nat (unat (st_value st)))
      else if fld_type f = ''bit'' \<and> 0 \<le> fld_bit f \<and> fld_bit f \<le> 7 then Some (if st_bool st then ''1'' else ''0'')
      else None)"

lemma field_shown_input: "field_shown f (field_input typed f st) = field_display f (field_input typed f st)"
  by (cases rule: field_type_cases [of f])
    (auto simp: field_shown_def field_display_def field_input_def max_value_for_type_def Let_def word_less_nat_alt)

lemma write_fields_states: "fs_at (fst (write_fields fs st data)) n = fs_at st n"
  by (induction fs arbitrary: st data) auto

lemma fields_disjoint_states:
  "(\<And>n. fs_at st n = fs_at st' n) \<Longrightarrow> fields_disjoint st fs = fields_disjoint st' fs"
  by (simp add: fields_disjoint_def)

lemma tx_window_shown:
  assumes "ui_pp dict inp w = (w', Some msg)"
    and "MessageDef dict (ucast (m_pp_msg_id w')) = Some m" "mdef_fields m \<noteq> []"
    and "distinct (map fld_name (mdef_fields m))"
    and "fields_disjoint (s_pp_field_state w' (ucast (m_pp_msg_id w'))) (mdef_fields m)"
  shows "FormatPayloadSummary dict (pm_message_id msg) (pm_data msg) =
    joined (pairs_of (\<lambda>f. field_display f (fs_at (s_pp_field_state w' (ucast (m_pp_msg_id w'))) (fld_name f))) (mdef_fields m))"
proof -
  define mid where "mid = (ucast (m_pp_msg_id w') :: u16)"
  define v where "v = pp_selected dict inp w"
  define st where "st = fields_input (ppi_typed inp) (mdef_fields m) (s_pp_field_state v mid)"
  obtain st' payload where run: "write_fields (mdef_fields m) st [] = (st', payload)"
    by (cases "write_fields (mdef_fields m) st []")
  have empty: "parseHexBytes (hex_from_bytes []) = []"
    by (simp add: parseHexBytes_def hex_from_bytes_def)
  have same_id: "m_pp_msg_id w' = m_pp_msg_id v"
    using assms(1) by (auto simp: ui_pp_def pp_payload_def Let_def v_def split: option.splits prod.splits if_splits)
  have w': "s_pp_field_state w' mid = st'" "pm_message_id msg = mid" "pm_data msg = payload"
    using assms(1-3) run empty same_id
    by (auto simp: ui_pp_def pp_payload_def pp_message_def update_payload_from_fields_def Let_def st_def mid_def v_def [symmetric]
        split: if_splits)
  have same: "fs_at st' n = fs_at st n" for n
    using write_fields_states [of "mdef_fields m" st "[]" n] run by simp
  have "fields_disjoint st (mdef_fields m)"
    using assms(5) fields_disjoint_states [OF same] w'(1) by (simp add: mid_def)
  then have "FormatPayloadSummary dict mid payload = joined (pairs_of (\<lambda>f. field_shown f (fs_at st (fld_name f))) (mdef_fields m))"
    using payload_summary_shows_fields [of dict mid m st] assms(2) run
    by (simp add: mid_def update_payload_from_fields_def)
  also have "pairs_of (\<lambda>f. field_shown f (fs_at st (fld_name f))) (mdef_fields m) =
      pairs_of (\<lambda>f. field_display f (fs_at st (fld_name f))) (mdef_fields m)"
    using fields_input_at [OF assms(4)] by (intro pairs_of_cong) (simp add: st_def field_shown_input)
  finally show ?thesis
    using w' same by (simp add: mid_def)
qed

text \<open>
  C22. What the transmit window sends is what its widgets show: whatever message, addresses and
  priority the user selects in the pass and whatever is typed, when the fields of the message have
  distinct names and no two share bits of the payload, the receive window shows for the message
  that the button sends the names and the values that stand in the widgets after the pass, in the
  order of the dictionary, no value cut; fields of the types \<open>u16le\<close> and \<open>bytes\<close> are sent but not
  shown.
\<close>

theorem tx_window_sends_what_is_shown:
  assumes "ui_pp dict inp w = (w', Some msg)"
    and "MessageDef dict (ucast (m_pp_msg_id w')) = Some m" "mdef_fields m \<noteq> []"
    and "distinct (map fld_name (mdef_fields m))"
    and "fields_disjoint (s_pp_field_state w' (ucast (m_pp_msg_id w'))) (mdef_fields m)"
  shows "FormatPayloadSummary dict (pm_message_id msg) (pm_data msg) =
    joined (pairs_of (\<lambda>f. field_display f (fs_at (s_pp_field_state w' (ucast (m_pp_msg_id w'))) (fld_name f))) (mdef_fields m))"
  by (rule tx_window_shown [OF assms])

definition example_dict :: ProtoPlexerDictionary where
  "example_dict = \<lparr>m_messages = [(7, \<lparr>mdef_id = 7, mdef_name = ''Ping'', mdef_fields =
     [\<lparr>fld_name = ''a'', fld_type = ''u8'', fld_offset = 0, fld_size = 0, fld_bit = -1\<rparr>,
      \<lparr>fld_name = ''b'', fld_type = ''bit'', fld_offset = 1, fld_size = 0, fld_bit = 3\<rparr>,
      \<lparr>fld_name = ''c'', fld_type = ''u32be'', fld_offset = 2, fld_size = 0, fld_bit = -1\<rparr>]\<rparr>)],
     m_addresses = [(1, ''Node A''), (0x20, ''Node B'')]\<rparr>"

definition example_typed :: "ProtoPlexerField \<Rightarrow> ProtoPlexerFieldState \<Rightarrow> ProtoPlexerFieldState" where
  "example_typed f st = \<lparr>st_value = 300, st_bool = True, st_bytes_hex = []\<rparr>"

definition example_pp_input :: pp_input where
  "example_pp_input = \<lparr>ppi_msg_id = Some 0, ppi_from = None, ppi_to = Some 1, ppi_prio = Some 0x17, ppi_typed = example_typed,
     ppi_typed_hex = id, ppi_send = True\<rparr>"

lemmas example_run = ui_pp_def pp_selected_def combo_select_def MessageIds_def AddressIds_def example_pp_input_def pp_payload_def pp_message_def
  MessageDef_def example_dict_def tx_window_new_def
  fields_input_def field_input_def max_value_for_type_def example_typed_def update_payload_from_fields_def
  write_field_def write_u8_def write_bit_def write_u32be_def ensure_size_def fs_at_def fs_touch_def
  field_state_default_def word_less_nat_alt Let_def

theorem tx_window_sends_what_is_shown_witness:
  "case ui_pp example_dict example_pp_input tx_window_new of
     (_, Some msg) \<Rightarrow> pm_data msg = [255, 8, 0, 0, 1, 44] \<and>
       FormatPayloadSummary example_dict (pm_message_id msg) (pm_data msg) = ''a=255 b=1 c=300''
   | _ \<Rightarrow> False"
proof -
  obtain w' m where run: "ui_pp example_dict example_pp_input tx_window_new = (w', m)"
    by (cases "ui_pp example_dict example_pp_input tx_window_new")
  have two: "replicate 2 0 = [0, 0 :: u8]"
    by (simp add: numeral_2_eq_2)
  have "map_option pm_data (snd (ui_pp example_dict example_pp_input tx_window_new)) = Some [255, 8, 0, 0, 1, 44]"
    by (simp add: example_run two)
  then obtain msg where m: "m = Some msg" "pm_data msg = [255, 8, 0, 0, 1, 44]"
    using run by auto
  have mid: "(ucast (m_pp_msg_id w') :: u16) = 7"
    using run by (auto simp: example_run two)
  let ?st = "s_pp_field_state (fst (ui_pp example_dict example_pp_input tx_window_new)) 7"
  have st: "fs_at ?st ''a'' = \<lparr>st_value = 255, st_bool = False, st_bytes_hex = []\<rparr>"
    "fs_at ?st ''b'' = \<lparr>st_value = 0, st_bool = True, st_bytes_hex = []\<rparr>"
    "fs_at ?st ''c'' = \<lparr>st_value = 300, st_bool = False, st_bytes_hex = []\<rparr>"
    by (simp_all add: example_run two)
  have shown: "show_nat 255 = ''255''" "show_nat 300 = ''300''"
    by (simp_all add: show_nat.simps digit_char_def, code_simp+)
  define fs where "fs = mdef_fields (snd (hd (m_messages example_dict)))"
  have def: "MessageDef example_dict 7 = Some (snd (hd (m_messages example_dict)))"
    by (simp add: MessageDef_def example_dict_def)
  have "fields_disjoint ?st fs" "distinct (map fld_name fs)" "fs \<noteq> []"
    using st by (auto simp: fs_def example_dict_def fields_disjoint_def footprint_def field_width_def)
  from tx_window_sends_what_is_shown [OF run [unfolded m(1)], unfolded mid, OF def] this run m
  have "FormatPayloadSummary example_dict (pm_message_id msg) (pm_data msg) =
    joined (pairs_of (\<lambda>f. field_display f (fs_at ?st (fld_name f))) fs)"
    by (simp add: fs_def)
  also have "\<dots> = ''a=255 b=1 c=300''"
    using st shown by (simp add: fs_def example_dict_def field_display_def)
  finally show ?thesis
    using run m by simp
qed

end
