(* ===== verification/CanManager.thy ===== *)
theory CanManager
  imports Factory TxPayload PpDelivery "HOL-Library.Char_ord" "HOL-Library.List_Lexorder"
begin

text \<open>
  The CAN manager of the application (\<open>src_app/can_types.h\<close>, \<open>src_app/can_mgr.h\<close>,
  \<open>src_app/can_mgr.cpp\<close>): connecting to a device of the factory, the queue of packets to send, the
  subscribers, and the worker that receives, reassembles ProtoPlexer messages and sends.

  The channel is a state with the table of operations \<open>ops_of\<close>, as in \<open>CanChannel\<close>; connecting
  makes it with the factory. What the worker does that can be seen from outside is a list of
  events: the handlers it calls, the frames it gives to the channel, the pauses. The functions here
  run by themselves; how the worker and \<open>Disconnect\<close> interleave is the theory \<open>ManagerThread\<close>.
  A shared pointer to a message is its content, \<open>None\<close> for null; \<open>memory\<close> is what answers the
  allocations of a run.
\<close>

section \<open>Data\<close>

datatype ParseBackend = RawCan | ProtoPlexer

record ProtoPlexerConfig =
  pc_own_address :: u16
  pc_max_channels :: u16
  pc_max_chunk_length :: u16
  pc_monitoring :: bool

definition protoplexer_config_default :: ProtoPlexerConfig where
  "protoplexer_config_default =
     \<lparr>pc_own_address = 0x00F, pc_max_channels = 16, pc_max_chunk_length = of_nat UNI_CAN_MESSAGE_MAXLEN, pc_monitoring = True\<rparr>"

datatype packet = CanPacket "uni_can_message option" | PpPacket ProtoPlexerMessage

datatype CanManagerState = STANDBY | CAN_ERROR | CONNECTING | OPERATING

record ConnectParams =
  cp_device_index :: nat
  cp_baudrate :: nat
  cp_backend :: ParseBackend
  cp_protoplexer :: ProtoPlexerConfig

record ('ch, 'h) CanManager =
  m_can_channel :: "'ch option"
  m_backend_cfg :: ParseBackend
  m_pp_cfg_cfg :: ProtoPlexerConfig
  m_backend_active :: ParseBackend
  m_pp_cfg_active :: ProtoPlexerConfig
  m_pp_ctx :: uni_can_protoplexer_ctx
  m_pp_inited :: bool
  m_tx_queue :: "packet list"
  m_info_names :: "string list"
  m_receive_subs :: "(string \<times> 'h) list"
  m_state :: CanManagerState
  m_thread :: bool
  m_thread_abort :: bool
  m_transmit_throttle :: u32

definition can_manager_new :: "('ch, 'h) CanManager" where
  "can_manager_new = \<lparr>m_can_channel = None, m_backend_cfg = RawCan, m_pp_cfg_cfg = protoplexer_config_default,
     m_backend_active = RawCan, m_pp_cfg_active = protoplexer_config_default, m_pp_ctx = pp_ctx_zero, m_pp_inited = False,
     m_tx_queue = [], m_info_names = [], m_receive_subs = [], m_state = STANDBY, m_thread = False,
     m_thread_abort = False, m_transmit_throttle = 0\<rparr>"

record memory =
  mem_object :: bool
  mem_block :: heap

definition mgr_memory_ok :: "memory \<Rightarrow> bool" where
  "mgr_memory_ok mem \<longleftrightarrow> mem_object mem \<and> heap_total (mem_block mem)"

datatype 'h mgr_event = Called 'h packet | Transmitted uni_can_message bool | Slept u32


section \<open>Connecting\<close>

definition stateSet :: "CanManagerState \<Rightarrow> ('ch, 'h) CanManager \<Rightarrow> ('ch, 'h) CanManager" where
  "stateSet val m = m\<lparr>m_state := val\<rparr>"

text \<open>
  \<open>Disconnect\<close>, when the worker has ended where it waits for it; the second result is what is left
  of the channel after it was closed and destroyed.
\<close>

definition Disconnect ::
  "('ch \<Rightarrow> ('ch, 'f, 'c) uni_can_channel_ops option) \<Rightarrow> ('ch, 'h) CanManager \<Rightarrow> ('ch, 'h) CanManager \<times> 'ch option" where
  "Disconnect ops_of m =
     (let m = m\<lparr>m_thread_abort := True\<rparr>;
          m = (if m_thread m then m\<lparr>m_thread := False\<rparr> else m);
          gone = (if m_can_channel m \<noteq> None
                  then snd (uni_can_channel_destroy ops_of (snd (uni_can_channel_close ops_of (m_can_channel m))))
                  else None);
          m = m\<lparr>m_can_channel := None\<rparr>;
          m = (if m_pp_inited m
               then m\<lparr>m_pp_ctx := (case fst (uni_can_protoplexer_deinit (Some (m_pp_ctx m))) of Some c \<Rightarrow> c | None \<Rightarrow> m_pp_ctx m),
                      m_pp_inited := False\<rparr>
               else m);
          m = m\<lparr>m_tx_queue := []\<rparr>;
          m = m\<lparr>m_backend_active := RawCan, m_pp_cfg_active := protoplexer_config_default\<rparr>
      in (stateSet STANDBY m, gone))"

definition devinfo_zero :: uni_can_devinfo where
  "devinfo_zero = \<lparr>dev_manufacturer = [], dev_model = [], dev_sn = [], dev_provider = [], dev_index = 0, dev_chancnt = 0\<rparr>"

definition info_name :: "uni_can_devinfo \<Rightarrow> string" where
  "info_name info = dev_manufacturer info @ '' '' @ dev_model info @ '' '' @ dev_sn info"

definition InfoRefresh ::
  "('p, 's) provider list \<Rightarrow> ('p, 's) factory \<Rightarrow> ('ch, 'h) CanManager \<Rightarrow> ('ch, 'h) CanManager \<times> ('p, 's) factory" where
  "InfoRefresh built_in g m =
     (let (size, g) = uni_can_factory_refresh built_in g;
          infos = map (\<lambda>idx. case snd (uni_can_factory_get_info g (Some devinfo_zero) idx) of
                               Some info \<Rightarrow> info | None \<Rightarrow> devinfo_zero) [0..<size]
      in (m\<lparr>m_info_names := map info_name infos\<rparr>, g))"

definition InfoGetCount ::
  "('p, 's) provider list \<Rightarrow> ('p, 's) factory \<Rightarrow> ('ch, 'h) CanManager \<Rightarrow> nat \<times> ('ch, 'h) CanManager \<times> ('p, 's) factory" where
  "InfoGetCount built_in g m =
     (let (m, g) = (if m_info_names m = [] then InfoRefresh built_in g m else (m, g))
      in (length (m_info_names m), m, g))"

definition InfoGetName ::
  "('p, 's) provider list \<Rightarrow> ('p, 's) factory \<Rightarrow> ('ch, 'h) CanManager \<Rightarrow> nat
    \<Rightarrow> string \<times> ('ch, 'h) CanManager \<times> ('p, 's) factory" where
  "InfoGetName built_in g m idx =
     (let (n, m, g) = InfoGetCount built_in g m
      in if idx \<ge> n then ([], m, g) else (m_info_names m ! idx, m, g))"

text \<open>
  The part of \<open>Connect\<close> that makes and opens the channel; \<open>handler\<close> and \<open>this\<close> are what the channel
  is given to call. A channel that could be made but not opened stays in the manager.
\<close>

definition connect_channel ::
  "'f \<Rightarrow> 'c \<Rightarrow> 'c \<Rightarrow> ConnectParams \<Rightarrow> ('p, 's) factory \<Rightarrow> (('s, 'f, 'c) CanChannelAdapter, 'h) CanManager
    \<Rightarrow> bool \<times> (('s, 'f, 'c) CanChannelAdapter, 'h) CanManager \<times> ('p, 's) factory" where
  "connect_channel handler this null_cookie params g m =
     (case uni_can_factory_get_info g (Some devinfo_zero) (cp_device_index params) of
        (False, _) \<Rightarrow> (False, m, g)
      | (True, info) \<Rightarrow>
          (case uni_can_factory_create_channel null_cookie g info 0 (of_nat (cp_baudrate params)) of
             (None, g) \<Rightarrow> (False, m\<lparr>m_can_channel := None\<rparr>, g)
           | (Some ch, g) \<Rightarrow>
               (case uni_can_channel_init adapter_ops_of (Some ch) of
                  (False, ch) \<Rightarrow> (False, m\<lparr>m_can_channel := ch\<rparr>, g)
                | (True, ch) \<Rightarrow>
                    let ch = snd (uni_can_channel_set_receive_handler adapter_ops_of ch (Some handler) this);
                        (result, ch) = uni_can_channel_open adapter_ops_of ch
                    in (result, m\<lparr>m_can_channel := ch\<rparr>, g))))"

definition connect_backend :: "memory \<Rightarrow> ConnectParams \<Rightarrow> ('ch, 'h) CanManager \<Rightarrow> bool \<times> ('ch, 'h) CanManager" where
  "connect_backend mem params m =
     (let m = m\<lparr>m_backend_active := cp_backend params, m_pp_cfg_active := cp_protoplexer params\<rparr> in
      if m_backend_active m = ProtoPlexer
      then
        (let a = m_pp_cfg_active m;
             cfg = \<lparr>ppf_own_address = pc_own_address a, ppf_max_chunk_length = pc_max_chunk_length a,
                    ppf_max_channels = pc_max_channels a, ppf_monitoring = pc_monitoring a,
                    ppf_max_payload = 0, ppf_rx_buffers = None, ppf_rx_payload = None\<rparr>;
             (ctx, inited) = uni_can_protoplexer_init (mem_object mem) (Some (m_pp_ctx m)) (Some cfg);
             m = m\<lparr>m_pp_ctx := (case ctx of Some c \<Rightarrow> c | None \<Rightarrow> m_pp_ctx m), m_pp_inited := inited\<rparr>
         in (m_pp_inited m, m))
      else (True, m))"

text \<open>The third result: what is left of the channels that were closed and destroyed on the way.\<close>

definition Connect ::
  "'f \<Rightarrow> 'c \<Rightarrow> 'c \<Rightarrow> memory \<Rightarrow> ('p, 's) provider list \<Rightarrow> ConnectParams \<Rightarrow> ('p, 's) factory
    \<Rightarrow> (('s, 'f, 'c) CanChannelAdapter, 'h) CanManager
    \<Rightarrow> bool \<times> (('s, 'f, 'c) CanChannelAdapter, 'h) CanManager \<times> ('s, 'f, 'c) CanChannelAdapter option list \<times> ('p, 's) factory" where
  "Connect handler this null_cookie mem built_in params g m =
     (let (m, gone) = Disconnect adapter_ops_of m;
          m = m\<lparr>m_backend_cfg := cp_backend params, m_pp_cfg_cfg := cp_protoplexer params\<rparr>;
          (m, g) = (if m_info_names m = [] then InfoRefresh built_in g m else (m, g))
      in
        if cp_device_index params \<ge> length (m_info_names m) then (False, stateSet CAN_ERROR m, [gone], g)
        else
          let m = stateSet CONNECTING m;
              (result, m, g) = connect_channel handler this null_cookie params g m
          in
            if \<not> result
            then (let (m, gone') = Disconnect adapter_ops_of m in (False, stateSet CAN_ERROR m, [gone, gone'], g))
            else
              let (result, m) = connect_backend mem params m
              in
                if \<not> result
                then (let (m, gone') = Disconnect adapter_ops_of m in (False, stateSet CAN_ERROR m, [gone, gone'], g))
                else (True, (stateSet OPERATING m)\<lparr>m_thread := True\<rparr>, [gone], g))"

definition connect_raw ::
  "'f \<Rightarrow> 'c \<Rightarrow> 'c \<Rightarrow> memory \<Rightarrow> ('p, 's) provider list \<Rightarrow> nat \<Rightarrow> nat \<Rightarrow> ('p, 's) factory
    \<Rightarrow> (('s, 'f, 'c) CanChannelAdapter, 'h) CanManager
    \<Rightarrow> bool \<times> (('s, 'f, 'c) CanChannelAdapter, 'h) CanManager \<times> ('s, 'f, 'c) CanChannelAdapter option list \<times> ('p, 's) factory" where
  "connect_raw handler this null_cookie mem built_in idx baudrate g m =
     Connect handler this null_cookie mem built_in
       \<lparr>cp_device_index = idx, cp_baudrate = baudrate, cp_backend = RawCan, cp_protoplexer = protoplexer_config_default\<rparr> g m"

definition IsConnected :: "('ch, 'h) CanManager \<Rightarrow> bool" where
  "IsConnected m \<longleftrightarrow> m_can_channel m \<noteq> None"


section \<open>Packets and subscribers\<close>

definition mgr_SendMessage :: "memory \<Rightarrow> uni_can_message option \<Rightarrow> ('ch, 'h) CanManager \<Rightarrow> ('ch, 'h) CanManager" where
  "mgr_SendMessage mem msg m =
     (case msg of
        None \<Rightarrow> m
      | Some x \<Rightarrow>
          (case uni_can_message_clone (mem_object mem) (mem_block mem) x of
             None \<Rightarrow> m
           | Some c \<Rightarrow> m\<lparr>m_tx_queue := m_tx_queue m @ [CanPacket (Some c)]\<rparr>))"

definition SendProtoPlexer :: "ProtoPlexerMessage \<Rightarrow> ('ch, 'h) CanManager \<Rightarrow> ('ch, 'h) CanManager" where
  "SendProtoPlexer msg m = m\<lparr>m_tx_queue := m_tx_queue m @ [PpPacket msg]\<rparr>"

text \<open>The map of the subscribers is kept in the order of its keys; a key that is there is kept.\<close>

definition ReceiveSubscribe :: "string \<Rightarrow> 'h \<Rightarrow> ('ch, 'h) CanManager \<Rightarrow> ('ch, 'h) CanManager" where
  "ReceiveSubscribe name function m =
     (if name \<in> fst ` set (m_receive_subs m) then m
      else m\<lparr>m_receive_subs := insort_key fst (name, function) (m_receive_subs m)\<rparr>)"

definition ReceiveUnsubscribe :: "string \<Rightarrow> ('ch, 'h) CanManager \<Rightarrow> ('ch, 'h) CanManager" where
  "ReceiveUnsubscribe name m = m\<lparr>m_receive_subs := filter (\<lambda>s. fst s \<noteq> name) (m_receive_subs m)\<rparr>"

definition receiveAction :: "packet \<Rightarrow> ('ch, 'h) CanManager \<Rightarrow> 'h mgr_event list" where
  "receiveAction msg m = map (\<lambda>sub. Called (snd sub) msg) (m_receive_subs m)"

definition transmitAction :: "('ch, 'h) CanManager \<Rightarrow> 'h mgr_event list" where
  "transmitAction m = (if m_transmit_throttle m > 0 then [Slept (m_transmit_throttle m)] else [])"


section \<open>The worker\<close>

text \<open>The receiving half of a round: whether there was a message, and what was done with it.\<close>

definition mgr_receive ::
  "('ch \<Rightarrow> ('ch, 'f, 'c) uni_can_channel_ops option) \<Rightarrow> memory \<Rightarrow> ('ch, 'h) CanManager
    \<Rightarrow> bool \<times> ('ch, 'h) CanManager \<times> 'h mgr_event list" where
  "mgr_receive ops_of mem m =
     (if m_can_channel m = None then (False, m, [])
      else
        (case uni_can_channel_receive ops_of (mem_object mem) (m_can_channel m) of
           (None, ch) \<Rightarrow> (False, m\<lparr>m_can_channel := ch\<rparr>, [])
         | (Some msg, ch) \<Rightarrow>
             let m = m\<lparr>m_can_channel := ch\<rparr>;
                 raw = (case uni_can_message_clone (mem_object mem) (mem_block mem) msg of
                          None \<Rightarrow> [] | Some c \<Rightarrow> receiveAction (CanPacket (Some c)) m)
             in
               if m_backend_active m = ProtoPlexer
               then
                 (case uni_can_protoplexer_add_chunk (mem_block mem) (mem_object mem) (mem_block mem)
                         (Some (m_pp_ctx m)) (Some msg) True of
                    (ctx, _, out_msg) \<Rightarrow>
                      let m = m\<lparr>m_pp_ctx := (case ctx of Some c \<Rightarrow> c | None \<Rightarrow> m_pp_ctx m)\<rparr>
                      in (True, m,
                          raw @ (case out_msg of
                                   None \<Rightarrow> []
                                 | Some x \<Rightarrow> receiveAction (PpPacket \<lparr>pm_message_id = ppm_message_id x,
                                     pm_address_from = ppm_address_from x, pm_address_to = ppm_address_to x,
                                     pm_priority_inverted = ppm_priority_inverted x,
                                     pm_data = take (unat (ppm_length x)) (case ppm_data x of None \<Rightarrow> [] | Some bs \<Rightarrow> bs)\<rparr>) m)))
               else (True, m, raw)))"

fun mgr_transmit_frames ::
  "('ch \<Rightarrow> ('ch, 'f, 'c) uni_can_channel_ops option) \<Rightarrow> uni_can_message list \<Rightarrow> ('ch, 'h) CanManager
    \<Rightarrow> ('ch, 'h) CanManager \<times> 'h mgr_event list" where
  "mgr_transmit_frames ops_of [] m = (m, [])"
| "mgr_transmit_frames ops_of (f # fs) m =
     (case uni_can_channel_transmit ops_of (m_can_channel m) (Some f) of
        (ok, ch) \<Rightarrow>
          let m = m\<lparr>m_can_channel := ch\<rparr>;
              (m', evs) = mgr_transmit_frames ops_of fs m
          in (m', Transmitted f ok # transmitAction m @ evs))"

text \<open>The frames of a packet of the queue; \<open>None\<close> when the packet is passed over.\<close>

definition packet_frames :: "memory \<Rightarrow> ParseBackend \<Rightarrow> u16 \<Rightarrow> packet \<Rightarrow> uni_can_message list option" where
  "packet_frames mem active max_chunk item =
     (case item of
        CanPacket None \<Rightarrow> None
      | CanPacket (Some x) \<Rightarrow> Some [x]
      | PpPacket pm \<Rightarrow>
          if active \<noteq> ProtoPlexer then None
          else
            (case uni_can_protoplexer_msg_create (mem_object mem) (mem_block mem) (pm_message_id pm) (pm_address_from pm)
                    (pm_address_to pm) (pm_priority_inverted pm) (Some (pm_data pm)) (of_nat (length (pm_data pm))) of
               None \<Rightarrow> None
             | Some tx_msg \<Rightarrow>
                 (case uni_can_protoplexer_build_chunks (mem_object mem) (Some tx_msg) max_chunk True of
                    (PP_OK, Some chunks, chunks_count) \<Rightarrow> Some (take chunks_count chunks)
                  | _ \<Rightarrow> None)))"

text \<open>The sending half: the packets of the queue, \<open>again\<close> being the flag of the round.\<close>

fun mgr_transmit ::
  "('ch \<Rightarrow> ('ch, 'f, 'c) uni_can_channel_ops option) \<Rightarrow> memory \<Rightarrow> packet list \<Rightarrow> bool \<Rightarrow> ('ch, 'h) CanManager
    \<Rightarrow> bool \<times> ('ch, 'h) CanManager \<times> 'h mgr_event list" where
  "mgr_transmit ops_of mem [] again m = (again, m\<lparr>m_tx_queue := []\<rparr>, [])"
| "mgr_transmit ops_of mem (item # items) again m =
     (if m_can_channel m = None then (again, m\<lparr>m_tx_queue := item # items\<rparr>, [])
      else
        (case packet_frames mem (m_backend_active m) (pc_max_chunk_length (m_pp_cfg_active m)) item of
           None \<Rightarrow> mgr_transmit ops_of mem items again m
         | Some frames \<Rightarrow>
             let (m, evs) = mgr_transmit_frames ops_of frames m;
                 (again, m, evs') = mgr_transmit ops_of mem items True m
             in (again, m, evs @ evs')))"

definition mgr_round ::
  "('ch \<Rightarrow> ('ch, 'f, 'c) uni_can_channel_ops option) \<Rightarrow> memory \<Rightarrow> ('ch, 'h) CanManager
    \<Rightarrow> bool \<times> ('ch, 'h) CanManager \<times> 'h mgr_event list" where
  "mgr_round ops_of mem m =
     (let (again, m, evs) = mgr_receive ops_of mem m;
          (again, m, evs') = mgr_transmit ops_of mem (m_tx_queue m) again m
      in (again, m, evs @ evs'))"

text \<open>
  \<open>threadFunctionOperating\<close> from the moment it wakes up until it waits again: \<open>None\<close> when the loop
  does not end.
\<close>

partial_function (option) threadFunctionOperating ::
  "('ch \<Rightarrow> ('ch, 'f, 'c) uni_can_channel_ops option) \<Rightarrow> memory \<Rightarrow> ('ch, 'h) CanManager
    \<Rightarrow> (('ch, 'h) CanManager \<times> 'h mgr_event list) option" where
  [code]: "threadFunctionOperating ops_of mem m =
     (if m_thread_abort m then Some (m, [])
      else
        (case mgr_round ops_of mem m of
           (again, m, evs) \<Rightarrow>
             if again
             then Option.bind (threadFunctionOperating ops_of mem m) (\<lambda>(m, evs'). Some (m, evs @ evs'))
             else Some (m, evs)))"

end
