(* ===== verification/ManagerRun.thy ===== *)
theory ManagerRun
  imports CanManager
begin

text \<open>
  What the functions of the CAN manager do (\<open>src_app/can_mgr.cpp\<close>): the outcome of connecting, the
  run of the worker over everything that is pending and queued, and a ProtoPlexer message from the
  queue of one manager to the subscribers of another.
\<close>

section \<open>Connecting\<close>

lemma disconnect_channel_gone:
  "snd (Disconnect adapter_ops_of m) = Some a \<Longrightarrow> ad_deleted a"
  by (auto simp: Disconnect_def Let_def uni_can_channel_close_def uni_can_channel_destroy_def channel_pass_def
      uni_can_channel_ops_get_def adapter_ops_of_def adapter_ops_def adapter_close_def adapter_destroy_def
      split: option.splits prod.splits if_splits)

text \<open>The manager without a connection.\<close>

definition mgr_standby :: "('ch, 'h) CanManager \<Rightarrow> bool" where
  "mgr_standby m \<longleftrightarrow> \<not> IsConnected m \<and> \<not> m_thread m \<and> \<not> m_pp_inited m \<and> m_tx_queue m = [] \<and> m_backend_active m = RawCan"

lemma disconnect_standby:
  "mgr_standby (fst (Disconnect ops_of m))" "m_state (fst (Disconnect ops_of m)) = STANDBY"
  "m_info_names (fst (Disconnect ops_of m)) = m_info_names m" "m_receive_subs (fst (Disconnect ops_of m)) = m_receive_subs m"
  "m_backend_cfg (fst (Disconnect ops_of m)) = m_backend_cfg m" "m_pp_cfg_cfg (fst (Disconnect ops_of m)) = m_pp_cfg_cfg m"
  by (simp_all add: Disconnect_def Let_def mgr_standby_def stateSet_def IsConnected_def)

definition mgr_connected :: "ParseBackend \<Rightarrow> ('ch, 'h) CanManager \<Rightarrow> bool" where
  "mgr_connected backend m \<longleftrightarrow> IsConnected m \<and> m_thread m \<and> m_state m = OPERATING \<and> m_tx_queue m = [] \<and>
     m_backend_active m = backend \<and> m_pp_cfg_active m = m_pp_cfg_cfg m \<and> (m_pp_inited m \<longleftrightarrow> backend = ProtoPlexer) \<and>
     (m_pp_inited m \<longrightarrow> pp_wf (m_pp_ctx m) \<and> pp_abs (m_pp_ctx m) = Map.empty \<and>
        6 \<le> unat (pc_max_chunk_length (m_pp_cfg_active m)) \<and> unat (pc_max_chunk_length (m_pp_cfg_active m)) \<le> 8)"

lemma connect_channel_result:
  assumes "connect_channel handler this nc params g m = (True, m', g')"
  shows "\<exists>ch. m' = m\<lparr>m_can_channel := Some ch\<rparr>"
  using assms
  by (auto simp: connect_channel_def Let_def uni_can_channel_init_def uni_can_channel_open_def
      uni_can_channel_set_receive_handler_def channel_pass_def uni_can_channel_ops_get_def
      split: option.splits prod.splits bool.splits if_splits)

lemma connect_channel_keeps:
  assumes "connect_channel handler this nc params g m = (r, m', g')"
  shows "m_backend_cfg m' = m_backend_cfg m \<and> m_pp_cfg_cfg m' = m_pp_cfg_cfg m"
  using assms
  by (auto simp: connect_channel_def Let_def split: option.splits prod.splits bool.splits if_splits)

lemma connect_backend_true:
  assumes "connect_backend mem params m = (True, m')" "\<not> m_pp_inited m"
  shows "m_backend_active m' = cp_backend params \<and> m_pp_cfg_active m' = cp_protoplexer params \<and>
    (m_pp_inited m' \<longleftrightarrow> cp_backend params = ProtoPlexer) \<and>
    (m_pp_inited m' \<longrightarrow> pp_wf (m_pp_ctx m') \<and> pp_abs (m_pp_ctx m') = Map.empty \<and>
      6 \<le> unat (pc_max_chunk_length (m_pp_cfg_active m')) \<and> unat (pc_max_chunk_length (m_pp_cfg_active m')) \<le> 8) \<and>
    m_can_channel m' = m_can_channel m \<and> m_tx_queue m' = m_tx_queue m \<and> m_thread m' = m_thread m \<and>
    m_backend_cfg m' = m_backend_cfg m \<and> m_pp_cfg_cfg m' = m_pp_cfg_cfg m"
proof (cases "cp_backend params = ProtoPlexer")
  case False
  then show ?thesis
    using assms by (auto simp: connect_backend_def)
next
  case True
  let ?a = "cp_protoplexer params"
  let ?cfg = "\<lparr>ppf_own_address = pc_own_address ?a, ppf_max_chunk_length = pc_max_chunk_length ?a,
    ppf_max_channels = pc_max_channels ?a, ppf_monitoring = pc_monitoring ?a, ppf_max_payload = 0,
    ppf_rx_buffers = None, ppf_rx_payload = None\<rparr>"
  obtain ctx i where init: "uni_can_protoplexer_init (mem_object mem) (Some (m_pp_ctx m)) (Some ?cfg) = (ctx, i)"
    by (cases "uni_can_protoplexer_init (mem_object mem) (Some (m_pp_ctx m)) (Some ?cfg)")
  then have i: "i" and m': "m' = m\<lparr>m_backend_active := ProtoPlexer, m_pp_cfg_active := ?a,
      m_pp_ctx := (case ctx of Some c \<Rightarrow> c | None \<Rightarrow> m_pp_ctx m), m_pp_inited := True\<rparr>"
    using assms(1) True by (cases ctx; auto simp: connect_backend_def Let_def)+
  then obtain c where c: "ctx = Some c"
    using init by (auto simp: uni_can_protoplexer_init_def uni_can_protoplexer_init_common_def Let_def split: if_splits)
  have "pp_wf c \<and> pp_abs c = Map.empty"
    using init_fresh [of "mem_object mem" "m_pp_ctx m" ?cfg c] init i c by simp
  moreover have "6 \<le> unat (pc_max_chunk_length ?a) \<and> unat (pc_max_chunk_length ?a) \<le> 8"
    using init i
    by (auto simp: uni_can_protoplexer_init_def uni_can_protoplexer_init_common_def Let_def pp_const_defs
        UNI_CAN_MESSAGE_MAXLEN_def not_less split: if_splits)
  ultimately show ?thesis
    using m' c True by simp
qed

lemma connect_outcome:
  assumes "Connect handler this nc mem built_in params g m = (ok, m', gone, g')"
  shows "m_backend_cfg m' = cp_backend params \<and> m_pp_cfg_cfg m' = cp_protoplexer params \<and>
    (ok \<and> mgr_connected (cp_backend params) m' \<or> \<not> ok \<and> mgr_standby m' \<and> m_state m' = CAN_ERROR) \<and>
    list_all (\<lambda>ch. case ch of None \<Rightarrow> True | Some a \<Rightarrow> ad_deleted a) gone"
proof -
  have dead: "case snd (Disconnect adapter_ops_of x) of None \<Rightarrow> True | Some a \<Rightarrow> ad_deleted a"
    for x :: "(('a, 'b, 'c) CanChannelAdapter, 'd) CanManager"
    using disconnect_channel_gone [of x] by (simp split: option.split)
  obtain m0 g0 where start: "Disconnect adapter_ops_of m = (m0, g0)"
    by (cases "Disconnect adapter_ops_of m")
  define m1 where "m1 = m0\<lparr>m_backend_cfg := cp_backend params, m_pp_cfg_cfg := cp_protoplexer params\<rparr>"
  obtain m2 g2 where refresh: "(if m_info_names m1 = [] then InfoRefresh built_in g m1 else (m1, g)) = (m2, g2)"
    by (metis surj_pair)
  note run = assms [unfolded Connect_def Let_def start prod.case, folded m1_def, unfolded refresh prod.case]
  have m2: "m_backend_cfg m2 = cp_backend params" "m_pp_cfg_cfg m2 = cp_protoplexer params" "mgr_standby m2"
    using refresh start disconnect_standby(1) [of adapter_ops_of m]
    by (auto simp: m1_def InfoRefresh_def mgr_standby_def IsConnected_def split: if_splits prod.splits)
  show ?thesis
  proof (cases "cp_device_index params \<ge> length (m_info_names m2)")
    case True
    then have "ok = False" "m' = stateSet CAN_ERROR m2" "gone = [g0]"
      using run by auto
    then show ?thesis
      using m2 dead [of m] start by (simp add: stateSet_def mgr_standby_def IsConnected_def)
  next
    case False
    obtain r m3 g3 where ch: "connect_channel handler this nc params g2 (stateSet CONNECTING m2) = (r, m3, g3)"
      by (metis prod_cases3)
    have m3: "m_backend_cfg m3 = cp_backend params" "m_pp_cfg_cfg m3 = cp_protoplexer params"
      using connect_channel_keeps [OF ch] m2 by (simp_all add: stateSet_def)
    have failed: ?thesis if "ok = False" "(m', gone) = (stateSet CAN_ERROR (fst (Disconnect adapter_ops_of x)), [g0, snd (Disconnect adapter_ops_of x)])"
      "m_backend_cfg x = cp_backend params" "m_pp_cfg_cfg x = cp_protoplexer params" for x
      using that dead [of m] dead [of x] start disconnect_standby [of adapter_ops_of x]
      by (simp add: stateSet_def mgr_standby_def IsConnected_def)
    show ?thesis
    proof (cases r)
      case False
      with run ch \<open>\<not> length (m_info_names m2) \<le> cp_device_index params\<close>
      have "ok = False" "(m', gone) = (stateSet CAN_ERROR (fst (Disconnect adapter_ops_of m3)), [g0, snd (Disconnect adapter_ops_of m3)])"
        by (auto split: prod.splits)
      then show ?thesis
        using m3 by (rule failed)
    next
      case True
      then obtain a where a: "m3 = (stateSet CONNECTING m2)\<lparr>m_can_channel := Some a\<rparr>"
        using connect_channel_result [of handler this nc params g2 "stateSet CONNECTING m2" m3 g3] ch True by auto
      obtain r' m4 where be: "connect_backend mem params m3 = (r', m4)"
        by (metis surj_pair)
      have m4: "m_backend_cfg m4 = cp_backend params" "m_pp_cfg_cfg m4 = cp_protoplexer params"
        using be m3 by (auto simp: connect_backend_def Let_def split: prod.splits if_splits)
      show ?thesis
      proof (cases r')
        case False
        with run ch be True \<open>\<not> length (m_info_names m2) \<le> cp_device_index params\<close>
        have "ok = False" "(m', gone) = (stateSet CAN_ERROR (fst (Disconnect adapter_ops_of m4)), [g0, snd (Disconnect adapter_ops_of m4)])"
          by (auto split: prod.splits)
        then show ?thesis
          using m4 by (rule failed)
      next
        case r': True
        then have "ok" "m' = (stateSet OPERATING m4)\<lparr>m_thread := True\<rparr>" "gone = [g0]"
          using run ch be True False by auto
        moreover have "\<not> m_pp_inited m3"
          using a m2(3) by (simp add: stateSet_def mgr_standby_def)
        ultimately show ?thesis
          using connect_backend_true [of mem params m3 m4] be r' m4 a m2(3) dead [of m] start
          by (auto simp: mgr_connected_def IsConnected_def stateSet_def mgr_standby_def)
      qed
    qed
  qed
qed

text \<open>
  C30. Connecting either succeeds or leaves the manager as it is when nothing is connected. On
  success there is a channel and a worker, the state is OPERATING, the configuration asked for is
  the active one, the queue is empty, and with the ProtoPlexer backend there is a well formed
  context without messages. On failure (no such device, no channel, a channel that cannot be
  initialised or opened, no memory or a chunk length the protocol refuses) there is neither, the
  state is CAN_ERROR, and every channel that was made on the way has been destroyed, as has the
  channel of the connection before; what the user configured is kept in both cases.
\<close>

theorem connect_all_or_nothing:
  assumes "Connect handler this nc mem built_in params g m = (ok, m', gone, g')"
  shows "m_backend_cfg m' = cp_backend params \<and> m_pp_cfg_cfg m' = cp_protoplexer params \<and>
    (ok \<and> mgr_connected (cp_backend params) m' \<or> \<not> ok \<and> mgr_standby m' \<and> m_state m' = CAN_ERROR) \<and>
    list_all (\<lambda>ch. case ch of None \<Rightarrow> True | Some a \<Rightarrow> ad_deleted a) gone"
  by (rule connect_outcome [OF assms])


section \<open>The worker\<close>

text \<open>What a list of events holds: the calls of the handlers, and the frames given to the channel.\<close>

fun calls :: "'h mgr_event list \<Rightarrow> ('h \<times> packet) list" where
  "calls [] = []"
| "calls (Called h p # evs) = (h, p) # calls evs"
| "calls (Transmitted f ok # evs) = calls evs"
| "calls (Slept t # evs) = calls evs"

fun sent :: "'h mgr_event list \<Rightarrow> uni_can_message list" where
  "sent [] = []"
| "sent (Transmitted f ok # evs) = f # sent evs"
| "sent (Called h p # evs) = sent evs"
| "sent (Slept t # evs) = sent evs"

lemma calls_append [simp]: "calls (xs @ ys) = calls xs @ calls ys"
  by (induction xs rule: calls.induct) simp_all

lemma sent_append [simp]: "sent (xs @ ys) = sent xs @ sent ys"
  by (induction xs rule: sent.induct) simp_all

lemma transmitAction_quiet [simp]: "calls (transmitAction m) = []" "sent (transmitAction m) = []"
  by (simp_all add: transmitAction_def)

text \<open>Every subscriber is called with every packet.\<close>

definition published :: "('ch, 'h) CanManager \<Rightarrow> packet list \<Rightarrow> ('h \<times> packet) list" where
  "published m ps = concat (map (\<lambda>p. map (\<lambda>s. (snd s, p)) (m_receive_subs m)) ps)"

lemma published_simps [simp]:
  "published m [] = []" "published m (ps @ qs) = published m ps @ published m qs"
  "published (m\<lparr>m_can_channel := a\<rparr>) ps = published m ps" "published (m\<lparr>m_pp_ctx := b\<rparr>) ps = published m ps"
  "published (m\<lparr>m_tx_queue := c\<rparr>) ps = published m ps"
  by (simp_all add: published_def)

lemma receiveAction_events [simp]: "calls (receiveAction p m) = published m [p]" "sent (receiveAction p m) = []"
proof -
  have "calls (map (\<lambda>s. Called (snd s) p) xs) = map (\<lambda>s. (snd s, p)) xs" "sent (map (\<lambda>s. Called (snd s) p) xs) = []"
    for xs :: "(string \<times> 'h) list"
    by (induction xs) auto
  then show "calls (receiveAction p m) = published m [p]" "sent (receiveAction p m) = []"
    by (simp_all add: receiveAction_def published_def)
qed

text \<open>What one message gives to the subscribers, and what messages one after the other give.\<close>

definition pp_packet :: "uni_can_protoplexer_msg \<Rightarrow> packet" where
  "pp_packet x = PpPacket \<lparr>pm_message_id = ppm_message_id x, pm_address_from = ppm_address_from x,
     pm_address_to = ppm_address_to x, pm_priority_inverted = ppm_priority_inverted x,
     pm_data = take (unat (ppm_length x)) (case ppm_data x of None \<Rightarrow> [] | Some bs \<Rightarrow> bs)\<rparr>"

definition rx_step :: "memory \<Rightarrow> ParseBackend \<Rightarrow> uni_can_protoplexer_ctx \<Rightarrow> uni_can_message
    \<Rightarrow> packet list \<times> uni_can_protoplexer_ctx" where
  "rx_step mem active ctx x =
     (if active = ProtoPlexer
      then (case uni_can_protoplexer_add_chunk (mem_block mem) (mem_object mem) (mem_block mem) (Some ctx) (Some x) True of
              (c, _, out_msg) \<Rightarrow>
                (CanPacket (Some x) # (case out_msg of None \<Rightarrow> [] | Some y \<Rightarrow> [pp_packet y]),
                 case c of Some c \<Rightarrow> c | None \<Rightarrow> ctx))
      else ([CanPacket (Some x)], ctx))"

fun rx_packets :: "memory \<Rightarrow> ParseBackend \<Rightarrow> uni_can_protoplexer_ctx \<Rightarrow> uni_can_message list \<Rightarrow> packet list" where
  "rx_packets mem active ctx [] = []"
| "rx_packets mem active ctx (x # xs) =
     (case rx_step mem active ctx x of (ps, ctx) \<Rightarrow> ps @ rx_packets mem active ctx xs)"

text \<open>The frames of the packets of a queue.\<close>

definition queue_frames :: "memory \<Rightarrow> ('ch, 'h) CanManager \<Rightarrow> packet list \<Rightarrow> uni_can_message list" where
  "queue_frames mem m items =
     concat (map (\<lambda>p. case packet_frames mem (m_backend_active m) (pc_max_chunk_length (m_pp_cfg_active m)) p of
                        None \<Rightarrow> [] | Some fs \<Rightarrow> fs) items)"

text \<open>
  The contract of a channel the worker needs: it is a source of messages, and giving it a frame
  does not change what it has received.
\<close>

locale manager_channel = channel_source ops_of pending live
  for ops_of :: "'ch \<Rightarrow> ('ch, 'f, 'c) uni_can_channel_ops option" and pending live +
  assumes transmit_keeps: "live s \<Longrightarrow> ops_of s = Some ops \<Longrightarrow> op_transmit ops = Some f \<Longrightarrow>
    pending (snd (f s msg)) = pending s \<and> live (snd (f s msg))"
begin

lemma transmit_result:
  assumes "live s"
  obtains ok s' where "uni_can_channel_transmit ops_of (Some s) (Some msg) = (ok, Some s')"
    and "live s'" and "pending s' = pending s"
proof -
  obtain ops where ops: "ops_of s = Some ops"
    using has_source [OF assms] by blast
  show ?thesis
  proof (cases "op_transmit ops")
    case None
    with ops assms show ?thesis
      by (intro that [of False s]) (simp_all add: uni_can_channel_transmit_def channel_pass_def uni_can_channel_ops_get_def)
  next
    case (Some f)
    with ops transmit_keeps [OF assms ops Some, of msg] show ?thesis
      by (intro that [of "fst (f s msg)" "snd (f s msg)"])
        (simp_all add: uni_can_channel_transmit_def channel_pass_def uni_can_channel_ops_get_def split_beta)
  qed
qed

lemma transmit_frames_run:
  "m_can_channel m = Some s \<Longrightarrow> live s \<Longrightarrow>
    \<exists>s' evs. mgr_transmit_frames ops_of fs m = (m\<lparr>m_can_channel := Some s'\<rparr>, evs) \<and> live s' \<and> pending s' = pending s \<and>
      calls evs = [] \<and> sent evs = fs"
proof (induction fs arbitrary: m s)
  case Nil
  then have "m = m\<lparr>m_can_channel := Some s\<rparr>"
    by simp
  with Nil.prems(2) show ?case
    by auto
next
  case (Cons f fs)
  obtain ok s1 where s1: "uni_can_channel_transmit ops_of (Some s) (Some f) = (ok, Some s1)" "live s1" "pending s1 = pending s"
    using Cons.prems(2) by (rule transmit_result)
  obtain s' evs where "mgr_transmit_frames ops_of fs (m\<lparr>m_can_channel := Some s1\<rparr>) = (m\<lparr>m_can_channel := Some s'\<rparr>, evs)"
    "live s'" "pending s' = pending s1" "calls evs = []" "sent evs = fs"
    using Cons.IH [of "m\<lparr>m_can_channel := Some s1\<rparr>" s1] s1(2) by auto
  with s1 Cons.prems(1) show ?case
    by auto
qed

lemma transmit_run:
  "m_can_channel m = Some s \<Longrightarrow> live s \<Longrightarrow>
    \<exists>again' s' evs. mgr_transmit ops_of mem items again m = (again', m\<lparr>m_can_channel := Some s', m_tx_queue := []\<rparr>, evs) \<and>
      live s' \<and> pending s' = pending s \<and> calls evs = [] \<and> sent evs = queue_frames mem m items \<and>
      (again \<longrightarrow> again') \<and> (items = [] \<longrightarrow> again' = again)"
proof (induction items arbitrary: m s again)
  case Nil
  then have "m\<lparr>m_tx_queue := []\<rparr> = m\<lparr>m_can_channel := Some s, m_tx_queue := []\<rparr>"
    by simp
  with Nil.prems(2) show ?case
    by (auto simp: queue_frames_def)
next
  case (Cons p ps)
  show ?case
  proof (cases "packet_frames mem (m_backend_active m) (pc_max_chunk_length (m_pp_cfg_active m)) p")
    case None
    with Cons.IH [OF Cons.prems, of again] Cons.prems(1) show ?thesis
      by (auto simp: queue_frames_def)
  next
    case (Some fs)
    obtain s1 evs1 where s1: "mgr_transmit_frames ops_of fs m = (m\<lparr>m_can_channel := Some s1\<rparr>, evs1)" "live s1"
      "pending s1 = pending s" "calls evs1 = []" "sent evs1 = fs"
      using transmit_frames_run [OF Cons.prems] by blast
    obtain s' evs where "mgr_transmit ops_of mem ps True (m\<lparr>m_can_channel := Some s1\<rparr>) =
        (True, m\<lparr>m_can_channel := Some s', m_tx_queue := []\<rparr>, evs)"
      "live s'" "pending s' = pending s1" "calls evs = []" "sent evs = queue_frames mem m ps"
      using Cons.IH [of "m\<lparr>m_can_channel := Some s1\<rparr>" s1 True] s1(2) by (auto simp: queue_frames_def)
    with s1 Some Cons.prems(1) have "mgr_transmit ops_of mem (p # ps) again m =
        (True, m\<lparr>m_can_channel := Some s', m_tx_queue := []\<rparr>, evs1 @ evs)"
      "sent (evs1 @ evs) = queue_frames mem m (p # ps)" "calls (evs1 @ evs) = []"
      by (simp_all add: queue_frames_def)
    with \<open>live s'\<close> \<open>pending s' = pending s1\<close> s1(3) show ?thesis
      by (intro exI [of _ True] exI [of _ s'] exI [of _ "evs1 @ evs"]) simp
  qed
qed

lemma transmit_runE:
  assumes "m_can_channel m = Some s" "live s"
  obtains again' s' evs
  where "mgr_transmit ops_of mem items again m = (again', m\<lparr>m_can_channel := Some s', m_tx_queue := []\<rparr>, evs)"
    and "live s'" and "pending s' = pending s" and "calls evs = []" and "sent evs = queue_frames mem m items"
    and "again \<Longrightarrow> again'"
proof -
  from transmit_run [OF assms, of mem items again] show ?thesis
    by (elim exE conjE) (rule that, assumption+, simp)
qed

lemma receive_run:
  assumes "m_can_channel m = Some s" "live s" "pending s = x # xs" "mgr_memory_ok mem" "can_message_wf x"
  shows "\<exists>s' evs. mgr_receive ops_of mem m =
      (True, m\<lparr>m_can_channel := Some s', m_pp_ctx := snd (rx_step mem (m_backend_active m) (m_pp_ctx m) x)\<rparr>, evs) \<and>
    live s' \<and> pending s' = xs \<and> sent evs = [] \<and>
    calls evs = published m (fst (rx_step mem (m_backend_active m) (m_pp_ctx m) x))"
proof -
  have mem: "mem_object mem" "heap_total (mem_block mem)"
    using assms(4) by (simp_all add: mgr_memory_ok_def)
  obtain s' where s': "uni_can_channel_receive ops_of True (Some s) = (Some x, Some s')" "pending s' = xs" "live s'"
    using receive_takes_head [OF assms(2,3)] by blast
  obtain c r out where add: "uni_can_protoplexer_add_chunk (mem_block mem) True (mem_block mem) (Some (m_pp_ctx m)) (Some x) True = (c, r, out)"
    by (metis prod_cases3)
  note clone = clone_equal [OF assms(5) mem(2)]
  show ?thesis
  proof (cases "m_backend_active m")
    case RawCan
    then have "mgr_receive ops_of mem m = (True, m\<lparr>m_can_channel := Some s'\<rparr>, receiveAction (CanPacket (Some x)) m)"
      using s'(1) assms(1) clone mem(1) by (simp add: mgr_receive_def receiveAction_def)
    then show ?thesis
      using RawCan s'(2,3) by (intro exI [of _ s'] exI [of _ "receiveAction (CanPacket (Some x)) m"]) (simp add: rx_step_def)
  next
    case ProtoPlexer
    let ?evs = "receiveAction (CanPacket (Some x)) m @ (case out of None \<Rightarrow> [] | Some y \<Rightarrow> receiveAction (pp_packet y) m)"
    have "mgr_receive ops_of mem m =
        (True, m\<lparr>m_can_channel := Some s', m_pp_ctx := (case c of Some c \<Rightarrow> c | None \<Rightarrow> m_pp_ctx m)\<rparr>, ?evs)"
      using s'(1) assms(1) clone mem(1) add ProtoPlexer
      by (cases out; cases c) (simp_all add: mgr_receive_def receiveAction_def pp_packet_def Let_def)
    moreover have "sent ?evs = []" "calls ?evs = published m (fst (rx_step mem (m_backend_active m) (m_pp_ctx m) x))"
      using add mem(1) ProtoPlexer by (cases out; simp add: rx_step_def published_def)+
    moreover have "snd (rx_step mem (m_backend_active m) (m_pp_ctx m) x) = (case c of Some c \<Rightarrow> c | None \<Rightarrow> m_pp_ctx m)"
      using add mem(1) ProtoPlexer by (simp add: rx_step_def)
    ultimately show ?thesis
      using s'(2,3) by (intro exI [of _ s'] exI [of _ ?evs]) simp
  qed
qed

lemma receive_nothing:
  assumes "m_can_channel m = Some s" "live s" "pending s = []" "mgr_memory_ok mem"
  shows "\<exists>s'. mgr_receive ops_of mem m = (False, m\<lparr>m_can_channel := Some s'\<rparr>, []) \<and> live s' \<and> pending s' = []"
proof -
  obtain s' where "uni_can_channel_receive ops_of True (Some s) = (None, Some s')" "pending s' = []" "live s'"
    using receive_none_when_empty [OF assms(2,3)] by blast
  then show ?thesis
    using assms(1,4) by (auto simp: mgr_receive_def mgr_memory_ok_def)
qed

text \<open>The result of a run over what is pending in \<open>s\<close> and queued.\<close>

definition run_ok :: "memory \<Rightarrow> ('ch, 'h) CanManager \<Rightarrow> uni_can_message list \<Rightarrow> bool" where
  "run_ok mem m xs \<longleftrightarrow>
     (\<exists>s' ctx' evs. threadFunctionOperating ops_of mem m =
         Some (m\<lparr>m_can_channel := Some s', m_pp_ctx := ctx', m_tx_queue := []\<rparr>, evs) \<and>
       live s' \<and> pending s' = [] \<and> sent evs = queue_frames mem m (m_tx_queue m) \<and>
       calls evs = published m (rx_packets mem (m_backend_active m) (m_pp_ctx m) xs))"

lemma run_okI:
  assumes "threadFunctionOperating ops_of mem m = Some (m\<lparr>m_can_channel := Some s', m_pp_ctx := ctx', m_tx_queue := []\<rparr>, evs)"
    and "live s'" "pending s' = []" "sent evs = queue_frames mem m (m_tx_queue m)"
    and "calls evs = published m (rx_packets mem (m_backend_active m) (m_pp_ctx m) xs)"
  shows "run_ok mem m xs"
  unfolding run_ok_def using assms by (intro exI conjI)

lemma round_last:
  assumes "mgr_round ops_of mem m = (False, m\<lparr>m_can_channel := Some sx, m_pp_ctx := cx, m_tx_queue := []\<rparr>, ex)"
    and "\<not> m_thread_abort m" "sent ex = queue_frames mem m (m_tx_queue m)" "calls ex = []"
    and "live sx" "pending sx = []"
  shows "run_ok mem m []"
proof (rule run_okI [where s' = sx and ctx' = cx and evs = ex])
  show "threadFunctionOperating ops_of mem m = Some (m\<lparr>m_can_channel := Some sx, m_pp_ctx := cx, m_tx_queue := []\<rparr>, ex)"
    using assms(1,2) by (subst threadFunctionOperating.simps) simp
qed (use assms in simp_all)

lemma round_more:
  assumes "mgr_round ops_of mem m = (True, m\<lparr>m_can_channel := Some sx, m_pp_ctx := cx, m_tx_queue := []\<rparr>, ex)"
    and "\<not> m_thread_abort m" "sent ex = queue_frames mem m (m_tx_queue m)" "calls ex = published m ps"
    and "rx_packets mem (m_backend_active m) (m_pp_ctx m) xs = ps @ rx_packets mem (m_backend_active m) cx xs'"
    and "run_ok mem (m\<lparr>m_can_channel := Some sx, m_pp_ctx := cx, m_tx_queue := []\<rparr>) xs'"
  shows "run_ok mem m xs"
proof -
  let ?m1 = "m\<lparr>m_can_channel := Some sx, m_pp_ctx := cx, m_tx_queue := []\<rparr>"
  obtain s' ctx' evs where run: "threadFunctionOperating ops_of mem ?m1 =
      Some (?m1\<lparr>m_can_channel := Some s', m_pp_ctx := ctx', m_tx_queue := []\<rparr>, evs)" "live s'" "pending s' = []"
    "sent evs = queue_frames mem ?m1 (m_tx_queue ?m1)"
    "calls evs = published ?m1 (rx_packets mem (m_backend_active ?m1) (m_pp_ctx ?m1) xs')"
    using assms(6) unfolding run_ok_def by (elim exE conjE)
  show ?thesis
  proof (rule run_okI [where s' = s' and ctx' = ctx' and evs = "ex @ evs"])
    show "threadFunctionOperating ops_of mem m =
        Some (m\<lparr>m_can_channel := Some s', m_pp_ctx := ctx', m_tx_queue := []\<rparr>, ex @ evs)"
      using assms(1,2) run(1) by (subst threadFunctionOperating.simps) simp
    show "sent (ex @ evs) = queue_frames mem m (m_tx_queue m)"
      using run(4) assms(3) by (simp add: queue_frames_def)
    show "calls (ex @ evs) = published m (rx_packets mem (m_backend_active m) (m_pp_ctx m) xs)"
      using run(5) assms(4,5) by simp
  qed (use run(2,3) in simp_all)
qed

lemma worker_idle:
  assumes "m_can_channel m = Some s" "live s" "pending s = []" "\<not> m_thread_abort m" "mgr_memory_ok mem" "m_tx_queue m = []"
  shows "run_ok mem m []"
proof -
  obtain s' where "mgr_receive ops_of mem m = (False, m\<lparr>m_can_channel := Some s'\<rparr>, [])" "live s'" "pending s' = []"
    using receive_nothing [OF assms(1-3,5)] by blast
  with assms(6) have "mgr_round ops_of mem m =
      (False, m\<lparr>m_can_channel := Some s', m_pp_ctx := m_pp_ctx m, m_tx_queue := []\<rparr>, [])"
    by (simp add: mgr_round_def)
  then show ?thesis
    by (rule round_last) (use assms \<open>live s'\<close> \<open>pending s' = []\<close> in \<open>simp_all add: queue_frames_def\<close>)
qed

lemma worker_sends:
  assumes "m_can_channel m = Some s" "live s" "pending s = []" "\<not> m_thread_abort m" "mgr_memory_ok mem"
  shows "run_ok mem m []"
proof -
  obtain s1 where s1: "mgr_receive ops_of mem m = (False, m\<lparr>m_can_channel := Some s1\<rparr>, [])" "live s1" "pending s1 = []"
    using receive_nothing [OF assms(1-3,5)] by blast
  obtain again s2 evs where s2: "mgr_transmit ops_of mem (m_tx_queue m) False (m\<lparr>m_can_channel := Some s1\<rparr>) =
      (again, m\<lparr>m_can_channel := Some s2, m_tx_queue := []\<rparr>, evs)" "live s2" "pending s2 = pending s1"
    "calls evs = []" "sent evs = queue_frames mem m (m_tx_queue m)"
    using transmit_run [of "m\<lparr>m_can_channel := Some s1\<rparr>" s1 mem "m_tx_queue m" False] s1(2) by (auto simp: queue_frames_def)
  have round: "mgr_round ops_of mem m = (again, m\<lparr>m_can_channel := Some s2, m_pp_ctx := m_pp_ctx m, m_tx_queue := []\<rparr>, evs)"
    using s1(1) s2(1) by (simp add: mgr_round_def)
  show ?thesis
  proof (cases again)
    case True
    have "run_ok mem (m\<lparr>m_can_channel := Some s2, m_pp_ctx := m_pp_ctx m, m_tx_queue := []\<rparr>) []"
      using s1(3) s2(2,3) assms(4,5) by (intro worker_idle [of _ s2]) simp_all
    then show ?thesis
      using s2(4,5) by (intro round_more [OF round [unfolded eqTrueI [OF True]] assms(4), where ps = "[]" and xs' = "[]"]) simp_all
  next
    case False
    then show ?thesis
      using round_last [where sx = s2 and cx = "m_pp_ctx m" and ex = evs] round assms(4) s1(3) s2 by simp
  qed
qed

lemma worker_run:
  assumes "m_can_channel m = Some s" "live s" "\<not> m_thread_abort m" "mgr_memory_ok mem"
    and "\<forall>x\<in>set (pending s). can_message_wf x"
  shows "run_ok mem m (pending s)"
  using assms
proof (induction "pending s" arbitrary: m s)
  case Nil
  then show ?case
    using worker_sends [of m s] by simp
next
  case (Cons x xs)
  let ?r = "rx_step mem (m_backend_active m) (m_pp_ctx m) x"
  have wf: "can_message_wf x" "\<forall>y\<in>set xs. can_message_wf y"
    using Cons.prems(5) unfolding Cons.hyps(2) [symmetric] by simp_all
  obtain s1 evs1 where s1: "mgr_receive ops_of mem m = (True, m\<lparr>m_can_channel := Some s1, m_pp_ctx := snd ?r\<rparr>, evs1)"
    "live s1" "pending s1 = xs" "sent evs1 = []" "calls evs1 = published m (fst ?r)"
    using receive_run [OF Cons.prems(1,2) Cons.hyps(2) [symmetric] Cons.prems(4) wf(1)] by blast
  let ?m1 = "m\<lparr>m_can_channel := Some s1, m_pp_ctx := snd ?r\<rparr>"
  obtain again2 s2 evs2 where s2: "mgr_transmit ops_of mem (m_tx_queue m) True ?m1 =
      (again2, ?m1\<lparr>m_can_channel := Some s2, m_tx_queue := []\<rparr>, evs2)" "live s2" "pending s2 = pending s1"
    "calls evs2 = []" "sent evs2 = queue_frames mem ?m1 (m_tx_queue m)" "True \<Longrightarrow> again2"
    by (rule transmit_runE [of ?m1 s1 mem "m_tx_queue m" True]) (use s1(2) in simp_all)
  let ?m2 = "m\<lparr>m_can_channel := Some s2, m_pp_ctx := snd ?r, m_tx_queue := []\<rparr>"
  have round: "mgr_round ops_of mem m = (True, ?m2, evs1 @ evs2)"
    using s1(1) s2(1,6) by (simp add: mgr_round_def)
  have "run_ok mem ?m2 xs"
    using Cons.hyps(1) [of s2 ?m2] s1(3) s2(2,3) Cons.prems(3,4) wf(2) by simp
  then show ?case
    unfolding Cons.hyps(2) [symmetric]
    using s1(4,5) s2(4,5) Cons.prems(3)
    by (intro round_more [OF round, where ps = "fst ?r" and xs' = xs]) (simp_all add: split_beta queue_frames_def)
qed

end

text \<open>
  A channel of a C++ backend whose \<open>TransmitMessage\<close> leaves what was received alone keeps the
  contract.
\<close>

definition plain_live :: "('x backend_channel, 'f, 'c) CanChannelAdapter \<Rightarrow> bool" where
  "plain_live a \<longleftrightarrow> backend_live a \<and> (\<forall>b x m. fst (snd (ic_TransmitMessage (ad_vtable a) (b, x) m)) = b)"

lemma plain_receive_head:
  assumes "plain_live a" "backend_pending a = m # ms"
  shows "\<exists>a'. adapter_receive a = (Some m, a') \<and> backend_pending a' = ms \<and> plain_live a'"
proof -
  obtain a' where a': "adapter_receive a = (Some m, a')" "backend_pending a' = ms" "backend_live a'"
    using adapter_receive_head [of a m ms] assms by (auto simp: plain_live_def)
  moreover have "ad_vtable a' = ad_vtable a"
    using a'(1) by (auto simp: adapter_receive_def split: prod.splits)
  ultimately show ?thesis
    using assms(1) by (auto simp: plain_live_def)
qed

interpretation mgr_adapted: manager_channel adapter_ops_of backend_pending plain_live
proof unfold_locales
  fix s :: "('x backend_channel, 'f, 'c) CanChannelAdapter" and ops f g m ms x
  assume live: "plain_live s"
  then have blive: "backend_live s"
    by (simp add: plain_live_def)
  show "\<exists>ops. adapter_ops_of s = Some ops \<and> (op_receive ops \<noteq> None \<or> op_receive_to ops \<noteq> None)"
    using adapted.has_source [OF blive] .
  assume "adapter_ops_of s = Some ops"
  then have eqs: "op_receive ops = Some adapter_receive" "op_receive_to ops = Some adapter_receive_to"
    "op_transmit ops = Some adapter_transmit"
    by (auto simp: adapter_ops_of_def adapter_ops_def split: if_splits)
  show "fst (f s) = None \<and> backend_pending (snd (f s)) = [] \<and> plain_live (snd (f s))"
    if "op_receive ops = Some f" "backend_pending s = []"
    using that eqs live adapter_receive_empty [OF blive] by simp
  show "fst (f s) = Some m \<and> backend_pending (snd (f s)) = ms \<and> plain_live (snd (f s))"
    if "op_receive ops = Some f" "backend_pending s = m # ms"
    using that eqs plain_receive_head [OF live that(2)] by auto
  show "fst (g s x) = False \<and> backend_pending (snd (snd (g s x))) = [] \<and> plain_live (snd (snd (g s x)))"
    if "op_receive_to ops = Some g" "backend_pending s = []"
    using that eqs live adapter_receive_empty [OF blive]
    by (simp add: adapter_receive_to_def adapter_receive_to_released_def)
  show "fst (g s x) = True \<and> fst (snd (g s x)) = m \<and> backend_pending (snd (snd (g s x))) = ms \<and>
      plain_live (snd (snd (g s x)))"
    if "op_receive_to ops = Some g" "backend_pending s = m # ms"
    using that eqs plain_receive_head [OF live that(2)]
    by (auto simp: adapter_receive_to_def adapter_receive_to_released_def)
  show "backend_pending (snd (f s msg)) = backend_pending s \<and> plain_live (snd (f s msg))"
    if "op_transmit ops = Some f" for f msg
    using that eqs live
    by (cases "ad_channel s")
      (auto simp: adapter_transmit_def backend_pending_def plain_live_def backend_live_def split_beta)
qed

text \<open>
  C18. The worker ends, however much is pending and queued: one run hands every pending message to
  every subscriber, in the order of arrival, with the ProtoPlexer messages they complete right
  after the frame that completes them, gives every frame of every queued packet to the channel,
  in the order of the queue, and leaves neither a pending message nor a queued packet.
\<close>

theorem worker_drains:
  assumes "m_can_channel m = Some ch" "plain_live ch" "\<not> m_thread_abort m" "mgr_memory_ok mem"
    and "\<forall>x\<in>set (backend_pending ch). can_message_wf x"
  shows "\<exists>ch' ctx' evs. threadFunctionOperating adapter_ops_of mem m =
      Some (m\<lparr>m_can_channel := Some ch', m_pp_ctx := ctx', m_tx_queue := []\<rparr>, evs) \<and>
    backend_pending ch' = [] \<and>
    calls evs = published m (rx_packets mem (m_backend_active m) (m_pp_ctx m) (backend_pending ch)) \<and>
    sent evs = queue_frames mem m (m_tx_queue m)"
  using mgr_adapted.worker_run [OF assms] unfolding mgr_adapted.run_ok_def by blast

section \<open>From one manager to another\<close>

fun is_pp :: "packet \<Rightarrow> bool" where
  "is_pp (PpPacket _) = True"
| "is_pp (CanPacket _) = False"

lemma is_pp_packet [simp]: "is_pp (pp_packet x)"
  by (simp add: pp_packet_def)

lemma rx_packets_feed:
  assumes "mgr_memory_ok mem" "pp_wf ctx" "\<forall>f\<in>set fs. pp_frame_ok f"
  shows "filter is_pp (rx_packets mem ProtoPlexer ctx fs) =
    concat (map (\<lambda>(r, out). case out of None \<Rightarrow> [] | Some x \<Rightarrow> [pp_packet x])
      (pp_feed (mem_block mem) (mem_block mem) (Some ctx) fs))"
  using assms(2,3)
proof (induction fs arbitrary: ctx)
  case (Cons f fs)
  have mem: "mem_object mem" "heap_total (mem_block mem)"
    using assms(1) by (simp_all add: mgr_memory_ok_def)
  obtain st r out where spec: "pp_spec_of (mem_block mem) ctx f = (st, r, out)"
    by (metis prod_cases3)
  obtain c where c: "uni_can_protoplexer_add_chunk (mem_block mem) True (mem_block mem) (Some ctx) (Some f) True = (Some c, r, out)"
    "pp_wf c"
    using add_chunk_spec [OF Cons.prems(1) _ heap_totalD [OF mem(2)] mem(2) spec] Cons.prems(2) by auto
  with Cons.IH [OF c(2)] Cons.prems(2) mem(1) show ?case
    by (cases out) (simp_all add: rx_step_def)
qed simp

lemma pp_chunk_message_wf: "m \<le> 8 \<Longrightarrow> can_message_wf (pp_chunk msg m i)"
  by (simp add: can_message_wf_def can_is_tp_def pp_chunk_def can_flag_defs UNI_CAN_MESSAGE_MAXLEN_def pp_piece_def)

lemma all_of_sig: "\<forall>f\<in>set fs. pp_signature (cm_id f) = sig \<Longrightarrow> length as = length fs \<Longrightarrow> answers_to sig fs as = as"
proof (induction fs arbitrary: as)
  case (Cons f fs)
  then show ?case by (cases as) auto
qed simp

lemma length_pp_feed [simp]: "length (pp_feed h g ctx fs) = length fs"
  by (induction fs arbitrary: ctx) (auto split: prod.splits)

text \<open>A ProtoPlexer message as the application sends it, that the protocol can carry.\<close>

definition pm_sendable :: "ProtoPlexerMessage \<Rightarrow> bool" where
  "pm_sendable pm \<longleftrightarrow> pm_message_id pm \<noteq> UNI_CAN_PROTOPLEXER_ERROR_ID \<and>
     uni_can_protoplexer_address_valid (pm_address_from pm) \<and> uni_can_protoplexer_address_valid (pm_address_to pm) \<and>
     pm_priority_inverted pm \<le> UNI_CAN_PROTOPLEXER_PRIORITY_MINIMAL \<and> length (pm_data pm) < 2 ^ 16"

lemma packet_message:
  assumes "heap_total h" "pm_sendable pm"
    and "uni_can_protoplexer_msg_create True h (pm_message_id pm) (pm_address_from pm) (pm_address_to pm)
      (pm_priority_inverted pm) (Some (pm_data pm)) (of_nat (length (pm_data pm))) = Some x"
  shows "pp_sendable (\<lambda>_. True) x" "pp_packet (pp_received x) = PpPacket pm"
    "ppm_address_from x = pm_address_from pm" "ppm_address_to x = pm_address_to pm"
proof -
  let ?n = "length (pm_data pm)"
  have n: "unat (of_nat ?n :: u16) = ?n"
    using assms(2) by (intro unat_of_nat_u16) (simp add: pm_sendable_def)
  then have zero: "(of_nat ?n :: u16) > 0 \<longleftrightarrow> pm_data pm \<noteq> []"
    by (simp add: word_less_nat_alt)
  obtain bs where "h ?n = Some bs" "length bs = ?n"
    using assms(1) by (rule heap_totalE)
  then have x: "x = \<lparr>ppm_message_id = pm_message_id pm, ppm_address_from = pm_address_from pm,
      ppm_address_to = pm_address_to pm, ppm_priority_inverted = pm_priority_inverted pm, ppm_length = of_nat ?n,
      ppm_data = (if pm_data pm = [] then None else Some (pm_data pm))\<rparr>"
    using assms(3) n zero
    by (auto simp: uni_can_protoplexer_msg_create_def pp_msg_zero_def blit_whole Let_def split: if_splits)
  then show "pp_sendable (\<lambda>_. True) x" "ppm_address_from x = pm_address_from pm" "ppm_address_to x = pm_address_to pm"
    using assms(2) n by (auto simp: pp_sendable_def pm_sendable_def pp_msg_wf_def pp_payload_def)
  have "(of_nat ?n :: u16) = 0 \<longleftrightarrow> pm_data pm = []"
    using zero by (simp add: word_gt_0)
  then show "pp_packet (pp_received x) = PpPacket pm"
    using n by (cases pm) (auto simp: x pp_packet_def pp_received_def pp_payload_def)
qed

lemma published_filter: "filter (\<lambda>c. P (snd c)) (published m ps) = published m (filter P ps)"
proof (induction ps)
  case (Cons p ps)
  have "filter (\<lambda>c. P (snd c)) (map (\<lambda>s. (snd s, p)) (m_receive_subs m)) =
      (if P p then map (\<lambda>s. (snd s, p)) (m_receive_subs m) else [])"
    by (auto simp: filter_map o_def)
  with Cons show ?case
    by (simp add: published_def)
qed (simp add: published_def)

lemma feed_packet:
  assumes "packet_frames mem ProtoPlexer chunk (PpPacket pm) = Some frames"
    and "mgr_memory_ok mem" "pm_sendable pm" "mgr_memory_ok mem'" "pp_wf ctx"
    and "ppc_max_payload ctx = 0" "\<not> ppc_rx_static ctx"
    and "pm_address_to pm = ppc_own_address ctx \<or> ppc_monitoring ctx"
    and "card (insert (pp_signature (uni_can_protoplexer_canid_create (pm_address_from pm) (pm_address_to pm) 0 False))
           (dom (pp_abs ctx))) \<le> unat (ppc_max_channels ctx)"
  shows "filter is_pp (rx_packets mem' ProtoPlexer ctx frames) = [PpPacket pm]"
    and "\<forall>f\<in>set frames. can_message_wf f"
proof -
  let ?sig = "pp_signature (uni_can_protoplexer_canid_create (pm_address_from pm) (pm_address_to pm) 0 False)"
  have mem: "mem_object mem" "heap_total (mem_block mem)" "mem_object mem'" "heap_total (mem_block mem')"
    using assms(2,4) by (simp_all add: mgr_memory_ok_def)
  obtain x where x: "uni_can_protoplexer_msg_create True (mem_block mem) (pm_message_id pm) (pm_address_from pm)
      (pm_address_to pm) (pm_priority_inverted pm) (Some (pm_data pm)) (of_nat (length (pm_data pm))) = Some x"
    using assms(1) mem(1) by (auto simp: packet_frames_def split: option.splits)
  note px = packet_message [OF mem(2) assms(3) x]
  then have wfx: "pp_msg_wf x"
    by (simp add: pp_sendable_def)
  obtain chunks n where chunks: "uni_can_protoplexer_build_chunks True (Some x) chunk True = (PP_OK, Some chunks, n)"
    "frames = take n chunks"
    using assms(1) mem(1) x
    by (auto simp: packet_frames_def split: option.splits prod.splits uni_can_protoplexer_result.splits)
  then have size: "6 \<le> unat chunk" "unat chunk \<le> 8"
    by (auto simp: uni_can_protoplexer_build_chunks_def uni_can_protoplexer_chunks_count_def pp_const_defs Let_def
        split: if_splits)
  then have fr: "chunks = map (pp_chunk x (unat chunk)) [0..<n]" "0 < n" "frames = chunks"
    using chunks build_chunks_eq [OF wfx size] chunks_count_pos [OF size, of "ppm_length x"] by auto
  have sigs: "\<forall>f\<in>set frames. pp_signature (cm_id f) = ?sig"
    using px(3,4) pp_signature_create by (auto simp: fr(1,3))
  then have set: "(\<lambda>f. pp_signature (cm_id f)) ` set frames = {?sig}"
  proof -
    have "set frames \<noteq> {}"
      using fr by simp
    moreover have "(\<lambda>f. pp_signature (cm_id f)) ` set frames = (\<lambda>_. ?sig) ` set frames"
      using sigs by (intro image_cong) auto
    ultimately show ?thesis
      by (simp only: image_constant_conv if_False)
  qed
  have ok: "pp_frame_ok f \<and> pp_addressed (ppc_own_address ctx) (ppc_monitoring ctx) f"
    if "f \<in> set frames" for f
    using that size(2) px(3,4) assms(3,8)
    by (auto simp: fr(1,3) pp_addressed_def pm_sendable_def address_validD)
  have admits: "pp_sendable (pp_admits (mem_block mem') ctx) x"
    using px(1) mem(4) assms(6,7) by (simp add: pp_sendable_def pp_admits_def heap_total_def)
  have "answers_to ?sig frames (pp_feed (mem_block mem') (mem_block mem') (Some ctx) frames) =
      replicate (n - 1) (PP_OK, None) @ [(PP_OK, Some (pp_received x))]"
    using delivery [OF assms(5) mem(4,4) ok _ admits size chunks(1)] sigs assms(9) set px(3,4)
    by (simp add: pp_of_sig_def fr(3) Un_commute insert_commute)
  then have "pp_feed (mem_block mem') (mem_block mem') (Some ctx) frames =
      replicate (n - 1) (PP_OK, None) @ [(PP_OK, Some (pp_received x))]"
    by (subst (asm) all_of_sig [OF sigs]) simp_all
  then show "filter is_pp (rx_packets mem' ProtoPlexer ctx frames) = [PpPacket pm]"
    using rx_packets_feed [OF assms(4,5)] ok px(2) by (simp add: concat_replicate_trivial)
  show "\<forall>f\<in>set frames. can_message_wf f"
    using size(2) by (auto simp: fr(1,3) pp_chunk_message_wf)
qed

text \<open>The frames of a message that the protocol can carry.\<close>

lemma packet_frames_sendable:
  assumes "mgr_memory_ok mem" "pm_sendable pm" "6 \<le> unat chunk" "unat chunk \<le> 8"
  shows "\<exists>frames. packet_frames mem ProtoPlexer chunk (PpPacket pm) = Some frames"
proof -
  have mem: "mem_object mem" "heap_total (mem_block mem)"
    using assms(1) by (simp_all add: mgr_memory_ok_def)
  let ?n = "of_nat (length (pm_data pm)) :: u16"
  obtain bs where "mem_block mem (unat ?n) = Some bs"
    using mem(2) by (rule heap_totalE)
  then obtain x where x: "uni_can_protoplexer_msg_create True (mem_block mem) (pm_message_id pm) (pm_address_from pm)
      (pm_address_to pm) (pm_priority_inverted pm) (Some (pm_data pm)) ?n = Some x"
    by (cases "?n > 0") (simp_all add: uni_can_protoplexer_msg_create_def Let_def)
  then have "pp_msg_wf x"
    using packet_message(1) [OF mem(2) assms(2)] by (simp add: pp_sendable_def)
  from build_chunks_eq [OF this assms(3,4)] x mem(1) show ?thesis
    by (simp add: packet_frames_def)
qed

text \<open>
  A manager that can send ProtoPlexer messages with nothing else queued, and one that can receive a
  message: a buffer is free for its sender, and the frames wait in its channel.
\<close>

definition ready_to_send :: "memory \<Rightarrow> (('x backend_channel, 'f, 'c) CanChannelAdapter, 'h) CanManager \<Rightarrow> bool" where
  "ready_to_send mem m \<longleftrightarrow> mgr_memory_ok mem \<and> \<not> m_thread_abort m \<and> m_tx_queue m = [] \<and> m_backend_active m = ProtoPlexer \<and>
     6 \<le> unat (pc_max_chunk_length (m_pp_cfg_active m)) \<and> unat (pc_max_chunk_length (m_pp_cfg_active m)) \<le> 8 \<and>
     (\<exists>ch. m_can_channel m = Some ch \<and> plain_live ch \<and> (\<forall>x\<in>set (backend_pending ch). can_message_wf x))"

definition ready_to_receive ::
  "memory \<Rightarrow> ProtoPlexerMessage \<Rightarrow> uni_can_message list \<Rightarrow> (('x backend_channel, 'f, 'c) CanChannelAdapter, 'h) CanManager \<Rightarrow> bool" where
  "ready_to_receive mem pm frames m \<longleftrightarrow> mgr_memory_ok mem \<and> \<not> m_thread_abort m \<and> m_backend_active m = ProtoPlexer \<and>
     (\<exists>ch. m_can_channel m = Some ch \<and> plain_live ch \<and> backend_pending ch = frames) \<and>
     (let ctx = m_pp_ctx m in
        pp_wf ctx \<and> ppc_max_payload ctx = 0 \<and> \<not> ppc_rx_static ctx \<and>
        (pm_address_to pm = ppc_own_address ctx \<or> ppc_monitoring ctx) \<and>
        card (insert (pp_signature (uni_can_protoplexer_canid_create (pm_address_from pm) (pm_address_to pm) 0 False))
          (dom (pp_abs ctx))) \<le> unat (ppc_max_channels ctx))"

lemma worker_sends_message:
  assumes "ready_to_send mem m" "pm_sendable pm"
  shows "\<exists>m' evs. threadFunctionOperating adapter_ops_of mem (SendProtoPlexer pm m) = Some (m', evs) \<and> m_tx_queue m' = [] \<and>
    packet_frames mem ProtoPlexer (pc_max_chunk_length (m_pp_cfg_active m)) (PpPacket pm) = Some (sent evs)"
proof -
  let ?m = "SendProtoPlexer pm m"
  obtain ch where ch: "m_can_channel ?m = Some ch" "plain_live ch" "\<forall>x\<in>set (backend_pending ch). can_message_wf x"
    using assms(1) by (auto simp: ready_to_send_def SendProtoPlexer_def)
  have "\<not> m_thread_abort ?m" "mgr_memory_ok mem"
    using assms(1) by (simp_all add: ready_to_send_def SendProtoPlexer_def)
  from mgr_adapted.worker_run [OF ch(1,2) this ch(3)] obtain m' evs where
    "threadFunctionOperating adapter_ops_of mem ?m = Some (m', evs)" "m_tx_queue m' = []"
    "sent evs = queue_frames mem ?m [PpPacket pm]"
    using assms(1) unfolding mgr_adapted.run_ok_def by (auto simp: ready_to_send_def SendProtoPlexer_def)
  moreover obtain frames where "packet_frames mem ProtoPlexer (pc_max_chunk_length (m_pp_cfg_active m)) (PpPacket pm) = Some frames"
    using packet_frames_sendable assms unfolding ready_to_send_def by blast
  ultimately show ?thesis
    using assms(1) by (simp add: queue_frames_def ready_to_send_def SendProtoPlexer_def)
qed

lemma message_received:
  assumes "packet_frames mem0 ProtoPlexer chunk (PpPacket pm) = Some frames" "mgr_memory_ok mem0" "pm_sendable pm"
    and "ready_to_receive mem pm frames m"
  shows "\<exists>m' evs. threadFunctionOperating adapter_ops_of mem m = Some (m', evs) \<and>
    filter (\<lambda>c. is_pp (snd c)) (calls evs) = map (\<lambda>s. (snd s, PpPacket pm)) (m_receive_subs m)"
proof -
  note r = assms(4) [unfolded ready_to_receive_def Let_def]
  obtain ch where ch: "m_can_channel m = Some ch" "plain_live ch" "backend_pending ch = frames"
    using r by blast
  have fed: "filter is_pp (rx_packets mem ProtoPlexer (m_pp_ctx m) frames) = [PpPacket pm]" "\<forall>x\<in>set frames. can_message_wf x"
    using feed_packet [OF assms(1-3), of mem "m_pp_ctx m"] r by blast+
  obtain m' evs where run: "threadFunctionOperating adapter_ops_of mem m = Some (m', evs)"
    "calls evs = published m (rx_packets mem ProtoPlexer (m_pp_ctx m) frames)"
    using mgr_adapted.worker_run [OF ch(1,2) _ _ fed(2) [folded ch(3)]] r ch(3) unfolding mgr_adapted.run_ok_def by fastforce
  have "filter (\<lambda>c. is_pp (snd c)) (calls evs) = published m [PpPacket pm]"
    unfolding run(2) published_filter fed(1) by (rule refl)
  with run(1) show ?thesis
    by (simp add: published_def)
qed

text \<open>
  C2. A ProtoPlexer message put into the empty queue of one manager arrives at the subscribers of
  another. When the first manager runs in ProtoPlexer mode with chunks of 6 to 8 bytes, has memory and is
  not told to stop, and the protocol can carry the message (not the identifier of errors,
  addresses and a priority that are valid, no more data than a length can say), the first worker's pass ends with an empty queue. When then the
  frames it gave to its channel are what waits in the channel of a second manager in ProtoPlexer mode
  that has memory and is not told to stop, that stores received data on the heap with no limit, that has
  the address of the message or monitors all of them, and that has a buffer for the sender, in any
  state of reassembly, the second worker's pass ends too, and each of the subscribers there is called
  once with that message, same identifier, addresses, priority and data, and with no other ProtoPlexer
  message.
\<close>

theorem manager_end_to_end:
  assumes "ready_to_send mem0 m0" "pm_sendable pm"
  shows "\<exists>m0' evs0. threadFunctionOperating adapter_ops_of mem0 (SendProtoPlexer pm m0) = Some (m0', evs0) \<and> m_tx_queue m0' = [] \<and>
    (\<forall>mem m. ready_to_receive mem pm (sent evs0) m \<longrightarrow>
      (\<exists>m' evs. threadFunctionOperating adapter_ops_of mem m = Some (m', evs) \<and>
        filter (\<lambda>c. is_pp (snd c)) (calls evs) = map (\<lambda>s. (snd s, PpPacket pm)) (m_receive_subs m)))"
proof -
  have "mgr_memory_ok mem0"
    using assms(1) by (simp add: ready_to_send_def)
  then show ?thesis
    using worker_sends_message [OF assms] message_received assms(2) by blast
qed

section \<open>Concrete runs\<close>

definition example_memory :: memory where
  "example_memory = \<lparr>mem_object = True, mem_block = heap_zeros\<rparr>"

lemma example_memory_ok [simp]: "mgr_memory_ok example_memory" "mem_object example_memory" "mem_block example_memory = heap_zeros"
  by (simp_all add: mgr_memory_ok_def example_memory_def)

definition example_channel :: "uni_can_message list \<Rightarrow> (unit backend_channel, nat, nat) CanChannelAdapter" where
  "example_channel q = \<lparr>ad_vtable = backend_vtable (Pair True) (Pair True) (Pair True) (Pair True) (\<lambda>s m. (True, s)),
     ad_channel = (\<lparr>cb_receive_func = Some (), cb_receive_cookie = (), cb_receive_queue = q, cb_thread = True,
       cb_thread_abort = False\<rparr>, ()),
     ad_receive_func = Some 1, ad_receive_cookie = 0, ad_deleted = False\<rparr>"

lemma example_channel_live [simp]: "plain_live (example_channel q)" "backend_pending (example_channel q) = q"
  by (simp_all add: plain_live_def backend_live_def example_channel_def backend_vtable_def backend_pending_def)

definition example_manager :: "uni_can_message list \<Rightarrow> packet list \<Rightarrow> ((unit backend_channel, nat, nat) CanChannelAdapter, nat) CanManager" where
  "example_manager q items = can_manager_new\<lparr>m_can_channel := Some (example_channel q), m_backend_active := ProtoPlexer,
     m_pp_ctx := pp_example_ctx, m_pp_inited := True, m_tx_queue := items, m_receive_subs := [(''a'', 5), (''b'', 6)],
     m_state := OPERATING, m_thread := True\<rparr>"

lemma example_manager_simps [simp]:
  "m_can_channel (example_manager q items) = Some (example_channel q)" "\<not> m_thread_abort (example_manager q items)"
  "m_backend_active (example_manager q items) = ProtoPlexer" "m_pp_ctx (example_manager q items) = pp_example_ctx"
  "m_tx_queue (example_manager q items) = items" "m_receive_subs (example_manager q items) = [(''a'', 5), (''b'', 6)]"
  by (simp_all add: example_manager_def can_manager_new_def)

theorem worker_drains_witness:
  "\<exists>m' evs. threadFunctionOperating adapter_ops_of example_memory
      (example_manager [can_message_zero] [CanPacket (Some can_message_zero), CanPacket None]) = Some (m', evs) \<and>
    sent evs = [can_message_zero] \<and> m_tx_queue m' = []"
  using worker_drains [of "example_manager [can_message_zero] [CanPacket (Some can_message_zero), CanPacket None]" _ example_memory]
  by (auto simp: queue_frames_def packet_frames_def)

definition example_pm :: ProtoPlexerMessage where
  "example_pm = \<lparr>pm_message_id = 0x1234, pm_address_from = 0x10, pm_address_to = 0x20, pm_priority_inverted = 7,
     pm_data = [1, 2, 3, 4, 5]\<rparr>"

lemma example_pm_frames:
  "packet_frames example_memory ProtoPlexer 8 (PpPacket example_pm) = Some [pp_chunk pp_example 8 0, pp_chunk pp_example 8 1]"
proof -
  have "uni_can_protoplexer_msg_create True heap_zeros 0x1234 0x10 0x20 7 (Some [1, 2, 3, 4, 5]) 5 = Some pp_example"
    by (simp add: uni_can_protoplexer_msg_create_def heap_zeros_def blit_def pp_example_def pp_msg_zero_def Let_def)
  moreover have "uni_can_protoplexer_chunks_count (ppm_length pp_example) 8 = 2"
    by (simp add: uni_can_protoplexer_chunks_count_def pp_const_defs pp_example_def Let_def)
  then have "uni_can_protoplexer_build_chunks True (Some pp_example) 8 True =
      (PP_OK, Some [pp_chunk pp_example 8 0, pp_chunk pp_example 8 1], 2)"
    using build_chunks_eq [of pp_example 8] by (simp add: upt_rec)
  ultimately show ?thesis
    by (simp add: packet_frames_def example_pm_def)
qed

lemma example_manager_ready:
  "ready_to_send example_memory (example_manager [] [])"
  "ready_to_receive example_memory example_pm frames (example_manager frames [])"
  using pp_example_ctx_wf
  by (simp_all add: ready_to_send_def ready_to_receive_def Let_def)
    (simp_all add: example_manager_def can_manager_new_def protoplexer_config_default_def UNI_CAN_MESSAGE_MAXLEN_def
      pp_example_ctx_def example_pm_def)

theorem manager_end_to_end_witness:
  "\<exists>m0' evs0 m' evs. threadFunctionOperating adapter_ops_of example_memory (SendProtoPlexer example_pm (example_manager [] [])) =
      Some (m0', evs0) \<and> m_tx_queue m0' = [] \<and>
    threadFunctionOperating adapter_ops_of example_memory (example_manager (sent evs0) []) = Some (m', evs) \<and>
    filter (\<lambda>c. is_pp (snd c)) (calls evs) = [(5, PpPacket example_pm), (6, PpPacket example_pm)]"
proof -
  have "pm_sendable example_pm"
    by (simp add: pm_sendable_def example_pm_def uni_can_protoplexer_address_valid_def pp_const_defs)
  from manager_end_to_end [OF example_manager_ready(1) this]
  obtain m0' evs0 where "threadFunctionOperating adapter_ops_of example_memory (SendProtoPlexer example_pm (example_manager [] [])) =
      Some (m0', evs0)" "m_tx_queue m0' = []"
    "\<exists>m' evs. threadFunctionOperating adapter_ops_of example_memory (example_manager (sent evs0) []) = Some (m', evs) \<and>
      filter (\<lambda>c. is_pp (snd c)) (calls evs) = map (\<lambda>s. (snd s, PpPacket example_pm)) (m_receive_subs (example_manager (sent evs0) []))"
    using example_manager_ready(2) by metis
  then show ?thesis
    by auto
qed

definition example_params :: ConnectParams where
  "example_params = \<lparr>cp_device_index = 0, cp_baudrate = 500000, cp_backend = RawCan,
     cp_protoplexer = protoplexer_config_default\<rparr>"

lemmas example_connect = Connect_def Disconnect_def InfoRefresh_def connect_channel_def connect_backend_def
  uni_can_factory_refresh_def uni_can_factory_ensure_providers_def factory_refresh_provider_def factory_start_def
  uni_can_factory_get_info_def uni_can_factory_create_channel_def CanChannelAdapt_def example_provider_def
  example_device_def example_vtable_def example_params_def can_manager_new_def stateSet_def channel_defs adapter_ops_of_def
  adapter_ops_def adapter_init_def adapter_open_def adapter_set_receive_handler_def

theorem connect_all_or_nothing_witness:
  "mgr_connected RawCan (fst (snd (Connect (1 :: nat) (0 :: nat) 0 example_memory [(example_provider, False)] example_params
      factory_start (can_manager_new :: ((unit, nat, nat) CanChannelAdapter, nat) CanManager))))"
proof -
  let ?c = "Connect (1 :: nat) (0 :: nat) 0 example_memory [(example_provider, False)] example_params factory_start
      (can_manager_new :: ((unit, nat, nat) CanChannelAdapter, nat) CanManager)"
  have "fst ?c" "cp_backend example_params = RawCan"
    by (simp_all add: example_connect)
  moreover obtain ok m' gone g' where run: "?c = (ok, m', gone, g')"
    by (metis prod_cases4)
  ultimately show ?thesis
    using connect_all_or_nothing [OF run] by auto
qed

end
