(* ===== verification/ManagerThread.thy ===== *)
theory ManagerThread
  imports Main
begin

text \<open>
  How \<open>CanManager::Disconnect\<close> and the worker of a connection interleave (\<open>src_app/can_mgr.cpp\<close>).

  The worker clears the flag \<open>m_thread_abort\<close>, and as long as it does not see it set it waits for
  the condition variable and then works until there is nothing to do or the flag is set. \<open>Disconnect\<close>
  sets the flag, notifies, and joins the worker. A wait has no predicate: a notification that comes
  when the worker does not wait is lost. The state has the flag and where the two threads are; a
  round of the worker is one step (what it does is \<open>mgr_round\<close>). Other threads may notify at any
  time, and a wait may end by itself.
\<close>

section \<open>The steps\<close>

datatype worker_pc = Starting | Outer | BeforeWait | Waiting | Inner | Ended

datatype control_pc = Connected | Notifying | Joining | Disconnected

record handshake =
  hs_abort :: bool
  hs_worker :: worker_pc
  hs_control :: control_pc

datatype hs_event = ClearFlag | CheckFlag | BeginWait | Wake | Round | LeaveLoop | SetFlag | Notify | Join

inductive hs_step :: "handshake \<Rightarrow> hs_event \<Rightarrow> handshake \<Rightarrow> bool" where
  clear_flag: "hs_worker s = Starting \<Longrightarrow> hs_step s ClearFlag (s\<lparr>hs_abort := False, hs_worker := Outer\<rparr>)"
| check_flag: "hs_worker s = Outer \<Longrightarrow>
    hs_step s CheckFlag (s\<lparr>hs_worker := (if hs_abort s then Ended else BeforeWait)\<rparr>)"
| begin_wait: "hs_worker s = BeforeWait \<Longrightarrow> hs_step s BeginWait (s\<lparr>hs_worker := Waiting\<rparr>)"
| wake: "hs_worker s = Waiting \<Longrightarrow> hs_step s Wake (s\<lparr>hs_worker := Inner\<rparr>)"
| round: "hs_worker s = Inner \<Longrightarrow> \<not> hs_abort s \<Longrightarrow> hs_step s Round s"
| leave_loop: "hs_worker s = Inner \<Longrightarrow> hs_step s LeaveLoop (s\<lparr>hs_worker := Outer\<rparr>)"
| set_flag: "hs_control s = Connected \<Longrightarrow> hs_step s SetFlag (s\<lparr>hs_abort := True, hs_control := Notifying\<rparr>)"
| notify: "hs_control s = Notifying \<Longrightarrow>
    hs_step s Notify (s\<lparr>hs_worker := (if hs_worker s = Waiting then Inner else hs_worker s), hs_control := Joining\<rparr>)"
| join: "hs_control s = Joining \<Longrightarrow> hs_worker s = Ended \<Longrightarrow> hs_step s Join (s\<lparr>hs_control := Disconnected\<rparr>)"

code_pred (modes: i \<Rightarrow> o \<Rightarrow> o \<Rightarrow> bool as hs_steps) hs_step .

inductive_cases hs_stepE: "hs_step s e t"

text \<open>The moment \<open>Connect\<close> returns: the flag is still set from the \<open>Disconnect\<close> it began with.\<close>

definition hs_connected :: handshake where
  "hs_connected = \<lparr>hs_abort = True, hs_worker = Starting, hs_control = Connected\<rparr>"

inductive hs_reaches :: "handshake \<Rightarrow> handshake \<Rightarrow> bool" where
  reaches_refl: "hs_reaches s s"
| reaches_step: "hs_reaches s t \<Longrightarrow> hs_step t e u \<Longrightarrow> hs_reaches s u"

text \<open>A sequence of steps, and where it leads.\<close>

inductive hs_run :: "handshake \<Rightarrow> hs_event list \<Rightarrow> handshake \<Rightarrow> bool" where
  run_none: "hs_run s [] s"
| run_step: "hs_step s e t \<Longrightarrow> hs_run t es u \<Longrightarrow> hs_run s (e # es) u"

inductive_cases hs_run_ConsE: "hs_run s (e # es) t"

definition hs_stuck :: "handshake \<Rightarrow> bool" where
  "hs_stuck s \<longleftrightarrow> (\<forall>e t. \<not> hs_step s e t)"

lemma hs_reaches_run: "hs_run t es u \<Longrightarrow> hs_reaches s t \<Longrightarrow> hs_reaches s u"
  by (induction rule: hs_run.induct) (auto intro: reaches_step)

lemma hs_invariant:
  assumes "hs_reaches s t" "P s" "\<And>t e u. P t \<Longrightarrow> hs_step t e u \<Longrightarrow> P u"
  shows "P t"
  using assms(1,2) by (induction rule: hs_reaches.induct) (auto intro: assms(3))


section \<open>Properties\<close>

text \<open>Once the flag is clear and \<open>Disconnect\<close> waits, the worker never ends.\<close>

definition hs_lost :: "handshake \<Rightarrow> bool" where
  "hs_lost s \<longleftrightarrow> \<not> hs_abort s \<and> hs_control s = Joining \<and> hs_worker s \<noteq> Ended \<and> hs_worker s \<noteq> Starting"

lemma hs_lost_step: "hs_lost s \<Longrightarrow> hs_step s e t \<Longrightarrow> hs_lost t"
  by (erule hs_stepE) (auto simp: hs_lost_def)

text \<open>
  C21. \<open>Disconnect\<close> right after \<open>Connect\<close> can wait for ever: when it sets the flag and notifies before
  the new worker has run its first line, the worker clears the flag, and from then on, whatever
  notifications follow, \<open>Disconnect\<close> has not joined it.
\<close>

theorem disconnect_can_wait_forever:
  "\<exists>s. hs_reaches hs_connected s \<and> hs_control s = Joining \<and> (\<forall>t. \<not> (hs_reaches s t \<and> hs_control t = Disconnected))"
proof -
  let ?s = "\<lparr>hs_abort = False, hs_worker = Outer, hs_control = Joining\<rparr>"
  have "hs_run hs_connected [SetFlag, Notify, ClearFlag] ?s"
    using set_flag [of hs_connected] notify [of "\<lparr>hs_abort = True, hs_worker = Starting, hs_control = Notifying\<rparr>"]
      clear_flag [of "\<lparr>hs_abort = True, hs_worker = Starting, hs_control = Joining\<rparr>"]
    by (auto simp: hs_connected_def intro!: run_step intro: run_none)
  then have "hs_reaches hs_connected ?s"
    by (rule hs_reaches_run) (rule reaches_refl)
  moreover have "hs_lost t" if "hs_reaches ?s t" for t
    using that by (rule hs_invariant [where P = hs_lost]) (simp add: hs_lost_def, erule (1) hs_lost_step)
  then have "\<forall>t. \<not> (hs_reaches ?s t \<and> hs_control t = Disconnected)"
    by (auto simp: hs_lost_def)
  ultimately show ?thesis
    by (intro exI [of _ ?s]) simp
qed

text \<open>
  A lost notification: the worker can be past its look at the flag and not yet waiting when
  \<open>Disconnect\<close> notifies. Then it waits with the flag set, \<open>Disconnect\<close> waits for it, and nothing
  but a notification of some other thread (or a wait that ends by itself) can go on.
\<close>

theorem disconnect_can_lose_notification:
  "\<exists>s. hs_reaches hs_connected s \<and> hs_abort s \<and> hs_worker s = Waiting \<and> hs_control s = Joining \<and>
    {e. \<exists>t. hs_step s e t} = {Wake}"
proof -
  let ?s = "\<lparr>hs_abort = True, hs_worker = Waiting, hs_control = Joining\<rparr>"
  have "hs_run hs_connected [ClearFlag, CheckFlag, SetFlag, Notify, BeginWait] ?s"
    using clear_flag [of hs_connected] check_flag [of "\<lparr>hs_abort = False, hs_worker = Outer, hs_control = Connected\<rparr>"]
      set_flag [of "\<lparr>hs_abort = False, hs_worker = BeforeWait, hs_control = Connected\<rparr>"]
      notify [of "\<lparr>hs_abort = True, hs_worker = BeforeWait, hs_control = Notifying\<rparr>"]
      begin_wait [of "\<lparr>hs_abort = True, hs_worker = BeforeWait, hs_control = Joining\<rparr>"]
    by (auto simp: hs_connected_def intro!: run_step intro: run_none)
  then have "hs_reaches hs_connected ?s"
    by (rule hs_reaches_run) (rule reaches_refl)
  moreover have "{e. \<exists>t. hs_step ?s e t} = {Wake}"
  proof (intro equalityI subsetI)
    show "e \<in> {Wake}" if "e \<in> {e. \<exists>t. hs_step ?s e t}" for e
      using that by (auto elim!: hs_stepE)
    show "e \<in> {e. \<exists>t. hs_step ?s e t}" if "e \<in> {Wake}" for e
      using that wake [of ?s] by auto
  qed
  ultimately show ?thesis
    by (intro exI [of _ ?s]) simp
qed

text \<open>How many steps are left when \<open>Disconnect\<close> has met a worker that waits or works.\<close>

fun worker_rank :: "worker_pc \<Rightarrow> nat" where
  "worker_rank Waiting = 3"
| "worker_rank Inner = 2"
| "worker_rank Outer = 1"
| "worker_rank _ = 0"

fun control_rank :: "control_pc \<Rightarrow> nat" where
  "control_rank Notifying = 2"
| "control_rank Joining = 1"
| "control_rank _ = 0"

definition hs_closing :: "handshake \<Rightarrow> bool" where
  "hs_closing s \<longleftrightarrow> hs_abort s \<and> hs_control s \<noteq> Connected \<and> hs_worker s \<in> {Waiting, Inner, Outer, Ended} \<and>
     (hs_worker s = Waiting \<longrightarrow> hs_control s = Notifying) \<and> (hs_control s = Disconnected \<longrightarrow> hs_worker s = Ended)"

definition hs_left :: "handshake \<Rightarrow> nat" where
  "hs_left s = worker_rank (hs_worker s) + control_rank (hs_control s)"

lemma hs_closing_step: "hs_closing s \<Longrightarrow> hs_step s e t \<Longrightarrow> hs_closing t \<and> hs_left t < hs_left s"
  by (erule hs_stepE) (auto simp: hs_closing_def hs_left_def)

lemma hs_closing_run: "hs_run s es t \<Longrightarrow> hs_closing s \<Longrightarrow> hs_closing t \<and> length es + hs_left t \<le> hs_left s"
  by (induction rule: hs_run.induct) (auto dest: hs_closing_step)

lemma hs_closing_goes_on:
  assumes "hs_closing s" "hs_stuck s"
  shows "hs_control s = Disconnected"
proof (rule ccontr)
  assume "hs_control s \<noteq> Disconnected"
  with assms(1) consider "hs_control s = Notifying" | "hs_control s = Joining" "hs_worker s = Inner"
    | "hs_control s = Joining" "hs_worker s = Outer" | "hs_control s = Joining" "hs_worker s = Ended"
    by (cases "hs_control s") (auto simp: hs_closing_def)
  then show False
    using assms(2) notify [of s] leave_loop [of s] check_flag [of s] join [of s]
    by cases (auto simp: hs_stuck_def)
qed

text \<open>
  C35. \<open>Disconnect\<close> ends when it finds the worker waiting or at work: after it has set the flag, every
  sequence of steps of the two threads, however they interleave and whatever other threads notify,
  has at most five steps, and one that cannot go on has joined the worker.
\<close>

theorem disconnect_ends:
  assumes "hs_worker s \<in> {Waiting, Inner}" "hs_step s SetFlag s'" "hs_run s' es t"
  shows "length es \<le> 5 \<and> (hs_stuck t \<longrightarrow> hs_control t = Disconnected)"
proof -
  have s': "hs_closing s'" "hs_left s' \<le> 5"
    using assms(1,2) by (auto elim!: hs_stepE simp: hs_closing_def hs_left_def)
  have "hs_closing t" "length es + hs_left t \<le> hs_left s'"
    using hs_closing_run [OF assms(3) s'(1)] by simp_all
  with s'(2) show ?thesis
    using hs_closing_goes_on [of t] by auto
qed

theorem disconnect_ends_witness:
  "\<exists>t. hs_run \<lparr>hs_abort = True, hs_worker = Waiting, hs_control = Notifying\<rparr> [Notify, LeaveLoop, CheckFlag, Join] t \<and>
    length [Notify, LeaveLoop, CheckFlag, Join] \<le> 5 \<and> hs_control t = Disconnected"
proof -
  let ?s = "\<lparr>hs_abort = False, hs_worker = Waiting, hs_control = Connected\<rparr>"
  let ?s' = "\<lparr>hs_abort = True, hs_worker = Waiting, hs_control = Notifying\<rparr>"
  let ?t = "\<lparr>hs_abort = True, hs_worker = Ended, hs_control = Disconnected\<rparr>"
  have set: "hs_step ?s SetFlag ?s'"
    using set_flag [of ?s] by simp
  have run: "hs_run ?s' [Notify, LeaveLoop, CheckFlag, Join] ?t"
    using notify [of ?s'] leave_loop [of "\<lparr>hs_abort = True, hs_worker = Inner, hs_control = Joining\<rparr>"]
      check_flag [of "\<lparr>hs_abort = True, hs_worker = Outer, hs_control = Joining\<rparr>"]
      join [of "\<lparr>hs_abort = True, hs_worker = Ended, hs_control = Joining\<rparr>"]
    by (auto intro!: run_step intro: run_none)
  from disconnect_ends [OF _ set run] run show ?thesis
    by (intro exI [of _ ?t]) simp
qed

end
