(* ===== verification/ManagerSend.thy ===== *)
theory ManagerSend
  imports ManagerRun
begin

text \<open>
  The worker of the CAN manager while other threads give it work (\<open>src_app/can_mgr.cpp\<close>):
  \<open>SendMessage\<close> and \<open>SendProtoPlexer\<close> put packets into the queue and notify, the reader thread of the
  backend puts received frames into the queue of the channel. The worker waits for a notification
  without a predicate; a round reads one frame without a lock and then empties the queue of packets
  under the lock of that queue. Between two calls of \<open>Connect\<close> and \<open>Disconnect\<close>, so the flag that
  ends the worker is off.
\<close>

section \<open>The steps\<close>

text \<open>Before the wait, in it, before the two halves of a round; the second knows the flag of the round.\<close>

datatype mgr_pc = AtWait | InWait | AtReceive | AtSend bool

text \<open>
  The manager, where its worker is, and what has happened: the events of the worker, the packets that
  were given and the frames that arrived, each in their order.
\<close>

record ('ch, 'h) mgr_race =
  mr_mgr :: "('ch, 'h) CanManager"
  mr_pc :: mgr_pc
  mr_events :: "'h mgr_event list"
  mr_given :: "packet list"
  mr_arrived :: "uni_can_message list"

datatype mr_event =
    BeginWait | Wake | ReceiveHalf | SendHalf
  | GiveMessage uni_can_message | GiveProtoPlexer ProtoPlexerMessage | Arrive uni_can_message

text \<open>\<open>ThreadNotify\<close>: it wakes the worker when it waits, and does nothing otherwise.\<close>

definition mr_notified :: "mgr_pc \<Rightarrow> mgr_pc" where
  "mr_notified pc = (if pc = InWait then AtReceive else pc)"

text \<open>The reader thread of the backend puts a frame into the queue of the channel.\<close>

definition backend_push :: "uni_can_message \<Rightarrow> ('x backend_channel, 'f, 'c) CanChannelAdapter \<Rightarrow> ('x backend_channel, 'f, 'c) CanChannelAdapter" where
  "backend_push f a = a\<lparr>ad_channel :=
     ((fst (ad_channel a))\<lparr>cb_receive_queue := sq_push f (cb_receive_queue (fst (ad_channel a)))\<rparr>, snd (ad_channel a))\<rparr>"

text \<open>
  \<open>Wake\<close> is a notification of the reader thread, or a wake-up for no reason; the two functions that
  give packets notify while they hold the lock of the queue. Messages given are well-formed.
\<close>

inductive mr_step ::
  "memory \<Rightarrow> (('x backend_channel, 'f, 'c) CanChannelAdapter, 'h) mgr_race \<Rightarrow> mr_event
    \<Rightarrow> (('x backend_channel, 'f, 'c) CanChannelAdapter, 'h) mgr_race \<Rightarrow> bool" for mem where
  begin_wait: "mr_pc s = AtWait \<Longrightarrow> mr_step mem s BeginWait (s\<lparr>mr_pc := InWait\<rparr>)"
| wake: "mr_pc s = InWait \<Longrightarrow> mr_step mem s Wake (s\<lparr>mr_pc := AtReceive\<rparr>)"
| receive_half: "mr_pc s = AtReceive \<Longrightarrow> mgr_receive adapter_ops_of mem (mr_mgr s) = (again, m, evs) \<Longrightarrow>
    mr_step mem s ReceiveHalf (s\<lparr>mr_mgr := m, mr_pc := AtSend again, mr_events := mr_events s @ evs\<rparr>)"
| send_half: "mr_pc s = AtSend again \<Longrightarrow>
    mgr_transmit adapter_ops_of mem (m_tx_queue (mr_mgr s)) again (mr_mgr s) = (again', m, evs) \<Longrightarrow>
    mr_step mem s SendHalf
      (s\<lparr>mr_mgr := m, mr_pc := (if again' then AtReceive else AtWait), mr_events := mr_events s @ evs\<rparr>)"
| give_message: "can_message_wf x \<Longrightarrow>
    mr_step mem s (GiveMessage x)
      (s\<lparr>mr_mgr := mgr_SendMessage mem (Some x) (mr_mgr s), mr_pc := mr_notified (mr_pc s),
         mr_given := mr_given s @ [CanPacket (Some x)]\<rparr>)"
| give_protoplexer:
    "mr_step mem s (GiveProtoPlexer pm)
      (s\<lparr>mr_mgr := SendProtoPlexer pm (mr_mgr s), mr_pc := mr_notified (mr_pc s), mr_given := mr_given s @ [PpPacket pm]\<rparr>)"
| arrive: "m_can_channel (mr_mgr s) = Some ch \<Longrightarrow> can_message_wf f \<Longrightarrow>
    mr_step mem s (Arrive f)
      (s\<lparr>mr_mgr := (mr_mgr s)\<lparr>m_can_channel := Some (backend_push f ch)\<rparr>, mr_arrived := mr_arrived s @ [f]\<rparr>)"

inductive_cases mr_stepE: "mr_step mem s e t"

inductive_simps mr_begin_wait: "mr_step mem s BeginWait t"
inductive_simps mr_receive_half: "mr_step mem s ReceiveHalf t"
inductive_simps mr_send_half: "mr_step mem s SendHalf t"
inductive_simps mr_give_protoplexer: "mr_step mem s (GiveProtoPlexer pm) t"

inductive mr_reaches ::
  "memory \<Rightarrow> (('x backend_channel, 'f, 'c) CanChannelAdapter, 'h) mgr_race
    \<Rightarrow> (('x backend_channel, 'f, 'c) CanChannelAdapter, 'h) mgr_race \<Rightarrow> bool" for mem s where
  mr_refl: "mr_reaches mem s s"
| mr_next: "mr_reaches mem s t \<Longrightarrow> mr_step mem t e u \<Longrightarrow> mr_reaches mem s u"

text \<open>A number of steps of the worker alone.\<close>

inductive mr_works ::
  "memory \<Rightarrow> nat \<Rightarrow> (('x backend_channel, 'f, 'c) CanChannelAdapter, 'h) mgr_race
    \<Rightarrow> (('x backend_channel, 'f, 'c) CanChannelAdapter, 'h) mgr_race \<Rightarrow> bool" for mem where
  works_none: "mr_works mem 0 s s"
| works_step: "mr_step mem s e t \<Longrightarrow> e = ReceiveHalf \<or> e = SendHalf \<Longrightarrow> mr_works mem n t u \<Longrightarrow> mr_works mem (Suc n) s u"

text \<open>The worker has been started, and nothing was given to it yet.\<close>

definition mr_start :: "(('x backend_channel, 'f, 'c) CanChannelAdapter, 'h) CanManager
    \<Rightarrow> (('x backend_channel, 'f, 'c) CanChannelAdapter, 'h) mgr_race" where
  "mr_start m = \<lparr>mr_mgr = m, mr_pc = AtWait, mr_events = [], mr_given = [],
     mr_arrived = (case m_can_channel m of None \<Rightarrow> [] | Some ch \<Rightarrow> backend_pending ch)\<rparr>"


section \<open>The invariant\<close>

text \<open>The context after frames.\<close>

fun rx_ctx :: "memory \<Rightarrow> ParseBackend \<Rightarrow> uni_can_protoplexer_ctx \<Rightarrow> uni_can_message list \<Rightarrow> uni_can_protoplexer_ctx" where
  "rx_ctx mem active ctx [] = ctx"
| "rx_ctx mem active ctx (x # xs) = rx_ctx mem active (snd (rx_step mem active ctx x)) xs"

lemma rx_packets_snoc:
  "rx_packets mem active ctx (xs @ [x]) = rx_packets mem active ctx xs @ fst (rx_step mem active (rx_ctx mem active ctx xs) x)"
  by (induction xs arbitrary: ctx) (simp_all add: split_beta)

lemma rx_ctx_snoc:
  "rx_ctx mem active ctx (xs @ [x]) = snd (rx_step mem active (rx_ctx mem active ctx xs) x)"
  by (induction xs arbitrary: ctx) simp_all

text \<open>
  Of the frames that arrived the first ones were consumed, and the subscribers were called with what
  these give; of the packets given the first ones were sent, and the queue holds the others.
\<close>

definition mr_inv ::
  "memory \<Rightarrow> (('x backend_channel, 'f, 'c) CanChannelAdapter, 'h) CanManager
    \<Rightarrow> (('x backend_channel, 'f, 'c) CanChannelAdapter, 'h) mgr_race \<Rightarrow> bool" where
  "mr_inv mem m0 s \<longleftrightarrow>
     (\<exists>ch consumed. mr_mgr s = m0\<lparr>m_can_channel := Some ch, m_pp_ctx := rx_ctx mem (m_backend_active m0) (m_pp_ctx m0) consumed,
         m_tx_queue := m_tx_queue (mr_mgr s)\<rparr> \<and>
       plain_live ch \<and> mr_arrived s = consumed @ backend_pending ch \<and> list_all can_message_wf (mr_arrived s) \<and>
       calls (mr_events s) = published m0 (rx_packets mem (m_backend_active m0) (m_pp_ctx m0) consumed) \<and>
       sent (mr_events s) @ queue_frames mem m0 (m_tx_queue (mr_mgr s)) = queue_frames mem m0 (mr_given s))"

lemma mr_invI:
  assumes "mr_mgr s = m0\<lparr>m_can_channel := Some ch, m_pp_ctx := rx_ctx mem (m_backend_active m0) (m_pp_ctx m0) consumed, m_tx_queue := q\<rparr>"
    and "plain_live ch" "mr_arrived s = consumed @ backend_pending ch" "list_all can_message_wf (mr_arrived s)"
    and "calls (mr_events s) = published m0 (rx_packets mem (m_backend_active m0) (m_pp_ctx m0) consumed)"
    and "sent (mr_events s) @ queue_frames mem m0 q = queue_frames mem m0 (mr_given s)"
  shows "mr_inv mem m0 s"
  unfolding mr_inv_def using assms by (intro exI [of _ ch] exI [of _ consumed]) simp

lemma mr_invE:
  assumes "mr_inv mem m0 s"
  obtains ch consumed q
  where "mr_mgr s = m0\<lparr>m_can_channel := Some ch, m_pp_ctx := rx_ctx mem (m_backend_active m0) (m_pp_ctx m0) consumed, m_tx_queue := q\<rparr>"
    and "plain_live ch" "mr_arrived s = consumed @ backend_pending ch" "list_all can_message_wf (mr_arrived s)"
    and "calls (mr_events s) = published m0 (rx_packets mem (m_backend_active m0) (m_pp_ctx m0) consumed)"
    and "sent (mr_events s) @ queue_frames mem m0 q = queue_frames mem m0 (mr_given s)"
  using assms unfolding mr_inv_def by (elim exE conjE) (rule that)

lemma queue_frames_update [simp]:
  "queue_frames mem (m\<lparr>m_can_channel := a\<rparr>) ps = queue_frames mem m ps" "queue_frames mem (m\<lparr>m_pp_ctx := b\<rparr>) ps = queue_frames mem m ps"
  "queue_frames mem (m\<lparr>m_tx_queue := c\<rparr>) ps = queue_frames mem m ps"
  "queue_frames mem m (ps @ qs) = queue_frames mem m ps @ queue_frames mem m qs" "queue_frames mem m [] = []"
  by (simp_all add: queue_frames_def)

lemma backend_push_pending [simp]: "backend_pending (backend_push f a) = backend_pending a @ [f]"
  by (simp add: backend_push_def backend_pending_def sq_push_def)

lemma backend_push_live [simp]: "plain_live (backend_push f a) = plain_live a"
  by (simp add: backend_push_def plain_live_def backend_live_def)

lemma published_update [simp]:
  "published (m\<lparr>m_can_channel := a, m_pp_ctx := b, m_tx_queue := c\<rparr>) ps = published m ps"
  by (simp add: published_def)

text \<open>The receiving half, from a state of the invariant.\<close>

lemma receive_half_inv:
  assumes "mr_inv mem m0 s" "mgr_memory_ok mem" "mgr_receive adapter_ops_of mem (mr_mgr s) = (again, m, evs)"
  shows "mr_inv mem m0 (s\<lparr>mr_mgr := m, mr_pc := pc, mr_events := mr_events s @ evs\<rparr>) \<and>
    m_tx_queue m = m_tx_queue (mr_mgr s) \<and>
    (\<exists>ch ch'. m_can_channel (mr_mgr s) = Some ch \<and> m_can_channel m = Some ch' \<and> again = (backend_pending ch \<noteq> []) \<and>
      backend_pending ch' = tl (backend_pending ch))"
  using assms(1)
proof (rule mr_invE)
  fix ch consumed q
  assume mgr: "mr_mgr s = m0\<lparr>m_can_channel := Some ch, m_pp_ctx := rx_ctx mem (m_backend_active m0) (m_pp_ctx m0) consumed, m_tx_queue := q\<rparr>"
    and inv: "plain_live ch" "mr_arrived s = consumed @ backend_pending ch" "list_all can_message_wf (mr_arrived s)"
      "calls (mr_events s) = published m0 (rx_packets mem (m_backend_active m0) (m_pp_ctx m0) consumed)"
      "sent (mr_events s) @ queue_frames mem m0 q = queue_frames mem m0 (mr_given s)"
  have ch: "m_can_channel (mr_mgr s) = Some ch"
    by (simp add: mgr)
  show ?thesis
  proof (cases "backend_pending ch")
    case Nil
    obtain ch' where ch': "mgr_receive adapter_ops_of mem (mr_mgr s) = (False, (mr_mgr s)\<lparr>m_can_channel := Some ch'\<rparr>, [])"
      "plain_live ch'" "backend_pending ch' = []"
      using mgr_adapted.receive_nothing [OF ch inv(1) Nil assms(2)] by blast
    with assms(3) have res: "again = False" "m = (mr_mgr s)\<lparr>m_can_channel := Some ch'\<rparr>" "evs = []"
      by simp_all
    moreover have "mr_inv mem m0 (s\<lparr>mr_mgr := m, mr_pc := pc, mr_events := mr_events s @ evs\<rparr>)"
      by (rule mr_invI [where ch = ch' and consumed = consumed and q = q]) (use res mgr inv ch' Nil in simp_all)
    ultimately show ?thesis
      using ch ch' Nil by simp
  next
    case (Cons x xs)
    then have wf: "can_message_wf x"
      using inv(2,3) by simp
    obtain ch' evs' where ch': "mgr_receive adapter_ops_of mem (mr_mgr s) =
        (True, (mr_mgr s)\<lparr>m_can_channel := Some ch', m_pp_ctx := snd (rx_step mem (m_backend_active (mr_mgr s)) (m_pp_ctx (mr_mgr s)) x)\<rparr>, evs')"
      "plain_live ch'" "backend_pending ch' = xs" "sent evs' = []"
      "calls evs' = published (mr_mgr s) (fst (rx_step mem (m_backend_active (mr_mgr s)) (m_pp_ctx (mr_mgr s)) x))"
      using mgr_adapted.receive_run [OF ch inv(1) Cons assms(2) wf] by blast
    with assms(3) have res: "again = True" "evs = evs'"
      "m = m0\<lparr>m_can_channel := Some ch', m_pp_ctx := rx_ctx mem (m_backend_active m0) (m_pp_ctx m0) (consumed @ [x]), m_tx_queue := q\<rparr>"
      by (simp_all add: mgr rx_ctx_snoc)
    moreover have "mr_inv mem m0 (s\<lparr>mr_mgr := m, mr_pc := pc, mr_events := mr_events s @ evs\<rparr>)"
      by (rule mr_invI [where ch = ch' and consumed = "consumed @ [x]" and q = q]) (use res mgr inv ch' Cons in \<open>simp_all add: rx_packets_snoc\<close>)
    ultimately show ?thesis
      using ch ch' Cons by (simp add: mgr)
  qed
qed

text \<open>The sending half.\<close>

lemma send_half_inv:
  assumes "mr_inv mem m0 s" "mgr_transmit adapter_ops_of mem (m_tx_queue (mr_mgr s)) again (mr_mgr s) = (again', m, evs)"
  shows "mr_inv mem m0 (s\<lparr>mr_mgr := m, mr_pc := pc, mr_events := mr_events s @ evs\<rparr>) \<and> m_tx_queue m = [] \<and>
    (again \<longrightarrow> again') \<and> (m_tx_queue (mr_mgr s) = [] \<longrightarrow> again' = again) \<and>
    (\<exists>ch ch'. m_can_channel (mr_mgr s) = Some ch \<and> m_can_channel m = Some ch' \<and> backend_pending ch' = backend_pending ch)"
  using assms(1)
proof (rule mr_invE)
  fix ch consumed q
  assume mgr: "mr_mgr s = m0\<lparr>m_can_channel := Some ch, m_pp_ctx := rx_ctx mem (m_backend_active m0) (m_pp_ctx m0) consumed, m_tx_queue := q\<rparr>"
    and inv: "plain_live ch" "mr_arrived s = consumed @ backend_pending ch" "list_all can_message_wf (mr_arrived s)"
      "calls (mr_events s) = published m0 (rx_packets mem (m_backend_active m0) (m_pp_ctx m0) consumed)"
      "sent (mr_events s) @ queue_frames mem m0 q = queue_frames mem m0 (mr_given s)"
  have ch: "m_can_channel (mr_mgr s) = Some ch"
    by (simp add: mgr)
  obtain ch' where res: "m = (mr_mgr s)\<lparr>m_can_channel := Some ch', m_tx_queue := []\<rparr>" "plain_live ch'"
    "backend_pending ch' = backend_pending ch" "calls evs = []" "sent evs = queue_frames mem (mr_mgr s) (m_tx_queue (mr_mgr s))"
    "again \<longrightarrow> again'" "m_tx_queue (mr_mgr s) = [] \<longrightarrow> again' = again"
    using mgr_adapted.transmit_run [OF ch inv(1), of mem "m_tx_queue (mr_mgr s)" again] assms(2) by auto
  moreover have "mr_inv mem m0 (s\<lparr>mr_mgr := m, mr_pc := pc, mr_events := mr_events s @ evs\<rparr>)"
    by (rule mr_invI [where ch = ch' and consumed = consumed and q = "[]"]) (use res mgr inv in simp_all)
  ultimately show ?thesis
    using ch by simp
qed

text \<open>What is given and what arrives.\<close>

lemma give_inv:
  assumes "mr_inv mem m0 s" "mr_mgr t = (mr_mgr s)\<lparr>m_tx_queue := m_tx_queue (mr_mgr s) @ [p]\<rparr>"
    and "mr_given t = mr_given s @ [p]" "mr_events t = mr_events s" "mr_arrived t = mr_arrived s"
  shows "mr_inv mem m0 t"
  using assms(1)
proof (rule mr_invE)
  fix ch consumed q
  assume "mr_mgr s = m0\<lparr>m_can_channel := Some ch, m_pp_ctx := rx_ctx mem (m_backend_active m0) (m_pp_ctx m0) consumed, m_tx_queue := q\<rparr>"
    "plain_live ch" "mr_arrived s = consumed @ backend_pending ch" "list_all can_message_wf (mr_arrived s)"
    "calls (mr_events s) = published m0 (rx_packets mem (m_backend_active m0) (m_pp_ctx m0) consumed)"
    "sent (mr_events s) @ queue_frames mem m0 q = queue_frames mem m0 (mr_given s)"
  with assms(2-5) show ?thesis
    by (intro mr_invI [where ch = ch and consumed = consumed and q = "q @ [p]"]) (simp_all flip: append_assoc)
qed

lemma arrive_inv:
  assumes "mr_inv mem m0 s" "m_can_channel (mr_mgr s) = Some ch" "can_message_wf f"
  shows "mr_inv mem m0 (s\<lparr>mr_mgr := (mr_mgr s)\<lparr>m_can_channel := Some (backend_push f ch)\<rparr>, mr_arrived := mr_arrived s @ [f]\<rparr>)"
  using assms(1)
proof (rule mr_invE)
  fix ch' consumed q
  assume "mr_mgr s = m0\<lparr>m_can_channel := Some ch', m_pp_ctx := rx_ctx mem (m_backend_active m0) (m_pp_ctx m0) consumed, m_tx_queue := q\<rparr>"
    "plain_live ch'" "mr_arrived s = consumed @ backend_pending ch'" "list_all can_message_wf (mr_arrived s)"
    "calls (mr_events s) = published m0 (rx_packets mem (m_backend_active m0) (m_pp_ctx m0) consumed)"
    "sent (mr_events s) @ queue_frames mem m0 q = queue_frames mem m0 (mr_given s)"
  with assms(2,3) show ?thesis
    by (intro mr_invI [where ch = "backend_push f ch" and consumed = consumed and q = q]) simp_all
qed

lemma mr_inv_pc [simp]: "mr_inv mem m0 (s\<lparr>mr_pc := pc\<rparr>) = mr_inv mem m0 s"
  by (simp add: mr_inv_def)

lemma mr_step_inv:
  assumes "mr_inv mem m0 s" "mgr_memory_ok mem" "mr_step mem s e t"
  shows "mr_inv mem m0 t"
  using assms(3)
proof cases
  case (receive_half again m evs)
  then show ?thesis
    using receive_half_inv [OF assms(1,2)] by simp
next
  case (send_half again again' m evs)
  then show ?thesis
    using send_half_inv [OF assms(1)] by simp
next
  case (give_message x)
  moreover have "mgr_SendMessage mem (Some x) (mr_mgr s) = (mr_mgr s)\<lparr>m_tx_queue := m_tx_queue (mr_mgr s) @ [CanPacket (Some x)]\<rparr>"
    using clone_equal [of x "mem_block mem"] assms(2) give_message by (simp add: mgr_SendMessage_def mgr_memory_ok_def)
  ultimately show ?thesis
    by (intro give_inv [OF assms(1)]) simp_all
next
  case (give_protoplexer pm)
  then show ?thesis
    by (intro give_inv [OF assms(1)]) (simp_all add: SendProtoPlexer_def)
next
  case (arrive ch f)
  then show ?thesis
    using arrive_inv [OF assms(1)] by simp
qed (use assms(1) in simp_all)

lemma mr_start_inv:
  assumes "m_can_channel m = Some ch" "plain_live ch" "\<forall>x\<in>set (backend_pending ch). can_message_wf x" "m_tx_queue m = []"
  shows "mr_inv mem m (mr_start m)"
  by (rule mr_invI [where ch = ch and consumed = "[]" and q = "[]"]) (use assms in \<open>simp_all add: mr_start_def list_all_iff\<close>)

lemma mr_reaches_inv:
  assumes "mr_reaches mem s t" "mr_inv mem m s" "mgr_memory_ok mem"
  shows "mr_inv mem m t"
  using assms(1,2) by (induction rule: mr_reaches.induct) (auto intro: mr_step_inv [OF _ assms(3)])


section \<open>The order\<close>

text \<open>
  C12. Whatever threads give packets to the manager and whenever, and whenever frames arrive: at every
  moment the channel was given the frames of the packets in the order in which these were put into the
  queue, those still in the queue missing at the end, none twice; and the subscribers were called with
  the frames in the order of their arrival, and with the messages they complete, those still in the
  channel missing at the end.
\<close>

theorem manager_keeps_order:
  assumes "mr_reaches mem (mr_start m) s" "mgr_memory_ok mem"
    and "m_can_channel m = Some ch" "plain_live ch" "\<forall>x\<in>set (backend_pending ch). can_message_wf x" "m_tx_queue m = []"
  shows "sent (mr_events s) @ queue_frames mem m (m_tx_queue (mr_mgr s)) = queue_frames mem m (mr_given s) \<and>
    (\<exists>consumed ch'. m_can_channel (mr_mgr s) = Some ch' \<and> mr_arrived s = consumed @ backend_pending ch' \<and>
      calls (mr_events s) = published m (rx_packets mem (m_backend_active m) (m_pp_ctx m) consumed))"
  using mr_reaches_inv [OF assms(1) mr_start_inv [OF assms(3-6)] assms(2)]
  by (rule mr_invE) auto


section \<open>A worker that is awake\<close>

definition mr_pending :: "(('x backend_channel, 'f, 'c) CanChannelAdapter, 'h) mgr_race \<Rightarrow> uni_can_message list" where
  "mr_pending s = (case m_can_channel (mr_mgr s) of None \<Rightarrow> [] | Some ch \<Rightarrow> backend_pending ch)"

lemma worker_round:
  assumes "mr_inv mem m0 s" "mgr_memory_ok mem" "mr_pc s = AtReceive"
  obtains t again
  where "mr_works mem 2 s t" "mr_inv mem m0 t" "m_tx_queue (mr_mgr t) = []" "mr_pending t = tl (mr_pending s)"
    and "mr_given t = mr_given s" "mr_arrived t = mr_arrived s" "mr_pc t = (if again then AtReceive else AtWait)"
    and "mr_pending s \<noteq> [] \<Longrightarrow> again" "mr_pending s = [] \<Longrightarrow> m_tx_queue (mr_mgr s) = [] \<Longrightarrow> \<not> again"
proof -
  obtain again1 m1 evs1 where r: "mgr_receive adapter_ops_of mem (mr_mgr s) = (again1, m1, evs1)"
    by (metis prod_cases3)
  define t1 where "t1 = s\<lparr>mr_mgr := m1, mr_pc := AtSend again1, mr_events := mr_events s @ evs1\<rparr>"
  have t1: "mr_inv mem m0 t1" "m_tx_queue m1 = m_tx_queue (mr_mgr s)" "again1 = (mr_pending s \<noteq> [])" "mr_pending t1 = tl (mr_pending s)"
    using receive_half_inv [OF assms(1,2) r, of "AtSend again1"] by (auto simp: t1_def mr_pending_def)
  obtain again2 m2 evs2 where s: "mgr_transmit adapter_ops_of mem (m_tx_queue (mr_mgr t1)) again1 (mr_mgr t1) = (again2, m2, evs2)"
    by (metis prod_cases3)
  define t2 where "t2 = t1\<lparr>mr_mgr := m2, mr_pc := (if again2 then AtReceive else AtWait), mr_events := mr_events t1 @ evs2\<rparr>"
  have t2: "mr_inv mem m0 t2" "m_tx_queue m2 = []" "again1 \<longrightarrow> again2" "m_tx_queue m1 = [] \<longrightarrow> again2 = again1" "mr_pending t2 = mr_pending t1"
    using send_half_inv [OF t1(1) s, of "if again2 then AtReceive else AtWait"] by (auto simp: t2_def t1_def mr_pending_def)
  have "mr_step mem s ReceiveHalf t1"
    using mr_step.receive_half [OF assms(3) r] by (simp add: t1_def)
  moreover have "mr_step mem t1 SendHalf t2"
    using mr_step.send_half [OF _ s] by (simp add: t1_def t2_def)
  ultimately have "mr_works mem 2 s t2"
    by (auto simp: numeral_2_eq_2 intro: works_step works_none)
  then show ?thesis
    using t1 t2 by (intro that [of t2 again2]) (simp_all add: t1_def t2_def)
qed

lemma works_append: "mr_works mem k s t \<Longrightarrow> mr_works mem n t u \<Longrightarrow> mr_works mem (k + n) s u"
  by (induction rule: mr_works.induct) (auto intro: works_step)

definition mr_done ::
  "memory \<Rightarrow> (('x backend_channel, 'f, 'c) CanChannelAdapter, 'h) CanManager
    \<Rightarrow> (('x backend_channel, 'f, 'c) CanChannelAdapter, 'h) mgr_race
    \<Rightarrow> (('x backend_channel, 'f, 'c) CanChannelAdapter, 'h) mgr_race \<Rightarrow> bool" where
  "mr_done mem m0 s t \<longleftrightarrow> mr_inv mem m0 t \<and> mr_pc t = AtWait \<and> m_tx_queue (mr_mgr t) = [] \<and> mr_pending t = [] \<and>
     mr_given t = mr_given s \<and> mr_arrived t = mr_arrived s"

lemma awake_worker:
  assumes "mr_inv mem m0 s" "mgr_memory_ok mem" "mr_pc s = AtReceive"
  shows "\<exists>n t. n \<le> 2 * length (mr_pending s) + (if m_tx_queue (mr_mgr s) = [] then 2 else 4) \<and> mr_works mem n s t \<and> mr_done mem m0 s t"
  using assms(1,3)
proof (induction "2 * length (mr_pending s) + (if m_tx_queue (mr_mgr s) = [] then 0 else 1)" arbitrary: s rule: less_induct)
  case less
  show ?case
  proof (rule worker_round [OF less.prems(1) assms(2) less.prems(2)])
    fix t again
    assume t: "mr_works mem 2 s t" "mr_inv mem m0 t" "m_tx_queue (mr_mgr t) = []" "mr_pending t = tl (mr_pending s)"
      "mr_given t = mr_given s" "mr_arrived t = mr_arrived s" "mr_pc t = (if again then AtReceive else AtWait)"
      "mr_pending s \<noteq> [] \<Longrightarrow> again" "mr_pending s = [] \<Longrightarrow> m_tx_queue (mr_mgr s) = [] \<Longrightarrow> \<not> again"
    show ?thesis
    proof (cases again)
      case False
      then have "mr_pending s = []"
        using t(8) by blast
      with t False have "mr_done mem m0 s t"
        by (simp add: mr_done_def)
      with t(1) show ?thesis
        by (intro exI [of _ 2] exI [of _ t]) simp
    next
      case True
      then have "mr_pending s \<noteq> [] \<or> m_tx_queue (mr_mgr s) \<noteq> []"
        using t(9) by blast
      then have "2 * length (mr_pending t) + (if m_tx_queue (mr_mgr t) = [] then 0 else 1) <
          2 * length (mr_pending s) + (if m_tx_queue (mr_mgr s) = [] then 0 else 1)"
        using t(3,4) by (cases "mr_pending s") simp_all
      then obtain n u where u: "n \<le> 2 * length (mr_pending t) + 2" "mr_works mem n t u" "mr_done mem m0 t u"
        using less.hyps [of t] t(2,3,7) True by auto
      have "mr_done mem m0 s u"
        using u(3) t(5,6) by (simp add: mr_done_def)
      moreover have "2 + n \<le> 2 * length (mr_pending s) + (if m_tx_queue (mr_mgr s) = [] then 2 else 4)"
        using u(1) t(4) \<open>mr_pending s \<noteq> [] \<or> m_tx_queue (mr_mgr s) \<noteq> []\<close> by (cases "mr_pending s") simp_all
      ultimately show ?thesis
        using works_append [OF t(1) u(2)] by blast
    qed
  qed
qed

text \<open>
  C13. A worker that was woken does everything there is to do: from any state that other threads can
  have brought about, when nothing is added any more, it is back before its wait after at most two
  rounds more than there are frames waiting; then the queue and the channel are empty, every packet ever
  given has been sent, in order, and the subscribers were called with every frame that ever arrived.
\<close>

theorem woken_worker_sends_all:
  assumes "mr_reaches mem (mr_start m) s" "mgr_memory_ok mem" "mr_pc s = AtReceive"
    and "m_can_channel m = Some ch" "plain_live ch" "\<forall>x\<in>set (backend_pending ch). can_message_wf x" "m_tx_queue m = []"
  shows "\<exists>n t. n \<le> 2 * (length (mr_pending s) + 2) \<and> mr_works mem n s t \<and> mr_pc t = AtWait \<and>
    m_tx_queue (mr_mgr t) = [] \<and> mr_pending t = [] \<and> sent (mr_events t) = queue_frames mem m (mr_given s) \<and>
    calls (mr_events t) = published m (rx_packets mem (m_backend_active m) (m_pp_ctx m) (mr_arrived s))"
proof -
  have "mr_inv mem m s"
    using mr_reaches_inv [OF assms(1) mr_start_inv [OF assms(4-7)] assms(2)] .
  from awake_worker [OF this assms(2,3)] obtain n t
    where t: "n \<le> 2 * length (mr_pending s) + (if m_tx_queue (mr_mgr s) = [] then 2 else 4)" "mr_works mem n s t" "mr_done mem m s t"
    by blast
  have inv: "mr_inv mem m t" and finished: "mr_pc t = AtWait" "m_tx_queue (mr_mgr t) = []" "mr_pending t = []"
    "mr_given t = mr_given s" "mr_arrived t = mr_arrived s"
    using t(3) by (simp_all add: mr_done_def)
  have "sent (mr_events t) = queue_frames mem m (mr_given s) \<and>
      calls (mr_events t) = published m (rx_packets mem (m_backend_active m) (m_pp_ctx m) (mr_arrived s))"
    using inv by (rule mr_invE) (use finished in \<open>auto simp: mr_pending_def\<close>)
  moreover have "n \<le> 2 * (length (mr_pending s) + 2)"
    using t(1) by (simp split: if_splits)
  ultimately show ?thesis
    using t(2) finished by blast
qed

text \<open>
  C14. A notification can be lost. Whatever has happened so far, when the worker is past its last look
  at the queue and not yet waiting, a packet that is given and a frame that arrives stay where they are:
  the worker goes to its wait and no step of its own is possible any more; something else has to wake
  it, and as long as nothing does the packet is not sent and no subscriber hears of the frame.
\<close>

theorem notification_can_be_lost:
  assumes "mr_pc s = AtWait" "m_can_channel (mr_mgr s) = Some ch" "can_message_wf f"
  shows "\<exists>t u v. mr_step mem s (Arrive f) t \<and> mr_step mem t (GiveProtoPlexer pm) u \<and> mr_step mem u BeginWait v \<and>
    m_tx_queue (mr_mgr v) = m_tx_queue (mr_mgr s) @ [PpPacket pm] \<and> mr_pending v = mr_pending s @ [f] \<and>
    mr_events v = mr_events s \<and> (\<forall>e x. mr_step mem v e x \<longrightarrow> e \<notin> {BeginWait, ReceiveHalf, SendHalf})"
proof -
  define t where "t = s\<lparr>mr_mgr := (mr_mgr s)\<lparr>m_can_channel := Some (backend_push f ch)\<rparr>, mr_arrived := mr_arrived s @ [f]\<rparr>"
  define u where "u = t\<lparr>mr_mgr := SendProtoPlexer pm (mr_mgr t), mr_pc := mr_notified (mr_pc t), mr_given := mr_given t @ [PpPacket pm]\<rparr>"
  have pc: "mr_pc u = AtWait"
    using assms(1) by (simp add: t_def u_def mr_notified_def)
  have "\<forall>e x. mr_step mem (u\<lparr>mr_pc := InWait\<rparr>) e x \<longrightarrow> e \<notin> {BeginWait, ReceiveHalf, SendHalf}"
    by (auto simp: mr_begin_wait mr_receive_half mr_send_half)
  moreover have "mr_step mem s (Arrive f) t" "mr_step mem t (GiveProtoPlexer pm) u" "mr_step mem u BeginWait (u\<lparr>mr_pc := InWait\<rparr>)"
    using arrive [OF assms(2,3)] give_protoplexer [of mem t pm] begin_wait [OF pc] by (simp_all add: t_def u_def)
  moreover have "m_tx_queue (mr_mgr u) = m_tx_queue (mr_mgr s) @ [PpPacket pm]" "mr_pending (u\<lparr>mr_pc := InWait\<rparr>) = mr_pending s @ [f]"
    "mr_events u = mr_events s"
    using assms(2) by (simp_all add: t_def u_def SendProtoPlexer_def mr_pending_def)
  ultimately show ?thesis
    by (intro exI [of _ t] exI [of _ u] exI [of _ "u\<lparr>mr_pc := InWait\<rparr>"]) simp
qed


section \<open>A concrete run\<close>

text \<open>The worker waits, a message is given to it, and it wakes up.\<close>

definition example_race :: "((unit backend_channel, nat, nat) CanChannelAdapter, nat) mgr_race" where
  "example_race = (mr_start (example_manager [] []))\<lparr>mr_mgr := SendProtoPlexer example_pm (example_manager [] []),
     mr_pc := AtReceive, mr_given := [PpPacket example_pm]\<rparr>"

lemma example_race_reached: "mr_reaches example_memory (mr_start (example_manager [] [])) example_race"
proof -
  let ?s = "mr_start (example_manager [] [])"
  have "mr_step example_memory ?s BeginWait (?s\<lparr>mr_pc := InWait\<rparr>)"
    by (rule begin_wait) (simp add: mr_start_def)
  then have "mr_reaches example_memory ?s (?s\<lparr>mr_pc := InWait\<rparr>)"
    by (rule mr_next [OF mr_refl])
  moreover have "mr_step example_memory (?s\<lparr>mr_pc := InWait\<rparr>) (GiveProtoPlexer example_pm) example_race"
    by (simp add: mr_give_protoplexer example_race_def mr_start_def mr_notified_def)
  ultimately show ?thesis
    by (rule mr_next)
qed

lemma example_race_simps [simp]:
  "mr_pc example_race = AtReceive" "mr_given example_race = [PpPacket example_pm]" "mr_arrived example_race = []"
  "mr_events example_race = []" "mr_pending example_race = []"
  by (simp_all add: example_race_def mr_start_def mr_pending_def SendProtoPlexer_def)

lemma example_queue_frames:
  "queue_frames example_memory (example_manager [] []) [PpPacket example_pm] = [pp_chunk pp_example 8 0, pp_chunk pp_example 8 1]"
proof -
  have "pc_max_chunk_length (m_pp_cfg_active (example_manager [] [])) = 8"
    by (simp add: example_manager_def can_manager_new_def protoplexer_config_default_def UNI_CAN_MESSAGE_MAXLEN_def)
  then show ?thesis
    using example_pm_frames by (simp add: queue_frames_def)
qed

theorem manager_keeps_order_witness:
  "sent (mr_events example_race) @ queue_frames example_memory (example_manager [] []) (m_tx_queue (mr_mgr example_race)) =
    [pp_chunk pp_example 8 0, pp_chunk pp_example 8 1]"
  using manager_keeps_order [OF example_race_reached, of "example_channel []"] by (simp add: example_queue_frames)

theorem woken_worker_sends_all_witness:
  "\<exists>n t. n \<le> 4 \<and> mr_works example_memory n example_race t \<and> mr_pc t = AtWait \<and>
    sent (mr_events t) = [pp_chunk pp_example 8 0, pp_chunk pp_example 8 1]"
  using woken_worker_sends_all [OF example_race_reached, of "example_channel []"] by (auto simp: example_queue_frames)

theorem notification_can_be_lost_witness:
  "\<exists>t u v. mr_step example_memory (mr_start (example_manager [] [])) (Arrive can_message_zero) t \<and>
    mr_step example_memory t (GiveProtoPlexer example_pm) u \<and> mr_step example_memory u BeginWait v \<and>
    m_tx_queue (mr_mgr v) = [PpPacket example_pm] \<and> mr_pending v = [can_message_zero] \<and> mr_events v = []"
  using notification_can_be_lost [of "mr_start (example_manager [] [])" "example_channel []" can_message_zero example_memory example_pm]
  by (auto simp: mr_start_def mr_pending_def) 

end
