(* ===== verification/RxWindow.thy ===== *)
theory RxWindow
  imports CanManager
begin

text \<open>
  The receive window of the application (\<open>src_app/window_can_rx.h\<close>, \<open>src_app/window_can_rx.cpp\<close>):
  the lists of what was received, the filter with its list of ignored identifiers, and the two
  lists of indices that say which entries the tables show.

  What the user does is an event with the values the widgets give; the order of the drawing calls is
  not modelled. A step is \<open>None\<close> where the code has no defined behaviour (a null message, erasing
  from an empty list). Reading the filter from its file is the argument of \<open>filterLoad\<close>.
\<close>

section \<open>Data\<close>

record rx_window =
  rw_filter :: bool
  rw_filter_value :: u32
  rw_msgs_raw :: "(string \<times> uni_can_message) list"
  rw_msgs_raw_filtered :: "nat list"
  rw_msgs_pp :: "(string \<times> ProtoPlexerMessage) list"
  rw_msgs_pp_filtered :: "nat list"
  rw_filter_list :: "u32 list"
  rw_filter_selection :: int

text \<open>What the file with the filter holds, if it is there and can be read.\<close>

definition filterLoad :: "u32 list option \<Rightarrow> rx_window \<Rightarrow> rx_window" where
  "filterLoad file w = (case file of None \<Rightarrow> w | Some ids \<Rightarrow> w\<lparr>rw_filter_list := ids\<rparr>)"

definition rx_window_new :: "u32 list option \<Rightarrow> rx_window" where
  "rx_window_new file = filterLoad file
     \<lparr>rw_filter = False, rw_filter_value = 0, rw_msgs_raw = [], rw_msgs_raw_filtered = [], rw_msgs_pp = [],
      rw_msgs_pp_filtered = [], rw_filter_list = [], rw_filter_selection = -1\<rparr>"


section \<open>Operations\<close>

definition rx_clear :: "rx_window \<Rightarrow> rx_window" where
  "rx_clear w = w\<lparr>rw_msgs_raw := [], rw_msgs_raw_filtered := [], rw_msgs_pp := [], rw_msgs_pp_filtered := []\<rparr>"

definition filterMatch :: "rx_window \<Rightarrow> u32 \<Rightarrow> bool" where
  "filterMatch w key = (if \<not> rw_filter w then True else key \<notin> set (rw_filter_list w))"

definition receiveMsg :: "string \<Rightarrow> packet \<Rightarrow> rx_window \<Rightarrow> rx_window option" where
  "receiveMsg ts msg w =
     (case msg of
        CanPacket None \<Rightarrow> None
      | CanPacket (Some x) \<Rightarrow>
          let w = w\<lparr>rw_msgs_raw := rw_msgs_raw w @ [(ts, x)]\<rparr>
          in Some (if filterMatch w (cm_id x)
                   then w\<lparr>rw_msgs_raw_filtered := rw_msgs_raw_filtered w @ [length (rw_msgs_raw w) - 1]\<rparr> else w)
      | PpPacket x \<Rightarrow>
          let w = w\<lparr>rw_msgs_pp := rw_msgs_pp w @ [(ts, x)]\<rparr>
          in Some (if filterMatch w (ucast (pm_message_id x))
                   then w\<lparr>rw_msgs_pp_filtered := rw_msgs_pp_filtered w @ [length (rw_msgs_pp w) - 1]\<rparr> else w))"

definition rebuildFilter :: "rx_window \<Rightarrow> rx_window" where
  "rebuildFilter w = w\<lparr>
     rw_msgs_raw_filtered := filter (\<lambda>i. filterMatch w (cm_id (snd (rw_msgs_raw w ! i)))) [0..<length (rw_msgs_raw w)],
     rw_msgs_pp_filtered := filter (\<lambda>i. filterMatch w (ucast (pm_message_id (snd (rw_msgs_pp w ! i))))) [0..<length (rw_msgs_pp w)]\<rparr>"

text \<open>The entry of the list box that is marked when the button is pressed.\<close>

definition selected_idx :: "rx_window \<Rightarrow> nat" where
  "selected_idx w =
     (if 0 \<le> rw_filter_selection w \<and> nat (rw_filter_selection w) < length (rw_filter_list w)
      then nat (rw_filter_selection w) else 0)"

definition filter_remove :: "rx_window \<Rightarrow> rx_window option" where
  "filter_remove w =
     (if rw_filter_list w = [] then None
      else Some (rebuildFilter (w\<lparr>rw_filter_list := take (selected_idx w) (rw_filter_list w) @ drop (selected_idx w + 1) (rw_filter_list w)\<rparr>)))"

text \<open>Adding the value that was typed; the second result is what is written to the file.\<close>

definition filter_add :: "u32 \<Rightarrow> rx_window \<Rightarrow> rx_window \<times> u32 list" where
  "filter_add value w =
     (let w = w\<lparr>rw_filter_value := value\<rparr>; w = w\<lparr>rw_filter_list := rw_filter_list w @ [rw_filter_value w]\<rparr>
      in (rebuildFilter w, rw_filter_list w))"

datatype rx_event =
    Receive string packet
  | Clear
  | CheckFilter bool
  | CloseFilterWindow
  | Select nat
  | RemoveFilter
  | AddFilter u32

definition rx_event_step :: "rx_event \<Rightarrow> rx_window \<Rightarrow> rx_window option" where
  "rx_event_step e w =
     (case e of
        Receive ts msg \<Rightarrow> receiveMsg ts msg w
      | Clear \<Rightarrow> Some (rx_clear w)
      | CheckFilter v \<Rightarrow> Some (rebuildFilter (w\<lparr>rw_filter := v\<rparr>))
      | CloseFilterWindow \<Rightarrow> Some (w\<lparr>rw_filter := False\<rparr>)
      | Select n \<Rightarrow> Some (w\<lparr>rw_filter_selection := int n\<rparr>)
      | RemoveFilter \<Rightarrow> filter_remove w
      | AddFilter v \<Rightarrow> Some (fst (filter_add v w)))"


section \<open>The rows\<close>

text \<open>
  The data column of a raw message: as many bytes of the union as the length says. \<open>None\<close> when that
  is more than the union holds.
\<close>

definition raw_row :: "uni_can_message \<Rightarrow> (string \<times> string \<times> string \<times> string) option" where
  "raw_row x =
     (if unat (cm_len x) > length (data_u8 (cm_data x)) then None
      else Some (hex_fixed 8 (unat (cm_id x)), if cm_flags x AND UNI_CAN_MSG_FLAG_EXT_ID \<noteq> 0 then ''EXT'' else ''STD'',
        show_nat (unat (cm_len x)),
        concat (map (\<lambda>b. hex_fixed 2 (unat b) @ '' '') (take (unat (cm_len x)) (data_u8 (cm_data x))))))"

definition pp_row_data :: "ProtoPlexerDictionary option \<Rightarrow> ProtoPlexerMessage \<Rightarrow> string" where
  "pp_row_data dict x =
     (let show = min (length (pm_data x)) 16;
          data = concat (map (\<lambda>b. hex_fixed 2 (unat b) @ '' '') (take show (pm_data x)));
          data = (if length (pm_data x) > show then data @ ''...'' else data)
      in (case dict of
            None \<Rightarrow> data
          | Some d \<Rightarrow>
              (let summary = FormatPayloadSummary d (pm_message_id x) (pm_data x)
               in if summary \<noteq> [] then data @ '' | '' @ summary else data)))"


text \<open>The time of an entry, from the fields of the local time.\<close>

definition now_ts_hhmmss_ms :: "nat \<Rightarrow> nat \<Rightarrow> nat \<Rightarrow> nat \<Rightarrow> string" where
  "now_ts_hhmmss_ms hour minute sec ms =
     dec_padded 2 hour @ '':'' @ dec_padded 2 minute @ '':'' @ dec_padded 2 sec @ ''.'' @ dec_padded 3 ms"

text \<open>A row of each table as the texts of its columns.\<close>

definition raw_line :: "string \<times> uni_can_message \<Rightarrow> string list option" where
  "raw_line e = map_option (\<lambda>(cid, flags, dlc, data). [fst e, cid, flags, dlc, data]) (raw_row (snd e))"

definition label_or :: "string option \<Rightarrow> string \<Rightarrow> string" where
  "label_or label digits = (case label of None \<Rightarrow> digits | Some l \<Rightarrow> if l \<noteq> [] then l else digits)"

definition pp_line :: "ProtoPlexerDictionary option \<Rightarrow> string \<times> ProtoPlexerMessage \<Rightarrow> string list" where
  "pp_line dict e =
     (let m = snd e
      in [fst e,
          label_or (map_option (\<lambda>d. FormatMessageId d (pm_message_id m)) dict) (hex_padded 4 (unat (pm_message_id m))),
          label_or (map_option (\<lambda>d. FormatAddress d (pm_address_from m)) dict) (hex_padded 3 (unat (pm_address_from m))),
          label_or (map_option (\<lambda>d. FormatAddress d (pm_address_to m)) dict) (hex_padded 3 (unat (pm_address_to m))),
          show_hex (unat (pm_priority_inverted m)), show_nat (length (pm_data m)), pp_row_data dict m])"

text \<open>
  The rows that are drawn: the lines the clipper asks for, ranges of numbers of rows; a number past
  the end ends the drawing. \<open>None\<close> is an access outside the list of entries, or of a row.
\<close>

fun rx_rows :: "('e \<Rightarrow> 'r option) \<Rightarrow> 'e list \<Rightarrow> nat list \<Rightarrow> nat list \<Rightarrow> 'r list option" where
  "rx_rows row msgs shown [] = Some []"
| "rx_rows row msgs shown (i # idxs) =
     (if i \<ge> length shown then Some []
      else if shown ! i \<ge> length msgs then None
      else (case row (msgs ! (shown ! i)) of
              None \<Rightarrow> None
            | Some r \<Rightarrow> map_option ((#) r) (rx_rows row msgs shown idxs)))"

definition clipped :: "(nat \<times> nat) list \<Rightarrow> nat list" where
  "clipped ranges = concat (map (\<lambda>(first, past). [first..<past]) ranges)"

definition uiTableRawCan :: "(nat \<times> nat) list \<Rightarrow> rx_window \<Rightarrow> string list list option" where
  "uiTableRawCan ranges w = rx_rows raw_line (rw_msgs_raw w) (rw_msgs_raw_filtered w) (clipped ranges)"

definition uiTableProtoPlexer :: "ProtoPlexerDictionary option \<Rightarrow> (nat \<times> nat) list \<Rightarrow> rx_window \<Rightarrow> string list list option" where
  "uiTableProtoPlexer dict ranges w =
     rx_rows (\<lambda>e. Some (pp_line dict e)) (rw_msgs_pp w) (rw_msgs_pp_filtered w) (clipped ranges)"

text \<open>There are tabs when the protocol is configured; the argument says which one is open.\<close>

definition uiTable ::
  "ParseBackend \<Rightarrow> bool \<Rightarrow> ProtoPlexerDictionary option \<Rightarrow> (nat \<times> nat) list \<Rightarrow> rx_window \<Rightarrow> string list list option" where
  "uiTable configured pp_tab dict ranges w =
     (if configured = ProtoPlexer \<and> pp_tab then uiTableProtoPlexer dict ranges w else uiTableRawCan ranges w)"


section \<open>Properties\<close>

text \<open>The tables show exactly the entries that pass the filter, in the order of arrival.\<close>

definition rx_shows_filtered :: "rx_window \<Rightarrow> bool" where
  "rx_shows_filtered w \<longleftrightarrow> rebuildFilter w = w"

lemma filterMatch_update [simp]:
  "filterMatch (w\<lparr>rw_msgs_raw := a\<rparr>) = filterMatch w" "filterMatch (w\<lparr>rw_msgs_raw_filtered := b\<rparr>) = filterMatch w"
  "filterMatch (w\<lparr>rw_msgs_pp := c\<rparr>) = filterMatch w" "filterMatch (w\<lparr>rw_msgs_pp_filtered := d\<rparr>) = filterMatch w"
  "filterMatch (w\<lparr>rw_filter_selection := e\<rparr>) = filterMatch w"
  by (simp_all add: filterMatch_def fun_eq_iff)

lemma shows_iff:
  "rx_shows_filtered w \<longleftrightarrow>
    rw_msgs_raw_filtered w = filter (\<lambda>i. filterMatch w (cm_id (snd (rw_msgs_raw w ! i)))) [0..<length (rw_msgs_raw w)] \<and>
    rw_msgs_pp_filtered w = filter (\<lambda>i. filterMatch w (ucast (pm_message_id (snd (rw_msgs_pp w ! i))))) [0..<length (rw_msgs_pp w)]"
  by (cases w) (auto simp: rx_shows_filtered_def rebuildFilter_def)

lemma rebuild_shows: "rx_shows_filtered (rebuildFilter w)"
  unfolding shows_iff by (simp add: rebuildFilter_def)

lemma filter_snoc_index:
  "filter (\<lambda>i. P (f ((xs @ [x]) ! i))) [0..<length xs] = filter (\<lambda>i. P (f (xs ! i))) [0..<length xs]"
  by (intro filter_cong) (auto simp: nth_append)

lemma receive_shows:
  assumes "rx_shows_filtered w" "receiveMsg ts msg w = Some w'"
  shows "rx_shows_filtered w'"
proof (cases msg)
  case (CanPacket x)
  with assms(2) obtain y where "x = Some y"
    by (cases x) (auto simp: receiveMsg_def)
  then show ?thesis
    using assms CanPacket unfolding shows_iff receiveMsg_def
    by (auto simp: Let_def filter_snoc_index [where f = "\<lambda>e. cm_id (snd e)"])
next
  case (PpPacket x)
  then show ?thesis
    using assms unfolding shows_iff receiveMsg_def
    by (auto simp: Let_def filter_snoc_index [where f = "\<lambda>e. ucast (pm_message_id (snd e))"])
qed

inductive rx_reachable :: "bool \<Rightarrow> rx_window \<Rightarrow> bool" for closing :: bool where
  rx_start: "rx_reachable closing (rx_window_new stored)"
| rx_next: "rx_reachable closing w \<Longrightarrow> e = CloseFilterWindow \<longrightarrow> closing \<Longrightarrow> rx_event_step e w = Some w' \<Longrightarrow>
    rx_reachable closing w'"

text \<open>
  Unless the window of the filter is closed by its own button, the tables show exactly the
  entries that pass the filter, in the order of arrival: after every sequence of messages, changes
  of the filter and its list, and clearing.
\<close>

theorem rx_tables_show_filtered:
  assumes "rx_reachable False w"
  shows "rw_msgs_raw_filtered w = filter (\<lambda>i. filterMatch w (cm_id (snd (rw_msgs_raw w ! i)))) [0..<length (rw_msgs_raw w)] \<and>
    rw_msgs_pp_filtered w = filter (\<lambda>i. filterMatch w (ucast (pm_message_id (snd (rw_msgs_pp w ! i))))) [0..<length (rw_msgs_pp w)]"
  unfolding shows_iff [symmetric] using assms
proof (induction rule: rx_reachable.induct)
  case (rx_start stored)
  show ?case
    unfolding shows_iff by (simp add: rx_window_new_def filterLoad_def split: option.split)
next
  case (rx_next w e w')
  then show ?case
    by (cases e) (auto simp: rx_event_step_def rebuild_shows filter_add_def filter_remove_def Let_def
        intro: receive_shows split: if_splits, auto simp: shows_iff rx_clear_def)
qed

theorem rx_tables_show_filtered_witness:
  "\<exists>w. rx_reachable False w \<and> rw_msgs_raw w = [(''t'', can_message_zero)] \<and> rw_msgs_raw_filtered w = []"
proof -
  let ?w = "fst (filter_add 0 (rebuildFilter ((rx_window_new None)\<lparr>rw_filter := True\<rparr>)))"
  obtain w where step: "receiveMsg ''t'' (CanPacket (Some can_message_zero)) ?w = Some w"
    by (simp add: receiveMsg_def Let_def)
  have "rx_reachable False (rebuildFilter ((rx_window_new None)\<lparr>rw_filter := True\<rparr>))"
    by (rule rx_next [OF rx_start [of _ None], of "CheckFilter True"]) (simp_all add: rx_event_step_def)
  then have "rx_reachable False ?w"
    by (rule rx_next [of _ _ "AddFilter 0"]) (simp_all add: rx_event_step_def)
  then have "rx_reachable False w"
    by (rule rx_next [of _ _ "Receive ''t'' (CanPacket (Some can_message_zero))"]) (use step in \<open>simp_all add: rx_event_step_def\<close>)
  moreover have "rw_msgs_raw w = [(''t'', can_message_zero)]" "\<not> filterMatch w 0"
    using step
    by (auto simp: receiveMsg_def filter_add_def rebuildFilter_def rx_window_new_def filterLoad_def filterMatch_def Let_def
        split: if_splits)
  ultimately show ?thesis
    using rx_tables_show_filtered [of w] by (intro exI [of _ w]) simp
qed

text \<open>
  Closing the window of the filter by its own button leaves the tables wrong: the filter is off
  and the entries it had hidden stay hidden.
\<close>

theorem closing_filter_window_keeps_hidden:
  "\<exists>w. rx_reachable True w \<and> \<not> rw_filter w \<and> rw_msgs_raw w = [(''t'', can_message_zero)] \<and> rw_msgs_raw_filtered w = []"
proof -
  let ?w = "fst (filter_add 0 (rebuildFilter ((rx_window_new None)\<lparr>rw_filter := True\<rparr>)))"
  obtain w where step: "receiveMsg ''t'' (CanPacket (Some can_message_zero)) ?w = Some w"
    by (simp add: receiveMsg_def Let_def)
  have "rx_reachable True (rebuildFilter ((rx_window_new None)\<lparr>rw_filter := True\<rparr>))"
    by (rule rx_next [OF rx_start [of _ None], of "CheckFilter True"]) (simp_all add: rx_event_step_def)
  then have "rx_reachable True ?w"
    by (rule rx_next [of _ _ "AddFilter 0"]) (simp_all add: rx_event_step_def)
  then have "rx_reachable True w"
    by (rule rx_next [of _ _ "Receive ''t'' (CanPacket (Some can_message_zero))"]) (use step in \<open>simp_all add: rx_event_step_def\<close>)
  then have "rx_reachable True (w\<lparr>rw_filter := False\<rparr>)"
    by (rule rx_next [of _ _ CloseFilterWindow]) (simp_all add: rx_event_step_def)
  moreover have "rw_msgs_raw w = [(''t'', can_message_zero)]" "rw_msgs_raw_filtered w = []"
    using step
    by (auto simp: receiveMsg_def filter_add_def rebuildFilter_def rx_window_new_def filterLoad_def filterMatch_def Let_def
        split: if_splits)
  ultimately show ?thesis
    by (intro exI [of _ "w\<lparr>rw_filter := False\<rparr>"]) simp
qed

section \<open>What the tables draw\<close>

lemma rx_rows_all:
  assumes "\<forall>i\<in>set idxs. i < length shown" "\<forall>k\<in>set shown. k < length msgs \<and> row (msgs ! k) = Some (f (msgs ! k))"
  shows "rx_rows row msgs shown idxs = Some (map (\<lambda>i. f (msgs ! (shown ! i))) idxs)"
  using assms(1)
proof (induction idxs)
  case (Cons i idxs)
  then have "shown ! i \<in> set shown"
    by simp
  with Cons assms(2) show ?case
    by (auto simp: not_le)
qed simp

lemma map_nth_filter: "map (\<lambda>i. f (xs ! i)) (filter (\<lambda>i. P (xs ! i)) [0..<length xs]) = map f (filter P xs)"
proof -
  have "map f (filter P xs) = map f (filter P (map (nth xs) [0..<length xs]))"
    by (simp only: map_nth)
  then show ?thesis
    by (simp add: filter_map o_def)
qed

lemma rx_rows_filtered:
  assumes "shown = filter (\<lambda>i. P (msgs ! i)) [0..<length msgs]" "clipped ranges = [0..<length shown]"
    and "\<forall>e\<in>set msgs. row e = Some (f e)"
  shows "rx_rows row msgs shown (clipped ranges) = Some (map f (filter P msgs))"
proof -
  have "rx_rows row msgs shown (clipped ranges) = Some (map (\<lambda>i. f (msgs ! (shown ! i))) [0..<length shown])"
    unfolding assms(2) using assms(1,3) by (intro rx_rows_all) auto
  also have "map (\<lambda>i. f (msgs ! (shown ! i))) [0..<length shown] = map (\<lambda>k. f (msgs ! k)) (map (nth shown) [0..<length shown])"
    by simp
  also have "\<dots> = map (\<lambda>k. f (msgs ! k)) shown"
    by (simp only: map_nth)
  also have "\<dots> = map f (filter P msgs)"
    by (simp only: assms(1) map_nth_filter)
  finally show ?thesis .
qed

lemma raw_line_defined: "unat (cm_len (snd e)) \<le> length (data_u8 (cm_data (snd e))) \<Longrightarrow> raw_line e = Some (the (raw_line e))"
  by (simp add: raw_line_def raw_row_def)

text \<open>
  C15. The tables draw one row for each entry that passes the filter, in the order of arrival, with the
  texts of that entry: when the whole table is in sight, in whatever ranges the clipper asks for it,
  after every sequence of messages, changes of the filter and its list that have defined behaviour, and
  clearing, as long as the window of the filter is not closed by its own button (which leaves the
  tables as they were, without the filter), and without an access outside the lists. For the table of raw
  messages no message may say that it is longer than the data it has.
\<close>

theorem rx_tables_draw_filtered:
  assumes "rx_reachable False w"
    and "\<forall>e\<in>set (rw_msgs_raw w). unat (cm_len (snd e)) \<le> length (data_u8 (cm_data (snd e)))"
    and "clipped ranges = [0..<length (rw_msgs_raw_filtered w)]" "clipped ranges' = [0..<length (rw_msgs_pp_filtered w)]"
  shows "uiTable configured False dict ranges w =
      Some (map (the \<circ> raw_line) (filter (\<lambda>e. filterMatch w (cm_id (snd e))) (rw_msgs_raw w))) \<and>
    uiTable ProtoPlexer True dict ranges' w =
      Some (map (pp_line dict) (filter (\<lambda>e. filterMatch w (ucast (pm_message_id (snd e)))) (rw_msgs_pp w)))"
proof -
  note shown = rx_tables_show_filtered [OF assms(1), THEN conjunct1] rx_tables_show_filtered [OF assms(1), THEN conjunct2]
  have "\<forall>e\<in>set (rw_msgs_raw w). raw_line e = Some ((the \<circ> raw_line) e)"
    using assms(2) raw_line_defined by auto
  from rx_rows_filtered [where P = "\<lambda>e. filterMatch w (cm_id (snd e))", OF shown(1) assms(3) this] 
    rx_rows_filtered [where P = "\<lambda>e. filterMatch w (ucast (pm_message_id (snd e)))" and row = "\<lambda>e. Some (pp_line dict e)"
      and f = "pp_line dict", OF shown(2) assms(4)]
  show ?thesis
    unfolding uiTable_def uiTableRawCan_def uiTableProtoPlexer_def by simp
qed

theorem rx_tables_draw_filtered_witness:
  "\<exists>w. rx_reachable False w \<and>
    uiTable RawCan False None [(0, 1)] w = Some [[''10:00:00.000'', ''00000000'', ''STD'', ''0'', '''']] \<and>
    uiTable ProtoPlexer True None [] w = Some []"
proof -
  let ?ts = "now_ts_hhmmss_ms 10 0 0 0"
  obtain w where step: "receiveMsg ?ts (CanPacket (Some can_message_zero)) (rx_window_new None) = Some w"
    by (simp add: receiveMsg_def Let_def)
  then have w: "w = (rx_window_new None)\<lparr>rw_msgs_raw := [(?ts, can_message_zero)], rw_msgs_raw_filtered := [0]\<rparr>"
    by (auto simp: receiveMsg_def rx_window_new_def filterLoad_def filterMatch_def Let_def)
  have "rx_reachable False w"
    by (rule rx_next [OF rx_start [of _ None], of "Receive ?ts (CanPacket (Some can_message_zero))"])
      (use step in \<open>simp_all add: rx_event_step_def\<close>)
  moreover have line: "the (raw_line (?ts, can_message_zero)) = [''10:00:00.000'', ''00000000'', ''STD'', ''0'', '''']"
  proof -
    have texts: "?ts = ''10:00:00.000''" "show_nat 0 = ''0''" "char_of (48 :: nat) = CHR ''0''"
      by code_simp+
    then have "hex_fixed 8 0 = ''00000000''"
      by (simp add: hex_fixed_def hex_char_def upt_rec)
    with texts(1,2) have "?ts = ''10:00:00.000''" "show_nat 0 = ''0''" "hex_fixed 8 0 = ''00000000''"
      by simp_all
    then show ?thesis
      by (simp add: raw_line_def raw_row_def can_message_zero_def)
  qed
  ultimately show ?thesis
    using rx_tables_draw_filtered [of w "[(0, 1)]" "[]" RawCan None]
    by (intro exI [of _ w]) (simp add: w line clipped_def rx_window_new_def filterLoad_def filterMatch_def can_message_zero_def)
qed


section \<open>The worker and the window\<close>

text \<open>
  \<open>receiveMsg\<close> runs on the worker thread of the manager, the window on the thread that draws, and
  nothing keeps one out while the other works. The three statements of \<open>receiveMsg\<close> are steps, each
  looking at the lists as they are then; what the user does is one event.
\<close>

datatype rx_pc = RxIdle | RxPush string packet | RxLook packet | RxStore packet

text \<open>\<open>size() - 1\<close> in 64 bits.\<close>

definition back_index :: "nat \<Rightarrow> nat" where
  "back_index n = (if n = 0 then 2 ^ 64 - 1 else n - 1)"

definition rx_worker :: "rx_pc \<times> rx_window \<Rightarrow> (rx_pc \<times> rx_window) option" where
  "rx_worker s =
     (case s of
        (RxIdle, w) \<Rightarrow> Some (RxIdle, w)
      | (RxPush ts (CanPacket None), w) \<Rightarrow> None
      | (RxPush ts (CanPacket (Some x)), w) \<Rightarrow>
          Some (RxLook (CanPacket (Some x)), w\<lparr>rw_msgs_raw := rw_msgs_raw w @ [(ts, x)]\<rparr>)
      | (RxPush ts (PpPacket x), w) \<Rightarrow> Some (RxLook (PpPacket x), w\<lparr>rw_msgs_pp := rw_msgs_pp w @ [(ts, x)]\<rparr>)
      | (RxLook (CanPacket x), w) \<Rightarrow>
          if rw_msgs_raw w = [] then None
          else Some (if filterMatch w (cm_id (snd (last (rw_msgs_raw w)))) then RxStore (CanPacket x) else RxIdle, w)
      | (RxLook (PpPacket x), w) \<Rightarrow>
          if rw_msgs_pp w = [] then None
          else Some (if filterMatch w (ucast (pm_message_id (snd (last (rw_msgs_pp w))))) then RxStore (PpPacket x) else RxIdle, w)
      | (RxStore (CanPacket x), w) \<Rightarrow>
          Some (RxIdle, w\<lparr>rw_msgs_raw_filtered := rw_msgs_raw_filtered w @ [back_index (length (rw_msgs_raw w))]\<rparr>)
      | (RxStore (PpPacket x), w) \<Rightarrow>
          Some (RxIdle, w\<lparr>rw_msgs_pp_filtered := rw_msgs_pp_filtered w @ [back_index (length (rw_msgs_pp w))]\<rparr>))"

datatype race_event = Worker | Ui rx_event

fun rx_race :: "race_event list \<Rightarrow> rx_pc \<times> rx_window \<Rightarrow> (rx_pc \<times> rx_window) option" where
  "rx_race [] s = Some s"
| "rx_race (Worker # es) s = (case rx_worker s of None \<Rightarrow> None | Some s' \<Rightarrow> rx_race es s')"
| "rx_race (Ui e # es) s = (case rx_event_step e (snd s) of None \<Rightarrow> None | Some w \<Rightarrow> rx_race es (fst s, w))"

text \<open>Alone, the three steps are \<open>receiveMsg\<close>.\<close>

theorem rx_worker_alone:
  "rx_race [Worker, Worker, Worker] (RxPush ts msg, w) = map_option (Pair RxIdle) (receiveMsg ts msg w)"
proof (cases msg)
  case (CanPacket x)
  then show ?thesis
    by (cases x) (simp_all add: rx_worker_def receiveMsg_def back_index_def Let_def)
qed (simp add: rx_worker_def receiveMsg_def back_index_def Let_def)

text \<open>
  C16. Nothing keeps the window away from a message that is being received. For every state of the
  window and every message that passes its filter: when the user clears the lists after the message
  was appended, the worker reads the last entry of an empty list; when the lists are cleared after it
  was looked at, an index of \<open>2 ^ 64 - 1\<close> is stored and drawing reads outside the list; and when the
  filter is rebuilt in between, the message is shown twice.
\<close>

theorem rx_message_races_with_window:
  assumes "filterMatch w (cm_id x)"
  shows "let start = (RxPush ts (CanPacket (Some x)), w) in
    rx_race [Worker, Ui Clear, Worker] start = None \<and>
    (\<exists>w'. rx_race [Worker, Worker, Ui Clear, Worker] start = Some (RxIdle, w') \<and> uiTableRawCan [(0, 1)] w' = None) \<and>
    (\<exists>w'. rx_race [Worker, Ui (CheckFilter (rw_filter w)), Worker, Worker] start = Some (RxIdle, w') \<and>
      rw_msgs_raw w' = rw_msgs_raw w @ [(ts, x)] \<and> count_list (rw_msgs_raw_filtered w') (length (rw_msgs_raw w)) = 2)"
proof (unfold Let_def, intro conjI)
  let ?start = "(RxPush ts (CanPacket (Some x)), w)" and ?n = "length (rw_msgs_raw w)"
  show "rx_race [Worker, Ui Clear, Worker] ?start = None"
    by (simp add: rx_worker_def rx_event_step_def rx_clear_def)
  show "\<exists>w'. rx_race [Worker, Worker, Ui Clear, Worker] ?start = Some (RxIdle, w') \<and> uiTableRawCan [(0, 1)] w' = None"
    using assms(1)
    by (simp add: rx_worker_def rx_event_step_def rx_clear_def uiTableRawCan_def clipped_def)
  have "count_list (filter P [0..<?n]) ?n = 0" for P
    by (simp add: count_list_0_iff)
  moreover have "filterMatch (w\<lparr>rw_msgs_raw := a, rw_filter := rw_filter w\<rparr>) = filterMatch w" for a
    by (simp add: filterMatch_def fun_eq_iff)
  ultimately show "\<exists>w'. rx_race [Worker, Ui (CheckFilter (rw_filter w)), Worker, Worker] ?start = Some (RxIdle, w') \<and>
      rw_msgs_raw w' = rw_msgs_raw w @ [(ts, x)] \<and> count_list (rw_msgs_raw_filtered w') ?n = 2"
    using assms(1)
    by (simp add: rx_worker_def rx_event_step_def rebuildFilter_def back_index_def
        filter_snoc_index [where f = "\<lambda>e. cm_id (snd e)"])
qed

theorem rx_message_races_with_window_witness:
  "rx_race [Worker, Ui Clear, Worker] (RxPush ''t'' (CanPacket (Some can_message_zero)), rx_window_new None) = None"
proof -
  have "filterMatch (rx_window_new None) (cm_id can_message_zero)"
    by (simp add: rx_window_new_def filterLoad_def filterMatch_def)
  from rx_message_races_with_window [OF this, of "''t''"] show ?thesis
    unfolding Let_def by (rule conjunct1)
qed

end
