(* ===== verification/AppSession.thy ===== *)
theory AppSession
  imports ManagerRun
begin

text \<open>
  The connect window and the raw frame tab of the application
  (\<open>src_app/window_can_connect.h\<close>, \<open>src_app/window_can_connect.cpp\<close>, \<open>src_app/window_can_tx.cpp\<close>), and
  a session of the application: the passes of its windows and the rounds of the worker over one CAN
  manager.

  A pass of a window draws it and applies what the user did with its elements since the pass before;
  what the user did is an argument. The state of the window is what its members hold.
\<close>

section \<open>The connect window\<close>

record connect_window =
  cw_baudrate_idx :: nat
  cw_device_idx :: nat
  cw_backend :: ParseBackend
  cw_pp_own_address :: u32
  cw_pp_max_channels :: u32
  cw_pp_monitoring :: bool

definition cw_baudrates :: "nat list" where
  "cw_baudrates = [125000, 250000, 500000, 1000000]"

definition connect_window_new :: connect_window where
  "connect_window_new = \<lparr>cw_baudrate_idx = 2, cw_device_idx = 0, cw_backend = RawCan, cw_pp_own_address = 0x00F,
     cw_pp_max_channels = 16, cw_pp_monitoring = True\<rparr>"

text \<open>The text of a rate; an index past the end has no defined behaviour.\<close>

definition baudrateGetLabel :: "nat \<Rightarrow> string option" where
  "baudrateGetLabel idx = (if idx < length cw_baudrates then Some (show_nat (cw_baudrates ! idx)) else None)"

definition deviceGetLabel ::
  "('p, 's) provider list \<Rightarrow> ('p, 's) factory \<Rightarrow> ('ch, 'h) CanManager \<Rightarrow> nat
    \<Rightarrow> string \<times> ('ch, 'h) CanManager \<times> ('p, 's) factory" where
  "deviceGetLabel built_in g m idx =
     (let (str, m, g) = InfoGetName built_in g m idx in (if str \<noteq> [] then str else ''select CAN device'', m, g))"

text \<open>
  The two combination boxes, with the entry that was clicked. An open list of devices asks for their
  number, which looks for devices again when there are none.
\<close>

definition uiUpdateComboCan ::
  "('p, 's) provider list \<Rightarrow> bool \<Rightarrow> nat option \<Rightarrow> ('p, 's) factory \<Rightarrow> ('ch, 'h) CanManager \<Rightarrow> connect_window
    \<Rightarrow> connect_window \<times> ('ch, 'h) CanManager \<times> ('p, 's) factory" where
  "uiUpdateComboCan built_in opened clicked g m w =
     (let (_, m, g) = deviceGetLabel built_in g m (cw_device_idx w) in
      if \<not> opened then (w, m, g)
      else
        let (n, m, g) = InfoGetCount built_in g m
        in (case clicked of
              None \<Rightarrow> (w, m, g)
            | Some idx \<Rightarrow> (if idx < n then w\<lparr>cw_device_idx := idx\<rparr> else w, m, g)))"

definition uiUpdateComboBaudrate :: "nat option \<Rightarrow> connect_window \<Rightarrow> connect_window" where
  "uiUpdateComboBaudrate clicked w =
     (case clicked of
        None \<Rightarrow> w
      | Some idx \<Rightarrow> if idx < length cw_baudrates then w\<lparr>cw_baudrate_idx := idx\<rparr> else w)"

definition connect_params :: "connect_window \<Rightarrow> ConnectParams" where
  "connect_params w = \<lparr>cp_device_index = cw_device_idx w, cp_baudrate = cw_baudrates ! cw_baudrate_idx w,
     cp_backend = cw_backend w,
     cp_protoplexer = \<lparr>pc_own_address = ucast (cw_pp_own_address w), pc_max_channels = ucast (cw_pp_max_channels w),
       pc_max_chunk_length = of_nat UNI_CAN_MESSAGE_MAXLEN, pc_monitoring = cw_pp_monitoring w\<rparr>\<rparr>"

text \<open>What the user did in a pass of the window.\<close>

record connect_input =
  ci_opened :: bool
  ci_device :: "nat option"
  ci_refresh :: bool
  ci_baudrate :: "nat option"
  ci_connect :: bool
  ci_disconnect :: bool

text \<open>\<open>UiUpdate\<close>; the functions and cookies are those of \<open>Connect\<close>.\<close>

definition connect_UiUpdate ::
  "'f \<Rightarrow> 'c \<Rightarrow> 'c \<Rightarrow> memory \<Rightarrow> ('p, 's) provider list \<Rightarrow> connect_input
    \<Rightarrow> connect_window \<Rightarrow> (('s, 'f, 'c) CanChannelAdapter, 'h) CanManager \<Rightarrow> ('p, 's) factory
    \<Rightarrow> connect_window \<times> (('s, 'f, 'c) CanChannelAdapter, 'h) CanManager \<times> ('p, 's) factory" where
  "connect_UiUpdate handler this null_cookie mem built_in inp w m g =
     (let (w, m, g) = uiUpdateComboCan built_in (ci_opened inp) (ci_device inp) g m w;
          (m, g) = (if ci_refresh inp then InfoRefresh built_in g m else (m, g));
          w = uiUpdateComboBaudrate (ci_baudrate inp) w;
          (m, g) = (if ci_connect inp
                    then (case Connect handler this null_cookie mem built_in (connect_params w) g m of (_, m, _, g) \<Rightarrow> (m, g))
                    else (m, g));
          m = (if ci_disconnect inp then fst (Disconnect adapter_ops_of m) else m)
      in (w, m, g))"

text \<open>
  The top bar: the mode, the address as it was typed, and whether the monitoring box was pressed. Its
  elements are disabled while there is a connection.
\<close>

record topbar_input =
  ti_mode :: "ParseBackend option"
  ti_address :: "u32 option"
  ti_monitoring :: bool

definition connect_UiUpdateTopBar ::
  "topbar_input \<Rightarrow> connect_window \<Rightarrow> ('ch, 'h) CanManager \<Rightarrow> connect_window \<times> ('ch, 'h) CanManager" where
  "connect_UiUpdateTopBar inp w m =
     (let connected = IsConnected m;
          (w, m) = (case ti_mode inp of
                      None \<Rightarrow> (w, m)
                    | Some mode \<Rightarrow> if connected then (w, m) else (w\<lparr>cw_backend := mode\<rparr>, m\<lparr>m_backend_cfg := mode\<rparr>))
      in
        if cw_backend w \<noteq> ProtoPlexer then (w, m)
        else
          let (w, m) = (case ti_address inp of
                          None \<Rightarrow> (w, m)
                        | Some addr \<Rightarrow> if connected then (w, m)
                            else (w\<lparr>cw_pp_own_address := addr\<rparr>,
                                  m\<lparr>m_pp_cfg_cfg := (m_pp_cfg_cfg m)\<lparr>pc_own_address := ucast (addr AND 0x0FFF)\<rparr>\<rparr>));
              w = w\<lparr>cw_pp_own_address := cw_pp_own_address w AND 0x0FFF\<rparr>
          in
            if ti_monitoring inp \<and> \<not> connected
            then (w\<lparr>cw_pp_monitoring := \<not> cw_pp_monitoring w\<rparr>,
                  m\<lparr>m_pp_cfg_cfg := (m_pp_cfg_cfg m)\<lparr>pc_monitoring := \<not> cw_pp_monitoring w\<rparr>\<rparr>)
            else (w, m))"


section \<open>The raw frame tab\<close>

text \<open>The message being edited, and the box for extended identifiers.\<close>

record raw_tab =
  rt_msg :: uni_can_message
  rt_ext_id :: bool

definition raw_tab_new :: raw_tab where
  "raw_tab_new = \<lparr>rt_msg = can_message_zero, rt_ext_id = True\<rparr>"

record raw_input =
  ri_ext_id :: bool
  ri_id :: u32
  ri_len :: u16
  ri_byte :: "nat \<Rightarrow> u8 option"
  ri_send :: bool

text \<open>A byte past the length cannot be edited; a byte that is not edited stays.\<close>

definition raw_bytes :: "(nat \<Rightarrow> u8 option) \<Rightarrow> nat \<Rightarrow> u8 list \<Rightarrow> u8 list" where
  "raw_bytes typed len bs =
     map (\<lambda>(idx, old). if idx \<ge> len then old else (case typed idx of None \<Rightarrow> old | Some v \<Rightarrow> v)) (enumerate 0 bs)"

definition ui_raw_can :: "memory \<Rightarrow> raw_input \<Rightarrow> raw_tab \<Rightarrow> ('ch, 'h) CanManager \<Rightarrow> raw_tab \<times> ('ch, 'h) CanManager" where
  "ui_raw_can mem inp t m =
     (let msg = (rt_msg t)\<lparr>cm_id := ri_id inp, cm_len := ri_len inp\<rparr>;
          msg = (if cm_len msg > 8 then msg\<lparr>cm_len := 8\<rparr> else msg);
          msg = msg\<lparr>cm_data := Inline (raw_bytes (ri_byte inp) (unat (cm_len msg)) (data_u8 (cm_data msg)))\<rparr>
      in
        if ri_send inp
        then
          let msg = msg\<lparr>cm_flags := (if ri_ext_id inp then UNI_CAN_MSG_FLAG_EXT_ID else UNI_CAN_MSG_FLAG_STD_ID)\<rparr>
          in (\<lparr>rt_msg = msg, rt_ext_id = ri_ext_id inp\<rparr>, mgr_SendMessage mem (Some msg) m)
        else (\<lparr>rt_msg = msg, rt_ext_id = ri_ext_id inp\<rparr>, m))"


section \<open>A session\<close>

record ('p, 's, 'f, 'c, 'h) app =
  ap_connect :: connect_window
  ap_raw :: raw_tab
  ap_tx :: tx_window
  ap_mgr :: "(('s, 'f, 'c) CanChannelAdapter, 'h) CanManager"
  ap_factory :: "('p, 's) factory"

definition app_new :: "tx_window \<Rightarrow> ('p, 's) factory \<Rightarrow> ('p, 's, 'f, 'c, 'h) app" where
  "app_new tx g = \<lparr>ap_connect = connect_window_new, ap_raw = raw_tab_new, ap_tx = tx, ap_mgr = can_manager_new, ap_factory = g\<rparr>"

text \<open>
  A pass of a window or of a tab that is shown, a subscription, or a round of the worker of a
  connection.
\<close>

datatype 'h app_event =
  ConnectPass connect_input
| TopBarPass topbar_input
| RawPass raw_input
| PpPass ProtoPlexerDictionary pp_input
| Subscribe string 'h
| WorkerRound

fun app_step ::
  "'f \<Rightarrow> 'c \<Rightarrow> 'c \<Rightarrow> memory \<Rightarrow> ('p, 's) provider list \<Rightarrow> 'h app_event \<Rightarrow> ('p, 's, 'f, 'c, 'h) app
    \<Rightarrow> ('p, 's, 'f, 'c, 'h) app \<times> 'h mgr_event list" where
  "app_step handler this nc mem built_in (ConnectPass inp) a =
     (let (w, m, g) = connect_UiUpdate handler this nc mem built_in inp (ap_connect a) (ap_mgr a) (ap_factory a)
      in (a\<lparr>ap_connect := w, ap_mgr := m, ap_factory := g\<rparr>, []))"
| "app_step handler this nc mem built_in (TopBarPass inp) a =
     (let (w, m) = connect_UiUpdateTopBar inp (ap_connect a) (ap_mgr a) in (a\<lparr>ap_connect := w, ap_mgr := m\<rparr>, []))"
| "app_step handler this nc mem built_in (RawPass inp) a =
     (let (t, m) = ui_raw_can mem inp (ap_raw a) (ap_mgr a) in (a\<lparr>ap_raw := t, ap_mgr := m\<rparr>, []))"
| "app_step handler this nc mem built_in (PpPass dict inp) a =
     (if m_backend_cfg (ap_mgr a) \<noteq> ProtoPlexer then (a, [])
      else
        let (w, sent_msg) = ui_pp dict inp (ap_tx a)
        in (a\<lparr>ap_tx := w, ap_mgr := (case sent_msg of None \<Rightarrow> ap_mgr a | Some pm \<Rightarrow> SendProtoPlexer pm (ap_mgr a))\<rparr>, []))"
| "app_step handler this nc mem built_in (Subscribe name f) a =
     (a\<lparr>ap_mgr := ReceiveSubscribe name f (ap_mgr a)\<rparr>, [])"
| "app_step handler this nc mem built_in WorkerRound a =
     (if \<not> m_thread (ap_mgr a) then (a, [])
      else (let (_, m, evs) = mgr_round adapter_ops_of mem (ap_mgr a) in (a\<lparr>ap_mgr := m\<rparr>, evs)))"

text \<open>The memory of each pass and of each round is its own: it may be there in one and not in the next.\<close>

fun app_run ::
  "'f \<Rightarrow> 'c \<Rightarrow> 'c \<Rightarrow> ('p, 's) provider list \<Rightarrow> (memory \<times> 'h app_event) list \<Rightarrow> ('p, 's, 'f, 'c, 'h) app
    \<Rightarrow> ('p, 's, 'f, 'c, 'h) app \<times> 'h mgr_event list" where
  "app_run handler this nc built_in [] a = (a, [])"
| "app_run handler this nc built_in ((mem, e) # es) a =
     (let (a, evs) = app_step handler this nc mem built_in e a;
          (a, evs') = app_run handler this nc built_in es a
      in (a, evs @ evs'))"


section \<open>What always holds\<close>

text \<open>A frame every backend can send: its data are eight bytes in the object, at most eight of them used.\<close>

definition classic :: "uni_can_message \<Rightarrow> bool" where
  "classic f \<longleftrightarrow> unat (cm_len f) \<le> 8 \<and> (case cm_data f of Inline bs \<Rightarrow> length bs = 8 | Ptr _ \<Rightarrow> False) \<and>
     cm_flags f \<in> {UNI_CAN_MSG_FLAG_EXT_ID, UNI_CAN_MSG_FLAG_STD_ID}"

definition packet_ok :: "packet \<Rightarrow> bool" where
  "packet_ok p \<longleftrightarrow> (case p of CanPacket None \<Rightarrow> True | CanPacket (Some f) \<Rightarrow> classic f | PpPacket _ \<Rightarrow> True)"

definition mgr_ok :: "('ch, 'h) CanManager \<Rightarrow> bool" where
  "mgr_ok m \<longleftrightarrow> list_all packet_ok (m_tx_queue m) \<and>
     (m_backend_active m = ProtoPlexer \<longrightarrow> unat (pc_max_chunk_length (m_pp_cfg_active m)) \<le> 8)"

definition window_ok :: "connect_window \<Rightarrow> ('ch, 'h) CanManager \<Rightarrow> bool" where
  "window_ok w m \<longleftrightarrow> cw_baudrate_idx w < length cw_baudrates \<and> cw_pp_own_address w \<le> 0x0FFF \<and> cw_pp_max_channels w = 16 \<and>
     m_backend_cfg m = cp_backend (connect_params w) \<and> m_pp_cfg_cfg m = cp_protoplexer (connect_params w)"

definition raw_ok :: "raw_tab \<Rightarrow> bool" where
  "raw_ok t \<longleftrightarrow> (case cm_data (rt_msg t) of Inline bs \<Rightarrow> length bs = 8 | Ptr _ \<Rightarrow> False)"

definition app_ok :: "('p, 's, 'f, 'c, 'h) app \<Rightarrow> bool" where
  "app_ok a \<longleftrightarrow> window_ok (ap_connect a) (ap_mgr a) \<and> mgr_ok (ap_mgr a) \<and> raw_ok (ap_raw a)"

lemma build_chunk_classic:
  assumes "uni_can_protoplexer_build_chunk (Some msg) chunk i (Some out) = (PP_OK, Some c)" "unat chunk \<le> 8"
  shows "classic c"
  using assms
  by (auto simp: uni_can_protoplexer_build_chunk_def classic_def unat_of_nat_u16 UNI_CAN_MESSAGE_MAXLEN_def Let_def
      simp del: of_nat_add split: if_splits)

lemma build_loop_classic:
  "pp_build_chunks_loop msg chunk idxs = (PP_OK, cs) \<Longrightarrow> unat chunk \<le> 8 \<Longrightarrow> list_all classic cs"
  by (induction idxs arbitrary: cs)
    (auto dest: build_chunk_classic split: prod.splits uni_can_protoplexer_result.splits option.splits)

lemma packet_frames_classic:
  assumes "packet_frames mem active chunk p = Some fs" "packet_ok p" "active = ProtoPlexer \<longrightarrow> unat chunk \<le> 8"
  shows "list_all classic fs"
proof (cases p)
  case (CanPacket x)
  with assms show ?thesis
    by (cases x) (auto simp: packet_frames_def packet_ok_def)
next
  case (PpPacket pm)
  have "\<exists>msg n cs. pp_build_chunks_loop msg chunk [0..<n] = (PP_OK, cs) \<and> fs = take n cs"
    using assms(1) PpPacket
    by (auto simp: packet_frames_def uni_can_protoplexer_build_chunks_def Let_def
        split: if_splits option.splits prod.splits uni_can_protoplexer_result.splits)
  moreover have "unat chunk \<le> 8"
    using assms(1,3) PpPacket by (auto simp: packet_frames_def split: if_splits)
  ultimately show ?thesis
    by (auto dest!: build_loop_classic simp: list_all_iff dest: in_set_takeD)
qed

text \<open>What the worker changes, and what it gives to the channel.\<close>

definition mgr_config :: "('ch, 'h) CanManager \<Rightarrow> ParseBackend \<times> ProtoPlexerConfig \<times> ParseBackend \<times> ProtoPlexerConfig" where
  "mgr_config m = (m_backend_cfg m, m_pp_cfg_cfg m, m_backend_active m, m_pp_cfg_active m)"

lemma mgr_config_simps [simp]:
  "mgr_config (m\<lparr>m_can_channel := a\<rparr>) = mgr_config m" "mgr_config (m\<lparr>m_tx_queue := b\<rparr>) = mgr_config m"
  "mgr_config (m\<lparr>m_pp_ctx := c\<rparr>) = mgr_config m" "mgr_config (m\<lparr>m_info_names := d\<rparr>) = mgr_config m"
  "mgr_config (m\<lparr>m_receive_subs := e\<rparr>) = mgr_config m"
  by (simp_all add: mgr_config_def)

lemma transmit_frames_sent:
  "mgr_transmit_frames ops_of fs m = (m', evs) \<Longrightarrow>
    sent evs = fs \<and> mgr_config m' = mgr_config m \<and> m_tx_queue m' = m_tx_queue m"
proof (induction fs arbitrary: m m' evs)
  case (Cons f fs)
  obtain ok ch where ch: "uni_can_channel_transmit ops_of (m_can_channel m) (Some f) = (ok, ch)"
    by (metis surj_pair)
  obtain m1 evs1 where rest: "mgr_transmit_frames ops_of fs (m\<lparr>m_can_channel := ch\<rparr>) = (m1, evs1)"
    by (metis surj_pair)
  then show ?case
    using Cons.IH [OF rest] Cons.prems ch by auto
qed auto

definition chunk_ok :: "('ch, 'h) CanManager \<Rightarrow> bool" where
  "chunk_ok m \<longleftrightarrow> (m_backend_active m = ProtoPlexer \<longrightarrow> unat (pc_max_chunk_length (m_pp_cfg_active m)) \<le> 8)"

lemma mgr_config_cong:
  assumes "mgr_config m = mgr_config m'"
  shows "chunk_ok m = chunk_ok m'" "window_ok w m = window_ok w m'"
  using assms by (simp_all add: mgr_config_def chunk_ok_def window_ok_def)

lemma mgr_ok_split: "mgr_ok m \<longleftrightarrow> list_all packet_ok (m_tx_queue m) \<and> chunk_ok m"
  by (simp add: mgr_ok_def chunk_ok_def)

lemma transmit_sent:
  "mgr_transmit ops_of mem items again m = (again', m', evs) \<Longrightarrow> list_all packet_ok items \<Longrightarrow> chunk_ok m \<Longrightarrow>
    list_all classic (sent evs) \<and> list_all packet_ok (m_tx_queue m') \<and> mgr_config m' = mgr_config m"
proof (induction items arbitrary: again m m' evs)
  case (Cons p ps)
  show ?case
  proof (cases "m_can_channel m = None")
    case True
    then show ?thesis
      using Cons.prems by auto
  next
    case connected: False
    show ?thesis
    proof (cases "packet_frames mem (m_backend_active m) (pc_max_chunk_length (m_pp_cfg_active m)) p")
      case None
      then show ?thesis
        using Cons.IH [of again m m' evs] Cons.prems connected by simp
    next
      case frames: (Some fs)
      obtain m1 evs1 where m1: "mgr_transmit_frames ops_of fs m = (m1, evs1)"
        by (metis surj_pair)
      obtain evs2 where rest: "mgr_transmit ops_of mem ps True m1 = (again', m', evs2)" "evs = evs1 @ evs2"
        using Cons.prems(1) connected frames m1 by (auto split: prod.splits)
      note m1 = transmit_frames_sent [OF m1]
      then show ?thesis
        using Cons.IH [OF rest(1)] Cons.prems(2,3) rest(2) mgr_config_cong(1) [of m1 m]
          packet_frames_classic [OF frames] by (simp add: chunk_ok_def)
    qed
  qed
qed auto

lemma receive_sent:
  "mgr_receive ops_of mem m = (r, m', evs) \<Longrightarrow>
    sent evs = [] \<and> mgr_config m' = mgr_config m \<and> m_tx_queue m' = m_tx_queue m"
  by (auto simp: mgr_receive_def Let_def split: if_splits prod.splits option.splits)

lemma round_sent:
  assumes "mgr_round ops_of mem m = (again, m', evs)" "mgr_ok m"
  shows "list_all classic (sent evs) \<and> mgr_ok m' \<and> mgr_config m' = mgr_config m"
proof -
  obtain r m1 evs1 where m1: "mgr_receive ops_of mem m = (r, m1, evs1)"
    by (metis prod_cases3)
  obtain evs2 where "mgr_transmit ops_of mem (m_tx_queue m1) r m1 = (again, m', evs2)" "evs = evs1 @ evs2"
    using assms(1) m1 by (auto simp: mgr_round_def Let_def split: prod.splits)
  then show ?thesis
    using transmit_sent [of ops_of mem "m_tx_queue m1" r m1 again m' evs2] receive_sent [OF m1] assms(2)
      mgr_config_cong(1) [of m1 m] mgr_config_cong(1) [of m' m]
    by (simp add: mgr_ok_split)
qed

text \<open>Looking for devices leaves the configuration and the queue; so do the boxes.\<close>

definition same_work :: "('ch, 'h) CanManager \<Rightarrow> ('ch, 'h) CanManager \<Rightarrow> bool" where
  "same_work m m' \<longleftrightarrow> mgr_config m = mgr_config m' \<and> m_tx_queue m = m_tx_queue m'"

lemma same_work_ok: "same_work m' m \<Longrightarrow> mgr_ok m' = mgr_ok m \<and> window_ok w m' = window_ok w m"
  using mgr_config_cong(1) [of m' m] mgr_config_cong(2) [of m' m w] by (simp add: same_work_def mgr_ok_split)

lemma refresh_same: "InfoRefresh built_in g m = (m', g') \<Longrightarrow> same_work m' m"
  by (auto simp: InfoRefresh_def Let_def same_work_def split: prod.splits)

lemma count_same: "InfoGetCount built_in g m = (n, m', g') \<Longrightarrow> same_work m' m"
  by (cases "m_info_names m = []"; cases "InfoRefresh built_in g m")
    (auto simp: InfoGetCount_def same_work_def dest: refresh_same)

lemma label_same: "deviceGetLabel built_in g m idx = (s, m', g') \<Longrightarrow> same_work m' m"
  by (cases "InfoGetCount built_in g m") (auto simp: deviceGetLabel_def InfoGetName_def split: if_splits dest: count_same)

lemma window_ok_device [simp]: "window_ok (w\<lparr>cw_device_idx := i\<rparr>) m = window_ok w m"
  by (simp add: window_ok_def connect_params_def)

lemma combo_can_same:
  assumes "uiUpdateComboCan built_in opened clicked g m w = (w', m', g')"
  shows "same_work m' m \<and> (\<forall>x. window_ok w' x = window_ok w x)"
proof -
  obtain s m1 g1 where m1: "deviceGetLabel built_in g m (cw_device_idx w) = (s, m1, g1)"
    by (metis prod_cases3)
  obtain n m2 g2 where m2: "InfoGetCount built_in g1 m1 = (n, m2, g2)"
    by (metis prod_cases3)
  have "same_work m1 m" "same_work m2 m"
    using label_same [OF m1] count_same [OF m2] by (simp_all add: same_work_def)
  then show ?thesis
    using assms m1 m2 by (auto simp: uiUpdateComboCan_def split: if_splits option.splits)
qed

lemma combo_baudrate_ok: "window_ok w m \<Longrightarrow> window_ok (uiUpdateComboBaudrate clicked w) m"
  by (auto simp: uiUpdateComboBaudrate_def window_ok_def connect_params_def split: option.splits)

lemma connect_ok:
  assumes "Connect handler this nc mem built_in (connect_params w) g m = (ok, m', gone, g')" "window_ok w m"
  shows "window_ok w m' \<and> mgr_ok m'"
  using connect_outcome [OF assms(1)] assms(2)
  by (auto simp: window_ok_def mgr_ok_def mgr_connected_def mgr_standby_def)

lemma disconnect_ok: "window_ok w m \<Longrightarrow> window_ok w (fst (Disconnect ops_of m)) \<and> mgr_ok (fst (Disconnect ops_of m))"
  using disconnect_standby [of ops_of m] by (simp add: window_ok_def mgr_ok_def mgr_standby_def)

lemma connect_pass_ok:
  assumes "connect_UiUpdate handler this nc mem built_in inp w m g = (w', m', g')" "window_ok w m" "mgr_ok m"
  shows "window_ok w' m' \<and> mgr_ok m'"
proof -
  obtain w1 m1 g1 where combo: "uiUpdateComboCan built_in (ci_opened inp) (ci_device inp) g m w = (w1, m1, g1)"
    by (metis prod_cases3)
  obtain m2 g2 where refresh: "(if ci_refresh inp then InfoRefresh built_in g1 m1 else (m1, g1)) = (m2, g2)"
    by (metis surj_pair)
  define w2 where "w2 = uiUpdateComboBaudrate (ci_baudrate inp) w1"
  obtain ok m3 gone g3 where con: "Connect handler this nc mem built_in (connect_params w2) g2 m2 = (ok, m3, gone, g3)"
    by (metis prod_cases4)
  have "window_ok w1 m1 \<and> mgr_ok m1"
    using combo_can_same [OF combo] same_work_ok [of m1 m w] assms(2,3) by blast
  then have "window_ok w1 m2 \<and> mgr_ok m2"
    using refresh same_work_ok [OF refresh_same, of built_in g1 m1 m2 g2 w1] by (cases "ci_refresh inp") auto
  then have 2: "window_ok w2 m2 \<and> mgr_ok m2"
    by (simp add: w2_def combo_baudrate_ok)
  then have 3: "window_ok w2 m3 \<and> mgr_ok m3"
    using connect_ok [OF con] by simp
  have "w' = w2" "m' \<in> {m2, m3, fst (Disconnect adapter_ops_of m2), fst (Disconnect adapter_ops_of m3)}"
    using assms(1) con unfolding connect_UiUpdate_def combo refresh prod.case Let_def w2_def [symmetric]
    by (auto split: if_splits)
  then show ?thesis
    using 2 3 disconnect_ok by auto
qed

lemma window_ok_mode: "window_ok w m \<Longrightarrow> window_ok (w\<lparr>cw_backend := b\<rparr>) (m\<lparr>m_backend_cfg := b\<rparr>)"
  by (simp add: window_ok_def connect_params_def)

lemma window_ok_address:
  "window_ok w m \<Longrightarrow> window_ok (w\<lparr>cw_pp_own_address := addr AND 0x0FFF\<rparr>)
    (m\<lparr>m_pp_cfg_cfg := (m_pp_cfg_cfg m)\<lparr>pc_own_address := ucast (addr AND 0x0FFF)\<rparr>\<rparr>)"
  by (simp add: window_ok_def connect_params_def word_and_le1)

lemma window_ok_monitoring:
  "window_ok w m \<Longrightarrow> window_ok (w\<lparr>cw_pp_monitoring := b\<rparr>)
    (m\<lparr>m_pp_cfg_cfg := (m_pp_cfg_cfg m)\<lparr>pc_monitoring := b\<rparr>\<rparr>)"
  by (simp add: window_ok_def connect_params_def)

lemma low_bits_small: "a \<le> 0x0FFF \<Longrightarrow> a AND 0x0FFF = a" for a :: u32
  using less_mask_eq [of a 12] by (simp add: word_le_nat_alt word_less_nat_alt mask_eq_exp_minus_1)

lemma window_ok_same_address: "window_ok w m \<Longrightarrow> w\<lparr>cw_pp_own_address := cw_pp_own_address w AND 0x0FFF\<rparr> = w"
  by (simp add: window_ok_def low_bits_small)

lemma mgr_ok_config [simp]:
  "mgr_ok (m\<lparr>m_backend_cfg := b\<rparr>) = mgr_ok m" "mgr_ok (m\<lparr>m_pp_cfg_cfg := c\<rparr>) = mgr_ok m"
  by (simp_all add: mgr_ok_def)

lemma topbar_pass_ok:
  assumes "connect_UiUpdateTopBar inp w m = (w', m')" "window_ok w m" "mgr_ok m"
  shows "window_ok w' m' \<and> mgr_ok m'"
proof -
  define mode where "mode = (case ti_mode inp of None \<Rightarrow> (w, m)
    | Some mode \<Rightarrow> if IsConnected m then (w, m) else (w\<lparr>cw_backend := mode\<rparr>, m\<lparr>m_backend_cfg := mode\<rparr>))"
  obtain w1 m1 where 1: "mode = (w1, m1)"
    by (metis surj_pair)
  have ok1: "window_ok w1 m1 \<and> mgr_ok m1"
    using 1 assms(2,3) by (auto simp: mode_def window_ok_mode split: option.splits if_splits)
  define addr where "addr = (case ti_address inp of None \<Rightarrow> (w1, m1)
    | Some a \<Rightarrow> if IsConnected m then (w1, m1)
        else (w1\<lparr>cw_pp_own_address := a\<rparr>, m1\<lparr>m_pp_cfg_cfg := (m_pp_cfg_cfg m1)\<lparr>pc_own_address := ucast (a AND 0x0FFF)\<rparr>\<rparr>))"
  obtain w2 m2 where 2: "addr = (w2, m2)"
    by (metis surj_pair)
  let ?w = "w2\<lparr>cw_pp_own_address := cw_pp_own_address w2 AND 0x0FFF\<rparr>"
  have ok2: "window_ok ?w m2 \<and> mgr_ok m2"
    using 2 ok1 window_ok_address [of w1 m1] window_ok_same_address [of w1 m1]
    by (auto simp: addr_def split: option.splits if_splits)
  have "(w', m') = (w1, m1) \<or> (w', m') = (?w, m2) \<or>
      (w', m') = (?w\<lparr>cw_pp_monitoring := \<not> cw_pp_monitoring ?w\<rparr>,
        m2\<lparr>m_pp_cfg_cfg := (m_pp_cfg_cfg m2)\<lparr>pc_monitoring := \<not> cw_pp_monitoring ?w\<rparr>\<rparr>)"
    using assms(1) unfolding connect_UiUpdateTopBar_def Let_def mode_def [symmetric] 1 prod.case addr_def [symmetric] 2
    by (auto split: if_splits)
  then show ?thesis
    using ok1 ok2 window_ok_monitoring [of ?w m2] by auto
qed

lemma raw_pass_ok:
  assumes "ui_raw_can mem inp t m = (t', m')" "raw_ok t" "window_ok w m" "mgr_ok m"
  shows "raw_ok t' \<and> window_ok w m' \<and> mgr_ok m'"
proof -
  define msg where "msg = (rt_msg t)\<lparr>cm_id := ri_id inp, cm_len := (if ri_len inp > 8 then 8 else ri_len inp)\<rparr>"
  define bs where "bs = raw_bytes (ri_byte inp) (unat (cm_len msg)) (data_u8 (cm_data msg))"
  define flags where "flags = (if ri_ext_id inp then UNI_CAN_MSG_FLAG_EXT_ID else UNI_CAN_MSG_FLAG_STD_ID)"
  define out where "out = msg\<lparr>cm_data := Inline bs, cm_flags := flags\<rparr>"
  have len: "length bs = 8"
    using assms(2) by (cases "cm_data (rt_msg t)") (simp_all add: bs_def msg_def raw_ok_def raw_bytes_def)
  have "unat (cm_len msg) \<le> 8"
    by (simp add: msg_def word_less_nat_alt)
  then have classic: "classic out"
    using len by (simp add: out_def classic_def flags_def)
  have noTp: "cm_flags out AND UNI_CAN_MSG_FLAG_TP = 0"
    by (simp add: out_def flags_def can_flag_defs)
  have "m' = m \<or> m' = mgr_SendMessage mem (Some out) m" "rt_msg t' = msg\<lparr>cm_data := Inline bs\<rparr> \<or> rt_msg t' = out"
    using assms(1) by (auto simp: ui_raw_can_def Let_def out_def msg_def bs_def flags_def split: if_splits)
  moreover have "window_ok w (mgr_SendMessage mem (Some out) m) \<and> mgr_ok (mgr_SendMessage mem (Some out) m)"
    using assms(3,4) noTp classic
    by (auto simp: mgr_SendMessage_def uni_can_message_clone_def mgr_ok_def window_ok_def packet_ok_def split: option.splits)
  ultimately show ?thesis
    using assms(3,4) len by (auto simp: raw_ok_def out_def)
qed

lemma pp_pass_ok: "window_ok w m \<Longrightarrow> mgr_ok m \<Longrightarrow> window_ok w (SendProtoPlexer pm m) \<and> mgr_ok (SendProtoPlexer pm m)"
  by (simp add: SendProtoPlexer_def window_ok_def mgr_ok_def packet_ok_def)

lemma subscribe_ok: "window_ok w m \<Longrightarrow> mgr_ok m \<Longrightarrow> window_ok w (ReceiveSubscribe n f m) \<and> mgr_ok (ReceiveSubscribe n f m)"
  by (simp add: ReceiveSubscribe_def window_ok_def mgr_ok_def)

lemma app_step_ok:
  assumes "app_step handler this nc mem built_in e a = (a', evs)" "app_ok a"
  shows "app_ok a' \<and> list_all classic (sent evs)"
proof (cases e)
  case (ConnectPass inp)
  with assms connect_pass_ok show ?thesis
    by (fastforce simp: app_ok_def split: prod.splits)
next
  case (TopBarPass inp)
  with assms topbar_pass_ok show ?thesis
    by (fastforce simp: app_ok_def split: prod.splits)
next
  case (RawPass inp)
  with assms raw_pass_ok show ?thesis
    by (fastforce simp: app_ok_def split: prod.splits)
next
  case (PpPass dict inp)
  with assms show ?thesis
    by (auto simp: app_ok_def split: prod.splits if_splits option.splits dest: pp_pass_ok)
next
  case (Subscribe n f)
  with assms show ?thesis
    by (auto simp: app_ok_def dest: subscribe_ok)
next
  case WorkerRound
  obtain again m' evs' where "mgr_round adapter_ops_of mem (ap_mgr a) = (again, m', evs')"
    by (metis prod_cases3)
  then show ?thesis
    using assms WorkerRound round_sent [of adapter_ops_of mem "ap_mgr a" again m' evs']
      mgr_config_cong(2) [of m' "ap_mgr a" "ap_connect a"]
    by (auto simp: app_ok_def split: if_splits)
qed

lemma app_run_ok:
  "app_ok a \<Longrightarrow> app_run handler this nc built_in es a = (a', evs) \<Longrightarrow> app_ok a' \<and> list_all classic (sent evs)"
proof (induction es arbitrary: a a' evs)
  case (Cons me es)
  obtain mem e where me: "me = (mem, e)"
    by (metis surj_pair)
  obtain a1 evs1 where 1: "app_step handler this nc mem built_in e a = (a1, evs1)"
    by (metis surj_pair)
  obtain a2 evs2 where 2: "app_run handler this nc built_in es a1 = (a2, evs2)"
    by (metis surj_pair)
  show ?case
    using app_step_ok [OF 1 Cons.prems(1)] Cons.IH [OF _ 2] Cons.prems(2) 1 2 me by auto
qed auto

lemma app_new_ok: "app_ok (app_new tx g)"
  by (simp add: app_ok_def app_new_def window_ok_def connect_window_new_def cw_baudrates_def connect_params_def can_manager_new_def
      protoplexer_config_default_def mgr_ok_def raw_ok_def raw_tab_new_def)

section \<open>A concrete session\<close>

text \<open>A session that connects, enters a frame with a length of 12, and sends it with eight bytes.\<close>

definition example_connect_pass :: "nat app_event" where
  "example_connect_pass = ConnectPass \<lparr>ci_opened = False, ci_device = None, ci_refresh = False, ci_baudrate = Some 3,
     ci_connect = True, ci_disconnect = False\<rparr>"

definition example_raw_pass :: "nat app_event" where
  "example_raw_pass = RawPass \<lparr>ri_ext_id = True, ri_id = 0x123, ri_len = 12, ri_byte = (\<lambda>_. Some 7), ri_send = True\<rparr>"

definition example_sent :: uni_can_message where
  "example_sent = can_message_zero\<lparr>cm_flags := UNI_CAN_MSG_FLAG_EXT_ID, cm_id := 0x123, cm_len := 8,
     cm_data := Inline (replicate 8 7)\<rparr>"

abbreviation example_step ::
  "nat app_event \<Rightarrow> (bool, unit, nat, nat, nat) app \<Rightarrow> (bool, unit, nat, nat, nat) app \<times> nat mgr_event list" where
  "example_step \<equiv> app_step 1 0 0 example_memory [(example_provider, False)]"

lemma example_connects:
  assumes "example_step example_connect_pass (app_new tx_window_new factory_start) = (a, evs)"
  shows "evs = []" "ap_raw a = raw_tab_new" "m_thread (ap_mgr a)" "m_tx_queue (ap_mgr a) = []"
    "m_backend_active (ap_mgr a) = RawCan" "\<exists>ch. m_can_channel (ap_mgr a) = Some ch \<and> ad_vtable ch = example_vtable \<and> \<not> ad_deleted ch"
  using assms
  by (auto simp: example_connect_pass_def app_new_def connect_UiUpdate_def uiUpdateComboCan_def deviceGetLabel_def
      InfoGetName_def InfoGetCount_def uiUpdateComboBaudrate_def cw_baudrates_def connect_window_new_def connect_params_def
      example_connect info_name_def Let_def upt_rec)

lemma example_raw_bytes: "raw_bytes (\<lambda>_. Some 7) 8 (replicate 8 0) = replicate 8 7"
  by code_simp

lemma example_queues:
  assumes "example_step example_raw_pass a = (a', evs)" "ap_raw a = raw_tab_new" "m_tx_queue (ap_mgr a) = []"
  shows "evs = []" "ap_mgr a' = (ap_mgr a)\<lparr>m_tx_queue := [CanPacket (Some example_sent)]\<rparr>"
  using assms
  by (auto simp: example_raw_pass_def ui_raw_can_def raw_tab_new_def can_message_zero_def example_raw_bytes example_sent_def
      mgr_SendMessage_def uni_can_message_clone_def uni_can_message_create_def can_flag_defs UNI_CAN_MESSAGE_MAXLEN_def Let_def)

lemma example_transmits:
  assumes "m_can_channel m = Some ch" "ad_vtable ch = example_vtable" "\<not> ad_deleted ch" "m_backend_active m = RawCan"
    and "m_tx_queue m = [CanPacket (Some example_sent)]"
  shows "sent (snd (snd (mgr_round adapter_ops_of example_memory m))) = [example_sent]"
proof -
  have "uni_can_channel_receive adapter_ops_of True (Some ch) = (None, Some ch)"
    using assms(2,3)
    by (cases ch) (auto simp: channel_defs adapter_ops_of_def adapter_ops_def adapter_receive_def example_vtable_def)
  with assms(1,4,5) show ?thesis
    by (simp add: mgr_round_def mgr_receive_def packet_frames_def split_beta Let_def)
qed

lemma example_session_sends:
  assumes "app_run 1 0 0 [(example_provider, False)]
        [(example_memory, example_connect_pass), (example_memory, example_raw_pass), (example_memory, WorkerRound)]
      (app_new tx_window_new factory_start :: (bool, unit, nat, nat, nat) app) = (a, evs)"
  shows "sent evs = [example_sent]"
proof -
  obtain a1 e1 where 1: "example_step example_connect_pass (app_new tx_window_new factory_start) = (a1, e1)"
    by (metis surj_pair)
  obtain a2 e2 where 2: "example_step example_raw_pass a1 = (a2, e2)"
    by (metis surj_pair)
  note c = example_connects [OF 1]
  note q = example_queues [OF 2 c(2,4)]
  obtain ch where ch: "m_can_channel (ap_mgr a1) = Some ch" "ad_vtable ch = example_vtable" "\<not> ad_deleted ch"
    using c(6) by blast
  have m2: "m_can_channel (ap_mgr a2) = Some ch" "m_backend_active (ap_mgr a2) = RawCan" "m_thread (ap_mgr a2)"
      "m_tx_queue (ap_mgr a2) = [CanPacket (Some example_sent)]"
    using ch(1) c(3,5) by (simp_all add: q(2))
  show ?thesis
    using assms 1 2 c(1) q(1) m2(3) example_transmits [OF m2(1) ch(2,3) m2(2,4)]
    by (auto simp: split_beta)
qed

end
