(* ===== verification/AppEndToEnd.thy ===== *)
theory AppEndToEnd
  imports AppSession RxWindow
begin

text \<open>
  From the window of one application to the window of another: the transmit window puts a message
  into the queue of its manager, the worker of that manager gives its frames to the channel, the
  worker of a second manager reads them, and the receive window that subscribed there records the
  message and draws it (\<open>src_app/window_can_tx.cpp\<close>, \<open>src_app/can_mgr.cpp\<close>, \<open>src_app/window_can_rx.cpp\<close>).
\<close>

section \<open>The receive window as a subscriber\<close>

text \<open>The packets a handler was called with, and a window that is called with packets one by one.\<close>

definition heard_by :: "'h \<Rightarrow> 'h mgr_event list \<Rightarrow> packet list" where
  "heard_by h evs = map snd (filter (\<lambda>c. fst c = h) (calls evs))"

fun receive_all :: "(nat \<Rightarrow> string) \<Rightarrow> packet list \<Rightarrow> rx_window \<Rightarrow> rx_window option" where
  "receive_all clock [] w = Some w"
| "receive_all clock (p # ps) w = Option.bind (receiveMsg (clock 0) p w) (receive_all (\<lambda>k. clock (Suc k)) ps)"

fun pp_of :: "packet list \<Rightarrow> ProtoPlexerMessage list" where
  "pp_of [] = []"
| "pp_of (PpPacket m # ps) = m # pp_of ps"
| "pp_of (CanPacket x # ps) = pp_of ps"

fun raw_of :: "packet list \<Rightarrow> uni_can_message list" where
  "raw_of [] = []"
| "raw_of (CanPacket (Some x) # ps) = x # raw_of ps"
| "raw_of (CanPacket None # ps) = raw_of ps"
| "raw_of (PpPacket m # ps) = raw_of ps"

lemma pp_of_filter: "map PpPacket (pp_of ps) = filter is_pp ps"
  by (induction ps rule: pp_of.induct) auto

lemma raw_of_append [simp]: "raw_of (ps @ qs) = raw_of ps @ raw_of qs"
  by (induction ps rule: raw_of.induct) auto

definition rx_settings :: "rx_window \<Rightarrow> bool \<times> u32 list" where
  "rx_settings w = (rw_filter w, rw_filter_list w)"

lemma filterMatch_settings: "rx_settings w = rx_settings w' \<Longrightarrow> filterMatch w = filterMatch w'"
  by (simp add: rx_settings_def filterMatch_def fun_eq_iff)

text \<open>The window records what it is called with, in order, and its tables keep showing what passes.\<close>

lemma receive_all_records:
  assumes "\<forall>p\<in>set ps. p \<noteq> CanPacket None" "rx_shows_filtered w"
  shows "\<exists>w' raw pp. receive_all clock ps w = Some w' \<and> rx_settings w' = rx_settings w \<and> rx_shows_filtered w' \<and>
    rw_msgs_raw w' = rw_msgs_raw w @ raw \<and> map snd raw = raw_of ps \<and>
    rw_msgs_pp w' = rw_msgs_pp w @ pp \<and> map snd pp = pp_of ps"
  using assms
proof (induction ps arbitrary: clock w)
  case (Cons p ps)
  have "p \<noteq> CanPacket None"
    using Cons.prems(1) by simp
  then obtain w1 raw1 pp1 where w1: "receiveMsg (clock 0) p w = Some w1" "rx_settings w1 = rx_settings w"
    "rw_msgs_raw w1 = rw_msgs_raw w @ raw1" "map snd raw1 = raw_of [p]" "rw_msgs_pp w1 = rw_msgs_pp w @ pp1" "map snd pp1 = pp_of [p]"
    by (cases p rule: packet.exhaust; cases "case p of CanPacket x \<Rightarrow> x | _ \<Rightarrow> None")
      (auto simp: receiveMsg_def rx_settings_def Let_def)
  obtain w' raw pp where "receive_all (\<lambda>k. clock (Suc k)) ps w1 = Some w'" "rx_settings w' = rx_settings w1" "rx_shows_filtered w'"
    "rw_msgs_raw w' = rw_msgs_raw w1 @ raw" "map snd raw = raw_of ps" "rw_msgs_pp w' = rw_msgs_pp w1 @ pp" "map snd pp = pp_of ps"
    using Cons.IH [of w1 "\<lambda>k. clock (Suc k)"] Cons.prems(1) receive_shows [OF Cons.prems(2) w1(1)] by auto
  with w1 show ?case
    by (intro exI [of _ w'] exI [of _ "raw1 @ raw"] exI [of _ "pp1 @ pp"])
      (cases p rule: packet.exhaust; cases "case p of CanPacket x \<Rightarrow> x | _ \<Rightarrow> None"; auto)
qed simp

text \<open>A handler that subscribed once is called with every packet once.\<close>

lemma heard_published:
  assumes "calls evs = published m ps" "filter (\<lambda>s. snd s = h) (m_receive_subs m) = [(name, h)]"
  shows "heard_by h evs = ps"
proof -
  have one: "filter (\<lambda>c. fst c = h) (map (\<lambda>s. (snd s, p)) (m_receive_subs m)) = [(h, p)]" for p :: packet
    using assms(2) by (simp add: filter_map o_def)
  have "filter (\<lambda>c. fst c = h) (published m ps) = map (Pair h) ps"
    by (induction ps) (simp_all add: published_def one)
  then show ?thesis
    by (simp add: heard_by_def assms(1) o_def)
qed

text \<open>What the worker publishes of frames: each frame, and the messages they complete.\<close>

lemma rx_packets_raw: "raw_of (rx_packets mem active ctx fs) = fs"
  by (induction fs arbitrary: ctx) (auto simp: rx_step_def pp_packet_def split: prod.splits option.splits)

lemma rx_packets_defined: "\<forall>p\<in>set (rx_packets mem active ctx fs). p \<noteq> CanPacket None"
  by (induction fs arbitrary: ctx) (auto simp: rx_step_def pp_packet_def split: prod.splits option.splits if_splits)

section \<open>From window to window\<close>

lemma pp_table_all:
  assumes "rx_shows_filtered w"
  shows "uiTableProtoPlexer dict [(0, length (rw_msgs_pp_filtered w))] w =
    Some (map (pp_line dict) (filter (\<lambda>e. filterMatch w (ucast (pm_message_id (snd e)))) (rw_msgs_pp w)))"
  unfolding uiTableProtoPlexer_def
  by (rule rx_rows_filtered [where P = "\<lambda>e. filterMatch w (ucast (pm_message_id (snd e)))",
        OF assms [unfolded shows_iff, THEN conjunct2]]) (simp_all add: clipped_def)

lemma message_reaches_window:
  assumes "packet_frames mem0 ProtoPlexer chunk (PpPacket pm) = Some frames" "mgr_memory_ok mem0" "pm_sendable pm"
    and "ready_to_receive mem pm frames m"
    and "filter (\<lambda>s. snd s = h) (m_receive_subs m) = [(name, h)]" "rx_shows_filtered w"
  shows "\<exists>m' evs w' raw time. threadFunctionOperating adapter_ops_of mem m = Some (m', evs) \<and>
    receive_all clock (heard_by h evs) w = Some w' \<and> rx_settings w' = rx_settings w \<and> rx_shows_filtered w' \<and>
    rw_msgs_raw w' = rw_msgs_raw w @ raw \<and> map snd raw = frames \<and> rw_msgs_pp w' = rw_msgs_pp w @ [(time, pm)]"
proof -
  obtain ch where ch: "m_can_channel m = Some ch" "plain_live ch" "backend_pending ch = frames"
    using assms(4) by (auto simp: ready_to_receive_def Let_def)
  note r = assms(4) [unfolded ready_to_receive_def Let_def]
  have fed: "filter is_pp (rx_packets mem ProtoPlexer (m_pp_ctx m) frames) = [PpPacket pm]" "\<forall>f\<in>set frames. can_message_wf f"
    using feed_packet [OF assms(1-3), of mem "m_pp_ctx m"] r by blast+
  have wf: "\<forall>x\<in>set (backend_pending ch). can_message_wf x"
    using fed(2) ch(3) by simp
  obtain m' evs where run: "threadFunctionOperating adapter_ops_of mem m = Some (m', evs)"
    "calls evs = published m (rx_packets mem ProtoPlexer (m_pp_ctx m) frames)"
    using mgr_adapted.worker_run [OF ch(1,2) _ _ wf] r ch(3) unfolding mgr_adapted.run_ok_def by fastforce
  let ?ps = "rx_packets mem ProtoPlexer (m_pp_ctx m) frames"
  have heard: "heard_by h evs = ?ps"
    by (rule heard_published [OF run(2) assms(5)])
  have "map PpPacket (pp_of ?ps) = map PpPacket [pm]"
    by (simp add: pp_of_filter fed(1))
  then have pp: "pp_of ?ps = [pm]"
    by (rule map_injective) (simp add: inj_def)
  obtain w' raw pp where "receive_all clock ?ps w = Some w'" "rx_settings w' = rx_settings w" "rx_shows_filtered w'"
    "rw_msgs_raw w' = rw_msgs_raw w @ raw" "map snd raw = frames" "rw_msgs_pp w' = rw_msgs_pp w @ pp" "map snd pp = [pm]"
    using receive_all_records [OF rx_packets_defined assms(6), of clock mem ProtoPlexer "m_pp_ctx m" frames]
    unfolding pp rx_packets_raw by (elim exE conjE) (rule that)
  moreover then obtain time where "pp = [(time, pm)]"
    by (cases pp) auto
  ultimately show ?thesis
    using run(1) heard by auto
qed

text \<open>
  C11. What is typed in the transmit window of one application is shown in the receive window of
  another. The user selects a message that the dictionary describes with fields of distinct names that
  share no bits of the payload, selects addresses and a priority, types values and presses the button:
  when the protocol can carry the message and the first manager can send (ProtoPlexer mode, chunks of 6
  to 8 bytes, nothing else queued, memory, not told to stop), its worker's pass ends. When the frames
  it gave to its channel wait in the channel of a second manager that can receive them (ProtoPlexer mode,
  data on the heap with no limit, the address of the message or monitoring, a buffer for the sender,
  memory, not told to stop) and whose receive window subscribed once, the second worker's pass ends too,
  and that window has recorded those frames and, at its end, exactly that message. The table it draws
  with the same dictionary is the one it drew before with one more row, whose data column ends with the
  names and the values that stand in the widgets of the transmit window; fields of the types \<open>u16le\<close>
  and \<open>bytes\<close> are sent but not shown. The second window may have recorded anything before and its
  filter may have been changed in any way but by the button that closes its window; it must pass the
  identifier.
\<close>

theorem typed_here_shown_there:
  assumes "ui_pp dict inp tx = (tx', Some pm)"
    and "MessageDef dict (ucast (m_pp_msg_id tx')) = Some d" "mdef_fields d \<noteq> []"
    and "distinct (map fld_name (mdef_fields d))"
    and "fields_disjoint (s_pp_field_state tx' (ucast (m_pp_msg_id tx'))) (mdef_fields d)"
    and "pm_sendable pm" "ready_to_send mem0 m0"
    and "rx_reachable False w" "filterMatch w (ucast (pm_message_id pm))"
  shows "\<exists>m0' evs0. threadFunctionOperating adapter_ops_of mem0 (SendProtoPlexer pm m0) = Some (m0', evs0) \<and>
    (\<forall>mem m name. ready_to_receive mem pm (sent evs0) m \<and> filter (\<lambda>s. snd s = h) (m_receive_subs m) = [(name, h)] \<longrightarrow>
      (\<exists>m' evs w' raw time rows. threadFunctionOperating adapter_ops_of mem m = Some (m', evs) \<and>
        receive_all clock (heard_by h evs) w = Some w' \<and>
        rw_msgs_raw w' = rw_msgs_raw w @ raw \<and> map snd raw = sent evs0 \<and> rw_msgs_pp w' = rw_msgs_pp w @ [(time, pm)] \<and>
        uiTableProtoPlexer (Some dict) [(0, length (rw_msgs_pp_filtered w))] w = Some rows \<and>
        uiTableProtoPlexer (Some dict) [(0, length (rw_msgs_pp_filtered w'))] w' = Some (rows @ [pp_line (Some dict) (time, pm)]) \<and>
        (let shown = joined (pairs_of (\<lambda>f. field_display f (fs_at (s_pp_field_state tx' (ucast (m_pp_msg_id tx'))) (fld_name f)))
                       (mdef_fields d))
         in last (pp_line (Some dict) (time, pm)) = pp_row_data None pm @ (if shown = [] then [] else '' | '' @ shown))))"
proof -
  have filtered: "rx_shows_filtered w"
    unfolding shows_iff by (rule rx_tables_show_filtered [OF assms(8)])
  have mem0: "mgr_memory_ok mem0"
    using assms(7) by (simp add: ready_to_send_def)
  have line: "last (pp_line (Some dict) (time, pm)) = pp_row_data None pm @
      (let shown = FormatPayloadSummary dict (pm_message_id pm) (pm_data pm) in if shown = [] then [] else '' | '' @ shown)" for time
    by (simp add: pp_line_def pp_row_data_def Let_def)
  obtain m0' evs0 where first: "threadFunctionOperating adapter_ops_of mem0 (SendProtoPlexer pm m0) = Some (m0', evs0)"
    "packet_frames mem0 ProtoPlexer (pc_max_chunk_length (m_pp_cfg_active m0)) (PpPacket pm) = Some (sent evs0)"
    using worker_sends_message [OF assms(7,6)] by blast
  note window = pp_table_all [of _ "Some dict"] tx_window_shown [OF assms(1-5)]
  have second: "\<exists>m' evs w' raw time rows. threadFunctionOperating adapter_ops_of mem m = Some (m', evs) \<and>
      receive_all clock (heard_by h evs) w = Some w' \<and>
      rw_msgs_raw w' = rw_msgs_raw w @ raw \<and> map snd raw = sent evs0 \<and> rw_msgs_pp w' = rw_msgs_pp w @ [(time, pm)] \<and>
      uiTableProtoPlexer (Some dict) [(0, length (rw_msgs_pp_filtered w))] w = Some rows \<and>
      uiTableProtoPlexer (Some dict) [(0, length (rw_msgs_pp_filtered w'))] w' = Some (rows @ [pp_line (Some dict) (time, pm)])"
    if receiver: "ready_to_receive mem pm (sent evs0) m" "filter (\<lambda>s. snd s = h) (m_receive_subs m) = [(name, h)]" for mem m name
  proof -
    obtain m' evs w' raw time where "threadFunctionOperating adapter_ops_of mem m = Some (m', evs)"
      "receive_all clock (heard_by h evs) w = Some w'" "rx_settings w' = rx_settings w" "rx_shows_filtered w'"
      "rw_msgs_raw w' = rw_msgs_raw w @ raw" "map snd raw = sent evs0" "rw_msgs_pp w' = rw_msgs_pp w @ [(time, pm)]"
      using message_reaches_window [OF first(2) mem0 assms(6) receiver filtered, of clock] by blast
    then show ?thesis
      using window(1) filtered filterMatch_settings [of w' w] assms(9) by simp
  qed
  show ?thesis
    unfolding line window(2) [symmetric] using first(1) second by (auto simp: Let_def)
qed

section \<open>A concrete run\<close>

definition typed_pm :: ProtoPlexerMessage where
  "typed_pm = \<lparr>pm_message_id = 7, pm_address_from = 1, pm_address_to = 0x20, pm_priority_inverted = 7,
     pm_data = [255, 8, 0, 0, 1, 44]\<rparr>"

lemma typed_window_run:
  "ui_pp example_dict example_pp_input tx_window_new = (fst (ui_pp example_dict example_pp_input tx_window_new), Some typed_pm)"
proof -
  have two: "replicate 2 0 = [0, 0 :: u8]"
    by (simp add: numeral_2_eq_2)
  show ?thesis
    by (simp add: example_run two typed_pm_def)
qed

theorem typed_here_shown_there_witness:
  "\<exists>m0' evs0 m' evs w' rows time.
    threadFunctionOperating adapter_ops_of example_memory (SendProtoPlexer typed_pm (example_manager [] [])) = Some (m0', evs0) \<and>
    threadFunctionOperating adapter_ops_of example_memory (example_manager (sent evs0) []) = Some (m', evs) \<and>
    receive_all (\<lambda>_. ''t'') (heard_by 5 evs) (rx_window_new None) = Some w' \<and> rw_msgs_pp w' = [(time, typed_pm)] \<and>
    uiTableProtoPlexer (Some example_dict) [(0, length (rw_msgs_pp_filtered w'))] w' = Some (rows @ [pp_line (Some example_dict) (time, typed_pm)]) \<and>
    last (pp_line (Some example_dict) (time, typed_pm)) = pp_row_data None typed_pm @ '' | a=255 b=1 c=300''"
proof -
  let ?tx' = "fst (ui_pp example_dict example_pp_input tx_window_new)"
  define fs where "fs = mdef_fields (snd (hd (m_messages example_dict)))"
  have two: "replicate 2 0 = [0, 0 :: u8]"
    by (simp add: numeral_2_eq_2)
  have mid: "(ucast (m_pp_msg_id ?tx') :: u16) = 7"
    by (simp add: example_run two)
  have st: "fs_at (s_pp_field_state ?tx' 7) ''a'' = \<lparr>st_value = 255, st_bool = False, st_bytes_hex = []\<rparr>"
    "fs_at (s_pp_field_state ?tx' 7) ''b'' = \<lparr>st_value = 0, st_bool = True, st_bytes_hex = []\<rparr>"
    "fs_at (s_pp_field_state ?tx' 7) ''c'' = \<lparr>st_value = 300, st_bool = False, st_bytes_hex = []\<rparr>"
    by (simp_all add: example_run two)
  have shown: "show_nat 255 = ''255''" "show_nat 300 = ''300''"
    by (simp_all add: show_nat.simps digit_char_def, code_simp+)
  have def: "MessageDef example_dict 7 = Some (snd (hd (m_messages example_dict)))"
    by (simp add: MessageDef_def example_dict_def)
  have fields: "fs \<noteq> []" "distinct (map fld_name fs)" "fields_disjoint (s_pp_field_state ?tx' 7) fs"
    using st by (auto simp: fs_def example_dict_def fields_disjoint_def footprint_def field_width_def)
  have joined: "joined (pairs_of (\<lambda>f. field_display f (fs_at (s_pp_field_state ?tx' 7) (fld_name f))) fs) = ''a=255 b=1 c=300''"
    using st shown by (simp add: fs_def example_dict_def field_display_def)
  have send: "pm_sendable typed_pm"
    by (simp add: pm_sendable_def typed_pm_def uni_can_protoplexer_address_valid_def pp_const_defs)
  have receive: "ready_to_receive example_memory typed_pm frames (example_manager frames [])" for frames
    using pp_example_ctx_wf by (simp add: ready_to_receive_def Let_def) (simp add: pp_example_ctx_def typed_pm_def)
  have subs: "filter (\<lambda>s. snd s = 5) (m_receive_subs (example_manager frames [])) = [(''a'', 5)]" for frames
    by simp
  have window: "filterMatch (rx_window_new None) (ucast (pm_message_id typed_pm))" "rw_msgs_pp (rx_window_new None) = []"
    by (simp_all add: rx_window_new_def filterLoad_def filterMatch_def)
  note arrival = typed_here_shown_there [where 'a = unit and 'b = nat and 'c = nat and 'd = nat and 'e = unit and 'f = nat and 'g = nat
      and clock = "\<lambda>_. ''t''" and h = "5 :: nat", OF typed_window_run, unfolded mid, OF def fields [unfolded fs_def] send
      example_manager_ready(1) rx_start window(1), unfolded joined [unfolded fs_def]]
  show ?thesis
    using arrival
  proof (elim exE conjE, goal_cases)
    case (1 m0' evs0)
    from 1(2) [rule_format, of example_memory "example_manager (sent evs0) []" "''a''"] receive subs
    show ?case
      using 1(1) window(2) by (simp add: Let_def) blast
  qed
qed

end
