(* ===== verification/AppFrame.thy ===== *)
theory AppFrame
  imports AppEndToEnd "HOL-Library.Monad_Syntax"
begin

text \<open>
  The application as a whole (\<open>src_app/main.cpp\<close>, \<open>src_app/topbar.cpp\<close>, \<open>src_app/app_state.h\<close>,
  \<open>src_app/can_mgr_state.cpp\<close>): four windows over one manager, which the GUI framework draws in turn in
  every frame, and the worker of the manager, which calls the receive window between the frames. That a
  call of the worker can also meet a frame half way is what \<open>RxWindow\<close> models.
\<close>

section \<open>Names\<close>

definition uni_gui_app_name_get :: string where
  "uni_gui_app_name_get = ''Uni.CAN App''"

definition uni_gui_app_version_get :: string where
  "uni_gui_app_version_get = ''1.0.3''"

fun state_to_string :: "CanManagerState \<Rightarrow> string" where
  "state_to_string STANDBY = ''STANDBY''"
| "state_to_string CAN_ERROR = ''CAN_ERROR''"
| "state_to_string CONNECTING = ''CONNECTING''"
| "state_to_string OPERATING = ''OPERATING''"

lemma state_to_string_inject: "state_to_string a = state_to_string b \<longleftrightarrow> a = b"
  by (cases a; cases b) simp_all


section \<open>The windows\<close>

datatype ui_element = TopBarUi | ConnectUi | RxUi | TxUi

definition uni_gui_app_initialize :: "ui_element list" where
  "uni_gui_app_initialize = [TopBarUi, ConnectUi, RxUi, TxUi]"

text \<open>The receive window is the only subscriber of the application.\<close>

datatype subscriber = WindowCanRx

text \<open>What the constructors of the windows and the functions of the manager are given.\<close>

record ('p, 's, 'f, 'c) gui_env =
  ge_handler :: 'f
  ge_this :: 'c
  ge_null_cookie :: 'c
  ge_built_in :: "('p, 's) provider list"
  ge_dict :: ProtoPlexerDictionary

record ('p, 's, 'f, 'c) gui =
  gu_app :: "('p, 's, 'f, 'c, subscriber) app"
  gu_rx :: rx_window
  gu_rows :: "string list list"

definition app_subscribed :: "tx_window \<Rightarrow> ('p, 's) factory \<Rightarrow> ('p, 's, 'f, 'c, subscriber) app" where
  "app_subscribed tx g = (app_new tx g)\<lparr>ap_mgr := ReceiveSubscribe ''window_can_rx'' WindowCanRx can_manager_new\<rparr>"

definition gui_new :: "tx_window \<Rightarrow> u32 list option \<Rightarrow> ('p, 's) factory \<Rightarrow> ('p, 's, 'f, 'c) gui" where
  "gui_new tx stored g = \<lparr>gu_app = app_subscribed tx g, gu_rx = rx_window_new stored, gu_rows = []\<rparr>"


section \<open>A frame\<close>

text \<open>
  A pass of the receive window: what the user did with it, the tab that is open and the rows in sight.
  The buttons above the table act before it is drawn, the window of the filter, when it is shown, after.
\<close>

record rx_pass =
  rp_event :: "rx_event option"
  rp_pp_tab :: bool
  rp_ranges :: "(nat \<times> nat) list"

fun rx_above_table :: "rx_event \<Rightarrow> bool" where
  "rx_above_table Clear = True"
| "rx_above_table (CheckFilter v) = True"
| "rx_above_table e = False"

fun rx_in_filter_window :: "rx_event \<Rightarrow> bool" where
  "rx_in_filter_window CloseFilterWindow = True"
| "rx_in_filter_window (Select n) = True"
| "rx_in_filter_window RemoveFilter = True"
| "rx_in_filter_window (AddFilter v) = True"
| "rx_in_filter_window e = False"

definition rx_act :: "rx_event option \<Rightarrow> (rx_event \<Rightarrow> bool) \<Rightarrow> rx_window \<Rightarrow> rx_window option" where
  "rx_act done_by_user P w = (case done_by_user of None \<Rightarrow> Some w | Some e \<Rightarrow> if P e then rx_event_step e w else Some w)"

definition rx_UiUpdate ::
  "ParseBackend \<Rightarrow> ProtoPlexerDictionary \<Rightarrow> rx_pass \<Rightarrow> rx_window \<Rightarrow> (string list list \<times> rx_window) option" where
  "rx_UiUpdate configured dict inp w = do {
     w \<leftarrow> rx_act (rp_event inp) rx_above_table w;
     rows \<leftarrow> uiTable configured (rp_pp_tab inp) (Some dict) (rp_ranges inp) w;
     w \<leftarrow> (if rw_filter w then rx_act (rp_event inp) rx_in_filter_window w else Some w);
     Some (rows, w)
   }"

text \<open>What the user did between two frames, and the tab of the transmit window that is open.\<close>

record frame_input =
  fi_topbar :: topbar_input
  fi_connect :: connect_input
  fi_rx :: rx_pass
  fi_pp_tab :: bool
  fi_raw :: raw_input
  fi_pp :: pp_input

definition tx_pass :: "ProtoPlexerDictionary \<Rightarrow> frame_input \<Rightarrow> ('ch, 'h) CanManager \<Rightarrow> 'h app_event" where
  "tx_pass dict fi m =
     (if m_backend_cfg m = ProtoPlexer \<and> fi_pp_tab fi then PpPass dict (fi_pp fi)
      else RawPass (fi_raw fi))"

definition env_step ::
  "('p, 's, 'f, 'c) gui_env \<Rightarrow> memory \<Rightarrow> subscriber app_event \<Rightarrow> ('p, 's, 'f, 'c, subscriber) app
    \<Rightarrow> ('p, 's, 'f, 'c, subscriber) app \<times> subscriber mgr_event list" where
  "env_step env mem = app_step (ge_handler env) (ge_this env) (ge_null_cookie env) mem (ge_built_in env)"

text \<open>
  The windows of one frame, each with the memory of its pass; \<open>None\<close> when one of them does what has
  no defined behaviour.
\<close>

definition ui_update ::
  "('p, 's, 'f, 'c) gui_env \<Rightarrow> memory \<Rightarrow> frame_input \<Rightarrow> ui_element \<Rightarrow> ('p, 's, 'f, 'c) gui \<Rightarrow> ('p, 's, 'f, 'c) gui option" where
  "ui_update env mem fi el u =
     (let pass = (\<lambda>e. u\<lparr>gu_app := fst (env_step env mem e (gu_app u))\<rparr>)
      in (case el of
            TopBarUi \<Rightarrow> Some (pass (TopBarPass (fi_topbar fi)))
          | ConnectUi \<Rightarrow> Some (pass (ConnectPass (fi_connect fi)))
          | TxUi \<Rightarrow> Some (pass (tx_pass (ge_dict env) fi (ap_mgr (gu_app u))))
          | RxUi \<Rightarrow> map_option (\<lambda>(rows, w). u\<lparr>gu_rx := w, gu_rows := rows\<rparr>)
              (rx_UiUpdate (m_backend_cfg (ap_mgr (gu_app u))) (ge_dict env) (fi_rx fi) (gu_rx u))))"

fun ui_updates ::
  "('p, 's, 'f, 'c) gui_env \<Rightarrow> (ui_element \<Rightarrow> memory) \<Rightarrow> frame_input \<Rightarrow> ui_element list \<Rightarrow> ('p, 's, 'f, 'c) gui
    \<Rightarrow> ('p, 's, 'f, 'c) gui option" where
  "ui_updates env mems fi [] u = Some u"
| "ui_updates env mems fi (el # els) u = Option.bind (ui_update env (mems el) fi el u) (ui_updates env mems fi els)"

text \<open>
  A frame, with the memory of the pass of each of its windows, or a round of the worker with its
  memory, which calls the window with what it publishes.
\<close>

datatype gui_event = Frame "ui_element \<Rightarrow> memory" frame_input | Round memory "nat \<Rightarrow> string"

fun gui_step ::
  "('p, 's, 'f, 'c) gui_env \<Rightarrow> gui_event \<Rightarrow> ('p, 's, 'f, 'c) gui
    \<Rightarrow> (('p, 's, 'f, 'c) gui \<times> subscriber mgr_event list) option" where
  "gui_step env (Frame mems fi) u = map_option (\<lambda>u. (u, [])) (ui_updates env mems fi uni_gui_app_initialize u)"
| "gui_step env (Round mem clock) u =
     (let (a, evs) = env_step env mem WorkerRound (gu_app u)
      in map_option (\<lambda>w. (u\<lparr>gu_app := a, gu_rx := w\<rparr>, evs)) (receive_all clock (heard_by WindowCanRx evs) (gu_rx u)))"

fun gui_run ::
  "('p, 's, 'f, 'c) gui_env \<Rightarrow> gui_event list \<Rightarrow> ('p, 's, 'f, 'c) gui
    \<Rightarrow> (('p, 's, 'f, 'c) gui \<times> subscriber mgr_event list) option" where
  "gui_run env [] u = Some (u, [])"
| "gui_run env (e # es) u = do {
     (u, evs) \<leftarrow> gui_step env e u;
     (u, evs') \<leftarrow> gui_run env es u;
     Some (u, evs @ evs')
   }"

section \<open>The receive window never reads outside its lists\<close>

definition rx_inside :: "rx_window \<Rightarrow> bool" where
  "rx_inside w \<longleftrightarrow> (\<forall>k\<in>set (rw_msgs_raw_filtered w). k < length (rw_msgs_raw w)) \<and>
     (\<forall>k\<in>set (rw_msgs_pp_filtered w). k < length (rw_msgs_pp w))"

text \<open>A message whose length its data have.\<close>

definition whole_message :: "uni_can_message \<Rightarrow> bool" where
  "whole_message x \<longleftrightarrow> unat (cm_len x) \<le> length (data_u8 (cm_data x))"

lemma rebuild_inside: "rx_inside (rebuildFilter w)"
  by (auto simp: rx_inside_def rebuildFilter_def)

lemma rebuild_fields [simp]:
  "rw_msgs_raw (rebuildFilter w) = rw_msgs_raw w" "rw_msgs_pp (rebuildFilter w) = rw_msgs_pp w"
  by (simp_all add: rebuildFilter_def)

lemma receive_inside:
  assumes "receiveMsg ts p w = Some w'" "rx_inside w"
  shows "rx_inside w'"
  using assms by (auto simp: receiveMsg_def rx_inside_def Let_def less_Suc_eq split: packet.splits option.splits if_splits)

text \<open>What the user does with the window, removing a line of the filter apart.\<close>

definition rx_same_entries :: "rx_event option \<Rightarrow> rx_window \<Rightarrow> rx_window \<Rightarrow> bool" where
  "rx_same_entries e w w' \<longleftrightarrow> rx_inside w' \<and>
     (if e = Some Clear then rw_msgs_raw w' = [] \<and> rw_msgs_pp w' = []
      else rw_msgs_raw w' = rw_msgs_raw w \<and> rw_msgs_pp w' = rw_msgs_pp w) \<and>
     (e \<noteq> Some CloseFilterWindow \<longrightarrow> rx_shows_filtered w \<longrightarrow> rx_shows_filtered w')"

lemma cleared_shows: "rx_shows_filtered (rx_clear w)"
  by (simp add: shows_iff rx_clear_def)

lemma selected_shows: "rx_shows_filtered (w\<lparr>rw_filter_selection := n\<rparr>) = rx_shows_filtered w"
  by (simp add: shows_iff)

lemma rx_inside_update [simp]:
  "rx_inside (w\<lparr>rw_filter := a\<rparr>) = rx_inside w" "rx_inside (w\<lparr>rw_filter_selection := b\<rparr>) = rx_inside w"
  by (simp_all add: rx_inside_def)

lemma cleared_inside: "rx_inside (rx_clear w)"
  by (simp add: rx_inside_def rx_clear_def)

lemma user_event_works:
  assumes "e \<noteq> RemoveFilter" "\<forall>ts p. e \<noteq> Receive ts p" "rx_inside w"
  shows "\<exists>w'. rx_event_step e w = Some w' \<and> rx_same_entries (Some e) w w'"
proof (cases e)
  case Clear
  then show ?thesis
    by (simp add: rx_event_step_def rx_same_entries_def cleared_inside cleared_shows) (simp add: rx_clear_def)
next
  case (AddFilter v)
  then show ?thesis
    by (simp add: rx_event_step_def rx_same_entries_def filter_add_def Let_def rebuild_inside rebuild_shows)
qed (use assms in \<open>simp_all add: rx_event_step_def rx_same_entries_def rebuild_inside rebuild_shows selected_shows\<close>)

lemma act_works:
  assumes "done_by_user \<noteq> Some RemoveFilter" "\<And>ts p. \<not> P (Receive ts p)" "rx_inside w"
  shows "\<exists>w'. rx_act done_by_user P w = Some w' \<and> (if Option.is_none done_by_user \<or> \<not> P (the done_by_user) then w' = w
    else rx_same_entries done_by_user w w')"
proof (cases done_by_user)
  case (Some e)
  then show ?thesis
    using assms user_event_works [of e w] by (cases "P e") (auto simp: rx_act_def)
qed (simp add: rx_act_def)

text \<open>Whatever rows the clipper asks for.\<close>

lemma rows_defined:
  assumes "\<forall>k\<in>set shown. k < length msgs" "\<forall>e\<in>set msgs. row e \<noteq> None"
  shows "rx_rows row msgs shown idxs \<noteq> None"
proof (induction idxs)
  case (Cons i idxs)
  show ?case
  proof (cases "i < length shown")
    case True
    then have "shown ! i < length msgs"
      using assms(1) by simp
    moreover then have "row (msgs ! (shown ! i)) \<noteq> None"
      using assms(2) by simp
    ultimately show ?thesis
      using True Cons by auto
  qed simp
qed simp

lemma table_defined:
  assumes "rx_inside w" "\<forall>e\<in>set (rw_msgs_raw w). whole_message (snd e)"
  shows "\<exists>rows. uiTable configured pp_tab dict ranges w = Some rows"
proof -
  have "raw_line e \<noteq> None" if "e \<in> set (rw_msgs_raw w)" for e
    using assms(2) that raw_line_defined [of e] by (auto simp: whole_message_def)
  then show ?thesis
    using assms(1) rows_defined [of "rw_msgs_raw_filtered w" "rw_msgs_raw w" raw_line "clipped ranges"]
      rows_defined [of "rw_msgs_pp_filtered w" "rw_msgs_pp w" "\<lambda>e. Some (pp_line dict e)" "clipped ranges"]
    by (auto simp: uiTable_def uiTableRawCan_def uiTableProtoPlexer_def rx_inside_def)
qed

lemma rx_UiUpdate_works:
  assumes "rp_event inp \<noteq> Some RemoveFilter" "rx_inside w" "\<forall>e\<in>set (rw_msgs_raw w). whole_message (snd e)"
  shows "\<exists>rows w'. rx_UiUpdate configured dict inp w = Some (rows, w') \<and> rx_inside w' \<and>
    (rp_event inp \<noteq> Some Clear \<longrightarrow> rw_msgs_raw w' = rw_msgs_raw w \<and> rw_msgs_pp w' = rw_msgs_pp w) \<and>
    set (rw_msgs_raw w') \<subseteq> set (rw_msgs_raw w) \<and>
    (rp_event inp \<noteq> Some CloseFilterWindow \<longrightarrow> rx_shows_filtered w \<longrightarrow> rx_shows_filtered w')"
proof -
  let ?e = "rp_event inp"
  obtain w1 where w1: "rx_act ?e rx_above_table w = Some w1"
    "if Option.is_none ?e \<or> \<not> rx_above_table (the ?e) then w1 = w else rx_same_entries ?e w w1"
    using act_works [OF assms(1) _ assms(2), of rx_above_table] by auto
  have in1: "rx_inside w1" "\<forall>e\<in>set (rw_msgs_raw w1). whole_message (snd e)"
    using w1(2) assms(2,3) by (auto simp: rx_same_entries_def split: if_splits)
  obtain rows where rows: "uiTable configured (rp_pp_tab inp) (Some dict) (rp_ranges inp) w1 = Some rows"
    using table_defined [OF in1] by blast
  obtain w2 where w2: "(if rw_filter w1 then rx_act ?e rx_in_filter_window w1 else Some w1) = Some w2"
    "w2 = w1 \<or> \<not> Option.is_none ?e \<and> rx_in_filter_window (the ?e) \<and> rx_same_entries ?e w1 w2"
    using act_works [OF assms(1) _ in1(1), of rx_in_filter_window] by (cases "rw_filter w1") (auto split: if_splits)
  have "rx_UiUpdate configured dict inp w = Some (rows, w2)"
    using w1(1) rows w2(1) by (simp add: rx_UiUpdate_def)
  moreover have "rx_above_table e \<Longrightarrow> \<not> rx_in_filter_window e" for e
    by (cases e) simp_all
  ultimately show ?thesis
    using w1(2) w2(2) assms(2) by (cases ?e) (auto simp: rx_same_entries_def split: if_splits)
qed

text \<open>A worker that calls the window with defined messages.\<close>

lemma receive_all_works:
  assumes "\<forall>p\<in>set ps. p \<noteq> CanPacket None" "rx_inside w"
  shows "\<exists>w'. receive_all clock ps w = Some w' \<and> rx_inside w' \<and>
    map snd (rw_msgs_raw w') = map snd (rw_msgs_raw w) @ raw_of ps \<and>
    map snd (rw_msgs_pp w') = map snd (rw_msgs_pp w) @ pp_of ps \<and> (rx_shows_filtered w \<longrightarrow> rx_shows_filtered w')"
  using assms
proof (induction ps arbitrary: clock w)
  case (Cons p ps)
  have "p \<noteq> CanPacket None"
    using Cons.prems(1) by simp
  then obtain w1 where w1: "receiveMsg (clock 0) p w = Some w1"
    "map snd (rw_msgs_raw w1) = map snd (rw_msgs_raw w) @ raw_of [p]" "map snd (rw_msgs_pp w1) = map snd (rw_msgs_pp w) @ pp_of [p]"
    by (cases p rule: packet.exhaust; cases "case p of CanPacket x \<Rightarrow> x | _ \<Rightarrow> None") (auto simp: receiveMsg_def Let_def)
  obtain w' where "receive_all (\<lambda>k. clock (Suc k)) ps w1 = Some w'" "rx_inside w'"
    "map snd (rw_msgs_raw w') = map snd (rw_msgs_raw w1) @ raw_of ps"
    "map snd (rw_msgs_pp w') = map snd (rw_msgs_pp w1) @ pp_of ps" "rx_shows_filtered w1 \<longrightarrow> rx_shows_filtered w'"
    using Cons.IH [of w1 "\<lambda>k. clock (Suc k)"] Cons.prems(1) receive_inside [OF w1(1) Cons.prems(2)] by auto
  moreover have "rx_shows_filtered w \<longrightarrow> rx_shows_filtered w1"
    using receive_shows w1(1) by blast
  moreover have "raw_of (p # ps) = raw_of [p] @ raw_of ps" "pp_of (p # ps) = pp_of [p] @ pp_of ps"
    by (cases p rule: packet.exhaust; cases "case p of CanPacket x \<Rightarrow> x | _ \<Rightarrow> None"; simp)+
  ultimately show ?case
    using w1 by (intro exI [of _ w']) simp
qed simp

section \<open>The manager in a frame\<close>

text \<open>The windows other than the receive window, and the worker, without it.\<close>

definition app_frame ::
  "('p, 's, 'f, 'c) gui_env \<Rightarrow> (ui_element \<Rightarrow> memory) \<Rightarrow> frame_input \<Rightarrow> ('p, 's, 'f, 'c, subscriber) app
    \<Rightarrow> ('p, 's, 'f, 'c, subscriber) app" where
  "app_frame env mems fi a =
     (let a = fst (env_step env (mems TopBarUi) (TopBarPass (fi_topbar fi)) a);
          a = fst (env_step env (mems ConnectUi) (ConnectPass (fi_connect fi)) a)
      in fst (env_step env (mems TxUi) (tx_pass (ge_dict env) fi (ap_mgr a)) a))"

fun app_part ::
  "('p, 's, 'f, 'c) gui_env \<Rightarrow> gui_event list \<Rightarrow> ('p, 's, 'f, 'c, subscriber) app
    \<Rightarrow> ('p, 's, 'f, 'c, subscriber) app \<times> subscriber mgr_event list" where
  "app_part env [] a = (a, [])"
| "app_part env (Frame mems fi # es) a = app_part env es (app_frame env mems fi a)"
| "app_part env (Round mem clock # es) a =
     (let (a, evs) = env_step env mem WorkerRound a; (a, evs') = app_part env es a in (a, evs @ evs'))"

lemma pass_no_events: "e \<noteq> WorkerRound \<Longrightarrow> snd (env_step env mem e a) = []"
  by (cases e) (simp_all add: env_step_def split: prod.splits)

text \<open>It is a session of \<open>AppSession\<close>.\<close>

definition env_run ::
  "('p, 's, 'f, 'c) gui_env \<Rightarrow> (memory \<times> subscriber app_event) list \<Rightarrow> ('p, 's, 'f, 'c, subscriber) app
    \<Rightarrow> ('p, 's, 'f, 'c, subscriber) app \<times> subscriber mgr_event list" where
  "env_run env = app_run (ge_handler env) (ge_this env) (ge_null_cookie env) (ge_built_in env)"

lemma env_run_simps [simp]:
  "env_run env [] a = (a, [])"
  "env_run env ((mem, e) # es) a = (let (a, evs) = env_step env mem e a; (a, evs') = env_run env es a in (a, evs @ evs'))"
  by (simp_all add: env_run_def env_step_def)

lemma app_part_session: "\<exists>es'. app_part env es a = env_run env es' a \<and> (\<forall>n f. Subscribe n f \<notin> snd ` set es')"
proof (induction es arbitrary: a)
  case (Cons e es)
  show ?case
  proof (cases e)
    case (Frame mems fi)
    obtain es' where es': "app_part env es (app_frame env mems fi a) = env_run env es' (app_frame env mems fi a)" "\<forall>n f. Subscribe n f \<notin> snd ` set es'"
      using Cons by blast
    let ?a1 = "fst (env_step env (mems TopBarUi) (TopBarPass (fi_topbar fi)) a)"
    let ?a2 = "fst (env_step env (mems ConnectUi) (ConnectPass (fi_connect fi)) ?a1)"
    let ?tx = "tx_pass (ge_dict env) fi (ap_mgr ?a2) :: subscriber app_event"
    have tx: "?tx \<noteq> WorkerRound" "\<forall>n f. Subscribe n f \<noteq> ?tx"
      by (simp_all add: tx_pass_def)
    have "env_run env ((mems TopBarUi, TopBarPass (fi_topbar fi)) # (mems ConnectUi, ConnectPass (fi_connect fi)) # (mems TxUi, ?tx) # es') a = env_run env es' (app_frame env mems fi a)"
      using pass_no_events [of "TopBarPass (fi_topbar fi)" env "mems TopBarUi" a] pass_no_events [of "ConnectPass (fi_connect fi)" env "mems ConnectUi" ?a1]
        pass_no_events [OF tx(1), of env "mems TxUi" ?a2]
      by (simp add: app_frame_def split_beta Let_def)
    with es' tx(2) Frame show ?thesis
      by (intro exI [of _ "(mems TopBarUi, TopBarPass (fi_topbar fi)) # (mems ConnectUi, ConnectPass (fi_connect fi)) # (mems TxUi, ?tx) # es'"]) simp
  next
    case (Round mem clock)
    obtain a1 e1 where step: "env_step env mem WorkerRound a = (a1, e1)"
      by (metis surj_pair)
    obtain es' where "app_part env es a1 = env_run env es' a1" "\<forall>n f. Subscribe n f \<notin> snd ` set es'"
      using Cons by blast
    with step Round show ?thesis
      by (intro exI [of _ "(mem, WorkerRound) # es'"]) simp
  qed
next
  case Nil
  show ?case
    by (intro exI [of _ "[]"]) simp
qed

lemma subscribed_ok: "app_ok (app_subscribed tx g)"
  using app_new_ok [of tx g] subscribe_ok [of connect_window_new can_manager_new "''window_can_rx''" WindowCanRx]
  by (auto simp: app_ok_def app_subscribed_def app_new_def)

text \<open>What the worker publishes is defined.\<close>

lemma transmit_frames_quiet: "calls (snd (mgr_transmit_frames ops_of fs m)) = []"
proof (induction fs arbitrary: m)
  case (Cons f fs)
  show ?case
    using Cons [of "m\<lparr>m_can_channel := snd (uni_can_channel_transmit ops_of (m_can_channel m) (Some f))\<rparr>"]
    by (simp add: split_beta Let_def)
qed simp

lemma transmit_quiet: "calls (snd (snd (mgr_transmit ops_of mem items again m))) = []"
proof (induction items arbitrary: again m)
  case (Cons item items)
  then show ?case
    by (simp add: split_beta Let_def transmit_frames_quiet split: option.split)
qed simp

lemma round_defined: "c \<in> set (calls (snd (snd (mgr_round ops_of mem m)))) \<Longrightarrow> snd c \<noteq> CanPacket None"
  by (auto simp: mgr_round_def split_beta Let_def transmit_quiet mgr_receive_def published_def split: if_splits option.splits)

lemma step_defined: "p \<in> set (heard_by h (snd (env_step env mem e a))) \<Longrightarrow> p \<noteq> CanPacket None"
proof (cases "e = WorkerRound")
  case True
  moreover assume "p \<in> set (heard_by h (snd (env_step env mem e a)))"
  ultimately show ?thesis
    using round_defined [of _ adapter_ops_of mem "ap_mgr a"]
    by (force simp: env_step_def heard_by_def split: if_splits prod.splits)
next
  case False
  moreover assume "p \<in> set (heard_by h (snd (env_step env mem e a)))"
  ultimately show ?thesis
    by (simp add: pass_no_events heard_by_def)
qed

lemma heard_by_append [simp]: "heard_by h [] = []" "heard_by h (xs @ ys) = heard_by h xs @ heard_by h ys"
  by (simp_all add: heard_by_def)

text \<open>The subscribers change only by subscribing.\<close>

lemma disconnect_subs [simp]: "m_receive_subs (fst (Disconnect ops_of m)) = m_receive_subs m"
  by (simp add: Disconnect_def stateSet_def Let_def)

lemma refresh_subs [simp]: "m_receive_subs (fst (InfoRefresh built_in g m)) = m_receive_subs m"
  by (simp add: InfoRefresh_def split_beta Let_def)

lemma count_subs [simp]: "m_receive_subs (fst (snd (InfoGetCount built_in g m))) = m_receive_subs m"
  by (simp add: InfoGetCount_def split_beta Let_def)

lemma label_subs [simp]: "m_receive_subs (fst (snd (deviceGetLabel built_in g m idx))) = m_receive_subs m"
  by (simp add: deviceGetLabel_def InfoGetName_def split_beta Let_def)

lemma combo_subs [simp]: "m_receive_subs (fst (snd (uiUpdateComboCan built_in opened clicked g m w))) = m_receive_subs m"
  by (simp add: uiUpdateComboCan_def split_beta Let_def split: option.split)

lemma channel_subs [simp]:
  "m_receive_subs (fst (snd (connect_channel handler this nc params g m))) = m_receive_subs m"
  by (simp add: connect_channel_def Let_def split: prod.split option.split bool.split)

lemma backend_subs [simp]: "m_receive_subs (snd (connect_backend mem params m)) = m_receive_subs m"
  by (simp add: connect_backend_def split_beta Let_def split: option.split)

lemma connect_subs [simp]:
  "m_receive_subs (fst (snd (Connect handler this nc mem built_in params g m))) = m_receive_subs m"
  by (simp add: Connect_def stateSet_def split_beta Let_def)

lemma transmit_frames_subs [simp]: "m_receive_subs (fst (mgr_transmit_frames ops_of fs m)) = m_receive_subs m"
proof (induction fs arbitrary: m)
  case (Cons f fs)
  show ?case
    using Cons [of "m\<lparr>m_can_channel := snd (uni_can_channel_transmit ops_of (m_can_channel m) (Some f))\<rparr>"]
    by (simp add: split_beta Let_def)
qed simp

lemma transmit_subs [simp]: "m_receive_subs (fst (snd (mgr_transmit ops_of mem items again m))) = m_receive_subs m"
  by (induction items arbitrary: again m) (simp_all add: split_beta Let_def split: option.split)

lemma round_subs [simp]: "m_receive_subs (fst (snd (mgr_round ops_of mem m))) = m_receive_subs m"
proof -
  have "m_receive_subs (fst (snd (mgr_receive ops_of mem m))) = m_receive_subs m"
    by (simp add: mgr_receive_def Let_def split: prod.split option.split)
  then show ?thesis
    by (simp add: mgr_round_def split_beta)
qed

definition subscribers :: "('p, 's, 'f, 'c, 'h) app \<Rightarrow> (string \<times> 'h) list" where
  "subscribers a = m_receive_subs (ap_mgr a)"

lemma topbar_subs: "m_receive_subs (snd (connect_UiUpdateTopBar inp w m)) = m_receive_subs m"
  by (auto simp: connect_UiUpdateTopBar_def Let_def split: prod.split option.split)

lemma raw_tab_subs: "m_receive_subs (snd (ui_raw_can mem inp t m)) = m_receive_subs m"
  by (simp add: ui_raw_can_def mgr_SendMessage_def Let_def split: option.split)

lemma connect_window_subs:
  "m_receive_subs (fst (snd (connect_UiUpdate handler this nc mem built_in inp w m g))) = m_receive_subs m"
  by (simp add: connect_UiUpdate_def split_beta Let_def)

lemma step_subs:
  assumes "\<And>n f. e \<noteq> Subscribe n f"
  shows "subscribers (fst (app_step handler this nc mem built_in e a)) = subscribers a"
proof (cases e)
  case (Subscribe n f)
  with assms show ?thesis
    by blast
qed (simp_all add: subscribers_def topbar_subs raw_tab_subs connect_window_subs SendProtoPlexer_def split_beta Let_def
  split: option.split)

lemma env_run_subs: "(\<And>n f. Subscribe n f \<notin> snd ` set es) \<Longrightarrow> subscribers (fst (env_run env es a)) = subscribers a"
proof (induction es arbitrary: a)
  case (Cons me es)
  obtain mem e where me: "me = (mem, e)"
    by (metis surj_pair)
  have "e \<noteq> Subscribe n f" "Subscribe n f \<notin> snd ` set es" for n f
    using Cons.prems [of n f] by (auto simp: me)
  then show ?case
    using Cons.IH step_subs [of e "ge_handler env" "ge_this env" "ge_null_cookie env" mem "ge_built_in env" a]
    by (simp add: me env_step_def split_beta)
qed simp

section \<open>Runs of the application\<close>

text \<open>An event in which the user did a thing with the receive window.\<close>

fun user_did :: "rx_event \<Rightarrow> gui_event \<Rightarrow> bool" where
  "user_did x (Frame mems fi) = (rp_event (fi_rx fi) = Some x)"
| "user_did x (Round mem clock) = False"

lemma frame_works:
  assumes "rp_event (fi_rx fi) \<noteq> Some RemoveFilter" "rx_inside (gu_rx u)" "\<forall>e\<in>set (rw_msgs_raw (gu_rx u)). whole_message (snd e)"
  shows "\<exists>v. gui_step env (Frame mems fi) u = Some (v, []) \<and> gu_app v = app_frame env mems fi (gu_app u) \<and> rx_inside (gu_rx v) \<and>
    (rp_event (fi_rx fi) \<noteq> Some Clear \<longrightarrow> rw_msgs_raw (gu_rx v) = rw_msgs_raw (gu_rx u) \<and> rw_msgs_pp (gu_rx v) = rw_msgs_pp (gu_rx u)) \<and>
    (\<forall>e\<in>set (rw_msgs_raw (gu_rx v)). whole_message (snd e)) \<and>
    (rp_event (fi_rx fi) \<noteq> Some CloseFilterWindow \<longrightarrow> rx_shows_filtered (gu_rx u) \<longrightarrow> rx_shows_filtered (gu_rx v))"
proof -
  let ?a = "fst (env_step env (mems ConnectUi) (ConnectPass (fi_connect fi)) (fst (env_step env (mems TopBarUi) (TopBarPass (fi_topbar fi)) (gu_app u))))"
  obtain rows w where "rx_UiUpdate (m_backend_cfg (ap_mgr ?a)) (ge_dict env) (fi_rx fi) (gu_rx u) = Some (rows, w)" "rx_inside w"
    "rp_event (fi_rx fi) \<noteq> Some Clear \<longrightarrow> rw_msgs_raw w = rw_msgs_raw (gu_rx u) \<and> rw_msgs_pp w = rw_msgs_pp (gu_rx u)"
    "set (rw_msgs_raw w) \<subseteq> set (rw_msgs_raw (gu_rx u))"
    "rp_event (fi_rx fi) \<noteq> Some CloseFilterWindow \<longrightarrow> rx_shows_filtered (gu_rx u) \<longrightarrow> rx_shows_filtered w"
    using rx_UiUpdate_works [OF assms] by metis
  then show ?thesis
    using assms(3)
    by (auto simp: uni_gui_app_initialize_def ui_update_def Let_def app_frame_def)
qed

lemma round_works:
  assumes "rx_inside (gu_rx u)" "env_step env mem WorkerRound (gu_app u) = (a, evs)"
  shows "\<exists>v. gui_step env (Round mem clock) u = Some (v, evs) \<and> gu_app v = a \<and> rx_inside (gu_rx v) \<and>
    map snd (rw_msgs_raw (gu_rx v)) = map snd (rw_msgs_raw (gu_rx u)) @ raw_of (heard_by WindowCanRx evs) \<and>
    map snd (rw_msgs_pp (gu_rx v)) = map snd (rw_msgs_pp (gu_rx u)) @ pp_of (heard_by WindowCanRx evs) \<and>
    (rx_shows_filtered (gu_rx u) \<longrightarrow> rx_shows_filtered (gu_rx v))"
proof -
  have "\<forall>p\<in>set (heard_by WindowCanRx evs). p \<noteq> CanPacket None"
    using step_defined [of _ WindowCanRx env mem WorkerRound "gu_app u"] assms(2) by auto
  from receive_all_works [OF this assms(1), of clock] show ?thesis
    using assms(2) by auto
qed

lemma raw_entries: "(\<forall>e\<in>set es. whole_message (snd e)) = (\<forall>x\<in>set (map snd es). whole_message x)"
  by simp

lemma pp_of_append [simp]: "pp_of (ps @ qs) = pp_of ps @ pp_of qs"
  by (induction ps rule: pp_of.induct) auto

lemma gui_run_works:
  assumes "\<forall>e\<in>set es. \<not> user_did RemoveFilter e" "rx_inside (gu_rx u)"
    and "\<forall>e\<in>set (rw_msgs_raw (gu_rx u)). whole_message (snd e)"
    and "app_part env es (gu_app u) = (a, evs)" "\<forall>x\<in>set (raw_of (heard_by WindowCanRx evs)). whole_message x"
  shows "\<exists>v. gui_run env es u = Some (v, evs) \<and> gu_app v = a \<and>
    ((\<forall>e\<in>set es. \<not> user_did Clear e) \<longrightarrow>
      map snd (rw_msgs_raw (gu_rx v)) = map snd (rw_msgs_raw (gu_rx u)) @ raw_of (heard_by WindowCanRx evs) \<and>
      map snd (rw_msgs_pp (gu_rx v)) = map snd (rw_msgs_pp (gu_rx u)) @ pp_of (heard_by WindowCanRx evs)) \<and>
    ((\<forall>e\<in>set es. \<not> user_did CloseFilterWindow e) \<longrightarrow> rx_shows_filtered (gu_rx u) \<longrightarrow> rx_shows_filtered (gu_rx v))"
  using assms
proof (induction es arbitrary: u evs)
  case (Cons e es)
  show ?case
  proof (cases e)
    case (Frame mems fi)
    obtain v where v: "gui_step env (Frame mems fi) u = Some (v, [])" "gu_app v = app_frame env mems fi (gu_app u)" "rx_inside (gu_rx v)"
      "rp_event (fi_rx fi) \<noteq> Some Clear \<longrightarrow> rw_msgs_raw (gu_rx v) = rw_msgs_raw (gu_rx u) \<and> rw_msgs_pp (gu_rx v) = rw_msgs_pp (gu_rx u)"
      "\<forall>e\<in>set (rw_msgs_raw (gu_rx v)). whole_message (snd e)"
      "rp_event (fi_rx fi) \<noteq> Some CloseFilterWindow \<longrightarrow> rx_shows_filtered (gu_rx u) \<longrightarrow> rx_shows_filtered (gu_rx v)"
      using frame_works [OF _ Cons.prems(2,3), of fi env mems] Cons.prems(1) Frame by (auto simp del: gui_step.simps)
    have "app_part env es (gu_app v) = (a, evs)"
      using Cons.prems(4) Frame v(2) by simp
    from Cons.IH [OF _ v(3,5) this Cons.prems(5)] Cons.prems(1)
    obtain w where "gui_run env es v = Some (w, evs)" "gu_app w = a"
      "(\<forall>e\<in>set es. \<not> user_did Clear e) \<longrightarrow>
        map snd (rw_msgs_raw (gu_rx w)) = map snd (rw_msgs_raw (gu_rx v)) @ raw_of (heard_by WindowCanRx evs) \<and>
        map snd (rw_msgs_pp (gu_rx w)) = map snd (rw_msgs_pp (gu_rx v)) @ pp_of (heard_by WindowCanRx evs)"
      "(\<forall>e\<in>set es. \<not> user_did CloseFilterWindow e) \<longrightarrow> rx_shows_filtered (gu_rx v) \<longrightarrow> rx_shows_filtered (gu_rx w)"
      by auto
    then show ?thesis
      using v(1,4,6) Frame by (intro exI [of _ w]) (simp del: gui_step.simps)
  next
    case (Round mem clock)
    obtain a1 e1 where step: "env_step env mem WorkerRound (gu_app u) = (a1, e1)"
      by (metis surj_pair)
    obtain e2 where rest: "app_part env es a1 = (a, e2)" "evs = e1 @ e2"
      using Cons.prems(4) Round step by (auto split: prod.splits)
    obtain v where v: "gui_step env (Round mem clock) u = Some (v, e1)" "gu_app v = a1" "rx_inside (gu_rx v)"
      "map snd (rw_msgs_raw (gu_rx v)) = map snd (rw_msgs_raw (gu_rx u)) @ raw_of (heard_by WindowCanRx e1)"
      "map snd (rw_msgs_pp (gu_rx v)) = map snd (rw_msgs_pp (gu_rx u)) @ pp_of (heard_by WindowCanRx e1)"
      "rx_shows_filtered (gu_rx u) \<longrightarrow> rx_shows_filtered (gu_rx v)"
      using round_works [OF Cons.prems(2) step] by metis
    have whole: "\<forall>e\<in>set (rw_msgs_raw (gu_rx v)). whole_message (snd e)"
      unfolding raw_entries v(4) using Cons.prems(3,5) rest(2) by auto
    from Cons.IH [OF _ v(3) whole, of e2] rest v(2) Cons.prems(1,5)
    obtain w where "gui_run env es v = Some (w, e2)" "gu_app w = a"
      "(\<forall>e\<in>set es. \<not> user_did Clear e) \<longrightarrow>
        map snd (rw_msgs_raw (gu_rx w)) = map snd (rw_msgs_raw (gu_rx v)) @ raw_of (heard_by WindowCanRx e2) \<and>
        map snd (rw_msgs_pp (gu_rx w)) = map snd (rw_msgs_pp (gu_rx v)) @ pp_of (heard_by WindowCanRx e2)"
      "(\<forall>e\<in>set es. \<not> user_did CloseFilterWindow e) \<longrightarrow> rx_shows_filtered (gu_rx v) \<longrightarrow> rx_shows_filtered (gu_rx w)"
      by auto
    then show ?thesis
      using v(1,4,5,6) Round rest(2) by (intro exI [of _ w]) (simp del: gui_step.simps)
  qed
qed simp

section \<open>Property\<close>

lemma heard_all: "heard_by WindowCanRx evs = map snd (calls evs)"
proof -
  have "filter (\<lambda>c. fst c = WindowCanRx) cs = cs" for cs :: "(subscriber \<times> packet) list"
    by (rule filter_True) (metis subscriber.exhaust)
  then show ?thesis
    by (simp add: heard_by_def)
qed

lemma new_shows: "rx_inside (rx_window_new stored)" "rx_shows_filtered (rx_window_new stored)"
  "rw_msgs_raw (rx_window_new stored) = []" "rw_msgs_pp (rx_window_new stored) = []"
  unfolding shows_iff by (simp_all add: rx_inside_def rx_window_new_def filterLoad_def split: option.split)

text \<open>
  C10. The application as a whole, from its start, in any sequence of frames and rounds of the worker,
  whatever the user does in any of its windows, whatever devices answer, and with memory there or not in
  each pass of a window and in each round: as long as no message that the worker publishes says that it
  is longer than its data and no line of the filter is removed, no window reads outside its
  lists or follows a null pointer. The receive window stays the only subscriber, it holds every message
  and every decoded ProtoPlexer message that the worker published, once and in order, unless the user
  cleared it, and its tables show exactly those that pass the filter, unless the filter was closed by
  its own button. The manager has the configuration the connect window shows, and every frame given to
  the channel has at most eight bytes and carries them itself.
\<close>

theorem application_shows_what_arrives:
  assumes "app_part env es (app_subscribed tx g) = (a, evs)"
    and "\<forall>e\<in>set es. \<not> user_did RemoveFilter e" "\<forall>x\<in>set (raw_of (map snd (calls evs))). whole_message x"
  shows "\<exists>u. gui_run env es (gui_new tx stored g) = Some (u, evs) \<and> gu_app u = a \<and>
    m_receive_subs (ap_mgr a) = [(''window_can_rx'', WindowCanRx)] \<and>
    window_ok (ap_connect a) (ap_mgr a) \<and> list_all classic (sent evs) \<and>
    ((\<forall>e\<in>set es. \<not> user_did Clear e) \<longrightarrow>
      map snd (rw_msgs_raw (gu_rx u)) = raw_of (map snd (calls evs)) \<and>
      map snd (rw_msgs_pp (gu_rx u)) = pp_of (map snd (calls evs))) \<and>
    ((\<forall>e\<in>set es. \<not> user_did CloseFilterWindow e) \<longrightarrow> rx_shows_filtered (gu_rx u))"
proof -
  let ?start = "gui_new tx stored g :: ('a, 'b, 'c, 'd) gui"
  obtain u where u: "gui_run env es ?start = Some (u, evs)" "gu_app u = a"
    "(\<forall>e\<in>set es. \<not> user_did Clear e) \<longrightarrow>
      map snd (rw_msgs_raw (gu_rx u)) = map snd (rw_msgs_raw (gu_rx ?start)) @ raw_of (map snd (calls evs)) \<and>
      map snd (rw_msgs_pp (gu_rx u)) = map snd (rw_msgs_pp (gu_rx ?start)) @ pp_of (map snd (calls evs))"
    "(\<forall>e\<in>set es. \<not> user_did CloseFilterWindow e) \<longrightarrow> rx_shows_filtered (gu_rx ?start) \<longrightarrow> rx_shows_filtered (gu_rx u)"
    using gui_run_works [OF assms(2), of ?start env a evs] assms(1,3) by (auto simp: gui_new_def new_shows heard_all)
  obtain es' where run: "env_run env es' (app_subscribed tx g) = (a, evs)" "\<And>n f. Subscribe n f \<notin> snd ` set es'"
    using app_part_session [of env es "app_subscribed tx g"] assms(1) by auto
  have "m_receive_subs (ap_mgr a) = [(''window_can_rx'', WindowCanRx)]"
    using env_run_subs [OF run(2), of env "app_subscribed tx g"] run(1)
    by (simp add: subscribers_def app_subscribed_def ReceiveSubscribe_def can_manager_new_def)
  moreover have "window_ok (ap_connect a) (ap_mgr a)" "list_all classic (sent evs)"
    using app_run_ok [OF subscribed_ok run(1) [unfolded env_run_def]] by (simp_all add: app_ok_def)
  ultimately show ?thesis
    using u by (auto simp: gui_new_def new_shows)
qed

text \<open>A device on which a message arrives whenever it is asked, and an application that connects to it.\<close>

definition talking_vtable :: "unit ICanChannel" where
  "talking_vtable = example_vtable\<lparr>ic_ReceiveMessage := Pair (Some can_message_zero)\<rparr>"

definition talking_env :: "(bool, unit, nat, nat) gui_env" where
  "talking_env = \<lparr>ge_handler = 1, ge_this = 0, ge_null_cookie = 0,
     ge_built_in = [(example_provider\<lparr>pv_CreateChannel := \<lambda>p _ _ _. (Some (talking_vtable, ()), p)\<rparr>, False)], ge_dict = example_dict\<rparr>"

definition connecting_frame :: frame_input where
  "connecting_frame = \<lparr>fi_topbar = \<lparr>ti_mode = None, ti_address = None, ti_monitoring = False\<rparr>,
     fi_connect = \<lparr>ci_opened = False, ci_device = None, ci_refresh = False, ci_baudrate = None, ci_connect = True, ci_disconnect = False\<rparr>,
     fi_rx = \<lparr>rp_event = Some (CheckFilter True), rp_pp_tab = False, rp_ranges = [(0, 5)]\<rparr>, fi_pp_tab = False,
     fi_raw = \<lparr>ri_ext_id = True, ri_id = 0, ri_len = 0, ri_byte = (\<lambda>_. None), ri_send = False\<rparr>,
     fi_pp = example_pp_input\<rparr>"

abbreviation talking_app :: "(bool, unit, nat, nat, subscriber) app" where
  "talking_app \<equiv> app_frame talking_env (\<lambda>_. example_memory) connecting_frame (app_subscribed tx_window_new factory_start)"

lemma talking_topbar:
  "env_step talking_env example_memory (TopBarPass (fi_topbar connecting_frame)) (app_subscribed tx_window_new factory_start) =
    (app_subscribed tx_window_new factory_start, [])"
  by (simp add: env_step_def connecting_frame_def connect_UiUpdateTopBar_def app_subscribed_def app_new_def connect_window_new_def)

lemma talking_tx: "ap_mgr (fst (env_step env mem (tx_pass dict connecting_frame m) a)) = ap_mgr a"
  by (simp add: env_step_def tx_pass_def connecting_frame_def ui_raw_can_def Let_def)

definition connected_to_talker :: "((unit, nat, nat) CanChannelAdapter, subscriber) CanManager \<Rightarrow> bool" where
  "connected_to_talker m \<longleftrightarrow> m_thread m \<and> m_tx_queue m = [] \<and> m_backend_active m = RawCan \<and>
     (\<exists>ch. m_can_channel m = Some ch \<and> ad_vtable ch = talking_vtable \<and> \<not> ad_deleted ch)"

lemma talking_connect:
  assumes "env_step talking_env example_memory (ConnectPass (fi_connect connecting_frame)) (app_subscribed tx_window_new factory_start) = (a, evs)"
  shows "connected_to_talker (ap_mgr a) \<and> m_receive_subs (ap_mgr a) = [(''window_can_rx'', WindowCanRx)]"
  using assms
  by (auto simp: env_step_def talking_env_def connecting_frame_def app_subscribed_def app_new_def ReceiveSubscribe_def
      connected_to_talker_def connect_UiUpdate_def uiUpdateComboCan_def deviceGetLabel_def
      InfoGetName_def InfoGetCount_def uiUpdateComboBaudrate_def cw_baudrates_def connect_window_new_def connect_params_def
      talking_vtable_def example_connect info_name_def Let_def upt_rec)

lemma talking_connects: "connected_to_talker (ap_mgr talking_app)" "m_receive_subs (ap_mgr talking_app) = [(''window_can_rx'', WindowCanRx)]"
  using talking_connect [OF surjective_pairing] by (simp_all add: app_frame_def talking_topbar talking_tx Let_def)

lemma talking_publishes: "calls (snd (env_step talking_env example_memory WorkerRound talking_app)) = [(WindowCanRx, CanPacket (Some can_message_zero))]"
proof -
  obtain ch where ch: "m_can_channel (ap_mgr talking_app) = Some ch" "ad_vtable ch = talking_vtable" "\<not> ad_deleted ch"
    using talking_connects(1) by (auto simp: connected_to_talker_def)
  have "uni_can_channel_receive adapter_ops_of True (Some ch) = (Some can_message_zero, Some ch)"
    using ch(2,3) by (cases ch) (auto simp: channel_defs adapter_ops_of_def adapter_ops_def adapter_receive_def talking_vtable_def)
  moreover have "uni_can_message_clone True heap_zeros can_message_zero = Some can_message_zero"
    by (rule clone_equal) simp_all
  ultimately show ?thesis
    using ch(1) talking_connects
    by (simp add: connected_to_talker_def env_step_def talking_env_def mgr_round_def mgr_receive_def receiveAction_def split_beta Let_def)
qed

theorem application_shows_what_arrives_witness:
  "\<exists>u evs. gui_run talking_env [Frame (\<lambda>_. example_memory) connecting_frame, Round example_memory (\<lambda>_. ''10:00:00.000'')] (gui_new tx_window_new None factory_start) = Some (u, evs) \<and>
    map snd (rw_msgs_raw (gu_rx u)) = [can_message_zero] \<and> rx_shows_filtered (gu_rx u)"
proof -
  obtain a evs where step: "env_step talking_env example_memory WorkerRound talking_app = (a, evs)"
    by (metis surj_pair)
  let ?es = "[Frame (\<lambda>_. example_memory) connecting_frame, Round example_memory (\<lambda>_. ''10:00:00.000'')]"
  have run: "app_part talking_env ?es (app_subscribed tx_window_new factory_start) = (a, evs)"
    using step by simp
  have published: "calls evs = [(WindowCanRx, CanPacket (Some can_message_zero))]"
    using talking_publishes by (simp add: step)
  have calm: "\<forall>e\<in>set ?es. \<not> user_did RemoveFilter e" "\<forall>e\<in>set ?es. \<not> user_did Clear e" "\<forall>e\<in>set ?es. \<not> user_did CloseFilterWindow e"
    by (simp_all add: connecting_frame_def)
  show ?thesis
    using application_shows_what_arrives [OF run calm(1), of None] calm(2,3)
    by (auto simp: published whole_message_def can_message_zero_def)
qed

section \<open>The combination box of an enumeration\<close>

text \<open>
  \<open>EnumCombo\<close> (\<open>src_app/imgui_adds.h\<close>) with its values and the entries that were clicked while the list
  was open: the value that was clicked last is taken, and the result says whether there was one. The box
  of the top bar has the modes of the manager, and what the user chose there is its \<open>ti_mode\<close>.
\<close>

definition EnumCombo :: "'e list \<Rightarrow> (nat \<Rightarrow> bool) \<Rightarrow> 'e \<Rightarrow> bool \<times> 'e" where
  "EnumCombo entries clicked value =
     foldl (\<lambda>(changed, value) i. if clicked i then (True, entries ! i) else (changed, value)) (False, value) [0..<length entries]"

lemma mode_combo:
  "EnumCombo [RawCan, ProtoPlexer] clicked value =
    (if clicked 1 then (True, ProtoPlexer) else if clicked 0 then (True, RawCan) else (False, value))"
  by (simp add: EnumCombo_def upt_rec)

end
