(* ===== verification/TestsLibrary.thy ===== *)
theory TestsLibrary
  imports CanChannel J1939Msg Imp "HOL-Library.Monad_Syntax"
begin

text \<open>
  The tests of the channel functions, of J1939 signals and of IMP (\<open>src_tests/channel\<close>,
  \<open>src_tests/j1939\<close>, \<open>src_tests/imp\<close>), run on the model. A test is a computation that ends with
  \<open>Some ()\<close> when every \<open>REQUIRE\<close> holds and with \<open>None\<close> at the first that does not. Objects of the
  test are passed along; releasing them is left out where nothing looks at them afterwards.
\<close>

section \<open>Requirements\<close>

definition req :: "bool \<Rightarrow> unit option" where
  "req b = (if b then Some () else None)"

definition req_not :: "bool \<Rightarrow> unit option" where
  "req_not b = req (\<not> b)"

fun req_all :: "unit option list \<Rightarrow> unit option" where
  "req_all [] = Some ()"
| "req_all (t # ts) = do { t; req_all ts }"


section \<open>A backend for tests\<close>

text \<open>The tables the tests use; a pointer to one of them is what the object starts with.\<close>

datatype fake_table = NoTable | EmptyTable | FullTable | TableWithoutReceive | TableWithoutReceiveTo

record fake_channel =
  fc_table :: fake_table
  fc_opened :: bool
  fc_destroyed :: bool
  fc_idle :: bool
  fc_aborts :: nat
  fc_sent :: "uni_can_message list"
  fc_incoming :: "uni_can_message list"
  fc_filter_id :: u32
  fc_filter_mask :: u32
  fc_handler :: "nat option"
  fc_handler_cookie :: nat

definition fake_channel_new :: "fake_table \<Rightarrow> fake_channel" where
  "fake_channel_new table = \<lparr>fc_table = table, fc_opened = False, fc_destroyed = False, fc_idle = True, fc_aborts = 0,
     fc_sent = [], fc_incoming = [], fc_filter_id = 0, fc_filter_mask = 0, fc_handler = None, fc_handler_cookie = 0\<rparr>"

definition fake_receive :: "fake_channel \<Rightarrow> uni_can_message option \<times> fake_channel" where
  "fake_receive s =
     (case fc_incoming s of
        [] \<Rightarrow> (None, s)
      | m # ms \<Rightarrow> (uni_can_message_clone True heap_zeros m, s\<lparr>fc_incoming := ms\<rparr>))"

definition fake_receive_to :: "fake_channel \<Rightarrow> uni_can_message \<Rightarrow> bool \<times> uni_can_message \<times> fake_channel" where
  "fake_receive_to s msg =
     (case fc_incoming s of
        [] \<Rightarrow> (False, msg, s)
      | m # ms \<Rightarrow> (True, m, s\<lparr>fc_incoming := ms\<rparr>))"

definition full_ops :: "(fake_channel, nat, nat) uni_can_channel_ops" where
  "full_ops = \<lparr>
     op_init = Some (\<lambda>s. (True, s)),
     op_open = Some (\<lambda>s. (True, s\<lparr>fc_opened := True\<rparr>)),
     op_close = Some (\<lambda>s. (True, s\<lparr>fc_opened := False\<rparr>)),
     op_destroy = Some (\<lambda>s. (True, s\<lparr>fc_destroyed := True\<rparr>)),
     op_receive = Some fake_receive,
     op_receive_to = Some fake_receive_to,
     op_transmit = Some (\<lambda>s m. (True, s\<lparr>fc_sent := fc_sent s @ [m]\<rparr>)),
     op_transmit_idle = Some (\<lambda>s. (fc_idle s, s)),
     op_transmit_abort = Some (\<lambda>s. (True, s\<lparr>fc_aborts := fc_aborts s + 1\<rparr>)),
     op_set_receive_handler = Some (\<lambda>s func cookie. (True, s\<lparr>fc_handler := func, fc_handler_cookie := cookie\<rparr>)),
     op_filter_add = Some (\<lambda>s fid fmask. (True, s\<lparr>fc_filter_id := fid, fc_filter_mask := fmask\<rparr>))\<rparr>"

definition fake_ops_of :: "fake_channel \<Rightarrow> (fake_channel, nat, nat) uni_can_channel_ops option" where
  "fake_ops_of s =
     (case fc_table s of
        NoTable \<Rightarrow> None
      | EmptyTable \<Rightarrow> Some channel_ops_none
      | FullTable \<Rightarrow> Some full_ops
      | TableWithoutReceive \<Rightarrow> Some (full_ops\<lparr>op_receive := None\<rparr>)
      | TableWithoutReceiveTo \<Rightarrow> Some (full_ops\<lparr>op_receive_to := None\<rparr>))"

definition fake_message :: "u32 \<Rightarrow> u8 \<Rightarrow> uni_can_message" where
  "fake_message cid value = can_message_zero\<lparr>cm_id := cid, cm_flags := UNI_CAN_MSG_FLAG_EXT_ID, cm_len := 2,
     cm_data := Inline [value, NOT value, 0, 0, 0, 0, 0, 0]\<rparr>"

definition first_byte :: "uni_can_message \<Rightarrow> u8" where
  "first_byte m = hd (data_u8 (cm_data m))"


section \<open>Tests of the channel functions\<close>

definition refuses_everything :: "fake_channel option \<Rightarrow> unit option" where
  "refuses_everything c = req_all [
     req_not (fst (uni_can_channel_init fake_ops_of c)),
     req_not (fst (uni_can_channel_open fake_ops_of c)),
     req_not (fst (uni_can_channel_close fake_ops_of c)),
     req_not (fst (uni_can_channel_destroy fake_ops_of c)),
     req (fst (uni_can_channel_receive fake_ops_of True c) = None),
     req_not (fst (uni_can_channel_receive_to fake_ops_of c (Some can_message_zero))),
     req_not (fst (uni_can_channel_transmit fake_ops_of c (Some can_message_zero))),
     req_not (fst (uni_can_channel_transmit_idle fake_ops_of c)),
     req_not (fst (uni_can_channel_transmit_abort fake_ops_of c)),
     req_not (fst (uni_can_channel_set_receive_handler fake_ops_of c (Some 1) 0)),
     req_not (fst (uni_can_channel_filter_add fake_ops_of c 1 1))]"

definition channel_null_is_refused :: "unit option" where
  "channel_null_is_refused = refuses_everything None"

definition channel_missing_operations_are_refused :: "unit option" where
  "channel_missing_operations_are_refused = do {
     let channel = fake_channel_new EmptyTable;
     refuses_everything (Some channel);
     let channel = channel\<lparr>fc_table := NoTable\<rparr>;
     req_not (fst (uni_can_channel_open fake_ops_of (Some channel)));
     req_not (fst (uni_can_channel_transmit fake_ops_of (Some channel) (Some can_message_zero)))
   }"

definition channel_calls_reach_the_backend :: "unit option" where
  "channel_calls_reach_the_backend = do {
     let (ok, c) = uni_can_channel_init fake_ops_of (Some (fake_channel_new FullTable));
     req ok;
     let (ok, c) = uni_can_channel_open fake_ops_of c;
     req ok;
     req (fc_opened (the c));
     let out = fake_message 0x1E011001 0x5A;
     let (ok, c) = uni_can_channel_transmit fake_ops_of c (Some out);
     req ok;
     let (ok, c) = uni_can_channel_transmit fake_ops_of c None;
     req_not ok;
     req (length (fc_sent (the c)) = 1);
     req (cm_id (hd (fc_sent (the c))) = cm_id out);
     req (first_byte (hd (fc_sent (the c))) = 0x5A);
     let (ok, c) = uni_can_channel_transmit_idle fake_ops_of c;
     req ok;
     let c = map_option (\<lambda>s. s\<lparr>fc_idle := False\<rparr>) c;
     let (ok, c) = uni_can_channel_transmit_idle fake_ops_of c;
     req_not ok;
     let (ok, c) = uni_can_channel_transmit_abort fake_ops_of c;
     req ok;
     req (fc_aborts (the c) = 1);
     let (ok, c) = uni_can_channel_set_receive_handler fake_ops_of c (Some 1) 7;
     req ok;
     req (fc_handler (the c) = Some 1);
     req (fc_handler_cookie (the c) = 7);
     let (ok, c) = uni_can_channel_filter_add fake_ops_of c 0x001 0x7FF;
     req ok;
     req (fc_filter_id (the c) = 0x001);
     req (fc_filter_mask (the c) = 0x7FF);
     let (ok, c) = uni_can_channel_close fake_ops_of c;
     req ok;
     req_not (fc_opened (the c));
     let (ok, c) = uni_can_channel_destroy fake_ops_of c;
     req ok;
     req (fc_destroyed (the c))
   }"

definition receives_both_ways :: "fake_table \<Rightarrow> unit option" where
  "receives_both_ways table = do {
     let channel = (fake_channel_new table)\<lparr>fc_incoming := [fake_message 0x100 1, fake_message 0x200 2]\<rparr>;
     let (first, c) = uni_can_channel_receive fake_ops_of True (Some channel);
     m \<leftarrow> first;
     req (cm_id m = 0x100);
     req (cm_len m = 2);
     req (first_byte m = 1);
     let (ok, second, c) = uni_can_channel_receive_to fake_ops_of c (Some can_message_zero);
     req ok;
     m \<leftarrow> second;
     req (cm_id m = 0x200);
     req (cm_len m = 2);
     req (first_byte m = 2);
     let (r, c) = uni_can_channel_receive fake_ops_of True c;
     req (r = None);
     let (ok, second, c) = uni_can_channel_receive_to fake_ops_of c second;
     req_not ok;
     let (ok, _, c) = uni_can_channel_receive_to fake_ops_of c None;
     req_not ok
   }"

definition channel_receive_both_ways :: "unit option" where
  "channel_receive_both_ways = req_all (map receives_both_ways [FullTable, TableWithoutReceive])"

definition channel_receive_on_the_heap_only :: "unit option" where
  "channel_receive_on_the_heap_only = do {
     let channel = (fake_channel_new TableWithoutReceiveTo)\<lparr>fc_incoming := [fake_message 0x100 1]\<rparr>;
     let (ok, _, c) = uni_can_channel_receive_to fake_ops_of (Some channel) (Some can_message_zero);
     req_not ok;
     let (first, c) = uni_can_channel_receive fake_ops_of True c;
     m \<leftarrow> first;
     req (cm_id m = 0x100)
   }"


section \<open>Tests of J1939 signals\<close>

text \<open>
  The doubles of these tests, in the format of IEEE 754. The comparisons and the special values are exact
  for every double, the conversions for whole numbers below \<open>2^53\<close>, and the arithmetic where the second
  operand is zero or one, which is all the tests need, and for whole numbers.
\<close>

fun top_bit :: "nat \<Rightarrow> u64 \<Rightarrow> nat" where
  "top_bit 0 n = 0"
| "top_bit (Suc k) n = (if bit n (Suc k) then Suc k else top_bit k n)"

definition double_of :: "u64 \<Rightarrow> u64" where
  "double_of n = (if n = 0 then 0 else
     let e = top_bit 52 n in push_bit 52 (of_nat (1023 + e)) OR (push_bit (52 - e) n AND 0xFFFFFFFFFFFFF))"

definition double_exponent :: "u64 \<Rightarrow> nat" where
  "double_exponent v = unat (drop_bit 52 v AND 0x7FF)"

definition double_to :: "u64 \<Rightarrow> u64" where
  "double_to v = (let e = double_exponent v in
     if e < 1023 then 0 else drop_bit (1075 - e) (0x10000000000000 OR (v AND 0xFFFFFFFFFFFFF)))"

definition double_isnan :: "u64 \<Rightarrow> bool" where
  "double_isnan v \<longleftrightarrow> double_exponent v = 0x7FF \<and> v AND 0xFFFFFFFFFFFFF \<noteq> 0"

definition double_isinf :: "u64 \<Rightarrow> bool" where
  "double_isinf v \<longleftrightarrow> double_exponent v = 0x7FF \<and> v AND 0xFFFFFFFFFFFFF = 0"

definition double_order :: "u64 \<Rightarrow> int" where
  "double_order v = (if bit v 63 then - uint (v AND 0x7FFFFFFFFFFFFFFF) else uint v)"

definition double_greater :: "u64 \<Rightarrow> u64 \<Rightarrow> bool" where
  "double_greater a b \<longleftrightarrow> \<not> double_isnan a \<and> \<not> double_isnan b \<and> double_order a > double_order b"

definition double_fp :: fp where
  "double_fp = \<lparr>fp_nan = 0x7FF8000000000000, fp_isnan = double_isnan, fp_isinf = double_isinf, fp_greater = double_greater,
     fp_of_u64 = double_of, fp_to_u64 = double_to,
     fp_add = (\<lambda>a b. if b = 0 then a else double_of (double_to a + double_to b)),
     fp_sub = (\<lambda>a b. if b = 0 then a else double_of (double_to a - double_to b)),
     fp_mul = (\<lambda>a b. if b = 0x3FF0000000000000 then a else double_of (double_to a * double_to b)),
     fp_div = (\<lambda>a b. if b = 0x3FF0000000000000 then a else double_of (double_to a div double_to b))\<rparr>"

lemma double_constants:
  "double_of 1 = 0x3FF0000000000000" "double_of 128 = 0x4060000000000000" "double_of 250 = 0x406F400000000000"
  "double_of 260 = 0x4070400000000000"
  by code_simp+

definition test_signal :: "nat \<Rightarrow> uni_can_j1939_signal" where
  "test_signal n = \<lparr>jsig_id = n, jsig_length = 8, jsig_offset = 0, jsig_scale = 0x3FF0000000000000, jsig_val_min = 0, jsig_val_max = 0x406F400000000000,
     jsig_unit = [], jsig_type = SIGNAL_SLOT\<rparr>"

definition test_desc :: "nat list \<Rightarrow> uni_can_j1939_msg_desc" where
  "test_desc signals = \<lparr>jmd_pgn_number = 1, jmd_period = 0, jmd_signal = map test_signal signals\<rparr>"

definition test_j1939_message :: uni_can_message where
  "test_j1939_message = can_message_zero\<lparr>cm_id := uni_can_j1939_pgn_create 6 1 0 0, cm_flags := UNI_CAN_MSG_FLAG_EXT_ID,
     cm_len := 1, cm_data := Inline [0xFF, 0, 0, 0, 0, 0, 0, 0]\<rparr>"

definition j1939_sna_parse :: "unit option" where
  "j1939_sna_parse = do {
     let desc = test_desc [1];
     (ok, val) \<leftarrow> uni_can_j1939_msg_signal_get double_fp (Some test_j1939_message) (Some desc) 1 (Some 0);
     req ok;
     v \<leftarrow> val;
     req (fp_isnan double_fp v);
     (ok, val) \<leftarrow> uni_can_j1939_msg_signal_get double_fp (Some test_j1939_message) (Some desc) 2 val;
     req_not ok
   }"

text \<open>Setting a signal, and what a signal holds afterwards.\<close>

definition j1939_sets :: "uni_can_message \<Rightarrow> nat \<Rightarrow> u64 \<Rightarrow> uni_can_message option" where
  "j1939_sets m n v = do {
     (ok, m') \<leftarrow> uni_can_j1939_msg_signal_set double_fp (Some m) (Some (test_desc [1, 2, 3])) n (Some v);
     req ok;
     m'
   }"

definition j1939_holds :: "uni_can_message \<Rightarrow> nat \<Rightarrow> (u64 \<Rightarrow> bool) \<Rightarrow> unit option" where
  "j1939_holds m n P = do {
     (ok, val) \<leftarrow> uni_can_j1939_msg_signal_get double_fp (Some m) (Some (test_desc [1, 2, 3])) n (Some 0);
     req ok;
     v \<leftarrow> val;
     req (P v)
   }"

definition j1939_sna_send :: "unit option" where
  "j1939_sna_send = do {
     m \<leftarrow> j1939_sets test_j1939_message 1 (double_of 260);
     j1939_holds m 1 (fp_isnan double_fp);
     m \<leftarrow> j1939_sets test_j1939_message 1 (fp_nan double_fp);
     j1939_holds m 1 (fp_isnan double_fp);
     m \<leftarrow> j1939_sets test_j1939_message 1 0x7FF0000000000000;
     j1939_holds m 1 (fp_isnan double_fp);
     m \<leftarrow> j1939_sets test_j1939_message 1 (double_of 128);
     j1939_holds m 1 (\<lambda>v. \<not> fp_isnan double_fp v);
     m \<leftarrow> j1939_sets test_j1939_message 1 (double_of 128);
     m \<leftarrow> j1939_sets m 2 (double_of 128);
     j1939_holds m 1 (\<lambda>v. v = double_of 128);
     j1939_holds m 2 (\<lambda>v. v = double_of 128);
     j1939_holds m 3 (\<lambda>v. v = 0);
     m \<leftarrow> j1939_sets test_j1939_message 1 (double_of 128);
     m \<leftarrow> j1939_sets m 2 0x7FF0000000000000;
     j1939_holds m 1 (\<lambda>v. v = double_of 128);
     j1939_holds m 2 (fp_isnan double_fp);
     j1939_holds m 3 (\<lambda>v. v = 0)
   }"

section \<open>Tests of IMP\<close>

definition make_context :: "u8 \<Rightarrow> u32 \<Rightarrow> (uni_can_imp_msg \<Rightarrow> bool) option \<Rightarrow> uni_can_imp_ctx option" where
  "make_context address timeout_ms validator = do {
     let (ctx, ok) = uni_can_imp_init True (Some imp_ctx_zero) (Some
       \<lparr>imf_own_address = address, imf_max_sessions = 8, imf_max_message_size = 200, imf_session_timeout_ms = timeout_ms,
        imf_session_address_masks = None, imf_session_address_masks_count = 0, imf_message_validator = validator\<rparr>);
     req ok;
     ctx
   }"

definition imp_canid_mapping :: "unit option" where
  "imp_canid_mapping = (
     let can_id = uni_can_imp_canid_create 1 2 3 UNI_CAN_IMP_CMD_DATA
     in req_all [
       req (can_id = 0x02099000),
       req (uni_can_imp_canid_get_from can_id = 1),
       req (uni_can_imp_canid_get_to can_id = 2),
       req (uni_can_imp_canid_get_session_id can_id = 3),
       req (uni_can_imp_canid_get_command can_id = UNI_CAN_IMP_CMD_DATA)])"

text \<open>A call that must answer with a result code, and the command of the frame it leaves.\<close>

definition answers :: "uni_can_imp_result \<Rightarrow> imp_call \<Rightarrow> (uni_can_imp_ctx \<times> uni_can_imp_output) option" where
  "answers res call = do {
     let (ctx, out, r) = call;
     req (r = res);
     c \<leftarrow> ctx;
     x \<leftarrow> out;
     Some (c, x)
   }"

definition command_of :: "uni_can_imp_output \<Rightarrow> u32" where
  "command_of out = uni_can_imp_canid_get_command (cm_id (imo_frame out))"

definition imp_feed :: "uni_can_imp_ctx \<Rightarrow> uni_can_imp_output \<Rightarrow> u32 \<Rightarrow> uni_can_imp_output \<Rightarrow> imp_call" where
  "imp_feed ctx from now out = uni_can_imp_add_frame True heap_zeros (Some ctx) (Some (imo_frame from)) now (Some out)"

text \<open>The loop of the test without acknowledgements: it ends when a message has arrived.\<close>

fun without_ack_loop ::
  "nat \<Rightarrow> u32 \<Rightarrow> nat \<Rightarrow> uni_can_imp_ctx \<Rightarrow> uni_can_imp_ctx \<Rightarrow> uni_can_imp_output \<Rightarrow> uni_can_imp_output
    \<Rightarrow> (uni_can_imp_msg \<times> nat \<times> uni_can_imp_output) option" where
  "without_ack_loop 0 now frames sender receiver tx rx = None"
| "without_ack_loop (Suc fuel) now frames sender receiver tx rx = do {
     (sender, tx) \<leftarrow> answers IMP_OK (uni_can_imp_process (Some sender) now (Some tx));
     req (imo_frame_ready tx);
     (receiver, rx) \<leftarrow> answers IMP_OK (imp_feed receiver tx now rx);
     (case imo_received_message rx of
        Some m \<Rightarrow> Some (m, frames + 1, tx)
      | None \<Rightarrow> without_ack_loop fuel (now + 1) (frames + 1) sender receiver tx rx)
   }"

definition imp_transfer_without_ack :: "unit option" where
  "imp_transfer_without_ack = do {
     sender \<leftarrow> make_context 1 1000 None;
     receiver \<leftarrow> make_context 2 1000 None;
     let payload = map (\<lambda>i. of_nat (i + 1)) [0..<18];
     message \<leftarrow> uni_can_imp_msg_create True heap_zeros IMP_WITHOUT_ACK 1 2 (Some payload) 18;
     (sender, tx) \<leftarrow> answers IMP_OK (uni_can_imp_start_send heap_zeros (Some sender) (Some message) 0 (Some imp_output_zero));
     req (imo_frame_ready tx);
     req (command_of tx = UNI_CAN_IMP_CMD_START_WA);
     (receiver, rx) \<leftarrow> answers IMP_OK (imp_feed receiver tx 1 imp_output_zero);
     req_not (imo_frame_ready rx);
     (received, frames, tx) \<leftarrow> without_ack_loop 10 2 1 sender receiver tx rx;
     req (frames = 5);
     req (imo_event tx = IMP_EVENT_TX_FINISHED);
     req (imm_mode received = IMP_WITHOUT_ACK);
     req (imm_address_from received = 1);
     req (imm_address_to received = 2);
     req (imm_length received = 18);
     req (imm_data received = Some payload)
   }"

text \<open>The loop of the test with acknowledgements; it ends when the sender is finished.\<close>

fun with_ack_loop ::
  "nat \<Rightarrow> u32 \<Rightarrow> uni_can_imp_ctx \<Rightarrow> uni_can_imp_ctx \<Rightarrow> uni_can_imp_output \<Rightarrow> uni_can_imp_output \<Rightarrow> uni_can_imp_msg option
    \<Rightarrow> uni_can_imp_msg option option" where
  "with_ack_loop 0 now sender receiver sender_output receiver_output received = None"
| "with_ack_loop (Suc fuel) now sender receiver sender_output receiver_output received = do {
     req (imo_frame_ready receiver_output);
     (sender, sender_output) \<leftarrow> answers IMP_OK (imp_feed sender receiver_output now sender_output);
     (if imo_event sender_output = IMP_EVENT_TX_FINISHED then Some received
      else do {
        req (imo_frame_ready sender_output);
        (receiver, receiver_output) \<leftarrow> answers IMP_OK (imp_feed receiver sender_output (now + 1) receiver_output);
        with_ack_loop fuel (now + 2) sender receiver sender_output receiver_output
          (case imo_received_message receiver_output of None \<Rightarrow> received | Some m \<Rightarrow> Some m)
      })
   }"

definition imp_transfer_with_ack :: "unit option" where
  "imp_transfer_with_ack = do {
     sender \<leftarrow> make_context 7 1000 None;
     receiver \<leftarrow> make_context 3 1000 None;
     let payload = map (\<lambda>i. of_nat (0xA0 + i)) [0..<17];
     message \<leftarrow> uni_can_imp_msg_create True heap_zeros IMP_WITH_ACK 7 3 (Some payload) 17;
     (sender, sender_output) \<leftarrow> answers IMP_OK (uni_can_imp_start_send heap_zeros (Some sender) (Some message) 0 (Some imp_output_zero));
     req (uni_can_imp_canid_get_session_id (cm_id (imo_frame sender_output)) = 1);
     req (command_of sender_output = UNI_CAN_IMP_CMD_START);
     (receiver, receiver_output) \<leftarrow> answers IMP_OK (imp_feed receiver sender_output 1 imp_output_zero);
     req (imo_frame_ready receiver_output);
     req (command_of receiver_output = UNI_CAN_IMP_CMD_ACK);
     received \<leftarrow> with_ack_loop 10 2 sender receiver sender_output receiver_output None;
     received \<leftarrow> received;
     req (imm_session_id received = 1);
     req (imm_mode received = IMP_WITH_ACK);
     req (imm_length received = 17);
     req (imm_data received = Some payload)
   }"

definition imp_validator_rejects_message :: "unit option" where
  "imp_validator_rejects_message = do {
     sender \<leftarrow> make_context 1 1000 None;
     receiver \<leftarrow> make_context 2 1000 (Some (\<lambda>_. False));
     message \<leftarrow> uni_can_imp_msg_create True heap_zeros IMP_WITH_ACK 1 2 None 0;
     (sender, tx) \<leftarrow> answers IMP_OK (uni_can_imp_start_send heap_zeros (Some sender) (Some message) 0 (Some imp_output_zero));
     (receiver, rx) \<leftarrow> answers IMP_OK (imp_feed receiver tx 1 imp_output_zero);
     (sender, tx) \<leftarrow> answers IMP_OK (imp_feed sender rx 2 tx);
     req (command_of tx = UNI_CAN_IMP_CMD_END);
     (receiver, rx) \<leftarrow> answers IMP_MESSAGE_REJECTED (imp_feed receiver tx 3 rx);
     req (imo_event rx = IMP_EVENT_RX_ABORTED);
     req (imo_frame_ready rx);
     req (command_of rx = UNI_CAN_IMP_CMD_NACK);
     (sender, tx) \<leftarrow> answers IMP_MESSAGE_REJECTED (imp_feed sender rx 4 tx);
     req (imo_event tx = IMP_EVENT_TX_ABORTED)
   }"

definition imp_acked_transfer_times_out :: "unit option" where
  "imp_acked_transfer_times_out = do {
     sender \<leftarrow> make_context 1 10 None;
     message \<leftarrow> uni_can_imp_msg_create True heap_zeros IMP_WITH_ACK 1 2 None 0;
     (sender, out) \<leftarrow> answers IMP_OK (uni_can_imp_start_send heap_zeros (Some sender) (Some message) 0 (Some imp_output_zero));
     (sender, out) \<leftarrow> answers IMP_OK (uni_can_imp_process (Some sender) 10 (Some out));
     req (imo_event out = IMP_EVENT_NONE);
     (sender, out) \<leftarrow> answers IMP_OK (uni_can_imp_process (Some sender) 11 (Some out));
     req (imo_event out = IMP_EVENT_TX_TIMEOUT);
     req (imo_peer_address out = 2)
   }"

section \<open>They pass\<close>

named_theorems library_tests \<open>tests that end with every requirement met\<close>

lemma channel_null_is_refused_passes [library_tests]: "channel_null_is_refused = Some ()"
  by code_simp

lemma channel_missing_operations_are_refused_passes [library_tests]: "channel_missing_operations_are_refused = Some ()"
  by code_simp

lemma channel_calls_reach_the_backend_passes [library_tests]: "channel_calls_reach_the_backend = Some ()"
  by code_simp

lemma channel_receive_both_ways_passes [library_tests]: "channel_receive_both_ways = Some ()"
  by code_simp

lemma channel_receive_on_the_heap_only_passes [library_tests]: "channel_receive_on_the_heap_only = Some ()"
  by code_simp

lemma j1939_sna_parse_passes [library_tests]: "j1939_sna_parse = Some ()"
  by code_simp

text \<open>The messages of the test that sets signals, by their first two bytes.\<close>

abbreviation signals :: "u8 \<Rightarrow> u8 \<Rightarrow> uni_can_message" where
  "signals a b \<equiv> test_j1939_message\<lparr>cm_data := Inline [a, b, 0, 0, 0, 0, 0, 0]\<rparr>"

lemma j1939_test_sets:
  "j1939_sets test_j1939_message 1 (double_of 260) = Some (signals 0xFF 0)"
  "j1939_sets test_j1939_message 1 (fp_nan double_fp) = Some (signals 0xFF 0)"
  "j1939_sets test_j1939_message 1 0x7FF0000000000000 = Some (signals 0xFF 0)"
  "j1939_sets test_j1939_message 1 (double_of 128) = Some (signals 128 0)"
  "j1939_sets (signals 128 0) 2 (double_of 128) = Some (signals 128 128)"
  "j1939_sets (signals 128 0) 2 0x7FF0000000000000 = Some (signals 128 0xFF)"
  by (code_simp, code_simp, code_simp, code_simp, code_simp, code_simp)

lemma j1939_test_holds:
  "j1939_holds (signals 0xFF 0) 1 (fp_isnan double_fp) = Some ()"
  "j1939_holds (signals 128 0) 1 (\<lambda>v. \<not> fp_isnan double_fp v) = Some ()"
  "j1939_holds (signals 128 128) 1 (\<lambda>v. v = double_of 128) = Some ()"
  "j1939_holds (signals 128 128) 2 (\<lambda>v. v = double_of 128) = Some ()"
  "j1939_holds (signals 128 128) 3 (\<lambda>v. v = 0) = Some ()"
  "j1939_holds (signals 128 0xFF) 1 (\<lambda>v. v = double_of 128) = Some ()"
  "j1939_holds (signals 128 0xFF) 2 (fp_isnan double_fp) = Some ()"
  "j1939_holds (signals 128 0xFF) 3 (\<lambda>v. v = 0) = Some ()"
  by (code_simp, code_simp, code_simp, code_simp, code_simp, code_simp, code_simp, code_simp)

lemma j1939_sna_send_passes [library_tests]: "j1939_sna_send = Some ()"
  unfolding j1939_sna_send_def j1939_test_sets bind.bind_lunit j1939_test_holds by (rule refl)

lemma imp_canid_mapping_passes [library_tests]: "imp_canid_mapping = Some ()"
  by code_simp

lemma imp_transfer_without_ack_passes [library_tests]: "imp_transfer_without_ack = Some ()"
  by code_simp

lemma imp_transfer_with_ack_passes [library_tests]: "imp_transfer_with_ack = Some ()"
  by code_simp

lemma imp_validator_rejects_message_passes [library_tests]: "imp_validator_rejects_message = Some ()"
  by code_simp

lemma imp_acked_transfer_times_out_passes [library_tests]: "imp_acked_transfer_times_out = Some ()"
  by code_simp

end
