(* ===== verification/TestsProtoplexer.thy ===== *)
theory TestsProtoplexer
  imports TestsLibrary PpDelivery
begin

text \<open>
  The tests of ProtoPlexer without and with the heap (\<open>src_tests/protoplexer/uni_can_test_protoplexer.cpp\<close>,
  \<open>src_tests/protoplexer/uni_can_test_protoplexer_static.cpp\<close>), run on the model as in \<open>TestsLibrary\<close>.
  Memory of the application is part of the context; where a test compares pointers into it, the
  offset of the model is compared.
\<close>

section \<open>Frames\<close>

definition protoplexer_crc16_known_vectors :: "unit option" where
  "protoplexer_crc16_known_vectors = req_all [
     req (uni_can_protoplexer_crc16 [0x00] 1 = 0x0000),
     req (uni_can_protoplexer_crc16 [0x01] 1 = 0x1021)]"

definition protoplexer_canid_mapping :: "unit option" where
  "protoplexer_canid_mapping = (
     let can_id = uni_can_protoplexer_canid_create 0x011 0x001 0x01 True
     in req_all [
       req (can_id = 0x03011001),
       req (uni_can_protoplexer_canid_get_from can_id = 0x011),
       req (uni_can_protoplexer_canid_get_to can_id = 0x001),
       req (uni_can_protoplexer_canid_get_priority_inverted can_id = 0x01),
       req (uni_can_protoplexer_canid_get_is_first can_id)])"

definition chunk_config :: uni_can_protoplexer_config where
  "chunk_config = \<lparr>ppf_own_address = 0x001, ppf_max_chunk_length = 8, ppf_max_channels = 8, ppf_monitoring = False,
     ppf_max_payload = 0, ppf_rx_buffers = None, ppf_rx_payload = None\<rparr>"

definition make_pp :: "uni_can_protoplexer_config \<Rightarrow> uni_can_protoplexer_ctx option" where
  "make_pp cfg = do {
     let (ctx, ok) = uni_can_protoplexer_init True (Some pp_ctx_zero) (Some cfg);
     req ok;
     ctx
   }"

definition init_fails :: "uni_can_protoplexer_config \<Rightarrow> unit option" where
  "init_fails cfg = req_not (snd (uni_can_protoplexer_init True (Some pp_ctx_zero) (Some cfg)))"

text \<open>Chunks that must be accepted, and the last message they gave.\<close>

fun adds_ok ::
  "uni_can_protoplexer_ctx \<Rightarrow> uni_can_message list \<Rightarrow> uni_can_protoplexer_msg option
    \<Rightarrow> (uni_can_protoplexer_ctx \<times> uni_can_protoplexer_msg option) option" where
  "adds_ok ctx [] rx = Some (ctx, rx)"
| "adds_ok ctx (c # cs) rx = do {
     let (ctx', res, out) = uni_can_protoplexer_add_chunk heap_zeros True heap_zeros (Some ctx) (Some c) True;
     req (res = PP_OK);
     ctx \<leftarrow> ctx';
     adds_ok ctx cs (case out of None \<Rightarrow> rx | Some m \<Rightarrow> Some m)
   }"

definition protoplexer_fragment_and_reassemble :: "unit option" where
  "protoplexer_fragment_and_reassemble = do {
     let payload = map of_nat [0..<20];
     msg \<leftarrow> uni_can_protoplexer_msg_create True heap_zeros 0x0110 0x011 0x001 0x01 (Some payload) 20;
     let (res, chunks, count) = uni_can_protoplexer_build_chunks True (Some msg) 8 True;
     req (res = PP_OK);
     chunks \<leftarrow> chunks;
     req (count = 4);
     req (cm_len (chunks ! 0) = 8);
     req (uni_can_protoplexer_canid_get_is_first (cm_id (chunks ! 0)));
     req (cm_len (chunks ! 1) = 8);
     req_not (uni_can_protoplexer_canid_get_is_first (cm_id (chunks ! 1)));
     req (cm_len (chunks ! 2) = 8);
     req (cm_len (chunks ! 3) = 2);
     ctx \<leftarrow> make_pp chunk_config;
     (ctx, rx) \<leftarrow> adds_ok ctx (take count chunks) None;
     rx \<leftarrow> rx;
     req (ppm_message_id rx = 0x0110);
     req (ppm_address_from rx = 0x011);
     req (ppm_address_to rx = 0x001);
     req (ppm_priority_inverted rx = 0x01);
     req (ppm_length rx = 20);
     req (ppm_data rx = Some payload)
   }"

definition protoplexer_chunks_count :: "unit option" where
  "protoplexer_chunks_count = req_all [
     req (uni_can_protoplexer_chunks_count 0 8 = 1),
     req (uni_can_protoplexer_chunks_count 2 8 = 1),
     req (uni_can_protoplexer_chunks_count 3 8 = 2),
     req (uni_can_protoplexer_chunks_count 20 8 = 4),
     req (uni_can_protoplexer_chunks_count 0 6 = 1),
     req (uni_can_protoplexer_chunks_count 1 6 = 2),
     req (uni_can_protoplexer_chunks_count 0 5 = 0),
     req (uni_can_protoplexer_chunks_count 0 9 = 0)]"

text \<open>One message and one size of chunks of the comparison of the two ways of cutting.\<close>

definition cuts_alike :: "u16 \<Rightarrow> nat \<Rightarrow> unit option" where
  "cuts_alike mtu n = do {
     let msg = \<lparr>ppm_message_id = 0x0202, ppm_address_from = 0x011, ppm_address_to = 0x001, ppm_priority_inverted = 0x03,
       ppm_length = of_nat n, ppm_data = Some (map (\<lambda>i. of_nat (0xA0 + i)) [0..<37])\<rparr>;
     let (res, all, all_count) = uni_can_protoplexer_build_chunks True (Some msg) mtu True;
     req (res = PP_OK);
     req (all_count = uni_can_protoplexer_chunks_count (ppm_length msg) mtu);
     all \<leftarrow> all;
     req_all (map (\<lambda>i. do {
       let (res, one) = uni_can_protoplexer_build_chunk (Some msg) mtu i (Some can_message_zero);
       req (res = PP_OK);
       one \<leftarrow> one;
       req (cm_id one = cm_id (all ! i));
       req (cm_flags one = cm_flags (all ! i));
       req (cm_len one = cm_len (all ! i));
       req (take (unat (cm_len one)) (data_u8 (cm_data one)) = take (unat (cm_len one)) (data_u8 (cm_data (all ! i))))
     }) [0..<all_count]);
     req (fst (uni_can_protoplexer_build_chunk (Some msg) mtu all_count (Some can_message_zero)) = PP_FAILURE)
   }"

definition protoplexer_build_chunk_matches_build_chunks :: "unit option" where
  "protoplexer_build_chunk_matches_build_chunks =
     req_all (concat (map (\<lambda>mtu. map (cuts_alike mtu) [0, 1, 2, 3, 8, 37]) [6, 7, 8]))"

definition protoplexer_build_chunk_rejects_missing_data :: "unit option" where
  "protoplexer_build_chunk_rejects_missing_data = do {
     let msg = pp_msg_zero\<lparr>ppm_message_id := 0x0202, ppm_address_from := 0x011, ppm_address_to := 0x001, ppm_length := 4\<rparr>;
     req (fst (uni_can_protoplexer_build_chunk (Some msg) 8 0 (Some can_message_zero)) = PP_SEND_MSG_INVALID_SIZE);
     req (fst (uni_can_protoplexer_build_chunk (Some msg) 5 0 (Some can_message_zero)) = PP_SEND_MSG_HW_CANT_SEND_HEADER)
   }"


section \<open>Memory of the application\<close>

definition static_config :: uni_can_protoplexer_config where
  "static_config = \<lparr>ppf_own_address = 0x001, ppf_max_chunk_length = 8, ppf_max_channels = 2, ppf_monitoring = False,
     ppf_max_payload = 16, ppf_rx_buffers = Some (replicate 2 pp_rx_buffer_zero), ppf_rx_payload = Some (replicate 32 0)\<rparr>"

definition chunks_of :: "u16 \<Rightarrow> u16 \<Rightarrow> u8 list \<Rightarrow> uni_can_message list option" where
  "chunks_of msg_id from data = (
     let msg = \<lparr>ppm_message_id = msg_id, ppm_address_from = from, ppm_address_to = 0x001,
           ppm_priority_inverted = UNI_CAN_PROTOPLEXER_PRIORITY_MINIMAL, ppm_length = of_nat (length data), ppm_data = Some data\<rparr>
     in those (map (\<lambda>i. do {
          let (res, chunk) = uni_can_protoplexer_build_chunk (Some msg) 8 i (Some can_message_zero);
          req (res = PP_OK);
          chunk
        }) [0..<uni_can_protoplexer_chunks_count (ppm_length msg) 8]))"

definition protoplexer_static_init_checks_memory :: "unit option" where
  "protoplexer_static_init_checks_memory = do {
     init_fails (static_config\<lparr>ppf_max_channels := 0\<rparr>);
     init_fails (static_config\<lparr>ppf_rx_payload := None\<rparr>);
     ctx \<leftarrow> make_pp static_config;
     req (ppc_rx_static ctx);
     let (ctx, ok) = uni_can_protoplexer_init_static (Some pp_ctx_zero) (Some static_config);
     req ok;
     ctx \<leftarrow> ctx;
     req (ppc_rx_static ctx);
     req_not (snd (uni_can_protoplexer_init_static (Some pp_ctx_zero) (Some (static_config\<lparr>ppf_rx_buffers := None\<rparr>))))
   }"

text \<open>A chunk that must be answered with a result, and whether it completes a message.\<close>

definition views ::
  "uni_can_protoplexer_result \<Rightarrow> uni_can_protoplexer_ctx \<Rightarrow> uni_can_message
    \<Rightarrow> (uni_can_protoplexer_ctx \<times> uni_can_protoplexer_msg option) option" where
  "views res ctx chunk = do {
     let (ctx, r, msg) = uni_can_protoplexer_add_chunk_view heap_zeros (Some ctx) (Some chunk) True;
     req (r = res);
     ctx \<leftarrow> ctx;
     Some (ctx, msg)
   }"

fun views_ok ::
  "uni_can_protoplexer_ctx \<Rightarrow> uni_can_message list \<Rightarrow> uni_can_protoplexer_msg option
    \<Rightarrow> (uni_can_protoplexer_ctx \<times> uni_can_protoplexer_msg option) option" where
  "views_ok ctx [] last_out = Some (ctx, last_out)"
| "views_ok ctx (c # cs) last_out = do {
     (ctx, out) \<leftarrow> views PP_OK ctx c;
     views_ok ctx cs out
   }"

definition protoplexer_static_view_reassembles :: "unit option" where
  "protoplexer_static_view_reassembles = do {
     ctx \<leftarrow> make_pp static_config;
     let data = map (\<lambda>i. of_nat (i * 3)) [0..<16];
     chunks \<leftarrow> chunks_of 0x0110 0x011 data;
     req (length chunks = 3);
     (ctx, out) \<leftarrow> views PP_OK ctx (chunks ! 0);
     req (out = None);
     (ctx, out) \<leftarrow> views PP_OK ctx (chunks ! 1);
     req (out = None);
     (ctx, out) \<leftarrow> views PP_OK ctx (chunks ! 2);
     msg \<leftarrow> out;
     req (ppm_message_id msg = 0x0110);
     req (ppm_address_from msg = 0x011);
     req (ppm_address_to msg = 0x001);
     req (ppm_priority_inverted msg = UNI_CAN_PROTOPLEXER_PRIORITY_MINIMAL);
     req (ppm_length msg = 16);
     req (ppm_data msg = Some data);
     i \<leftarrow> ppc_rx_view ctx;
     ref \<leftarrow> rxb_payload (pp_buf ctx i);
     req (case ref of StaticAt off \<Rightarrow> off < 32 | HeapBlock _ \<Rightarrow> False)
   }"

definition protoplexer_static_view_empty_message :: "unit option" where
  "protoplexer_static_view_empty_message = do {
     ctx \<leftarrow> make_pp static_config;
     chunks \<leftarrow> chunks_of 0x0113 0x011 [];
     req (length chunks = 1);
     (ctx, out) \<leftarrow> views PP_OK ctx (chunks ! 0);
     msg \<leftarrow> out;
     req (ppm_message_id msg = 0x0113);
     req (ppm_length msg = 0)
   }"

definition protoplexer_static_refuses_long_message :: "unit option" where
  "protoplexer_static_refuses_long_message = do {
     ctx \<leftarrow> make_pp static_config;
     chunks \<leftarrow> chunks_of 0x0110 0x011 (replicate 17 0x55);
     (ctx, out) \<leftarrow> views PP_ADDING_CHUNK_CANT_ALLOCATE_DATA ctx (chunks ! 0);
     req (out = None);
     (ctx, out) \<leftarrow> views PP_ADDING_CHUNK_DATA_WITHOUT_HEADER ctx (chunks ! 1);
     Some ()
   }"

fun reuse_rounds :: "nat list \<Rightarrow> uni_can_protoplexer_ctx \<Rightarrow> unit option" where
  "reuse_rounds [] ctx = Some ()"
| "reuse_rounds (round # rounds) ctx = do {
     chunks \<leftarrow> chunks_of (0x0200 + of_nat round) (0x011 + of_nat round) (replicate 16 (of_nat round));
     (ctx, out) \<leftarrow> views_ok ctx chunks None;
     msg \<leftarrow> out;
     req (ppm_message_id msg = 0x0200 + of_nat round);
     data \<leftarrow> ppm_data msg;
     req (data ! 15 = of_nat round);
     reuse_rounds rounds ctx
   }"

definition protoplexer_static_reassembly_is_reused :: "unit option" where
  "protoplexer_static_reassembly_is_reused = do {
     ctx \<leftarrow> make_pp static_config;
     reuse_rounds [0..<10] ctx
   }"

definition completed_with :: "u16 \<Rightarrow> u8 \<Rightarrow> uni_can_protoplexer_msg option \<Rightarrow> unit option" where
  "completed_with msg_id byte out = do {
     msg \<leftarrow> out;
     req (ppm_message_id msg = msg_id);
     data \<leftarrow> ppm_data msg;
     req (data ! 0 = byte)
   }"

definition protoplexer_static_interleaved_senders :: "unit option" where
  "protoplexer_static_interleaved_senders = do {
     ctx \<leftarrow> make_pp static_config;
     a \<leftarrow> chunks_of 0x0301 0x021 (replicate 16 0xAA);
     b \<leftarrow> chunks_of 0x0302 0x022 (replicate 16 0xBB);
     req (length a = length b);
     (ctx, out) \<leftarrow> views_ok ctx [a ! 0, b ! 0, a ! 1, b ! 1] None;
     (ctx, out) \<leftarrow> views PP_OK ctx (a ! 2);
     completed_with 0x0301 0xAA out;
     (ctx, out) \<leftarrow> views PP_OK ctx (b ! 2);
     completed_with 0x0302 0xBB out;
     first \<leftarrow> chunks_of 0x0303 0x023 (replicate 16 0x11);
     second \<leftarrow> chunks_of 0x0304 0x024 (replicate 16 0x11);
     third \<leftarrow> chunks_of 0x0305 0x025 (replicate 16 0x11);
     (ctx, out) \<leftarrow> views PP_OK ctx (first ! 0);
     (ctx, out) \<leftarrow> views PP_OK ctx (second ! 0);
     (ctx, out) \<leftarrow> views PP_ADDING_CHUNK_CANT_ALLOCATE_NEW_MSG ctx (third ! 0);
     Some ()
   }"

text \<open>The view of one message is released when the next chunk comes.\<close>

fun view_rounds :: "nat \<Rightarrow> u8 list \<Rightarrow> uni_can_protoplexer_ctx \<Rightarrow> uni_can_protoplexer_ctx option" where
  "view_rounds 0 data ctx = Some ctx"
| "view_rounds (Suc n) data ctx = do {
     chunks \<leftarrow> chunks_of 0x0400 0x011 data;
     (ctx, out) \<leftarrow> views_ok ctx chunks None;
     msg \<leftarrow> out;
     req (ppm_length msg = of_nat (length data));
     req (ppm_data msg = Some data);
     view_rounds n data ctx
   }"

definition protoplexer_view_with_heap :: "unit option" where
  "protoplexer_view_with_heap = do {
     ctx \<leftarrow> make_pp (chunk_config\<lparr>ppf_max_channels := 4\<rparr>);
     ctx \<leftarrow> view_rounds 3 (map of_nat [0..<100]) ctx;
     req (snd (uni_can_protoplexer_deinit (Some ctx)) = 0)
   }"

definition protoplexer_heap_payload_limit :: "unit option" where
  "protoplexer_heap_payload_limit = do {
     ctx \<leftarrow> make_pp (chunk_config\<lparr>ppf_max_channels := 0, ppf_max_payload := 10\<rparr>);
     too_long \<leftarrow> chunks_of 0x0500 0x011 (replicate 11 0x02);
     let (ctx, res, rx) = uni_can_protoplexer_add_chunk heap_zeros True heap_zeros (Some ctx) (Some (too_long ! 0)) True;
     req (res = PP_ADDING_CHUNK_CANT_ALLOCATE_DATA);
     req (rx = None);
     ctx \<leftarrow> ctx;
     fits \<leftarrow> chunks_of 0x0501 0x011 (replicate 10 0x01);
     (ctx, rx) \<leftarrow> adds_ok ctx fits None;
     rx \<leftarrow> rx;
     req (ppm_length rx = 10)
   }"

definition protoplexer_rejects_oversized_frame :: "unit option" where
  "protoplexer_rejects_oversized_frame = do {
     ctx \<leftarrow> make_pp static_config;
     let chunk = can_message_zero\<lparr>
       cm_id := uni_can_protoplexer_canid_create 0x011 0x001 UNI_CAN_PROTOPLEXER_PRIORITY_MINIMAL True,
       cm_flags := UNI_CAN_MSG_FLAG_EXT_ID, cm_len := 9\<rparr>;
     (ctx, out) \<leftarrow> views PP_ADDING_CHUNK_INVALID_CHUNK ctx chunk;
     Some ()
   }"

section \<open>They pass\<close>

named_theorems protoplexer_tests \<open>tests that end with every requirement met\<close>

lemma protoplexer_crc16_known_vectors_passes [protoplexer_tests]: "protoplexer_crc16_known_vectors = Some ()"
  by code_simp

lemma protoplexer_canid_mapping_passes [protoplexer_tests]: "protoplexer_canid_mapping = Some ()"
  by code_simp

lemma protoplexer_fragment_and_reassemble_passes [protoplexer_tests]: "protoplexer_fragment_and_reassemble = Some ()"
  by code_simp

lemma protoplexer_chunks_count_passes [protoplexer_tests]: "protoplexer_chunks_count = Some ()"
  by code_simp

lemma req_all_pass: "(\<And>t. t \<in> set ts \<Longrightarrow> t = Some ()) \<Longrightarrow> req_all ts = Some ()"
  by (induction ts) auto

lemma chunks_loop_each:
  "(\<And>i. i \<in> set idxs \<Longrightarrow> uni_can_protoplexer_build_chunk (Some msg) m i (Some can_message_zero) = (PP_OK, Some (f i))) \<Longrightarrow>
    pp_build_chunks_loop msg m idxs = (PP_OK, map f idxs)"
  by (induction idxs) auto

lemma cuts_alike_passes:
  assumes "6 \<le> unat mtu" "unat mtu \<le> 8"
  shows "cuts_alike mtu n = Some ()"
proof -
  define msg where "msg = \<lparr>ppm_message_id = 0x0202, ppm_address_from = 0x011, ppm_address_to = 0x001,
    ppm_priority_inverted = 0x03, ppm_length = of_nat n, ppm_data = Some (map (\<lambda>i. of_nat (0xA0 + i)) [0..<37])\<rparr>"
  let ?count = "uni_can_protoplexer_chunks_count (ppm_length msg) mtu"
  define f where "f i = the (snd (uni_can_protoplexer_build_chunk (Some msg) mtu i (Some can_message_zero)))" for i
  have pos: "0 < ?count"
    by (rule chunks_count_pos [OF assms])
  have one: "uni_can_protoplexer_build_chunk (Some msg) mtu i (Some can_message_zero) = (PP_OK, Some (f i))" if "i < ?count" for i
    using that pos by (simp add: f_def msg_def uni_can_protoplexer_build_chunk_def Let_def)
  have "uni_can_protoplexer_build_chunks True (Some msg) mtu True = (PP_OK, Some (map f [0..<?count]), ?count)"
    using chunks_loop_each [of "[0..<?count]" msg mtu f] one pos by (simp add: uni_can_protoplexer_build_chunks_def Let_def)
  moreover have "fst (uni_can_protoplexer_build_chunk (Some msg) mtu ?count (Some can_message_zero)) = PP_FAILURE"
    using pos by (simp add: uni_can_protoplexer_build_chunk_def Let_def)
  ultimately show ?thesis
    unfolding cuts_alike_def msg_def [symmetric] Let_def
    by (simp add: req_def) (rule req_all_pass, auto simp: one req_def)
qed

lemma protoplexer_build_chunk_matches_build_chunks_passes [protoplexer_tests]: "protoplexer_build_chunk_matches_build_chunks = Some ()"
  unfolding protoplexer_build_chunk_matches_build_chunks_def by (rule req_all_pass) (auto simp: cuts_alike_passes)

lemma protoplexer_build_chunk_rejects_missing_data_passes [protoplexer_tests]: "protoplexer_build_chunk_rejects_missing_data = Some ()"
  by code_simp

lemma protoplexer_static_init_checks_memory_passes [protoplexer_tests]: "protoplexer_static_init_checks_memory = Some ()"
  by code_simp

lemma protoplexer_static_view_reassembles_passes [protoplexer_tests]: "protoplexer_static_view_reassembles = Some ()"
  by code_simp

lemma protoplexer_static_view_empty_message_passes [protoplexer_tests]: "protoplexer_static_view_empty_message = Some ()"
  by code_simp

lemma protoplexer_static_refuses_long_message_passes [protoplexer_tests]: "protoplexer_static_refuses_long_message = Some ()"
  by code_simp

lemma protoplexer_static_interleaved_senders_passes [protoplexer_tests]: "protoplexer_static_interleaved_senders = Some ()"
  by code_simp

lemma protoplexer_heap_payload_limit_passes [protoplexer_tests]: "protoplexer_heap_payload_limit = Some ()"
  by code_simp

lemma protoplexer_rejects_oversized_frame_passes [protoplexer_tests]: "protoplexer_rejects_oversized_frame = Some ()"
  by code_simp


section \<open>Whole transfers\<close>

text \<open>
  A transfer into a context that has none in progress, by the theorems on reassembly: every chunk is
  accepted, the last one completes the message, and the context is ready for the next.
\<close>

definition pp_ready :: "uni_can_protoplexer_ctx \<Rightarrow> bool" where
  "pp_ready ctx \<longleftrightarrow> pp_wf ctx \<and> pp_abs ctx = Map.empty \<and> 0 < unat (ppc_max_channels ctx) \<and> ppc_own_address ctx = 1"

lemma views_feed:
  assumes "pp_wf ctx" "dom (pp_abs ctx) \<subseteq> {s}" "0 < unat (ppc_max_channels ctx)"
    and "\<forall>f\<in>set fs. pp_frame_ok f \<and> pp_addressed (ppc_own_address ctx) (ppc_monitoring ctx) f \<and> pp_signature (cm_id f) = s"
    and "chan_feed (pp_admits heap_zeros ctx) (pp_abs ctx s) fs = replicate n (PP_OK, None) @ [(PP_OK, Some msg)]"
  shows "\<exists>c. views_ok ctx fs rx = Some (c, Some msg) \<and> pp_wf c \<and> pp_abs c = Map.empty \<and> pp_same_config ctx c"
  using assms
proof (induction fs arbitrary: ctx n rx)
  case (Cons f fs)
  obtain p r m where step: "chan_step (pp_admits heap_zeros ctx) (pp_abs ctx s) f = (p, r, m)"
    by (metis prod_cases3)
  have f: "pp_frame_ok f" "pp_addressed (ppc_own_address ctx) (ppc_monitoring ctx) f" "pp_signature (cm_id f) = s"
    using Cons.prems(4) by simp_all
  have "pp_abs ctx s = None \<Longrightarrow> dom (pp_abs ctx) = {}"
    using Cons.prems(2) by auto
  then have "pp_spec_of heap_zeros ctx f = ((pp_abs ctx)(s := p), r, m)"
    using f(2,3) step Cons.prems(3) by (auto simp: pp_spec_of_def pp_spec_add_def Let_def)
  from add_chunk_view_spec [OF Cons.prems(1) f(1) heap_totalD [OF heap_total_zeros] this]
  obtain c where c: "uni_can_protoplexer_add_chunk_view heap_zeros (Some ctx) (Some f) True = (Some c, r, m)"
    "pp_wf c" "pp_abs c = (pp_abs ctx)(s := p)" "pp_same_config ctx c"
    by blast
  have cfg: "ppc_own_address c = ppc_own_address ctx" "ppc_monitoring c = ppc_monitoring ctx" "ppc_max_channels c = ppc_max_channels ctx"
    using c(4) by (simp_all add: pp_same_config_def)
  show ?case
  proof (cases n)
    case 0
    then have last: "r = PP_OK" "m = Some msg" "fs = []"
      using Cons.prems(5) step by (cases fs; auto split: prod.splits)+
    then have "p = None"
      using chan_step_message step by blast
    then have "pp_abs c = Map.empty"
      using Cons.prems(2) by (auto simp: c(3) fun_eq_iff)
    with c last show ?thesis
      by (simp add: views_def req_def)
  next
    case (Suc n')
    then have more: "r = PP_OK" "m = None"
      "chan_feed (pp_admits heap_zeros ctx) p fs = replicate n' (PP_OK, None) @ [(PP_OK, Some msg)]"
      using Cons.prems(5) step by simp_all
    have "dom (pp_abs c) \<subseteq> {s}"
      using Cons.prems(2) by (auto simp: c(3) split: if_splits)
    moreover have "chan_feed (pp_admits heap_zeros c) (pp_abs c s) fs = replicate n' (PP_OK, None) @ [(PP_OK, Some msg)]"
      using more(3) by (simp add: c(3) pp_same_config_admits [OF c(4)])
    ultimately obtain d where "views_ok c fs None = Some (d, Some msg)" "pp_wf d" "pp_abs d = Map.empty" "pp_same_config c d"
      using Cons.IH [OF c(2), of n' None] Cons.prems(3,4) by (auto simp: cfg)
    with c(1,4) more(1,2) show ?thesis
      by (auto simp: views_def req_def intro: pp_same_config_trans)
  qed
qed simp

text \<open>The messages of the tests.\<close>

definition test_message :: "u16 \<Rightarrow> u16 \<Rightarrow> u8 list \<Rightarrow> uni_can_protoplexer_msg" where
  "test_message msg_id from data = \<lparr>ppm_message_id = msg_id, ppm_address_from = from, ppm_address_to = 0x001,
     ppm_priority_inverted = UNI_CAN_PROTOPLEXER_PRIORITY_MINIMAL, ppm_length = of_nat (length data), ppm_data = Some data\<rparr>"

lemma those_Some: "(\<And>i. i \<in> set is \<Longrightarrow> f i = Some (g i)) \<Longrightarrow> those (map f is) = Some (map g is)"
  by (induction "is") auto

lemma chunks_of_eq:
  assumes "length data < 65536"
  shows "chunks_of msg_id from data = Some (map (pp_chunk (test_message msg_id from data) 8)
    [0..<uni_can_protoplexer_chunks_count (of_nat (length data)) 8])"
proof -
  have "unat (of_nat (length data) :: u16) = length data"
    using assms by (simp add: unat_of_nat_u16)
  then have "pp_msg_wf (test_message msg_id from data)"
    by (simp add: pp_msg_wf_def pp_payload_def test_message_def)
  note chunk = build_chunk_eq [OF this, of 8, simplified]
  show ?thesis
    unfolding chunks_of_def Let_def test_message_def [symmetric]
    using chunk by (auto simp: req_def test_message_def intro!: those_Some)
qed

lemma views_message:
  assumes "pp_ready ctx" "pp_admits heap_zeros ctx (of_nat (length data))" "length data < 65536" "msg_id \<noteq> 0"
    and "uni_can_protoplexer_address_valid from"
  shows "\<exists>chunks c. chunks_of msg_id from data = Some chunks \<and>
    views_ok ctx chunks None = Some (c, Some (pp_received (test_message msg_id from data))) \<and> pp_ready c \<and> pp_same_config ctx c"
proof -
  let ?msg = "test_message msg_id from data"
  let ?n = "uni_can_protoplexer_chunks_count (of_nat (length data)) 8"
  have len: "unat (of_nat (length data) :: u16) = length data"
    using assms(3) by (simp add: unat_of_nat_u16)
  have "pp_sendable (pp_admits heap_zeros ctx) ?msg"
    using assms(2,4,5) len
    by (simp add: pp_sendable_def pp_msg_wf_def pp_payload_def test_message_def uni_can_protoplexer_address_valid_def pp_const_defs)
  from chan_feed_message [OF this, of 8 None]
  have feed: "chan_feed (pp_admits heap_zeros ctx) None (map (pp_chunk ?msg 8) [0..<?n]) =
      replicate (?n - 1) (PP_OK, None) @ [(PP_OK, Some (pp_received ?msg))]"
    by (simp add: test_message_def)
  let ?s = "pp_signature (uni_can_protoplexer_canid_create from 1 0 False)"
  have "\<forall>f\<in>set (map (pp_chunk ?msg 8) [0..<?n]). pp_frame_ok f \<and>
      pp_addressed (ppc_own_address ctx) (ppc_monitoring ctx) f \<and> pp_signature (cm_id f) = ?s"
    using assms(1) by (auto simp: pp_ready_def pp_addressed_def test_message_def intro: pp_signature_create)
  then obtain c where "views_ok ctx (map (pp_chunk ?msg 8) [0..<?n]) None = Some (c, Some (pp_received ?msg))"
    "pp_wf c" "pp_abs c = Map.empty" "pp_same_config ctx c"
    using views_feed [of ctx ?s "map (pp_chunk ?msg 8) [0..<?n]" "?n - 1" "pp_received ?msg" None] feed assms(1)
    by (auto simp: pp_ready_def)
  then show ?thesis
    using assms(1) chunks_of_eq [OF assms(3)] by (auto simp: pp_ready_def pp_same_config_def)
qed


lemma make_pp_init: "make_pp cfg = Some ctx \<longleftrightarrow> uni_can_protoplexer_init True (Some pp_ctx_zero) (Some cfg) = (Some ctx, True)"
  by (auto simp: make_pp_def req_def split: prod.splits if_splits)

lemma make_pp_ready:
  assumes "make_pp cfg = Some ctx" "ppc_own_address ctx = 1"
    and "\<And>m. ppf_rx_payload cfg = Some m \<Longrightarrow> length m = unat (ppf_max_channels cfg) * unat (ppf_max_payload cfg)"
  shows "pp_ready ctx"
  using init_fresh [of True pp_ctx_zero cfg ctx] assms by (auto simp: make_pp_init pp_ready_def word_gt_0 unat_gt_0)

lemma static_context:
  "\<exists>ctx. make_pp static_config = Some ctx \<and> pp_ready ctx \<and> ppc_rx_static ctx \<and> ppc_max_payload ctx = 16"
proof -
  obtain ctx where ctx: "make_pp static_config = Some ctx" "ppc_own_address ctx = 1" "ppc_rx_static ctx" "ppc_max_payload ctx = 16"
    by (auto simp: make_pp_init uni_can_protoplexer_init_def uni_can_protoplexer_init_static_def uni_can_protoplexer_init_common_def
        static_config_def pp_const_defs Let_def word_less_nat_alt)
  with make_pp_ready [OF ctx(1,2)] show ?thesis
    by (auto simp: static_config_def)
qed

lemma heap_context:
  "\<exists>ctx. make_pp (chunk_config\<lparr>ppf_max_channels := 4\<rparr>) = Some ctx \<and> pp_ready ctx \<and> ppc_max_payload ctx = 0 \<and> \<not> ppc_rx_static ctx"
proof -
  obtain ctx where ctx: "make_pp (chunk_config\<lparr>ppf_max_channels := 4\<rparr>) = Some ctx" "ppc_own_address ctx = 1"
    "ppc_max_payload ctx = 0" "\<not> ppc_rx_static ctx"
    by (auto simp: make_pp_init uni_can_protoplexer_init_def uni_can_protoplexer_init_common_def
        chunk_config_def pp_const_defs pp_ctx_zero_def Let_def word_less_nat_alt)
  with make_pp_ready [OF ctx(1,2)] show ?thesis
    by (auto simp: chunk_config_def)
qed

lemma view_rounds_pass:
  assumes "pp_ready ctx" "ppc_max_payload ctx = 0" "\<not> ppc_rx_static ctx" "0 < length data" "length data < 65536"
  shows "\<exists>c. view_rounds n data ctx = Some c \<and> pp_ready c"
  using assms(1-3)
proof (induction n arbitrary: ctx)
  case (Suc n)
  have "pp_admits heap_zeros ctx (of_nat (length data))"
    using Suc.prems by (simp add: pp_admits_def heap_zeros_def)
  from views_message [OF Suc.prems(1) this assms(5), of "0x400" "0x11"]
  obtain chunks c where c: "chunks_of 0x400 0x11 data = Some chunks"
    "views_ok ctx chunks None = Some (c, Some (pp_received (test_message 0x400 0x11 data)))" "pp_ready c" "pp_same_config ctx c"
    by (auto simp: uni_can_protoplexer_address_valid_def pp_const_defs word_le_nat_alt)
  have "(of_nat (length data) :: u16) \<noteq> 0"
    using assms(4,5) by (metis unat_of_nat_u16 neq0_conv unat_0)
  then have msg: "ppm_length (pp_received (test_message 0x400 0x11 data)) = of_nat (length data)"
    "ppm_data (pp_received (test_message 0x400 0x11 data)) = Some data"
    by (simp_all add: pp_received_def test_message_def pp_payload_def)
  obtain d where "view_rounds n data c = Some d" "pp_ready d"
    using Suc.IH [OF c(3)] Suc.prems(2,3) c(4) by (auto simp: pp_same_config_def)
  with c(1,2) msg show ?case
    by (simp add: req_def)
qed simp

lemma protoplexer_view_with_heap_passes [protoplexer_tests]: "protoplexer_view_with_heap = Some ()"
proof -
  obtain ctx where ctx: "make_pp (chunk_config\<lparr>ppf_max_channels := 4\<rparr>) = Some ctx" "pp_ready ctx" "ppc_max_payload ctx = 0" "\<not> ppc_rx_static ctx"
    using heap_context by blast
  obtain c where "view_rounds 3 (map of_nat [0..<100]) ctx = Some c" "pp_ready c"
    using view_rounds_pass [OF ctx(2-4), of "map of_nat [0..<100]" 3] by auto
  with ctx(1) deinit_frees_all [of c] show ?thesis
    by (simp add: protoplexer_view_with_heap_def pp_ready_def req_def)
qed

lemma reuse_rounds_pass:
  assumes "pp_ready ctx" "ppc_rx_static ctx" "ppc_max_payload ctx = 16" "\<forall>r\<in>set rounds. r < 10"
  shows "reuse_rounds rounds ctx = Some ()"
  using assms
proof (induction rounds arbitrary: ctx)
  case (Cons r rounds)
  have r: "unat (of_nat r :: u16) = r"
    using Cons.prems(4) by (simp add: unat_of_nat_u16)
  have ids: "0x200 + of_nat r \<noteq> (0 :: u16)" "uni_can_protoplexer_address_valid (0x11 + of_nat r)"
    using r Cons.prems(4)
    by (auto simp: uni_can_protoplexer_address_valid_def pp_const_defs word_le_nat_alt unat_word_ariths unat_eq_zero [symmetric]
        simp flip: unat_eq_zero)
  let ?data = "replicate 16 (of_nat r) :: u8 list"
  have "pp_admits heap_zeros ctx (of_nat (length ?data))"
    using Cons.prems by (simp add: pp_admits_def)
  from views_message [OF Cons.prems(1) this _ ids]
  obtain chunks c where c: "chunks_of (0x200 + of_nat r) (0x11 + of_nat r) ?data = Some chunks"
    "views_ok ctx chunks None = Some (c, Some (pp_received (test_message (0x200 + of_nat r) (0x11 + of_nat r) ?data)))"
    "pp_ready c" "pp_same_config ctx c"
    by auto
  have "reuse_rounds rounds c = Some ()"
    using Cons.IH [OF c(3)] Cons.prems(2-4) c(4) by (auto simp: pp_same_config_def)
  with c(1,2) show ?case
    by (simp add: req_def pp_received_def test_message_def pp_payload_def)
qed simp

lemma protoplexer_static_reassembly_is_reused_passes [protoplexer_tests]: "protoplexer_static_reassembly_is_reused = Some ()"
  using static_context reuse_rounds_pass [of _ "[0..<10]"] by (auto simp: protoplexer_static_reassembly_is_reused_def)

end
