(* ===== verification/TestsQueue.thy ===== *)
theory TestsQueue
  imports TestsLibrary PpQueue
begin

text \<open>
  The tests of ProtoPlexer with queues (\<open>src_tests/protoplexer/uni_can_test_protoplexer_queue.cpp\<close>), run
  on the model as in \<open>TestsLibrary\<close>: two nodes, each with a queue and a port, where what one sends is
  put on the wire into the other. A callback works on the port of its node and on the wire into the
  peer, if there is one. Each test starts with memory that is all zero, as when it is run alone: the
  static memory of the code keeps what an earlier test left in it.
\<close>

section \<open>Nodes\<close>

text \<open>\<open>UNI_CAN_PROTOPLEXER_QUEUE_STORAGE_DEFINITION\<close>: static memory, all zero.\<close>

definition queue_storage :: "nat \<Rightarrow> nat \<Rightarrow> nat \<Rightarrow> nat \<Rightarrow> uni_can_protoplexer_queue_storage" where
  "queue_storage channels payload inbox_count outbox_count = \<lparr>
     pqs_rx_buffers = Some (replicate channels pp_rx_buffer_zero),
     pqs_rx_payload = Some (replicate (channels * payload) 0),
     pqs_max_channels = of_nat channels,
     pqs_max_payload = of_nat payload,
     pqs_inbox = Some (replicate inbox_count \<lparr>pis_msg = pp_msg_zero, pis_data = None\<rparr>),
     pqs_inbox_payload = Some (replicate (inbox_count * payload) 0),
     pqs_inbox_size = inbox_count,
     pqs_outbox = Some (replicate outbox_count can_message_zero),
     pqs_outbox_size = outbox_count\<rparr>"

definition g_storage :: uni_can_protoplexer_queue_storage where
  "g_storage = queue_storage 4 24 2 6"

definition k_node_a :: u16 where "k_node_a = 0x001"
definition k_node_b :: u16 where "k_node_b = 0x011"

record test_port =
  tp_wire_in :: "uni_can_message list"
  tp_received :: "(u16 \<times> u16 \<times> u8 list) list"
  tp_hw_results :: "uni_can_protoplexer_hw_result list"
  tp_send_calls :: nat
  tp_refused :: bool

type_synonym test_node = "uni_can_protoplexer_queue \<times> test_port"
type_synonym test_world = "test_port \<times> uni_can_message list option"

definition send_chunk :: "test_world \<Rightarrow> uni_can_message \<Rightarrow> uni_can_protoplexer_hw_result \<times> test_world" where
  "send_chunk w chunk =
     (let (self, wire) = w;
          self = self\<lparr>tp_send_calls := tp_send_calls self + 1\<rparr>;
          (result, self) = (case tp_hw_results self of [] \<Rightarrow> (HW_OK, self) | r # rs \<Rightarrow> (r, self\<lparr>tp_hw_results := rs\<rparr>))
      in (result, (self, if result = HW_OK then map_option (\<lambda>cs. cs @ [chunk]) wire else wire)))"

definition receive_chunk :: "test_world \<Rightarrow> uni_can_message option \<times> test_world" where
  "receive_chunk w =
     (let (self, wire) = w
      in (case tp_wire_in self of
            [] \<Rightarrow> (None, w)
          | c # cs \<Rightarrow> (Some c, (self\<lparr>tp_wire_in := cs\<rparr>, wire))))"

definition rx_event ::
  "test_world \<Rightarrow> uni_can_protoplexer_queue \<Rightarrow> uni_can_protoplexer_msg \<Rightarrow> uni_can_protoplexer_queue \<times> test_world" where
  "rx_event w q msg =
     (let (self, wire) = w;
          data = take (unat (ppm_length msg)) (case ppm_data msg of None \<Rightarrow> [] | Some bs \<Rightarrow> bs)
      in (q, (self\<lparr>tp_received := tp_received self @ [(ppm_message_id msg, ppm_address_from msg, data)]\<rparr>, wire)))"

text \<open>
  The handler that answers: it notes when its own \<open>REQUIRE\<close> fails, and when it reads a byte of a
  message that has none.
\<close>

definition rx_answer ::
  "test_world \<Rightarrow> uni_can_protoplexer_queue \<Rightarrow> uni_can_protoplexer_msg \<Rightarrow> uni_can_protoplexer_queue \<times> test_world" where
  "rx_answer w q msg =
     (let (q, (self, wire)) = rx_event w q msg
      in (case ppm_data msg of
            Some (b # _) \<Rightarrow>
              (let (q', res) = uni_can_protoplexer_queue_send (Some q) 0x0702 k_node_b (ppm_address_from msg) 0 (Some [b + 1]) 1
               in (case q' of Some q \<Rightarrow> q | None \<Rightarrow> q, (self\<lparr>tp_refused := tp_refused self \<or> res \<noteq> PP_OK\<rparr>, wire)))
          | _ \<Rightarrow> (q, (self\<lparr>tp_refused := True\<rparr>, wire))))"

definition node_callbacks :: "test_world pp_queue_callbacks" where
  "node_callbacks = \<lparr>pqb_send_chunk = Some send_chunk, pqb_receive_chunk = Some receive_chunk, pqb_rx_event = Some rx_event\<rparr>"

definition responder_callbacks :: "test_world pp_queue_callbacks" where
  "responder_callbacks = node_callbacks\<lparr>pqb_rx_event := Some rx_answer\<rparr>"

definition queue_config :: "u16 \<Rightarrow> u32 \<Rightarrow> uni_can_protoplexer_queue_config" where
  "queue_config address attempts = \<lparr>pqc_own_address = address, pqc_max_chunk_length = 8, pqc_monitoring = False,
     pqc_send_attempts = attempts, pqc_storage = Some g_storage\<rparr>"

definition node_init :: "u16 \<Rightarrow> test_node option" where
  "node_init address = do {
     let (queue, ok) = uni_can_protoplexer_queue_init (Some pp_queue_zero) (Some (queue_config address 3));
     req ok;
     q \<leftarrow> queue;
     Some (q, \<lparr>tp_wire_in = [], tp_received = [], tp_hw_results = [], tp_send_calls = 0, tp_refused = False\<rparr>)
   }"

text \<open>A poll of a node, with its peer; the result code is the last component.\<close>

definition node_poll ::
  "(test_world pp_queue_callbacks \<Rightarrow> uni_can_protoplexer_queue option \<Rightarrow> test_world
      \<Rightarrow> uni_can_protoplexer_queue option \<times> test_world \<times> uni_can_protoplexer_result)
    \<Rightarrow> test_world pp_queue_callbacks \<Rightarrow> test_node \<Rightarrow> test_node option
    \<Rightarrow> (test_node \<times> test_node option \<times> uni_can_protoplexer_result) option" where
  "node_poll poll cb self peer = do {
     let (queue, (port, wire), res) = poll cb (Some (fst self)) (snd self, map_option (\<lambda>p. tp_wire_in (snd p)) peer);
     q \<leftarrow> queue;
     Some ((q, port),
       (case (peer, wire) of (Some (pq, pp), Some cs) \<Rightarrow> Some (pq, pp\<lparr>tp_wire_in := cs\<rparr>) | _ \<Rightarrow> peer), res)
   }"

abbreviation poll_tx :: "test_node \<Rightarrow> test_node option \<Rightarrow> (test_node \<times> test_node option \<times> uni_can_protoplexer_result) option" where
  "poll_tx \<equiv> node_poll uni_can_protoplexer_queue_poll_tx node_callbacks"

definition polls ::
  "uni_can_protoplexer_result \<Rightarrow> (test_node \<times> test_node option \<times> uni_can_protoplexer_result) option
    \<Rightarrow> (test_node \<times> test_node option) option" where
  "polls res p = do {
     (self, peer, r) \<leftarrow> p;
     req (r = res);
     Some (self, peer)
   }"

text \<open>\<open>pump\<close> and \<open>drain\<close>, for at most the given number of polls.\<close>

fun node_pump :: "nat \<Rightarrow> test_node \<Rightarrow> test_node option \<Rightarrow> (test_node \<times> test_node option) option" where
  "node_pump 0 self peer = None"
| "node_pump (Suc fuel) self peer = do {
     (self, peer, res) \<leftarrow> poll_tx self peer;
     (if res = PP_OK then node_pump fuel self peer else Some (self, peer))
   }"

fun drain_rx :: "nat \<Rightarrow> test_world pp_queue_callbacks \<Rightarrow> test_node \<Rightarrow> test_node option" where
  "drain_rx 0 cb self = None"
| "drain_rx (Suc fuel) cb self = do {
     (self, _, res) \<leftarrow> node_poll uni_can_protoplexer_queue_poll_rx cb self None;
     (if res \<noteq> PP_POLLING_RX_HW_RX_EMPTY then drain_rx fuel cb self else Some self)
   }"

fun drain_new :: "nat \<Rightarrow> test_world pp_queue_callbacks \<Rightarrow> test_node \<Rightarrow> test_node option" where
  "drain_new 0 cb self = None"
| "drain_new (Suc fuel) cb self = do {
     (self, _, res) \<leftarrow> node_poll uni_can_protoplexer_queue_poll_new cb self None;
     (if res = PP_OK then drain_new fuel cb self else Some self)
   }"

definition node_drain :: "test_world pp_queue_callbacks \<Rightarrow> test_node \<Rightarrow> test_node option" where
  "node_drain cb self = do {
     self \<leftarrow> drain_rx 20 cb self;
     drain_new 20 cb self
   }"

text \<open>Giving a message to a node, which must answer with a result.\<close>

definition sends ::
  "uni_can_protoplexer_result \<Rightarrow> test_node \<Rightarrow> u16 \<Rightarrow> u16 \<Rightarrow> u8 \<Rightarrow> u8 list option \<Rightarrow> u16 \<Rightarrow> test_node option" where
  "sends res self msg_id to prio data len = do {
     let (queue, r) = uni_can_protoplexer_queue_send (Some (fst self)) msg_id k_node_a to prio data len;
     req (r = res);
     q \<leftarrow> queue;
     Some (q, snd self)
   }"


section \<open>Tests\<close>

definition protoplexer_queue_init_checks_storage :: "unit option" where
  "protoplexer_queue_init_checks_storage = do {
     let cfg = queue_config k_node_a 0;
     let fails = (\<lambda>c. req_not (snd (uni_can_protoplexer_queue_init (Some pp_queue_zero) (Some c))));
     fails (cfg\<lparr>pqc_storage := None\<rparr>);
     fails (cfg\<lparr>pqc_storage := Some (g_storage\<lparr>pqs_outbox_size := 0\<rparr>)\<rparr>);
     fails (cfg\<lparr>pqc_storage := Some (g_storage\<lparr>pqs_inbox_payload := None\<rparr>)\<rparr>);
     fails (cfg\<lparr>pqc_max_chunk_length := 5\<rparr>);
     req (snd (uni_can_protoplexer_queue_init (Some pp_queue_zero) (Some cfg)));
     let idle = Some pp_queue_zero;
     let w = (\<lparr>tp_wire_in = [], tp_received = [], tp_hw_results = [], tp_send_calls = 0, tp_refused = False\<rparr>, None);
     req (snd (uni_can_protoplexer_queue_send idle 1 k_node_a k_node_b 0 None 0) = PP_FAILURE);
     req (snd (snd (uni_can_protoplexer_queue_poll_tx node_callbacks idle w)) = PP_POLLING_TX_BUFFER_EMPTY);
     req (snd (snd (uni_can_protoplexer_queue_poll_rx node_callbacks idle w)) = PP_POLLING_RX_HW_RX_EMPTY);
     req (snd (snd (uni_can_protoplexer_queue_poll_new node_callbacks idle w)) = PP_POLLING_NEW_NO_NEW_MESSAGES)
   }"

definition protoplexer_queue_roundtrip :: "unit option" where
  "protoplexer_queue_roundtrip = do {
     a \<leftarrow> node_init k_node_a;
     b \<leftarrow> node_init k_node_b;
     let data = map (\<lambda>i. of_nat (0x30 + i)) [0..<24];
     a \<leftarrow> sends PP_OK a 0x0202 k_node_b UNI_CAN_PROTOPLEXER_PRIORITY_MINIMAL (Some data) 24;
     req (ppq_outbox_count (fst a) = 4);
     a \<leftarrow> sends PP_OK a 0x0113 k_node_b UNI_CAN_PROTOPLEXER_PRIORITY_MINIMAL None 0;
     req (ppq_outbox_count (fst a) = 5);
     (a, b) \<leftarrow> node_pump 10 a (Some b);
     req (ppq_outbox_count (fst a) = 0);
     (a, b) \<leftarrow> polls PP_POLLING_TX_BUFFER_EMPTY (poll_tx a b);
     b \<leftarrow> b;
     let wire = tp_wire_in (snd b);
     req (length wire = 5);
     req (uni_can_protoplexer_canid_get_is_first (cm_id (wire ! 0)));
     req_not (uni_can_protoplexer_canid_get_is_first (cm_id (wire ! 1)));
     req (uni_can_protoplexer_canid_get_is_first (cm_id (wire ! 4)));
     b \<leftarrow> node_drain node_callbacks b;
     req (tp_received (snd b) = [(0x0202, k_node_a, data), (0x0113, k_node_a, [])]);
     (b, _) \<leftarrow> polls PP_POLLING_NEW_NO_NEW_MESSAGES (node_poll uni_can_protoplexer_queue_poll_new node_callbacks b None);
     Some ()
   }"

definition protoplexer_queue_send_limits :: "unit option" where
  "protoplexer_queue_send_limits = do {
     a \<leftarrow> node_init k_node_a;
     let data = replicate 25 0x77;
     a \<leftarrow> sends PP_SEND_MSG_INVALID_SIZE a 0x0202 k_node_b 0 (Some data) 25;
     a \<leftarrow> sends PP_SEND_MSG_INVALID_SIZE a 0x0202 k_node_b 0 None 4;
     a \<leftarrow> sends PP_OK a 0x0202 k_node_b 0 (Some data) 24;
     a \<leftarrow> sends PP_SEND_MSG_CANT_ADD_MESSAGE_CHUNKS a 0x0203 k_node_b 0 (Some data) 24;
     req (ppq_outbox_count (fst a) = 4);
     a \<leftarrow> sends PP_OK a 0x0204 k_node_b 0 (Some data) 2;
     a \<leftarrow> sends PP_OK a 0x0205 k_node_b 0 (Some data) 2;
     a \<leftarrow> sends PP_SEND_MSG_CANT_ADD_MESSAGE_CHUNKS a 0x0206 k_node_b 0 None 0;
     Some ()
   }"

fun wrap_rounds :: "nat list \<Rightarrow> test_node \<Rightarrow> test_node \<Rightarrow> unit option" where
  "wrap_rounds [] a b = Some ()"
| "wrap_rounds (round # rounds) a b = do {
     let data = replicate 10 (of_nat round);
     a \<leftarrow> sends PP_OK a (0x0300 + of_nat round) k_node_b 0 (Some data) 10;
     (a, b) \<leftarrow> node_pump 10 a (Some b);
     b \<leftarrow> b;
     b \<leftarrow> node_drain node_callbacks b;
     req (length (tp_received (snd b)) = round + 1);
     req (last (tp_received (snd b)) = (0x0300 + of_nat round, k_node_a, data));
     wrap_rounds rounds a b
   }"

definition protoplexer_queue_outbox_wraps :: "unit option" where
  "protoplexer_queue_outbox_wraps = do {
     a \<leftarrow> node_init k_node_a;
     b \<leftarrow> node_init k_node_b;
     wrap_rounds [0..<20] a b
   }"

definition with_results :: "uni_can_protoplexer_hw_result list \<Rightarrow> test_node \<Rightarrow> test_node" where
  "with_results rs self = (fst self, (snd self)\<lparr>tp_hw_results := rs\<rparr>)"

definition protoplexer_queue_resend_and_drop :: "unit option" where
  "protoplexer_queue_resend_and_drop = do {
     a \<leftarrow> node_init k_node_a;
     b \<leftarrow> node_init k_node_b;
     let data = replicate 2 0x42;
     a \<leftarrow> sends PP_OK a 0x0401 k_node_b 0 (Some data) 2;
     let a = with_results (replicate 4 HW_ERROR_RESEND_REQUIRED) a;
     (a, b) \<leftarrow> polls PP_OK (poll_tx a (Some b));
     (a, b) \<leftarrow> polls PP_OK (poll_tx a b);
     (a, b) \<leftarrow> polls PP_OK (poll_tx a b);
     (a, b) \<leftarrow> polls PP_HW_SEND_TOO_MANY_ATTEMPTS (poll_tx a b);
     req (ppq_outbox_count (fst a) = 1);
     req (tp_wire_in (snd (the b)) = []);
     (a, b) \<leftarrow> polls PP_OK (poll_tx a b);
     req (ppq_outbox_count (fst a) = 0);
     req (length (tp_wire_in (snd (the b))) = 1);
     a \<leftarrow> sends PP_OK a 0x0402 k_node_b 0 (Some data) 2;
     let a = with_results [HW_ERROR_NON_RECOVERABLE] a;
     (a, b) \<leftarrow> polls PP_HW_SEND_NON_RECOVERABLE (poll_tx a b);
     req (ppq_outbox_count (fst a) = 0);
     req (length (tp_wire_in (snd (the b))) = 1)
   }"

definition polls_rx :: "uni_can_protoplexer_result \<Rightarrow> test_node \<Rightarrow> test_node option" where
  "polls_rx res self = map_option fst (polls res (node_poll uni_can_protoplexer_queue_poll_rx node_callbacks self None))"

definition protoplexer_queue_inbox_full :: "unit option" where
  "protoplexer_queue_inbox_full = do {
     a \<leftarrow> node_init k_node_a;
     b \<leftarrow> node_init k_node_b;
     a \<leftarrow> sends PP_OK a 0x0500 k_node_b 0 (Some [0]) 1;
     a \<leftarrow> sends PP_OK a 0x0501 k_node_b 0 (Some [1]) 1;
     a \<leftarrow> sends PP_OK a 0x0502 k_node_b 0 (Some [2]) 1;
     (a, b) \<leftarrow> node_pump 10 a (Some b);
     b \<leftarrow> b;
     b \<leftarrow> polls_rx PP_OK b;
     b \<leftarrow> polls_rx PP_OK b;
     b \<leftarrow> polls_rx PP_ADDING_CHUNK_CANT_SAVE_MESSAGE b;
     b \<leftarrow> polls_rx PP_POLLING_RX_HW_RX_EMPTY b;
     b \<leftarrow> drain_new 10 node_callbacks b;
     req (tp_received (snd b) = [(0x0500, k_node_a, [0]), (0x0501, k_node_a, [1])]);
     a \<leftarrow> sends PP_OK a 0x0509 k_node_b 0 (Some [9]) 1;
     (a, b) \<leftarrow> node_pump 10 a (Some b);
     b \<leftarrow> b;
     b \<leftarrow> node_drain node_callbacks b;
     req (length (tp_received (snd b)) = 3);
     req (fst (last (tp_received (snd b))) = 0x0509)
   }"

definition protoplexer_queue_ignores_other_receivers :: "unit option" where
  "protoplexer_queue_ignores_other_receivers = do {
     a \<leftarrow> node_init k_node_a;
     b \<leftarrow> node_init k_node_b;
     a \<leftarrow> sends PP_OK a 0x0601 0x012 0 (Some [1]) 1;
     (a, b) \<leftarrow> node_pump 10 a (Some b);
     b \<leftarrow> b;
     b \<leftarrow> polls_rx PP_ADDING_CHUNK_UNRELATED_ADDRESS_TO b;
     (b, _) \<leftarrow> polls PP_POLLING_NEW_NO_NEW_MESSAGES (node_poll uni_can_protoplexer_queue_poll_new node_callbacks b None);
     Some ()
   }"

definition protoplexer_queue_send_from_rx_event :: "unit option" where
  "protoplexer_queue_send_from_rx_event = do {
     a \<leftarrow> node_init k_node_a;
     b \<leftarrow> node_init k_node_b;
     a \<leftarrow> sends PP_OK a 0x0701 k_node_b 0 (Some [41]) 1;
     (a, b) \<leftarrow> node_pump 10 a (Some b);
     b \<leftarrow> b;
     b \<leftarrow> node_drain responder_callbacks b;
     req_not (tp_refused (snd b));
     (b, a) \<leftarrow> node_pump 10 b (Some a);
     a \<leftarrow> a;
     a \<leftarrow> node_drain node_callbacks a;
     req (map (\<lambda>(mid, _, data). (mid, data)) (tp_received (snd a)) = [(0x0702, [42])])
   }"

section \<open>They pass\<close>

named_theorems queue_tests \<open>tests that end with every requirement met\<close>

lemma protoplexer_queue_init_checks_storage_passes [queue_tests]: "protoplexer_queue_init_checks_storage = Some ()"
  by code_simp

lemma protoplexer_queue_roundtrip_passes [queue_tests]: "protoplexer_queue_roundtrip = Some ()"
  by code_simp

lemma protoplexer_queue_send_limits_passes [queue_tests]: "protoplexer_queue_send_limits = Some ()"
  by code_simp

lemma protoplexer_queue_resend_and_drop_passes [queue_tests]: "protoplexer_queue_resend_and_drop = Some ()"
  by code_simp

lemma protoplexer_queue_inbox_full_passes [queue_tests]: "protoplexer_queue_inbox_full = Some ()"
  by code_simp

lemma protoplexer_queue_ignores_other_receivers_passes [queue_tests]: "protoplexer_queue_ignores_other_receivers = Some ()"
  by code_simp

lemma protoplexer_queue_send_from_rx_event_passes [queue_tests]: "protoplexer_queue_send_from_rx_event = Some ()"
  by code_simp


section \<open>Message after message\<close>

text \<open>
  The test that sends twenty messages through an outbox of six places follows from the lemmas of the
  queue: a round leaves both nodes as it found them, but for the message that was received.
\<close>

lemma send_loop_out_size: "ppq_out_size (fst (ppq_send_loop msg q idxs)) = ppq_out_size q"
proof (induction idxs arbitrary: q)
  case (Cons i idxs)
  have "ppq_out_size (q\<lparr>ppq_outbox_count := n\<rparr>) = ppq_out_size q" for n
    by (simp add: ppq_access_defs)
  with Cons show ?case
    by (simp add: Let_def split: prod.split option.split uni_can_protoplexer_result.split)
qed simp

lemma queue_send_out_size:
  "uni_can_protoplexer_queue_send (Some q) i f t p d l = (Some q', r) \<Longrightarrow> ppq_out_size q' = ppq_out_size q"
  by (auto simp: uni_can_protoplexer_queue_send_def Let_def split: if_splits prod.splits
      dest!: arg_cong [where f = "ppq_out_size \<circ> fst"] simp: send_loop_out_size)

lemma poll_tx_out_size:
  "uni_can_protoplexer_queue_poll_tx cb (Some q) w = (Some q', w', r) \<Longrightarrow> ppq_out_size q' = ppq_out_size q"
  by (auto simp: uni_can_protoplexer_queue_poll_tx_def uni_can_protoplexer_queue_outbox_pop_def ppq_access_defs Let_def
      split: if_splits option.splits prod.splits uni_can_protoplexer_hw_result.splits)

lemma node_pump_drains:
  assumes "ppq_wf q" "length (ppq_out q) < fuel" "tp_hw_results port = []"
  shows "\<exists>q' port'. node_pump fuel (q, port) (Some (pq, pp)) =
      Some ((q', port'), Some (pq, pp\<lparr>tp_wire_in := tp_wire_in pp @ ppq_out q\<rparr>)) \<and> tp_hw_results port' = [] \<and>
    ppq_wf q' \<and> ppq_out q' = [] \<and> ppq_protocol q' = ppq_protocol q \<and> ppq_out_size q' = ppq_out_size q"
  using assms
proof (induction fuel arbitrary: q port pp)
  case (Suc fuel)
  show ?case
  proof (cases "ppq_out q")
    case Nil
    then have "uni_can_protoplexer_queue_poll_tx cb (Some q) w = (Some q, w, PP_POLLING_TX_BUFFER_EMPTY)"
      for cb :: "test_world pp_queue_callbacks" and w
      by (simp add: uni_can_protoplexer_queue_poll_tx_def flip: ppq_out_Nil_iff)
    with Nil Suc.prems show ?thesis
      by (simp add: node_poll_def)
  next
    case (Cons c cs)
    let ?port = "port\<lparr>tp_send_calls := tp_send_calls port + 1\<rparr>"
    have "send_chunk (port, Some (tp_wire_in pp)) c = (HW_OK, (?port, Some (tp_wire_in pp @ [c])))"
      using Suc.prems(3) by (simp add: send_chunk_def)
    with poll_tx_ok [OF Suc.prems(1) Cons, of node_callbacks send_chunk "(port, Some (tp_wire_in pp))"]
    obtain q1 where q1: "uni_can_protoplexer_queue_poll_tx node_callbacks (Some q) (port, Some (tp_wire_in pp)) =
        (Some q1, (?port, Some (tp_wire_in pp @ [c])), PP_OK)" "ppq_wf q1" "ppq_out q1 = cs" "ppq_protocol q1 = ppq_protocol q"
      by (auto simp: node_callbacks_def)
    obtain q2 port2 where "node_pump fuel (q1, ?port) (Some (pq, pp\<lparr>tp_wire_in := tp_wire_in pp @ [c]\<rparr>)) =
        Some ((q2, port2), Some (pq, pp\<lparr>tp_wire_in := tp_wire_in pp @ ppq_out q\<rparr>))" "tp_hw_results port2 = []"
      "ppq_wf q2" "ppq_out q2 = []" "ppq_protocol q2 = ppq_protocol q1" "ppq_out_size q2 = ppq_out_size q1"
      using Suc.IH [OF q1(2), of ?port "pp\<lparr>tp_wire_in := tp_wire_in pp @ [c]\<rparr>"] Suc.prems(2,3) Cons q1(3) by auto
    with q1(1,4) poll_tx_out_size [OF q1(1)] show ?thesis
      by (simp add: node_poll_def)
  qed
qed simp

lemma drain_rx_feed:
  assumes "ppq_wf q" "dom (pp_abs (ppq_protocol q)) \<subseteq> {s}" "0 < unat (ppc_max_channels (ppq_protocol q))" "length fs < fuel"
    and "\<forall>f\<in>set fs. pp_frame_ok f \<and> pp_signature (cm_id f) = s \<and>
      pp_addressed (ppc_own_address (ppq_protocol q)) (ppc_monitoring (ppq_protocol q)) f"
    and "chan_feed (pp_admits heap_none (ppq_protocol q)) (pp_abs (ppq_protocol q) s) fs =
      replicate n (PP_OK, None) @ [(PP_OK, Some msg)]"
    and "ppq_in q = []" "0 < ppq_in_size q" "tp_wire_in port = fs"
  shows "\<exists>q'. drain_rx fuel node_callbacks (q, port) = Some (q', port\<lparr>tp_wire_in := []\<rparr>) \<and>
    ppq_wf q' \<and> pp_abs (ppq_protocol q') = Map.empty \<and> pp_same_config (ppq_protocol q) (ppq_protocol q') \<and>
    ppq_in q' = [msg] \<and> ppq_in_size q' = ppq_in_size q"
  using assms
proof (induction fs arbitrary: q n fuel port)
  case (Cons f fs)
  let ?ctx = "ppq_protocol q"
  obtain fuel' where fuel: "fuel = Suc fuel'" "length fs < fuel'"
    using Cons.prems(4) by (cases fuel) auto
  obtain p r m where step: "chan_step (pp_admits heap_none ?ctx) (pp_abs ?ctx s) f = (p, r, m)"
    by (metis prod_cases3)
  have f: "pp_frame_ok f" "pp_signature (cm_id f) = s" "pp_addressed (ppc_own_address ?ctx) (ppc_monitoring ?ctx) f"
    using Cons.prems(5) by simp_all
  have "pp_abs ?ctx s = None \<Longrightarrow> dom (pp_abs ?ctx) = {}"
    using Cons.prems(2) by auto
  then have "pp_spec_of heap_none ?ctx f = ((pp_abs ?ctx)(s := p), r, m)"
    using f(2,3) step Cons.prems(3) by (auto simp: pp_spec_of_def pp_spec_add_def Let_def)
  from queue_add_chunk_step [OF Cons.prems(1) f(1) this]
  obtain q1 where q1: "uni_can_protoplexer_queue_add_chunk (Some q) (Some f) = (Some q1, r)" "ppq_wf q1"
    "pp_abs (ppq_protocol q1) = (pp_abs ?ctx)(s := p)" "pp_same_config ?ctx (ppq_protocol q1)"
    "ppq_in q1 = (case m of None \<Rightarrow> [] | Some m \<Rightarrow> [m])" "ppq_in_size q1 = ppq_in_size q"
    using Cons.prems(7,8) by (cases m) auto
  have poll: "uni_can_protoplexer_queue_poll_rx node_callbacks (Some q) (port, None) =
      (Some q1, (port\<lparr>tp_wire_in := fs\<rparr>, None), r)"
    using Cons.prems(1,9) q1(1)
    by (simp add: uni_can_protoplexer_queue_poll_rx_def node_callbacks_def receive_chunk_def ppq_wf_def)
  have cfg: "ppc_own_address (ppq_protocol q1) = ppc_own_address ?ctx" "ppc_monitoring (ppq_protocol q1) = ppc_monitoring ?ctx"
    "ppc_max_channels (ppq_protocol q1) = ppc_max_channels ?ctx"
    using q1(4) by (simp_all add: pp_same_config_def)
  show ?case
  proof (cases n)
    case 0
    then have last: "r = PP_OK" "m = Some msg" "fs = []"
      using Cons.prems(6) step by (cases fs; auto split: prod.splits)+
    then have "p = None"
      using chan_step_message step by blast
    then have "pp_abs (ppq_protocol q1) = Map.empty"
      using Cons.prems(2) by (auto simp: q1(3) fun_eq_iff)
    moreover have "drain_rx fuel' node_callbacks (q1, port\<lparr>tp_wire_in := []\<rparr>) = Some (q1, port\<lparr>tp_wire_in := []\<rparr>)"
      using fuel(2) q1(2) by (cases fuel') (simp_all add: node_poll_def uni_can_protoplexer_queue_poll_rx_def
          node_callbacks_def receive_chunk_def ppq_wf_def)
    ultimately show ?thesis
      using q1(2,4-6) last poll fuel(1) by (simp add: node_poll_def)
  next
    case (Suc n')
    then have more: "r = PP_OK" "m = None"
      "chan_feed (pp_admits heap_none ?ctx) p fs = replicate n' (PP_OK, None) @ [(PP_OK, Some msg)]"
      using Cons.prems(6) step by simp_all
    have dom1: "dom (pp_abs (ppq_protocol q1)) \<subseteq> {s}"
      using Cons.prems(2) by (auto simp: q1(3) split: if_splits)
    have feed1: "chan_feed (pp_admits heap_none (ppq_protocol q1)) (pp_abs (ppq_protocol q1) s) fs =
        replicate n' (PP_OK, None) @ [(PP_OK, Some msg)]"
      using more(3) by (simp add: q1(3) pp_same_config_admits [OF q1(4)])
    obtain q2 where "drain_rx fuel' node_callbacks (q1, port\<lparr>tp_wire_in := fs\<rparr>) = Some (q2, port\<lparr>tp_wire_in := []\<rparr>)"
      "ppq_wf q2" "pp_abs (ppq_protocol q2) = Map.empty" "pp_same_config (ppq_protocol q1) (ppq_protocol q2)"
      "ppq_in q2 = [msg]" "ppq_in_size q2 = ppq_in_size q1"
      using Cons.IH [OF q1(2) dom1 _ fuel(2) _ feed1, of "port\<lparr>tp_wire_in := fs\<rparr>"] Cons.prems(3,5,8) q1(5,6) more(2)
      by (auto simp: cfg)
    with q1(4,6) more(1) poll fuel(1) show ?thesis
      by (auto simp: node_poll_def intro: pp_same_config_trans)
  qed
qed simp

lemma node_drain_feed:
  assumes "ppq_wf q" "dom (pp_abs (ppq_protocol q)) \<subseteq> {s}" "0 < unat (ppc_max_channels (ppq_protocol q))" "length fs < 20"
    and "\<forall>f\<in>set fs. pp_frame_ok f \<and> pp_signature (cm_id f) = s \<and>
      pp_addressed (ppc_own_address (ppq_protocol q)) (ppc_monitoring (ppq_protocol q)) f"
    and "chan_feed (pp_admits heap_none (ppq_protocol q)) (pp_abs (ppq_protocol q) s) fs =
      replicate n (PP_OK, None) @ [(PP_OK, Some msg)]"
    and "ppq_in q = []" "0 < ppq_in_size q" "tp_wire_in port = fs"
  shows "\<exists>q'. node_drain node_callbacks (q, port) = Some (q', port\<lparr>tp_wire_in := [], tp_received := tp_received port @
      [(ppm_message_id msg, ppm_address_from msg,
        take (unat (ppm_length msg)) (case ppm_data msg of None \<Rightarrow> [] | Some bs \<Rightarrow> bs))]\<rparr>) \<and>
    ppq_wf q' \<and> pp_abs (ppq_protocol q') = Map.empty \<and> pp_same_config (ppq_protocol q) (ppq_protocol q') \<and>
    ppq_in q' = [] \<and> ppq_in_size q' = ppq_in_size q"
proof -
  obtain q1 where q1: "drain_rx 20 node_callbacks (q, port) = Some (q1, port\<lparr>tp_wire_in := []\<rparr>)" "ppq_wf q1"
    "pp_abs (ppq_protocol q1) = Map.empty" "pp_same_config (ppq_protocol q) (ppq_protocol q1)" "ppq_in q1 = [msg]"
    "ppq_in_size q1 = ppq_in_size q"
    using drain_rx_feed [OF assms] by blast
  let ?port = "port\<lparr>tp_wire_in := [], tp_received := tp_received port @
      [(ppm_message_id msg, ppm_address_from msg,
        take (unat (ppm_length msg)) (case ppm_data msg of None \<Rightarrow> [] | Some bs \<Rightarrow> bs))]\<rparr>"
  have "rx_event (port\<lparr>tp_wire_in := []\<rparr>, None) q1 msg = (q1, (?port, None))"
    by (simp add: rx_event_def)
  with poll_new_takes [OF q1(2,5), of node_callbacks rx_event "(port\<lparr>tp_wire_in := []\<rparr>, None)"]
  obtain q2 where q2: "uni_can_protoplexer_queue_poll_new node_callbacks (Some q1) (port\<lparr>tp_wire_in := []\<rparr>, None) =
      (Some q2, (?port, None), PP_OK)" "ppq_wf q2" "ppq_in q2 = []"
    by (auto simp: node_callbacks_def)
  have same: "ppq_protocol q2 = ppq_protocol q1" "ppq_in_size q2 = ppq_in_size q1"
    using q2(1) q1(2)
    by (auto simp: uni_can_protoplexer_queue_poll_new_def node_callbacks_def rx_event_def ppq_access_defs Let_def ppq_wf_def
        split: if_splits)
  have "uni_can_protoplexer_queue_poll_new node_callbacks (Some q2) (?port, None) =
      (Some q2, (?port, None), PP_POLLING_NEW_NO_NEW_MESSAGES)"
    using q2(3) by (simp add: uni_can_protoplexer_queue_poll_new_def ppq_in_Nil_iff)
  with q2(1) have "drain_new 20 node_callbacks (q1, port\<lparr>tp_wire_in := []\<rparr>) = Some (q2, ?port)"
    by (simp add: node_poll_def numeral_eq_Suc)
  with q1 q2(2,3) same show ?thesis
    by (simp add: node_drain_def)
qed

text \<open>What a round needs of the sender and of the receiver, and leaves.\<close>

definition sender_ready :: "test_node \<Rightarrow> bool" where
  "sender_ready a \<longleftrightarrow> ppq_wf (fst a) \<and> ppq_out (fst a) = [] \<and> ppq_out_size (fst a) = 6 \<and>
     ppc_max_payload (ppq_protocol (fst a)) = 24 \<and> ppc_max_chunk_length (ppq_protocol (fst a)) = 8 \<and> tp_hw_results (snd a) = []"

definition receiver_ready :: "test_node \<Rightarrow> bool" where
  "receiver_ready b \<longleftrightarrow> ppq_wf (fst b) \<and> ppq_in (fst b) = [] \<and> 0 < ppq_in_size (fst b) \<and>
     pp_abs (ppq_protocol (fst b)) = Map.empty \<and> 0 < unat (ppc_max_channels (ppq_protocol (fst b))) \<and>
     ppc_max_payload (ppq_protocol (fst b)) = 24 \<and> ppc_rx_static (ppq_protocol (fst b)) \<and>
     ppc_own_address (ppq_protocol (fst b)) = k_node_b \<and> tp_wire_in (snd b) = []"

lemma round_passes:
  assumes "sender_ready a" "receiver_ready b" "msg_id \<noteq> 0"
  shows "\<exists>a1 a2 b1 b2. sends PP_OK a msg_id k_node_b 0 (Some (replicate 10 x)) 10 = Some a1 \<and>
    node_pump 10 a1 (Some b) = Some (a2, Some b1) \<and> node_drain node_callbacks b1 = Some b2 \<and>
    sender_ready a2 \<and> receiver_ready b2 \<and>
    tp_received (snd b2) = tp_received (snd b) @ [(msg_id, k_node_a, replicate 10 x)]"
proof -
  define msg where "msg = \<lparr>ppm_message_id = msg_id, ppm_address_from = k_node_a, ppm_address_to = k_node_b,
    ppm_priority_inverted = 0, ppm_length = 10, ppm_data = Some (replicate 10 x)\<rparr>"
  have count: "uni_can_protoplexer_chunks_count 10 8 = 2"
    by (simp add: uni_can_protoplexer_chunks_count_def pp_const_defs Let_def)
  let ?frames = "map (pp_chunk msg 8) [0..<2]"
  have a: "ppq_max_payload (fst a) = 24"
    using assms(1) by (auto simp: sender_ready_def ppq_wf_def ppq_protocol_wf_def ppq_max_payload_def)
  obtain q1 where q1: "uni_can_protoplexer_queue_send (Some (fst a)) msg_id k_node_a k_node_b 0 (Some (replicate 10 x)) 10 =
      (Some q1, PP_OK)" "ppq_wf q1" "ppq_out q1 = ?frames"
    using queue_send_ok [of "fst a" msg] assms(1) a count by (auto simp: msg_def sender_ready_def)
  have q1_same: "ppq_protocol q1 = ppq_protocol (fst a)"
    using queue_send_cases [of "fst a" msg] q1(1) assms(1) a count by (auto simp: msg_def sender_ready_def)
  obtain q2 port2 where pump: "node_pump 10 (q1, snd a) (Some (fst b, snd b)) =
      Some ((q2, port2), Some (fst b, (snd b)\<lparr>tp_wire_in := tp_wire_in (snd b) @ ppq_out q1\<rparr>))" "tp_hw_results port2 = []"
    "ppq_wf q2" "ppq_out q2 = []" "ppq_protocol q2 = ppq_protocol q1" "ppq_out_size q2 = ppq_out_size q1"
    using node_pump_drains [OF q1(2), of 10 "snd a" "fst b" "snd b"] q1(3) assms(1) by (auto simp: sender_ready_def)
  have sendable: "pp_sendable (pp_admits heap_none (ppq_protocol (fst b))) msg"
    using assms(2,3)
    by (simp add: receiver_ready_def msg_def pp_sendable_def pp_msg_wf_def pp_payload_def pp_admits_def
        uni_can_protoplexer_address_valid_def k_node_a_def k_node_b_def pp_const_defs word_le_nat_alt)
  have received: "pp_received msg = msg"
    by (simp add: msg_def pp_received_def pp_payload_def)
  have feed: "chan_feed (pp_admits heap_none (ppq_protocol (fst b))) None ?frames =
      replicate 1 (PP_OK, None) @ [(PP_OK, Some msg)]"
    using chan_feed_message [OF sendable, of 8 None] count by (simp add: received) (simp add: msg_def)
  obtain q3 where "node_drain node_callbacks (fst b, (snd b)\<lparr>tp_wire_in := ?frames\<rparr>) =
      Some (q3, (snd b)\<lparr>tp_wire_in := [], tp_received := tp_received (snd b) @ [(msg_id, k_node_a, replicate 10 x)]\<rparr>)"
    "ppq_wf q3" "pp_abs (ppq_protocol q3) = Map.empty" "pp_same_config (ppq_protocol (fst b)) (ppq_protocol q3)"
    "ppq_in q3 = []" "ppq_in_size q3 = ppq_in_size (fst b)"
    using node_drain_feed [of "fst b" "pp_signature (uni_can_protoplexer_canid_create k_node_a k_node_b 0 False)" ?frames 1 msg
        "(snd b)\<lparr>tp_wire_in := ?frames\<rparr>"] assms(2) feed
    by (auto simp: receiver_ready_def pp_addressed_def msg_def k_node_b_def intro: pp_signature_create)
  then show ?thesis
    using assms q1 q1_same pump queue_send_out_size [OF q1(1)]
    by (auto simp: sends_def req_def sender_ready_def receiver_ready_def pp_same_config_def)
qed

lemma wrap_rounds_pass:
  assumes "sender_ready a" "receiver_ready b" "length (tp_received (snd b)) = k" "k + n \<le> 1000"
  shows "wrap_rounds [k..<k + n] a b = Some ()"
  using assms
proof (induction n arbitrary: k a b)
  case (Suc n)
  have "unat (of_nat k :: u16) = k"
    using Suc.prems(4) by (simp add: unat_of_nat_u16)
  then have "0x300 + of_nat k \<noteq> (0 :: u16)"
    using Suc.prems(4) by (simp add: unat_word_ariths flip: unat_eq_zero)
  from round_passes [OF Suc.prems(1,2) this, of "of_nat k"]
  obtain a1 a2 b1 b2 where round: "sends PP_OK a (0x300 + of_nat k) k_node_b 0 (Some (replicate 10 (of_nat k))) 10 = Some a1"
    "node_pump 10 a1 (Some b) = Some (a2, Some b1)" "node_drain node_callbacks b1 = Some b2" "sender_ready a2"
    "receiver_ready b2" "tp_received (snd b2) = tp_received (snd b) @ [(0x300 + of_nat k, k_node_a, replicate 10 (of_nat k))]"
    by blast
  have "wrap_rounds [Suc k..<Suc k + n] a2 b2 = Some ()"
    using Suc.IH [OF round(4,5)] Suc.prems(3,4) round(6) by simp
  moreover have "[k..<k + Suc n] = k # [Suc k..<Suc k + n]"
    by (simp add: upt_conv_Cons)
  ultimately show ?case
    using round Suc.prems(3) by (simp add: req_def)
qed simp

lemma node_init_ready:
  "\<exists>a. node_init k_node_a = Some a \<and> sender_ready a"
  "\<exists>b. node_init k_node_b = Some b \<and> receiver_ready b \<and> tp_received (snd b) = []"
proof -
  have init: "\<exists>q. uni_can_protoplexer_queue_init (Some pp_queue_zero) (Some (queue_config adr 3)) = (Some q, True) \<and>
      ppq_out_size q = 6 \<and> ppq_in_size q = 2 \<and> ppc_max_payload (ppq_protocol q) = 24 \<and>
      ppc_max_chunk_length (ppq_protocol q) = 8 \<and> ppc_rx_static (ppq_protocol q) \<and>
      ppc_max_channels (ppq_protocol q) = 4 \<and> ppc_own_address (ppq_protocol q) = adr AND 0xFFF" for adr
    by (simp add: uni_can_protoplexer_queue_init_def uni_can_protoplexer_init_static_def uni_can_protoplexer_init_common_def
        queue_config_def g_storage_def queue_storage_def pp_queue_zero_def pp_const_defs ppq_access_defs ppq_storage_def Let_def
        word_less_nat_alt)
  have wf: "ppq_wf q \<and> ppq_out q = [] \<and> ppq_in q = [] \<and> pp_abs (ppq_protocol q) = Map.empty"
    if "uni_can_protoplexer_queue_init (Some pp_queue_zero) (Some (queue_config adr 3)) = (Some q, True)" for q adr
    by (rule queue_init_wf [OF that, of g_storage]) (auto simp: queue_config_def g_storage_def queue_storage_def)
  show "\<exists>a. node_init k_node_a = Some a \<and> sender_ready a"
    using init [of k_node_a] wf [of k_node_a] by (auto simp: node_init_def req_def sender_ready_def)
  show "\<exists>b. node_init k_node_b = Some b \<and> receiver_ready b \<and> tp_received (snd b) = []"
    using init [of k_node_b] wf [of k_node_b] by (auto simp: node_init_def req_def receiver_ready_def k_node_b_def)
qed

lemma protoplexer_queue_outbox_wraps_passes [queue_tests]: "protoplexer_queue_outbox_wraps = Some ()"
  using node_init_ready wrap_rounds_pass [of _ _ 0 20] by (fastforce simp: protoplexer_queue_outbox_wraps_def)

end
