(* ===== verification/BackendReader.thy ===== *)
theory BackendReader
  imports Factory TextNumbers
begin

text \<open>
  What the backends for the libraries of vendors share: copying the bytes of a frame between the
  message of the library and the structure of the vendor, the receive thread that turns the frames
  which wait in the driver into messages (the contract is the locale \<open>channel_reader\<close>), and the
  text the providers write into buffers of a fixed size.

  A call without defined behaviour (a null pointer that is followed, a copy past the end of a
  buffer) has the result \<open>None\<close>.
\<close>

section \<open>Copies\<close>

text \<open>\<open>memcpy(dst, src, n)\<close>: both blocks must hold \<open>n\<close> bytes.\<close>

definition copy_bytes :: "u8 list \<Rightarrow> u8 list \<Rightarrow> nat \<Rightarrow> u8 list option" where
  "copy_bytes dst src n =
     (if n \<le> length dst \<and> n \<le> length src then Some (blit dst 0 (take n src)) else None)"

lemma copy_bytes_None: "copy_bytes dst src n = None \<longleftrightarrow> length dst < n \<or> length src < n"
  by (auto simp: copy_bytes_def)

lemma copy_bytes_Some:
  "copy_bytes dst src n = Some r \<longleftrightarrow> n \<le> length dst \<and> n \<le> length src \<and> r = take n src @ drop n dst"
  by (auto simp: copy_bytes_def blit_def)

lemma copy_bytes_self: "n \<le> length bs \<Longrightarrow> copy_bytes bs bs n = Some bs"
  by (simp add: copy_bytes_Some)

text \<open>
  A new message, as the receive threads fill it: the object of \<open>uni_can_message_create\<close> is used
  without a test for null, and \<open>n\<close> bytes of \<open>src\<close> are copied into its data.
\<close>

definition received_message ::
  "bool \<Rightarrow> u64 \<Rightarrow> u32 \<Rightarrow> u32 \<Rightarrow> u16 \<Rightarrow> u8 list \<Rightarrow> nat \<Rightarrow> uni_can_message option" where
  "received_message calloc_ok time_us ident flags len src n =
     (case uni_can_message_create calloc_ok of
        None \<Rightarrow> None
      | Some msg \<Rightarrow>
          map_option (\<lambda>bs. msg\<lparr>cm_time_us := time_us, cm_id := ident, cm_flags := flags, cm_len := len, cm_data := Inline bs\<rparr>)
            (copy_bytes (data_u8 (cm_data msg)) src n))"

lemma received_message_Some:
  "n \<le> 8 \<Longrightarrow> n \<le> length src \<Longrightarrow> received_message True t i f l src n =
    Some \<lparr>cm_time_us = t, cm_id = i, cm_flags = f, cm_data = Inline (take n src @ replicate (8 - n) 0), cm_len = l\<rparr>"
  by (simp add: received_message_def uni_can_message_create_def can_message_zero_def copy_bytes_def blit_def
      UNI_CAN_MESSAGE_MAXLEN_def)

lemma received_message_no_memory [simp]: "received_message False t i f l src n = None"
  by (simp add: received_message_def uni_can_message_create_def)

lemma received_message_too_long: "8 < n \<Longrightarrow> received_message calloc_ok t i f l src n = None"
  by (simp add: received_message_def uni_can_message_create_def can_message_zero_def copy_bytes_def
      UNI_CAN_MESSAGE_MAXLEN_def)


section \<open>Text in buffers\<close>

text \<open>\<open>strcpy(dst, s)\<close> for a destination of \<open>room\<close> characters, the terminator included.\<close>

definition copy_text :: "nat \<Rightarrow> string \<Rightarrow> string option" where
  "copy_text room s = (if length s < room then Some s else None)"

lemma copy_text_eq [simp]: "copy_text room s = Some r \<longleftrightarrow> r = s \<and> length s < room"
  by (auto simp: copy_text_def)


section \<open>Members and constructors\<close>

text \<open>
  The members every channel class has from \<open>CanChannelBase\<close> beside the receiver and the thread, and
  the state of the vendor's library.
\<close>

record 'o vendor_channel =
  vn_info_dev :: uni_can_devinfo
  vn_info_chidx :: u8
  vn_info_baudrate :: u32
  vn_os :: 'o

definition fresh_channel_base :: "(unit, unit) can_channel_base" where
  "fresh_channel_base = \<lparr>cb_receive_func = None, cb_receive_cookie = (), cb_receive_queue = [], cb_thread = False,
     cb_thread_abort = False\<rparr>"

lemma fresh_channel_base_simps [simp]:
  "cb_receive_func fresh_channel_base = None" "cb_receive_queue fresh_channel_base = []"
  "\<not> cb_thread fresh_channel_base"
  by (simp_all add: fresh_channel_base_def)

text \<open>The queue of a channel that is opened or closed.\<close>

definition clear_queue :: "('f, 'c) can_channel_base \<Rightarrow> ('f, 'c) can_channel_base" where
  "clear_queue b = b\<lparr>cb_receive_queue := sq_clear (cb_receive_queue b)\<rparr>"

lemma clear_queue_simps [simp]:
  "cb_receive_queue (clear_queue b) = []" "cb_thread (clear_queue b) = cb_thread b"
  "cb_receive_func (clear_queue b) = cb_receive_func b"
  by (simp_all add: clear_queue_def sq_clear_def)


section \<open>The receive thread\<close>

text \<open>
  \<open>receive\<close> is what the thread does when the driver signals it; its second result are the calls of
  the handler. \<open>pending\<close> are the messages the frames in the driver stand for, \<open>left\<close> how many rounds
  take them all out.
\<close>

type_synonym 'x reader = "'x backend_channel \<Rightarrow> ('x backend_channel \<times> (unit \<times> unit) list) option"

fun receive_rounds :: "'x reader \<Rightarrow> nat \<Rightarrow> 'x reader" where
  "receive_rounds receive 0 ch = Some (ch, [])"
| "receive_rounds receive (Suc n) ch =
     (case receive ch of
        None \<Rightarrow> None
      | Some (ch, calls) \<Rightarrow> map_option (\<lambda>(ch, more_calls). (ch, calls @ more_calls)) (receive_rounds receive n ch))"

definition delivered :: "uni_can_message list \<Rightarrow> (unit, unit) can_channel_base \<Rightarrow> 'x
    \<Rightarrow> 'x backend_channel \<times> (unit \<times> unit) list" where
  "delivered ms b x = ((fst (channel_deliver_all ms b), x), snd (channel_deliver_all ms b))"

lemma deliver_all_append:
  "channel_deliver_all (ms @ ns) b =
    (fst (channel_deliver_all ns (fst (channel_deliver_all ms b))),
     snd (channel_deliver_all ms b) @ snd (channel_deliver_all ns (fst (channel_deliver_all ms b))))"
  by (induction ms arbitrary: b) (simp_all add: split_beta Let_def)

lemma delivered_Nil: "delivered [] b x = ((b, x), [])"
  by (simp add: delivered_def)

lemma delivered_queue: "cb_receive_queue (fst (fst (delivered ms b x))) = cb_receive_queue b @ ms"
  by (simp add: delivered_def channel_deliver_all_queue)

lemma delivered_calls:
  "snd (delivered ms b x) = (if cb_receive_func b = None then [] else replicate (length ms) ((), ()))"
proof (cases "cb_receive_func b")
  case None
  then have "snd (channel_deliver_all ms b) = []"
  proof (induction ms arbitrary: b)
    case (Cons m ms)
    then show ?case
      by (simp add: split_beta Let_def channel_deliver_def)
  qed simp
  with None show ?thesis
    by (simp add: delivered_def)
next
  case (Some f)
  then show ?thesis
    using channel_deliver_all_calls [OF Some, of ms] by (simp add: delivered_def)
qed

locale channel_reader =
  fixes receive :: "'x reader"
    and pending :: "'x \<Rightarrow> uni_can_message list"
    and left :: "'x \<Rightarrow> nat"
    and ok :: "'x \<Rightarrow> bool"
  assumes receive_delivers: "ok x \<Longrightarrow>
      \<exists>now x'. receive (b, x) = Some (delivered now b x') \<and> ok x' \<and> pending x = now @ pending x' \<and>
        left x' \<le> left x - 1"
    and nothing_left: "ok x \<Longrightarrow> left x = 0 \<Longrightarrow> pending x = []"
begin

text \<open>That many rounds deliver all of them, once and in order.\<close>

lemma rounds_deliver:
  assumes "ok x" "left x \<le> n"
  shows "\<exists>x'. receive_rounds receive n (b, x) = Some (delivered (pending x) b x') \<and> ok x' \<and> left x' = 0"
  using assms
proof (induction n arbitrary: b x)
  case 0
  then show ?case
    using nothing_left [of x] by (auto simp: delivered_Nil)
next
  case (Suc n)
  obtain now x1 where step: "receive (b, x) = Some (delivered now b x1)" "ok x1" "pending x = now @ pending x1"
    "left x1 \<le> left x - 1"
    using receive_delivers [OF Suc.prems(1), of b] by blast
  have "left x1 \<le> n"
    using step(4) Suc.prems(2) by simp
  then obtain x2 where rest: "receive_rounds receive n (fst (channel_deliver_all now b), x1) =
      Some (delivered (pending x1) (fst (channel_deliver_all now b)) x2)" "ok x2" "left x2 = 0"
    using Suc.IH [OF step(2), of "fst (channel_deliver_all now b)"] by blast
  have "receive_rounds receive (Suc n) (b, x) = Some (delivered (pending x) b x2)"
    using step(1,3) rest(1) by (simp add: delivered_def deliver_all_append)
  with rest(2,3) show ?case by blast
qed

text \<open>What the application then gets through the C functions, and how often its handler was called.\<close>

lemma rounds_reach_application:
  fixes a :: "('x backend_channel, 'f, 'c) CanChannelAdapter"
  assumes "ok x" "left x \<le> n" "backend_live a" "msgs = cb_receive_queue b @ pending x"
  shows "\<exists>ch calls. receive_rounds receive n (b, x) = Some (ch, calls) \<and>
    length calls = (if cb_receive_func b = None then 0 else length (pending x)) \<and>
    (\<exists>a'. channel_receive_n adapter_ops_of (length msgs) (Some (a\<lparr>ad_channel := ch\<rparr>)) = (map Some msgs, Some a'))"
proof -
  obtain x' where run: "receive_rounds receive n (b, x) = Some (delivered (pending x) b x')"
    using rounds_deliver [OF assms(1,2)] by blast
  obtain ch calls where d: "delivered (pending x) b x' = (ch, calls)"
    by (cases "delivered (pending x) b x'")
  have "calls = (if cb_receive_func b = None then [] else replicate (length (pending x)) ((), ()))"
    using delivered_calls [of "pending x" b x'] d by simp
  then have count: "length calls = (if cb_receive_func b = None then 0 else length (pending x))"
    by simp
  have "backend_live (a\<lparr>ad_channel := ch\<rparr>)"
    using assms(3) by (simp add: backend_live_def)
  moreover have "backend_pending (a\<lparr>ad_channel := ch\<rparr>) = msgs"
    using delivered_queue [of "pending x" b x'] d assms(4) by (simp add: backend_pending_def)
  ultimately show ?thesis
    using adapted.receive_all_in_order [of "a\<lparr>ad_channel := ch\<rparr>"] run d count by auto
qed

end


section \<open>Loops over the frames of a driver\<close>

text \<open>
  A loop \<open>do { ... } while (...)\<close> of a receive thread. One turn tells whether the loop goes on, the
  channel, and the calls of the handler; a turn without defined behaviour is \<open>None\<close>. The loop has the
  result \<open>None\<close> when it never ends and \<open>Some None\<close> when one of its turns has no defined behaviour.
\<close>

type_synonym 'x turn = "'x backend_channel \<Rightarrow> (bool \<times> 'x backend_channel \<times> (unit \<times> unit) list) option"

partial_function (option) do_while ::
  "'x turn \<Rightarrow> (unit \<times> unit) list \<Rightarrow> 'x backend_channel \<Rightarrow> ('x backend_channel \<times> (unit \<times> unit) list) option option" where
  "do_while turn calls ch =
     (case turn ch of
        None \<Rightarrow> Some None
      | Some (again, ch, call) \<Rightarrow>
          if again then do_while turn (calls @ call) ch else Some (Some (ch, calls @ call)))"

definition loop_result :: "'x turn \<Rightarrow> 'x reader" where
  "loop_result turn ch = (case do_while turn [] ch of None \<Rightarrow> None | Some r \<Rightarrow> r)"

lemma loop_resultD: "loop_result turn ch = Some r \<Longrightarrow> do_while turn [] ch = Some (Some r)"
  by (auto simp: loop_result_def split: option.splits)

lemma do_while_spins:
  assumes "\<And>ch. ok ch \<Longrightarrow> \<exists>ch' call. turn ch = Some (True, ch', call) \<and> ok ch'" "ok ch"
  shows "do_while turn calls ch = None"
proof -
  have spins: "(\<forall>ch. ok ch \<longrightarrow> (\<exists>ch' call. turn ch = Some (True, ch', call) \<and> ok ch')) \<longrightarrow> \<not> ok ch"
    if "do_while turn calls ch = Some r" for turn calls ch r
    using that
  proof (induction rule: do_while.raw_induct [rotated, consumes 1, case_names turn])
    case (turn loop turn calls ch r)
    show ?case
    proof (intro impI notI)
      assume ok: "ok ch" and law: "\<forall>ch. ok ch \<longrightarrow> (\<exists>ch' call. turn ch = Some (True, ch', call) \<and> ok ch')"
      then obtain ch' call where step: "turn ch = Some (True, ch', call)" "ok ch'" by blast
      with turn(2) have "loop turn (calls @ call) ch' = Some r" by simp
      from turn(1) [OF this] law step(2) show False by blast
    qed
  qed
  show ?thesis
  proof (cases "do_while turn calls ch")
    case (Some r)
    from spins [OF this] assms show ?thesis by blast
  qed simp
qed

lemma do_while_keeps:
  assumes "\<And>ch again ch' call. turn ch = Some (again, ch', call) \<Longrightarrow> I ch \<Longrightarrow> I ch'"
    and "do_while turn calls ch = Some (Some (ch', calls'))" "I ch"
  shows "I ch'"
proof -
  have keeps: "(\<forall>ch again ch' call. turn ch = Some (again, ch', call) \<longrightarrow> I ch \<longrightarrow> I ch') \<longrightarrow> I ch \<longrightarrow>
      (\<forall>ch' calls'. r = Some (ch', calls') \<longrightarrow> I ch')"
    if "do_while turn calls ch = Some r" for turn calls ch r
    using that
  proof (induction rule: do_while.raw_induct [rotated, consumes 1, case_names turn])
    case (turn loop turn calls ch r)
    show ?case
    proof (intro impI allI)
      fix ch' calls'
      assume law: "\<forall>ch again ch' call. turn ch = Some (again, ch', call) \<longrightarrow> I ch \<longrightarrow> I ch'"
        and held: "I ch" and r: "r = Some (ch', calls')"
      obtain again ch1 call where step: "turn ch = Some (again, ch1, call)"
        using turn(2) r by (auto split: option.splits)
      with law held have held1: "I ch1" by blast
      show "I ch'"
      proof (cases again)
        case True
        with turn(2) step have "loop turn (calls @ call) ch1 = Some r" by simp
        from turn(1) [OF this] law held1 r show ?thesis by blast
      next
        case False
        with turn(2) step r held1 show ?thesis by simp
      qed
    qed
  qed
  show ?thesis
    using keeps [OF assms(2)] assms(1,3) by blast
qed

text \<open>
  A loop that takes one frame (or one batch of them) out of the driver in every turn and ends when
  there is none left. \<open>incoming\<close> are the messages of a frame, none for one that is left out.
\<close>

locale frame_loop =
  fixes turn :: "'x turn"
    and frames :: "'x \<Rightarrow> 'n list"
    and incoming :: "'n \<Rightarrow> uni_can_message list"
    and ok :: "'x \<Rightarrow> bool"
  assumes turn_empty: "ok x \<Longrightarrow> frames x = [] \<Longrightarrow>
      \<exists>x'. turn (b, x) = Some (False, (b, x'), []) \<and> ok x' \<and> frames x' = []"
    and turn_frame: "ok x \<Longrightarrow> frames x = f # fs \<Longrightarrow>
      \<exists>x'. turn (b, x) = Some (True, fst (delivered (incoming f) b x'), snd (delivered (incoming f) b x')) \<and>
        ok x' \<and> frames x' = fs"
begin

lemma loop_drains:
  "ok x \<Longrightarrow> \<exists>x'. ok x' \<and> frames x' = [] \<and> do_while turn calls (b, x) =
    Some (Some (fst (delivered (concat (map incoming (frames x))) b x'),
      calls @ snd (delivered (concat (map incoming (frames x))) b x')))"
proof (induction "frames x" arbitrary: b x calls)
  case Nil
  then obtain x' where "turn (b, x) = Some (False, (b, x'), [])" "ok x'" "frames x' = []"
    using turn_empty [of x b] by auto
  with Nil(1) [symmetric] show ?case
    by (subst do_while.simps) (auto simp: delivered_Nil)
next
  case (Cons f fs)
  obtain x1 where step: "turn (b, x) = Some (True, fst (delivered (incoming f) b x1), snd (delivered (incoming f) b x1))"
    "ok x1" "frames x1 = fs"
    using turn_frame [OF Cons.prems Cons.hyps(2) [symmetric], of b] by blast
  let ?b = "fst (channel_deliver_all (incoming f) b)"
  obtain x2 where rest: "ok x2" "frames x2 = []" "do_while turn (calls @ snd (delivered (incoming f) b x1)) (?b, x1) =
      Some (Some (fst (delivered (concat (map incoming fs)) ?b x2),
        (calls @ snd (delivered (incoming f) b x1)) @ snd (delivered (concat (map incoming fs)) ?b x2)))"
    using Cons.hyps(1) [OF step(3) [symmetric] step(2), of "calls @ snd (delivered (incoming f) b x1)" ?b]
    by (auto simp: step(3))
  have "concat (map incoming (frames x)) = incoming f @ concat (map incoming fs)"
    by (simp add: Cons.hyps(2) [symmetric])
  with rest show ?case
    by (subst do_while.simps, intro exI [of _ x2]) (simp add: step(1) delivered_def deliver_all_append)
qed

end

sublocale frame_loop \<subseteq> channel_reader "loop_result turn" "\<lambda>x. concat (map incoming (frames x))"
  "\<lambda>x. if frames x = [] then 0 else 1" ok
proof
  fix x b
  assume "ok x"
  then obtain x' where "ok x'" "frames x' = []"
    "loop_result turn (b, x) = Some (delivered (concat (map incoming (frames x))) b x')"
    using loop_drains [of x "[]" b] by (auto simp: loop_result_def)
  then show "\<exists>now x'. loop_result turn (b, x) = Some (delivered now b x') \<and> ok x' \<and>
      concat (map incoming (frames x)) = now @ concat (map incoming (frames x')) \<and>
      (if frames x' = [] then 0 else 1) \<le> (if frames x = [] then 0 else 1) - (1 :: nat)"
    by (intro exI [of _ "concat (map incoming (frames x))"] exI [of _ x']) simp
qed (simp split: if_splits)

end
