(* ===== verification/PeakCan.thy ===== *)
theory PeakCan
  imports BackendReader
begin

text \<open>
  The backend for PEAK devices (\<open>src/backend_peak/can_peak_channel.cpp\<close>,
  \<open>src/backend_peak/can_peak_provider.cpp\<close>). The functions of PCANBasic and the events of Windows
  are the record \<open>'o pcan\<close> of functions over a state \<open>'o\<close>; the constants are those of \<open>PCANBasic.h\<close>.
  \<open>pcan_calloc\<close> says whether the process has memory for a message in a state.

  The thread has its event as a local variable; it is \<open>pk_event\<close> here. What the thread does before
  its loop and after it happens with the start and the stop of the thread.
\<close>

section \<open>Data\<close>

record peak_msg =
  pm_ID :: u32
  pm_MSGTYPE :: u8
  pm_LEN :: u8
  pm_DATA :: "u8 list"

record peak_timestamp =
  pt_millis :: u32
  pt_millis_overflow :: u16
  pt_micros :: u16

record peak_channel_info =
  pi_channel_handle :: u16
  pi_device_name :: string
  pi_device_id :: u32
  pi_channel_condition :: u32

record 'o pcan =
  CAN_Initialize :: "u16 \<Rightarrow> u16 \<Rightarrow> 'o \<Rightarrow> u32 \<times> 'o"
  CAN_Uninitialize :: "u16 \<Rightarrow> 'o \<Rightarrow> u32 \<times> 'o"
  CAN_Read :: "u16 \<Rightarrow> 'o \<Rightarrow> (u32 \<times> peak_msg \<times> peak_timestamp) \<times> 'o"
  CAN_Write :: "u16 \<Rightarrow> peak_msg \<Rightarrow> 'o \<Rightarrow> u32 \<times> 'o"
  CAN_SetReceiveEvent :: "u16 \<Rightarrow> int option \<Rightarrow> 'o \<Rightarrow> 'o"
  CAN_GetAttachedCount :: "'o \<Rightarrow> u32 \<times> u32"
  CAN_GetAttached :: "nat \<Rightarrow> 'o \<Rightarrow> u32 \<times> peak_channel_info list"
  win_CreateEvent :: "'o \<Rightarrow> int \<times> 'o"
  win_CloseHandle :: "int \<Rightarrow> 'o \<Rightarrow> 'o"
  pcan_calloc :: "'o \<Rightarrow> bool"

record 'o peak = "'o vendor_channel" +
  pk_event :: int

type_synonym 'o peak_channel = "'o peak backend_channel"

definition PCAN_ERROR_OK :: u32 where "PCAN_ERROR_OK = 0"
definition PCAN_ERROR_QRCVEMPTY :: u32 where "PCAN_ERROR_QRCVEMPTY = 0x20"
definition PCAN_MESSAGE_EXTENDED :: u8 where "PCAN_MESSAGE_EXTENDED = 0x02"
definition PCAN_MESSAGE_ERRFRAME :: u8 where "PCAN_MESSAGE_ERRFRAME = 0x40"
definition PCAN_MESSAGE_STATUS :: u8 where "PCAN_MESSAGE_STATUS = 0x80"
definition PCAN_CHANNEL_AVAILABLE :: u32 where "PCAN_CHANNEL_AVAILABLE = 1"

lemmas pcan_defs = PCAN_ERROR_OK_def PCAN_ERROR_QRCVEMPTY_def PCAN_MESSAGE_EXTENDED_def PCAN_MESSAGE_ERRFRAME_def
  PCAN_MESSAGE_STATUS_def PCAN_CHANNEL_AVAILABLE_def

abbreviation peak_handle :: "'o peak \<Rightarrow> u16" where
  "peak_handle x \<equiv> of_nat (dev_index (vn_info_dev x))"


section \<open>The channel\<close>

definition CanChannelPeak :: "'o \<Rightarrow> uni_can_devinfo \<Rightarrow> u32 \<Rightarrow> 'o peak_channel" where
  "CanChannelPeak s devInfo baudrate =
     (fresh_channel_base,
      \<lparr>vn_info_dev = devInfo, vn_info_chidx = 0, vn_info_baudrate = baudrate, vn_os = s, pk_event = 0\<rparr>)"

text \<open>The two conditions of the loop that leave a frame out, and the message of any other frame.\<close>

definition peak_skips :: "peak_msg \<Rightarrow> bool" where
  "peak_skips m \<longleftrightarrow> pm_MSGTYPE m AND PCAN_MESSAGE_STATUS = PCAN_MESSAGE_STATUS \<or>
     pm_MSGTYPE m AND PCAN_MESSAGE_ERRFRAME = PCAN_MESSAGE_ERRFRAME"

definition peak_message :: "bool \<Rightarrow> peak_msg \<times> peak_timestamp \<Rightarrow> uni_can_message option" where
  "peak_message calloc_ok = (\<lambda>(m, t).
     received_message calloc_ok
       (ucast (pt_micros t) + 1000 * ucast (pt_millis t) + 0x100000000 * 1000 * ucast (pt_millis_overflow t))
       (pm_ID m)
       (if pm_MSGTYPE m AND PCAN_MESSAGE_EXTENDED = PCAN_MESSAGE_EXTENDED then UNI_CAN_MSG_FLAG_EXT_ID
        else UNI_CAN_MSG_FLAG_STD_ID)
       (ucast (pm_LEN m)) (pm_DATA m) (unat (ucast (pm_LEN m) :: u16)))"

text \<open>
  One turn of the loop of \<open>threadProcReceive\<close>: whether the loop goes on, the channel, and the call of
  the handler. A status other than an empty queue is not looked at: the message is then what the driver
  left in the structure. Without memory for a message a null pointer is followed.
\<close>

definition peak_turn :: "'o pcan \<Rightarrow> 'o peak turn" where
  "peak_turn api = (\<lambda>(b, x).
     let ((stsResult, msg_p, time_p), s) = CAN_Read api (peak_handle x) (vn_os x);
         x = x\<lparr>vn_os := s\<rparr>;
         again = (stsResult AND PCAN_ERROR_QRCVEMPTY = 0)
     in if stsResult = PCAN_ERROR_QRCVEMPTY then Some (again, (b, x), [])
        else if peak_skips msg_p then Some (again, (b, x), [])
        else
          (case peak_message (pcan_calloc api s) (msg_p, time_p) of
             None \<Rightarrow> None
           | Some msg \<Rightarrow>
               (let (b, call) = channel_deliver msg b
                in Some (again, (b, x), (case call of None \<Rightarrow> [] | Some c \<Rightarrow> [c])))))"

text \<open>The event was signalled.\<close>

definition peak_threadProcReceive :: "'o pcan \<Rightarrow> 'o peak reader" where
  "peak_threadProcReceive api = loop_result (peak_turn api)"

text \<open>The thread before and after its loop.\<close>

definition peak_thread_begin :: "'o pcan \<Rightarrow> 'o peak \<Rightarrow> 'o peak" where
  "peak_thread_begin api x =
     (let (event, s) = win_CreateEvent api (vn_os x)
      in x\<lparr>pk_event := event, vn_os := CAN_SetReceiveEvent api (peak_handle x) (Some event) s\<rparr>)"

definition peak_thread_end :: "'o pcan \<Rightarrow> 'o peak \<Rightarrow> 'o peak" where
  "peak_thread_end api x =
     x\<lparr>vn_os := win_CloseHandle api (pk_event x) (CAN_SetReceiveEvent api (peak_handle x) None (vn_os x))\<rparr>"

definition peak_threadStop :: "'o pcan \<Rightarrow> 'o peak_channel \<Rightarrow> bool \<times> 'o peak_channel" where
  "peak_threadStop api = (\<lambda>(b, x).
     let (r, b') = threadStop b in (r, (b', if cb_thread b then peak_thread_end api x else x)))"

definition peak_threadStart :: "'o pcan \<Rightarrow> 'o peak_channel \<Rightarrow> bool \<times> 'o peak_channel" where
  "peak_threadStart api ch =
     (let (b, x) = snd (peak_threadStop api ch)
      in (True, (snd (threadStart b), peak_thread_begin api x)))"

definition peak_TransmitMessage ::
  "'o pcan \<Rightarrow> 'o peak_channel \<Rightarrow> uni_can_message \<Rightarrow> (bool \<times> 'o peak_channel) option" where
  "peak_TransmitMessage api = (\<lambda>(b, x) msg.
     map_option (\<lambda>bytes.
         let msg_p = \<lparr>pm_ID = cm_id msg,
               pm_MSGTYPE = (if cm_flags msg AND UNI_CAN_MSG_FLAG_EXT_ID \<noteq> 0 then PCAN_MESSAGE_EXTENDED else 0),
               pm_LEN = ucast (cm_len msg), pm_DATA = bytes\<rparr>;
             (sts, s) = CAN_Write api (peak_handle x) msg_p (vn_os x)
         in (sts = PCAN_ERROR_OK, (b, x\<lparr>vn_os := s\<rparr>)))
       (copy_bytes (replicate 8 0) (data_u8 (cm_data msg)) (unat (ucast (cm_len msg) :: u8))))"

definition peak_Init :: "'o peak_channel \<Rightarrow> bool \<times> 'o peak_channel" where
  "peak_Init ch = (True, ch)"

definition peak_DeInit :: "'o peak_channel \<Rightarrow> bool \<times> 'o peak_channel" where
  "peak_DeInit ch = (True, ch)"

definition peak_bitrate :: "u32 \<Rightarrow> u16 option" where
  "peak_bitrate baudrate =
     (if baudrate = 100000 then Some 0x432F
      else if baudrate = 125000 then Some 0x031C
      else if baudrate = 250000 then Some 0x011C
      else if baudrate = 500000 then Some 0x001C
      else if baudrate = 800000 then Some 0x0016
      else if baudrate = 1000000 then Some 0x0014
      else None)"

definition peak_Open :: "'o pcan \<Rightarrow> 'o peak_channel \<Rightarrow> bool \<times> 'o peak_channel" where
  "peak_Open api = (\<lambda>(b, x).
     let b = clear_queue b in
     case peak_bitrate (vn_info_baudrate x) of
       None \<Rightarrow> (False, (b, x))
     | Some bitrate \<Rightarrow>
         let (sts, s) = CAN_Initialize api (peak_handle x) bitrate (vn_os x); x = x\<lparr>vn_os := s\<rparr> in
         if sts \<noteq> PCAN_ERROR_OK then (False, (b, x))
         else (True, snd (peak_threadStart api (b, x))))"

definition peak_Close :: "'o pcan \<Rightarrow> 'o peak_channel \<Rightarrow> bool \<times> 'o peak_channel" where
  "peak_Close api ch =
     (let (b, x) = snd (peak_threadStop api ch);
          (sts, s) = CAN_Uninitialize api (peak_handle x) (vn_os x)
      in (sts = PCAN_ERROR_OK, (clear_queue b, x\<lparr>vn_os := s\<rparr>)))"

definition peak_destructor :: "'o pcan \<Rightarrow> 'o peak_channel \<Rightarrow> 'o peak_channel" where
  "peak_destructor api ch = snd (peak_DeInit (snd (peak_Close api ch)))"

text \<open>The virtual functions; a transmission without defined behaviour has the entry \<open>False\<close>.\<close>

definition peak_vtable :: "'o pcan \<Rightarrow> 'o peak_channel ICanChannel" where
  "peak_vtable api = backend_vtable peak_Init peak_DeInit (peak_Open api) (peak_Close api)
     (\<lambda>ch msg. case peak_TransmitMessage api ch msg of None \<Rightarrow> (False, ch) | Some r \<Rightarrow> r)"


section \<open>The provider\<close>

text \<open>The state of the provider is whether it was initialised.\<close>

definition peak_provider_Init :: "bool \<Rightarrow> bool" where
  "peak_provider_Init inited = (if \<not> inited then True else inited)"

definition peak_provider_IsInited :: "bool \<Rightarrow> bool" where
  "peak_provider_IsInited inited = inited"

definition peak_provider_name :: string where
  "peak_provider_name = ''pcan''"

definition peak_devinfo :: "peak_channel_info \<Rightarrow> uni_can_devinfo option" where
  "peak_devinfo info =
     (case (copy_text UNI_CAN_DEVINFO_FIELDLEN (pi_device_name info),
            copy_text 8 (''0x'' @ show_hex (unat (pi_device_id info)))) of
        (Some model, Some chnum) \<Rightarrow>
          Some \<lparr>dev_manufacturer = ''PEAK-System'', dev_model = model, dev_sn = chnum, dev_provider = peak_provider_name,
            dev_index = unat (pi_channel_handle info), dev_chancnt = 1\<rparr>
      | _ \<Rightarrow> None)"

fun peak_devices :: "peak_channel_info list \<Rightarrow> uni_can_devinfo list option" where
  "peak_devices [] = Some []"
| "peak_devices (info # infos) =
     (if pi_channel_condition info AND PCAN_CHANNEL_AVAILABLE \<noteq> 0
      then (case peak_devinfo info of
              None \<Rightarrow> None
            | Some devinfo \<Rightarrow> map_option ((#) devinfo) (peak_devices infos))
      else peak_devices infos)"

definition peak_GetDeviceInfo :: "'o pcan \<Rightarrow> 'o \<Rightarrow> bool \<Rightarrow> uni_can_devinfo list option" where
  "peak_GetDeviceInfo api s inited =
     (if \<not> inited then Some []
      else
        let (sts, chan_count) = CAN_GetAttachedCount api s in
        if sts \<noteq> PCAN_ERROR_OK then Some []
        else if chan_count = 0 then Some []
        else
          let (sts, chan_info) = CAN_GetAttached api (unat chan_count) s in
          if sts \<noteq> PCAN_ERROR_OK then Some [] else peak_devices chan_info)"

definition peak_CreateChannel ::
  "'o pcan \<Rightarrow> 'o \<Rightarrow> uni_can_devinfo option \<Rightarrow> nat \<Rightarrow> u32 \<Rightarrow> 'o peak_channel channel_object option" where
  "peak_CreateChannel api s devInfo channelIdx baudrate =
     (case devInfo of
        None \<Rightarrow> None
      | Some d \<Rightarrow> if baudrate \<noteq> 0 then Some (peak_vtable api, CanChannelPeak s d baudrate) else None)"


section \<open>Receiving\<close>

text \<open>
  What reading the driver gives up to the first status that says that its queue is empty: each status
  and what is then in the structures for the message and its time, with whether there is memory for a
  message at that moment.
\<close>

type_synonym pcan_answer = "u32 \<times> peak_msg \<times> peak_timestamp \<times> bool"

inductive pcan_answers :: "'o pcan \<Rightarrow> u16 \<Rightarrow> 'o \<Rightarrow> pcan_answer list \<Rightarrow> bool" for api h where
  answers_end: "CAN_Read api h s = ((sts, m, t), s') \<Longrightarrow> sts AND PCAN_ERROR_QRCVEMPTY \<noteq> 0 \<Longrightarrow>
    pcan_answers api h s [(sts, m, t, pcan_calloc api s')]"
| answers_more: "CAN_Read api h s = ((sts, m, t), s') \<Longrightarrow> sts AND PCAN_ERROR_QRCVEMPTY = 0 \<Longrightarrow> pcan_answers api h s' as \<Longrightarrow>
    pcan_answers api h s ((sts, m, t, pcan_calloc api s') # as)"

text \<open>The messages of the answers that are not left out; none at all when one of them cannot be made.\<close>

definition peak_kept :: "pcan_answer list \<Rightarrow> pcan_answer list" where
  "peak_kept answers = filter (\<lambda>(sts, m, _). sts \<noteq> PCAN_ERROR_QRCVEMPTY \<and> \<not> peak_skips m) answers"

definition peak_queued :: "pcan_answer list \<Rightarrow> uni_can_message list option" where
  "peak_queued answers = those (map (\<lambda>(_, m, t, calloc_ok). peak_message calloc_ok (m, t)) (peak_kept answers))"

lemma those_map_None: "those (map f xs) = None \<longleftrightarrow> (\<exists>x\<in>set xs. f x = None)"
  by (induction xs) (auto split: option.split)

lemma peak_message_None:
  "peak_message calloc_ok (m, t) = None \<longleftrightarrow> \<not> calloc_ok \<or> 8 < unat (pm_LEN m) \<or> length (pm_DATA m) < unat (pm_LEN m)"
proof -
  have "unat (ucast (pm_LEN m) :: u16) = unat (pm_LEN m)"
    by (rule unat_ucast_u8_u16)
  then show ?thesis
    by (cases calloc_ok)
      (auto simp: peak_message_def received_message_def uni_can_message_create_def can_message_zero_def copy_bytes_None
        UNI_CAN_MESSAGE_MAXLEN_def)
qed

lemma peak_turn_read:
  assumes "CAN_Read api (peak_handle x) (vn_os x) = ((sts, m, t), s)"
  shows "peak_turn api (b, x) =
    (if sts = PCAN_ERROR_QRCVEMPTY \<or> peak_skips m then Some (sts AND PCAN_ERROR_QRCVEMPTY = 0, (b, x\<lparr>vn_os := s\<rparr>), [])
     else map_option (\<lambda>msg. (sts AND PCAN_ERROR_QRCVEMPTY = 0, fst (delivered [msg] b (x\<lparr>vn_os := s\<rparr>)),
         snd (delivered [msg] b (x\<lparr>vn_os := s\<rparr>)))) (peak_message (pcan_calloc api s) (m, t)))"
  by (simp add: peak_turn_def assms Let_def delivered_def split_beta split: option.split)

lemma peak_loop_answers:
  assumes "pcan_answers api h s answers" "peak_handle x = h" "vn_os x = s"
  shows "\<exists>x'. do_while (peak_turn api) calls (b, x) =
    Some (map_option (\<lambda>ms. (fst (delivered ms b x'), calls @ snd (delivered ms b x'))) (peak_queued answers))"
  using assms
proof (induction arbitrary: b x calls rule: pcan_answers.induct)
  case (answers_end s sts m t s')
  let ?x = "x\<lparr>vn_os := s'\<rparr>"
  have "CAN_Read api (peak_handle x) (vn_os x) = ((sts, m, t), s')"
    using answers_end by simp
  note turn = peak_turn_read [OF this, of b]
  show ?case
    using answers_end.hyps(2)
    by (intro exI [of _ ?x], subst do_while.simps)
      (auto simp: turn peak_queued_def peak_kept_def delivered_Nil split: option.split prod.split)
next
  case (answers_more s sts m t s' as)
  let ?x = "x\<lparr>vn_os := s'\<rparr>"
  have "CAN_Read api (peak_handle x) (vn_os x) = ((sts, m, t), s')"
    using answers_more by simp
  note turn = peak_turn_read [OF this, of b]
  have rest: "\<exists>x'. do_while (peak_turn api) calls (b, ?x) =
      Some (map_option (\<lambda>ms. (fst (delivered ms b x'), calls @ snd (delivered ms b x'))) (peak_queued as))" for b calls
    using answers_more.IH [of ?x] answers_more.prems(1) by simp
  show ?case
  proof (cases "sts = PCAN_ERROR_QRCVEMPTY \<or> peak_skips m")
    case True
    then have "peak_queued ((sts, m, t, pcan_calloc api s') # as) = peak_queued as"
      by (auto simp: peak_queued_def peak_kept_def)
    with True rest [of calls b] show ?thesis
      by (subst do_while.simps) (simp add: turn answers_more.hyps(2))
  next
    case kept: False
    then have queued: "peak_queued ((sts, m, t, pcan_calloc api s') # as) =
        (case peak_message (pcan_calloc api s') (m, t) of None \<Rightarrow> None | Some msg \<Rightarrow> map_option ((#) msg) (peak_queued as))"
      unfolding peak_queued_def peak_kept_def by (simp split: option.split)
    show ?thesis
    proof (cases "peak_message (pcan_calloc api s') (m, t)")
      case None
      with kept show ?thesis
        by (subst do_while.simps) (simp add: turn queued)
    next
      case (Some msg)
      let ?d = "delivered [msg] b ?x"
      obtain x' where "do_while (peak_turn api) (calls @ snd ?d) (fst (channel_deliver_all [msg] b), ?x) =
          Some (map_option (\<lambda>ms. (fst (delivered ms (fst (channel_deliver_all [msg] b)) x'),
            (calls @ snd ?d) @ snd (delivered ms (fst (channel_deliver_all [msg] b)) x'))) (peak_queued as))"
        using rest by blast
      moreover have "delivered (msg # ms) b x' =
          (fst (delivered ms (fst (channel_deliver_all [msg] b)) x'), snd ?d @ snd (delivered ms (fst (channel_deliver_all [msg] b)) x'))" for ms
        using deliver_all_append [of "[msg]" ms b] by (simp add: delivered_def del: channel_deliver_all.simps)
      moreover have "fst ?d = (fst (channel_deliver_all [msg] b), ?x)"
        by (simp add: delivered_def)
      ultimately show ?thesis
        using kept Some answers_more.hyps(2)
        by (intro exI [of _ x'], subst do_while.simps)
          (simp add: turn queued option.map_comp o_def split_beta del: channel_deliver_all.simps)
    qed
  qed
qed

text \<open>
  C26. When the event of a PEAK channel is signalled, the thread reads the driver until it says that its
  queue is empty. If it ever does, the loop ends. When there was memory for each message and none was
  longer than eight bytes, the handler was called once for every message, and polling through
  \<open>uni_can_channel_receive\<close> gives the messages that were queued before and then those the driver handed
  out that are neither error nor status frames, in the order they arrived; a read that failed with
  another status counts as a message with whatever is in the structure. When there was no memory for
  one of them, or one was longer, what the loop does is undefined.
\<close>

theorem peak_delivers_in_order:
  assumes "pcan_answers api (peak_handle x) (vn_os x) answers" "\<not> ad_deleted a" "ad_vtable a = peak_vtable api"
  shows "if \<exists>(sts, m, t, calloc_ok) \<in> set (peak_kept answers). \<not> calloc_ok \<or> 8 < unat (pm_LEN m) \<or> length (pm_DATA m) < unat (pm_LEN m)
    then do_while (peak_turn api) [] (b, x) = Some None
    else \<exists>ms ch calls a'. peak_queued answers = Some ms \<and> peak_threadProcReceive api (b, x) = Some (ch, calls) \<and>
      length calls = (if cb_receive_func b = None then 0 else length ms) \<and>
      channel_receive_n adapter_ops_of (length (cb_receive_queue b @ ms)) (Some (a\<lparr>ad_channel := ch\<rparr>)) =
        (map Some (cb_receive_queue b @ ms), Some a')"
proof -
  obtain x' where run: "do_while (peak_turn api) [] (b, x) =
      Some (map_option (\<lambda>ms. (fst (delivered ms b x'), snd (delivered ms b x'))) (peak_queued answers))"
    using peak_loop_answers [OF assms(1) refl refl, of "[]" b] by auto
  have undefined_iff: "peak_queued answers = None \<longleftrightarrow> (\<exists>(sts, m, t, calloc_ok) \<in> set (peak_kept answers).
      \<not> calloc_ok \<or> 8 < unat (pm_LEN m) \<or> length (pm_DATA m) < unat (pm_LEN m))"
    unfolding peak_queued_def those_map_None by (rule bex_cong [OF refl]) (auto simp: peak_message_None)
  show ?thesis
  proof (cases "peak_queued answers")
    case None
    with run undefined_iff show ?thesis
      by simp
  next
    case (Some ms)
    obtain ch calls where d: "delivered ms b x' = (ch, calls)"
      by (cases "delivered ms b x'")
    have "backend_live (a\<lparr>ad_channel := ch\<rparr>)"
      using assms(2,3) by (simp add: backend_live_def peak_vtable_def backend_vtable_def)
    moreover have "backend_pending (a\<lparr>ad_channel := ch\<rparr>) = cb_receive_queue b @ ms"
      using delivered_queue [of ms b x'] by (simp add: backend_pending_def d)
    ultimately obtain a' where "channel_receive_n adapter_ops_of (length (cb_receive_queue b @ ms)) (Some (a\<lparr>ad_channel := ch\<rparr>)) =
        (map Some (cb_receive_queue b @ ms), Some a')"
      using adapted.receive_all_in_order [of "a\<lparr>ad_channel := ch\<rparr>"] by auto
    moreover have "length calls = (if cb_receive_func b = None then 0 else length ms)"
      using delivered_calls [of ms b x'] by (simp add: d)
    moreover have "peak_threadProcReceive api (b, x) = Some (ch, calls)"
      using run Some by (simp add: peak_threadProcReceive_def loop_result_def d)
    ultimately show ?thesis
      using undefined_iff Some by auto
  qed
qed

text \<open>
  The loop of the receive thread runs while the status of \<open>CAN_Read\<close> lacks one bit. A driver that
  keeps answering with another error, as it does once the device is gone, keeps the thread in the loop
  forever, so that closing the channel waits forever too.
\<close>

theorem peak_loop_can_spin:
  assumes "\<And>s. fst (fst (CAN_Read api (peak_handle x) s)) AND PCAN_ERROR_QRCVEMPTY = 0"
    and "\<And>s. pm_LEN (fst (snd (fst (CAN_Read api (peak_handle x) s)))) \<le> 8 \<and>
      length (pm_DATA (fst (snd (fst (CAN_Read api (peak_handle x) s))))) = 8"
    and "\<And>s. pcan_calloc api s"
  shows "do_while (peak_turn api) calls (b, x) = None"
proof -
  have "do_while (peak_turn api) calls ch = None" if "peak_handle (snd ch) = peak_handle x" for ch
  proof (rule do_while_spins [where ok = "\<lambda>ch. peak_handle (snd ch) = peak_handle x"])
    fix ch :: "'a peak_channel"
    assume h: "peak_handle (snd ch) = peak_handle x"
    obtain b x' where ch: "ch = (b, x')" by (cases ch)
    obtain sts m t s where read: "CAN_Read api (peak_handle x') (vn_os x') = ((sts, m, t), s)"
      by (metis prod.collapse)
    have same: "peak_handle x' = peak_handle x"
      using h by (simp add: ch)
    have sts: "sts AND PCAN_ERROR_QRCVEMPTY = 0" "pm_LEN m \<le> 8" "length (pm_DATA m) = 8"
      using assms [of "vn_os x'"] unfolding same [symmetric] by (simp_all add: read)
    obtain msg where msg: "peak_message (pcan_calloc api s) (m, t) = Some msg"
      using peak_message_None [of "pcan_calloc api s" m t] sts(2,3) assms(3) by (auto simp: word_le_nat_alt)
    have "\<exists>b' call. peak_turn api ch = Some (True, (b', x'\<lparr>vn_os := s\<rparr>), call)"
      by (simp add: ch peak_turn_read [OF read] sts(1) msg delivered_def)
    with h show "\<exists>ch' call. peak_turn api ch = Some (True, ch', call) \<and> peak_handle (snd ch') = peak_handle x"
      by (auto simp: ch)
  qed (rule that)
  then show ?thesis by simp
qed

text \<open>A driver for examples: its state is the open events and the frames that wait.\<close>

type_synonym example_pcan_state = "int list \<times> (peak_msg \<times> peak_timestamp) list"

definition example_pcan :: "example_pcan_state pcan" where
  "example_pcan = \<lparr>CAN_Initialize = (\<lambda>_ _ s. (0, s)), CAN_Uninitialize = (\<lambda>_ s. (0, s)),
     CAN_Read = (\<lambda>_ (evs, fs). case fs of
         [] \<Rightarrow> ((PCAN_ERROR_QRCVEMPTY, \<lparr>pm_ID = 0, pm_MSGTYPE = 0, pm_LEN = 0, pm_DATA = replicate 8 0\<rparr>,
              \<lparr>pt_millis = 0, pt_millis_overflow = 0, pt_micros = 0\<rparr>), (evs, []))
       | f # rest \<Rightarrow> ((PCAN_ERROR_OK, fst f\<lparr>pm_LEN := min 8 (pm_LEN (fst f)), pm_DATA := take 8 (pm_DATA (fst f) @ replicate 8 0)\<rparr>,
              snd f), (evs, rest))),
     CAN_Write = (\<lambda>_ m (evs, fs). (0, (evs, fs @ [(m, \<lparr>pt_millis = 0, pt_millis_overflow = 0, pt_micros = 0\<rparr>)]))),
     CAN_SetReceiveEvent = (\<lambda>_ _ s. s), CAN_GetAttachedCount = (\<lambda>_. (0, 1)),
     CAN_GetAttached = (\<lambda>_ _. (0, [\<lparr>pi_channel_handle = 0x51, pi_device_name = ''PCAN-USB'', pi_device_id = 0xFF,
       pi_channel_condition = 1\<rparr>])),
     win_CreateEvent = (\<lambda>(evs, fs). let h = 1 + sum_list (map abs evs) in (h, (h # evs, fs))),
     win_CloseHandle = (\<lambda>h (evs, fs). (removeAll h evs, fs)), pcan_calloc = (\<lambda>_. True)\<rparr>"

definition example_peak_frame :: "peak_msg \<times> peak_timestamp" where
  "example_peak_frame = (\<lparr>pm_ID = 0x123, pm_MSGTYPE = 0, pm_LEN = 2, pm_DATA = [7, 8, 0, 0, 0, 0, 0, 0]\<rparr>,
     \<lparr>pt_millis = 3, pt_millis_overflow = 0, pt_micros = 5\<rparr>)"

definition example_peak :: "example_pcan_state peak_channel" where
  "example_peak = CanChannelPeak ([], [example_peak_frame]) example_device 500000"

theorem peak_delivers_in_order_witness:
  "\<exists>a :: (example_pcan_state peak_channel, unit, unit) CanChannelAdapter.
    \<exists>ch calls a'. peak_threadProcReceive example_pcan (ad_channel a) = Some (ch, calls) \<and>
    channel_receive_n adapter_ops_of 1 (Some (a\<lparr>ad_channel := ch\<rparr>)) =
      ([Some \<lparr>cm_time_us = 3005, cm_id = 0x123, cm_flags = UNI_CAN_MSG_FLAG_STD_ID, cm_data = Inline [7, 8, 0, 0, 0, 0, 0, 0],
         cm_len = 2\<rparr>], Some a')"
proof -
  let ?m = "\<lparr>cm_time_us = 3005, cm_id = 0x123, cm_flags = UNI_CAN_MSG_FLAG_STD_ID, cm_data = Inline [7, 8, 0, 0, 0, 0, 0, 0],
    cm_len = 2\<rparr> :: uni_can_message"
  let ?a = "\<lparr>ad_vtable = peak_vtable example_pcan, ad_channel = example_peak, ad_receive_func = None, ad_receive_cookie = (),
    ad_deleted = False\<rparr> :: (example_pcan_state peak_channel, unit, unit) CanChannelAdapter"
  define answers where "answers = [(PCAN_ERROR_OK, fst example_peak_frame, snd example_peak_frame, True),
    (PCAN_ERROR_QRCVEMPTY, \<lparr>pm_ID = 0, pm_MSGTYPE = 0, pm_LEN = 0, pm_DATA = replicate 8 0\<rparr>,
      \<lparr>pt_millis = 0, pt_millis_overflow = 0, pt_micros = 0\<rparr>, True)]"
  have r1: "CAN_Read example_pcan h ([], [example_peak_frame]) =
      ((PCAN_ERROR_OK, fst example_peak_frame, snd example_peak_frame), ([], []))" for h
    unfolding example_pcan_def by (simp add: example_peak_frame_def)
  have r2: "CAN_Read example_pcan h ([], []) =
      ((PCAN_ERROR_QRCVEMPTY, \<lparr>pm_ID = 0, pm_MSGTYPE = 0, pm_LEN = 0, pm_DATA = replicate 8 0\<rparr>,
        \<lparr>pt_millis = 0, pt_millis_overflow = 0, pt_micros = 0\<rparr>), ([], []))" for h
    by (simp add: example_pcan_def)
  have c: "pcan_calloc example_pcan s = True" for s
    by (simp add: example_pcan_def)
  have "pcan_answers example_pcan h ([], [example_peak_frame]) answers" for h
    using answers_more [OF r1 _ answers_end [OF r2]] unfolding answers_def c
    by (simp add: PCAN_ERROR_OK_def PCAN_ERROR_QRCVEMPTY_def)
  then have answers: "pcan_answers example_pcan (peak_handle (snd example_peak)) (vn_os (snd example_peak)) answers"
    by (simp add: example_peak_def CanChannelPeak_def)
  have kept: "peak_kept answers = [(PCAN_ERROR_OK, fst example_peak_frame, snd example_peak_frame, True)]"
    unfolding answers_def by code_simp
  have "peak_message True (fst example_peak_frame, snd example_peak_frame) = Some ?m"
    by code_simp
  then have queued: "peak_queued answers = Some [?m]"
    by (simp add: peak_queued_def kept)
  have fits: "pm_LEN (fst example_peak_frame) = 2" "length (pm_DATA (fst example_peak_frame)) = 8"
    by (simp_all add: example_peak_frame_def)
  have empty: "cb_receive_queue (fst example_peak) = []"
    by (simp add: example_peak_def CanChannelPeak_def)
  show ?thesis
    using peak_delivers_in_order [OF answers, of ?a "fst example_peak"]
    by (intro exI [of _ ?a]) (auto simp: kept queued fits empty)
qed

theorem peak_loop_can_spin_witness:
  "do_while (peak_turn (example_pcan\<lparr>CAN_Read := \<lambda>_ s. ((0x40, fst example_peak_frame, snd example_peak_frame), s)\<rparr>)) [] example_peak = None"
  using peak_loop_can_spin [of "example_pcan\<lparr>CAN_Read := \<lambda>_ s. ((0x40, fst example_peak_frame, snd example_peak_frame), s)\<rparr>"
      "snd example_peak" "[]" "fst example_peak"]
  by (simp add: example_peak_frame_def PCAN_ERROR_QRCVEMPTY_def) (simp add: example_pcan_def)


section \<open>Events\<close>

text \<open>
  The documented behaviour of the events of Windows: creating one gives a new handle or null, closing
  takes it away, and the functions of PCANBasic change no handle.
\<close>

definition pcan_events_ok :: "'o pcan \<Rightarrow> ('o \<Rightarrow> int set) \<Rightarrow> bool" where
  "pcan_events_ok api evs \<longleftrightarrow>
     (\<forall>s. case win_CreateEvent api s of (h, s') \<Rightarrow> if h = 0 then evs s' = evs s else h \<notin> evs s \<and> evs s' = insert h (evs s)) \<and>
     (\<forall>h s. evs (win_CloseHandle api h s) = evs s - {h}) \<and>
     (\<forall>h e s. evs (CAN_SetReceiveEvent api h e s) = evs s) \<and>
     (\<forall>h r s. evs (snd (CAN_Initialize api h r s)) = evs s) \<and>
     (\<forall>h s. evs (snd (CAN_Uninitialize api h s)) = evs s) \<and>
     (\<forall>h s. evs (snd (CAN_Read api h s)) = evs s) \<and>
     (\<forall>h m s. evs (snd (CAN_Write api h m s)) = evs s)"

lemma pcan_events_okD:
  assumes "pcan_events_ok api evs"
  shows "evs (win_CloseHandle api h s) = evs s - {h}" "evs (CAN_SetReceiveEvent api c e s) = evs s"
    "evs (snd (CAN_Initialize api c r s)) = evs s" "evs (snd (CAN_Uninitialize api c s)) = evs s"
    "evs (snd (CAN_Read api c s)) = evs s" "evs (snd (CAN_Write api c m s)) = evs s"
  using assms by (simp_all add: pcan_events_ok_def)

lemma pcan_event_created:
  assumes "pcan_events_ok api evs" "win_CreateEvent api s = (h, t)" "h \<noteq> 0"
  shows "h \<notin> evs s" "evs t = insert h (evs s)"
  using assms(1) [unfolded pcan_events_ok_def, THEN conjunct1, THEN spec, of s] assms(2,3) by simp_all

lemma pcan_no_event_created:
  assumes "pcan_events_ok api evs" "win_CreateEvent api s = (0, t)"
  shows "evs t = evs s"
  using assms(1) [unfolded pcan_events_ok_def, THEN conjunct1, THEN spec, of s] assms(2) by simp

datatype peak_op = PkOpen | PkClose | PkTransmit uni_can_message | PkReceive

fun peak_do :: "'o pcan \<Rightarrow> peak_op \<Rightarrow> 'o peak_channel \<Rightarrow> 'o peak_channel option" where
  "peak_do api PkOpen ch = Some (snd (peak_Open api ch))"
| "peak_do api PkClose ch = Some (snd (peak_Close api ch))"
| "peak_do api (PkTransmit msg) ch = map_option snd (peak_TransmitMessage api ch msg)"
| "peak_do api PkReceive ch = (if cb_thread (fst ch) then map_option fst (peak_threadProcReceive api ch) else Some ch)"

fun peak_run :: "'o pcan \<Rightarrow> peak_op list \<Rightarrow> 'o peak_channel \<Rightarrow> 'o peak_channel option" where
  "peak_run api [] ch = Some ch"
| "peak_run api (p # ps) ch = (case peak_do api p ch of None \<Rightarrow> None | Some ch \<Rightarrow> peak_run api ps ch)"

text \<open>The events a channel holds, beside those (\<open>others\<close>) of the rest of the program.\<close>

definition peak_holds :: "('o \<Rightarrow> int set) \<Rightarrow> int set \<Rightarrow> 'o peak_channel \<Rightarrow> bool" where
  "peak_holds evs others = (\<lambda>(b, x).
     if cb_thread b then evs (vn_os x) = others \<union> ({pk_event x} - {0}) \<and> pk_event x \<notin> others
     else evs (vn_os x) = others)"

lemma peak_stop_holds:
  assumes "pcan_events_ok api evs" "0 \<notin> others" "peak_holds evs others ch"
  shows "peak_holds evs others (snd (peak_threadStop api ch)) \<and> \<not> cb_thread (fst (snd (peak_threadStop api ch)))"
  using assms(2,3)
  by (cases ch) (auto simp: peak_holds_def peak_threadStop_def threadStop_def peak_thread_end_def
      pcan_events_okD [OF assms(1)] split: if_splits)

lemma peak_start_holds:
  assumes "pcan_events_ok api evs" "0 \<notin> others" "peak_holds evs others ch"
  shows "peak_holds evs others (snd (peak_threadStart api ch))"
proof -
  obtain b x where stop: "snd (peak_threadStop api ch) = (b, x)" "evs (vn_os x) = others"
    using peak_stop_holds [OF assms] by (cases "snd (peak_threadStop api ch)") (auto simp: peak_holds_def)
  obtain h s where event: "win_CreateEvent api (vn_os x) = (h, s)"
    by (cases "win_CreateEvent api (vn_os x)")
  have created: "evs s = others \<union> ({h} - {0})" "h \<notin> others"
    using pcan_event_created [OF assms(1) event] pcan_no_event_created [OF assms(1)] event stop(2) assms(2)
    by (cases "h = 0"; simp)+
  then show ?thesis
    by (simp add: peak_threadStart_def stop(1) peak_thread_begin_def event peak_holds_def threadStart_runs
        pcan_events_okD [OF assms(1)])
qed

text \<open>Receiving touches the queue and what the driver holds, nothing else.\<close>

lemma peak_turn_keeps:
  assumes "peak_turn api (b, x) = Some (again, (b', x'), call)"
  shows "cb_thread b' = cb_thread b \<and> (\<exists>s. x' = x\<lparr>vn_os := s\<rparr> \<and> s = snd (CAN_Read api (peak_handle x) (vn_os x)))"
proof -
  obtain sts m t s where read: "CAN_Read api (peak_handle x) (vn_os x) = ((sts, m, t), s)"
    by (metis prod.collapse)
  have thread: "cb_thread (fst (channel_deliver msg b)) = cb_thread b" for msg
    by (simp add: channel_deliver_def Let_def)
  show ?thesis
    using assms unfolding peak_turn_read [OF read]
    by (auto simp: delivered_def thread split_beta read split: if_splits)
qed

lemma peak_turn_holds:
  assumes "pcan_events_ok api evs" "peak_turn api ch = Some (again, ch', call)" "peak_holds evs others ch"
  shows "peak_holds evs others ch'"
proof -
  obtain b x b' x' where ch: "ch = (b, x)" "ch' = (b', x')" by (cases ch; cases ch')
  show ?thesis
    using assms(3) peak_turn_keeps [OF assms(2) [unfolded ch]] pcan_events_okD(5) [OF assms(1)]
    by (auto simp: ch peak_holds_def)
qed

lemma peak_do_holds:
  assumes law: "pcan_events_ok api evs" "0 \<notin> others" and held: "peak_holds evs others ch" and run: "peak_do api p ch = Some ch'"
  shows "peak_holds evs others ch'"
proof (cases p)
  case PkOpen
  obtain b x where ch: "ch = (b, x)" by (cases ch)
  let ?s = "\<lambda>rate. snd (CAN_Initialize api (peak_handle x) rate (vn_os x))"
  have cleared: "peak_holds evs others (clear_queue b, x)"
    using held by (simp add: ch peak_holds_def)
  have initialised: "peak_holds evs others (clear_queue b, x\<lparr>vn_os := ?s rate\<rparr>)" for rate
    using held by (simp add: ch peak_holds_def pcan_events_okD [OF law(1)])
  have "peak_holds evs others (snd (peak_threadStart api (clear_queue b, x\<lparr>vn_os := ?s rate\<rparr>)))" for rate
    by (rule peak_start_holds [OF law initialised])
  with cleared initialised have "peak_holds evs others (snd (peak_Open api ch))"
    by (simp add: ch peak_Open_def Let_def split_beta split: option.split)
  with PkOpen run show ?thesis by simp
next
  case PkClose
  obtain b x where stop: "snd (peak_threadStop api ch) = (b, x)" "peak_holds evs others (b, x)"
    using peak_stop_holds [OF law held] by (cases "snd (peak_threadStop api ch)") auto
  then have "peak_holds evs others (snd (peak_Close api ch))"
    by (simp add: peak_Close_def split_beta Let_def peak_holds_def pcan_events_okD [OF law(1)])
  with PkClose run show ?thesis by simp
next
  case (PkTransmit msg)
  with run held show ?thesis
    by (cases ch) (auto simp: peak_TransmitMessage_def split_beta Let_def peak_holds_def pcan_events_okD [OF law(1)])
next
  case PkReceive
  show ?thesis
  proof (cases "cb_thread (fst ch)")
    case True
    with PkReceive run obtain calls where "do_while (peak_turn api) [] ch = Some (Some (ch', calls))"
      by (auto simp: peak_threadProcReceive_def dest: loop_resultD)
    from this held show ?thesis
      by (rule do_while_keeps [rotated]) (rule peak_turn_holds [OF law(1)])
  next
    case False
    with PkReceive run held show ?thesis by simp
  qed
qed

text \<open>
  C32. A PEAK channel leaks no event: after any operations on a new channel the process has the
  handles it had before and, exactly while the receive thread runs, the event of that thread, and
  closing gives it back, also when the channel was opened twice.
\<close>

theorem peak_keeps_events:
  assumes law: "pcan_events_ok api evs" "0 \<notin> evs s"
    and run: "peak_run api ps (CanChannelPeak s devInfo baudrate) = Some ch"
  shows "evs (vn_os (snd ch)) = evs s \<union> (if cb_thread (fst ch) then {pk_event (snd ch)} - {0} else {}) \<and>
    evs (vn_os (snd (snd (peak_Close api ch)))) = evs s"
proof -
  have "peak_run api ps ch0 = Some ch \<Longrightarrow> peak_holds evs (evs s) ch0 \<Longrightarrow> peak_holds evs (evs s) ch" for ps ch0
    by (induction ps arbitrary: ch0) (auto split: option.splits dest: peak_do_holds [OF law])
  from this [OF run] have held: "peak_holds evs (evs s) ch"
    by (simp add: peak_holds_def CanChannelPeak_def)
  moreover have "\<not> cb_thread (fst (snd (peak_Close api ch)))"
    using peak_stop_holds [OF law held] by (simp add: peak_Close_def split_beta Let_def)
  moreover have "peak_holds evs (evs s) (snd (peak_Close api ch))"
    by (rule peak_do_holds [OF law held, of PkClose]) simp
  ultimately show ?thesis
    by (cases ch; cases "snd (peak_Close api ch)") (auto simp: peak_holds_def)
qed

lemma example_pcan_events: "pcan_events_ok example_pcan (set \<circ> fst)"
proof -
  have fresh: "1 + sum_list (map abs evs) \<notin> set evs" "1 + sum_list (map abs evs) \<noteq> 0" for evs :: "int list"
  proof -
    have "h \<in> set evs \<Longrightarrow> h \<le> sum_list (map abs evs)" for h
    proof (induction evs)
      case (Cons e es)
      have "0 \<le> sum_list (map abs es)"
        by (rule sum_list_nonneg) auto
      with Cons show ?case by auto
    qed simp
    then show "1 + sum_list (map abs evs) \<notin> set evs"
      by fastforce
    have "0 \<le> sum_list (map abs evs)"
      by (rule sum_list_nonneg) auto
    then show "1 + sum_list (map abs evs) \<noteq> 0"
      by simp
  qed
  have created: "case win_CreateEvent example_pcan s of (h, s') \<Rightarrow>
      if h = 0 then (set \<circ> fst) s' = (set \<circ> fst) s
      else h \<notin> (set \<circ> fst) s \<and> (set \<circ> fst) s' = insert h ((set \<circ> fst) s)" for s
    using fresh [of "fst s"] by (simp add: example_pcan_def split_beta Let_def)
  show ?thesis
    unfolding pcan_events_ok_def
    by (intro conjI allI created) (auto simp: example_pcan_def split_beta Let_def split: list.split)
qed

theorem peak_keeps_events_witness:
  "\<exists>ch. peak_run example_pcan [PkOpen, PkOpen, PkTransmit can_message_zero, PkClose, PkOpen]
      (CanChannelPeak ([5], []) example_device 500000) = Some ch \<and> cb_thread (fst ch) \<and>
    set (fst (vn_os (snd ch))) = {5, 6} \<and> set (fst (vn_os (snd (snd (peak_Close example_pcan ch))))) = {5}"
proof -
  let ?run = "peak_run example_pcan [PkOpen, PkOpen, PkTransmit can_message_zero, PkClose, PkOpen]
    (CanChannelPeak ([5], []) example_device 500000)"
  have "map_option (\<lambda>ch. (cb_thread (fst ch), pk_event (snd ch))) ?run = Some (True, 6)"
    by code_simp
  then obtain ch where run: "?run = Some ch" and opened: "cb_thread (fst ch)" "pk_event (snd ch) = 6"
    by (cases ?run) auto
  show ?thesis
    using peak_keeps_events [OF example_pcan_events _ run] run opened by auto
qed


section \<open>Listing the devices\<close>

lemma peak_devinfo_Some:
  "peak_devinfo info \<noteq> None \<longleftrightarrow> length (pi_device_name info) < 64 \<and> unat (pi_device_id info) < 16 ^ 5"
proof -
  have "length (''0x'' @ show_hex (unat (pi_device_id info))) < 8 \<longleftrightarrow> unat (pi_device_id info) < 16 ^ 5"
    using length_show_hex [of 5 "unat (pi_device_id info)"] by (simp add: less_Suc_eq_le [of _ 5, simplified])
  then show ?thesis
    by (simp add: peak_devinfo_def copy_text_def UNI_CAN_DEVINFO_FIELDLEN_def)
qed

text \<open>
  The PEAK provider lists exactly the available channels, each with its handle, as long as every device
  number has at most five hexadecimal digits; the text of a longer number does not fit in its buffer of
  eight characters.
\<close>

theorem peak_lists_available:
  assumes "\<forall>info\<in>set infos. length (pi_device_name info) < 64"
  shows "(case peak_devices infos of
      None \<Rightarrow> \<exists>info\<in>set infos. pi_channel_condition info AND PCAN_CHANNEL_AVAILABLE \<noteq> 0 \<and> 16 ^ 5 \<le> unat (pi_device_id info)
    | Some devices \<Rightarrow>
        (\<forall>info\<in>set infos. pi_channel_condition info AND PCAN_CHANNEL_AVAILABLE \<noteq> 0 \<longrightarrow> unat (pi_device_id info) < 16 ^ 5) \<and>
        map dev_index devices = map (unat \<circ> pi_channel_handle)
          (filter (\<lambda>info. pi_channel_condition info AND PCAN_CHANNEL_AVAILABLE \<noteq> 0) infos) \<and>
        map dev_model devices = map pi_device_name
          (filter (\<lambda>info. pi_channel_condition info AND PCAN_CHANNEL_AVAILABLE \<noteq> 0) infos))"
  using assms
proof (induction infos)
  case (Cons info infos)
  show ?case
  proof (cases "pi_channel_condition info AND PCAN_CHANNEL_AVAILABLE \<noteq> 0")
    case True
    show ?thesis
    proof (cases "peak_devinfo info")
      case None
      then show ?thesis
        using True peak_devinfo_Some [of info] Cons.prems by (auto simp: not_less)
    next
      case (Some devinfo)
      then have dev: "dev_index devinfo = unat (pi_channel_handle info)" "dev_model devinfo = pi_device_name info"
        by (auto simp: peak_devinfo_def split: option.splits)
      have "unat (pi_device_id info) < 16 ^ 5"
        using Some peak_devinfo_Some [of info] by simp
      with True Some dev Cons show ?thesis
        by (cases "peak_devices infos") simp_all
    qed
  next
    case False
    with Cons show ?thesis
      by (cases "peak_devices infos") simp_all
  qed
qed simp

theorem peak_lists_available_witness:
  "\<exists>devices. peak_GetDeviceInfo example_pcan ([], []) True = Some devices \<and> map dev_index devices = [0x51]"
proof -
  let ?infos = "[\<lparr>pi_channel_handle = 0x51, pi_device_name = ''PCAN-USB'', pi_device_id = 0xFF, pi_channel_condition = 1\<rparr>]"
  have "peak_GetDeviceInfo example_pcan ([], []) True = peak_devices ?infos"
    by (simp add: peak_GetDeviceInfo_def example_pcan_def PCAN_ERROR_OK_def)
  moreover have "peak_devices ?infos \<noteq> None"
    by code_simp
  moreover have "pi_channel_condition (hd ?infos) AND PCAN_CHANNEL_AVAILABLE \<noteq> 0"
    by (simp add: PCAN_CHANNEL_AVAILABLE_def)
  ultimately show ?thesis
    using peak_lists_available [of ?infos] by (auto split: option.splits)
qed

end
