(* ===== verification/VectorCan.thy ===== *)
theory VectorCan
  imports BackendReader
begin

text \<open>
  The backend for Vector devices (\<open>src/backend_vector/can_vector_channel.cpp\<close>,
  \<open>src/backend_vector/can_vector_provider.cpp\<close>). The functions of the XL driver library are the record
  \<open>'o vxlapi\<close> of functions over a state \<open>'o\<close>; the constants are those of \<open>vxlapi.h\<close>.
\<close>

section \<open>Data\<close>

record xl_rx_event =
  xe_tag :: u16
  xe_canId :: u32
  xe_msgFlags :: u32
  xe_dlc :: u8
  xe_data :: "u8 list"
  xe_timeStampSync :: u64

record xl_tx_event =
  xt_tag :: u8
  xt_id :: u32
  xt_dlc :: u16
  xt_data :: "u8 list"

record xl_channel_config =
  xc_name :: string
  xc_hwType :: u8
  xc_channelMask :: u64
  xc_channelBusCapabilities :: u32
  xc_serialNumber :: u32

record 'o vxlapi =
  xlOpenDriver :: "'o \<Rightarrow> int \<times> 'o"
  xlCloseDriver :: "'o \<Rightarrow> 'o"
  xlGetDriverConfig :: "'o \<Rightarrow> int \<times> xl_channel_config list"
  xlOpenPort :: "u64 \<Rightarrow> 'o \<Rightarrow> (int \<times> int) \<times> 'o"
  xlCanRequestChipState :: "int \<Rightarrow> u64 \<Rightarrow> 'o \<Rightarrow> int \<times> 'o"
  xlCanSetChannelMode :: "int \<Rightarrow> u64 \<Rightarrow> 'o \<Rightarrow> int \<times> 'o"
  xlCanSetChannelBitrate :: "int \<Rightarrow> u64 \<Rightarrow> u32 \<Rightarrow> 'o \<Rightarrow> int \<times> 'o"
  xlActivateChannel :: "int \<Rightarrow> u64 \<Rightarrow> 'o \<Rightarrow> int \<times> 'o"
  xlDeactivateChannel :: "int \<Rightarrow> u64 \<Rightarrow> 'o \<Rightarrow> int \<times> 'o"
  xlResetClock :: "int \<Rightarrow> 'o \<Rightarrow> int \<times> 'o"
  xlSetNotification :: "int \<Rightarrow> 'o \<Rightarrow> 'o"
  xlCanReceive :: "int \<Rightarrow> 'o \<Rightarrow> (int \<times> xl_rx_event) \<times> 'o"
  xlCanTransmit :: "int \<Rightarrow> u64 \<Rightarrow> xl_tx_event \<Rightarrow> 'o \<Rightarrow> int \<times> 'o"

record 'o vector = "'o vendor_channel" +
  vc_device_handle :: int

type_synonym 'o vector_channel = "'o vector backend_channel"

definition XL_SUCCESS :: int where "XL_SUCCESS = 0"
definition XL_ERR_QUEUE_IS_EMPTY :: int where "XL_ERR_QUEUE_IS_EMPTY = 10"
definition XL_RECEIVE_MSG :: u16 where "XL_RECEIVE_MSG = 1"
definition XL_TRANSMIT_MSG :: u8 where "XL_TRANSMIT_MSG = 10"
definition XL_CAN_MSG_FLAG_ERROR_FRAME :: u32 where "XL_CAN_MSG_FLAG_ERROR_FRAME = 1"
definition XL_CAN_EXT_MSG_ID :: u32 where "XL_CAN_EXT_MSG_ID = 0x80000000"
definition XL_BUS_ACTIVE_CAP_CAN :: u32 where "XL_BUS_ACTIVE_CAP_CAN = 0x10000"
definition XL_HWTYPE_VIRTUAL :: u8 where "XL_HWTYPE_VIRTUAL = 1"
definition XL_CONFIG_MAX_CHANNELS :: nat where "XL_CONFIG_MAX_CHANNELS = 64"

lemmas xl_defs = XL_SUCCESS_def XL_ERR_QUEUE_IS_EMPTY_def XL_RECEIVE_MSG_def XL_TRANSMIT_MSG_def
  XL_CAN_MSG_FLAG_ERROR_FRAME_def XL_CAN_EXT_MSG_ID_def XL_BUS_ACTIVE_CAP_CAN_def XL_HWTYPE_VIRTUAL_def
  XL_CONFIG_MAX_CHANNELS_def

abbreviation vector_mask :: "'o vector \<Rightarrow> u64" where
  "vector_mask x \<equiv> of_nat (dev_index (vn_info_dev x))"


section \<open>The channel\<close>

definition CanChannelVector :: "'o \<Rightarrow> uni_can_devinfo \<Rightarrow> u32 \<Rightarrow> 'o vector_channel" where
  "CanChannelVector s devInfo baudrate =
     (fresh_channel_base,
      \<lparr>vn_info_dev = devInfo, vn_info_chidx = 0, vn_info_baudrate = baudrate, vn_os = s, vc_device_handle = 0\<rparr>)"

definition vector_skips :: "xl_rx_event \<Rightarrow> bool" where
  "vector_skips ev \<longleftrightarrow> xe_tag ev \<noteq> XL_RECEIVE_MSG \<or> xe_msgFlags ev AND XL_CAN_MSG_FLAG_ERROR_FRAME \<noteq> 0"

definition vector_message :: "bool \<Rightarrow> xl_rx_event \<Rightarrow> uni_can_message option" where
  "vector_message calloc_ok ev =
     received_message calloc_ok (xe_timeStampSync ev div 1000) (xe_canId ev AND (XL_CAN_EXT_MSG_ID - 1))
       (if xe_canId ev AND XL_CAN_EXT_MSG_ID \<noteq> 0 then UNI_CAN_MSG_FLAG_EXT_ID else UNI_CAN_MSG_FLAG_STD_ID)
       (ucast (xe_dlc ev)) (xe_data ev) (unat (ucast (xe_dlc ev) :: u16))"

text \<open>One turn of the loop of \<open>threadProcReceive\<close>, and the loop once the event was signalled.\<close>

definition vector_turn :: "'o vxlapi \<Rightarrow> bool \<Rightarrow> 'o vector turn" where
  "vector_turn api calloc_ok = (\<lambda>(b, x).
     let ((xlStatus, ev), s) = xlCanReceive api (vc_device_handle x) (vn_os x);
         x = x\<lparr>vn_os := s\<rparr>;
         again = (XL_SUCCESS = xlStatus)
     in if xlStatus = XL_ERR_QUEUE_IS_EMPTY then Some (False, (b, x), [])
        else if vector_skips ev then Some (again, (b, x), [])
        else
          (case vector_message calloc_ok ev of
             None \<Rightarrow> None
           | Some msg \<Rightarrow>
               (let (b, call) = channel_deliver msg b
                in Some (again, (b, x), (case call of None \<Rightarrow> [] | Some c \<Rightarrow> [c])))))"

definition vector_threadProcReceive :: "'o vxlapi \<Rightarrow> bool \<Rightarrow> 'o vector reader" where
  "vector_threadProcReceive api calloc_ok = loop_result (vector_turn api calloc_ok)"

text \<open>What the thread does before its loop.\<close>

definition vector_thread_begin :: "'o vxlapi \<Rightarrow> 'o vector \<Rightarrow> 'o vector" where
  "vector_thread_begin api x = x\<lparr>vn_os := xlSetNotification api (vc_device_handle x) (vn_os x)\<rparr>"

definition vector_TransmitMessage ::
  "'o vxlapi \<Rightarrow> 'o vector_channel \<Rightarrow> uni_can_message \<Rightarrow> (bool \<times> 'o vector_channel) option" where
  "vector_TransmitMessage api = (\<lambda>(b, x) msg.
     map_option (\<lambda>bytes.
         let event = \<lparr>xt_tag = XL_TRANSMIT_MSG,
               xt_id = (if cm_flags msg AND UNI_CAN_MSG_FLAG_EXT_ID \<noteq> 0 then cm_id msg OR XL_CAN_EXT_MSG_ID else cm_id msg),
               xt_dlc = cm_len msg, xt_data = bytes\<rparr>;
             (sts, s) = xlCanTransmit api (vc_device_handle x) (vector_mask x) event (vn_os x)
         in (sts = XL_SUCCESS, (b, x\<lparr>vn_os := s\<rparr>)))
       (copy_bytes (replicate 8 0) (data_u8 (cm_data msg)) (unat (cm_len msg))))"

definition vector_DeInit :: "'o vector_channel \<Rightarrow> bool \<times> 'o vector_channel" where
  "vector_DeInit ch = (True, ch)"

definition vector_Init :: "'o vxlapi \<Rightarrow> 'o vector_channel \<Rightarrow> bool \<times> 'o vector_channel" where
  "vector_Init api = (\<lambda>(b, x).
     let ((status, handle), s) = xlOpenPort api (vector_mask x) (vn_os x) in
     if status \<noteq> XL_SUCCESS then (False, (b, x\<lparr>vn_os := s\<rparr>))
     else
       let (status, s) = xlCanRequestChipState api handle (vector_mask x) s in
       if status \<noteq> XL_SUCCESS then (False, (b, x\<lparr>vn_os := s\<rparr>))
       else
         let (status, s) = xlCanSetChannelMode api handle (vector_mask x) s in
         if status \<noteq> XL_SUCCESS then (False, (b, x\<lparr>vn_os := s\<rparr>))
         else
           let (status, s) = xlCanSetChannelBitrate api handle (vector_mask x) (vn_info_baudrate x) s in
           if status \<noteq> XL_SUCCESS then (False, (b, x\<lparr>vn_os := s\<rparr>))
           else (True, (b, x\<lparr>vn_os := s, vc_device_handle := handle\<rparr>)))"

definition vector_Open :: "'o vxlapi \<Rightarrow> 'o vector_channel \<Rightarrow> bool \<times> 'o vector_channel" where
  "vector_Open api = (\<lambda>(b, x).
     let b = clear_queue b;
         (status, s) = xlActivateChannel api (vc_device_handle x) (vector_mask x) (vn_os x)
     in if status \<noteq> XL_SUCCESS then (False, (b, x\<lparr>vn_os := s\<rparr>))
        else
          let (status, s) = xlResetClock api (vc_device_handle x) s in
          if status \<noteq> XL_SUCCESS then (False, (b, x\<lparr>vn_os := s\<rparr>))
          else (True, (snd (threadStart b), vector_thread_begin api (x\<lparr>vn_os := s\<rparr>))))"

definition vector_Close :: "'o vxlapi \<Rightarrow> 'o vector_channel \<Rightarrow> bool \<times> 'o vector_channel" where
  "vector_Close api = (\<lambda>(b, x).
     let b = clear_queue (snd (threadStop b));
         (status, s) = xlDeactivateChannel api (vc_device_handle x) (vector_mask x) (vn_os x)
     in (status = XL_SUCCESS, (b, x\<lparr>vn_os := s\<rparr>)))"

definition vector_destructor :: "'o vxlapi \<Rightarrow> 'o vector_channel \<Rightarrow> 'o vector_channel" where
  "vector_destructor api ch = snd (vector_DeInit (snd (vector_Close api ch)))"

text \<open>The virtual functions; a transmission without defined behaviour has the entry \<open>False\<close>.\<close>

definition vector_vtable :: "'o vxlapi \<Rightarrow> 'o vector_channel ICanChannel" where
  "vector_vtable api = backend_vtable (vector_Init api) vector_DeInit (vector_Open api) (vector_Close api)
     (\<lambda>ch msg. case vector_TransmitMessage api ch msg of None \<Rightarrow> (False, ch) | Some r \<Rightarrow> r)"


section \<open>The provider\<close>

definition vector_provider_Init :: "'o vxlapi \<Rightarrow> bool \<times> 'o \<Rightarrow> bool \<times> 'o" where
  "vector_provider_Init api = (\<lambda>(inited, s).
     if \<not> inited then (let (status, s) = xlOpenDriver api s in (status = XL_SUCCESS, s)) else (inited, s))"

definition vector_provider_destructor :: "'o vxlapi \<Rightarrow> bool \<times> 'o \<Rightarrow> 'o" where
  "vector_provider_destructor api = (\<lambda>(inited, s). if inited then xlCloseDriver api s else s)"

definition vector_provider_IsInited :: "bool \<times> 'o \<Rightarrow> bool" where
  "vector_provider_IsInited p = fst p"

definition vector_provider_name :: string where
  "vector_provider_name = ''vector''"

text \<open>\<open>%d\<close> of an unsigned number.\<close>

definition show_as_int :: "u32 \<Rightarrow> string" where
  "show_as_int w = (if sint w < 0 then ''-'' @ show_nat (nat (- sint w)) else show_nat (nat (sint w)))"

definition vector_devinfo :: "xl_channel_config \<Rightarrow> uni_can_devinfo option" where
  "vector_devinfo c =
     (case (copy_text UNI_CAN_DEVINFO_FIELDLEN (xc_name c), copy_text 16 (show_as_int (xc_serialNumber c))) of
        (Some model, Some chnum) \<Rightarrow>
          Some \<lparr>dev_manufacturer = ''Vector'', dev_model = model, dev_sn = chnum, dev_provider = vector_provider_name,
            dev_index = unat (xc_channelMask c), dev_chancnt = 1\<rparr>
      | _ \<Rightarrow> None)"

fun vector_devices :: "xl_channel_config list \<Rightarrow> uni_can_devinfo list option" where
  "vector_devices [] = Some []"
| "vector_devices (c # cs) =
     (if xc_channelBusCapabilities c AND XL_BUS_ACTIVE_CAP_CAN = 0 then vector_devices cs
      else if xc_hwType c = XL_HWTYPE_VIRTUAL then vector_devices cs
      else (case vector_devinfo c of
              None \<Rightarrow> None
            | Some devinfo \<Rightarrow> map_option ((#) devinfo) (vector_devices cs)))"

definition vector_GetDeviceInfo :: "'o vxlapi \<Rightarrow> bool \<times> 'o \<Rightarrow> uni_can_devinfo list option" where
  "vector_GetDeviceInfo api = (\<lambda>(inited, s).
     if \<not> inited then Some []
     else
       let (status, channels) = xlGetDriverConfig api s in
       if status \<noteq> XL_SUCCESS then Some []
       else if XL_CONFIG_MAX_CHANNELS < length channels then None
       else vector_devices channels)"

definition vector_CreateChannel ::
  "'o vxlapi \<Rightarrow> 'o \<Rightarrow> uni_can_devinfo option \<Rightarrow> nat \<Rightarrow> u32 \<Rightarrow> 'o vector_channel channel_object option" where
  "vector_CreateChannel api s devInfo channelIdx baudrate =
     (case devInfo of
        None \<Rightarrow> None
      | Some d \<Rightarrow> if baudrate \<noteq> 0 then Some (vector_vtable api, CanChannelVector s d baudrate) else None)"


section \<open>Receiving\<close>

text \<open>
  The documented behaviour of \<open>xlCanReceive\<close> on one port: events come out in their order, classic
  frames have at most eight bytes, and an empty queue is reported as such.
\<close>

definition vxl_reads :: "'o vxlapi \<Rightarrow> int \<Rightarrow> ('o \<Rightarrow> xl_rx_event list) \<Rightarrow> bool" where
  "vxl_reads api h events \<longleftrightarrow>
     (\<forall>s. case events s of
            [] \<Rightarrow> fst (fst (xlCanReceive api h s)) = XL_ERR_QUEUE_IS_EMPTY \<and> events (snd (xlCanReceive api h s)) = []
          | e # rest \<Rightarrow> fst (xlCanReceive api h s) = (XL_SUCCESS, e) \<and> events (snd (xlCanReceive api h s)) = rest \<and>
              xe_dlc e \<le> 8 \<and> 8 \<le> length (xe_data e))"

definition vector_incoming :: "xl_rx_event \<Rightarrow> uni_can_message list" where
  "vector_incoming ev = (if vector_skips ev then [] else [the (vector_message True ev)])"

lemma vector_message_Some:
  assumes "xe_dlc ev \<le> 8" "8 \<le> length (xe_data ev)"
  shows "vector_message True ev \<noteq> None"
proof -
  have "unat (ucast (xe_dlc ev) :: u16) = unat (xe_dlc ev)"
    by (rule unat_ucast_u8_u16)
  moreover have "unat (xe_dlc ev) \<le> 8"
    using assms(1) by (simp add: word_le_nat_alt)
  ultimately show ?thesis
    using assms(2) by (simp add: vector_message_def received_message_Some)
qed

lemma vector_turn_read:
  assumes "xlCanReceive api (vc_device_handle x) (vn_os x) = ((sts, ev), s)"
  shows "vector_turn api calloc_ok (b, x) =
    (if sts = XL_ERR_QUEUE_IS_EMPTY then Some (False, (b, x\<lparr>vn_os := s\<rparr>), [])
     else if vector_skips ev then Some (XL_SUCCESS = sts, (b, x\<lparr>vn_os := s\<rparr>), [])
     else map_option (\<lambda>msg. (XL_SUCCESS = sts, fst (delivered [msg] b (x\<lparr>vn_os := s\<rparr>)),
         snd (delivered [msg] b (x\<lparr>vn_os := s\<rparr>)))) (vector_message calloc_ok ev))"
  by (simp add: vector_turn_def assms Let_def delivered_def split_beta split: option.split)

interpretation vector_rx: frame_loop "vector_turn api True" "\<lambda>x. events (vn_os x)" vector_incoming
  "\<lambda>x. vxl_reads api (vc_device_handle x) events"
proof unfold_locales
  fix x :: "'a vector" and b e es
  assume reads: "vxl_reads api (vc_device_handle x) events"
  obtain sts ev s where read: "xlCanReceive api (vc_device_handle x) (vn_os x) = ((sts, ev), s)"
    by (metis prod.collapse)
  note law = reads [unfolded vxl_reads_def, THEN spec, of "vn_os x"]
  show "\<exists>x'. vector_turn api True (b, x) = Some (False, (b, x'), []) \<and> vxl_reads api (vc_device_handle x') events \<and>
      events (vn_os x') = []"
    if "events (vn_os x) = []"
  proof -
    have "sts = XL_ERR_QUEUE_IS_EMPTY" "events s = []"
      using law by (simp_all add: that read)
    with reads show ?thesis
      by (intro exI [of _ "x\<lparr>vn_os := s\<rparr>"]) (simp add: vector_turn_read [OF read])
  qed
  show "\<exists>x'. vector_turn api True (b, x) = Some (True, fst (delivered (vector_incoming e) b x'),
        snd (delivered (vector_incoming e) b x')) \<and> vxl_reads api (vc_device_handle x') events \<and> events (vn_os x') = es"
    if "events (vn_os x) = e # es"
  proof -
    have e: "sts = XL_SUCCESS" "ev = e" "events s = es" "xe_dlc e \<le> 8" "8 \<le> length (xe_data e)"
      using law by (simp_all add: that read)
    obtain msg where "vector_message True e = Some msg"
      using vector_message_Some [OF e(4,5)] by blast
    then have "vector_turn api True (b, x) = Some (True, fst (delivered (vector_incoming e) b (x\<lparr>vn_os := s\<rparr>)),
        snd (delivered (vector_incoming e) b (x\<lparr>vn_os := s\<rparr>)))"
      by (simp add: vector_turn_read [OF read] e(1,2) vector_incoming_def delivered_Nil xl_defs(1,2))
    with reads e(3) show ?thesis
      by (intro exI [of _ "x\<lparr>vn_os := s\<rparr>"]) simp
  qed
qed

text \<open>
  A Vector channel receives nothing. The events of \<open>xlCanReceive\<close> have tags of the CAN FD interface
  (0x0400 for a received frame, 0x0401 and up for the others) or are synchronisation pulses (0x000B),
  while the receive thread waits for \<open>XL_RECEIVE_MSG\<close>, the tag 1 of the older \<open>xlReceive\<close>: whatever
  waits in the driver, the thread takes all of it out, queues nothing and never calls the handler.
\<close>

theorem vector_receives_nothing:
  assumes "vxl_reads api (vc_device_handle x) events"
    and "\<forall>e\<in>set (events (vn_os x)). xe_tag e = 0x000B \<or> 0x0400 \<le> xe_tag e"
  shows "\<exists>x'. vector_threadProcReceive api True (b, x) = Some ((b, x'), []) \<and> events (vn_os x') = []"
proof -
  have small: "\<not> (0x0400 :: u16) \<le> 1" "(1 :: u16) \<noteq> 0x000B"
    by code_simp+
  have "vector_incoming e = []" if "e \<in> set (events (vn_os x))" for e
  proof -
    have "xe_tag e = 0x000B \<or> 0x0400 \<le> xe_tag e"
      using assms(2) that by blast
    then have "xe_tag e \<noteq> 1"
      using small by auto
    then show ?thesis
      by (simp add: vector_incoming_def vector_skips_def XL_RECEIVE_MSG_def)
  qed
  then have no_incoming: "concat (map vector_incoming (events (vn_os x))) = []"
    by simp
  obtain x' where "vxl_reads api (vc_device_handle x') events \<and> events (vn_os x') = [] \<and> do_while (vector_turn api True) [] (b, x) =
      Some (Some (fst (delivered [] b x'), [] @ snd (delivered [] b x')))"
    using vector_rx.loop_drains [OF assms(1), of "[]" b] unfolding no_incoming by (elim exE)
  then have "events (vn_os x') = []" "vector_threadProcReceive api True (b, x) = Some ((b, x'), [])"
    by (simp_all add: vector_threadProcReceive_def loop_result_def delivered_Nil)
  then show ?thesis by blast
qed

definition example_xl_frame :: xl_rx_event where
  "example_xl_frame = \<lparr>xe_tag = 0x0400, xe_canId = 0x123, xe_msgFlags = 0, xe_dlc = 2, xe_data = [7, 8] @ replicate 62 0,
     xe_timeStampSync = 5000\<rparr>"

text \<open>A library for examples: its state is the open ports and the events that wait.\<close>

type_synonym example_vxl_state = "int list \<times> xl_rx_event list"

definition example_vxl :: "example_vxl_state vxlapi" where
  "example_vxl = \<lparr>xlOpenDriver = (\<lambda>s. (0, s)), xlCloseDriver = (\<lambda>s. s), xlGetDriverConfig = (\<lambda>_. (0, [])),
     xlOpenPort = (\<lambda>_ (ports, evs). ((0, int (length ports)), (int (length ports) # ports, evs))),
     xlCanRequestChipState = (\<lambda>_ _ s. (0, s)), xlCanSetChannelMode = (\<lambda>_ _ s. (0, s)),
     xlCanSetChannelBitrate = (\<lambda>_ _ rate s. (if rate \<le> 1000000 then 0 else 1, s)),
     xlActivateChannel = (\<lambda>_ _ s. (0, s)), xlDeactivateChannel = (\<lambda>_ _ s. (0, s)), xlResetClock = (\<lambda>_ s. (0, s)),
     xlSetNotification = (\<lambda>_ s. s),
     xlCanReceive = (\<lambda>_ (ports, evs). case evs of
         [] \<Rightarrow> ((10, example_xl_frame), (ports, []))
       | e # rest \<Rightarrow> ((0, e\<lparr>xe_dlc := min 8 (xe_dlc e), xe_data := xe_data e @ replicate 8 0\<rparr>), (ports, rest))),
     xlCanTransmit = (\<lambda>_ _ _ s. (0, s))\<rparr>"

definition example_vxl_events :: "example_vxl_state \<Rightarrow> xl_rx_event list" where
  "example_vxl_events = (\<lambda>(ports, evs). map (\<lambda>e. e\<lparr>xe_dlc := min 8 (xe_dlc e), xe_data := xe_data e @ replicate 8 0\<rparr>) evs)"

lemma example_vxl_reads: "vxl_reads example_vxl h example_vxl_events"
  by (auto simp: vxl_reads_def example_vxl_def example_vxl_events_def xl_defs split: list.split)

theorem vector_receives_nothing_witness:
  "\<exists>x'. vector_threadProcReceive example_vxl True (CanChannelVector ([], [example_xl_frame]) example_device 500000) =
      Some ((fresh_channel_base, x'), []) \<and> example_vxl_events (vn_os x') = []"
  using vector_receives_nothing [OF example_vxl_reads, of "snd (CanChannelVector ([], [example_xl_frame]) example_device 500000)"
      fresh_channel_base]
  by (simp add: CanChannelVector_def example_vxl_events_def example_xl_frame_def)


section \<open>Ports\<close>

text \<open>
  The documented behaviour of ports: \<open>xlOpenPort\<close> opens a new one when it succeeds, and none of the
  functions the code calls closes one.
\<close>

definition vxl_ports_ok :: "'o vxlapi \<Rightarrow> ('o \<Rightarrow> int set) \<Rightarrow> bool" where
  "vxl_ports_ok api ports \<longleftrightarrow>
     (\<forall>m s. case xlOpenPort api m s of ((status, h), s') \<Rightarrow>
        if status = XL_SUCCESS then h \<notin> ports s \<and> ports s' = insert h (ports s) else ports s' = ports s) \<and>
     (\<forall>h m s. ports (snd (xlCanRequestChipState api h m s)) = ports s) \<and>
     (\<forall>h m s. ports (snd (xlCanSetChannelMode api h m s)) = ports s) \<and>
     (\<forall>h m r s. ports (snd (xlCanSetChannelBitrate api h m r s)) = ports s) \<and>
     (\<forall>h m s. ports (snd (xlActivateChannel api h m s)) = ports s) \<and>
     (\<forall>h m s. ports (snd (xlDeactivateChannel api h m s)) = ports s) \<and>
     (\<forall>h s. ports (snd (xlResetClock api h s)) = ports s) \<and>
     (\<forall>h s. ports (xlSetNotification api h s) = ports s)"

lemma vxl_ports_same:
  assumes "vxl_ports_ok api ports"
  shows "ports (snd (xlCanRequestChipState api h m s)) = ports s" "ports (snd (xlCanSetChannelMode api h m s)) = ports s"
    "ports (snd (xlCanSetChannelBitrate api h m r s)) = ports s" "ports (snd (xlActivateChannel api h m s)) = ports s"
    "ports (snd (xlDeactivateChannel api h m s)) = ports s" "ports (snd (xlResetClock api h s)) = ports s"
    "ports (xlSetNotification api h s) = ports s"
  using assms by (simp_all add: vxl_ports_ok_def)

text \<open>
  Every initialisation whose \<open>xlOpenPort\<close> succeeds takes one port that nothing gives back: not the rest
  of an initialisation that fails, not closing, not the destructor.
\<close>

theorem vector_keeps_ports:
  assumes law: "vxl_ports_ok api ports" and opened: "fst (fst (xlOpenPort api (vector_mask x) (vn_os x))) = XL_SUCCESS"
  shows "\<exists>h. h \<notin> ports (vn_os x) \<and> ports (vn_os (snd (snd (vector_Init api (b, x))))) = insert h (ports (vn_os x)) \<and>
    ports (vn_os (snd (snd (vector_Open api (snd (vector_Init api (b, x))))))) = insert h (ports (vn_os x)) \<and>
    ports (vn_os (snd (vector_destructor api (snd (vector_Init api (b, x)))))) = insert h (ports (vn_os x))"
proof -
  obtain h s where port: "xlOpenPort api (vector_mask x) (vn_os x) = ((XL_SUCCESS, h), s)"
    using opened by (metis prod.collapse)
  have new: "h \<notin> ports (vn_os x)" "ports s = insert h (ports (vn_os x))"
    using law [unfolded vxl_ports_ok_def, THEN conjunct1, THEN spec, of "vector_mask x", THEN spec, of "vn_os x"]
    by (simp_all add: port)
  have init: "ports (vn_os (snd (snd (vector_Init api (b, x))))) = insert h (ports (vn_os x))"
    by (simp add: vector_Init_def port split_beta Let_def vxl_ports_same [OF law] new)
  have open_same: "ports (vn_os (snd (snd (vector_Open api ch)))) = ports (vn_os (snd ch))" for ch
    by (cases ch) (simp add: vector_Open_def split_beta Let_def vector_thread_begin_def vxl_ports_same [OF law])
  have "ports (vn_os (snd (vector_destructor api ch))) = ports (vn_os (snd ch))" for ch
    by (cases ch) (simp add: vector_destructor_def vector_DeInit_def vector_Close_def split_beta Let_def vxl_ports_same [OF law])
  with new(1) init open_same show ?thesis by blast
qed

lemma example_vxl_ports: "vxl_ports_ok example_vxl (\<lambda>s. {0..<int (length (fst s))})"
  by (auto simp: vxl_ports_ok_def example_vxl_def XL_SUCCESS_def)

theorem vector_keeps_ports_witness:
  "let ch = CanChannelVector ([], []) example_device 2000000 in
   \<not> fst (vector_Init example_vxl ch) \<and>
   {0..<int (length (fst (vn_os (snd (vector_destructor example_vxl (snd (vector_Init example_vxl ch)))))))} \<noteq> {}"
proof -
  let ?x = "snd (CanChannelVector ([], []) example_device 2000000) :: example_vxl_state vector"
  have "fst (fst (xlOpenPort example_vxl (vector_mask ?x) (vn_os ?x))) = XL_SUCCESS"
    by (simp add: example_vxl_def XL_SUCCESS_def split_beta)
  then obtain h where "{0..<int (length (fst (vn_os (snd (vector_destructor example_vxl
      (snd (vector_Init example_vxl (fresh_channel_base, ?x))))))))} = insert h {0..<int (length (fst (vn_os ?x)))}"
    using vector_keeps_ports [OF example_vxl_ports, of ?x fresh_channel_base] by auto
  moreover have "\<not> fst (vector_Init example_vxl (CanChannelVector ([], []) example_device 2000000))"
    by code_simp
  ultimately show ?thesis
    by (auto simp: CanChannelVector_def)
qed

end
