(* ===== verification/MarathonCan.thy ===== *)
theory MarathonCan
  imports BackendReader
begin

text \<open>
  The backend for Marathon devices (\<open>src/backend_marathon/can_marathon_channel.cpp\<close>,
  \<open>src/backend_marathon/can_marathon_provider.cpp\<close>). The functions of the CHAI library are the record
  \<open>'o chai\<close> of functions over a state \<open>'o\<close>; the constants are those of \<open>chai.h\<close>.
\<close>

section \<open>Data\<close>

record canmsg =
  cn_id :: u32
  cn_data :: "u8 list"
  cn_len :: u8
  cn_flags :: u16
  cn_ts :: u32

record canboard =
  bd_name :: string
  bd_manufact :: string

text \<open>\<open>CiChipStat\<close> gives the number of the board, and \<open>CiBoardInfo\<close> takes its last eight bits.\<close>

record 'o chai =
  CiInit :: "'o \<Rightarrow> 'o"
  CiOpen :: "u8 \<Rightarrow> u8 \<Rightarrow> 'o \<Rightarrow> int \<times> 'o"
  CiClose :: "u8 \<Rightarrow> 'o \<Rightarrow> int \<times> 'o"
  CiStart :: "u8 \<Rightarrow> 'o \<Rightarrow> int \<times> 'o"
  CiStop :: "u8 \<Rightarrow> 'o \<Rightarrow> int \<times> 'o"
  CiSetBaud :: "u8 \<Rightarrow> u8 \<Rightarrow> u8 \<Rightarrow> 'o \<Rightarrow> int \<times> 'o"
  CiWaitEvent :: "u8 \<Rightarrow> 'o \<Rightarrow> int \<times> 'o"
  CiRead :: "u8 \<Rightarrow> 'o \<Rightarrow> (int \<times> canmsg) \<times> 'o"
  CiTransmit :: "u8 \<Rightarrow> canmsg \<Rightarrow> 'o \<Rightarrow> int \<times> 'o"
  CiChipStat :: "u8 \<Rightarrow> 'o \<Rightarrow> int \<times> u16"
  CiBoardInfo :: "u8 \<Rightarrow> 'o \<Rightarrow> int \<times> canboard"
  CiBoardGetSerial :: "u16 \<Rightarrow> 'o \<Rightarrow> string"

type_synonym 'o marathon_channel = "'o vendor_channel backend_channel"

definition CIO_CAN11 :: u8 where "CIO_CAN11 = 0x2"
definition CIO_CAN29 :: u8 where "CIO_CAN29 = 0x4"
definition FRAME_EFF :: u16 where "FRAME_EFF = 0x4"
definition CI_CHAN_NUMS :: nat where "CI_CHAN_NUMS = 8"


section \<open>The channel\<close>

definition CanChannelMarathon :: "'o \<Rightarrow> uni_can_devinfo \<Rightarrow> nat \<Rightarrow> u32 \<Rightarrow> 'o marathon_channel" where
  "CanChannelMarathon s devInfo channelIdx baudrate =
     (fresh_channel_base,
      \<lparr>vn_info_dev = devInfo, vn_info_chidx = of_nat channelIdx, vn_info_baudrate = baudrate, vn_os = s\<rparr>)"

definition marathon_message :: "bool \<Rightarrow> canmsg \<Rightarrow> uni_can_message option" where
  "marathon_message calloc_ok m =
     received_message calloc_ok (ucast (cn_ts m)) (cn_id m) 0 (ucast (cn_len m)) (cn_data m) (unat (ucast (cn_len m) :: u16))"

text \<open>One call of \<open>threadProcReceive\<close>: its result, the channel, and the calls of the handler.\<close>

definition marathon_receive :: "'o chai \<Rightarrow> bool \<Rightarrow> 'o vendor_channel turn" where
  "marathon_receive api calloc_ok = (\<lambda>(b, x).
     let (ready, s) = CiWaitEvent api (vn_info_chidx x) (vn_os x) in
     if ready > 0 then
       let ((n, canmsg_native), s) = CiRead api (vn_info_chidx x) s in
       if n \<noteq> 1 then Some (False, (b, x\<lparr>vn_os := s\<rparr>), [])
       else
         (case marathon_message calloc_ok canmsg_native of
            None \<Rightarrow> None
          | Some msg \<Rightarrow>
              (let (b, call) = channel_deliver msg b
               in Some (True, (b, x\<lparr>vn_os := s\<rparr>), (case call of None \<Rightarrow> [] | Some c \<Rightarrow> [c]))))
     else Some (True, (b, x\<lparr>vn_os := s\<rparr>), []))"

text \<open>The thread calls it again and again and ignores its result.\<close>

definition marathon_threadProcReceive :: "'o chai \<Rightarrow> bool \<Rightarrow> 'o vendor_channel reader" where
  "marathon_threadProcReceive api calloc_ok ch = map_option snd (marathon_receive api calloc_ok ch)"

definition marathon_TransmitMessage ::
  "'o chai \<Rightarrow> 'o marathon_channel \<Rightarrow> uni_can_message \<Rightarrow> (bool \<times> 'o marathon_channel) option" where
  "marathon_TransmitMessage api = (\<lambda>(b, x) msg.
     map_option (\<lambda>bytes.
         let output_frame = \<lparr>cn_id = cm_id msg, cn_data = bytes, cn_len = ucast (cm_len msg), cn_flags = FRAME_EFF, cn_ts = 0\<rparr>;
             (r, s) = CiTransmit api (vn_info_chidx x) output_frame (vn_os x)
         in (r = 0, (b, x\<lparr>vn_os := s\<rparr>)))
       (copy_bytes (replicate 8 0) (data_u8 (cm_data msg)) (unat (cm_len msg))))"

definition marathon_DeInit :: "'o chai \<Rightarrow> 'o marathon_channel \<Rightarrow> bool \<times> 'o marathon_channel" where
  "marathon_DeInit api = (\<lambda>(b, x).
     let (r, s) = CiClose api (vn_info_chidx x) (vn_os x) in (r = 0, (b, x\<lparr>vn_os := s\<rparr>)))"

definition marathon_timing :: "u32 \<Rightarrow> u8 \<times> u8" where
  "marathon_timing baudrate =
     (if baudrate = 10000 then (0x31, 0x1C)
      else if baudrate = 20000 then (0x18, 0x1C)
      else if baudrate = 50000 then (0x09, 0x1C)
      else if baudrate = 100000 then (0x04, 0x1C)
      else if baudrate = 125000 then (0x03, 0x1C)
      else if baudrate = 250000 then (0x01, 0x1C)
      else if baudrate = 500000 then (0x00, 0x1C)
      else if baudrate = 800000 then (0x00, 0x16)
      else if baudrate = 1000000 then (0x00, 0x14)
      else (0, 0))"

definition marathon_Init :: "'o chai \<Rightarrow> 'o marathon_channel \<Rightarrow> bool \<times> 'o marathon_channel" where
  "marathon_Init api = (\<lambda>(b, x).
     let (r, s) = CiOpen api (vn_info_chidx x) (CIO_CAN11 OR CIO_CAN29) (vn_os x) in
     if r \<noteq> 0 then (False, (b, x\<lparr>vn_os := s\<rparr>))
     else
       let (bt0, bt1) = marathon_timing (vn_info_baudrate x);
           (r, s) = CiSetBaud api (vn_info_chidx x) bt0 bt1 s
       in if r \<noteq> 0 then (False, (b, x\<lparr>vn_os := s\<rparr>)) else (True, (b, x\<lparr>vn_os := s\<rparr>)))"

definition marathon_Open :: "'o chai \<Rightarrow> 'o marathon_channel \<Rightarrow> bool \<times> 'o marathon_channel" where
  "marathon_Open api = (\<lambda>(b, x).
     let b = clear_queue b;
         (r, s) = CiStart api (vn_info_chidx x) (vn_os x)
     in if r \<noteq> 0 then (False, (b, x\<lparr>vn_os := s\<rparr>)) else (True, (snd (threadStart b), x\<lparr>vn_os := s\<rparr>)))"

definition marathon_Close :: "'o chai \<Rightarrow> 'o marathon_channel \<Rightarrow> bool \<times> 'o marathon_channel" where
  "marathon_Close api = (\<lambda>(b, x).
     let b = clear_queue (snd (threadStop b));
         (r, s) = CiStop api (vn_info_chidx x) (vn_os x)
     in (r = 0, (b, x\<lparr>vn_os := s\<rparr>)))"

definition marathon_destructor :: "'o chai \<Rightarrow> 'o marathon_channel \<Rightarrow> 'o marathon_channel" where
  "marathon_destructor api ch = snd (marathon_DeInit api (snd (marathon_Close api ch)))"

text \<open>The virtual functions; a transmission without defined behaviour has the entry \<open>False\<close>.\<close>

definition marathon_vtable :: "'o chai \<Rightarrow> 'o marathon_channel ICanChannel" where
  "marathon_vtable api = backend_vtable (marathon_Init api) (marathon_DeInit api) (marathon_Open api) (marathon_Close api)
     (\<lambda>ch msg. case marathon_TransmitMessage api ch msg of None \<Rightarrow> (False, ch) | Some r \<Rightarrow> r)"


section \<open>The provider\<close>

definition marathon_provider_Init :: "'o chai \<Rightarrow> bool \<times> 'o \<Rightarrow> bool \<times> 'o" where
  "marathon_provider_Init api = (\<lambda>(inited, s). if \<not> inited then (True, CiInit api s) else (inited, s))"

definition marathon_provider_IsInited :: "bool \<times> 'o \<Rightarrow> bool" where
  "marathon_provider_IsInited p = fst p"

definition marathon_provider_name :: string where
  "marathon_provider_name = ''marathon''"

definition marathon_devinfo :: "u8 \<Rightarrow> canboard \<Rightarrow> string \<Rightarrow> uni_can_devinfo option" where
  "marathon_devinfo i binfo serial =
     (case (copy_text UNI_CAN_DEVINFO_FIELDLEN (bd_manufact binfo), copy_text UNI_CAN_DEVINFO_FIELDLEN (bd_name binfo),
            copy_text UNI_CAN_DEVINFO_FIELDLEN (serial @ '' CH'' @ show_nat (unat i))) of
        (Some manufacturer, Some model, Some sn) \<Rightarrow>
          Some \<lparr>dev_manufacturer = (if manufacturer = '''' then ''Marathon'' else manufacturer), dev_model = model, dev_sn = sn,
            dev_provider = marathon_provider_name, dev_index = unat i, dev_chancnt = 1\<rparr>
      | _ \<Rightarrow> None)"

text \<open>One turn of the loop over the channels; \<open>None\<close> is a text that does not fit.\<close>

definition marathon_probe :: "'o chai \<Rightarrow> u8 \<Rightarrow> 'o \<Rightarrow> (uni_can_devinfo list \<times> 'o) option" where
  "marathon_probe api i s =
     (let (r, s) = CiOpen api i 0 s in
      if r \<noteq> 0 then Some ([], s)
      else
        let (r, brdnum) = CiChipStat api i s;
            found = (if r \<noteq> 0 then Some []
                     else
                       let (r, binfo) = CiBoardInfo api (ucast brdnum) s in
                       if r \<noteq> 0 then Some []
                       else map_option (\<lambda>d. [d]) (marathon_devinfo i binfo (CiBoardGetSerial api brdnum s)))
        in map_option (\<lambda>ds. (ds, snd (CiClose api i s))) found)"

fun marathon_probe_all :: "'o chai \<Rightarrow> nat list \<Rightarrow> 'o \<Rightarrow> (uni_can_devinfo list \<times> 'o) option" where
  "marathon_probe_all api [] s = Some ([], s)"
| "marathon_probe_all api (i # is) s =
     (case marathon_probe api (of_nat i) s of
        None \<Rightarrow> None
      | Some (ds, s) \<Rightarrow> map_option (\<lambda>(more_ds, s). (ds @ more_ds, s)) (marathon_probe_all api is s))"

definition marathon_GetDeviceInfo :: "'o chai \<Rightarrow> bool \<times> 'o \<Rightarrow> (uni_can_devinfo list \<times> 'o) option" where
  "marathon_GetDeviceInfo api = (\<lambda>(inited, s).
     if \<not> inited then Some ([], s) else marathon_probe_all api [0..<CI_CHAN_NUMS] s)"

definition marathon_CreateChannel ::
  "'o chai \<Rightarrow> 'o \<Rightarrow> uni_can_devinfo option \<Rightarrow> nat \<Rightarrow> u32 \<Rightarrow> 'o marathon_channel channel_object option" where
  "marathon_CreateChannel api s devInfo channelIdx baudrate =
     (case devInfo of
        None \<Rightarrow> None
      | Some d \<Rightarrow> if baudrate \<noteq> 0 then Some (marathon_vtable api, CanChannelMarathon s d (dev_index d) baudrate) else None)"


section \<open>Receiving\<close>

text \<open>
  The documented behaviour of waiting and reading on one channel: waiting reports whether a frame is
  there, and frames come out in their order with at most eight bytes.
\<close>

definition chai_reads :: "'o chai \<Rightarrow> u8 \<Rightarrow> ('o \<Rightarrow> canmsg list) \<Rightarrow> bool" where
  "chai_reads api ch frames \<longleftrightarrow>
     (\<forall>s. frames (snd (CiWaitEvent api ch s)) = frames s \<and> (fst (CiWaitEvent api ch s) > 0 \<longleftrightarrow> frames s \<noteq> [])) \<and>
     (\<forall>s f rest. frames s = f # rest \<longrightarrow>
        fst (CiRead api ch s) = (1, f) \<and> frames (snd (CiRead api ch s)) = rest \<and> cn_len f \<le> 8 \<and> length (cn_data f) = 8)"

definition marathon_incoming :: "canmsg \<Rightarrow> uni_can_message" where
  "marathon_incoming f = the (marathon_message True f)"

lemma marathon_message_Some:
  assumes "cn_len m \<le> 8" "length (cn_data m) = 8"
  shows "marathon_message True m = Some \<lparr>cm_time_us = ucast (cn_ts m), cm_id = cn_id m, cm_flags = 0,
    cm_data = Inline (take (unat (cn_len m)) (cn_data m) @ replicate (8 - unat (cn_len m)) 0), cm_len = ucast (cn_len m)\<rparr>"
proof -
  have "unat (ucast (cn_len m) :: u16) = unat (cn_len m)"
    by (rule unat_ucast_u8_u16)
  moreover have "unat (cn_len m) \<le> 8"
    using assms(1) by (simp add: word_le_nat_alt)
  ultimately show ?thesis
    using assms(2) by (simp add: marathon_message_def received_message_Some)
qed

interpretation marathon_rx: channel_reader "marathon_threadProcReceive api True" "\<lambda>x. map marathon_incoming (frames (vn_os x))"
  "\<lambda>x. length (frames (vn_os x))" "\<lambda>x. chai_reads api (vn_info_chidx x) frames"
proof unfold_locales
  fix x :: "'a vendor_channel" and b
  assume reads: "chai_reads api (vn_info_chidx x) frames"
  obtain ready s where wait: "CiWaitEvent api (vn_info_chidx x) (vn_os x) = (ready, s)"
    by (cases "CiWaitEvent api (vn_info_chidx x) (vn_os x)")
  have s: "frames s = frames (vn_os x)" "ready > 0 \<longleftrightarrow> frames (vn_os x) \<noteq> []"
    using reads [unfolded chai_reads_def, THEN conjunct1, THEN spec, of "vn_os x"] by (simp_all add: wait)
  obtain n m t where read: "CiRead api (vn_info_chidx x) s = ((n, m), t)"
    by (metis prod.collapse)
  show "\<exists>now x'. marathon_threadProcReceive api True (b, x) = Some (delivered now b x') \<and> chai_reads api (vn_info_chidx x') frames \<and>
      map marathon_incoming (frames (vn_os x)) = now @ map marathon_incoming (frames (vn_os x')) \<and>
      length (frames (vn_os x')) \<le> length (frames (vn_os x)) - 1"
  proof (cases "frames (vn_os x)")
    case Nil
    then have "marathon_threadProcReceive api True (b, x) = Some (delivered [] b (x\<lparr>vn_os := s\<rparr>))"
      using s by (simp add: marathon_threadProcReceive_def marathon_receive_def wait delivered_Nil)
    with Nil reads s show ?thesis
      by (intro exI [of _ "[]"] exI [of _ "x\<lparr>vn_os := s\<rparr>"]) simp
  next
    case (Cons f rest)
    then have f: "n = 1" "m = f" "frames t = rest" "cn_len f \<le> 8" "length (cn_data f) = 8"
      using reads [unfolded chai_reads_def, THEN conjunct2, THEN spec, of s, THEN spec, of f, THEN spec, of rest] s(1)
      by (simp_all add: read)
    have "marathon_message True f = Some (marathon_incoming f)"
      by (simp add: marathon_incoming_def marathon_message_Some [OF f(4,5)])
    then have "marathon_threadProcReceive api True (b, x) = Some (delivered [marathon_incoming f] b (x\<lparr>vn_os := t\<rparr>))"
      using s Cons by (simp add: marathon_threadProcReceive_def marathon_receive_def wait read f(1,2) delivered_def split_beta)
    with Cons reads f(3) show ?thesis
      by (intro exI [of _ "[marathon_incoming f]"] exI [of _ "x\<lparr>vn_os := t\<rparr>"]) simp
  qed
qed simp

text \<open>
  Every frame that waits in a Marathon device reaches the application once the receive thread has gone
  round as often as there are frames, each once and in order. None of the messages says whether its
  identifier is standard or extended: their flags are 0.
\<close>

theorem marathon_delivers_in_order:
  assumes "chai_reads api (vn_info_chidx x) frames" "length (frames (vn_os x)) \<le> n"
    and "\<not> ad_deleted a" "ad_vtable a = marathon_vtable api"
    and "msgs = cb_receive_queue b @ map marathon_incoming (frames (vn_os x))"
  shows "\<exists>ch calls. receive_rounds (marathon_threadProcReceive api True) n (b, x) = Some (ch, calls) \<and>
    length calls = (if cb_receive_func b = None then 0 else length (frames (vn_os x))) \<and>
    (\<exists>a'. channel_receive_n adapter_ops_of (length msgs) (Some (a\<lparr>ad_channel := ch\<rparr>)) = (map Some msgs, Some a')) \<and>
    (\<forall>m\<in>set (map marathon_incoming (frames (vn_os x))). cm_flags m = 0)"
proof -
  have live: "backend_live a"
    using assms(3,4) by (simp add: backend_live_def marathon_vtable_def backend_vtable_def)
  have "cm_flags (marathon_incoming f) = 0" if "marathon_message True f \<noteq> None" for f
    using that by (auto simp: marathon_incoming_def marathon_message_def received_message_def uni_can_message_create_def)
  moreover have "marathon_message True f \<noteq> None" if "f \<in> set (frames s)" for f s
    using that
  proof (induction "frames s" arbitrary: s)
    case (Cons g rest)
    then have g: "frames (snd (CiRead api (vn_info_chidx x) s)) = rest" "cn_len g \<le> 8" "length (cn_data g) = 8"
      using assms(1) [unfolded chai_reads_def, THEN conjunct2, THEN spec, of s, THEN spec, of g, THEN spec, of rest] by simp_all
    show ?case
    proof (cases "f = g")
      case True
      with marathon_message_Some [OF g(2,3)] show ?thesis by simp
    next
      case False
      with Cons.prems Cons.hyps(2) [symmetric] have "f \<in> set (frames (snd (CiRead api (vn_info_chidx x) s)))"
        by (simp add: g(1))
      with Cons.hyps(1) [OF g(1) [symmetric]] show ?thesis by blast
    qed
  qed simp
  ultimately have flags: "\<forall>m\<in>set (map marathon_incoming (frames (vn_os x))). cm_flags m = 0"
    by auto
  from marathon_rx.rounds_reach_application [OF assms(1,2) live assms(5)] flags show ?thesis
    unfolding length_map by blast
qed

text \<open>A transmission never says that its identifier is standard: the frame does not depend on the flags.\<close>

theorem marathon_sends_extended:
  "marathon_TransmitMessage api ch (msg\<lparr>cm_flags := flags\<rparr>) = marathon_TransmitMessage api ch msg"
  by (simp add: marathon_TransmitMessage_def split_beta)

text \<open>A library for examples: its state is the open channels and the frames that wait.\<close>

type_synonym example_chai_state = "u8 list \<times> canmsg list"

definition example_canmsg :: canmsg where
  "example_canmsg = \<lparr>cn_id = 0x123, cn_data = [7, 8, 0, 0, 0, 0, 0, 0], cn_len = 2, cn_flags = 0, cn_ts = 5\<rparr>"

definition example_chai_fit :: "canmsg \<Rightarrow> canmsg" where
  "example_chai_fit m = m\<lparr>cn_len := min 8 (cn_len m), cn_data := take 8 (cn_data m @ replicate 8 0)\<rparr>"

definition example_chai :: "example_chai_state chai" where
  "example_chai = \<lparr>CiInit = (\<lambda>s. s),
     CiOpen = (\<lambda>i _ (os, q). if i \<in> set os then (2, (os, q)) else (0, (i # os, q))),
     CiClose = (\<lambda>i (os, q). (0, (removeAll i os, q))), CiStart = (\<lambda>_ s. (0, s)), CiStop = (\<lambda>_ s. (0, s)),
     CiSetBaud = (\<lambda>_ _ _ s. (0, s)), CiWaitEvent = (\<lambda>_ (os, q). (if q = [] then 0 else 1, (os, q))),
     CiRead = (\<lambda>_ (os, q). case q of [] \<Rightarrow> ((0, example_canmsg), (os, [])) | m # rest \<Rightarrow> ((1, example_chai_fit m), (os, rest))),
     CiTransmit = (\<lambda>_ m (os, q). (0, (os, q @ [m]))), CiChipStat = (\<lambda>_ _. (0, 0)),
     CiBoardInfo = (\<lambda>i _. (0, \<lparr>bd_name = ''CAN-bus-USBnp'', bd_manufact = ''''\<rparr>)), CiBoardGetSerial = (\<lambda>_ _. ''42'')\<rparr>"

definition example_chai_frames :: "example_chai_state \<Rightarrow> canmsg list" where
  "example_chai_frames s = map example_chai_fit (snd s)"

lemma example_chai_reads: "chai_reads example_chai ch example_chai_frames"
  by (auto simp: chai_reads_def example_chai_def example_chai_frames_def example_chai_fit_def split_beta split: list.split)

theorem marathon_delivers_in_order_witness:
  "\<exists>a :: (example_chai_state marathon_channel, unit, unit) CanChannelAdapter.
    \<exists>ch calls a'. receive_rounds (marathon_threadProcReceive example_chai True) 3 (ad_channel a) = Some (ch, calls) \<and>
    channel_receive_n adapter_ops_of 1 (Some (a\<lparr>ad_channel := ch\<rparr>)) = ([marathon_message True example_canmsg], Some a')"
proof -
  let ?ch = "CanChannelMarathon ([0], [example_canmsg]) example_device 0 500000 :: example_chai_state marathon_channel"
  let ?m = "marathon_incoming example_canmsg"
  let ?a = "\<lparr>ad_vtable = marathon_vtable example_chai, ad_channel = ?ch, ad_receive_func = None, ad_receive_cookie = (),
    ad_deleted = False\<rparr> :: (example_chai_state marathon_channel, unit, unit) CanChannelAdapter"
  have m: "marathon_message True example_canmsg = Some ?m"
    by (simp add: marathon_incoming_def marathon_message_Some example_canmsg_def word_le_nat_alt)
  have "example_chai_fit example_canmsg = example_canmsg"
    by code_simp
  then have frames: "example_chai_frames (vn_os (snd ?ch)) = [example_canmsg]"
    by (simp add: example_chai_frames_def CanChannelMarathon_def)
  have "cb_receive_queue (fst ?ch) = []"
    by (simp add: CanChannelMarathon_def)
  then have msgs: "[?m] = cb_receive_queue (fst ?ch) @ map marathon_incoming (example_chai_frames (vn_os (snd ?ch)))"
    by (simp add: frames)
  have "length (example_chai_frames (vn_os (snd ?ch))) \<le> 3"
    by (simp add: frames)
  from marathon_delivers_in_order [OF example_chai_reads this _ _ msgs, of ?a]
  obtain ch calls a' where "receive_rounds (marathon_threadProcReceive example_chai True) 3 (fst ?ch, snd ?ch) = Some (ch, calls)"
    "channel_receive_n adapter_ops_of (length [?m]) (Some (?a\<lparr>ad_channel := ch\<rparr>)) = (map Some [?m], Some a')"
    by auto
  then have "receive_rounds (marathon_threadProcReceive example_chai True) 3 (ad_channel ?a) = Some (ch, calls) \<and>
      channel_receive_n adapter_ops_of 1 (Some (?a\<lparr>ad_channel := ch\<rparr>)) = ([marathon_message True example_canmsg], Some a')"
    by (simp add: m)
  then show ?thesis by blast
qed


section \<open>Listing the devices\<close>

text \<open>
  The documented behaviour of channels: opening succeeds only for a channel that is not open yet,
  closing closes one.
\<close>

definition chai_channels_ok :: "'o chai \<Rightarrow> ('o \<Rightarrow> u8 set) \<Rightarrow> bool" where
  "chai_channels_ok api opened \<longleftrightarrow>
     (\<forall>i f s. opened (snd (CiOpen api i f s)) = (if fst (CiOpen api i f s) = 0 then insert i (opened s) else opened s) \<and>
        (i \<in> opened s \<longrightarrow> fst (CiOpen api i f s) \<noteq> 0)) \<and>
     (\<forall>i s. opened (snd (CiClose api i s)) = opened s - {i})"

lemma marathon_probe_closes:
  assumes "chai_channels_ok api opened" "marathon_probe api i s = Some (ds, s')"
  shows "opened s' = opened s"
proof -
  obtain r t where opn: "CiOpen api i 0 s = (r, t)"
    by (cases "CiOpen api i 0 s")
  have t: "opened t = (if r = 0 then insert i (opened s) else opened s)" "i \<in> opened s \<Longrightarrow> r \<noteq> 0"
    using assms(1) [unfolded chai_channels_ok_def, THEN conjunct1, THEN spec, of i, THEN spec, of 0, THEN spec, of s]
    by (simp_all add: opn)
  have "opened (snd (CiClose api i t)) = opened t - {i}"
    using assms(1) by (simp add: chai_channels_ok_def)
  with assms(2) t show ?thesis
    by (auto simp: marathon_probe_def opn split_beta Let_def split: if_splits)
qed

text \<open>
  Listing the Marathon devices leaves every channel as it was: the channels the application has open
  stay open, and each channel the listing opened to ask it is closed again. Nothing that is listed
  belongs to a channel that is in use.
\<close>

theorem marathon_listing_closes:
  assumes law: "chai_channels_ok api opened" and run: "marathon_GetDeviceInfo api (inited, s) = Some (ds, s')"
  shows "opened s' = opened s \<and> (\<forall>d\<in>set ds. dev_index d < 8 \<and> of_nat (dev_index d) \<notin> opened s)"
proof -
  have probe: "\<forall>d\<in>set ds. dev_index d = unat i \<and> i \<notin> opened s" if probed: "marathon_probe api i s = Some (ds, s')" for i s ds s'
  proof -
    have "i \<in> opened s \<longrightarrow> fst (CiOpen api i 0 s) \<noteq> 0"
      using law by (simp add: chai_channels_ok_def)
    then show ?thesis
      using probed
      by (auto simp: marathon_probe_def marathon_devinfo_def split_beta Let_def split: if_splits option.splits)
  qed
  have all: "opened s' = opened s \<and> (\<forall>d\<in>set ds. dev_index d < 8 \<and> of_nat (dev_index d) \<notin> opened s)"
    if "marathon_probe_all api is s = Some (ds, s')" "\<forall>i\<in>set is. i < 8" for "is" s ds s'
    using that
  proof (induction "is" arbitrary: s ds s')
    case (Cons i "is")
    obtain ds1 s1 where one: "marathon_probe api (of_nat i) s = Some (ds1, s1)"
      using Cons.prems(1) by (auto split: option.splits)
    obtain ds2 where rest: "marathon_probe_all api is s1 = Some (ds2, s')" "ds = ds1 @ ds2"
      using Cons.prems(1) one by (auto split: option.splits)
    have "unat (of_nat i :: u8) = i"
      using Cons.prems(2) by (simp add: unat_of_nat take_bit_nat_eq_self)
    then show ?case
      using Cons.IH [OF rest(1)] Cons.prems(2) probe [OF one] marathon_probe_closes [OF law one] rest(2) by auto
  qed simp
  show ?thesis
    using run all [of "[0..<CI_CHAN_NUMS]" s ds s'] by (auto simp: marathon_GetDeviceInfo_def CI_CHAN_NUMS_def split: if_splits)
qed

lemma example_chai_channels: "chai_channels_ok example_chai (set \<circ> fst)"
  by (auto simp: chai_channels_ok_def example_chai_def split_beta)

theorem marathon_listing_closes_witness:
  "\<exists>ds s'. marathon_GetDeviceInfo example_chai (True, ([3], [])) = Some (ds, s') \<and> set (fst s') = {3} \<and> length ds = 7"
proof -
  have "map_option (length \<circ> fst) (marathon_GetDeviceInfo example_chai (True, ([3], []))) = Some 7"
    by code_simp
  then obtain ds s' where run: "marathon_GetDeviceInfo example_chai (True, ([3], [])) = Some (ds, s')" "length ds = 7"
    by auto
  with marathon_listing_closes [OF example_chai_channels run(1)] show ?thesis by auto
qed

end
