(* ===== verification/WaveshareCan.thy ===== *)
theory WaveshareCan
  imports BackendReader
begin

text \<open>
  The backend for Waveshare devices (\<open>src/backend_waveshare/can_waveshare_channel.cpp\<close>,
  \<open>src/backend_waveshare/can_waveshare_provider.cpp\<close>). The functions of \<open>ControlCAN.h\<close> are the record
  \<open>'o vci\<close> of functions over a state \<open>'o\<close>; the device type is the same in all calls and left out.
\<close>

section \<open>Data\<close>

record vci_can_obj =
  vo_ID :: u32
  vo_TimeStamp :: u32
  vo_TimeFlag :: u8
  vo_SendType :: u8
  vo_RemoteFlag :: u8
  vo_ExternFlag :: u8
  vo_DataLen :: u8
  vo_Data :: "u8 list"

record vci_init_config =
  vi_AccCode :: u32
  vi_AccMask :: u32
  vi_Filter :: u8
  vi_Timing0 :: u8
  vi_Timing1 :: u8
  vi_Mode :: u8

record vci_board_info =
  vb_can_Num :: u8
  vb_str_Serial_Num :: string
  vb_str_hw_Type :: string

text \<open>\<open>VCI_Receive\<close> gives the number of frames and the array after the call.\<close>

record 'o vci =
  VCI_OpenDevice :: "nat \<Rightarrow> 'o \<Rightarrow> int \<times> 'o"
  VCI_CloseDevice :: "nat \<Rightarrow> 'o \<Rightarrow> int \<times> 'o"
  VCI_ResetCAN :: "nat \<Rightarrow> u8 \<Rightarrow> 'o \<Rightarrow> int \<times> 'o"
  VCI_InitCAN :: "nat \<Rightarrow> u8 \<Rightarrow> vci_init_config \<Rightarrow> 'o \<Rightarrow> int \<times> 'o"
  VCI_StartCAN :: "nat \<Rightarrow> u8 \<Rightarrow> 'o \<Rightarrow> int \<times> 'o"
  VCI_Receive :: "nat \<Rightarrow> u8 \<Rightarrow> nat \<Rightarrow> 'o \<Rightarrow> (int \<times> vci_can_obj list) \<times> 'o"
  VCI_Transmit :: "nat \<Rightarrow> u8 \<Rightarrow> vci_can_obj \<Rightarrow> 'o \<Rightarrow> int \<times> 'o"
  VCI_FindUsbDevice2 :: "'o \<Rightarrow> int \<times> vci_board_info list"

type_synonym 'o waveshare_channel = "'o vendor_channel backend_channel"

abbreviation waveshare_device :: "'o vendor_channel \<Rightarrow> nat" where
  "waveshare_device x \<equiv> dev_index (vn_info_dev x)"


section \<open>The channel\<close>

definition CanChannelWaveshare :: "'o \<Rightarrow> uni_can_devinfo \<Rightarrow> nat \<Rightarrow> u32 \<Rightarrow> 'o waveshare_channel" where
  "CanChannelWaveshare s devInfo chan_idx baudrate =
     (fresh_channel_base,
      \<lparr>vn_info_dev = devInfo, vn_info_chidx = of_nat chan_idx, vn_info_baudrate = baudrate, vn_os = s\<rparr>)"

text \<open>The time is a product of 32 bits, and 0 when the device gives none.\<close>

definition waveshare_message :: "bool \<Rightarrow> vci_can_obj \<Rightarrow> uni_can_message option" where
  "waveshare_message calloc_ok obj =
     received_message calloc_ok
       (if vo_TimeFlag obj \<noteq> 0 then ucast (vo_TimeStamp obj * 100 :: u32) else 0) (vo_ID obj)
       (if vo_ExternFlag obj \<noteq> 0 then UNI_CAN_MSG_FLAG_EXT_ID else UNI_CAN_MSG_FLAG_STD_ID)
       (ucast (vo_DataLen obj)) (vo_Data obj) (unat (ucast (vo_DataLen obj) :: u16))"

text \<open>The loop over the frames of one call of \<open>VCI_Receive\<close>.\<close>

fun waveshare_push ::
  "bool \<Rightarrow> vci_can_obj list \<Rightarrow> (unit, unit) can_channel_base \<Rightarrow> ((unit, unit) can_channel_base \<times> (unit \<times> unit) list) option" where
  "waveshare_push calloc_ok [] b = Some (b, [])"
| "waveshare_push calloc_ok (obj # objs) b =
     (case waveshare_message calloc_ok obj of
        None \<Rightarrow> None
      | Some msg \<Rightarrow>
          let (b, call) = channel_deliver msg b in
          map_option (\<lambda>(b, calls). (b, (case call of None \<Rightarrow> [] | Some c \<Rightarrow> [c]) @ calls))
            (waveshare_push calloc_ok objs b))"

definition waveshare_turn :: "'o vci \<Rightarrow> bool \<Rightarrow> 'o vendor_channel turn" where
  "waveshare_turn api calloc_ok = (\<lambda>(b, x).
     let ((rcv_len, msg_rcv), s) = VCI_Receive api (waveshare_device x) (vn_info_chidx x) 128 (vn_os x);
         x = x\<lparr>vn_os := s\<rparr>
     in if rcv_len > 0
        then if length msg_rcv < nat rcv_len then None
             else map_option (\<lambda>(b, calls). (True, (b, x), calls)) (waveshare_push calloc_ok (take (nat rcv_len) msg_rcv) b)
        else Some (False, (b, x), []))"

definition waveshare_threadProcReceive :: "'o vci \<Rightarrow> bool \<Rightarrow> 'o vendor_channel reader" where
  "waveshare_threadProcReceive api calloc_ok = loop_result (waveshare_turn api calloc_ok)"

definition waveshare_TransmitMessage ::
  "'o vci \<Rightarrow> 'o waveshare_channel \<Rightarrow> uni_can_message \<Rightarrow> (bool \<times> 'o waveshare_channel) option" where
  "waveshare_TransmitMessage api = (\<lambda>(b, x) msg.
     map_option (\<lambda>bytes.
         let send = \<lparr>vo_ID = cm_id msg, vo_TimeStamp = 0, vo_TimeFlag = 0, vo_SendType = 0, vo_RemoteFlag = 0,
               vo_ExternFlag = (if cm_flags msg AND UNI_CAN_MSG_FLAG_EXT_ID = UNI_CAN_MSG_FLAG_EXT_ID then 1 else 0),
               vo_DataLen = ucast (cm_len msg), vo_Data = bytes\<rparr>;
             (n, s) = VCI_Transmit api (waveshare_device x) (vn_info_chidx x) send (vn_os x)
         in (n = 1, (b, x\<lparr>vn_os := s\<rparr>)))
       (copy_bytes (replicate 8 0) (data_u8 (cm_data msg)) (unat (ucast (cm_len msg) :: u8))))"

definition waveshare_DeInit :: "'o waveshare_channel \<Rightarrow> bool \<times> 'o waveshare_channel" where
  "waveshare_DeInit ch = (True, ch)"

definition waveshare_Init :: "'o waveshare_channel \<Rightarrow> bool \<times> 'o waveshare_channel" where
  "waveshare_Init ch = (True, ch)"

definition waveshare_timing :: "u32 \<Rightarrow> (u8 \<times> u8) option" where
  "waveshare_timing baudrate =
     (if baudrate = 100000 then Some (0x04, 0x1C)
      else if baudrate = 125000 then Some (0x03, 0x1C)
      else if baudrate = 250000 then Some (0x01, 0x1C)
      else if baudrate = 500000 then Some (0x00, 0x1C)
      else if baudrate = 800000 then Some (0x00, 0x16)
      else if baudrate = 1000000 then Some (0x00, 0x14)
      else None)"

definition waveshare_Open :: "'o vci \<Rightarrow> 'o waveshare_channel \<Rightarrow> bool \<times> 'o waveshare_channel" where
  "waveshare_Open api = (\<lambda>(b, x).
     let b = clear_queue b in
     case waveshare_timing (vn_info_baudrate x) of
       None \<Rightarrow> (False, (b, x))
     | Some (timing0, timing1) \<Rightarrow>
         let init_config = \<lparr>vi_AccCode = 0, vi_AccMask = 0xFFFFFFFF, vi_Filter = 1, vi_Timing0 = timing0,
               vi_Timing1 = timing1, vi_Mode = 0\<rparr>;
             (r, s) = VCI_OpenDevice api (waveshare_device x) (vn_os x)
         in if r \<noteq> 1 then (False, (b, x\<lparr>vn_os := s\<rparr>))
            else
              let (r, s) = VCI_ResetCAN api (waveshare_device x) (vn_info_chidx x) s in
              if r \<noteq> 1 then (False, (b, x\<lparr>vn_os := s\<rparr>))
              else
                let (r, s) = VCI_InitCAN api (waveshare_device x) (vn_info_chidx x) init_config s in
                if r \<noteq> 1 then (False, (b, x\<lparr>vn_os := s\<rparr>))
                else
                  let (r, s) = VCI_StartCAN api (waveshare_device x) (vn_info_chidx x) s in
                  if r \<noteq> 1 then (False, (b, x\<lparr>vn_os := s\<rparr>))
                  else (True, (snd (threadStart b), x\<lparr>vn_os := s\<rparr>)))"

definition waveshare_Close :: "'o vci \<Rightarrow> 'o waveshare_channel \<Rightarrow> bool \<times> 'o waveshare_channel" where
  "waveshare_Close api = (\<lambda>(b, x).
     let b = clear_queue (snd (threadStop b));
         (r, s) = VCI_CloseDevice api (waveshare_device x) (vn_os x)
     in (if r \<noteq> 1 then False else True, (b, x\<lparr>vn_os := s\<rparr>)))"

definition waveshare_destructor :: "'o vci \<Rightarrow> 'o waveshare_channel \<Rightarrow> 'o waveshare_channel" where
  "waveshare_destructor api ch = snd (waveshare_DeInit (snd (waveshare_Close api ch)))"

text \<open>The virtual functions; a transmission without defined behaviour has the entry \<open>False\<close>.\<close>

definition waveshare_vtable :: "'o vci \<Rightarrow> 'o waveshare_channel ICanChannel" where
  "waveshare_vtable api = backend_vtable waveshare_Init waveshare_DeInit (waveshare_Open api) (waveshare_Close api)
     (\<lambda>ch msg. case waveshare_TransmitMessage api ch msg of None \<Rightarrow> (False, ch) | Some r \<Rightarrow> r)"


section \<open>The provider\<close>

definition waveshare_provider_Init :: "bool \<Rightarrow> bool" where
  "waveshare_provider_Init inited = (if \<not> inited then True else inited)"

definition waveshare_provider_IsInited :: "bool \<Rightarrow> bool" where
  "waveshare_provider_IsInited inited = inited"

definition waveshare_provider_name :: string where
  "waveshare_provider_name = ''wavesahre''"

definition waveshare_devinfo :: "nat \<Rightarrow> vci_board_info \<Rightarrow> uni_can_devinfo option" where
  "waveshare_devinfo idx info =
     (case (copy_text UNI_CAN_DEVINFO_FIELDLEN (vb_str_hw_Type info), copy_text UNI_CAN_DEVINFO_FIELDLEN (vb_str_Serial_Num info)) of
        (Some model, Some sn) \<Rightarrow>
          Some \<lparr>dev_manufacturer = ''Waveshare'', dev_model = model, dev_sn = sn, dev_provider = waveshare_provider_name,
            dev_index = idx, dev_chancnt = ucast (vb_can_Num info)\<rparr>
      | _ \<Rightarrow> None)"

fun waveshare_devices :: "nat \<Rightarrow> vci_board_info list \<Rightarrow> uni_can_devinfo list option" where
  "waveshare_devices idx [] = Some []"
| "waveshare_devices idx (info # infos) =
     (case waveshare_devinfo idx info of
        None \<Rightarrow> None
      | Some devinfo \<Rightarrow> map_option ((#) devinfo) (waveshare_devices (idx + 1) infos))"

text \<open>
  The number of devices is compared as an unsigned number, so a negative one runs off the array of
  64, as a number above 64 does.
\<close>

definition waveshare_GetDeviceInfo :: "'o vci \<Rightarrow> 'o \<Rightarrow> bool \<Rightarrow> uni_can_devinfo list option" where
  "waveshare_GetDeviceInfo api s inited =
     (if \<not> inited then Some []
      else
        let (device_count, board_info) = VCI_FindUsbDevice2 api s in
        if device_count < 0 \<or> 64 < device_count then None
        else waveshare_devices 0 (take (nat device_count) board_info))"

definition waveshare_CreateChannel ::
  "'o vci \<Rightarrow> 'o \<Rightarrow> uni_can_devinfo option \<Rightarrow> nat \<Rightarrow> u32 \<Rightarrow> 'o waveshare_channel channel_object option" where
  "waveshare_CreateChannel api s devInfo channelIdx baudrate =
     (case devInfo of
        None \<Rightarrow> None
      | Some d \<Rightarrow> if channelIdx < 2 \<and> baudrate \<noteq> 0
          then Some (waveshare_vtable api, CanChannelWaveshare s d channelIdx baudrate) else None)"


section \<open>Receiving\<close>

text \<open>
  The documented behaviour of \<open>VCI_Receive\<close> on one channel: the frames come out in their order in
  batches of at most 128, each with at most eight bytes, and a call that finds none returns 0.
\<close>

definition vci_reads :: "'o vci \<Rightarrow> nat \<Rightarrow> u8 \<Rightarrow> ('o \<Rightarrow> vci_can_obj list list) \<Rightarrow> bool" where
  "vci_reads api dev ch batches \<longleftrightarrow>
     (\<forall>s. case batches s of
            [] \<Rightarrow> fst (fst (VCI_Receive api dev ch 128 s)) = 0 \<and> batches (snd (VCI_Receive api dev ch 128 s)) = []
          | objs # rest \<Rightarrow> objs \<noteq> [] \<and> length objs \<le> 128 \<and>
              fst (fst (VCI_Receive api dev ch 128 s)) = int (length objs) \<and>
              length (snd (fst (VCI_Receive api dev ch 128 s))) = 128 \<and>
              take (length objs) (snd (fst (VCI_Receive api dev ch 128 s))) = objs \<and>
              batches (snd (VCI_Receive api dev ch 128 s)) = rest \<and>
              (\<forall>obj\<in>set objs. vo_DataLen obj \<le> 8 \<and> length (vo_Data obj) = 8))"

definition waveshare_incoming :: "vci_can_obj list \<Rightarrow> uni_can_message list" where
  "waveshare_incoming objs = map (the \<circ> waveshare_message True) objs"

lemma waveshare_message_Some:
  assumes "vo_DataLen obj \<le> 8" "length (vo_Data obj) = 8"
  shows "waveshare_message True obj \<noteq> None"
proof -
  have "unat (ucast (vo_DataLen obj) :: u16) = unat (vo_DataLen obj)"
    by (rule unat_ucast_u8_u16)
  moreover have "unat (vo_DataLen obj) \<le> 8"
    using assms(1) by (simp add: word_le_nat_alt)
  ultimately show ?thesis
    using assms(2) by (simp add: waveshare_message_def received_message_Some)
qed

lemma waveshare_push_delivers:
  assumes "\<forall>obj\<in>set objs. vo_DataLen obj \<le> 8 \<and> length (vo_Data obj) = 8"
  shows "waveshare_push True objs b = Some (channel_deliver_all (waveshare_incoming objs) b)"
  using assms
proof (induction objs arbitrary: b)
  case (Cons obj objs)
  then obtain msg where "waveshare_message True obj = Some msg"
    using waveshare_message_Some [of obj] by auto
  with Cons show ?case
    by (simp add: waveshare_incoming_def split_beta Let_def)
qed (simp add: waveshare_incoming_def)

interpretation waveshare_rx: frame_loop "waveshare_turn api True" "\<lambda>x. batches (vn_os x)" waveshare_incoming
  "\<lambda>x. vci_reads api (waveshare_device x) (vn_info_chidx x) batches"
proof unfold_locales
  fix x :: "'a vendor_channel" and b objs rest
  assume reads: "vci_reads api (waveshare_device x) (vn_info_chidx x) batches"
  obtain n arr s where read: "VCI_Receive api (waveshare_device x) (vn_info_chidx x) 128 (vn_os x) = ((n, arr), s)"
    by (metis prod.collapse)
  note law = reads [unfolded vci_reads_def, THEN spec, of "vn_os x"]
  show "\<exists>x'. waveshare_turn api True (b, x) = Some (False, (b, x'), []) \<and>
      vci_reads api (waveshare_device x') (vn_info_chidx x') batches \<and> batches (vn_os x') = []"
    if "batches (vn_os x) = []"
  proof -
    have "n = 0" "batches s = []"
      using law by (simp_all add: that read)
    with reads show ?thesis
      by (intro exI [of _ "x\<lparr>vn_os := s\<rparr>"]) (simp add: waveshare_turn_def read)
  qed
  show "\<exists>x'. waveshare_turn api True (b, x) = Some (True, fst (delivered (waveshare_incoming objs) b x'),
        snd (delivered (waveshare_incoming objs) b x')) \<and>
      vci_reads api (waveshare_device x') (vn_info_chidx x') batches \<and> batches (vn_os x') = rest"
    if "batches (vn_os x) = objs # rest"
  proof -
    have got: "objs \<noteq> []" "n = int (length objs)" "length objs \<le> length arr" "take (length objs) arr = objs"
      "batches s = rest" "\<forall>obj\<in>set objs. vo_DataLen obj \<le> 8 \<and> length (vo_Data obj) = 8"
      using law by (simp_all add: that read)
    have "waveshare_turn api True (b, x) = Some (True, fst (delivered (waveshare_incoming objs) b (x\<lparr>vn_os := s\<rparr>)),
        snd (delivered (waveshare_incoming objs) b (x\<lparr>vn_os := s\<rparr>)))"
      using got(1,3) by (simp add: waveshare_turn_def read got(2,4) waveshare_push_delivers [OF got(6)] delivered_def split_beta)
    with reads got(5) show ?thesis
      by (intro exI [of _ "x\<lparr>vn_os := s\<rparr>"]) simp
  qed
qed

text \<open>
  Every frame that waits in a Waveshare device reaches the application in one round of the receive
  thread, batch by batch: the loop ends, the handler is called once for every message, and polling
  gives the messages that were queued before and then the frames in the order they arrived.
\<close>

theorem waveshare_delivers_in_order:
  assumes "vci_reads api (waveshare_device x) (vn_info_chidx x) batches" "\<not> ad_deleted a" "ad_vtable a = waveshare_vtable api"
    and "msgs = cb_receive_queue b @ map (the \<circ> waveshare_message True) (concat (batches (vn_os x)))"
  shows "\<exists>ch calls. waveshare_threadProcReceive api True (b, x) = Some (ch, calls) \<and>
    length calls = (if cb_receive_func b = None then 0 else length (concat (batches (vn_os x)))) \<and>
    (\<exists>a'. channel_receive_n adapter_ops_of (length msgs) (Some (a\<lparr>ad_channel := ch\<rparr>)) = (map Some msgs, Some a'))"
proof -
  have live: "backend_live a"
    using assms(2,3) by (simp add: backend_live_def waveshare_vtable_def backend_vtable_def)
  have run: "receive_rounds (loop_result (waveshare_turn api True)) 1 (b, x) = waveshare_threadProcReceive api True (b, x)"
    by (auto simp: waveshare_threadProcReceive_def split: option.split)
  have incoming: "concat (map waveshare_incoming (batches (vn_os x))) = map (the \<circ> waveshare_message True) (concat (batches (vn_os x)))"
    by (simp add: map_concat waveshare_incoming_def [abs_def])
  have "(if batches (vn_os x) = [] then 0 else 1) \<le> (1 :: nat)"
    by simp
  from waveshare_rx.rounds_reach_application [OF assms(1) this live, unfolded incoming, OF assms(4)]
  show ?thesis
    unfolding run length_map .
qed

text \<open>A library for examples: its state is the open devices and the frames that wait,
  which come one by one.\<close>

type_synonym example_vci_state = "nat list \<times> vci_can_obj list"

definition example_vci_obj :: vci_can_obj where
  "example_vci_obj = \<lparr>vo_ID = 0x123, vo_TimeStamp = 50, vo_TimeFlag = 1, vo_SendType = 0, vo_RemoteFlag = 0,
     vo_ExternFlag = 0, vo_DataLen = 2, vo_Data = [7, 8, 0, 0, 0, 0, 0, 0]\<rparr>"

definition example_vci_fit :: "vci_can_obj \<Rightarrow> vci_can_obj" where
  "example_vci_fit obj = obj\<lparr>vo_DataLen := min 8 (vo_DataLen obj), vo_Data := take 8 (vo_Data obj @ replicate 8 0)\<rparr>"

definition example_vci_batches :: "example_vci_state \<Rightarrow> vci_can_obj list list" where
  "example_vci_batches s = map (\<lambda>obj. [example_vci_fit obj]) (snd s)"

definition example_vci :: "example_vci_state vci" where
  "example_vci = \<lparr>VCI_OpenDevice = (\<lambda>d (ds, q). if d \<in> set ds then (0, (ds, q)) else (1, (d # ds, q))),
     VCI_CloseDevice = (\<lambda>d (ds, q). (1, (removeAll d ds, q))),
     VCI_ResetCAN = (\<lambda>_ _ s. (1, s)), VCI_InitCAN = (\<lambda>_ _ _ s. (1, s)), VCI_StartCAN = (\<lambda>_ _ s. (1, s)),
     VCI_Receive = (\<lambda>_ _ _ (ds, q). case q of
         [] \<Rightarrow> ((0, []), (ds, []))
       | obj # rest \<Rightarrow> ((1, example_vci_fit obj # replicate 127 example_vci_obj), (ds, rest))),
     VCI_Transmit = (\<lambda>_ _ _ s. (1, s)), VCI_FindUsbDevice2 = (\<lambda>_. (0, []))\<rparr>"

lemma example_vci_reads: "vci_reads example_vci d ch example_vci_batches"
  by (auto simp: vci_reads_def example_vci_def example_vci_batches_def example_vci_fit_def split: list.split)

theorem waveshare_delivers_in_order_witness:
  "\<exists>a :: (example_vci_state waveshare_channel, unit, unit) CanChannelAdapter.
    \<exists>ch calls a'. waveshare_threadProcReceive example_vci True (ad_channel a) = Some (ch, calls) \<and>
    channel_receive_n adapter_ops_of 2 (Some (a\<lparr>ad_channel := ch\<rparr>)) =
      (replicate 2 (waveshare_message True example_vci_obj), Some a')"
proof -
  let ?ch = "CanChannelWaveshare ([0], [example_vci_obj, example_vci_obj]) example_device 0 500000 :: example_vci_state waveshare_channel"
  let ?m = "the (waveshare_message True example_vci_obj)"
  let ?a = "\<lparr>ad_vtable = waveshare_vtable example_vci, ad_channel = ?ch, ad_receive_func = None, ad_receive_cookie = (),
    ad_deleted = False\<rparr> :: (example_vci_state waveshare_channel, unit, unit) CanChannelAdapter"
  have m: "waveshare_message True example_vci_obj = Some ?m"
    using waveshare_message_Some [of example_vci_obj] by (auto simp: example_vci_obj_def word_le_nat_alt)
  have "example_vci_fit example_vci_obj = example_vci_obj"
    by code_simp
  then have batches: "example_vci_batches (vn_os (snd ?ch)) = [[example_vci_obj], [example_vci_obj]]"
    by (simp add: example_vci_batches_def CanChannelWaveshare_def)
  have "cb_receive_queue (fst ?ch) = []"
    by (simp add: CanChannelWaveshare_def)
  then have msgs: "[?m, ?m] = cb_receive_queue (fst ?ch) @
      map (the \<circ> waveshare_message True) (concat (example_vci_batches (vn_os (snd ?ch))))"
    by (simp add: batches)
  have "\<exists>ch calls. waveshare_threadProcReceive example_vci True (fst ?ch, snd ?ch) = Some (ch, calls) \<and>
    length calls = (if cb_receive_func (fst ?ch) = None then 0 else length (concat (example_vci_batches (vn_os (snd ?ch))))) \<and>
    (\<exists>a'. channel_receive_n adapter_ops_of (length [?m, ?m]) (Some (?a\<lparr>ad_channel := ch\<rparr>)) = (map Some [?m, ?m], Some a'))"
    by (rule waveshare_delivers_in_order [OF example_vci_reads _ _ msgs]) simp_all
  moreover have "length [?m, ?m] = 2" "map Some [?m, ?m] = replicate 2 (waveshare_message True example_vci_obj)"
    by (simp_all add: m [symmetric] numeral_2_eq_2)
  ultimately show ?thesis
    by (intro exI [of _ ?a]) (metis (no_types, lifting) CanChannelAdapter.select_convs(2) prod.collapse)
qed


section \<open>Two channels of one device\<close>

text \<open>
  The documented behaviour of devices: an open device cannot be opened again, closing closes it for
  everyone, and the other functions open and close nothing.
\<close>

definition vci_devices_ok :: "'o vci \<Rightarrow> ('o \<Rightarrow> nat set) \<Rightarrow> bool" where
  "vci_devices_ok api opened \<longleftrightarrow>
     (\<forall>d s. opened (snd (VCI_OpenDevice api d s)) = (if fst (VCI_OpenDevice api d s) = 1 then insert d (opened s) else opened s) \<and>
        (d \<in> opened s \<longrightarrow> fst (VCI_OpenDevice api d s) \<noteq> 1)) \<and>
     (\<forall>d s. opened (snd (VCI_CloseDevice api d s)) = opened s - {d}) \<and>
     (\<forall>d c s. opened (snd (VCI_ResetCAN api d c s)) = opened s \<and> opened (snd (VCI_StartCAN api d c s)) = opened s) \<and>
     (\<forall>d c i s. opened (snd (VCI_InitCAN api d c i s)) = opened s)"

text \<open>
  A Waveshare device has two channels, but a second channel of a device that is open already
  cannot be opened, and destroying it after the failure closes the device of the first channel: its
  frames are lost although nobody closed it. A channel on a device of its own opens, and its destructor
  leaves every other device open.
\<close>

theorem waveshare_destructor_closes_device:
  assumes law: "vci_devices_ok api opened" and rate: "waveshare_timing (vn_info_baudrate x) \<noteq> None"
  shows "if waveshare_device x \<in> opened (vn_os x)
    then \<not> fst (waveshare_Open api (b, x)) \<and>
      opened (vn_os (snd (snd (waveshare_Open api (b, x))))) = opened (vn_os x) \<and>
      opened (vn_os (snd (waveshare_destructor api (snd (waveshare_Open api (b, x)))))) = opened (vn_os x) - {waveshare_device x}
    else opened (vn_os (snd (waveshare_destructor api (snd (waveshare_Open api (b, x)))))) = opened (vn_os x)"
proof -
  obtain t0 t1 where t: "waveshare_timing (vn_info_baudrate x) = Some (t0, t1)"
    using rate by (metis not_None_eq surj_pair)
  have same: "opened (snd (VCI_ResetCAN api d c s)) = opened s" "opened (snd (VCI_StartCAN api d c s)) = opened s"
    "opened (snd (VCI_InitCAN api d c i s)) = opened s" "opened (snd (VCI_CloseDevice api d s)) = opened s - {d}" for d c i s
    using law by (simp_all add: vci_devices_ok_def)
  obtain r s where opn: "VCI_OpenDevice api (waveshare_device x) (vn_os x) = (r, s)"
    by (cases "VCI_OpenDevice api (waveshare_device x) (vn_os x)")
  have law_open: "opened s = (if r = 1 then insert (waveshare_device x) (opened (vn_os x)) else opened (vn_os x))"
    "waveshare_device x \<in> opened (vn_os x) \<Longrightarrow> r \<noteq> 1"
    using law [unfolded vci_devices_ok_def, THEN conjunct1, THEN spec, of "waveshare_device x", THEN spec, of "vn_os x"]
    by (simp_all add: opn)
  have destroyed: "opened (vn_os (snd (waveshare_destructor api ch))) = opened (vn_os (snd ch)) - {waveshare_device (snd ch)}" for ch
    by (cases ch) (simp add: waveshare_destructor_def waveshare_DeInit_def waveshare_Close_def split_beta Let_def same)
  have after: "opened (vn_os (snd (snd (waveshare_Open api (b, x))))) = opened s"
    "waveshare_device (snd (snd (waveshare_Open api (b, x)))) = waveshare_device x"
    "r \<noteq> 1 \<Longrightarrow> \<not> fst (waveshare_Open api (b, x))"
    by (simp_all add: waveshare_Open_def t opn split_beta Let_def same)
  show ?thesis
    using law_open after by (simp add: destroyed)
qed

lemma example_vci_devices: "vci_devices_ok example_vci (set \<circ> fst)"
  by (auto simp: vci_devices_ok_def example_vci_def split_beta split: list.split)

theorem waveshare_destructor_closes_device_witness:
  "let ch = CanChannelWaveshare ([dev_index example_device], []) example_device 1 500000 in
   \<not> fst (waveshare_Open example_vci ch) \<and>
   set (fst (vn_os (snd (waveshare_destructor example_vci (snd (waveshare_Open example_vci ch)))))) = {}"
proof -
  let ?x = "snd (CanChannelWaveshare ([dev_index example_device], []) example_device 1 500000) :: example_vci_state vendor_channel"
  have "waveshare_timing (vn_info_baudrate ?x) \<noteq> None" "waveshare_device ?x \<in> (set \<circ> fst) (vn_os ?x)"
    "(set \<circ> fst) (vn_os ?x) - {waveshare_device ?x} = {}"
    by (simp_all add: waveshare_timing_def CanChannelWaveshare_def)
  with waveshare_destructor_closes_device [OF example_vci_devices this(1), of fresh_channel_base] show ?thesis
    by (simp add: CanChannelWaveshare_def)
qed

end
