(* ===== verification/IxxatCan.thy ===== *)
theory IxxatCan
  imports BackendReader "HOL-Library.Multiset"
begin

text \<open>
  The backend for IXXAT devices (\<open>src/backend_ixxat/can_ixxat_channel.cpp\<close>,
  \<open>src/backend_ixxat/can_ixxat_provider.cpp\<close>). The functions of the VCI library and the events of
  Windows are the record \<open>'o ixvci\<close> of functions over a state \<open>'o\<close>; the constants are those of
  \<open>cantype.h\<close>.

  The interfaces of the library are counted references: a pointer is a number, a null pointer \<open>None\<close>,
  and calling through a null pointer has no defined behaviour, which is the result \<open>None\<close>.
\<close>

section \<open>Data\<close>

record ixxat_msg =
  xm_dwTime :: u32
  xm_dwMsgId :: u32
  xm_bType :: u8
  xm_bFlags :: u8
  xm_abData :: "u8 list"

record ixxat_caps =
  xp_dwClockFreq :: u32
  xp_dwTscDivisor :: u32

text \<open>Bit rate, segments and jump width of \<open>CANBTP\<close>; the other two members are 0.\<close>

type_synonym ixxat_btp = "u32 \<times> u16 \<times> u16 \<times> u16"

record ixxat_init =
  xi_bOpMode :: u8
  xi_bExMode :: u8
  xi_bSFMode :: u8
  xi_bEFMode :: u8
  xi_sBtpSdr :: ixxat_btp
  xi_sBtpFdr :: ixxat_btp

record ixxat_device_info =
  xd_VciObjectId :: nat
  xd_Description :: string
  xd_UniqueHardwareId :: string

text \<open>
  The result of a call is whether it returned \<open>VCI_OK\<close>; a call with an output pointer gives the
  pointer as well. \<open>ix_ReleaseWrite\<close> with a message commits it, without one it gives the buffer back.
\<close>

record 'o ixvci =
  ix_GetDeviceManager :: "'o \<Rightarrow> (bool \<times> nat option) \<times> 'o"
  ix_OpenDevice :: "nat \<Rightarrow> nat \<Rightarrow> 'o \<Rightarrow> (bool \<times> nat option) \<times> 'o"
  ix_OpenComponent :: "nat \<Rightarrow> 'o \<Rightarrow> (bool \<times> nat option) \<times> 'o"
  ix_OpenCanSocket :: "nat \<Rightarrow> u8 \<Rightarrow> 'o \<Rightarrow> (bool \<times> nat option) \<times> 'o"
  ix_OpenCanControl :: "nat \<Rightarrow> u8 \<Rightarrow> 'o \<Rightarrow> (bool \<times> nat option) \<times> 'o"
  ix_GetCapabilities :: "nat \<Rightarrow> 'o \<Rightarrow> (bool \<times> ixxat_caps) \<times> 'o"
  ix_CreateChannel :: "nat \<Rightarrow> 'o \<Rightarrow> (bool \<times> nat option) \<times> 'o"
  ix_Initialize :: "nat \<Rightarrow> u16 \<Rightarrow> u16 \<Rightarrow> 'o \<Rightarrow> bool \<times> 'o"
  ix_GetReader :: "nat \<Rightarrow> 'o \<Rightarrow> (bool \<times> nat option) \<times> 'o"
  ix_GetWriter :: "nat \<Rightarrow> 'o \<Rightarrow> (bool \<times> nat option) \<times> 'o"
  ix_SetThreshold :: "nat \<Rightarrow> u16 \<Rightarrow> 'o \<Rightarrow> 'o"
  ix_CreateEvent :: "'o \<Rightarrow> int \<times> 'o"
  ix_AssignEvent :: "nat \<Rightarrow> int \<Rightarrow> 'o \<Rightarrow> 'o"
  ix_Activate :: "nat \<Rightarrow> 'o \<Rightarrow> bool \<times> 'o"
  ix_Deactivate :: "nat \<Rightarrow> 'o \<Rightarrow> 'o"
  ix_InitLine :: "nat \<Rightarrow> ixxat_init \<Rightarrow> 'o \<Rightarrow> bool \<times> 'o"
  ix_SetAccFilter :: "nat \<Rightarrow> u8 \<Rightarrow> u32 \<Rightarrow> u32 \<Rightarrow> 'o \<Rightarrow> bool \<times> 'o"
  ix_StartLine :: "nat \<Rightarrow> 'o \<Rightarrow> 'o"
  ix_StopLine :: "nat \<Rightarrow> 'o \<Rightarrow> 'o"
  ix_Release :: "nat \<Rightarrow> 'o \<Rightarrow> 'o"
  ix_AcquireRead :: "nat \<Rightarrow> 'o \<Rightarrow> (bool \<times> ixxat_msg list) \<times> 'o"
  ix_ReleaseRead :: "nat \<Rightarrow> nat \<Rightarrow> 'o \<Rightarrow> 'o"
  ix_AcquireWrite :: "nat \<Rightarrow> 'o \<Rightarrow> (bool \<times> ixxat_msg list) \<times> 'o"
  ix_ReleaseWrite :: "nat \<Rightarrow> ixxat_msg option \<Rightarrow> 'o \<Rightarrow> bool \<times> 'o"
  ix_EnumDevices :: "nat \<Rightarrow> 'o \<Rightarrow> (bool \<times> (nat \<times> ixxat_device_info list)) \<times> 'o"

record 'o ixxat = "'o vendor_channel" +
  ix_device_mgr :: "nat option"
  ix_device :: "nat option"
  ix_device_bal :: "nat option"
  ix_can_socket :: "nat option"
  ix_can_channel :: "nat option"
  ix_can_control :: "nat option"
  ix_can_reader :: "nat option"
  ix_can_reader_event :: int
  ix_can_capabilities :: ixxat_caps
  ix_can_writer :: "nat option"

type_synonym 'o ixxat_channel = "'o ixxat backend_channel"

definition CAN_MSGTYPE_DATA :: u8 where "CAN_MSGTYPE_DATA = 0"

text \<open>\<open>CAN_EDLC_TO_LEN\<close> and \<open>CAN_LEN_TO_SDLC\<close>, and \<open>CAN_MAKE_MSGFLAGS\<close> for an extended data frame.\<close>

definition CAN_EDLC_TO_LEN :: "nat \<Rightarrow> nat" where
  "CAN_EDLC_TO_LEN dlc =
     (if dlc \<le> 15 then [0, 1, 2, 3, 4, 5, 6, 7, 8, 12, 16, 20, 24, 32, 48, 64] ! dlc else 64)"

definition CAN_LEN_TO_SDLC :: "u16 \<Rightarrow> u8" where
  "CAN_LEN_TO_SDLC len = (if len \<le> 8 then ucast len else 8)"

definition ixxat_data_flags :: "u8 \<Rightarrow> u8" where
  "ixxat_data_flags dlc = 0x80 OR (dlc AND 0x0F)"

definition ixxat_dlc :: "ixxat_msg \<Rightarrow> nat" where
  "ixxat_dlc m = unat (xm_bFlags m AND 0x0F)"


section \<open>Opening and closing\<close>

definition CanChannelIxxat :: "'o \<Rightarrow> uni_can_devinfo \<Rightarrow> nat \<Rightarrow> u32 \<Rightarrow> 'o ixxat_channel" where
  "CanChannelIxxat s devInfo channelIdx baudrate =
     (fresh_channel_base,
      \<lparr>vn_info_dev = devInfo, vn_info_chidx = of_nat channelIdx, vn_info_baudrate = baudrate, vn_os = s,
       ix_device_mgr = None, ix_device = None, ix_device_bal = None, ix_can_socket = None, ix_can_channel = None,
       ix_can_control = None, ix_can_reader = None, ix_can_reader_event = 0,
       ix_can_capabilities = \<lparr>xp_dwClockFreq = 0, xp_dwTscDivisor = 0\<rparr>, ix_can_writer = None\<rparr>)"

definition ixxat_Close :: "'o ixvci \<Rightarrow> 'o ixxat_channel \<Rightarrow> bool \<times> 'o ixxat_channel" where
  "ixxat_Close api = (\<lambda>(b, x).
     let x = (case ix_can_control x of None \<Rightarrow> x | Some c \<Rightarrow> x\<lparr>vn_os := ix_StopLine api c (vn_os x)\<rparr>)
     in (True, (clear_queue (snd (threadStop b)), x)))"

definition ixxat_Open :: "'o ixvci \<Rightarrow> 'o ixxat_channel \<Rightarrow> bool \<times> 'o ixxat_channel" where
  "ixxat_Open api = (\<lambda>(b, x).
     let b = clear_queue b in
     case ix_can_control x of
       None \<Rightarrow> (False, (b, x))
     | Some c \<Rightarrow> (True, (snd (threadStart b), x\<lparr>vn_os := ix_StartLine api c (vn_os x)\<rparr>)))"

text \<open>The bit timing of a rate; an unknown rate has the empty one.\<close>

definition ixxat_timing :: "u32 \<Rightarrow> ixxat_btp" where
  "ixxat_timing baudrate =
     (if baudrate = 5000 then (5000, 17, 8, 1)
      else if baudrate \<in> {10000, 20000, 50000, 100000, 125000, 250000, 500000} then (baudrate, 14, 2, 1)
      else if baudrate = 800000 then (800000, 8, 2, 1)
      else if baudrate = 1000000 then (1000000, 6, 2, 1)
      else (0, 0, 0, 0))"

definition ixxat_init_params :: "u32 \<Rightarrow> ixxat_init" where
  "ixxat_init_params baudrate = \<lparr>xi_bOpMode = 0x07, xi_bExMode = 0, xi_bSFMode = 3, xi_bEFMode = 3,
     xi_sBtpSdr = ixxat_timing baudrate, xi_sBtpFdr = (0, 0, 0, 0)\<rparr>"

text \<open>
  \<open>Init\<close> is a sequence of calls that ends at the first one that fails. A step is one of them, with the
  member it writes.
\<close>

type_synonym 'o ixxat_step = "'o ixxat \<Rightarrow> (bool \<times> 'o ixxat) option"

fun ixxat_steps :: "'o ixxat_step list \<Rightarrow> 'o ixxat_step" where
  "ixxat_steps [] x = Some (True, x)"
| "ixxat_steps (step # steps) x =
     (case step x of
        None \<Rightarrow> None
      | Some (ok, x) \<Rightarrow> if ok then ixxat_steps steps x else Some (False, x))"

definition ixxat_init_mgr :: "'o ixvci \<Rightarrow> 'o ixxat_step" where
  "ixxat_init_mgr api x =
     (let ((ok, p), s) = ix_GetDeviceManager api (vn_os x) in Some (ok, x\<lparr>ix_device_mgr := p, vn_os := s\<rparr>))"

definition ixxat_init_device :: "'o ixvci \<Rightarrow> 'o ixxat_step" where
  "ixxat_init_device api x =
     map_option (\<lambda>mgr. let ((ok, p), s) = ix_OpenDevice api mgr (dev_index (vn_info_dev x)) (vn_os x)
        in (ok, x\<lparr>ix_device := p, vn_os := s\<rparr>)) (ix_device_mgr x)"

definition ixxat_init_bal :: "'o ixvci \<Rightarrow> 'o ixxat_step" where
  "ixxat_init_bal api x =
     map_option (\<lambda>dev. let ((ok, p), s) = ix_OpenComponent api dev (vn_os x)
        in (ok, x\<lparr>ix_device_bal := p, vn_os := s\<rparr>)) (ix_device x)"

definition ixxat_init_socket :: "'o ixvci \<Rightarrow> 'o ixxat_step" where
  "ixxat_init_socket api x =
     map_option (\<lambda>bal. let ((ok, p), s) = ix_OpenCanSocket api bal (vn_info_chidx x) (vn_os x)
        in (ok, x\<lparr>ix_can_socket := p, vn_os := s\<rparr>)) (ix_device_bal x)"

definition ixxat_init_control :: "'o ixvci \<Rightarrow> 'o ixxat_step" where
  "ixxat_init_control api x =
     map_option (\<lambda>bal. let ((ok, p), s) = ix_OpenCanControl api bal (vn_info_chidx x) (vn_os x)
        in (ok, x\<lparr>ix_can_control := p, vn_os := s\<rparr>)) (ix_device_bal x)"

definition ixxat_init_caps :: "'o ixvci \<Rightarrow> 'o ixxat_step" where
  "ixxat_init_caps api x =
     map_option (\<lambda>sock. let ((ok, caps), s) = ix_GetCapabilities api sock (vn_os x)
        in (ok, x\<lparr>ix_can_capabilities := caps, vn_os := s\<rparr>)) (ix_can_socket x)"

definition ixxat_init_channel :: "'o ixvci \<Rightarrow> 'o ixxat_step" where
  "ixxat_init_channel api x =
     map_option (\<lambda>sock. let ((ok, p), s) = ix_CreateChannel api sock (vn_os x)
        in (ok, x\<lparr>ix_can_channel := p, vn_os := s\<rparr>)) (ix_can_socket x)"

definition ixxat_init_fifos :: "'o ixvci \<Rightarrow> 'o ixxat_step" where
  "ixxat_init_fifos api x =
     map_option (\<lambda>ch. let (ok, s) = ix_Initialize api ch 1024 128 (vn_os x) in (ok, x\<lparr>vn_os := s\<rparr>)) (ix_can_channel x)"

definition ixxat_init_reader :: "'o ixvci \<Rightarrow> 'o ixxat_step" where
  "ixxat_init_reader api x =
     map_option (\<lambda>ch. let ((ok, p), s) = ix_GetReader api ch (vn_os x)
        in (ok, x\<lparr>ix_can_reader := p, vn_os := s\<rparr>)) (ix_can_channel x)"

definition ixxat_init_writer :: "'o ixvci \<Rightarrow> 'o ixxat_step" where
  "ixxat_init_writer api x =
     map_option (\<lambda>ch. let ((ok, p), s) = ix_GetWriter api ch (vn_os x)
        in (ok, x\<lparr>ix_can_writer := p, vn_os := s\<rparr>)) (ix_can_channel x)"

text \<open>The thresholds, the event of the reader, and \<open>Activate\<close>.\<close>

definition ixxat_init_activate :: "'o ixvci \<Rightarrow> 'o ixxat_step" where
  "ixxat_init_activate api x =
     (case (ix_can_reader x, ix_can_writer x, ix_can_channel x) of
        (Some r, Some w, Some ch) \<Rightarrow>
          let s = ix_SetThreshold api w 1 (ix_SetThreshold api r 1 (vn_os x));
              (event, s) = ix_CreateEvent api s;
              (ok, s) = ix_Activate api ch (ix_AssignEvent api r event s)
          in Some (ok, x\<lparr>ix_can_reader_event := event, vn_os := s\<rparr>)
      | _ \<Rightarrow> None)"

definition ixxat_init_line :: "'o ixvci \<Rightarrow> 'o ixxat_step" where
  "ixxat_init_line api x =
     map_option (\<lambda>c. let (ok, s) = ix_InitLine api c (ixxat_init_params (vn_info_baudrate x)) (vn_os x)
        in (ok, x\<lparr>vn_os := s\<rparr>)) (ix_can_control x)"

text \<open>The acceptance filter \<open>CAN_FILTER_STD\<close> (1) or \<open>CAN_FILTER_EXT\<close> (2) lets everything pass.\<close>

definition ixxat_init_filter :: "'o ixvci \<Rightarrow> u8 \<Rightarrow> 'o ixxat_step" where
  "ixxat_init_filter api kind x =
     map_option (\<lambda>c. let (ok, s) = ix_SetAccFilter api c kind 0 0 (vn_os x) in (ok, x\<lparr>vn_os := s\<rparr>)) (ix_can_control x)"

definition ixxat_Init :: "'o ixvci \<Rightarrow> 'o ixxat_channel \<Rightarrow> (bool \<times> 'o ixxat_channel) option" where
  "ixxat_Init api = (\<lambda>(b, x).
     map_option (\<lambda>(r, x). (r, (b, x)))
       (ixxat_steps [ixxat_init_mgr api, ixxat_init_device api, ixxat_init_bal api, ixxat_init_socket api,
          ixxat_init_control api, ixxat_init_caps api, ixxat_init_channel api, ixxat_init_fifos api, ixxat_init_reader api,
          ixxat_init_writer api, ixxat_init_activate api, ixxat_init_line api, ixxat_init_filter api 1, ixxat_init_filter api 2] x))"

text \<open>\<open>DeInit\<close> releases what there is, from the reader back to the device manager.\<close>

definition ixxat_release :: "'o ixvci \<Rightarrow> nat option \<Rightarrow> 'o \<Rightarrow> 'o" where
  "ixxat_release api p s = (case p of None \<Rightarrow> s | Some q \<Rightarrow> ix_Release api q s)"

definition ixxat_DeInit :: "'o ixvci \<Rightarrow> 'o ixxat_channel \<Rightarrow> bool \<times> 'o ixxat_channel" where
  "ixxat_DeInit api = (\<lambda>(b, x).
     let s = ixxat_release api (ix_can_writer x) (ixxat_release api (ix_can_reader x) (vn_os x));
         s = (case ix_can_control x of None \<Rightarrow> s | Some c \<Rightarrow> ix_Release api c (ix_StopLine api c s));
         s = (case ix_can_channel x of None \<Rightarrow> s | Some c \<Rightarrow> ix_Release api c (ix_Deactivate api c s));
         s = ixxat_release api (ix_can_socket x) s;
         s = ixxat_release api (ix_device_bal x) s;
         s = ixxat_release api (ix_device x) s;
         s = ixxat_release api (ix_device_mgr x) s
     in (True, (b, x\<lparr>vn_os := s, ix_can_reader := None, ix_can_writer := None, ix_can_control := None,
          ix_can_channel := None, ix_can_socket := None, ix_device_bal := None, ix_device := None, ix_device_mgr := None\<rparr>)))"

definition ixxat_destructor :: "'o ixvci \<Rightarrow> 'o ixxat_channel \<Rightarrow> 'o ixxat_channel" where
  "ixxat_destructor api ch = snd (ixxat_DeInit api (snd (ixxat_Close api ch)))"


section \<open>Transmitting and receiving\<close>

text \<open>The buffer is written from its first message on, so nothing is written when it has none.\<close>

definition ixxat_TransmitMessage ::
  "'o ixvci \<Rightarrow> 'o ixxat_channel \<Rightarrow> uni_can_message \<Rightarrow> (bool \<times> 'o ixxat_channel) option" where
  "ixxat_TransmitMessage api = (\<lambda>(b, x) msg.
     case ix_can_writer x of
       None \<Rightarrow> None
     | Some w \<Rightarrow>
         let ((ok, buffer), s) = ix_AcquireWrite api w (vn_os x) in
         if \<not> ok then Some (False, (b, x\<lparr>vn_os := s\<rparr>))
         else
           (case buffer of
              [] \<Rightarrow> Some (False, (b, x\<lparr>vn_os := snd (ix_ReleaseWrite api w None s)\<rparr>))
            | msg_native # _ \<Rightarrow>
                map_option (\<lambda>bytes.
                    let native = msg_native\<lparr>xm_dwMsgId := cm_id msg, xm_dwTime := 0, xm_bType := CAN_MSGTYPE_DATA,
                          xm_bFlags := ixxat_data_flags (CAN_LEN_TO_SDLC (cm_len msg)), xm_abData := bytes\<rparr>;
                        (ok, s) = ix_ReleaseWrite api w (Some native) s
                    in (ok, (b, x\<lparr>vn_os := s\<rparr>)))
                  (copy_bytes (replicate 8 0) (data_u8 (cm_data msg)) 8)))"

text \<open>Dividing by a clock frequency of 0 has no defined behaviour.\<close>

definition ixxat_message :: "bool \<Rightarrow> ixxat_caps \<Rightarrow> ixxat_msg \<Rightarrow> uni_can_message option" where
  "ixxat_message calloc_ok caps m =
     (if xp_dwClockFreq caps = 0 then None
      else received_message calloc_ok
        (ucast (xm_dwTime m) * 1000000 * ucast (xp_dwTscDivisor caps) div ucast (xp_dwClockFreq caps))
        (xm_dwMsgId m) 0 (of_nat (CAN_EDLC_TO_LEN (ixxat_dlc m))) (xm_abData m) 8)"

fun ixxat_push ::
  "bool \<Rightarrow> ixxat_caps \<Rightarrow> ixxat_msg list \<Rightarrow> (unit, unit) can_channel_base
    \<Rightarrow> ((unit, unit) can_channel_base \<times> (unit \<times> unit) list) option" where
  "ixxat_push calloc_ok caps [] b = Some (b, [])"
| "ixxat_push calloc_ok caps (m # ms) b =
     (if xm_bType m = CAN_MSGTYPE_DATA then
        (case ixxat_message calloc_ok caps m of
           None \<Rightarrow> None
         | Some msg \<Rightarrow>
             let (b, call) = channel_deliver msg b in
             map_option (\<lambda>(b, calls). (b, (case call of None \<Rightarrow> [] | Some c \<Rightarrow> [c]) @ calls))
               (ixxat_push calloc_ok caps ms b))
      else ixxat_push calloc_ok caps ms b)"

text \<open>
  \<open>threadProcReceive\<close>; its result tells the thread to call it again without waiting, so the thread is
  a loop of such turns once its event was signalled.
\<close>

definition ixxat_threadProcReceive :: "'o ixvci \<Rightarrow> bool \<Rightarrow> 'o ixxat turn" where
  "ixxat_threadProcReceive api calloc_ok = (\<lambda>(b, x).
     case ix_can_reader x of
       None \<Rightarrow> Some (False, (b, x), [])
     | Some r \<Rightarrow>
         let ((ok, msgs), s) = ix_AcquireRead api r (vn_os x) in
         if \<not> ok then Some (False, (b, x\<lparr>vn_os := s\<rparr>), [])
         else
           map_option (\<lambda>(b, calls). (True, (b, x\<lparr>vn_os := ix_ReleaseRead api r (length msgs) s\<rparr>), calls))
             (ixxat_push calloc_ok (ix_can_capabilities x) msgs b))"

definition ixxat_threadProc :: "'o ixvci \<Rightarrow> bool \<Rightarrow> 'o ixxat reader" where
  "ixxat_threadProc api calloc_ok = loop_result (ixxat_threadProcReceive api calloc_ok)"

text \<open>The virtual functions; calls without defined behaviour have the entry \<open>False\<close>.\<close>

definition ixxat_vtable :: "'o ixvci \<Rightarrow> 'o ixxat_channel ICanChannel" where
  "ixxat_vtable api = backend_vtable
     (\<lambda>ch. case ixxat_Init api ch of None \<Rightarrow> (False, ch) | Some r \<Rightarrow> r)
     (ixxat_DeInit api) (ixxat_Open api) (ixxat_Close api)
     (\<lambda>ch msg. case ixxat_TransmitMessage api ch msg of None \<Rightarrow> (False, ch) | Some r \<Rightarrow> r)"


section \<open>The provider\<close>

definition ixxat_provider_IsInited :: bool where
  "ixxat_provider_IsInited = True"

definition ixxat_provider_name :: string where
  "ixxat_provider_name = ''ixxat''"

definition ixxat_devinfo :: "ixxat_device_info \<Rightarrow> uni_can_devinfo option" where
  "ixxat_devinfo info =
     (case (copy_text UNI_CAN_DEVINFO_FIELDLEN (xd_Description info), copy_text UNI_CAN_DEVINFO_FIELDLEN (xd_UniqueHardwareId info)) of
        (Some model, Some sn) \<Rightarrow>
          Some \<lparr>dev_manufacturer = ''HMS IXXAT'', dev_model = model, dev_sn = sn, dev_provider = ixxat_provider_name,
            dev_index = xd_VciObjectId info, dev_chancnt = 1\<rparr>
      | _ \<Rightarrow> None)"

fun ixxat_devices :: "ixxat_device_info list \<Rightarrow> uni_can_devinfo list option" where
  "ixxat_devices [] = Some []"
| "ixxat_devices (info # infos) =
     (case ixxat_devinfo info of
        None \<Rightarrow> None
      | Some devinfo \<Rightarrow> map_option ((#) devinfo) (ixxat_devices infos))"

text \<open>The enumerator is its pointer and the devices that \<open>Next\<close> gives until it fails.\<close>

definition ixxat_GetDeviceInfo :: "'o ixvci \<Rightarrow> 'o \<Rightarrow> (uni_can_devinfo list \<times> 'o) option" where
  "ixxat_GetDeviceInfo api s =
     (let ((ok, mgr), s) = ix_GetDeviceManager api s in
      if \<not> ok then Some ([], s)
      else
        (case mgr of
           None \<Rightarrow> None
         | Some mgr \<Rightarrow>
             let ((ok, enum, infos), s) = ix_EnumDevices api mgr s in
             if \<not> ok then Some ([], ix_Release api mgr s)
             else map_option (\<lambda>ds. (ds, ix_Release api mgr (ix_Release api enum s))) (ixxat_devices infos)))"

definition ixxat_CreateChannel ::
  "'o ixvci \<Rightarrow> 'o \<Rightarrow> uni_can_devinfo option \<Rightarrow> nat \<Rightarrow> u32 \<Rightarrow> 'o ixxat_channel channel_object option" where
  "ixxat_CreateChannel api s devInfo channelIdx baudrate =
     (case devInfo of
        None \<Rightarrow> None
      | Some d \<Rightarrow> if baudrate \<noteq> 0 then Some (ixxat_vtable api, CanChannelIxxat s d channelIdx baudrate) else None)"

section \<open>Interfaces\<close>

text \<open>
  The documented behaviour of the interfaces: a call with an output pointer that returns \<open>VCI_OK\<close> gives
  a new reference, one that fails gives a null pointer; \<open>Release\<close> gives one reference back; no other
  call changes the references. \<open>refs\<close> are the references the process holds, counted.
\<close>

definition ix_gives :: "('o \<Rightarrow> nat multiset) \<Rightarrow> ('o \<Rightarrow> (bool \<times> nat option) \<times> 'o) \<Rightarrow> bool" where
  "ix_gives refs f \<longleftrightarrow> (\<forall>s. case f s of ((ok, p), s') \<Rightarrow>
     (if ok then \<exists>q. p = Some q \<and> refs s' = add_mset q (refs s) else p = None \<and> refs s' = refs s))"

definition ix_keeps :: "('o \<Rightarrow> nat multiset) \<Rightarrow> ('o \<Rightarrow> 'o) \<Rightarrow> bool" where
  "ix_keeps refs f \<longleftrightarrow> (\<forall>s. refs (f s) = refs s)"

definition ixvci_refs_ok :: "'o ixvci \<Rightarrow> ('o \<Rightarrow> nat multiset) \<Rightarrow> bool" where
  "ixvci_refs_ok api refs \<longleftrightarrow>
     (ix_gives refs (ix_GetDeviceManager api) \<and> (\<forall>p i. ix_gives refs (ix_OpenDevice api p i)) \<and>
      (\<forall>p. ix_gives refs (ix_OpenComponent api p)) \<and> (\<forall>p c. ix_gives refs (ix_OpenCanSocket api p c)) \<and>
      (\<forall>p c. ix_gives refs (ix_OpenCanControl api p c)) \<and> (\<forall>p. ix_gives refs (ix_CreateChannel api p)) \<and>
      (\<forall>p. ix_gives refs (ix_GetReader api p)) \<and> (\<forall>p. ix_gives refs (ix_GetWriter api p))) \<and>
     (\<forall>p s. refs (ix_Release api p s) = refs s - {#p#}) \<and>
     ((\<forall>p. ix_keeps refs (snd \<circ> ix_GetCapabilities api p)) \<and> (\<forall>p m n. ix_keeps refs (snd \<circ> ix_Initialize api p m n)) \<and>
      (\<forall>p n. ix_keeps refs (ix_SetThreshold api p n)) \<and> ix_keeps refs (snd \<circ> ix_CreateEvent api) \<and>
      (\<forall>p e. ix_keeps refs (ix_AssignEvent api p e)) \<and> (\<forall>p. ix_keeps refs (snd \<circ> ix_Activate api p)) \<and>
      (\<forall>p. ix_keeps refs (ix_Deactivate api p)) \<and> (\<forall>p i. ix_keeps refs (snd \<circ> ix_InitLine api p i)) \<and>
      (\<forall>p k c m. ix_keeps refs (snd \<circ> ix_SetAccFilter api p k c m)) \<and> (\<forall>p. ix_keeps refs (ix_StartLine api p)) \<and>
      (\<forall>p. ix_keeps refs (ix_StopLine api p)) \<and> (\<forall>p. ix_keeps refs (snd \<circ> ix_AcquireRead api p)) \<and>
      (\<forall>p n. ix_keeps refs (ix_ReleaseRead api p n)) \<and> (\<forall>p. ix_keeps refs (snd \<circ> ix_AcquireWrite api p)) \<and>
      (\<forall>p m. ix_keeps refs (snd \<circ> ix_ReleaseWrite api p m)))"

lemma ix_keepsD: "ix_keeps refs (snd \<circ> f) \<Longrightarrow> refs (snd (f s)) = refs s"
  by (simp add: ix_keeps_def)

lemma ixvci_release:
  assumes "ixvci_refs_ok api refs"
  shows "refs (ix_Release api p s) = refs s - {#p#}"
  using assms [unfolded ixvci_refs_ok_def, THEN conjunct2, THEN conjunct1] by simp

lemma ixvci_keeps:
  assumes "ixvci_refs_ok api refs"
  shows "refs (snd (ix_GetCapabilities api p s)) = refs s" "refs (snd (ix_Initialize api p m n s)) = refs s"
    "refs (ix_SetThreshold api p n s) = refs s" "refs (snd (ix_CreateEvent api s)) = refs s"
    "refs (ix_AssignEvent api p e s) = refs s" "refs (snd (ix_Activate api p s)) = refs s"
    "refs (ix_Deactivate api p s) = refs s" "refs (snd (ix_InitLine api p i s)) = refs s"
    "refs (snd (ix_SetAccFilter api p k c d s)) = refs s" "refs (ix_StartLine api p s) = refs s"
    "refs (ix_StopLine api p s) = refs s" "refs (snd (ix_AcquireRead api p s)) = refs s"
    "refs (ix_ReleaseRead api p j s) = refs s" "refs (snd (ix_AcquireWrite api p s)) = refs s"
    "refs (snd (ix_ReleaseWrite api p w s)) = refs s"
  using assms [unfolded ixvci_refs_ok_def, THEN conjunct2, THEN conjunct2]
  by (simp_all add: ix_keeps_def)

lemma ixvci_gives:
  assumes "ixvci_refs_ok api refs"
  shows "ix_gives refs (ix_GetDeviceManager api)" "ix_gives refs (ix_OpenDevice api p i)"
    "ix_gives refs (ix_OpenComponent api p)" "ix_gives refs (ix_OpenCanSocket api p c)"
    "ix_gives refs (ix_OpenCanControl api p c)" "ix_gives refs (ix_CreateChannel api p)"
    "ix_gives refs (ix_GetReader api p)" "ix_gives refs (ix_GetWriter api p)"
  using assms [unfolded ixvci_refs_ok_def, THEN conjunct1] by simp_all

text \<open>The references of the members, and the account of a channel whose process held \<open>base\<close> before.\<close>

definition mset_ptr :: "nat option \<Rightarrow> nat multiset" where
  "mset_ptr p = (case p of None \<Rightarrow> {#} | Some q \<Rightarrow> {#q#})"

lemma mset_ptr_simps [simp]: "mset_ptr None = {#}" "mset_ptr (Some q) = {#q#}"
  by (simp_all add: mset_ptr_def)

definition ixxat_held :: "'o ixxat \<Rightarrow> nat multiset" where
  "ixxat_held x = mset_ptr (ix_device_mgr x) + mset_ptr (ix_device x) + mset_ptr (ix_device_bal x) + mset_ptr (ix_can_socket x) +
     mset_ptr (ix_can_channel x) + mset_ptr (ix_can_control x) + mset_ptr (ix_can_reader x) + mset_ptr (ix_can_writer x)"

definition ixxat_accounts :: "('o \<Rightarrow> nat multiset) \<Rightarrow> nat multiset \<Rightarrow> 'o ixxat \<Rightarrow> bool" where
  "ixxat_accounts refs base x \<longleftrightarrow> refs (vn_os x) = base + ixxat_held x"

lemma ix_given: "ix_gives refs f \<Longrightarrow> refs (snd (f s)) = refs s + mset_ptr (snd (fst (f s)))"
proof -
  assume "ix_gives refs f"
  then have "case f s of ((ok, p), s') \<Rightarrow>
      (if ok then \<exists>q. p = Some q \<and> refs s' = add_mset q (refs s) else p = None \<and> refs s' = refs s)"
    by (simp add: ix_gives_def)
  then show ?thesis
    by (auto simp: split_beta split: if_splits)
qed

lemmas ixvci_given = ixvci_gives [THEN ix_given]

text \<open>
  The members that are null before each step: \<open>Init\<close> fills them one by one, so that no step writes over
  a pointer it would lose.
\<close>

definition ixxat_nulls :: "nat \<Rightarrow> 'o ixxat \<Rightarrow> bool" where
  "ixxat_nulls n x \<longleftrightarrow>
     (n \<le> 0 \<longrightarrow> ix_device_mgr x = None) \<and> (n \<le> 1 \<longrightarrow> ix_device x = None) \<and> (n \<le> 2 \<longrightarrow> ix_device_bal x = None) \<and>
     (n \<le> 3 \<longrightarrow> ix_can_socket x = None) \<and> (n \<le> 4 \<longrightarrow> ix_can_control x = None) \<and> (n \<le> 6 \<longrightarrow> ix_can_channel x = None) \<and>
     (n \<le> 8 \<longrightarrow> ix_can_reader x = None) \<and> (n \<le> 9 \<longrightarrow> ix_can_writer x = None)"

definition ixxat_step_ok :: "('o \<Rightarrow> nat multiset) \<Rightarrow> nat multiset \<Rightarrow> nat \<Rightarrow> 'o ixxat_step \<Rightarrow> bool" where
  "ixxat_step_ok refs base n step \<longleftrightarrow>
     (\<forall>x ok x'. step x = Some (ok, x') \<longrightarrow> ixxat_accounts refs base x \<longrightarrow> ixxat_nulls n x \<longrightarrow>
        ixxat_accounts refs base x' \<and> ixxat_nulls (Suc n) x')"

lemma ixxat_steps_ok:
  assumes "\<forall>i<length steps. ixxat_step_ok refs base (n + i) (steps ! i)" "ixxat_steps steps x = Some (r, x')"
    "ixxat_accounts refs base x" "ixxat_nulls n x"
  shows "ixxat_accounts refs base x'"
  using assms
proof (induction steps arbitrary: n x)
  case (Cons step steps)
  obtain ok x1 where step: "step x = Some (ok, x1)"
    using Cons.prems(2) by (cases "step x") auto
  have "ixxat_step_ok refs base n step"
    using Cons.prems(1) [rule_format, of 0] by simp
  with step Cons.prems(3,4) have next_ok: "ixxat_accounts refs base x1" "ixxat_nulls (Suc n) x1"
    unfolding ixxat_step_ok_def by blast+
  have "\<forall>i<length steps. ixxat_step_ok refs base (Suc n + i) (steps ! i)"
    using Cons.prems(1) by fastforce
  with Cons.IH [of "Suc n" x1] Cons.prems(2) next_ok step show ?case
    by (cases ok) auto
qed simp

lemma ixxat_init_steps_ok:
  assumes law: "ixvci_refs_ok api refs"
  shows "ixxat_step_ok refs base 0 (ixxat_init_mgr api)" "ixxat_step_ok refs base 1 (ixxat_init_device api)"
    "ixxat_step_ok refs base 2 (ixxat_init_bal api)" "ixxat_step_ok refs base 3 (ixxat_init_socket api)"
    "ixxat_step_ok refs base 4 (ixxat_init_control api)" "ixxat_step_ok refs base 5 (ixxat_init_caps api)"
    "ixxat_step_ok refs base 6 (ixxat_init_channel api)" "ixxat_step_ok refs base 7 (ixxat_init_fifos api)"
    "ixxat_step_ok refs base 8 (ixxat_init_reader api)" "ixxat_step_ok refs base 9 (ixxat_init_writer api)"
    "ixxat_step_ok refs base 10 (ixxat_init_activate api)" "ixxat_step_ok refs base 11 (ixxat_init_line api)"
    "ixxat_step_ok refs base 12 (ixxat_init_filter api 1)" "ixxat_step_ok refs base 13 (ixxat_init_filter api 2)"
  unfolding ixxat_step_ok_def ixxat_accounts_def ixxat_nulls_def ixxat_held_def
    ixxat_init_mgr_def ixxat_init_device_def ixxat_init_bal_def ixxat_init_socket_def ixxat_init_control_def
    ixxat_init_caps_def ixxat_init_channel_def ixxat_init_fifos_def ixxat_init_reader_def ixxat_init_writer_def
    ixxat_init_activate_def ixxat_init_line_def ixxat_init_filter_def
  by (auto simp: split_beta Let_def ixvci_keeps [OF law] ixvci_given [OF law] split: option.splits)

lemma ixxat_new_accounts:
  "ixxat_accounts refs (refs s) (snd (CanChannelIxxat s d idx baudrate))" "ixxat_nulls 0 (snd (CanChannelIxxat s d idx baudrate))"
  by (simp_all add: ixxat_accounts_def ixxat_held_def ixxat_nulls_def CanChannelIxxat_def)

lemma ixxat_init_accounts:
  assumes law: "ixvci_refs_ok api refs" and run: "ixxat_Init api (b, x) = Some (r, (b', x'))"
    and acc: "ixxat_accounts refs base x" "ixxat_nulls 0 x"
  shows "ixxat_accounts refs base x'"
proof -
  let ?steps = "[ixxat_init_mgr api, ixxat_init_device api, ixxat_init_bal api, ixxat_init_socket api,
    ixxat_init_control api, ixxat_init_caps api, ixxat_init_channel api, ixxat_init_fifos api, ixxat_init_reader api,
    ixxat_init_writer api, ixxat_init_activate api, ixxat_init_line api, ixxat_init_filter api 1, ixxat_init_filter api 2]"
  have run': "ixxat_steps ?steps x = Some (r, x')"
    using run by (auto simp: ixxat_Init_def simp del: ixxat_steps.simps)
  have "\<forall>i<14. ixxat_step_ok refs base i (?steps ! i)"
    using ixxat_init_steps_ok [OF law, of base] by (simp add: All_less_Suc numeral_eq_Suc)
  then have "\<forall>i<length ?steps. ixxat_step_ok refs base (0 + i) (?steps ! i)"
    by simp
  from ixxat_steps_ok [OF this run' acc] show ?thesis .
qed

lemma ixxat_release_refs:
  assumes "ixvci_refs_ok api refs"
  shows "refs (ixxat_release api p s) = refs s - mset_ptr p"
  by (cases p) (simp_all add: ixxat_release_def ixvci_release [OF assms])

lemma ixxat_deinit_refs:
  assumes law: "ixvci_refs_ok api refs" and acc: "ixxat_accounts refs base x"
  shows "refs (vn_os (snd (snd (ixxat_DeInit api (b, x))))) = base" "ixxat_nulls 0 (snd (snd (ixxat_DeInit api (b, x))))"
proof -
  have stopped: "refs (case c of None \<Rightarrow> s | Some c \<Rightarrow> ix_Release api c (ix_StopLine api c s)) = refs s - mset_ptr c"
    "refs (case c of None \<Rightarrow> s | Some c \<Rightarrow> ix_Release api c (ix_Deactivate api c s)) = refs s - mset_ptr c" for c s
    by (cases c; simp add: ixvci_release [OF law] ixvci_keeps [OF law])+
  have "refs (vn_os (snd (snd (ixxat_DeInit api (b, x))))) =
    refs (vn_os x) - (mset_ptr (ix_can_reader x) + mset_ptr (ix_can_writer x) + mset_ptr (ix_can_control x) +
      mset_ptr (ix_can_channel x) + mset_ptr (ix_can_socket x) + mset_ptr (ix_device_bal x) + mset_ptr (ix_device x) +
      mset_ptr (ix_device_mgr x))"
    by (simp add: ixxat_DeInit_def Let_def ixxat_release_refs [OF law] stopped)
  also have "\<dots> = base"
    using acc by (simp add: ixxat_accounts_def ixxat_held_def ac_simps)
  finally show "refs (vn_os (snd (snd (ixxat_DeInit api (b, x))))) = base" .
  show "ixxat_nulls 0 (snd (snd (ixxat_DeInit api (b, x))))"
    by (simp add: ixxat_DeInit_def Let_def ixxat_nulls_def)
qed

datatype ixxat_op = IxOpen | IxClose | IxTransmit uni_can_message | IxReceive bool

fun ixxat_do :: "'o ixvci \<Rightarrow> ixxat_op \<Rightarrow> 'o ixxat_channel \<Rightarrow> 'o ixxat_channel option" where
  "ixxat_do api IxOpen ch = Some (snd (ixxat_Open api ch))"
| "ixxat_do api IxClose ch = Some (snd (ixxat_Close api ch))"
| "ixxat_do api (IxTransmit msg) ch = map_option snd (ixxat_TransmitMessage api ch msg)"
| "ixxat_do api (IxReceive calloc_ok) ch = map_option (fst \<circ> snd) (ixxat_threadProcReceive api calloc_ok ch)"

fun ixxat_run :: "'o ixvci \<Rightarrow> ixxat_op list \<Rightarrow> 'o ixxat_channel \<Rightarrow> 'o ixxat_channel option" where
  "ixxat_run api [] ch = Some ch"
| "ixxat_run api (p # ps) ch = (case ixxat_do api p ch of None \<Rightarrow> None | Some ch \<Rightarrow> ixxat_run api ps ch)"

text \<open>A channel whose \<open>Init\<close> succeeded has its writer, until \<open>DeInit\<close>.\<close>

lemma ixxat_steps_append:
  "ixxat_steps (xs @ ys) x = Some (True, x') \<Longrightarrow> \<exists>x1. ixxat_steps xs x = Some (True, x1) \<and> ixxat_steps ys x1 = Some (True, x')"
  by (induction xs arbitrary: x) (auto split: option.splits if_splits)

lemma ixxat_steps_writer:
  assumes "ixxat_steps [ixxat_init_activate api, ixxat_init_line api, ixxat_init_filter api 1, ixxat_init_filter api 2] x = Some (True, x')"
  shows "ix_can_writer x' \<noteq> None"
  using assms
  by (auto simp: ixxat_init_activate_def ixxat_init_line_def ixxat_init_filter_def Let_def split_beta split: option.splits if_splits)

lemma ixxat_init_writer_there:
  assumes "ixxat_Init api ch = Some (True, ch')"
  shows "ix_can_writer (snd ch') \<noteq> None"
proof -
  let ?first = "[ixxat_init_mgr api, ixxat_init_device api, ixxat_init_bal api, ixxat_init_socket api,
    ixxat_init_control api, ixxat_init_caps api, ixxat_init_channel api, ixxat_init_fifos api, ixxat_init_reader api,
    ixxat_init_writer api]"
  obtain b x where ch: "ch = (b, x)"
    by (cases ch)
  have "ixxat_steps (?first @ [ixxat_init_activate api, ixxat_init_line api, ixxat_init_filter api 1, ixxat_init_filter api 2]) x =
      Some (True, snd ch')"
    using assms by (auto simp: ixxat_Init_def ch simp del: ixxat_steps.simps)
  from ixxat_steps_append [OF this] show ?thesis
    using ixxat_steps_writer by blast
qed

lemma ixxat_do_writer: "ixxat_do api p ch = Some ch' \<Longrightarrow> ix_can_writer (snd ch') = ix_can_writer (snd ch)"
  by (cases ch; cases p)
    (auto simp: ixxat_Open_def ixxat_Close_def ixxat_TransmitMessage_def ixxat_threadProcReceive_def Let_def split_beta
      split: option.splits if_splits list.splits)

lemma ixxat_run_writer: "ixxat_run api ps ch = Some ch' \<Longrightarrow> ix_can_writer (snd ch') = ix_can_writer (snd ch)"
  by (induction ps arbitrary: ch) (auto split: option.splits dest: ixxat_do_writer)

lemma ixxat_do_accounts:
  assumes law: "ixvci_refs_ok api refs" and run: "ixxat_do api p (b, x) = Some (b', x')" and acc: "ixxat_accounts refs base x"
  shows "ixxat_accounts refs base x'"
proof -
  have "\<exists>s. x' = x\<lparr>vn_os := s\<rparr> \<and> refs s = refs (vn_os x)"
  proof (cases p)
    case IxOpen
    with run show ?thesis
      by (intro exI [of _ "vn_os x'"]) (auto simp: ixxat_Open_def Let_def ixvci_keeps [OF law] split: option.splits)
  next
    case IxClose
    with run show ?thesis
      by (intro exI [of _ "vn_os x'"]) (auto simp: ixxat_Close_def Let_def ixvci_keeps [OF law] split: option.splits)
  next
    case IxTransmit
    with run show ?thesis
      by (intro exI [of _ "vn_os x'"])
        (auto simp: ixxat_TransmitMessage_def Let_def split_beta ixvci_keeps [OF law] split: option.splits if_splits list.splits)
  next
    case IxReceive
    with run show ?thesis
      by (intro exI [of _ "vn_os x'"])
        (auto simp: ixxat_threadProcReceive_def Let_def split_beta ixvci_keeps [OF law] split: option.splits if_splits)
  qed
  with acc show ?thesis
    by (auto simp: ixxat_accounts_def ixxat_held_def)
qed

text \<open>
  C24. An IXXAT channel releases every interface it took: at whichever of its fourteen steps \<open>Init\<close>
  fails, or if it succeeds, and whatever is opened, closed, sent and received in between, after \<open>DeInit\<close>
  the process holds exactly the references it held before, and \<open>Init\<close> can be called again.
\<close>

theorem ixxat_releases_interfaces:
  assumes law: "ixvci_refs_ok api refs"
    and init: "ixxat_Init api (CanChannelIxxat s devInfo idx baudrate) = Some (r, ch)"
    and run: "ixxat_run api ps ch = Some ch'"
  shows "refs (vn_os (snd (snd (ixxat_DeInit api ch')))) = refs s \<and> ixxat_held (snd (snd (ixxat_DeInit api ch'))) = {#}"
proof -
  obtain b x where new: "CanChannelIxxat s devInfo idx baudrate = (b, x)"
    by (cases "CanChannelIxxat s devInfo idx baudrate")
  have "ixxat_accounts refs (refs s) x" "ixxat_nulls 0 x"
    using ixxat_new_accounts(1) [of refs s devInfo idx baudrate] ixxat_new_accounts(2) [of s devInfo idx baudrate]
    by (simp_all add: new)
  then have "ixxat_accounts refs (refs s) (snd ch)"
    using ixxat_init_accounts [OF law, of b x r "fst ch" "snd ch" "refs s"] init by (simp add: new)
  then have "ixxat_accounts refs (refs s) (snd ch')"
    using run
  proof (induction ps arbitrary: ch)
    case (Cons p ps)
    then obtain ch1 where step: "ixxat_do api p ch = Some ch1" "ixxat_run api ps ch1 = Some ch'"
      by (auto split: option.splits)
    have "ixxat_accounts refs (refs s) (snd ch1)"
      by (rule ixxat_do_accounts [OF law, of p "fst ch" "snd ch" "fst ch1"]) (use step(1) Cons.prems(1) in simp_all)
    then show ?case
      using step(2) by (rule Cons.IH)
  qed simp
  from ixxat_deinit_refs [OF law this, of "fst ch'"] show ?thesis
    by (simp add: ixxat_nulls_def ixxat_held_def)
qed

text \<open>A library for examples: its state is the references it gave and the batches that wait.\<close>

type_synonym example_ixvci_state = "nat list \<times> ixxat_msg list list"

definition example_ix_give :: "nat \<Rightarrow> example_ixvci_state \<Rightarrow> (bool \<times> nat option) \<times> example_ixvci_state" where
  "example_ix_give p = (\<lambda>(refs, q). ((True, Some p), (p # refs, q)))"

definition example_ix_fit :: "ixxat_msg \<Rightarrow> ixxat_msg" where
  "example_ix_fit m = m\<lparr>xm_abData := take 8 (xm_abData m @ replicate 8 0)\<rparr>"

definition example_ixvci :: "example_ixvci_state ixvci" where
  "example_ixvci = \<lparr>ix_GetDeviceManager = example_ix_give 1, ix_OpenDevice = (\<lambda>_ _. example_ix_give 2),
     ix_OpenComponent = (\<lambda>_. example_ix_give 3), ix_OpenCanSocket = (\<lambda>_ _. example_ix_give 4),
     ix_OpenCanControl = (\<lambda>_ _. example_ix_give 5),
     ix_GetCapabilities = (\<lambda>_ s. ((True, \<lparr>xp_dwClockFreq = 16000000, xp_dwTscDivisor = 160\<rparr>), s)),
     ix_CreateChannel = (\<lambda>_. example_ix_give 6), ix_Initialize = (\<lambda>_ _ _ s. (True, s)),
     ix_GetReader = (\<lambda>_. example_ix_give 7), ix_GetWriter = (\<lambda>_. example_ix_give 8), ix_SetThreshold = (\<lambda>_ _ s. s),
     ix_CreateEvent = (\<lambda>s. (9, s)), ix_AssignEvent = (\<lambda>_ _ s. s), ix_Activate = (\<lambda>_ s. (True, s)), ix_Deactivate = (\<lambda>_ s. s),
     ix_InitLine = (\<lambda>_ i s. (fst (xi_sBtpSdr i) \<noteq> 0, s)), ix_SetAccFilter = (\<lambda>_ _ _ _ s. (True, s)),
     ix_StartLine = (\<lambda>_ s. s), ix_StopLine = (\<lambda>_ s. s), ix_Release = (\<lambda>p (refs, q). (remove1 p refs, q)),
     ix_AcquireRead = (\<lambda>_ (refs, q). ((q \<noteq> [], if q = [] then [] else map example_ix_fit (hd q)), (refs, q))),
     ix_ReleaseRead = (\<lambda>_ _ (refs, q). (refs, tl q)), ix_AcquireWrite = (\<lambda>_ s. ((True, []), s)),
     ix_ReleaseWrite = (\<lambda>_ _ s. (True, s)), ix_EnumDevices = (\<lambda>_ s. ((False, 0, []), s))\<rparr>"

lemma example_ixvci_refs: "ixvci_refs_ok example_ixvci (mset \<circ> fst)"
  unfolding ixvci_refs_ok_def
  by (intro conjI allI; auto simp: ix_gives_def ix_keeps_def example_ixvci_def example_ix_give_def split_beta)

theorem ixxat_releases_interfaces_witness:
  "\<exists>ch ch'. ixxat_Init example_ixvci (CanChannelIxxat ([5], []) example_device 0 123) = Some (False, ch) \<and>
    size (ixxat_held (snd ch)) = 8 \<and> ixxat_run example_ixvci [IxOpen, IxClose] ch = Some ch' \<and>
    mset (fst (vn_os (snd (snd (ixxat_DeInit example_ixvci ch'))))) = {#5#}"
proof -
  let ?init = "ixxat_Init example_ixvci (CanChannelIxxat ([5], []) example_device 0 123)"
  have "map_option (\<lambda>(r, ch). (r, ix_device_mgr (snd ch), ix_device (snd ch), ix_device_bal (snd ch), ix_can_socket (snd ch),
      ix_can_channel (snd ch), ix_can_control (snd ch), ix_can_reader (snd ch), ix_can_writer (snd ch))) ?init =
    Some (False, Some 1, Some 2, Some 3, Some 4, Some 6, Some 5, Some 7, Some 8)"
    by code_simp
  then obtain ch where init: "?init = Some (False, ch)" and held: "size (ixxat_held (snd ch)) = 8"
    by (auto simp: ixxat_held_def)
  obtain ch' where run: "ixxat_run example_ixvci [IxOpen, IxClose] ch = Some ch'"
    by simp
  show ?thesis
    using ixxat_releases_interfaces [OF example_ixvci_refs init run] init held run by auto
qed

lemma example_ixxat_inits:
  "\<exists>ch. ixxat_Init example_ixvci (CanChannelIxxat ([], []) example_device 0 500000) = Some (True, ch)"
proof -
  have "map_option fst (ixxat_Init example_ixvci (CanChannelIxxat ([], []) example_device 0 500000)) = Some True"
    by code_simp
  then show ?thesis
    by auto
qed


section \<open>Receiving\<close>

text \<open>
  The documented behaviour of the reader: \<open>AcquireRead\<close> shows the messages that wait, \<open>ReleaseRead\<close>
  takes them away, and with none \<open>AcquireRead\<close> fails.
\<close>

definition ixvci_reads :: "'o ixvci \<Rightarrow> nat \<Rightarrow> ('o \<Rightarrow> ixxat_msg list list) \<Rightarrow> bool" where
  "ixvci_reads api r batches \<longleftrightarrow>
     (\<forall>s. case batches s of
            [] \<Rightarrow> \<not> fst (fst (ix_AcquireRead api r s)) \<and> batches (snd (ix_AcquireRead api r s)) = []
          | ms # rest \<Rightarrow> fst (ix_AcquireRead api r s) = (True, ms) \<and>
              batches (ix_ReleaseRead api r (length ms) (snd (ix_AcquireRead api r s))) = rest \<and>
              (\<forall>m\<in>set ms. length (xm_abData m) = 8))"

definition ixxat_incoming :: "ixxat_caps \<Rightarrow> ixxat_msg list \<Rightarrow> uni_can_message list" where
  "ixxat_incoming caps ms = map (the \<circ> ixxat_message True caps) (filter (\<lambda>m. xm_bType m = CAN_MSGTYPE_DATA) ms)"

definition ixxat_ready :: "'o ixvci \<Rightarrow> ixxat_caps \<Rightarrow> ('o \<Rightarrow> ixxat_msg list list) \<Rightarrow> 'o ixxat \<Rightarrow> bool" where
  "ixxat_ready api caps batches x \<longleftrightarrow> xp_dwClockFreq caps \<noteq> 0 \<and> ix_can_capabilities x = caps \<and>
     (case ix_can_reader x of None \<Rightarrow> False | Some r \<Rightarrow> ixvci_reads api r batches)"

lemma ixxat_message_eq:
  assumes "xp_dwClockFreq caps \<noteq> 0" "length (xm_abData m) = 8"
  shows "ixxat_message True caps m = Some \<lparr>
    cm_time_us = ucast (xm_dwTime m) * 1000000 * ucast (xp_dwTscDivisor caps) div ucast (xp_dwClockFreq caps),
    cm_id = xm_dwMsgId m, cm_flags = 0, cm_data = Inline (xm_abData m), cm_len = of_nat (CAN_EDLC_TO_LEN (ixxat_dlc m))\<rparr>"
  using assms by (simp add: ixxat_message_def received_message_Some)

lemma ixxat_push_delivers:
  assumes "xp_dwClockFreq caps \<noteq> 0" "\<forall>m\<in>set ms. length (xm_abData m) = 8"
  shows "ixxat_push True caps ms b = Some (channel_deliver_all (ixxat_incoming caps ms) b)"
  using assms
  by (induction ms arbitrary: b) (simp_all add: ixxat_incoming_def ixxat_message_eq split_beta Let_def)

interpretation ixxat_rx: frame_loop "ixxat_threadProcReceive api True" "\<lambda>x. batches (vn_os x)" "ixxat_incoming caps"
  "ixxat_ready api caps batches"
proof unfold_locales
  fix x :: "'a ixxat" and b ms rest
  assume ready: "ixxat_ready api caps batches x"
  then obtain r where r: "ix_can_reader x = Some r" "ixvci_reads api r batches" "xp_dwClockFreq caps \<noteq> 0"
    "ix_can_capabilities x = caps"
    by (auto simp: ixxat_ready_def split: option.splits)
  have still: "ixxat_ready api caps batches (x\<lparr>vn_os := s\<rparr>)" for s
    using ready by (simp add: ixxat_ready_def)
  obtain ok msgs s where read: "ix_AcquireRead api r (vn_os x) = ((ok, msgs), s)"
    by (metis prod.collapse)
  note law = r(2) [unfolded ixvci_reads_def, THEN spec, of "vn_os x"]
  show "\<exists>x'. ixxat_threadProcReceive api True (b, x) = Some (False, (b, x'), []) \<and> ixxat_ready api caps batches x' \<and>
      batches (vn_os x') = []"
    if "batches (vn_os x) = []"
  proof -
    have "\<not> ok" "batches s = []"
      using law by (simp_all add: that read)
    with still [of s] show ?thesis
      by (intro exI [of _ "x\<lparr>vn_os := s\<rparr>"]) (simp add: ixxat_threadProcReceive_def r(1) read)
  qed
  show "\<exists>x'. ixxat_threadProcReceive api True (b, x) = Some (True, fst (delivered (ixxat_incoming caps ms) b x'),
        snd (delivered (ixxat_incoming caps ms) b x')) \<and> ixxat_ready api caps batches x' \<and> batches (vn_os x') = rest"
    if "batches (vn_os x) = ms # rest"
  proof -
    have got: "ok" "msgs = ms" "batches (ix_ReleaseRead api r (length ms) s) = rest" "\<forall>m\<in>set ms. length (xm_abData m) = 8"
      using law by (simp_all add: that read)
    let ?x = "x\<lparr>vn_os := ix_ReleaseRead api r (length ms) s\<rparr>"
    have "ixxat_threadProcReceive api True (b, x) = Some (True, fst (delivered (ixxat_incoming caps ms) b ?x),
        snd (delivered (ixxat_incoming caps ms) b ?x))"
      using got(1)
      by (simp add: ixxat_threadProcReceive_def r(1,4) read got(2) ixxat_push_delivers [OF r(3) got(4)] delivered_def split_beta)
    with got(3) still show ?thesis
      by (intro exI [of _ ?x]) simp
  qed
qed

text \<open>
  The data frames that wait in an IXXAT reader reach the application, in order and each once. The
  length of a message is decoded with the table of CAN FD, although its data are always eight bytes: the
  length code 9 to 15 that a classic frame may carry gives a message that claims 12 to 64 bytes.
\<close>

theorem ixxat_delivers_in_order:
  assumes ready: "ixxat_ready api caps batches x" and live: "\<not> ad_deleted a" "ad_vtable a = ixxat_vtable api"
    and msgs: "msgs = cb_receive_queue b @ concat (map (ixxat_incoming caps) (batches (vn_os x)))"
  shows "\<exists>ch calls. ixxat_threadProc api True (b, x) = Some (ch, calls) \<and>
    length calls = (if cb_receive_func b = None then 0 else length (concat (map (ixxat_incoming caps) (batches (vn_os x))))) \<and>
    (\<exists>a'. channel_receive_n adapter_ops_of (length msgs) (Some (a\<lparr>ad_channel := ch\<rparr>)) = (map Some msgs, Some a'))"
proof -
  have live: "backend_live a"
    using live by (simp add: backend_live_def ixxat_vtable_def backend_vtable_def)
  have run: "receive_rounds (loop_result (ixxat_threadProcReceive api True)) 1 (b, x) = ixxat_threadProc api True (b, x)"
    by (auto simp: ixxat_threadProc_def split: option.split)
  have "(if batches (vn_os x) = [] then 0 else 1) \<le> (1 :: nat)"
    by simp
  from ixxat_rx.rounds_reach_application [OF ready this live msgs] show ?thesis
    unfolding run .
qed

text \<open>
  C33. A frame with one of the length codes 0 to 8 becomes a message with that many of its bytes; one with
  a code from 9 to 15 becomes a message whose length is greater than the eight bytes it has.
\<close>

theorem ixxat_message_length:
  assumes "xp_dwClockFreq caps \<noteq> 0" "length (xm_abData m) = 8"
  shows "\<exists>msg. ixxat_message True caps m = Some msg \<and>
    (if ixxat_dlc m \<le> 8 then unat (cm_len msg) = ixxat_dlc m \<and> can_bytes msg = take (ixxat_dlc m) (xm_abData m)
     else 12 \<le> unat (cm_len msg) \<and> length (can_bytes msg) = 8)"
proof -
  have "ixxat_dlc m < 16"
  proof -
    have "xm_bFlags m AND 0x0F \<le> 0x0F"
      by (rule word_and_le1)
    then show ?thesis
      by (simp add: ixxat_dlc_def word_le_nat_alt)
  qed
  then have dlc: "ixxat_dlc m \<in> {0, 1, 2, 3, 4, 5, 6, 7, 8, 9, 10, 11, 12, 13, 14, 15}"
    by (auto simp: less_Suc_eq numeral_eq_Suc)
  have len: "if d \<le> 8 then unat (of_nat (CAN_EDLC_TO_LEN d) :: u16) = d else 12 \<le> unat (of_nat (CAN_EDLC_TO_LEN d) :: u16)"
    if "d \<in> {0, 1, 2, 3, 4, 5, 6, 7, 8, 9, 10, 11, 12, 13, 14, 15}" for d
    using that unfolding insert_iff empty_iff by (elim disjE; simp add: CAN_EDLC_TO_LEN_def)
  show ?thesis
    using len [OF dlc] by (auto simp: ixxat_message_eq [OF assms] can_bytes_def assms(2))
qed

definition example_ixxat_msg :: "u8 \<Rightarrow> ixxat_msg" where
  "example_ixxat_msg dlc = \<lparr>xm_dwTime = 5, xm_dwMsgId = 0x123, xm_bType = 0, xm_bFlags = dlc, xm_abData = [7, 8, 0, 0, 0, 0, 0, 0]\<rparr>"

theorem ixxat_message_length_witness:
  "let caps = \<lparr>xp_dwClockFreq = 16000000, xp_dwTscDivisor = 160\<rparr> in
   \<exists>msg. ixxat_message True caps (example_ixxat_msg 9) = Some msg \<and> 12 \<le> unat (cm_len msg) \<and> length (can_bytes msg) = 8"
proof -
  let ?caps = "\<lparr>xp_dwClockFreq = 16000000, xp_dwTscDivisor = 160\<rparr>"
  have "xp_dwClockFreq ?caps \<noteq> 0" "length (xm_abData (example_ixxat_msg 9)) = 8" "ixxat_dlc (example_ixxat_msg 9) = 9"
    by (simp_all add: example_ixxat_msg_def ixxat_dlc_def)
  with ixxat_message_length [OF this(1,2)] show ?thesis
    by simp
qed

end
