(* ===== verification/Spec2Isabelle.thy ===== *)
theory Spec2Isabelle
  imports PpQueue ImpUnacked ChannelAdapter J1939Msg J1939Tp UniHal SocketCan TxPayload
    ManagerRun ManagerThread ManagerSend RxWindow AppFrame TestsProtoplexer TestsQueue PeakCan VectorCan MarathonCan WaveshareCan IxxatCan AppSession
begin

text \<open>
  Uni.CAN is a library for CAN networks and an application on top of it. The library has one message
  type and one table of channel operations; backends for devices fill the table, protocols
  (ProtoPlexer, IMP, SAE J1939) put larger data into CAN messages, and the application connects
  channels, records what they receive and sends what the user enters. This development models these
  parts as the code has them and proves what makes each of them, and their composition, correct.

  \<^bold>\<open>How the parts interact.\<close> A factory (\<open>Factory\<close>) asks its providers for devices and makes a channel
  of one of them. The channel is a table of function pointers (\<open>CanChannel\<close>). A channel written in
  C++ derives from a base class with a queue that a reader thread fills (\<open>ChannelBase\<close>) and appears
  behind the table through an adapter (\<open>ChannelAdapter\<close>); the channel for microcontrollers fills the
  table itself (\<open>UniHal\<close>). The backends for the libraries of vendors (\<open>PeakCan\<close>, \<open>VectorCan\<close>,
  \<open>MarathonCan\<close>, \<open>WaveshareCan\<close>, \<open>IxxatCan\<close>) share the way they read, \<open>BackendReader\<close>. The manager of the application (\<open>CanManager\<close>, \<open>ManagerRun\<close>,
  \<open>ManagerThread\<close>) owns connections: a channel each, a worker thread that takes messages out of the
  channel, queues them, and hands them to subscribers. The receive window (\<open>RxWindow\<close>) subscribes, the
  transmit window (\<open>TxPayload\<close>) sends, the connect window (\<open>AppSession\<close>) configures. The first two use the dictionary (\<open>PpDictionary\<close>) for names of
  ProtoPlexer messages. The protocols only see CAN messages.

  \<^bold>\<open>Theories and the code they model.\<close> Paths are relative to \<open>src/\<close> of the repository.
  \<^item> \<open>Prelude\<close>: integers at the widths of C, bytes, masks and shifts, the heap (a function from a
    request to the memory it gives, or none when it is exhausted), \<open>memcpy\<close>, decimal printing.
  \<^item> \<open>Fifo\<close>: the contracts of first-in first-out stores as locales. \<open>CanId\<close>: the contract of packing
    fields into a CAN identifier as a locale.
  \<^item> \<open>CanMessage\<close>: \<open>uni_can_message.c\<close>; records \<open>can_message\<close> and its data union.
  \<^item> \<open>CanChannel\<close>: \<open>uni_can_channel.c\<close>; the table of operations is a record of optional functions
    over the state of the backend. The locale \<open>channel_source\<close> is the contract of a channel that
    receives.
  \<^item> \<open>ChannelBase\<close>: \<open>common_queue.h\<close>, \<open>can_channel_base.cpp\<close>; the two critical sections of
    \<open>ReceiveMessage\<close> are separate steps of a step relation.
  \<^item> \<open>ChannelAdapter\<close>: \<open>can_channel_adapter.cpp\<close>; interprets \<open>channel_source\<close>.
  \<^item> \<open>Factory\<close>: \<open>uni_can_factory.cpp\<close>, \<open>can_provider.h\<close>.
  \<^item> \<open>SocketCan\<close>: \<open>backend_socketcan\<close>, \<open>common_sysfs.cpp\<close>; the system calls are a record of
    functions over the state of the operating system.
  \<^item> \<open>BackendReader\<close>: what the channels of the backends for vendors share: the fields of their classes,
    copying into a message, the loop that reads what is there. The locale \<open>channel_reader\<close> is the
    contract of a reading thread, \<open>frame_loop\<close> that of a loop over single frames.
  \<^item> \<open>PeakCan\<close>, \<open>VectorCan\<close>, \<open>MarathonCan\<close>, \<open>WaveshareCan\<close>, \<open>IxxatCan\<close>: \<open>backend_peak\<close>,
    \<open>backend_vector\<close>, \<open>backend_marathon\<close>, \<open>backend_waveshare\<close>, \<open>backend_ixxat\<close>: channel and provider of
    each; the library of the vendor is a record of functions over a state.
  \<^item> \<open>UniHal\<close>: \<open>backend_unihal\<close>; the driver is a record of functions. Interprets \<open>channel_source\<close>.
  \<^item> \<open>Crc16\<close>, \<open>PpFrame\<close>: \<open>uni_can_protoplexer.c\<close>, the checksum, identifiers, messages and how
    a message is cut into chunks.
  \<^item> \<open>PpReassembly\<close>: the buffers of a context and \<open>uni_can_protoplexer_add_chunk\<close>.
  \<^item> \<open>PpRefinement\<close>: the abstract receiver, one partial transfer per pair of sender and message, and
    the simulation. \<open>PpDelivery\<close>: what users of a context get, also when senders interleave.
  \<^item> \<open>PpQueue\<close>: \<open>uni_can_protoplexer_queue.c\<close>; interprets \<open>bounded_fifo\<close> for both rings.
  \<^item> \<open>Imp\<close>: \<open>uni_can_protocol_imp.c\<close>, identifiers, messages, sessions, the whole of \<open>add_frame\<close>,
    \<open>transmit_message\<close> and \<open>process\<close>. \<open>ImpInvariant\<close>: the invariant of a context over all its
    operations. \<open>ImpTransfer\<close>: two contexts joined by a wire. \<open>ImpLoss\<close>: a wire that loses
    frames, and sessions that end. \<open>ImpUnacked\<close>: transfers without acknowledgement and to everyone.
  \<^item> \<open>J1939Pgn\<close>, \<open>J1939Msg\<close>, \<open>J1939Tp\<close>: \<open>uni_can_j1939_pgn.c\<close>, \<open>uni_can_j1939_msg.c\<close>, and the types
    of \<open>uni_can_j1939_tp.h\<close>.
  \<^item> \<open>TextNumbers\<close>: numbers in text as \<open>stoi\<close>, \<open>stoul\<close> and streams read and print them.
  \<^item> \<open>PpDictionary\<close>: \<open>src_app/protoplexer_dictionary.cpp\<close>.
  \<^item> \<open>CanManager\<close>, \<open>ManagerRun\<close>, \<open>ManagerThread\<close>: \<open>src_app/can_mgr.cpp\<close>: the state and the
    functions, what they do, and the interleaving of \<open>Disconnect\<close> with a worker. \<open>ManagerSend\<close>: a
    running worker interleaved with threads that give it packets and with the reader of the channel.
  \<^item> \<open>TxPayload\<close>: \<open>src_app/window_can_tx.cpp\<close>. \<open>RxWindow\<close>: \<open>src_app/window_can_rx.cpp\<close>, the entries,
    the filter, the rows that are drawn, and the race of the worker with the window. \<open>AppEndToEnd\<close>:
    from the transmit window of one application to the receive window of another.
  \<^item> \<open>AppSession\<close>: \<open>src_app/window_can_connect.cpp\<close>, the raw frame tab of
    \<open>src_app/window_can_tx.cpp\<close>, and sessions: sequences of passes of the windows and rounds of the
    worker over one manager. \<open>AppFrame\<close>: \<open>src_app/main.cpp\<close>, \<open>src_app/topbar.cpp\<close>,
    \<open>src_app/app_state.h\<close>, \<open>src_app/can_mgr_state.cpp\<close>, all windows of the application, frame by frame.
  \<^item> \<open>TestsLibrary\<close>, \<open>TestsProtoplexer\<close>, \<open>TestsQueue\<close>: the tests of the library (\<open>src_tests\<close>), run on the
    definitions above: a requirement that fails is \<open>None\<close>.

  \<^bold>\<open>How state and errors are modelled.\<close> Structures and classes are records, enumerations datatypes or
  words, and each function takes the state it may change and returns it changed. Allocation can fail
  at every call: the heap is a parameter, and statements that need memory say so. A dereferenced null
  pointer, a write outside a buffer or an uncaught exception is the value \<open>None\<close>; result codes are
  the values of the code. What the operating system, a vendor library, the Uni.HAL driver, the JSON
  parser or floating point does is a parameter, with the laws a statement relies on as hypotheses and
  a concrete instance in its witness. In the models of sessions each pass of a window and each round of the
  worker has a memory of its own, which does not change within it.

  \<^bold>\<open>What the lemmas show.\<close> ProtoPlexer: cutting and reassembling are inverse, for any interleaving of
  senders that the buffers can hold, with the checksum equal to polynomial division and every changed
  byte detected; the queue sends all chunks of a message or none, in order, and reports an error after
  the configured number of failures. IMP: the memory and transfer invariant over every operation, and
  an acknowledged transfer between two devices that delivers the payload and frees both sessions, also
  what is left of it when the wire loses frames; transfers without acknowledgement, to one device or to
  all; and that every session ends when time passes. J1939: identifiers and signals get back what was
  put into them, and signals do not disturb each other. Channels: received messages arrive once and in
  order through queue, adapter and manager; descriptors are not leaked. Manager: connecting makes all or nothing, the worker empties the queue, and
  \<open>Disconnect\<close> ends on some schedules and waits forever on others; packets reach the channel in the
  order they were given whatever threads do, and a notified worker sends them all, but a notification
  can be lost. Windows: the rows drawn are exactly the entries that pass the filter, the payload sent is
  the one displayed, and what is typed in one application is shown by another; a received message that
  meets a cleared list is undefined behaviour. Backends of vendors: which
  frames reach the queue, in which order, that loops over a queue of frames end and when one spins,
  that handles are released, and which received messages the receive window can draw. A session: whatever
  is selected and entered, with memory there or not in each pass, the manager has the configuration the
  window shows, and every frame sent is one that each of the seven backends can send. The application, frame by frame:
  it does not read outside its lists, and the receive window holds everything that was published. Every test of the library passes
  on the definitions of the model, which checks the definitions and is no property by itself.

  \<^bold>\<open>Loops, fuel and bounds.\<close> Loops over data are structural recursion. Loops that end because an
  external function answers so are \<open>partial_function (option)\<close>: \<open>None\<close> means the loop never ends, and
  termination is proved from a law about the answers. \<open>imp_dialogue\<close> runs two IMP devices for a given
  number of rounds; one round moves one data frame and its acknowledgement, so start, the payload in
  frames of eight bytes and end need \<open>(length payload + 7) div 8 + 2\<close> rounds, which
  \<open>imp_acked_transfer\<close> states. \<open>imp_processes\<close> calls \<open>uni_can_imp_process\<close> as often as there is work left.
  The loops of the tests run as often as the tests do, or until a queue is empty, with fuel above what
  it can hold; a test that ran out of fuel would fail. Payload lengths, counters and identifiers are kept at their C width.

  \<^bold>\<open>Not modelled.\<close> Drawing with ImGui and the wrappers around it (\<open>imgui_adds.h\<close>, its \<open>EnumCombo\<close>
  apart) are calls to a library. The backends for vendors look at the data of a message as eight bytes,
  so a transport message given to them is outside their models; the outermost waits of their threads
  are not steps, only what one wake-up does. Memory order and data races on plain variables are outside
  the interleaving models, which take the statements of a function as steps. Everything under
  \<open>3rdparty\<close> is not part of the program.
\<close>

section \<open>Messages of all backends\<close>











section \<open>Copies\<close>

text \<open>Cloning a well-formed message gives a message with the same identifier, flags, length and
  data, when the heap has memory.\<close>

theorem clone_faithful:
  assumes "can_message_wf m" "heap_total malloc"
  shows "uni_can_message_clone True malloc m = Some m"
  using assms by (rule clone_equal)

theorem clone_faithful_witness:
  "uni_can_message_clone True heap_zeros can_message_zero = Some can_message_zero"
  by (rule clone_faithful) simp_all

section \<open>A session of the application on any backend\<close>

lemma classic_bytes:
  assumes "classic f"
  shows "length (data_u8 (cm_data f)) = 8 \<and> unat (cm_len f) \<le> 8 \<and> unat (ucast (cm_len f) :: u8) \<le> 8"
proof -
  have "unat (ucast (cm_len f) :: u8) = unat (cm_len f) mod 2 ^ 8"
    by (simp add: unsigned_ucast_eq take_bit_eq_mod)
  then show ?thesis
    using assms by (auto simp: classic_def split: uni_can_message_data.splits)
qed

text \<open>
  A frame that each of the backends can give to its driver: PEAK, Vector, Marathon, Waveshare and IXXAT
  copy it without leaving a buffer or following a null pointer, and the frames written to a CAN socket
  and to the driver of a microcontroller are valid.
\<close>

definition socketcan_valid :: "can_frame \<Rightarrow> bool" where
  "socketcan_valid fr \<longleftrightarrow> unat (cf_can_dlc fr) \<le> 8 \<and> length (cf_data fr) = 8 \<and>
     (cf_can_id fr AND CAN_EFF_FLAG \<noteq> 0 \<or> cf_can_id fr AND NOT CAN_SFF_MASK = 0)"

definition unihal_sends :: "'h uni_hal \<Rightarrow> 'h uni_can_unihal_channel \<Rightarrow> uni_can_message \<Rightarrow> bool" where
  "unihal_sends hal us f \<longleftrightarrow> unihal_transmit hal us f = unihal_on us (hal_transmit_nowait hal (uhc_can us) (unihal_frame f)) \<and>
     unihal_usable (unihal_frame f) \<and> length (uhm_data (unihal_frame f)) = unat (uhm_dlc (unihal_frame f))"

definition sendable_by ::
  "'p pcan \<Rightarrow> 'v vxlapi \<Rightarrow> 'm chai \<Rightarrow> 'w vci \<Rightarrow> 'i ixvci \<Rightarrow> 'h uni_hal \<Rightarrow> 'p peak_channel \<Rightarrow> 'v vector_channel
    \<Rightarrow> 'm marathon_channel \<Rightarrow> 'w waveshare_channel \<Rightarrow> 'i ixxat_channel \<Rightarrow> 'h uni_can_unihal_channel \<Rightarrow> uni_can_message \<Rightarrow> bool" where
  "sendable_by pk vx ci ws ix hal pch vch mch wch xch us f \<longleftrightarrow>
     peak_TransmitMessage pk pch f \<noteq> None \<and> vector_TransmitMessage vx vch f \<noteq> None \<and>
     marathon_TransmitMessage ci mch f \<noteq> None \<and> waveshare_TransmitMessage ws wch f \<noteq> None \<and>
     ixxat_TransmitMessage ix xch f \<noteq> None \<and> socketcan_valid (socketcan_frame f) \<and> unihal_sends hal us f"

lemma classic_socketcan:
  assumes "classic f"
  shows "socketcan_valid (socketcan_frame f)"
proof -
  have "(x AND CAN_SFF_MASK) AND NOT CAN_SFF_MASK = 0" for x :: u32
    by (rule bit_word_eqI) (auto simp: bit_simps)
  moreover have "(x OR CAN_EFF_FLAG) AND CAN_EFF_FLAG \<noteq> 0" for x :: u32
  proof -
    have "(x OR CAN_EFF_FLAG) AND CAN_EFF_FLAG = CAN_EFF_FLAG"
      by (rule bit_word_eqI) (auto simp: bit_simps)
    then show ?thesis
      by (simp add: CAN_EFF_FLAG_def)
  qed
  ultimately show ?thesis
    using classic_bytes [OF assms] by (simp add: socketcan_valid_def socketcan_frame_def)
qed

lemma classic_unihal:
  assumes "classic f"
  shows "unihal_sends hal us f"
proof -
  note bytes = classic_bytes [OF assms]
  have "unat (ucast (cm_len f) :: u8) = unat (cm_len f)"
    using bytes by (simp add: unsigned_ucast_eq take_bit_nat_eq_self_iff)
  moreover have "\<not> can_is_tp f"
    using assms by (auto simp: classic_def can_is_tp_def can_flag_defs)
  ultimately show ?thesis
    using bytes
    by (simp add: unihal_sends_def unihal_transmit_def unihal_usable_def unihal_frame_def can_bytes_def UNI_CAN_MESSAGE_MAXLEN_def)
qed

lemma classic_sendable:
  assumes "classic f" "ix_can_writer (snd xch) \<noteq> None"
  shows "sendable_by pk vx ci ws ix hal pch vch mch wch xch us f"
proof -
  note bytes = classic_bytes [OF assms(1)]
  have "peak_TransmitMessage pk pch f \<noteq> None" "vector_TransmitMessage vx vch f \<noteq> None"
    "marathon_TransmitMessage ci mch f \<noteq> None" "waveshare_TransmitMessage ws wch f \<noteq> None"
    using bytes
    by (simp_all add: peak_TransmitMessage_def vector_TransmitMessage_def marathon_TransmitMessage_def
        waveshare_TransmitMessage_def copy_bytes_None split_beta not_less)
  moreover have "ixxat_TransmitMessage ix xch f \<noteq> None"
    using bytes assms(2)
    by (auto simp: ixxat_TransmitMessage_def copy_bytes_def split_beta Let_def split: list.split)
  ultimately show ?thesis
    using classic_socketcan [OF assms(1)] classic_unihal [OF assms(1)] by (simp add: sendable_by_def)
qed

definition known_rate :: "nat \<Rightarrow> bool" where
  "known_rate rate \<longleftrightarrow> peak_bitrate (of_nat rate) \<noteq> None \<and> waveshare_timing (of_nat rate) \<noteq> None \<and>
     marathon_timing (of_nat rate) \<noteq> (0, 0) \<and> ixxat_timing (of_nat rate) \<noteq> (0, 0, 0, 0)"

lemma offered_rates_known: "list_all known_rate cw_baudrates"
  by (simp add: cw_baudrates_def known_rate_def peak_bitrate_def waveshare_timing_def marathon_timing_def ixxat_timing_def)

text \<open>
  C19. Whatever the user does in the connect window, the top bar and the two transmit tabs, in any order
  and with worker rounds anywhere between, on any devices and with memory there or not in each pass and
  in each round: the configuration of the manager stays the one the window shows, every frame that is
  given to the channel is one that each of the seven backends can send (an IXXAT channel after \<open>Init\<close>
  succeeded, whatever was opened, closed, sent and received since), and the rate
  that the window shows is one for which each of the backends with a table of rates has an entry.
\<close>

theorem app_session_sendable:
  assumes "app_run handler this nc built_in es (app_new tx g) = (a, evs)"
    and "ixxat_Init ix xch0 = Some (True, xch1)" "ixxat_run ix ops xch1 = Some xch"
  shows "window_ok (ap_connect a) (ap_mgr a) \<and> list_all (sendable_by pk vx ci ws ix hal pch vch mch wch xch us) (sent evs) \<and>
    known_rate (cp_baudrate (connect_params (ap_connect a)))"
proof -
  have ok: "window_ok (ap_connect a) (ap_mgr a)" "list_all classic (sent evs)"
    using app_run_ok [OF app_new_ok assms(1)] by (simp_all add: app_ok_def)
  then have "known_rate (cw_baudrates ! cw_baudrate_idx (ap_connect a))"
    using offered_rates_known by (simp add: window_ok_def list_all_length)
  moreover have "ix_can_writer (snd xch) \<noteq> None"
    using ixxat_init_writer_there [OF assms(2)] ixxat_run_writer [OF assms(3)] by simp
  ultimately show ?thesis
    using ok by (simp add: connect_params_def list_all_iff classic_sendable)
qed

theorem app_session_sendable_witness:
  "\<exists>(a :: (bool, unit, nat, nat, nat) app) evs xch.
    app_run 1 0 0 [(example_provider, False)]
      [(example_memory, example_connect_pass), (example_memory, example_raw_pass), (example_memory, WorkerRound)]
      (app_new tx_window_new factory_start) = (a, evs) \<and>
    sent evs = [example_sent] \<and> window_ok (ap_connect a) (ap_mgr a) \<and>
    (\<forall>pch vch mch wch us. list_all (sendable_by example_pcan example_vxl example_chai example_vci example_ixvci fifo_hal
      pch vch mch wch xch us) (sent evs))"
proof -
  obtain a :: "(bool, unit, nat, nat, nat) app" and evs
    where run: "app_run 1 0 0 [(example_provider, False)]
      [(example_memory, example_connect_pass), (example_memory, example_raw_pass), (example_memory, WorkerRound)]
      (app_new tx_window_new factory_start) = (a, evs)"
    by (metis surj_pair)
  obtain xch where init: "ixxat_Init example_ixvci (CanChannelIxxat ([], []) example_device 0 500000) = Some (True, xch)"
    using example_ixxat_inits by blast
  have stays: "ixxat_run example_ixvci [] xch = Some xch"
    by simp
  note sendable = app_session_sendable [OF run init stays]
  show ?thesis
    using run example_session_sends [OF run] sendable by blast
qed


section \<open>The tests of the repository\<close>

text \<open>
  A check of the definitions, no property of its own: each of the 35 tests of the channel
  functions, of J1939 signals, of IMP, of ProtoPlexer on the heap and in memory of the application,
  and of ProtoPlexer with queues, run on the definitions of the model, meets all its requirements.
\<close>

lemma repository_tests_pass:
  "list_all (\<lambda>t. t = Some ()) [
     channel_null_is_refused, channel_missing_operations_are_refused, channel_calls_reach_the_backend,
     channel_receive_both_ways, channel_receive_on_the_heap_only, j1939_sna_parse, j1939_sna_send,
     imp_canid_mapping, imp_transfer_without_ack, imp_transfer_with_ack, imp_validator_rejects_message,
     imp_acked_transfer_times_out,
     protoplexer_crc16_known_vectors, protoplexer_canid_mapping, protoplexer_fragment_and_reassemble,
     protoplexer_chunks_count, protoplexer_build_chunk_matches_build_chunks, protoplexer_build_chunk_rejects_missing_data,
     protoplexer_static_init_checks_memory, protoplexer_static_view_reassembles, protoplexer_static_view_empty_message,
     protoplexer_static_refuses_long_message, protoplexer_static_reassembly_is_reused,
     protoplexer_static_interleaved_senders, protoplexer_view_with_heap, protoplexer_heap_payload_limit,
     protoplexer_rejects_oversized_frame,
     protoplexer_queue_init_checks_storage, protoplexer_queue_roundtrip, protoplexer_queue_send_limits,
     protoplexer_queue_outbox_wraps, protoplexer_queue_resend_and_drop, protoplexer_queue_inbox_full,
     protoplexer_queue_ignores_other_receivers, protoplexer_queue_send_from_rx_event]"
  by (simp add: library_tests protoplexer_tests queue_tests)

end
